(* ===== verification/Prelude.thy ===== *)
theory Prelude
  imports Main "HOL-Library.Word"
begin

text \<open>
  Shared vocabulary of the development: the machine types of the Rust sources, status codes and
  failures, saturating and checked arithmetic, and the model of \<open>std::collections::HashMap\<close>.

  A \<open>HashMap\<close> is an association list with distinct keys. The order of the list is the map's
  iteration order, which Rust leaves unspecified: no lemma below and no property of the
  development assumes anything about it.
\<close>

section \<open>Types\<close>

type_synonym byte = "8 word"
type_synonym bytes = "byte list"
type_synonym u8 = "8 word"
type_synonym u32 = "32 word"
type_synonym u64 = "64 word"

text \<open>Instants in nanoseconds since the Unix epoch, and durations in nanoseconds.\<close>

type_synonym timestamp = int
type_synonym duration = nat

definition from_secs :: "nat \<Rightarrow> duration" where
  "from_secs n = n * 1000000000"

lemma from_secs_mono [simp]: "from_secs m \<le> from_secs n \<longleftrightarrow> m \<le> n"
  by (simp add: from_secs_def)

lemma from_secs_pos [simp]: "0 < from_secs n \<longleftrightarrow> 0 < n"
  by (simp add: from_secs_def)

text \<open>The HTTP status codes the companion gateway answers with.\<close>

datatype status_code =
    BAD_REQUEST | UNAUTHORIZED | FORBIDDEN | MISDIRECTED_REQUEST | TOO_MANY_REQUESTS
  | REQUEST_HEADER_FIELDS_TOO_LARGE | SERVICE_UNAVAILABLE | NOT_FOUND | METHOD_NOT_ALLOWED | REQUEST_TIMEOUT
  | PAYLOAD_TOO_LARGE | INTERNAL_SERVER_ERROR | OK | NO_CONTENT | SWITCHING_PROTOCOLS

type_synonym failure = "status_code \<times> string"

text \<open>Facts that every proof about handlers uses, and preservation lemmas of the invariants.\<close>

named_theorems hm_simps \<open>lookup, size and count laws of the hash map model\<close>
named_theorems handler_simps \<open>unfolding rules of the handlers\<close>

section \<open>Arithmetic of the machine integers\<close>

definition saturating_add :: "'a::len word \<Rightarrow> 'a word \<Rightarrow> 'a word" where
  "saturating_add a b = (if unat a + unat b < 2 ^ LENGTH('a) then a + b else - 1)"

definition checked_add :: "'a::len word \<Rightarrow> 'a word \<Rightarrow> 'a word option" where
  "checked_add a b = (if unat a + unat b < 2 ^ LENGTH('a) then Some (a + b) else None)"

lemma unat_max_word_eq: "unat (- 1 :: 'a::len word) = 2 ^ LENGTH('a) - 1"
  by (simp add: unsigned_minus_1_eq_mask mask_eq_exp_minus_1)

lemma unat_saturating_add:
  "unat (saturating_add a b) = min (unat a + unat b) (2 ^ LENGTH('a) - 1)"
  for a b :: "'a::len word"
  by (auto simp: saturating_add_def unat_word_ariths unat_max_word_eq min_def take_bit_eq_mod)

lemma checked_add_Some_iff:
  "checked_add a b = Some c \<longleftrightarrow> unat a + unat b < 2 ^ LENGTH('a) \<and> c = a + b"
  for a b c :: "'a::len word"
  by (auto simp: checked_add_def)

lemma unat_checked_add:
  "checked_add a b = Some c \<Longrightarrow> unat c = unat a + unat b"
  for a b c :: "'a::len word"
  by (auto simp: checked_add_Some_iff unat_word_ariths take_bit_eq_mod)

section \<open>First minimum of a list: \<open>Iterator::min_by_key\<close>\<close>

fun min_by_key :: "('a \<Rightarrow> 'b::linorder) \<Rightarrow> 'a list \<Rightarrow> 'a option" where
  "min_by_key f [] = None"
| "min_by_key f (x # xs) =
     (case min_by_key f xs of
        None \<Rightarrow> Some x
      | Some y \<Rightarrow> if f x \<le> f y then Some x else Some y)"

lemma min_by_key_None [simp]: "min_by_key f xs = None \<longleftrightarrow> xs = []"
  by (cases xs) (auto split: option.splits)

lemma min_by_key_in: "min_by_key f xs = Some y \<Longrightarrow> y \<in> set xs"
  by (induction xs arbitrary: y) (auto split: option.splits if_splits)

lemma min_by_key_least: "min_by_key f xs = Some y \<Longrightarrow> x \<in> set xs \<Longrightarrow> f y \<le> f x"
  by (induction xs arbitrary: y x) (fastforce split: option.splits if_splits)+

section \<open>The hash map model\<close>

type_synonym ('k, 'v) hmap = "('k \<times> 'v) list"

definition hm_get :: "('k, 'v) hmap \<Rightarrow> 'k \<Rightarrow> 'v option" where
  "hm_get m k = map_of m k"

fun hm_insert :: "'k \<Rightarrow> 'v \<Rightarrow> ('k, 'v) hmap \<Rightarrow> ('k, 'v) hmap" where
  "hm_insert k v [] = [(k, v)]"
| "hm_insert k v (p # m) = (if fst p = k then (k, v) # m else p # hm_insert k v m)"

definition hm_remove :: "'k \<Rightarrow> ('k, 'v) hmap \<Rightarrow> ('k, 'v) hmap" where
  "hm_remove k m = filter (\<lambda>p. fst p \<noteq> k) m"

definition hm_retain :: "('k \<Rightarrow> 'v \<Rightarrow> bool) \<Rightarrow> ('k, 'v) hmap \<Rightarrow> ('k, 'v) hmap" where
  "hm_retain P m = filter (\<lambda>(k, v). P k v) m"

definition hm_count :: "('v \<Rightarrow> bool) \<Rightarrow> ('k, 'v) hmap \<Rightarrow> nat" where
  "hm_count P m = length (filter (\<lambda>p. P (snd p)) m)"

definition hm_wf :: "('k, 'v) hmap \<Rightarrow> bool" where
  "hm_wf m \<longleftrightarrow> distinct (map fst m)"

lemma hm_get_Nil [simp]: "hm_get [] k = None"
  by (simp add: hm_get_def)

lemma hm_get_Cons [simp]: "hm_get (p # m) k = (if fst p = k then Some (snd p) else hm_get m k)"
  by (cases p) (simp add: hm_get_def)

lemma hm_wf_Nil [simp]: "hm_wf []"
  by (simp add: hm_wf_def)

lemma hm_wf_Cons [simp]: "hm_wf (p # m) \<longleftrightarrow> fst p \<notin> fst ` set m \<and> hm_wf m"
  by (simp add: hm_wf_def)

lemma hm_get_None_iff: "hm_get m k = None \<longleftrightarrow> k \<notin> fst ` set m"
  by (simp add: hm_get_def map_of_eq_None_iff)

lemma hm_get_in: "hm_get m k = Some v \<Longrightarrow> (k, v) \<in> set m"
  by (simp add: hm_get_def map_of_SomeD)

lemma hm_get_iff: "hm_wf m \<Longrightarrow> hm_get m k = Some v \<longleftrightarrow> (k, v) \<in> set m"
  by (simp add: hm_get_def hm_wf_def)

lemma hm_get_insert [simp, hm_simps]:
  "hm_get (hm_insert k v m) k' = (if k = k' then Some v else hm_get m k')"
  by (induction m) auto

lemma hm_get_remove [simp, hm_simps]:
  "hm_get (hm_remove k m) k' = (if k = k' then None else hm_get m k')"
  by (induction m) (auto simp: hm_remove_def)

lemma hm_get_retain [hm_simps]:
  "hm_wf m \<Longrightarrow> hm_get (hm_retain P m) k =
     (case hm_get m k of None \<Rightarrow> None | Some v \<Rightarrow> if P k v then Some v else None)"
  by (induction m) (auto simp: hm_retain_def hm_get_None_iff split: option.splits)

lemma set_hm_insert: "set (hm_insert k v m) \<subseteq> insert (k, v) (set m)"
  by (induction m) auto

lemma fst_set_hm_insert [simp]: "fst ` set (hm_insert k v m) = insert k (fst ` set m)"
  by (induction m) auto

lemma hm_wf_insert [simp, intro]: "hm_wf m \<Longrightarrow> hm_wf (hm_insert k v m)"
  by (induction m) auto

lemma hm_wf_filter: "hm_wf m \<Longrightarrow> hm_wf (filter P m)"
  by (induction m) auto

lemma hm_wf_remove [simp, intro]: "hm_wf m \<Longrightarrow> hm_wf (hm_remove k m)"
  by (simp add: hm_remove_def hm_wf_filter)

lemma hm_wf_retain [simp, intro]: "hm_wf m \<Longrightarrow> hm_wf (hm_retain P m)"
  by (simp add: hm_retain_def hm_wf_filter)

lemma length_hm_insert [hm_simps]:
  "length (hm_insert k v m) = (if hm_get m k = None then Suc (length m) else length m)"
  by (induction m) auto

lemma length_hm_remove_le [simp]: "length (hm_remove k m) \<le> length m"
  by (simp add: hm_remove_def)

lemma length_hm_remove_less: "hm_get m k \<noteq> None \<Longrightarrow> length (hm_remove k m) < length m"
  by (induction m) (auto simp: hm_remove_def less_Suc_eq_le split: if_splits)

lemma length_hm_retain_le [simp]: "length (hm_retain P m) \<le> length m"
  by (simp add: hm_retain_def)

lemma hm_count_Nil [simp]: "hm_count P [] = 0"
  by (simp add: hm_count_def)

lemma hm_count_Cons [simp]: "hm_count P (p # m) = (if P (snd p) then Suc (hm_count P m) else hm_count P m)"
  by (simp add: hm_count_def)

lemma hm_count_le_length: "hm_count P m \<le> length m"
  by (simp add: hm_count_def)

lemma hm_count_insert_new:
  "hm_get m k = None \<Longrightarrow> hm_count P (hm_insert k v m) = hm_count P m + of_bool (P v)"
  by (induction m) auto

lemma hm_count_insert_old:
  "hm_get m k = Some u \<Longrightarrow>
     hm_count P (hm_insert k v m) + of_bool (P u) = hm_count P m + of_bool (P v)"
  by (induction m) (auto split: if_splits)

lemma hm_count_insert_le_old:
  "hm_get m k = Some u \<Longrightarrow> (P v \<Longrightarrow> P u) \<Longrightarrow> hm_count P (hm_insert k v m) \<le> hm_count P m"
  using hm_count_insert_old [of m k u P v] by (auto simp: of_bool_def split: if_splits)

lemma hm_count_filter_le: "hm_count P (filter Q m) \<le> hm_count P m"
  by (induction m) auto

lemma hm_count_remove_le: "hm_count P (hm_remove k m) \<le> hm_count P m"
  by (simp add: hm_remove_def hm_count_filter_le)

lemma hm_count_retain_le: "hm_count P (hm_retain Q m) \<le> hm_count P m"
  by (simp add: hm_retain_def hm_count_filter_le)

lemma hm_count_remove_less:
  "hm_get m k = Some v \<Longrightarrow> P v \<Longrightarrow> hm_count P (hm_remove k m) < hm_count P m"
  by (induction m) (auto simp: hm_remove_def less_Suc_eq_le hm_count_filter_le split: if_splits)

lemma hm_count_mono: "(\<And>p. p \<in> set m \<Longrightarrow> P (snd p) \<Longrightarrow> Q (snd p)) \<Longrightarrow> hm_count P m \<le> hm_count Q m"
  by (induction m) (auto simp: le_Suc_eq)

lemma hm_count_0_iff: "hm_count P m = 0 \<longleftrightarrow> (\<forall>p \<in> set m. \<not> P (snd p))"
  by (induction m) auto

subsection \<open>The interface the components rely on\<close>

text \<open>
  Every table of the gateway (pairings, devices, sessions, peers, ceremonies, deferred audits) is
  a keyed store: the laws below are what its client proofs use. The hash map model provides them.
\<close>

locale keyed_store =
  fixes get :: "'m \<Rightarrow> 'k \<Rightarrow> 'v option"
    and put :: "'k \<Rightarrow> 'v \<Rightarrow> 'm \<Rightarrow> 'm"
    and del :: "'k \<Rightarrow> 'm \<Rightarrow> 'm"
    and keep :: "('k \<Rightarrow> 'v \<Rightarrow> bool) \<Rightarrow> 'm \<Rightarrow> 'm"
    and wf :: "'m \<Rightarrow> bool"
  assumes get_put: "get (put k v m) k' = (if k = k' then Some v else get m k')"
    and get_del: "get (del k m) k' = (if k = k' then None else get m k')"
    and get_keep: "wf m \<Longrightarrow> get (keep P m) k =
          (case get m k of None \<Rightarrow> None | Some v \<Rightarrow> if P k v then Some v else None)"
    and wf_put: "wf m \<Longrightarrow> wf (put k v m)"
    and wf_del: "wf m \<Longrightarrow> wf (del k m)"
    and wf_keep: "wf m \<Longrightarrow> wf (keep P m)"
begin

lemma all_put:
  "(\<And>k v. get m k = Some v \<Longrightarrow> Q k v) \<Longrightarrow> Q k0 v0 \<Longrightarrow> get (put k0 v0 m) k = Some v \<Longrightarrow> Q k v"
  by (auto simp: get_put split: if_splits)

lemma all_del:
  "(\<And>k v. get m k = Some v \<Longrightarrow> Q k v) \<Longrightarrow> get (del k0 m) k = Some v \<Longrightarrow> Q k v"
  by (auto simp: get_del split: if_splits)

lemma all_keep:
  "wf m \<Longrightarrow> (\<And>k v. get m k = Some v \<Longrightarrow> P k v \<Longrightarrow> Q k v) \<Longrightarrow> get (keep P m) k = Some v \<Longrightarrow> Q k v"
  by (auto simp: get_keep split: option.splits if_splits)

lemma keep_drops: "wf m \<Longrightarrow> (\<And>v. get m k = Some v \<Longrightarrow> \<not> P k v) \<Longrightarrow> get (keep P m) k = None"
  by (auto simp: get_keep split: option.splits)

lemma put_put: "get (put k v (put k u m)) k' = get (put k v m) k'"
  by (simp add: get_put)

end

interpretation hm: keyed_store hm_get hm_insert hm_remove hm_retain hm_wf
  by unfold_locales (auto simp: hm_get_retain)

subsection \<open>Running a handler on one entry\<close>

text \<open>
  \<open>entries.get_mut(id).ok_or(INVALID)?\<close> followed by code that mutates the entry: whatever the
  code returns, the mutated entry stays in the map.
\<close>

definition hm_with ::
  "('k, 'v) hmap \<Rightarrow> 'k \<Rightarrow> 'e \<Rightarrow> ('v \<Rightarrow> 's \<Rightarrow> ('e + 'a) \<times> 'v \<times> 's) \<Rightarrow> 's \<Rightarrow> ('e + 'a) \<times> ('k, 'v) hmap \<times> 's" where
  "hm_with m k err f s =
     (case hm_get m k of
        None \<Rightarrow> (Inl err, m, s)
      | Some v \<Rightarrow> (case f v s of (r, v', s') \<Rightarrow> (r, hm_insert k v' m, s')))"

lemma hm_with_wf: "hm_wf m \<Longrightarrow> hm_with m k err f s = (r, m', s') \<Longrightarrow> hm_wf m'"
  by (auto simp: hm_with_def split: option.splits prod.splits)

lemma hm_with_other: "hm_with m k err f s = (r, m', s') \<Longrightarrow> k' \<noteq> k \<Longrightarrow> hm_get m' k' = hm_get m k'"
  by (auto simp: hm_with_def split: option.splits prod.splits)

lemma hm_with_length: "hm_with m k err f s = (r, m', s') \<Longrightarrow> length m' = length m"
  by (auto simp: hm_with_def length_hm_insert split: option.splits prod.splits)

lemma hm_with_self:
  "hm_get m k = Some v \<Longrightarrow> f v s = (r, v', s') \<Longrightarrow> hm_with m k err f s = (r, hm_insert k v' m, s')"
  by (simp add: hm_with_def)

lemma hm_with_Inr:
  "hm_with m k err f s = (Inr x, m', s') \<longleftrightarrow>
     (\<exists>v v'. hm_get m k = Some v \<and> f v s = (Inr x, v', s') \<and> m' = hm_insert k v' m)"
  by (auto simp: hm_with_def split: option.splits prod.splits)

end
