(* ===== verification/Text.thy ===== *)
theory Text
  imports Prelude
begin

text \<open>
  The parts of Rust's string library the sources use. A \<open>&str\<close> or byte slice is a \<open>string\<close>
  whose characters are its bytes, so \<open>length\<close> is \<open>str::len\<close>; \<open>chars\<close> decodes the UTF-8
  code points where the source iterates over characters.
\<close>

section \<open>Bytes and characters\<close>

abbreviation code :: "char \<Rightarrow> nat" where
  "code c \<equiv> of_char c"

definition str_bytes :: "string \<Rightarrow> bytes" where
  "str_bytes s = map of_char s"

definition bytes_str :: "bytes \<Rightarrow> string" where
  "bytes_str bs = map (\<lambda>b. char_of (unat b)) bs"

lemma length_str_bytes [simp]: "length (str_bytes s) = length s"
  by (simp add: str_bytes_def)

lemma length_bytes_str [simp]: "length (bytes_str bs) = length bs"
  by (simp add: bytes_str_def)

lemma of_char_char_of_unat [simp]: "(of_char (char_of (unat b)) :: 8 word) = b"
proof -
  have "unat b < 2 ^ LENGTH(8)" by (rule unsigned_less)
  then have "unat b < 256" by simp
  then have "(of_char (char_of (unat b)) :: nat) = unat b" by (simp add: of_char_of)
  then have "of_nat (of_char (char_of (unat b)) :: nat) = b" by simp
  then show ?thesis by (simp only: of_nat_of_char)
qed

lemma str_bytes_bytes_str [simp]: "str_bytes (bytes_str bs) = bs"
  by (simp add: str_bytes_def bytes_str_def comp_def)

definition is_ascii_lowercase :: "char \<Rightarrow> bool" where
  "is_ascii_lowercase c \<longleftrightarrow> 97 \<le> code c \<and> code c \<le> 122"

definition is_ascii_uppercase :: "char \<Rightarrow> bool" where
  "is_ascii_uppercase c \<longleftrightarrow> 65 \<le> code c \<and> code c \<le> 90"

definition is_ascii_digit :: "char \<Rightarrow> bool" where
  "is_ascii_digit c \<longleftrightarrow> 48 \<le> code c \<and> code c \<le> 57"

definition is_ascii_alphanumeric :: "char \<Rightarrow> bool" where
  "is_ascii_alphanumeric c \<longleftrightarrow> is_ascii_lowercase c \<or> is_ascii_uppercase c \<or> is_ascii_digit c"

definition is_ascii_hexdigit :: "char \<Rightarrow> bool" where
  "is_ascii_hexdigit c \<longleftrightarrow> is_ascii_digit c \<or> (97 \<le> code c \<and> code c \<le> 102) \<or> (65 \<le> code c \<and> code c \<le> 70)"

definition to_ascii_lowercase :: "char \<Rightarrow> char" where
  "to_ascii_lowercase c = (if is_ascii_uppercase c then char_of (code c + 32) else c)"

definition eq_ignore_ascii_case :: "string \<Rightarrow> string \<Rightarrow> bool" where
  "eq_ignore_ascii_case a b \<longleftrightarrow> map to_ascii_lowercase a = map to_ascii_lowercase b"

section \<open>UTF-8\<close>

definition cont_byte :: "nat \<Rightarrow> bool" where
  "cont_byte b \<longleftrightarrow> 128 \<le> b \<and> b \<le> 191"

text \<open>Code points of a byte sequence; overlong forms, surrogates and values past U+10FFFF fail.\<close>

fun utf8_decode :: "nat list \<Rightarrow> nat list option" where
  "utf8_decode [] = Some []"
| "utf8_decode (a # r) =
     (if a < 128 then map_option ((#) a) (utf8_decode r)
      else if 194 \<le> a \<and> a \<le> 223 then
        (case r of
           b # r2 \<Rightarrow> if cont_byte b
             then map_option ((#) ((a - 192) * 64 + (b - 128))) (utf8_decode r2) else None
         | _ \<Rightarrow> None)
      else if 224 \<le> a \<and> a \<le> 239 then
        (case r of
           b # c # r3 \<Rightarrow> if cont_byte b \<and> cont_byte c \<and> (a = 224 \<longrightarrow> 160 \<le> b) \<and> (a = 237 \<longrightarrow> b \<le> 159)
             then map_option ((#) ((a - 224) * 4096 + (b - 128) * 64 + (c - 128))) (utf8_decode r3)
             else None
         | _ \<Rightarrow> None)
      else if 240 \<le> a \<and> a \<le> 244 then
        (case r of
           b # c # d # r4 \<Rightarrow> if cont_byte b \<and> cont_byte c \<and> cont_byte d
               \<and> (a = 240 \<longrightarrow> 144 \<le> b) \<and> (a = 244 \<longrightarrow> b \<le> 143)
             then map_option ((#) ((a - 240) * 262144 + (b - 128) * 4096 + (c - 128) * 64 + (d - 128)))
                    (utf8_decode r4)
             else None
         | _ \<Rightarrow> None)
      else None)"

definition chars :: "string \<Rightarrow> nat list" where
  "chars s = (case utf8_decode (map of_char s) of None \<Rightarrow> [] | Some cs \<Rightarrow> cs)"

definition from_utf8 :: "bytes \<Rightarrow> string option" where
  "from_utf8 bs = (case utf8_decode (map unat bs) of None \<Rightarrow> None | Some _ \<Rightarrow> Some (bytes_str bs))"

text \<open>\<open>char::is_control\<close> is the Unicode category Cc; \<open>char::is_whitespace\<close> is White\_Space.\<close>

definition is_control :: "nat \<Rightarrow> bool" where
  "is_control c \<longleftrightarrow> c \<le> 31 \<or> (127 \<le> c \<and> c \<le> 159)"

definition is_whitespace :: "nat \<Rightarrow> bool" where
  "is_whitespace c \<longleftrightarrow> (9 \<le> c \<and> c \<le> 13) \<or> c = 32 \<or> c = 133 \<or> c = 160 \<or> c = 5760
     \<or> (8192 \<le> c \<and> c \<le> 8202) \<or> c = 8232 \<or> c = 8233 \<or> c = 8239 \<or> c = 8287 \<or> c = 12288"

definition trim_by :: "('a \<Rightarrow> bool) \<Rightarrow> 'a list \<Rightarrow> 'a list" where
  "trim_by ws s = rev (dropWhile ws (rev (dropWhile ws s)))"

text \<open>\<open><[u8]>::trim_ascii\<close>: space, tab, line feed, form feed and carriage return.\<close>

definition is_ascii_whitespace :: "char \<Rightarrow> bool" where
  "is_ascii_whitespace c \<longleftrightarrow> code c \<in> {9, 10, 12, 13, 32}"

section \<open>Splitting and searching\<close>

fun split_on :: "'a \<Rightarrow> 'a list \<Rightarrow> 'a list list" where
  "split_on c [] = [[]]"
| "split_on c (x # xs) =
     (if x = c then [] # split_on c xs
      else (case split_on c xs of [] \<Rightarrow> [[x]] | s # ss \<Rightarrow> (x # s) # ss))"

definition strip_prefix :: "string \<Rightarrow> string \<Rightarrow> string option" where
  "strip_prefix pre s = (if take (length pre) s = pre then Some (drop (length pre) s) else None)"

definition strip_suffix :: "string \<Rightarrow> string \<Rightarrow> string option" where
  "strip_suffix suf s =
     (if length suf \<le> length s \<and> drop (length s - length suf) s = suf
      then Some (take (length s - length suf) s) else None)"

definition starts_with :: "string \<Rightarrow> string \<Rightarrow> bool" where
  "starts_with s pre \<longleftrightarrow> take (length pre) s = pre"

definition ends_with :: "string \<Rightarrow> string \<Rightarrow> bool" where
  "ends_with s suf \<longleftrightarrow> take (length suf) (rev s) = rev suf"

text \<open>\<open>str::find\<close> for a substring: the first index it occurs at.\<close>

fun find_str :: "string \<Rightarrow> string \<Rightarrow> nat option" where
  "find_str pat [] = (if pat = [] then Some 0 else None)"
| "find_str pat (x # xs) =
     (if starts_with (x # xs) pat then Some 0 else map_option Suc (find_str pat xs))"

lemma split_on_nonempty [simp]: "split_on c xs \<noteq> []"
  by (cases xs) (auto split: list.splits)

lemma split_on_no_sep: "s \<in> set (split_on c xs) \<Longrightarrow> c \<notin> set s"
  by (induction xs arbitrary: s) (auto split: if_splits list.splits)

lemma set_split_on: "s \<in> set (split_on c xs) \<Longrightarrow> set s \<subseteq> set xs"
  by (induction xs arbitrary: s) (fastforce split: if_splits list.splits)+

lemma split_on_id: "c \<notin> set xs \<Longrightarrow> split_on c xs = [xs]"
  by (induction xs) auto

lemma find_str_Some:
  "find_str pat s = Some i \<Longrightarrow> i + length pat \<le> length s \<and> take (length pat) (drop i s) = pat"
proof (induction pat s arbitrary: i rule: find_str.induct)
  case (2 pat x xs)
  show ?case
  proof (cases "starts_with (x # xs) pat")
    case True
    with 2 have i: "i = 0" and p: "take (length pat) (x # xs) = pat" by (auto simp: starts_with_def)
    have "length pat = length (take (length pat) (x # xs))" using p by simp
    then have "length pat \<le> length (x # xs)" by (metis length_take min.cobounded1)
    with i p show ?thesis by simp
  next
    case False
    with 2 show ?thesis by auto
  qed
qed (auto split: if_splits)

lemma starts_with_append [simp]: "starts_with (pre @ s) pre"
  by (simp add: starts_with_def)

lemma strip_prefix_Some: "strip_prefix pre s = Some r \<longleftrightarrow> s = pre @ r"
  by (auto simp: strip_prefix_def split: if_splits) (metis append_take_drop_id)

lemma strip_suffix_Some: "strip_suffix suf s = Some core \<longleftrightarrow> s = core @ suf"
  by (auto simp: strip_suffix_def split: if_splits) (metis append_take_drop_id)

section \<open>IP addresses\<close>

text \<open>
  \<open>str::parse::<IpAddr>().is_ok()\<close>. An IPv4 octet is one to three decimal digits without a
  leading zero and at most 255; an IPv6 address has eight groups of one to four hexadecimal digits,
  where \<open>::\<close> stands for one or more zero groups and the last two groups may be an IPv4 address.
\<close>

fun dec_value :: "string \<Rightarrow> nat \<Rightarrow> nat" where
  "dec_value [] acc = acc"
| "dec_value (c # cs) acc = dec_value cs (acc * 10 + (code c - 48))"

definition ipv4_octet :: "string \<Rightarrow> bool" where
  "ipv4_octet s \<longleftrightarrow> s \<noteq> [] \<and> length s \<le> 3 \<and> list_all is_ascii_digit s
     \<and> (length s = 1 \<or> hd s \<noteq> CHR ''0'') \<and> dec_value s 0 \<le> 255"

definition is_ipv4 :: "string \<Rightarrow> bool" where
  "is_ipv4 s \<longleftrightarrow> (let ps = split_on (CHR ''.'') s in length ps = 4 \<and> list_all ipv4_octet ps)"

definition ipv6_group :: "string \<Rightarrow> bool" where
  "ipv6_group s \<longleftrightarrow> s \<noteq> [] \<and> length s \<le> 4 \<and> list_all is_ascii_hexdigit s"

text \<open>The number of 16-bit groups of a colon-separated part, if it is well formed.\<close>

fun ipv6_groups :: "bool \<Rightarrow> string list \<Rightarrow> nat option" where
  "ipv6_groups v4 [] = Some 0"
| "ipv6_groups v4 [g] = (if v4 \<and> is_ipv4 g then Some 2 else if ipv6_group g then Some 1 else None)"
| "ipv6_groups v4 (g # gs) = (if ipv6_group g then map_option Suc (ipv6_groups v4 gs) else None)"

definition ipv6_part :: "bool \<Rightarrow> string \<Rightarrow> nat option" where
  "ipv6_part v4 s = (if s = [] then Some 0 else ipv6_groups v4 (split_on (CHR '':'') s))"

definition is_ipv6 :: "string \<Rightarrow> bool" where
  "is_ipv6 s =
     (case find_str ''::'' s of
        None \<Rightarrow> ipv6_part True s = Some 8
      | Some i \<Rightarrow>
          (case (ipv6_part False (take i s), ipv6_part True (drop (i + 2) s)) of
             (Some a, Some b) \<Rightarrow> a + b \<le> 7
           | _ \<Rightarrow> False))"

definition is_ip_addr :: "string \<Rightarrow> bool" where
  "is_ip_addr s \<longleftrightarrow> is_ipv4 s \<or> is_ipv6 s"

section \<open>Decimal rendering\<close>

fun nat_str :: "nat \<Rightarrow> string" where
  "nat_str n = (if n < 10 then [char_of (48 + n)] else nat_str (n div 10) @ [char_of (48 + n mod 10)])"

declare nat_str.simps [simp del]

end
