(* ===== verification/Clock.thy ===== *)
theory Clock
  imports Text
begin

text \<open>
  \<open>companion/src/clock.rs\<close>: wall-clock deadlines with a monotonic floor. A \<open>Timestamp\<close> is an
  integer number of nanoseconds; the two environment inputs of a reading, \<open>Instant::now()\<close> and
  \<open>Utc::now()\<close>, are arguments. The shared \<open>skew\<close> cell is part of the clock's state and is
  returned updated. Handlers of other components take each reading they make of the clock as a
  separate argument; the results here say how such readings are ordered.
\<close>

section \<open>Timestamps\<close>

definition after :: "timestamp \<Rightarrow> duration \<Rightarrow> timestamp" where
  "after t d = t + int d"

lemma after_mono [simp]: "after t d \<le> after t d' \<longleftrightarrow> d \<le> d'"
  by (simp add: after_def)

lemma after_ge [simp]: "t \<le> after t d"
  by (simp add: after_def)

lemma after_gt [simp]: "t < after t d \<longleftrightarrow> 0 < d"
  by (simp add: after_def)

text \<open>The separator \<open>utc_shape\<close> expects at an index of the first nineteen bytes.\<close>

definition utc_separator :: "nat \<Rightarrow> char option" where
  "utc_separator i =
     (if i = 4 \<or> i = 7 then Some (CHR ''-'')
      else if i = 10 then Some (CHR ''T'')
      else if i = 13 \<or> i = 16 then Some (CHR '':'')
      else None)"

definition utc_byte_ok :: "nat \<Rightarrow> char \<Rightarrow> bool" where
  "utc_byte_ok i b =
     (case utc_separator i of None \<Rightarrow> is_ascii_digit b | Some expected \<Rightarrow> b = expected)"

definition utc_shape :: "string \<Rightarrow> bool" where
  "utc_shape value =
     (case (case strip_suffix ''Z'' value of Some core \<Rightarrow> Some core
            | None \<Rightarrow> strip_suffix ''+00:00'' value) of
        None \<Rightarrow> False
      | Some core \<Rightarrow>
          if length core < 19 then False
          else if \<not> list_all (\<lambda>(i, b). utc_byte_ok i b) (enumerate 0 (take 19 core)) then False
          else length core = 19
             \<or> (21 \<le> length core \<and> length core \<le> 29 \<and> core ! 19 = CHR ''.''
                 \<and> list_all is_ascii_digit (drop 20 core)))"

section \<open>The clock\<close>

record clock =
  ck_wall :: timestamp
  ck_start :: nat
  ck_system :: bool
  ck_skew :: int

text \<open>\<open>Default::default\<close> reads both clocks once; \<open>Clock::at\<close> anchors a clock without wall time.\<close>

definition clock_default :: "nat \<Rightarrow> timestamp \<Rightarrow> clock" where
  "clock_default instant utc = \<lparr>ck_wall = utc, ck_start = instant, ck_system = True, ck_skew = 0\<rparr>"

definition clock_at :: "timestamp \<Rightarrow> nat \<Rightarrow> clock" where
  "clock_at wall instant = \<lparr>ck_wall = wall, ck_start = instant, ck_system = False, ck_skew = 0\<rparr>"

text \<open>\<open>start.elapsed()\<close> saturates at zero, as natural subtraction does.\<close>

definition observe :: "clock \<Rightarrow> nat \<Rightarrow> timestamp option \<Rightarrow> timestamp \<times> clock" where
  "observe ck instant system =
     (let monotonic = after (ck_wall ck) (instant - ck_start ck);
          skew = (case system of None \<Rightarrow> ck_skew ck | Some s \<Rightarrow> max (ck_skew ck) (s - monotonic))
      in (monotonic + skew, ck\<lparr>ck_skew := skew\<rparr>))"

definition clock_now :: "clock \<Rightarrow> nat \<Rightarrow> timestamp \<Rightarrow> timestamp \<times> clock" where
  "clock_now ck instant utc = observe ck instant (if ck_system ck then Some utc else None)"

text \<open>\<open>(deadline - now).to_std().unwrap_or_default()\<close>: negative differences become zero.\<close>

definition clock_remaining :: "timestamp \<Rightarrow> timestamp \<Rightarrow> nat" where
  "clock_remaining deadline t = nat (deadline - t)"

text \<open>
  \<open>Clock::until\<close>. Each list element is one round of the environment: by how much the sleep
  overshot the requested duration, and the wall clock at that round. \<open>None\<close> means the loop
  was still running when the environment's list ended.
\<close>

fun clock_until ::
  "clock \<Rightarrow> nat \<Rightarrow> timestamp \<Rightarrow> (nat \<times> timestamp) list \<Rightarrow> (timestamp \<times> clock \<times> nat) option" where
  "clock_until ck instant deadline [] = None"
| "clock_until ck instant deadline ((late, utc) # env) =
     (case clock_now ck instant utc of (t, ck') \<Rightarrow>
        if clock_remaining deadline t = 0 then Some (t, ck', instant)
        else clock_until ck' (instant + min (clock_remaining deadline t) (from_secs 1) + late)
               deadline env)"

text \<open>A sequence of readings: the instant and the wall clock at each.\<close>

fun clock_run :: "clock \<Rightarrow> (nat \<times> timestamp) list \<Rightarrow> timestamp list" where
  "clock_run ck [] = []"
| "clock_run ck ((instant, utc) # env) =
     (case clock_now ck instant utc of (t, ck') \<Rightarrow> t # clock_run ck' env)"

text \<open>The earliest value a reading at an instant can return.\<close>

definition clock_floor :: "clock \<Rightarrow> nat \<Rightarrow> timestamp" where
  "clock_floor ck instant = after (ck_wall ck) (instant - ck_start ck) + ck_skew ck"

section \<open>Readings never go back and never stall\<close>

text \<open>
  What the rest of the gateway relies on: from one reading to the next, time advances at least as
  much as the monotonic clock does, whatever the wall clock does.
\<close>

locale monotonic_clock =
  fixes read :: "'c \<Rightarrow> nat \<Rightarrow> timestamp \<Rightarrow> timestamp \<times> 'c"
    and started :: "'c \<Rightarrow> nat"
    and floor :: "'c \<Rightarrow> nat \<Rightarrow> timestamp"
  assumes read_floor: "read c i u = (t, c') \<Longrightarrow> floor c i \<le> t"
    and floor_advances: "started c \<le> i \<Longrightarrow> i \<le> j \<Longrightarrow> read c i u = (t, c') \<Longrightarrow> t + int (j - i) \<le> floor c' j"
    and started_read: "read c i u = (t, c') \<Longrightarrow> started c' = started c"
begin

lemma next_reading:
  assumes "started c \<le> i" and "i \<le> j" and "read c i u = (t, c')" and "read c' j v = (t', c'')"
  shows "t + int (j - i) \<le> t'"
  using floor_advances [OF assms(1-3)] read_floor [OF assms(4)] by linarith

lemma never_rewinds:
  assumes "started c \<le> i" and "i \<le> j" and "read c i u = (t, c')" and "read c' j v = (t', c'')"
  shows "t \<le> t'"
  using next_reading [OF assms] by linarith

end

interpretation ck: monotonic_clock clock_now ck_start clock_floor
  by unfold_locales
    (auto simp: clock_now_def observe_def clock_floor_def after_def Let_def split: option.splits)

lemma clock_run_ge:
  "\<lbrakk>ck_start ck \<le> i; i \<le> fst (hd env); sorted (map fst env); clock_now ck i u = (t, ck');
    x \<in> set (clock_run ck' env)\<rbrakk> \<Longrightarrow> t \<le> x"
proof (induction env arbitrary: ck ck' i u t)
  case (Cons p env)
  obtain j v where p: "p = (j, v)" by (cases p)
  obtain t1 c1 where r: "clock_now ck' j v = (t1, c1)" by (cases "clock_now ck' j v")
  have start: "ck_start ck' = ck_start ck" using Cons.prems(4) by (rule ck.started_read)
  have step: "t \<le> t1" using ck.never_rewinds [OF Cons.prems(1) _ Cons.prems(4) r] Cons.prems(2) p by simp
  show ?case
  proof (cases "x = t1")
    case False
    with Cons.prems p r have x: "x \<in> set (clock_run c1 env)" by simp
    then have ne: "env \<noteq> []" by auto
    then have "j \<le> fst (hd env)" using Cons.prems(3) p by (cases env) auto
    moreover have "ck_start ck' \<le> j" using start Cons.prems(1,2) p by simp
    ultimately have "t1 \<le> x" using Cons.IH [OF _ _ _ r x] Cons.prems(3) by simp
    with step show ?thesis by simp
  qed (use step in simp)
qed simp

text \<open>
  The readings of one clock never decrease, in whatever way the wall clock moves: along any
  sequence of readings whose monotonic instants are ordered, the returned timestamps are sorted,
  so an expired deadline stays expired.
\<close>

theorem clock_readings_sorted:
  assumes "sorted (map fst env)" and "\<forall>p \<in> set env. ck_start ck \<le> fst p"
  shows "sorted (clock_run ck env)"
  using assms
proof (induction env arbitrary: ck)
  case (Cons p env)
  obtain i u where p: "p = (i, u)" by (cases p)
  obtain t c1 where r: "clock_now ck i u = (t, c1)" by (cases "clock_now ck i u")
  have start: "ck_start c1 = ck_start ck" using r by (rule ck.started_read)
  have "sorted (clock_run c1 env)" using Cons start by simp
  moreover have "t \<le> x" if "x \<in> set (clock_run c1 env)" for x
  proof -
    from that have "env \<noteq> []" by auto
    then have "i \<le> fst (hd env)" using Cons.prems(1) p by (cases env) auto
    then show ?thesis using clock_run_ge [OF _ _ _ r that] Cons.prems p by simp
  qed
  ultimately show ?case using p r by simp
qed simp

theorem clock_readings_sorted_witness:
  "sorted (clock_run (clock_default 5 1000) [(5, 9000), (7, 20), (9, 1500)])"
  using clock_readings_sorted [of "[(5, 9000), (7, 20), (9, 1500)]" "clock_default 5 1000"]
  by (simp add: clock_default_def)

section \<open>Waiting for a deadline\<close>

lemma clock_until_reaches:
  assumes "ck_start ck \<le> instant"
    and "clock_remaining deadline (clock_floor ck instant) \<le> n * from_secs 1"
    and "Suc n < length env"
  shows "\<exists>t ck' i. clock_until ck instant deadline env = Some (t, ck', i) \<and> deadline \<le> t \<and> instant \<le> i"
  using assms
proof (induction n arbitrary: ck instant env)
  case 0
  then obtain late utc env' where env: "env = (late, utc) # env'" by (cases env) auto
  obtain t c1 where r: "clock_now ck instant utc = (t, c1)" by (cases "clock_now ck instant utc")
  have "deadline \<le> t" using 0(2) ck.read_floor [OF r] by (simp add: clock_remaining_def)
  then show ?case using env r by (simp add: clock_remaining_def)
next
  case (Suc n)
  then obtain late utc env' where env: "env = (late, utc) # env'" by (cases env) auto
  obtain t c1 where r: "clock_now ck instant utc = (t, c1)" by (cases "clock_now ck instant utc")
  define rem where "rem = clock_remaining deadline t"
  define next_i where "next_i = instant + min rem (from_secs 1) + late"
  show ?case
  proof (cases "rem = 0")
    case True
    then show ?thesis using env r by (simp add: rem_def clock_remaining_def)
  next
    case False
    have fl: "t + int (next_i - instant) \<le> clock_floor c1 next_i"
      using ck.floor_advances [OF Suc.prems(1) _ r, of next_i] by (simp add: next_i_def)
    have tf: "clock_floor ck instant \<le> t" using r by (rule ck.read_floor)
    have "clock_remaining deadline (clock_floor c1 next_i) \<le> n * from_secs 1"
      using fl tf Suc.prems(2) False
      by (simp add: clock_remaining_def rem_def next_i_def min_def split: if_splits)
    moreover have "ck_start c1 \<le> next_i"
      using ck.started_read [OF r] Suc.prems(1) by (simp add: next_i_def)
    ultimately obtain t' c' i where "clock_until c1 next_i deadline env' = Some (t', c', i)"
      "deadline \<le> t'" "next_i \<le> i"
      using Suc.IH [of c1 next_i env'] Suc.prems(3) env by auto
    then show ?thesis using env r False by (auto simp: rem_def next_i_def)
  qed
qed

text \<open>
  C40: waiting for a deadline terminates and never returns early. With \<open>n\<close> whole seconds to the
  deadline, \<open>n + 2\<close> rounds of at most one-second sleeps are enough, whatever the sleeps' overshoot
  and the wall clock do, and the reading on return is at or past the deadline.
\<close>

theorem clock_until_returns:
  assumes "ck_start ck \<le> instant"
    and "clock_remaining deadline (clock_floor ck instant) \<le> n * from_secs 1"
    and "length env = n + 2"
  shows "\<exists>t ck' i. clock_until ck instant deadline env = Some (t, ck', i) \<and> deadline \<le> t"
  using clock_until_reaches [of ck instant deadline n env] assms by fastforce

theorem clock_until_returns_witness:
  "\<exists>t ck' i. clock_until (clock_at 0 0) 0 1500000000 [(0, 0), (3, 0), (0, 0), (0, 0)] = Some (t, ck', i)
     \<and> 1500000000 \<le> t"
  by (rule clock_until_returns [where n = 2])
    (simp_all add: clock_at_def clock_remaining_def clock_floor_def after_def from_secs_def)

end
