(* ===== verification/Secrets.thy ===== *)
theory Secrets
  imports Text Clock
begin

text \<open>
  \<open>companion/src/secrets.rs\<close> and the external cryptography of the companion gateway. SHA-256, HMAC,
  the base64 engines and the WebAuthn key decoder are crates outside the repository: they are the
  fields of one parameter record, and every definition that reaches them takes that record. What
  properties assume of them is named here (\<open>b64_fits\<close>). Entropy is an argument too: a drawn
  secret is \<open>Some\<close> bytes, and \<open>None\<close> is an entropy failure.
\<close>

datatype pub_key = Ed25519 | P256 | P384 | Rsa

record ext =
  x_sha256 :: "bytes \<Rightarrow> bytes"
  x_hmac_sha256 :: "bytes \<Rightarrow> bytes \<Rightarrow> bytes"
  x_b64_encode :: "bytes \<Rightarrow> string"
  x_b64_decode :: "string \<Rightarrow> bytes option"
  x_std_b64_decode :: "string \<Rightarrow> bytes option"
  x_key_decode :: "bytes \<Rightarrow> pub_key option"
  x_key_valid :: "bytes \<Rightarrow> bool"

definition encode :: "ext \<Rightarrow> bytes \<Rightarrow> string" where
  "encode X value = x_b64_encode X value"

definition hash :: "ext \<Rightarrow> bytes \<Rightarrow> bytes" where
  "hash X value = x_sha256 X value"

text \<open>The constant-time comparison decides equality of the digests.\<close>

definition matches :: "ext \<Rightarrow> bytes \<Rightarrow> bytes \<Rightarrow> bool" where
  "matches X expected supplied \<longleftrightarrow> expected = hash X supplied"

text \<open>\<open>devices::decode::<N>\<close>: the text length is checked before decoding, the byte length after.\<close>

definition div_ceil :: "nat \<Rightarrow> nat \<Rightarrow> nat" where
  "div_ceil a b = (a + b - 1) div b"

definition decode :: "ext \<Rightarrow> nat \<Rightarrow> string \<Rightarrow> bytes option" where
  "decode X N value =
     (if length value \<noteq> div_ceil (N * 8) 6 then None
      else (case x_b64_decode X value of
              None \<Rightarrow> None
            | Some bs \<Rightarrow> if length bs = N then Some bs else None))"

lemma decode_length: "decode X N v = Some bs \<Longrightarrow> length bs = N"
  by (auto simp: decode_def split: if_splits option.splits)

lemma hash_matches [simp]: "matches X (hash X s) s"
  by (simp add: matches_def)

text \<open>
  Unpadded base64 as documented: \<open>n\<close> bytes become \<open>\<lceil>8 n / 6\<rceil>\<close> characters, and decoding
  an encoding gives the bytes back.
\<close>

definition b64_fits :: "ext \<Rightarrow> bool" where
  "b64_fits X \<longleftrightarrow> (\<forall>bs. length (x_b64_encode X bs) = div_ceil (length bs * 8) 6
                     \<and> x_b64_decode X (x_b64_encode X bs) = Some bs)"

lemma decode_encode: "b64_fits X \<Longrightarrow> length bs = N \<Longrightarrow> decode X N (encode X bs) = Some bs"
  by (auto simp: b64_fits_def decode_def encode_def)

lemma encode_inj: "b64_fits X \<Longrightarrow> encode X a = encode X b \<Longrightarrow> a = b"
  unfolding b64_fits_def encode_def by (metis option.inject)

section \<open>A concrete instance of the parameters\<close>

text \<open>
  Witnesses need one set of parameters for which the named hypotheses hold: bytes are written as
  characters and padded to the encoded length with a filler the decoder cuts off again, and the
  digest is the input cut to, or filled up to, 32 bytes.
\<close>

definition demo_encode :: "bytes \<Rightarrow> string" where
  "demo_encode bs = bytes_str bs @ replicate (div_ceil (length bs * 8) 6 - length bs) (CHR ''='')"

definition demo_decode :: "string \<Rightarrow> bytes option" where
  "demo_decode s = Some (str_bytes (take (length s * 6 div 8) s))"

definition demo_digest :: "bytes \<Rightarrow> bytes" where
  "demo_digest bs = take 32 (bs @ replicate 32 0)"

definition demo_ext :: ext where
  "demo_ext = \<lparr>x_sha256 = demo_digest, x_hmac_sha256 = (\<lambda>k m. demo_digest (k @ m)),
     x_b64_encode = demo_encode, x_b64_decode = demo_decode, x_std_b64_decode = demo_decode,
     x_key_decode = (\<lambda>_. Some P256), x_key_valid = (\<lambda>_. True)\<rparr>"

lemma div_ceil_b64: "n \<le> div_ceil (n * 8) 6 \<and> div_ceil (n * 8) 6 * 6 div 8 = n"
proof -
  define q r where "q = n div 3" and "r = n mod 3"
  have n: "n = 3 * q + r" and "r < 3" by (simp_all add: q_def r_def)
  then consider "r = 0" | "r = 1" | "r = 2" by linarith
  moreover have "(5 + 24 * q) div 6 = 4 * q" and "(13 + 24 * q) div 6 = 4 * q + 2"
    and "(21 + 24 * q) div 6 = 4 * q + 3" by linarith+
  ultimately show ?thesis unfolding div_ceil_def n by cases simp_all
qed

lemma demo_fits: "b64_fits demo_ext"
proof -
  have "length (demo_encode bs) = div_ceil (length bs * 8) 6" for bs
    using div_ceil_b64 [of "length bs"] by (simp add: demo_encode_def)
  moreover from this have "demo_decode (demo_encode bs) = Some bs" for bs
    using div_ceil_b64 [of "length bs"] by (simp add: demo_decode_def) (simp add: demo_encode_def)
  ultimately show ?thesis by (simp add: b64_fits_def demo_ext_def)
qed

end
