(* ===== verification/Devices.thy ===== *)
theory Devices
  imports Secrets
begin

text \<open>
  \<open>companion/src/devices.rs\<close>: the persisted device table and its validation, with the key-state
  check of \<open>companion/src/webauthn.rs\<close> that a credential record has to pass. The WebAuthn
  library's key decoder is a parameter.
\<close>

section \<open>Labels and relying-party identifiers\<close>

definition in_range :: "nat \<Rightarrow> nat \<times> nat \<Rightarrow> bool" where
  "in_range c r \<longleftrightarrow> fst r \<le> c \<and> c \<le> snd r"

text \<open>Unicode format characters and line or paragraph separators, as inclusive ranges.\<close>

definition label_format_ranges :: "(nat \<times> nat) list" where
  "label_format_ranges =
    [(0x00ad, 0x00ad), (0x0600, 0x0605), (0x061c, 0x061c), (0x06dd, 0x06dd), (0x070f, 0x070f),
     (0x0890, 0x0891), (0x08e2, 0x08e2), (0x180e, 0x180e), (0x200b, 0x200f), (0x2028, 0x202e),
     (0x2060, 0x2064), (0x2066, 0x206f), (0xfeff, 0xfeff), (0xfff9, 0xfffb), (0x110bd, 0x110bd),
     (0x110cd, 0x110cd), (0x13430, 0x1343f), (0x1bca0, 0x1bca3), (0x1d173, 0x1d17a),
     (0xe0001, 0xe0001), (0xe0020, 0xe007f)]"

definition label_format :: "nat \<Rightarrow> bool" where
  "label_format c \<longleftrightarrow> list_ex (in_range c) label_format_ranges"

definition valid_label :: "string \<Rightarrow> bool" where
  "valid_label value \<longleftrightarrow>
     value \<noteq> [] \<and> length value \<le> 80
     \<and> trim_by is_whitespace (chars value) = chars value
     \<and> list_all (\<lambda>c. \<not> is_control c \<and> \<not> label_format c) (chars value)"

definition rp_id_part :: "string \<Rightarrow> bool" where
  "rp_id_part part \<longleftrightarrow>
     part \<noteq> [] \<and> length part \<le> 63 \<and> \<not> starts_with part ''-'' \<and> \<not> ends_with part ''-''
     \<and> list_all (\<lambda>b. is_ascii_lowercase b \<or> is_ascii_digit b \<or> b = CHR ''-'') part"

definition valid_rp_id :: "string \<Rightarrow> bool" where
  "valid_rp_id value \<longleftrightarrow>
     value \<noteq> [] \<and> length value \<le> 253 \<and> \<not> is_ip_addr value
     \<and> list_all rp_id_part (split_on (CHR ''.'') value)"

section \<open>Credentials and devices\<close>

type_synonym control_grant = timestamp

record grants =
  gr_control :: "control_grant option"
  gr_full :: bool

datatype transport = Usb | Nfc | Ble | Internal | Hybrid | SmartCard

record credential =
  cr_id :: string
  cr_rp_id :: string
  cr_public_key_state :: string
  cr_state_format :: string
  cr_sign_count :: u32
  cr_backup_eligible :: bool
  cr_backup_state :: bool
  cr_transports :: "transport list"

record device =
  dv_device_id :: string
  dv_label :: string
  dv_credentials :: "credential list"
  dv_grants :: grants
  dv_locked :: bool
  dv_created_at :: timestamp
  dv_last_seen :: timestamp

definition STATE_FORMAT :: string where
  "STATE_FORMAT = ''webauthn_rp-0.3.0-static''"

definition MAX_KEY_STATE_BYTES :: nat where
  "MAX_KEY_STATE_BYTES = 2058"

definition key_state :: "ext \<Rightarrow> string \<Rightarrow> pub_key option" where
  "key_state X value =
     (if length value > div_ceil MAX_KEY_STATE_BYTES 3 * 4 then None
      else (case x_b64_decode X value of
              None \<Rightarrow> None
            | Some bs \<Rightarrow>
                if length bs > MAX_KEY_STATE_BYTES then None
                else (case x_key_decode X bs of
                        None \<Rightarrow> None
                      | Some key \<Rightarrow>
                          if \<not> x_key_valid X bs then None
                          else if key = P384 then None
                          else Some key)))"

definition binary_text :: "ext \<Rightarrow> string \<Rightarrow> nat \<Rightarrow> bool" where
  "binary_text X value mx \<longleftrightarrow>
     value \<noteq> [] \<and> length value \<le> div_ceil mx 3 * 4
     \<and> (case x_b64_decode X value of None \<Rightarrow> False | Some v \<Rightarrow> v \<noteq> [] \<and> length v \<le> mx)"

text \<open>Collecting into a \<open>HashSet\<close> and comparing sizes says that the collected list is distinct.\<close>

definition all_distinct :: "'a list \<Rightarrow> bool" where
  "all_distinct xs \<longleftrightarrow> length (remdups xs) = length xs"

definition credential_valid :: "ext \<Rightarrow> credential \<Rightarrow> bool" where
  "credential_valid X c \<longleftrightarrow>
     binary_text X (cr_id c) 1024
     \<and> cr_state_format c = STATE_FORMAT
     \<and> key_state X (cr_public_key_state c) \<noteq> None
     \<and> valid_rp_id (cr_rp_id c)
     \<and> (\<not> cr_backup_state c \<or> cr_backup_eligible c)
     \<and> length (cr_transports c) \<le> 6
     \<and> all_distinct (cr_transports c)"

definition cred_key :: "credential \<Rightarrow> string \<times> string" where
  "cred_key c = (cr_rp_id c, cr_id c)"

definition device_valid :: "ext \<Rightarrow> device \<Rightarrow> bool" where
  "device_valid X d \<longleftrightarrow>
     decode X 16 (dv_device_id d) \<noteq> None
     \<and> valid_label (dv_label d)
     \<and> dv_credentials d \<noteq> []
     \<and> length (dv_credentials d) \<le> 8
     \<and> list_all (credential_valid X) (dv_credentials d)
     \<and> all_distinct (map cred_key (dv_credentials d))
     \<and> dv_created_at d \<le> dv_last_seen d"

text \<open>\<open>Deserialize\<close> of a record: the fields as read, refused unless the record is valid.\<close>

definition credential_deserialize :: "ext \<Rightarrow> credential \<Rightarrow> string + credential" where
  "credential_deserialize X raw =
     (if \<not> credential_valid X raw then Inl ''Invalid CredentialRecord'' else Inr raw)"

definition device_deserialize :: "ext \<Rightarrow> device \<Rightarrow> string + device" where
  "device_deserialize X raw =
     (if \<not> device_valid X raw then Inl ''Invalid Device'' else Inr raw)"

definition deserialize_devices :: "ext \<Rightarrow> device list \<Rightarrow> string + device list" where
  "deserialize_devices X devices =
     (if length devices > 64
       \<or> \<not> list_all (device_valid X) devices
       \<or> \<not> all_distinct (map dv_device_id devices)
       \<or> length (remdups (concat (map (\<lambda>d. map cred_key (dv_credentials d)) devices)))
           \<noteq> sum_list (map (\<lambda>d. length (dv_credentials d)) devices)
      then Inl ''Invalid devices'' else Inr devices)"

text \<open>A valid record for the witnesses of this and later theories.\<close>

definition demo_credential :: credential where
  "demo_credential = \<lparr>cr_id = ''cred'', cr_rp_id = ''desk.ts.net'', cr_public_key_state = ''keys'',
     cr_state_format = STATE_FORMAT, cr_sign_count = 7, cr_backup_eligible = False,
     cr_backup_state = False, cr_transports = [Internal, Hybrid]\<rparr>"

definition demo_device :: device where
  "demo_device = \<lparr>dv_device_id = ''0123456789abcdef======'', dv_label = ''Phone'',
     dv_credentials = [demo_credential], dv_grants = \<lparr>gr_control = Some 5000, gr_full = False\<rparr>,
     dv_locked = False, dv_created_at = 10, dv_last_seen = 20\<rparr>"

section \<open>What validation guarantees\<close>

lemma all_distinct_iff [simp]: "all_distinct xs \<longleftrightarrow> distinct xs"
  by (metis all_distinct_def distinct_remdups remdups_id_iff_distinct length_remdups_eq)

lemma distinct_concat_map:
  "distinct (concat (map f xs)) \<Longrightarrow> i < length xs \<Longrightarrow> j < length xs \<Longrightarrow> i \<noteq> j \<Longrightarrow>
     set (f (xs ! i)) \<inter> set (f (xs ! j)) = {}"
proof (induction xs arbitrary: i j)
  case (Cons x xs)
  show ?case
  proof (cases i)
    case 0
    with Cons.prems obtain j' where "j = Suc j'" "j' < length xs" by (cases j) auto
    with 0 Cons.prems(1) show ?thesis by (fastforce simp: in_set_conv_nth)
  next
    case (Suc i')
    then show ?thesis
    proof (cases j)
      case 0
      with Suc Cons.prems show ?thesis by (fastforce simp: in_set_conv_nth)
    next
      case (Suc j')
      with \<open>i = Suc i'\<close> Cons.prems show ?thesis using Cons.IH [of i' j'] by simp
    qed
  qed
qed simp

lemma deserialize_devices_distinct:
  assumes "deserialize_devices X ds = Inr ds'"
  shows "distinct (concat (map (\<lambda>d. map cred_key (dv_credentials d)) ds))"
proof -
  let ?cs = "concat (map (\<lambda>d. map cred_key (dv_credentials d)) ds)"
  have "length ?cs = sum_list (map (\<lambda>d. length (dv_credentials d)) ds)"
    by (simp add: length_concat comp_def)
  with assms have "length (remdups ?cs) = length ?cs"
    by (auto simp: deserialize_devices_def split: if_splits)
  then show ?thesis using all_distinct_iff [of ?cs] by (simp add: all_distinct_def)
qed

text \<open>
  An accepted device table identifies devices and credentials. Device identifiers are pairwise
  different, every record is valid, and a credential of a relying party belongs to at most one
  device, so that an assertion cannot select two owners.
\<close>

theorem deserialize_devices_sound:
  assumes "deserialize_devices X ds = Inr ds'"
  shows "ds' = ds \<and> length ds \<le> 64 \<and> distinct (map dv_device_id ds) \<and> list_all (device_valid X) ds
    \<and> (\<forall>i < length ds. \<forall>j < length ds. \<forall>c \<in> set (dv_credentials (ds ! i)). \<forall>c' \<in> set (dv_credentials (ds ! j)).
         cr_rp_id c = cr_rp_id c' \<and> cr_id c = cr_id c' \<longrightarrow> i = j)"
proof -
  have "i = j" if "i < length ds" "j < length ds" "c \<in> set (dv_credentials (ds ! i))"
    "c' \<in> set (dv_credentials (ds ! j))" "cr_rp_id c = cr_rp_id c'" "cr_id c = cr_id c'" for i j c c'
  proof (rule ccontr)
    assume "i \<noteq> j"
    then have "set (map cred_key (dv_credentials (ds ! i))) \<inter> set (map cred_key (dv_credentials (ds ! j))) = {}"
      using distinct_concat_map [OF deserialize_devices_distinct [OF assms] that(1,2)] by blast
    moreover have "cred_key c = cred_key c'" using that(5,6) by (simp add: cred_key_def)
    ultimately show False using that(3,4) by force
  qed
  then show ?thesis using assms by (auto simp: deserialize_devices_def split: if_splits)
qed

lemma demo_label_valid: "valid_label ''Phone''"
  by (simp add: valid_label_def chars_def trim_by_def is_whitespace_def is_control_def label_format_def
      label_format_ranges_def in_range_def)

lemma demo_device_valid: "device_valid demo_ext demo_device"
proof -
  have "decode demo_ext 16 (dv_device_id demo_device) \<noteq> None" by code_simp
  moreover have "list_all (credential_valid demo_ext) (dv_credentials demo_device)" by code_simp
  ultimately show ?thesis
    using demo_label_valid by (simp add: device_valid_def) (simp add: demo_device_def)
qed

theorem deserialize_devices_sound_witness:
  "distinct (map dv_device_id [demo_device]) \<and> list_all (device_valid demo_ext) [demo_device]"
proof -
  have h: "deserialize_devices demo_ext [demo_device] = Inr [demo_device]"
    using demo_device_valid by (simp add: deserialize_devices_def) (simp add: demo_device_def)
  show ?thesis using deserialize_devices_sound [OF h] by simp
qed

end
