(* ===== verification/Admin.thy ===== *)
theory Admin
  imports Devices
begin

text \<open>
  \<open>companion/src/admin.rs\<close>: the desktop-only control channel. First the data it carries (policy,
  scopes, commands, events), then the frame reader, then the bounded event queue between the
  request handlers and the single stdout writer, with its reserved slots.

  The version field \<open>v\<close> of commands and events is always 1 (\<open>read\<close> refuses any other) and no
  handler looks at it, so the datatypes leave it out.
\<close>

section \<open>Policy and scopes\<close>

datatype scope = View | Control | Full

datatype passkey_binding = O1 | O2 | O3

record policy =
  po_enable_until :: timestamp
  po_view_idle_min :: nat
  po_view_absolute_hours :: nat
  po_elevation_max_min :: nat
  po_full_session_enabled :: bool
  po_max_devices :: nat
  po_passkey_binding :: passkey_binding

definition policy_valid :: "policy \<Rightarrow> bool" where
  "policy_valid p \<longleftrightarrow>
     (1 \<le> po_view_idle_min p \<and> po_view_idle_min p \<le> 30)
     \<and> (1 \<le> po_view_absolute_hours p \<and> po_view_absolute_hours p \<le> 12)
     \<and> (1 \<le> po_elevation_max_min p \<and> po_elevation_max_min p \<le> 15)
     \<and> (1 \<le> po_max_devices p \<and> po_max_devices p \<le> 64)"

section \<open>Commands\<close>

record loopback =
  lb_port :: nat
  lb_public_host :: string
  lb_required_tailscale_login :: string
  lb_proxy_secret :: string

definition proxy_secret_valid :: "ext \<Rightarrow> string \<Rightarrow> bool" where
  "proxy_secret_valid X s \<longleftrightarrow>
     length s = 43 \<and> (case x_b64_decode X s of None \<Rightarrow> False | Some bs \<Rightarrow> length bs = 32)"

record space_root =
  sr_session :: string
  sr_workspace_id :: string
  sr_root :: string

record push_device =
  pd_device_id :: string
  pd_endpoints :: "string list"

record push_init =
  pi_vapid_public_key :: string
  pi_devices :: "push_device list"

record init =
  in_herdr_binary :: string
  in_session_allowlist :: "string list"
  in_web_root :: string
  in_loopback :: loopback
  in_lan :: bool
  in_devices :: "device list"
  in_policy :: policy
  in_trust_store :: string
  in_space_roots :: "space_root list"
  in_push :: "push_init option"

datatype pairing_command =
    PairingCreate string "string option"
  | PairingApprove string
  | PairingReject string
  | PairingCancel string

datatype device_command =
    DeviceUpdate string "string option" "grants option"
  | DeviceRevoke string
  | DeviceUnlock string

datatype command_body =
    Init init
  | Shutdown
  | Pairing pairing_command
  | DeviceCmd device_command
  | Spaces "space_root list"
  | PushDevices "push_device list"
  | PushAck u64 bool
  | PeersList u64
  | Unknown

section \<open>Events\<close>

datatype json = JNull | JBool bool | JNum int | JStr string | JArr "json list" | JObj "(string \<times> json) list"

definition json_get :: "json \<Rightarrow> string \<Rightarrow> json option" where
  "json_get v k = (case v of JObj kvs \<Rightarrow> map_of kvs k | _ \<Rightarrow> None)"

definition json_as_str :: "json \<Rightarrow> string option" where
  "json_as_str v = (case v of JStr s \<Rightarrow> Some s | _ \<Rightarrow> None)"

record peer_info =
  pe_peer_id :: u64
  pe_device_id :: string

record stream_info =
  st_stream :: string
  st_device_id :: string
  st_peer_id :: u64
  st_session :: string
  st_scope :: scope
  st_target :: "string option"

record subscription =
  sb_endpoint :: string
  sb_p256dh :: string
  sb_auth :: string

record push_payload =
  pp_kind :: string
  pp_session :: string
  pp_pane_id :: string
  pp_workspace_id :: "string option"
  pp_title :: string
  pp_space :: "string option"

record audit_event =
  au_device_id :: string
  au_peer_id :: u64
  au_reason :: "string option"
  au_outcome :: "string option"
  au_scope :: scope
  au_action :: string
  au_session :: string
  au_target :: "string option"
  au_summary :: json
  au_at :: timestamp

datatype event =
    Audit audit_event
  | AuditDropped u64 u64 u64 timestamp
  | ControlState string u64 string nat string string bool (takeover_open: bool)
  | FullState string u64 string nat string (full_open: bool)
  | CommandDeferred string string bool
  | SessionOpened u64 string
  | SessionClosed u64 string string
  | PeersSnapshot u64 "peer_info list" "stream_info list"
  | Ready nat
  | PairingCreated string string timestamp
  | PairingClaimed string string string string string
  | PairingState string string string
  | DeviceRegistered device
  | AuthOutcome string string "string option"
  | DeviceUpdated device
  | DeviceRevoked string
  | PushSubscription string "subscription option" "string option" "u64 option"
  | PushRequest "string list" push_payload
  | ErrorEvent string

text \<open>\<open>Event::audit\<close> copies the summary's outcome and reason beside it.\<close>

definition event_audit ::
  "string \<Rightarrow> u64 \<Rightarrow> scope \<Rightarrow> string \<Rightarrow> string \<Rightarrow> string option \<Rightarrow> json \<Rightarrow> timestamp \<Rightarrow> event" where
  "event_audit device_id peer_id scope action session target summary at =
     Audit \<lparr>au_device_id = device_id, au_peer_id = peer_id,
       au_reason = Option.bind (json_get summary ''reason'') json_as_str,
       au_outcome = Option.bind (json_get summary ''outcome'') json_as_str,
       au_scope = scope, au_action = action, au_session = session, au_target = target,
       au_summary = summary, au_at = at\<rparr>"

text \<open>\<open>Event::pairing_claimed\<close> always reports the path \<open>tailscale\<close>; the datatype leaves it out.\<close>

datatype admin_result =
    Applied
  | Peers u64 "peer_info list" "stream_info list"
  | NotificationDeferred string string

definition deferred_event :: "admin_result \<Rightarrow> event option" where
  "deferred_event r =
     (case r of
        Applied \<Rightarrow> None
      | Peers request_id peers streams \<Rightarrow> Some (PeersSnapshot request_id peers streams)
      | NotificationDeferred command target \<Rightarrow> Some (CommandDeferred command target True))"

section \<open>Reading commands\<close>

definition MAX_FRAME_BYTES :: nat where
  "MAX_FRAME_BYTES = 16 * 1024 * 1024"

text \<open>
  \<open>read_frame_zeroizing\<close>. The reader hands out its buffered bytes in chunks; an exhausted reader
  hands out the empty chunk. The result carries the chunks that are left, the unconsumed rest of
  the current one first. The bound is an argument so that small instances evaluate.
\<close>

fun read_frame :: "nat \<Rightarrow> string \<Rightarrow> string list \<Rightarrow> (string + string option) \<times> string list" where
  "read_frame mx frame [] = (if frame = [] then Inr None else Inl ''invalid-frame'', [])"
| "read_frame mx frame (available # rest) =
     (if available = [] then (if frame = [] then Inr None else Inl ''invalid-frame'', rest)
      else
        (let line = takeWhile (\<lambda>b. b \<noteq> CHR ''\<newline>'') available;
             count = (if length line < length available then length line + 1 else length available)
         in if length frame + count > mx then (Inl ''invalid-frame'', available # rest)
            else if available ! (count - 1) = CHR ''\<newline>''
              then (Inr (Some (frame @ take count available)), drop count available # rest)
              else read_frame mx (frame @ take count available) rest))"

text \<open>
  The JSON deserialisers are \<open>serde_json\<close> on the types above: one parameter per frame type.
\<close>

record serde =
  sd_envelope :: "string \<Rightarrow> (u32 \<times> string) option"
  sd_init :: "string \<Rightarrow> init option"
  sd_pairing :: "string \<Rightarrow> pairing_command option"
  sd_device :: "string \<Rightarrow> device_command option"
  sd_spaces :: "string \<Rightarrow> space_root list option"
  sd_push :: "string \<Rightarrow> push_device list option"
  sd_push_ack :: "string \<Rightarrow> (u64 \<times> bool) option"
  sd_peers :: "string \<Rightarrow> u64 option"
  sd_shutdown :: "string \<Rightarrow> unit option"

definition ok_or_invalid :: "('a \<Rightarrow> 'b) \<Rightarrow> 'a option \<Rightarrow> string + 'b" where
  "ok_or_invalid f r = (case r of None \<Rightarrow> Inl ''invalid-command'' | Some x \<Rightarrow> Inr (f x))"

definition read_body :: "serde \<Rightarrow> string \<Rightarrow> string \<Rightarrow> string + command_body" where
  "read_body S kind frame =
     (if kind = ''init'' then ok_or_invalid Init (sd_init S frame)
      else if kind \<in> {''pairing.create'', ''pairing.approve'', ''pairing.reject'', ''pairing.cancel''}
        then ok_or_invalid Pairing (sd_pairing S frame)
      else if kind \<in> {''device.update'', ''device.revoke'', ''device.unlock''}
        then ok_or_invalid DeviceCmd (sd_device S frame)
      else if kind = ''spaces.roots'' then ok_or_invalid Spaces (sd_spaces S frame)
      else if kind = ''push.devices'' then ok_or_invalid PushDevices (sd_push S frame)
      else if kind = ''push.ack'' then ok_or_invalid (\<lambda>(r, s). PushAck r s) (sd_push_ack S frame)
      else if kind = ''peers.list'' then ok_or_invalid PeersList (sd_peers S frame)
      else if kind = ''shutdown'' then ok_or_invalid (\<lambda>_. Shutdown) (sd_shutdown S frame)
      else Inr Unknown)"

definition read_command :: "serde \<Rightarrow> string list \<Rightarrow> (string + command_body option) \<times> string list" where
  "read_command S chunks =
     (case read_frame MAX_FRAME_BYTES [] chunks of
        (Inl e, rest) \<Rightarrow> (Inl e, rest)
      | (Inr None, rest) \<Rightarrow> (Inr None, rest)
      | (Inr (Some frame), rest) \<Rightarrow>
          if find (\<lambda>b. \<not> is_ascii_whitespace b) frame \<noteq> Some (CHR ''{'') then (Inl ''invalid-command'', rest)
          else (case sd_envelope S frame of
                  None \<Rightarrow> (Inl ''invalid-command'', rest)
                | Some (v, kind) \<Rightarrow>
                    if v \<noteq> 1 then (Inl ''unsupported-version'', rest)
                    else (map_sum id Some (read_body S kind frame), rest)))"

section \<open>The event queue\<close>

definition EVENT_QUEUE_CAPACITY :: nat where "EVENT_QUEUE_CAPACITY = 64"
definition AUDIT_SLOTS :: nat where "AUDIT_SLOTS = EVENT_QUEUE_CAPACITY - 16"
definition BUCKET_RESERVATIONS :: nat where "BUCKET_RESERVATIONS = 12"
definition ANNOUNCEMENT_RESERVATIONS :: nat where "ANNOUNCEMENT_RESERVATIONS = 4"

lemmas queue_consts = EVENT_QUEUE_CAPACITY_def AUDIT_SLOTS_def BUCKET_RESERVATIONS_def
  ANNOUNCEMENT_RESERVATIONS_def

record queued =
  qe_event :: event
  qe_ack :: bool
  qe_audit :: bool

text \<open>
  The channel and its semaphores: queued events, channel permits held by reservations, whether the
  receiver is gone, the free permits of the three semaphores, and the two ends of the writer: the
  event it is writing and what it has written to stdout.
\<close>

record event_sender =
  es_queue :: "queued list"
  es_reserved :: nat
  es_closed :: bool
  es_audit_slots :: nat
  es_bucket_reservations :: nat
  es_announcement_reservations :: nat
  es_writing :: "queued option"
  es_written :: "event list"

datatype reservation_pool = Bucket | Announcement

definition spawn_writer :: event_sender where
  "spawn_writer = \<lparr>es_queue = [], es_reserved = 0, es_closed = False, es_audit_slots = AUDIT_SLOTS,
     es_bucket_reservations = BUCKET_RESERVATIONS,
     es_announcement_reservations = ANNOUNCEMENT_RESERVATIONS, es_writing = None, es_written = []\<rparr>"

text \<open>Free channel slots: \<open>mpsc::Sender::capacity\<close>.\<close>

definition es_capacity :: "event_sender \<Rightarrow> nat" where
  "es_capacity es = EVENT_QUEUE_CAPACITY - (length (es_queue es) + es_reserved es)"

definition ordinary :: "event \<Rightarrow> bool" where
  "ordinary e =
     (case e of
        Audit a \<Rightarrow> au_action a \<notin> {''terminal.release'', ''full.close'', ''expiry'', ''revoke''}
      | ControlState _ _ _ _ _ _ _ open \<Rightarrow> open
      | FullState _ _ _ _ _ open \<Rightarrow> open
      | AuditDropped _ _ _ _ \<Rightarrow> True
      | PushSubscription _ _ _ _ \<Rightarrow> True
      | PushRequest _ _ \<Rightarrow> True
      | _ \<Rightarrow> False)"

definition es_push :: "event_sender \<Rightarrow> queued \<Rightarrow> event_sender" where
  "es_push es q = es\<lparr>es_queue := es_queue es @ [q]\<rparr>"

text \<open>A failed send returns the queued event, whose audit permit is released again.\<close>

definition try_emit :: "event_sender \<Rightarrow> event \<Rightarrow> bool \<times> event_sender" where
  "try_emit es e =
     (if ordinary e \<and> es_audit_slots es = 0 then (False, es)
      else if es_closed es \<or> es_capacity es = 0 then (False, es)
      else (True, es_push (if ordinary e then es\<lparr>es_audit_slots := es_audit_slots es - 1\<rparr> else es)
                    \<lparr>qe_event = e, qe_ack = False, qe_audit = ordinary e\<rparr>))"

definition pool_free :: "reservation_pool \<Rightarrow> event_sender \<Rightarrow> nat" where
  "pool_free p es =
     (case p of Bucket \<Rightarrow> es_bucket_reservations es | Announcement \<Rightarrow> es_announcement_reservations es)"

definition set_pool :: "reservation_pool \<Rightarrow> nat \<Rightarrow> event_sender \<Rightarrow> event_sender" where
  "set_pool p n es =
     (case p of Bucket \<Rightarrow> es\<lparr>es_bucket_reservations := n\<rparr>
      | Announcement \<Rightarrow> es\<lparr>es_announcement_reservations := n\<rparr>)"

definition reserve :: "reservation_pool \<Rightarrow> event_sender \<Rightarrow> bool \<times> event_sender" where
  "reserve p es =
     (if pool_free p es = 0 then (False, es)
      else if es_audit_slots es = 0 then (False, es)
      else if es_closed es \<or> es_capacity es = 0 then (False, es)
      else (True, (set_pool p (pool_free p es - 1) es)
             \<lparr>es_audit_slots := es_audit_slots es - 1, es_reserved := es_reserved es + 1\<rparr>))"

text \<open>\<open>EventReservation::emit\<close> and the drop of an unused reservation.\<close>

definition reservation_emit :: "reservation_pool \<Rightarrow> event_sender \<Rightarrow> event \<Rightarrow> event_sender" where
  "reservation_emit p es e =
     es_push ((set_pool p (pool_free p es + 1) es)\<lparr>es_reserved := es_reserved es - 1\<rparr>)
       \<lparr>qe_event = e, qe_ack = False, qe_audit = True\<rparr>"

definition reservation_drop :: "reservation_pool \<Rightarrow> event_sender \<Rightarrow> event_sender" where
  "reservation_drop p es =
     (set_pool p (pool_free p es + 1) es)
       \<lparr>es_reserved := es_reserved es - 1, es_audit_slots := es_audit_slots es + 1\<rparr>"

definition es_available :: "event_sender \<Rightarrow> bool" where
  "es_available es \<longleftrightarrow> \<not> es_closed es \<and> es_capacity es > 0 \<and> es_audit_slots es > 0"

text \<open>
  \<open>EventSender::emit\<close> waits for a slot: \<open>None\<close> while there is none, \<open>Some False\<close> once the
  channel is closed. The writer takes the oldest event, writes it and releases its permit; a
  failed or late write ends the writer, which closes the channel.
\<close>

definition emit_poll :: "event_sender \<Rightarrow> event \<Rightarrow> bool option \<times> event_sender" where
  "emit_poll es e =
     (if es_closed es then (Some False, es)
      else if es_capacity es = 0 then (None, es)
      else (Some True, es_push es \<lparr>qe_event = e, qe_ack = True, qe_audit = False\<rparr>))"

definition writer_recv :: "event_sender \<Rightarrow> event_sender" where
  "writer_recv es =
     (case (es_writing es, es_queue es) of
        (None, q # qs) \<Rightarrow> if es_closed es then es else es\<lparr>es_writing := Some q, es_queue := qs\<rparr>
      | _ \<Rightarrow> es)"

definition writer_done :: "bool \<Rightarrow> event_sender \<Rightarrow> event_sender" where
  "writer_done ok es =
     (case es_writing es of
        None \<Rightarrow> es
      | Some q \<Rightarrow>
          (let es1 = es\<lparr>es_writing := None,
                        es_audit_slots := es_audit_slots es + of_bool (qe_audit q)\<rparr>
           in if ok then es1\<lparr>es_written := es_written es @ [qe_event q]\<rparr>
              else es1\<lparr>es_closed := True\<rparr>))"

text \<open>\<open>http::try_emit_event\<close>.\<close>

definition QUEUE_UNAVAILABLE :: failure where
  "QUEUE_UNAVAILABLE = (SERVICE_UNAVAILABLE, ''Admin event queue unavailable'')"

definition try_emit_event :: "event_sender \<Rightarrow> event \<Rightarrow> (failure + unit) \<times> event_sender" where
  "try_emit_event es e =
     (case try_emit es e of (True, es') \<Rightarrow> (Inr (), es') | (False, es') \<Rightarrow> (Inl QUEUE_UNAVAILABLE, es'))"

end
