(* ===== verification/Event_Queue.thy ===== *)
theory Event_Queue
  imports Admin "HOL-Library.Sublist"
begin

text \<open>
  Correctness of the admin channel of \<open>Admin\<close>: frames do not depend on how the bytes arrive, the
  queue's slot accounting, the headroom of lifecycle events, and the interface (\<open>event_sink\<close>)
  through which every other component uses the queue.
\<close>

section \<open>Definitions\<close>

text \<open>What \<open>read_frame\<close> should return for a whole input: its first line, within the bound.\<close>

definition first_line :: "string \<Rightarrow> string" where
  "first_line s = takeWhile (\<lambda>b. b \<noteq> CHR ''\<newline>'') s @ [CHR ''\<newline>'']"

definition frame_spec :: "nat \<Rightarrow> string \<Rightarrow> string + string option" where
  "frame_spec mx s =
     (if s = [] then Inr None
      else if CHR ''\<newline>'' \<in> set s \<and> length (first_line s) \<le> mx then Inr (Some (first_line s))
      else Inl ''invalid-frame'')"

text \<open>Everything the channel accepted, oldest first: written, being written, queued.\<close>

definition es_log :: "event_sender \<Rightarrow> event list" where
  "es_log es = es_written es
     @ (case es_writing es of None \<Rightarrow> [] | Some q \<Rightarrow> [qe_event q]) @ map qe_event (es_queue es)"

definition audit_held :: "event_sender \<Rightarrow> nat" where
  "audit_held es = length (filter qe_audit (es_queue es))
     + (case es_writing es of None \<Rightarrow> 0 | Some q \<Rightarrow> of_bool (qe_audit q))"

definition pool_size :: "reservation_pool \<Rightarrow> nat" where
  "pool_size p = (case p of Bucket \<Rightarrow> BUCKET_RESERVATIONS | Announcement \<Rightarrow> ANNOUNCEMENT_RESERVATIONS)"

definition lifecycle_queued :: "event_sender \<Rightarrow> nat" where
  "lifecycle_queued es = length (filter (\<lambda>q. \<not> qe_audit q) (es_queue es))"

definition es_inv :: "event_sender \<Rightarrow> bool" where
  "es_inv es \<longleftrightarrow>
     length (es_queue es) + es_reserved es \<le> EVENT_QUEUE_CAPACITY
     \<and> es_reserved es + es_bucket_reservations es + es_announcement_reservations es
         = BUCKET_RESERVATIONS + ANNOUNCEMENT_RESERVATIONS
     \<and> es_bucket_reservations es \<le> BUCKET_RESERVATIONS
     \<and> es_announcement_reservations es \<le> ANNOUNCEMENT_RESERVATIONS
     \<and> es_audit_slots es + audit_held es + es_reserved es = AUDIT_SLOTS"

text \<open>One step of the channel: a producer, a reservation's end, or the writer.\<close>

inductive es_step :: "event_sender \<Rightarrow> event_sender \<Rightarrow> bool" where
  step_try_emit: "try_emit es e = (ok, es') \<Longrightarrow> es_step es es'"
| step_reserve: "reserve p es = (ok, es') \<Longrightarrow> es_step es es'"
| step_reservation_emit: "pool_free p es < pool_size p \<Longrightarrow> es_step es (reservation_emit p es e)"
| step_reservation_drop: "pool_free p es < pool_size p \<Longrightarrow> es_step es (reservation_drop p es)"
| step_emit: "emit_poll es e = (r, es') \<Longrightarrow> es_step es es'"
| step_recv: "es_step es (writer_recv es)"
| step_done: "es_step es (writer_done ok es)"

inductive es_reach :: "event_sender \<Rightarrow> bool" where
  es_start: "es_reach spawn_writer"
| es_more: "es_reach es \<Longrightarrow> es_step es es' \<Longrightarrow> es_reach es'"

section \<open>Frames\<close>

lemma first_line_append_no_nl:
  "CHR ''\<newline>'' \<notin> set a \<Longrightarrow> first_line (a @ s) = a @ first_line s"
  by (simp add: first_line_def takeWhile_append)

lemma takeWhile_nl_less:
  "length (takeWhile (\<lambda>b. b \<noteq> c) s) < length s \<longleftrightarrow> c \<in> set s"
  by (induction s) auto

lemma take_first_line:
  "CHR ''\<newline>'' \<in> set s \<Longrightarrow>
     take (length (takeWhile (\<lambda>b. b \<noteq> CHR ''\<newline>'') s) + 1) s = first_line s"
  by (induction s) (auto simp: first_line_def)

lemma first_line_prefix_append: "CHR ''\<newline>'' \<in> set s \<Longrightarrow> first_line (s @ t) = first_line s"
  by (induction s) (auto simp: first_line_def)

lemma nth_takeWhile_nl:
  "c \<in> set s \<Longrightarrow> s ! length (takeWhile (\<lambda>b. b \<noteq> c) s) = c"
  by (induction s) auto

lemma read_frame_gen:
  assumes "[] \<notin> set cs" and "CHR ''\<newline>'' \<notin> set acc" and "length acc \<le> mx"
  shows "fst (read_frame mx acc cs) = frame_spec mx (acc @ concat cs)
    \<and> (\<forall>l. fst (read_frame mx acc cs) = Inr (Some l) \<longrightarrow>
          l @ concat (snd (read_frame mx acc cs)) = acc @ concat cs)"
  using assms
proof (induction cs arbitrary: acc)
  case Nil
  then show ?case by (auto simp: frame_spec_def)
next
  case (Cons c cs)
  let ?nl = "CHR ''\<newline>''"
  from Cons.prems have c: "c \<noteq> []" and rest: "[] \<notin> set cs" by auto
  show ?case
  proof (cases "?nl \<in> set c")
    case True
    let ?n = "length (takeWhile (\<lambda>b. b \<noteq> ?nl) c) + 1"
    have less: "length (takeWhile (\<lambda>b. b \<noteq> ?nl) c) < length c" using iffD2 [OF takeWhile_nl_less True] .
    have fl: "first_line (acc @ concat (c # cs)) = acc @ take ?n c"
    proof -
      have "first_line (acc @ concat (c # cs)) = acc @ first_line (c @ concat cs)"
        using first_line_append_no_nl [OF Cons.prems(2)] by simp
      then show ?thesis using first_line_prefix_append [OF True] take_first_line [OF True] by metis
    qed
    have len: "length (first_line (acc @ concat (c # cs))) = length acc + ?n"
      using fl less by simp
    have "c ! (?n - 1) = ?nl" using True by (simp add: nth_takeWhile_nl)
    then have "read_frame mx acc (c # cs) =
        (if length acc + ?n > mx then (Inl ''invalid-frame'', c # cs)
         else (Inr (Some (acc @ take ?n c)), drop ?n c # cs))"
      using c less by (simp add: Let_def)
    then show ?thesis using True c fl len by (auto simp: frame_spec_def)
  next
    case False
    then have tw: "takeWhile (\<lambda>b. b \<noteq> ?nl) c = c" by (auto simp: takeWhile_eq_all_conv)
    have last: "c ! (length c - 1) \<noteq> ?nl"
      using False c by (metis diff_less length_greater_0_conv nth_mem zero_less_one)
    have rf: "read_frame mx acc (c # cs) =
        (if length acc + length c > mx then (Inl ''invalid-frame'', c # cs) else read_frame mx (acc @ c) cs)"
      using c last by (simp add: Let_def tw)
    show ?thesis
    proof (cases "length acc + length c > mx")
      case True
      have "length (first_line (acc @ concat (c # cs))) > mx"
        using Cons.prems(2) False True by (simp add: first_line_append_no_nl)
      then show ?thesis using True c by (simp add: frame_spec_def rf del: read_frame.simps)
    next
      case False': False
      have "?nl \<notin> set (acc @ c)" using Cons.prems(2) False by simp
      from Cons.IH [OF rest this] False' c show ?thesis by (simp add: rf del: read_frame.simps)
    qed
  qed
qed

text \<open>
  A frame does not depend on how its bytes arrive. For every split of the input into non-empty
  chunks the reader returns the first line of the input when it ends in a newline and fits the
  bound, the end of input only when no byte is left, and an error otherwise; what is left after a
  frame is exactly the input behind it.
\<close>

theorem read_frame_chunking:
  assumes "[] \<notin> set chunks"
  shows "fst (read_frame mx [] chunks) = frame_spec mx (concat chunks)
    \<and> (\<forall>l. fst (read_frame mx [] chunks) = Inr (Some l) \<longrightarrow>
          l @ concat (snd (read_frame mx [] chunks)) = concat chunks)"
  using read_frame_gen [of chunks "[]" mx] assms by simp

theorem read_frame_chunking_witness:
  "fst (read_frame 8 [] [''{'', ''}\<newline>x'']) = Inr (Some ''{}\<newline>'')"
proof -
  have "fst (read_frame 8 [] [''{'', ''}\<newline>x'']) = frame_spec 8 (concat [''{'', ''}\<newline>x''])"
    using read_frame_chunking [of "[''{'', ''}\<newline>x'']" 8] by simp
  also have "\<dots> = Inr (Some ''{}\<newline>'')" by (simp add: frame_spec_def first_line_def)
  finally show ?thesis .
qed

section \<open>The queue as an interface\<close>

text \<open>
  What the handlers rely on: a refused event leaves the sink as it was, an accepted one is appended
  to what the sink has accepted.
\<close>

locale event_sink =
  fixes emit :: "'s \<Rightarrow> 'e \<Rightarrow> bool \<times> 's"
    and log :: "'s \<Rightarrow> 'e list"
  assumes refused: "emit s e = (False, s') \<Longrightarrow> s' = s"
    and accepted: "emit s e = (True, s') \<Longrightarrow> log s' = log s @ [e]"
begin

lemma emit_log: "emit s e = (ok, s') \<Longrightarrow> log s' = log s @ (if ok then [e] else [])"
  using refused accepted by (cases ok) auto

lemma emit_prefix: "emit s e = (ok, s') \<Longrightarrow> prefix (log s) (log s')"
  using emit_log by fastforce

end

lemma es_log_push [simp]: "es_log (es_push es q) = es_log es @ [qe_event q]"
  by (simp add: es_log_def es_push_def)

interpretation es: event_sink try_emit es_log
proof
  show "s' = s" if "try_emit s e = (False, s')" for s e s'
    using that by (auto simp: try_emit_def split: if_splits)
  show "es_log s' = es_log s @ [e]" if "try_emit s e = (True, s')" for s e s'
    using that by (auto simp: try_emit_def es_log_def es_push_def split: if_splits)
qed

lemma try_emit_event_Inl: "try_emit_event es e = (Inl f, es') \<Longrightarrow> es' = es \<and> f = QUEUE_UNAVAILABLE"
  by (auto simp: try_emit_event_def split: prod.splits bool.splits dest: es.refused)

lemma try_emit_event_Inr: "try_emit_event es e = (Inr u, es') \<Longrightarrow> es_log es' = es_log es @ [e]"
  by (auto simp: try_emit_event_def split: prod.splits bool.splits dest: es.accepted)

lemma try_emit_event_prefix: "try_emit_event es e = (r, es') \<Longrightarrow> prefix (es_log es) (es_log es')"
  by (cases r) (auto dest: try_emit_event_Inl try_emit_event_Inr)

section \<open>Slot accounting\<close>

lemma es_inv_start: "es_inv spawn_writer"
  by (simp add: es_inv_def spawn_writer_def audit_held_def queue_consts)

lemma audit_held_push:
  "audit_held (es_push es q) = audit_held es + of_bool (qe_audit q)"
  by (simp add: audit_held_def es_push_def)

lemma es_inv_try_emit: "es_inv es \<Longrightarrow> try_emit es e = (ok, es') \<Longrightarrow> es_inv es'"
  by (auto simp: es_inv_def try_emit_def es_capacity_def es_push_def audit_held_def split: if_splits)

lemma es_inv_emit_poll: "es_inv es \<Longrightarrow> emit_poll es e = (r, es') \<Longrightarrow> es_inv es'"
  by (auto simp: es_inv_def emit_poll_def es_capacity_def es_push_def audit_held_def split: if_splits)

lemma es_inv_reserve: "es_inv es \<Longrightarrow> reserve p es = (ok, es') \<Longrightarrow> es_inv es'"
  by (cases p) (auto simp: es_inv_def reserve_def es_capacity_def set_pool_def pool_free_def audit_held_def
      split: if_splits option.splits)

lemma reserved_of_pool:
  "es_inv es \<Longrightarrow> pool_free p es < pool_size p \<Longrightarrow> 0 < es_reserved es"
  by (cases p) (auto simp: es_inv_def pool_free_def pool_size_def)

lemma es_inv_reservation_emit:
  assumes "es_inv es" and "pool_free p es < pool_size p"
  shows "es_inv (reservation_emit p es e)"
  using assms reserved_of_pool [OF assms]
  by (cases p) (auto simp: es_inv_def reservation_emit_def set_pool_def pool_free_def pool_size_def
      es_push_def audit_held_def)

lemma es_inv_reservation_drop:
  assumes "es_inv es" and "pool_free p es < pool_size p"
  shows "es_inv (reservation_drop p es)"
  using assms reserved_of_pool [OF assms]
  by (cases p) (auto simp: es_inv_def reservation_drop_def set_pool_def pool_free_def pool_size_def
      audit_held_def)

lemma es_inv_recv: "es_inv es \<Longrightarrow> es_inv (writer_recv es)"
  by (auto simp: es_inv_def writer_recv_def audit_held_def split: option.splits list.splits)

lemma es_inv_done: "es_inv es \<Longrightarrow> es_inv (writer_done ok es)"
  by (auto simp: es_inv_def writer_done_def audit_held_def Let_def split: option.splits)

lemma es_step_inv: "es_step es es' \<Longrightarrow> es_inv es \<Longrightarrow> es_inv es'"
  by (induction rule: es_step.induct)
    (auto intro: es_inv_try_emit es_inv_reserve es_inv_reservation_emit es_inv_reservation_drop
      es_inv_emit_poll es_inv_recv es_inv_done)

lemma es_reach_inv: "es_reach es \<Longrightarrow> es_inv es"
  by (induction rule: es_reach.induct) (auto intro: es_inv_start es_step_inv)

text \<open>
  Ordinary traffic cannot starve lifecycle events. In every reachable state of the channel at
  most 48 of the 64 slots are held by ordinary events and reservations together, so that a
  lifecycle event is accepted whenever the channel is open and fewer than 16 lifecycle events wait.
\<close>

theorem lifecycle_headroom:
  assumes "es_reach es" and "\<not> es_closed es" and "lifecycle_queued es < 16" and "\<not> ordinary e"
  shows "fst (try_emit es e) \<and> length (filter qe_audit (es_queue es)) + es_reserved es \<le> AUDIT_SLOTS"
proof -
  from assms(1) have inv: "es_inv es" by (rule es_reach_inv)
  have "length (es_queue es) = length (filter qe_audit (es_queue es)) + lifecycle_queued es"
    unfolding lifecycle_queued_def by (rule sum_length_filter_compl [symmetric])
  with inv assms(2-4) show ?thesis
    by (auto simp: es_inv_def audit_held_def try_emit_def es_capacity_def queue_consts)
qed

lemma es_step_try: "es_step es (snd (try_emit es e))"
  by (rule step_try_emit [where ok = "fst (try_emit es e)" and e = e]) simp

theorem lifecycle_headroom_witness:
  "fst (try_emit (snd (try_emit spawn_writer (AuditDropped 1 0 0 5))) (DeviceRevoked ''d''))"
proof -
  let ?es = "snd (try_emit spawn_writer (AuditDropped 1 0 0 5))"
  have "es_reach ?es" by (rule es_more [OF es_start es_step_try])
  moreover have "\<not> es_closed ?es" and "lifecycle_queued ?es < 16"
    by (simp_all add: try_emit_def spawn_writer_def es_push_def lifecycle_queued_def ordinary_def)
  moreover have "\<not> ordinary (DeviceRevoked ''d'')" by (simp add: ordinary_def)
  ultimately show ?thesis using lifecycle_headroom by blast
qed

section \<open>Order\<close>

lemma es_step_log:
  assumes "es_step es es'" and "\<not> es_closed es'"
  shows "\<not> es_closed es \<and> prefix (es_log es) (es_log es')"
  using assms
proof (induction rule: es_step.induct)
  case (step_try_emit es e ok es')
  moreover from step_try_emit have "es_closed es' = es_closed es"
    by (auto simp: try_emit_def es_push_def split: if_splits)
  ultimately show ?case by (auto dest: es.emit_prefix)
next
  case (step_reserve p es ok es')
  then show ?case by (cases p) (auto simp: reserve_def set_pool_def es_log_def split: if_splits)
next
  case (step_reservation_emit p es e)
  then show ?case by (cases p) (auto simp: reservation_emit_def set_pool_def es_push_def es_log_def)
next
  case (step_reservation_drop p es)
  then show ?case by (cases p) (auto simp: reservation_drop_def set_pool_def es_log_def)
next
  case (step_emit es e r es')
  then show ?case by (auto simp: emit_poll_def es_push_def es_log_def split: if_splits)
next
  case (step_recv es)
  then show ?case by (auto simp: writer_recv_def es_log_def split: option.splits list.splits if_splits)
next
  case (step_done es ok)
  then show ?case by (auto simp: writer_done_def es_log_def Let_def split: option.splits if_splits)
qed

inductive es_steps :: "event_sender \<Rightarrow> event_sender \<Rightarrow> bool" where
  es_refl: "es_steps es es"
| es_trans: "es_steps es es' \<Longrightarrow> es_step es' es'' \<Longrightarrow> es_steps es es''"

lemma es_steps_log:
  assumes "es_steps es es'" and "\<not> es_closed es'"
  shows "prefix (es_log es) (es_log es')"
proof -
  from assms have "prefix (es_log es) (es_log es') \<and> \<not> es_closed es"
  proof (induction rule: es_steps.induct)
    case (es_trans es es' es'')
    from es_step_log [OF es_trans(2,4)] es_trans(3) show ?case by (auto intro: prefix_order.trans)
  qed simp
  then show ?thesis by simp
qed

text \<open>
  The channel is FIFO. As long as the writer lives, the sequence of accepted events only grows
  at its end, and what the writer has put on stdout is always a prefix of it: events are written
  in the order in which they were accepted, none twice and none skipped.
\<close>

theorem events_in_order:
  assumes "es_steps es es'" and "\<not> es_closed es'"
  shows "prefix (es_log es) (es_log es') \<and> prefix (es_written es') (es_log es')"
  using es_steps_log [OF assms] by (simp add: es_log_def)

theorem events_in_order_witness:
  "prefix (es_written (writer_done True (writer_recv (snd (try_emit spawn_writer (Ready 1))))))
     (es_log (writer_done True (writer_recv (snd (try_emit spawn_writer (Ready 1))))))"
proof -
  let ?a = "snd (try_emit spawn_writer (Ready 1))"
  have "es_step spawn_writer ?a" by (rule es_step_try)
  then have "es_steps spawn_writer (writer_done True (writer_recv ?a))"
    by (meson es_refl es_trans step_recv step_done)
  moreover have "\<not> es_closed (writer_done True (writer_recv ?a))"
    by (simp add: try_emit_def spawn_writer_def es_push_def writer_recv_def writer_done_def es_capacity_def queue_consts)
  ultimately show ?thesis using events_in_order by blast
qed

end
