(* ===== verification/Pairing.thy ===== *)
theory Pairing
  imports Event_Queue
begin

text \<open>
  \<open>companion/src/pairing.rs\<close>: how a phone becomes a registered device. A pairing is created by the
  desktop, claimed once by the phone that knows its secret, approved by the desktop after comparing
  the short authentication string, and turned into one registration through a rotating ticket.

  Every method is a function on the pairing table and the event queue; its result is the Rust
  \<open>Result\<close>, paired with the new table and queue, because mutations made before an early return
  stay. Each reading of the clock and each draw of entropy in a method is an argument of its own.
  \<open>status\<close> awaits between two critical sections: it is split at the await, and other steps may
  come in between. Its permits are released by \<open>status_release\<close> when its future ends.
\<close>

section \<open>Data\<close>

definition INVALID :: failure where "INVALID = (FORBIDDEN, ''Pairing request rejected'')"
definition BUSY :: failure where "BUSY = (TOO_MANY_REQUESTS, ''Pairing limit reached'')"
definition ENTROPY :: failure where "ENTROPY = (SERVICE_UNAVAILABLE, ''Pairing unavailable'')"

definition PAIRING_TTL :: duration where "PAIRING_TTL = from_secs 300"
definition TICKET_TTL :: duration where "TICKET_TTL = from_secs 120"
definition REGISTRATION_WINDOW :: duration where "REGISTRATION_WINDOW = from_secs 600"
definition MAX_LIVE :: nat where "MAX_LIVE = 4"
definition MAX_RECORDS :: nat where "MAX_RECORDS = 16"

record claim_request =
  cl_pairing_id :: string
  cl_secret :: string
  cl_device_label :: string
  cl_device_nonce :: string

record status_request =
  sq_pairing_id :: string
  sq_claim_token :: string

record claim_response =
  cp_gateway_nonce :: string
  cp_sas :: string
  cp_claim_token :: string

datatype pstate = Pending | Approved | Rejected | Expired | Registering | Registered

record status_response =
  sp_state :: pstate
  sp_registration_ticket :: "string option"

record registration =
  rg_pairing_id :: string
  rg_device_label :: string
  rg_add_to_device :: "string option"
  rg_started_at :: timestamp
  rg_deadline :: timestamp

record ticket =
  tk_hash :: bytes
  tk_until :: timestamp

text \<open>
  The watch channel \<open>changed\<close> is the number of changes sent, the semaphore \<open>polls\<close> its free
  permits.
\<close>

record pairing =
  pr_add_to_device :: "string option"
  pr_secret :: "bytes option"
  pr_secret_hash :: bytes
  pr_claim_hash :: "bytes option"
  pr_label :: "string option"
  pr_failures :: u8
  pr_state :: pstate
  pr_until :: timestamp
  pr_changed :: nat
  pr_polls :: nat
  pr_ticket :: "ticket option"
  pr_registration :: "registration option"
  pr_notification :: "string option"

record pairings =
  ps_entries :: "(string, pairing) hmap"
  ps_polls :: nat
  ps_origin :: string
  ps_login :: string

definition pairings_new :: "string \<Rightarrow> string \<Rightarrow> pairings" where
  "pairings_new public_host login =
     \<lparr>ps_entries = [], ps_polls = 8, ps_origin = ''https://'' @ public_host, ps_login = login\<rparr>"

section \<open>One pairing\<close>

definition live :: "pairing \<Rightarrow> bool" where
  "live p \<longleftrightarrow> pr_state p \<in> {Pending, Approved, Registering}"

definition transition :: "pstate \<Rightarrow> pairing \<Rightarrow> pairing" where
  "transition s p =
     p\<lparr>pr_state := s,
       pr_registration := (if s \<noteq> Registering then None else pr_registration p),
       pr_ticket := (if s \<noteq> Approved then None else pr_ticket p),
       pr_secret := (if s \<noteq> Pending then None else pr_secret p),
       pr_changed := pr_changed p + 1\<rparr>"

definition expiry :: "pairing \<Rightarrow> timestamp" where
  "expiry p = (case pr_registration p of None \<Rightarrow> pr_until p | Some r \<Rightarrow> rg_deadline r)"

definition expire :: "timestamp \<Rightarrow> pairing \<Rightarrow> pairing" where
  "expire now p =
     (if live p \<and> expiry p \<le> now then (transition Expired p)\<lparr>pr_notification := Some ''ttl''\<rparr> else p)"

definition notify ::
  "string \<Rightarrow> pairing \<Rightarrow> event_sender \<Rightarrow> (failure + unit) \<times> pairing \<times> event_sender" where
  "notify pid p es =
     (case pr_notification p of
        None \<Rightarrow> (Inr (), p, es)
      | Some reason \<Rightarrow>
          (let st = (if pr_state p = Expired then ''expired'' else ''rejected'')
           in case try_emit_event es (PairingState pid st reason) of
                (Inl f, es') \<Rightarrow> (Inl f, p, es')
              | (Inr _, es') \<Rightarrow> (Inr (), p\<lparr>pr_notification := None\<rparr>, es')))"

text \<open>\<open>fail\<close> returns an error on every path; the function returns that error.\<close>

definition fail ::
  "string \<Rightarrow> bool \<Rightarrow> pairing \<Rightarrow> event_sender \<Rightarrow> failure \<times> pairing \<times> event_sender" where
  "fail pid second_claim p es =
     (let p1 = p\<lparr>pr_failures := saturating_add (pr_failures p) 1\<rparr>
      in if 5 \<le> pr_failures p1 \<or> second_claim
         then (let p2 = (transition Rejected p1)
                  \<lparr>pr_notification := Some (if second_claim then ''second-claim'' else ''attempt-limit'')\<rparr>
               in case notify pid p2 es of
                    (Inl f, p3, es') \<Rightarrow> (f, p3, es')
                  | (Inr _, p3, es') \<Rightarrow> (INVALID, p3, es'))
         else (INVALID, p1, es))"

section \<open>Maintenance and commands of the desktop\<close>

text \<open>Each visited entry reads the clock; \<open>now pid\<close> is the reading at the entry \<open>pid\<close>.\<close>

fun maintain ::
  "(string \<Rightarrow> timestamp) \<Rightarrow> (string, pairing) hmap \<Rightarrow> event_sender \<Rightarrow> (string, pairing) hmap \<times> event_sender" where
  "maintain now [] es = ([], es)"
| "maintain now ((pid, p) # m) es =
     (case notify pid (expire (now pid) p) es of (_, p', es') \<Rightarrow>
        (case maintain now m es' of (m', es'') \<Rightarrow> ((pid, p') # m', es'')))"

definition pairings_maintenance ::
  "(string \<Rightarrow> timestamp) \<Rightarrow> pairings \<Rightarrow> event_sender \<Rightarrow> pairings \<times> event_sender" where
  "pairings_maintenance now ps es =
     (case maintain now (ps_entries ps) es of (m, es') \<Rightarrow> (ps\<lparr>ps_entries := m\<rparr>, es'))"

definition new_pairing :: "ext \<Rightarrow> string option \<Rightarrow> bytes \<Rightarrow> timestamp \<Rightarrow> pairing" where
  "new_pairing X add_to_device secret until =
     \<lparr>pr_add_to_device = add_to_device, pr_secret = Some secret, pr_secret_hash = hash X secret,
      pr_claim_hash = None, pr_label = None, pr_failures = 0, pr_state = Pending, pr_until = until,
      pr_changed = 0, pr_polls = 1, pr_ticket = None, pr_registration = None, pr_notification = None\<rparr>"

text \<open>The oldest entry that is neither live nor owed a notification.\<close>

definition oldest_evictable :: "(string, pairing) hmap \<Rightarrow> string option" where
  "oldest_evictable m =
     map_option fst (min_by_key (\<lambda>e. pr_until (snd e))
        (filter (\<lambda>e. \<not> live (snd e) \<and> pr_notification (snd e) = None) m))"

definition evict :: "(string, pairing) hmap \<Rightarrow> failure + (string, pairing) hmap" where
  "evict m =
     (if length m \<ge> MAX_RECORDS
      then (case oldest_evictable m of None \<Rightarrow> Inl BUSY | Some oldest \<Rightarrow> Inr (hm_remove oldest m))
      else Inr m)"

definition pairing_create ::
  "ext \<Rightarrow> string \<Rightarrow> string option \<Rightarrow> timestamp \<Rightarrow> bytes option \<Rightarrow> bytes option \<Rightarrow> pairings \<Rightarrow> event_sender
     \<Rightarrow> (failure + admin_result) \<times> pairings \<times> event_sender" where
  "pairing_create X path add_to_device now rid rsecret ps es =
     (if (case add_to_device of None \<Rightarrow> False | Some pid \<Rightarrow> decode X 16 pid = None) then (Inl INVALID, ps, es)
      else if path = ''lan'' then (Inl (BAD_REQUEST, ''LAN pairing not supported''), ps, es)
      else if path \<noteq> ''tailscale'' then (Inl (BAD_REQUEST, ''Invalid pairing path''), ps, es)
      else if hm_count live (ps_entries ps) \<ge> MAX_LIVE then (Inl BUSY, ps, es)
      else
        (case evict (ps_entries ps) of
           Inl f \<Rightarrow> (Inl f, ps, es)
         | Inr m \<Rightarrow>
             (case (rid, rsecret) of
                (Some idb, Some secret) \<Rightarrow>
                  (let pid = encode X idb; until = after now PAIRING_TTL;
                       url = ps_origin ps @ ''/pair#p='' @ pid @ ''.'' @ encode X secret
                   in case try_emit_event es (PairingCreated pid url until) of
                        (Inl f, es') \<Rightarrow> (Inl f, ps\<lparr>ps_entries := m\<rparr>, es')
                      | (Inr _, es') \<Rightarrow>
                          (Inr Applied,
                           ps\<lparr>ps_entries := hm_insert pid (new_pairing X add_to_device secret until) m\<rparr>, es'))
              | _ \<Rightarrow> (Inl ENTROPY, ps\<lparr>ps_entries := m\<rparr>, es))))"

definition decide ::
  "string \<Rightarrow> pstate \<Rightarrow> string \<Rightarrow> timestamp \<Rightarrow> pairing \<Rightarrow> event_sender
     \<Rightarrow> (failure + admin_result) \<times> pairing \<times> event_sender" where
  "decide pid state reason now p es =
     (let p = expire now p
      in if \<not> live p \<or> (state = Approved \<and> (pr_state p \<noteq> Pending \<or> pr_claim_hash p = None))
         then (Inl INVALID, p, es)
         else if state = Approved
         then (case try_emit_event es (PairingState pid ''approved'' reason) of
                 (Inl f, es') \<Rightarrow> (Inl f, p, es')
               | (Inr _, es') \<Rightarrow>
                   (Inr Applied, transition state (p\<lparr>pr_until := after now REGISTRATION_WINDOW\<rparr>), es'))
         else (case notify pid ((transition state p)\<lparr>pr_notification := Some reason\<rparr>) es of
                 (Inl _, p', es') \<Rightarrow>
                   (Inr (NotificationDeferred
                           (if reason = ''cancelled'' then ''pairing.cancel'' else ''pairing.reject'') pid), p', es')
               | (Inr _, p', es') \<Rightarrow> (Inr Applied, p', es')))"

definition with_entry ::
  "pairings \<Rightarrow> string \<Rightarrow> (pairing \<Rightarrow> event_sender \<Rightarrow> (failure + 'a) \<times> pairing \<times> event_sender) \<Rightarrow> event_sender
     \<Rightarrow> (failure + 'a) \<times> pairings \<times> event_sender" where
  "with_entry ps pid f es =
     (case hm_with (ps_entries ps) pid INVALID f es of (r, m, es') \<Rightarrow> (r, ps\<lparr>ps_entries := m\<rparr>, es'))"

text \<open>\<open>nows\<close> are the readings of maintenance, \<open>now\<close> the one of the command itself.\<close>

definition pairings_command ::
  "ext \<Rightarrow> (string \<Rightarrow> timestamp) \<Rightarrow> timestamp \<Rightarrow> bytes option \<Rightarrow> bytes option \<Rightarrow> pairing_command
     \<Rightarrow> pairings \<Rightarrow> event_sender \<Rightarrow> (failure + admin_result) \<times> pairings \<times> event_sender" where
  "pairings_command X nows now rid rsecret command ps es =
     (case pairings_maintenance nows ps es of (ps, es) \<Rightarrow>
        let decision = (\<lambda>pid state reason.
              if decode X 16 pid = None then (Inl INVALID, ps, es)
              else with_entry ps pid (decide pid state reason now) es)
        in case command of
             PairingCreate path add_to_device \<Rightarrow> pairing_create X path add_to_device now rid rsecret ps es
           | PairingApprove pid \<Rightarrow> decision pid Approved ''approved''
           | PairingReject pid \<Rightarrow> decision pid Rejected ''rejected''
           | PairingCancel pid \<Rightarrow> decision pid Rejected ''cancelled'')"

section \<open>The short authentication string\<close>

definition be32 :: "nat \<Rightarrow> bytes" where
  "be32 n = map of_nat [n div 16777216 mod 256, n div 65536 mod 256, n div 256 mod 256, n mod 256]"

definition sas_block :: "ext \<Rightarrow> bytes \<Rightarrow> bytes \<Rightarrow> bytes \<Rightarrow> nat \<Rightarrow> bytes" where
  "sas_block X secret device_nonce gateway_nonce counter =
     x_hmac_sha256 X secret (str_bytes ''yz-sas-v1'' @ device_nonce @ gateway_nonce
        @ (if counter \<noteq> 0 then be32 counter else []))"

definition sas_digit :: "byte \<Rightarrow> char" where
  "sas_digit b = char_of (48 + unat b mod 10)"

fun sas_take :: "bytes \<Rightarrow> string \<Rightarrow> string" where
  "sas_take [] result = result"
| "sas_take (b # bs) result =
     (if unat b < 250
      then (if length result + 1 = 6 then result @ [sas_digit b] else sas_take bs (result @ [sas_digit b]))
      else sas_take bs result)"

text \<open>The counter is a \<open>u32\<close>: leaving its range without six digits is the unreachable end.\<close>

function sas_loop :: "(nat \<Rightarrow> bytes) \<Rightarrow> nat \<Rightarrow> string \<Rightarrow> string option" where
  "sas_loop block counter result =
     (if counter \<ge> 2 ^ 32 then None
      else (let result' = sas_take (block counter) result
            in if length result' = 6 then Some result' else sas_loop block (counter + 1) result'))"
  by pat_completeness auto
termination
  by (relation "measure (\<lambda>(_, counter, _). 2 ^ 32 - counter)") auto

declare sas_loop.simps [simp del]

definition derive_sas :: "ext \<Rightarrow> bytes \<Rightarrow> bytes \<Rightarrow> bytes \<Rightarrow> string option" where
  "derive_sas X secret device_nonce gateway_nonce =
     sas_loop (sas_block X secret device_nonce gateway_nonce) 0 []"

section \<open>Claiming and polling\<close>

definition zeros32 :: bytes where
  "zeros32 = replicate 32 0"

definition unwrap_or :: "'a option \<Rightarrow> 'a \<Rightarrow> 'a" where
  "unwrap_or x d = (case x of None \<Rightarrow> d | Some v \<Rightarrow> v)"

definition user_agent_ok :: "string \<Rightarrow> bool" where
  "user_agent_ok ua \<longleftrightarrow> length ua \<le> 256 \<and> list_all (\<lambda>b. 32 \<le> code b \<and> code b \<le> 126) ua"

text \<open>
  The claim's critical section on the entry, once the request has been decoded. \<open>Inr None\<close> is the panic
  of \<open>derive_sas\<close>, which has left the range of its counter: neither a response nor a failure.
\<close>

definition claim_entry ::
  "ext \<Rightarrow> string \<Rightarrow> claim_request \<Rightarrow> string \<Rightarrow> bytes \<Rightarrow> bytes option \<Rightarrow> timestamp \<Rightarrow> bytes option \<Rightarrow> bytes option
     \<Rightarrow> pairing \<Rightarrow> event_sender \<Rightarrow> (failure + claim_response option) \<times> pairing \<times> event_sender" where
  "claim_entry X login req ua device_nonce supplied now rnonce rtoken p es =
     (case notify (cl_pairing_id req) (expire now p) es of
        (Inl f, p, es) \<Rightarrow> (Inl f, p, es)
      | (Inr _, p, es) \<Rightarrow>
          if \<not> live p then (Inl INVALID, p, es)
          else if pr_claim_hash p \<noteq> None
          then (case fail (cl_pairing_id req) True p es of (f, p, es) \<Rightarrow> (Inl f, p, es))
          else if \<not> matches X (pr_secret_hash p) (unwrap_or supplied zeros32) \<or> supplied = None
          then (case fail (cl_pairing_id req) False p es of (f, p, es) \<Rightarrow> (Inl f, p, es))
          else
            (case (rnonce, rtoken) of
               (Some gateway_nonce, Some token) \<Rightarrow>
                 (case pr_secret p of
                    None \<Rightarrow> (Inl INVALID, p, es)
                  | Some secret \<Rightarrow>
                      (case derive_sas X secret device_nonce gateway_nonce of
                         None \<Rightarrow> (Inr None, p, es)
                       | Some sas \<Rightarrow>
                           (case try_emit_event es
                                  (PairingClaimed (cl_pairing_id req) (cl_device_label req) sas login ua) of
                              (Inl f, es) \<Rightarrow> (Inl f, p, es)
                            | (Inr _, es) \<Rightarrow>
                                (Inr (Some \<lparr>cp_gateway_nonce = encode X gateway_nonce, cp_sas = sas,
                                            cp_claim_token = encode X token\<rparr>),
                                 p\<lparr>pr_claim_hash := Some (hash X token), pr_label := Some (cl_device_label req),
                                   pr_secret := None\<rparr>, es))))
             | _ \<Rightarrow> (Inl ENTROPY, p, es)))"

definition claim ::
  "ext \<Rightarrow> claim_request \<Rightarrow> string \<Rightarrow> timestamp \<Rightarrow> bytes option \<Rightarrow> bytes option \<Rightarrow> pairings \<Rightarrow> event_sender
     \<Rightarrow> (failure + claim_response option) \<times> pairings \<times> event_sender" where
  "claim X req ua now rnonce rtoken ps es =
     (if decode X 16 (cl_pairing_id req) = None \<or> \<not> valid_label (cl_device_label req) \<or> \<not> user_agent_ok ua
      then (Inl INVALID, ps, es)
      else (case decode X 32 (cl_device_nonce req) of
              None \<Rightarrow> (Inl INVALID, ps, es)
            | Some device_nonce \<Rightarrow>
                with_entry ps (cl_pairing_id req)
                  (claim_entry X (ps_login ps) req ua device_nonce (decode X 32 (cl_secret req)) now rnonce rtoken)
                  es))"

definition authenticate_entry ::
  "ext \<Rightarrow> status_request \<Rightarrow> pairing \<Rightarrow> event_sender \<Rightarrow> (failure + unit) \<times> pairing \<times> event_sender" where
  "authenticate_entry X req p es =
     (let token = decode X 32 (sq_claim_token req);
          valid = matches X (unwrap_or (pr_claim_hash p) zeros32) (unwrap_or token zeros32)
      in if \<not> valid \<or> token = None \<or> pr_claim_hash p = None
         then (if live p
               then (case fail (sq_pairing_id req) False p es of (f, p, es) \<Rightarrow> (Inl f, p, es))
               else (Inl INVALID, p, es))
         else (Inr (), p, es))"

text \<open>The first critical section of \<open>status\<close>: on success it holds both poll permits.\<close>

definition status_begin_entry ::
  "ext \<Rightarrow> status_request \<Rightarrow> timestamp \<Rightarrow> nat \<Rightarrow> pairing \<Rightarrow> event_sender
     \<Rightarrow> (failure + nat \<times> timestamp) \<times> pairing \<times> event_sender" where
  "status_begin_entry X req now global p es =
     (case authenticate_entry X req (expire now p) es of
        (Inl f, p, es) \<Rightarrow> (Inl f, p, es)
      | (Inr _, p, es) \<Rightarrow>
          if pr_polls p = 0 then (Inl BUSY, p, es)
          else if global = 0 then (Inl BUSY, p, es)
          else (Inr (pr_changed p, pr_until p), p\<lparr>pr_polls := pr_polls p - 1\<rparr>, es))"

definition status_begin ::
  "ext \<Rightarrow> status_request \<Rightarrow> timestamp \<Rightarrow> pairings \<Rightarrow> event_sender
     \<Rightarrow> (failure + nat \<times> timestamp) \<times> pairings \<times> event_sender" where
  "status_begin X req now ps es =
     (if decode X 16 (sq_pairing_id req) = None then (Inl INVALID, ps, es)
      else (case with_entry ps (sq_pairing_id req) (status_begin_entry X req now (ps_polls ps)) es of
              (Inl f, ps, es) \<Rightarrow> (Inl f, ps, es)
            | (Inr h, ps, es) \<Rightarrow> (Inr h, ps\<lparr>ps_polls := ps_polls ps - 1\<rparr>, es)))"

text \<open>The recheck under the lock: whether \<open>status\<close> waits before its second section.\<close>

definition status_pending :: "pairings \<Rightarrow> string \<Rightarrow> bool" where
  "status_pending ps pid =
     (case hm_get (ps_entries ps) pid of None \<Rightarrow> False | Some p \<Rightarrow> pr_state p = Pending)"

definition status_finish_entry ::
  "ext \<Rightarrow> status_request \<Rightarrow> timestamp \<Rightarrow> timestamp \<Rightarrow> bytes option \<Rightarrow> pairing \<Rightarrow> event_sender
     \<Rightarrow> (failure + status_response) \<times> pairing \<times> event_sender" where
  "status_finish_entry X req now now2 rticket p es =
     (case authenticate_entry X req (expire now p) es of
        (Inl f, p, es) \<Rightarrow> (Inl f, p, es)
      | (Inr _, p, es) \<Rightarrow>
          (case notify (sq_pairing_id req) p es of
             (Inl f, p, es) \<Rightarrow> (Inl f, p, es)
           | (Inr _, p, es) \<Rightarrow>
               if pr_state p = Approved
               then (case rticket of
                       None \<Rightarrow> (Inl ENTROPY, p, es)
                     | Some tk \<Rightarrow>
                         (Inr \<lparr>sp_state = pr_state p, sp_registration_ticket = Some (encode X tk)\<rparr>,
                          p\<lparr>pr_ticket := Some \<lparr>tk_hash = hash X tk,
                                               tk_until = min (after now2 TICKET_TTL) (pr_until p)\<rparr>\<rparr>, es))
               else (Inr \<lparr>sp_state = pr_state p, sp_registration_ticket = None\<rparr>, p, es)))"

definition status_finish ::
  "ext \<Rightarrow> status_request \<Rightarrow> timestamp \<Rightarrow> timestamp \<Rightarrow> bytes option \<Rightarrow> pairings \<Rightarrow> event_sender
     \<Rightarrow> (failure + status_response) \<times> pairings \<times> event_sender" where
  "status_finish X req now now2 rticket ps es =
     with_entry ps (sq_pairing_id req) (status_finish_entry X req now now2 rticket) es"

text \<open>Both permits go back when the future of \<open>status\<close> ends, also when it is cancelled.\<close>

definition status_release :: "string \<Rightarrow> pairings \<Rightarrow> pairings" where
  "status_release pid ps =
     (case hm_get (ps_entries ps) pid of
        None \<Rightarrow> ps\<lparr>ps_polls := ps_polls ps + 1\<rparr>
      | Some p \<Rightarrow> ps\<lparr>ps_polls := ps_polls ps + 1,
                     ps_entries := hm_insert pid (p\<lparr>pr_polls := pr_polls p + 1\<rparr>) (ps_entries ps)\<rparr>)"

section \<open>Registration\<close>

definition consume_entry ::
  "ext \<Rightarrow> string \<Rightarrow> bytes \<Rightarrow> timestamp \<Rightarrow> timestamp \<Rightarrow> timestamp \<Rightarrow> pairing \<Rightarrow> event_sender
     \<Rightarrow> (failure + registration) \<times> pairing \<times> event_sender" where
  "consume_entry X pid supplied now now2 started_at p es =
     (let p = expire now p
      in case pr_ticket p of
           None \<Rightarrow> (Inl INVALID, p, es)
         | Some current \<Rightarrow>
             if \<not> matches X (tk_hash current) supplied \<or> tk_until current \<le> now2 \<or> pr_state p \<noteq> Approved
             then (Inl INVALID, p, es)
             else (case pr_label p of
                     None \<Rightarrow> (Inl INVALID, p, es)
                   | Some label \<Rightarrow>
                       (let r = \<lparr>rg_pairing_id = pid, rg_device_label = label,
                                 rg_add_to_device = pr_add_to_device p, rg_started_at = started_at,
                                 rg_deadline = min (after started_at TICKET_TTL) (pr_until p)\<rparr>
                        in (Inr r, transition Registering (p\<lparr>pr_registration := Some r\<rparr>), es))))"

definition consume_ticket ::
  "ext \<Rightarrow> string \<Rightarrow> string \<Rightarrow> timestamp \<Rightarrow> timestamp \<Rightarrow> timestamp \<Rightarrow> pairings \<Rightarrow> event_sender
     \<Rightarrow> (failure + registration) \<times> pairings \<times> event_sender" where
  "consume_ticket X pid tk now now2 started_at ps es =
     (case decode X 32 tk of
        None \<Rightarrow> (Inl INVALID, ps, es)
      | Some supplied \<Rightarrow> with_entry ps pid (consume_entry X pid supplied now now2 started_at) es)"

definition retry_entry ::
  "registration \<Rightarrow> timestamp \<Rightarrow> pairing \<Rightarrow> event_sender \<Rightarrow> (failure + unit) \<times> pairing \<times> event_sender" where
  "retry_entry r now p es =
     (let p = expire now p
      in (Inr (), if pr_state p = Registering \<and> pr_registration p = Some r then transition Approved p else p, es))"

definition retry_registration ::
  "registration \<Rightarrow> timestamp \<Rightarrow> pairings \<Rightarrow> event_sender \<Rightarrow> (failure + unit) \<times> pairings \<times> event_sender" where
  "retry_registration r now ps es = with_entry ps (rg_pairing_id r) (retry_entry r now) es"

text \<open>
  \<open>finish\<close> runs the caller's commit between the recheck and the last transition. The commit works on
  the caller's state \<open>'t\<close> (the identity table and the event queue).
\<close>

definition finish_entry ::
  "registration \<Rightarrow> timestamp \<Rightarrow> ('t \<Rightarrow> (failure + 'a) \<times> 't) \<Rightarrow> pairing \<Rightarrow> 't \<Rightarrow> (failure + 'a) \<times> pairing \<times> 't" where
  "finish_entry r now commit p t =
     (let p = expire now p
      in case pr_registration p of
           None \<Rightarrow> (Inl INVALID, p, t)
         | Some current \<Rightarrow>
             if pr_state p \<noteq> Registering
               \<or> rg_started_at current \<noteq> rg_started_at r \<or> rg_deadline current \<noteq> rg_deadline r
               \<or> rg_device_label current \<noteq> rg_device_label r \<or> rg_add_to_device current \<noteq> rg_add_to_device r
             then (Inl INVALID, p, t)
             else (case commit t of
                     (Inl f, t') \<Rightarrow> (Inl f, p, t')
                   | (Inr x, t') \<Rightarrow> (Inr x, transition Registered p, t')))"

definition finish ::
  "registration \<Rightarrow> timestamp \<Rightarrow> ('t \<Rightarrow> (failure + 'a) \<times> 't) \<Rightarrow> pairings \<Rightarrow> 't \<Rightarrow> (failure + 'a) \<times> pairings \<times> 't" where
  "finish r now commit ps t =
     (case hm_with (ps_entries ps) (rg_pairing_id r) INVALID (finish_entry r now commit) t of
        (res, m, t') \<Rightarrow> (res, ps\<lparr>ps_entries := m\<rparr>, t'))"

section \<open>Invariants\<close>

text \<open>What holds of every entry between critical sections.\<close>

definition approvedish :: "pairing \<Rightarrow> bool" where
  "approvedish p \<longleftrightarrow> pr_state p \<in> {Approved, Registering, Registered}"

definition pairing_ok :: "pairing \<Rightarrow> bool" where
  "pairing_ok p \<longleftrightarrow>
     (pr_secret p \<noteq> None \<longleftrightarrow> pr_state p = Pending \<and> pr_claim_hash p = None)
     \<and> (approvedish p \<longrightarrow> pr_claim_hash p \<noteq> None)
     \<and> (pr_claim_hash p \<noteq> None \<longleftrightarrow> pr_label p \<noteq> None)
     \<and> (pr_ticket p \<noteq> None \<longrightarrow> pr_state p = Approved)
     \<and> (pr_registration p \<noteq> None \<longleftrightarrow> pr_state p = Registering)
     \<and> (\<forall>r. pr_registration p = Some r \<longrightarrow> rg_deadline r \<le> pr_until p
            \<and> pr_label p = Some (rg_device_label r) \<and> rg_add_to_device r = pr_add_to_device p)
     \<and> (\<forall>t. pr_ticket p = Some t \<longrightarrow> tk_until t \<le> pr_until p)
     \<and> (live p \<longrightarrow> unat (pr_failures p) < 5)
     \<and> (pr_notification p \<noteq> None \<longrightarrow> \<not> live p)"

text \<open>
  The contract of every critical section on one entry: it keeps \<open>pairing_ok\<close>, never revives a dead
  pairing, and a claim or an approval comes with its event in the queue.
\<close>

definition entry_step :: "string \<Rightarrow> pairing \<Rightarrow> event_sender \<Rightarrow> pairing \<Rightarrow> event_sender \<Rightarrow> bool" where
  "entry_step pid p es p' es' \<longleftrightarrow>
     (pairing_ok p \<longrightarrow> pairing_ok p')
     \<and> (\<not> live p \<longrightarrow> pr_state p' = pr_state p)
     \<and> pr_secret_hash p' = pr_secret_hash p \<and> pr_add_to_device p' = pr_add_to_device p
     \<and> prefix (es_log es) (es_log es')
     \<and> (pr_claim_hash p' \<noteq> None \<longrightarrow>
           (pr_claim_hash p' = pr_claim_hash p \<and> pr_label p' = pr_label p)
           \<or> (\<exists>label sas login ua. PairingClaimed pid label sas login ua \<in> set (es_log es')
                \<and> pr_label p' = Some label))
     \<and> (approvedish p' \<longrightarrow>
           approvedish p \<or> (\<exists>reason. PairingState pid ''approved'' reason \<in> set (es_log es')))"

text \<open>The table's invariant; \<open>polls\<close> lists the pairings with a \<open>status\<close> call in flight.\<close>

definition pairings_inv :: "pairings \<Rightarrow> string list \<Rightarrow> bool" where
  "pairings_inv ps polls \<longleftrightarrow>
     hm_wf (ps_entries ps)
     \<and> (\<forall>pid p. hm_get (ps_entries ps) pid = Some p \<longrightarrow> pairing_ok p \<and> pr_polls p + count_list polls pid = 1)
     \<and> hm_count live (ps_entries ps) \<le> MAX_LIVE
     \<and> length (ps_entries ps) \<le> MAX_RECORDS
     \<and> ps_polls ps + length polls = 8"

text \<open>Where an entry comes from, read off the accepted events.\<close>

definition provenance :: "event list \<Rightarrow> string \<Rightarrow> pairing \<Rightarrow> bool" where
  "provenance evs pid p \<longleftrightarrow>
     (\<exists>url until. PairingCreated pid url until \<in> set evs)
     \<and> (pr_claim_hash p \<noteq> None \<longrightarrow>
          (\<exists>label sas login ua. PairingClaimed pid label sas login ua \<in> set evs \<and> pr_label p = Some label))
     \<and> (approvedish p \<longrightarrow> (\<exists>reason. PairingState pid ''approved'' reason \<in> set evs))"

section \<open>The steps of the pairing table\<close>

text \<open>
  A drawn pairing id is new: 128 random bits do not repeat while the gateway runs. Between any two
  critical sections other producers and the writer may use the queue; the gateway stops when the
  writer dies.
\<close>

definition fresh_id :: "ext \<Rightarrow> bytes option \<Rightarrow> pairings \<Rightarrow> string list \<Rightarrow> bool" where
  "fresh_id X rid ps polls \<longleftrightarrow>
     (case rid of None \<Rightarrow> True
      | Some idb \<Rightarrow> hm_get (ps_entries ps) (encode X idb) = None \<and> encode X idb \<notin> set polls)"

inductive pstep ::
  "ext \<Rightarrow> pairings \<times> event_sender \<times> string list \<Rightarrow> pairings \<times> event_sender \<times> string list \<Rightarrow> bool"
  for X :: ext where
  p_maintenance: "pairings_maintenance nows ps es = (ps', es') \<Longrightarrow> pstep X (ps, es, polls) (ps', es', polls)"
| p_command: "pairings_command X nows now rid rsecret cmd ps es = (r, ps', es') \<Longrightarrow>
     fresh_id X rid ps polls \<Longrightarrow> pstep X (ps, es, polls) (ps', es', polls)"
| p_claim: "claim X req ua now rnonce rtoken ps es = (r, ps', es') \<Longrightarrow>
     pstep X (ps, es, polls) (ps', es', polls)"
| p_status_refused: "status_begin X sreq now ps es = (Inl f, ps', es') \<Longrightarrow>
     pstep X (ps, es, polls) (ps', es', polls)"
| p_status_begin: "status_begin X sreq now ps es = (Inr h, ps', es') \<Longrightarrow>
     pstep X (ps, es, polls) (ps', es', sq_pairing_id sreq # polls)"
| p_status_finish: "status_finish X sreq now now2 rticket ps es = (r, ps', es') \<Longrightarrow>
     sq_pairing_id sreq \<in> set polls \<Longrightarrow>
     pstep X (ps, es, polls)
       (status_release (sq_pairing_id sreq) ps', es', remove1 (sq_pairing_id sreq) polls)"
| p_status_cancel: "pid \<in> set polls \<Longrightarrow>
     pstep X (ps, es, polls) (status_release pid ps, es, remove1 pid polls)"
| p_consume: "consume_ticket X pid tk now now2 started ps es = (r, ps', es') \<Longrightarrow>
     pstep X (ps, es, polls) (ps', es', polls)"
| p_retry: "retry_registration reg now ps es = (r, ps', es') \<Longrightarrow>
     pstep X (ps, es, polls) (ps', es', polls)"
| p_finish: "finish reg now (commit :: event_sender \<Rightarrow> (failure + string) \<times> event_sender) ps es = (r, ps', es') \<Longrightarrow>
     (\<And>s. prefix (es_log s) (es_log (snd (commit s)))) \<Longrightarrow>
     pstep X (ps, es, polls) (ps', es', polls)"
| p_queue: "es_steps es es' \<Longrightarrow> \<not> es_closed es' \<Longrightarrow> pstep X (ps, es, polls) (ps, es', polls)"

inductive preach :: "ext \<Rightarrow> pairings \<times> event_sender \<times> string list \<Rightarrow> bool" for X :: ext where
  p_start: "preach X (pairings_new host login, spawn_writer, [])"
| p_more: "preach X s \<Longrightarrow> pstep X s s' \<Longrightarrow> preach X s'"

end
