(* ===== verification/Webauthn.thy ===== *)
theory Webauthn
  imports Pairing
begin

text \<open>
  \<open>companion/src/webauthn.rs\<close>: the relying party's use of the WebAuthn library and the table of
  running ceremonies. The library (\<open>webauthn_rp\<close>) is outside the repository: its entry points
  are the fields of one parameter record, and a ceremony's server state is opaque but for its
  challenge, which keys the table. Challenges are drawn by the library; the draw is an argument.
\<close>

section \<open>Failures and policy\<close>

definition REJECTED :: failure where "REJECTED = (FORBIDDEN, ''WebAuthn request rejected'')"
definition UNAVAILABLE :: failure where "UNAVAILABLE = (SERVICE_UNAVAILABLE, ''Authentication unavailable'')"
definition SCOPE_NOT_GRANTED :: failure where "SCOPE_NOT_GRANTED = (FORBIDDEN, ''Scope not granted'')"
definition CHALLENGE_LIMIT :: failure where "CHALLENGE_LIMIT = (TOO_MANY_REQUESTS, ''Challenge limit reached'')"

datatype backup = NotEligible | Eligible | Exists

datatype backup_req = BackupNotEligibleReq | BackupNoneReq

definition requires_unbacked :: "passkey_binding \<Rightarrow> scope \<Rightarrow> bool" where
  "requires_unbacked pol scope \<longleftrightarrow> pol = O1 \<or> (pol = O2 \<and> scope = Full)"

definition backup_requirement :: "passkey_binding \<Rightarrow> scope \<Rightarrow> backup_req" where
  "backup_requirement pol scope =
     (if requires_unbacked pol scope then BackupNotEligibleReq else BackupNoneReq)"

fun flags :: "backup \<Rightarrow> bool \<times> bool" where
  "flags NotEligible = (False, False)"
| "flags Eligible = (True, False)"
| "flags Exists = (True, True)"

definition policy_accepts :: "passkey_binding \<Rightarrow> scope \<Rightarrow> bool \<Rightarrow> bool \<Rightarrow> bool" where
  "policy_accepts pol scope be bs \<longleftrightarrow> (\<not> bs \<or> be) \<and> (\<not> requires_unbacked pol scope \<or> \<not> be)"

section \<open>The library\<close>

type_synonym challenge = nat

record server_state =
  ss_challenge :: challenge
  ss_data :: bytes

record descriptor =
  ds_id :: bytes
  ds_transports :: "transport list"

datatype resident_key = ResidentRequired | ResidentPreferred

record creation_options =
  co_rp_id :: string
  co_user_name :: string
  co_user_id :: bytes
  co_display_name :: "string option"
  co_challenge :: challenge
  co_es384 :: bool
  co_timeout :: nat
  co_exclude :: "descriptor list"
  co_resident_key :: resident_key
  co_user_verification_required :: bool

record request_options =
  ro_challenge :: challenge
  ro_timeout :: nat
  ro_rp_id :: string
  ro_user_verification_required :: bool

record dynamic_state =
  dy_user_verified :: bool
  dy_backup :: backup
  dy_sign_count :: u32

record registered =
  re_user_id :: bytes
  re_id :: bytes
  re_static_state :: "bytes option"
  re_dynamic_state :: dynamic_state
  re_transports :: "transport list option"

record reg_verification =
  rv_allowed_origins :: "string list"
  rv_backup_requirement :: backup_req

record auth_credential =
  ac_id :: bytes
  ac_user :: bytes
  ac_key_state :: string
  ac_dynamic_state :: dynamic_state

record auth_verification =
  av_allowed_origins :: "string list"
  av_backup_requirement :: "backup_req option"

datatype extension_err = ForbiddenHmacSecret | HmacSecretForPrfIncapableCred | OtherExtension

datatype auth_ceremony_err =
    SignatureCounter | OriginMismatch | CrossOrigin | TopOriginMismatch | RpIdHashMismatch
  | UserNotVerified | BackupEligible | BackupNotEligible | BackupDoesNotExist
  | Extension extension_err | ChallengeMismatch | OtherCeremonyErr

text \<open>
  A start function returns the server state and the JSON for the browser; a parse-and-challenge
  function returns the challenge a response claims to answer. The verification options fix the
  rest of what the code passes: extensions not requested are refused, the counter must not go
  back, and user verification is updated.
\<close>

record webauthn_lib =
  wl_domain :: "string \<Rightarrow> bool"
  wl_user_handle :: "bytes \<Rightarrow> bool"
  wl_credential_id :: "bytes \<Rightarrow> bool"
  wl_transports :: "transport list \<Rightarrow> bool"
  wl_nickname :: "string \<Rightarrow> string option"
  wl_start_registration :: "creation_options \<Rightarrow> (server_state \<times> json) option"
  wl_start_login :: "request_options \<Rightarrow> (server_state \<times> json) option"
  wl_second_factor :: "descriptor list \<Rightarrow> bool"
  wl_start_elevation :: "descriptor list \<Rightarrow> request_options \<Rightarrow> (server_state \<times> json) option"
  wl_registration_parse :: "json \<Rightarrow> bool"
  wl_registration_challenge :: "json \<Rightarrow> challenge option"
  wl_login_parse :: "json \<Rightarrow> bool"
  wl_login_challenge :: "json \<Rightarrow> challenge option"
  wl_elevation_parse :: "json \<Rightarrow> bool"
  wl_elevation_challenge :: "json \<Rightarrow> challenge option"
  wl_verify_registration :: "server_state \<Rightarrow> string \<Rightarrow> json \<Rightarrow> reg_verification \<Rightarrow> registered option"
  wl_credential_new :: "auth_credential \<Rightarrow> bool"
  wl_verify_login :: "server_state \<Rightarrow> string \<Rightarrow> json \<Rightarrow> auth_credential \<Rightarrow> auth_verification
      \<Rightarrow> auth_ceremony_err + dynamic_state"
  wl_verify_elevation :: "server_state \<Rightarrow> string \<Rightarrow> json \<Rightarrow> auth_credential \<Rightarrow> auth_verification
      \<Rightarrow> auth_ceremony_err + dynamic_state"

section \<open>The relying party\<close>

definition user_handle :: "ext \<Rightarrow> webauthn_lib \<Rightarrow> string \<Rightarrow> failure + bytes" where
  "user_handle X W did =
     (case decode X 16 did of None \<Rightarrow> Inl REJECTED
      | Some bs \<Rightarrow> if wl_user_handle W bs then Inr bs else Inl REJECTED)"

definition mk_descriptor :: "ext \<Rightarrow> webauthn_lib \<Rightarrow> credential \<Rightarrow> failure + descriptor" where
  "mk_descriptor X W c =
     (case x_b64_decode X (cr_id c) of None \<Rightarrow> Inl REJECTED
      | Some bs \<Rightarrow>
          if \<not> wl_credential_id W bs then Inl REJECTED
          else if \<not> wl_transports W (cr_transports c) then Inl REJECTED
          else Inr \<lparr>ds_id = bs, ds_transports = cr_transports c\<rparr>)"

text \<open>Collecting into a \<open>Result\<close>: the first error, or all the values.\<close>

fun collect_results :: "('a \<Rightarrow> 'e + 'b) \<Rightarrow> 'a list \<Rightarrow> 'e + 'b list" where
  "collect_results f [] = Inr []"
| "collect_results f (x # xs) =
     (case f x of Inl e \<Rightarrow> Inl e
      | Inr y \<Rightarrow> (case collect_results f xs of Inl e \<Rightarrow> Inl e | Inr ys \<Rightarrow> Inr (y # ys)))"

record relying_party =
  rp_host :: string
  rp_origin :: string

definition relying_party_new :: "webauthn_lib \<Rightarrow> string \<Rightarrow> string + relying_party" where
  "relying_party_new W public_host =
     (let host = hd (split_on (CHR '':'') public_host)
      in if \<not> valid_rp_id host then Inl ''invalid-host''
         else if \<not> wl_domain W host then Inl ''invalid-host''
         else Inr \<lparr>rp_host = host, rp_origin = ''https://'' @ public_host\<rparr>)"

definition rp_registration ::
  "ext \<Rightarrow> webauthn_lib \<Rightarrow> relying_party \<Rightarrow> string \<Rightarrow> string \<Rightarrow> credential list \<Rightarrow> bool \<Rightarrow> challenge
     \<Rightarrow> failure + server_state \<times> json" where
  "rp_registration X W rp did label existing first ch =
     (case user_handle X W did of
        Inl f \<Rightarrow> Inl f
      | Inr user \<Rightarrow>
          (case collect_results (mk_descriptor X W) (filter (\<lambda>c. cr_rp_id c = rp_host rp) existing) of
             Inl f \<Rightarrow> Inl f
           | Inr exclude \<Rightarrow>
               (case wl_start_registration W
                       \<lparr>co_rp_id = rp_host rp, co_user_name = ''yuzora-companion'', co_user_id = user,
                        co_display_name = (case wl_nickname W label of
                            None \<Rightarrow> None | Some name \<Rightarrow> if name = label then Some name else None),
                        co_challenge = ch, co_es384 = False, co_timeout = 120000, co_exclude = exclude,
                        co_resident_key = (if first then ResidentRequired else ResidentPreferred),
                        co_user_verification_required = True\<rparr> of
                  None \<Rightarrow> Inl UNAVAILABLE | Some r \<Rightarrow> Inr r)))"

definition rp_request :: "relying_party \<Rightarrow> challenge \<Rightarrow> request_options" where
  "rp_request rp ch =
     \<lparr>ro_challenge = ch, ro_timeout = 120000, ro_rp_id = rp_host rp, ro_user_verification_required = True\<rparr>"

definition rp_login :: "webauthn_lib \<Rightarrow> relying_party \<Rightarrow> challenge \<Rightarrow> failure + server_state \<times> json" where
  "rp_login W rp ch = (case wl_start_login W (rp_request rp ch) of None \<Rightarrow> Inl UNAVAILABLE | Some r \<Rightarrow> Inr r)"

definition elevation_records ::
  "relying_party \<Rightarrow> passkey_binding \<Rightarrow> scope \<Rightarrow> credential list \<Rightarrow> credential list" where
  "elevation_records rp pol scope records =
     filter (\<lambda>c. cr_rp_id c = rp_host rp \<and> policy_accepts pol scope (cr_backup_eligible c) (cr_backup_state c)) records"

definition rp_elevation ::
  "ext \<Rightarrow> webauthn_lib \<Rightarrow> relying_party \<Rightarrow> credential list \<Rightarrow> passkey_binding \<Rightarrow> scope \<Rightarrow> challenge
     \<Rightarrow> failure + server_state \<times> json" where
  "rp_elevation X W rp records pol scope ch =
     (case collect_results (mk_descriptor X W) (elevation_records rp pol scope records) of
        Inl f \<Rightarrow> Inl f
      | Inr allowed \<Rightarrow>
          if \<not> wl_second_factor W allowed then Inl REJECTED
          else (case wl_start_elevation W allowed (rp_request rp ch) of None \<Rightarrow> Inl UNAVAILABLE | Some r \<Rightarrow> Inr r))"

record verified_registration =
  vr_device_id :: string
  vr_record :: credential

definition verify_registration ::
  "ext \<Rightarrow> webauthn_lib \<Rightarrow> relying_party \<Rightarrow> server_state \<Rightarrow> json \<Rightarrow> passkey_binding \<Rightarrow> failure + verified_registration" where
  "verify_registration X W rp server credential pol =
     (if \<not> wl_registration_parse W credential then Inl REJECTED
      else (case wl_verify_registration W server (rp_host rp) credential
                  \<lparr>rv_allowed_origins = [rp_origin rp], rv_backup_requirement = backup_requirement pol View\<rparr> of
              None \<Rightarrow> Inl REJECTED
            | Some reg \<Rightarrow>
                (let dyn = re_dynamic_state reg; be = fst (flags (dy_backup dyn)); bs = snd (flags (dy_backup dyn))
                 in if \<not> dy_user_verified dyn \<or> \<not> policy_accepts pol View be bs then Inl REJECTED
                    else (case re_transports reg of
                            None \<Rightarrow> Inl REJECTED
                          | Some transports \<Rightarrow>
                              (case re_static_state reg of
                                 None \<Rightarrow> Inl REJECTED
                               | Some static \<Rightarrow>
                                   Inr \<lparr>vr_device_id = encode X (re_user_id reg),
                                        vr_record = \<lparr>cr_id = encode X (re_id reg), cr_rp_id = rp_host rp,
                                          cr_public_key_state = encode X static, cr_state_format = STATE_FORMAT,
                                          cr_sign_count = dy_sign_count dyn, cr_backup_eligible = be,
                                          cr_backup_state = bs, cr_transports = transports\<rparr>\<rparr>)))))"

datatype assertion_failure = AssertionInvalid | AssertionPolicy | AssertionRollback

fun assertion_failure_from :: "auth_ceremony_err \<Rightarrow> assertion_failure" where
  "assertion_failure_from SignatureCounter = AssertionRollback"
| "assertion_failure_from OriginMismatch = AssertionPolicy"
| "assertion_failure_from CrossOrigin = AssertionPolicy"
| "assertion_failure_from TopOriginMismatch = AssertionPolicy"
| "assertion_failure_from RpIdHashMismatch = AssertionPolicy"
| "assertion_failure_from UserNotVerified = AssertionPolicy"
| "assertion_failure_from BackupEligible = AssertionPolicy"
| "assertion_failure_from BackupNotEligible = AssertionPolicy"
| "assertion_failure_from BackupDoesNotExist = AssertionPolicy"
| "assertion_failure_from (Extension ForbiddenHmacSecret) = AssertionPolicy"
| "assertion_failure_from (Extension HmacSecretForPrfIncapableCred) = AssertionPolicy"
| "assertion_failure_from _ = AssertionInvalid"

datatype assertion_state = LoginState server_state | ElevationState server_state

record verified_assertion =
  va_sign_count :: u32
  va_backup_state :: bool

definition stored_backup :: "credential \<Rightarrow> backup" where
  "stored_backup c = (if cr_backup_state c then Exists else if cr_backup_eligible c then Eligible else NotEligible)"

definition run_assertion ::
  "webauthn_lib \<Rightarrow> relying_party \<Rightarrow> assertion_state \<Rightarrow> json \<Rightarrow> auth_credential \<Rightarrow> auth_verification
     \<Rightarrow> assertion_failure + dynamic_state" where
  "run_assertion W rp server response cred options =
     (case server of
        LoginState s \<Rightarrow>
          if \<not> wl_login_parse W response then Inl AssertionInvalid
          else (case wl_verify_login W s (rp_host rp) response cred options of
                  Inl e \<Rightarrow> Inl (assertion_failure_from e) | Inr d \<Rightarrow> Inr d)
      | ElevationState s \<Rightarrow>
          if \<not> wl_elevation_parse W response then Inl AssertionInvalid
          else (case wl_verify_elevation W s (rp_host rp) response cred options of
                  Inl e \<Rightarrow> Inl (assertion_failure_from e) | Inr d \<Rightarrow> Inr d))"

definition verify_assertion ::
  "ext \<Rightarrow> webauthn_lib \<Rightarrow> relying_party \<Rightarrow> assertion_state \<Rightarrow> json \<Rightarrow> string \<Rightarrow> credential \<Rightarrow> passkey_binding \<Rightarrow> scope
     \<Rightarrow> assertion_failure + verified_assertion" where
  "verify_assertion X W rp server response did c pol scope =
     (if cr_rp_id c \<noteq> rp_host rp then Inl AssertionInvalid
      else (case (user_handle X W did, x_b64_decode X (cr_id c), key_state X (cr_public_key_state c)) of
              (Inr user, Some cid, Some _) \<Rightarrow>
                (let cred = \<lparr>ac_id = cid, ac_user = user, ac_key_state = cr_public_key_state c,
                       ac_dynamic_state = \<lparr>dy_user_verified = True, dy_backup = stored_backup c, dy_sign_count = cr_sign_count c\<rparr>\<rparr>;
                     options = \<lparr>av_allowed_origins = [rp_origin rp],
                       av_backup_requirement = (if requires_unbacked pol scope then Some BackupNotEligibleReq else None)\<rparr>
                 in if \<not> wl_credential_id W cid \<or> \<not> wl_credential_new W cred then Inl AssertionInvalid
                    else (case run_assertion W rp server response cred options of
                            Inl e \<Rightarrow> Inl e
                          | Inr dyn \<Rightarrow>
                              (let be = fst (flags (dy_backup dyn)); bs = snd (flags (dy_backup dyn))
                               in if \<not> dy_user_verified dyn \<or> \<not> policy_accepts pol scope be bs
                                    \<or> be \<noteq> cr_backup_eligible c
                                  then Inl AssertionPolicy
                                  else Inr \<lparr>va_sign_count = dy_sign_count dyn, va_backup_state = bs\<rparr>)))
            | _ \<Rightarrow> Inl AssertionInvalid))"

section \<open>Running ceremonies\<close>

datatype ceremony_kind =
    CRegistration (ck_pairing: registration) string server_state
  | CLogin server_state
  | CElevation (ck_session: bytes) scope server_state

record ceremony =
  cm_until :: timestamp
  cm_kind :: ceremony_kind

record ceremonies =
  ce_entries :: "(challenge, ceremony) hmap"
  ce_elevation_limit :: nat
  ce_login_order :: "challenge list"

definition LOGIN_LIMIT :: nat where "LOGIN_LIMIT = 48"
definition REGISTRATION_LIMIT :: nat where "REGISTRATION_LIMIT = 16"

definition ceremonies_new :: "nat \<Rightarrow> ceremonies" where
  "ceremonies_new max_devices =
     \<lparr>ce_entries = [], ce_elevation_limit = max_devices * 4, ce_login_order = []\<rparr>"

fun elevation_of :: "ceremony_kind \<Rightarrow> bytes option" where
  "elevation_of (CElevation s _ _) = Some s"
| "elevation_of _ = None"

fun registration_of :: "ceremony_kind \<Rightarrow> string option" where
  "registration_of (CRegistration p _ _) = Some (rg_pairing_id p)"
| "registration_of _ = None"

fun login_kind :: "ceremony_kind \<Rightarrow> bool" where
  "login_kind (CLogin _) = True"
| "login_kind _ = False"

fun ceremony_key :: "ceremony_kind \<Rightarrow> challenge" where
  "ceremony_key (CRegistration _ _ s) = ss_challenge s"
| "ceremony_key (CLogin s) = ss_challenge s"
| "ceremony_key (CElevation _ _ s) = ss_challenge s"

definition retain_sessions :: "bytes set \<Rightarrow> ceremonies \<Rightarrow> ceremonies" where
  "retain_sessions active ce =
     ce\<lparr>ce_entries := hm_retain (\<lambda>_ c. case elevation_of (cm_kind c) of None \<Rightarrow> True | Some s \<Rightarrow> s \<in> active)
                       (ce_entries ce)\<rparr>"

definition ceremonies_purge :: "timestamp \<Rightarrow> ceremonies \<Rightarrow> ceremonies" where
  "ceremonies_purge now ce =
     (let entries = hm_retain (\<lambda>_ c. now < cm_until c) (ce_entries ce)
      in ce\<lparr>ce_entries := entries,
             ce_login_order := filter (\<lambda>k. hm_get entries k \<noteq> None) (ce_login_order ce)\<rparr>)"

text \<open>The admission step of \<open>insert\<close>, by pool.\<close>

definition admit_login :: "ceremonies \<Rightarrow> ceremonies" where
  "admit_login ce =
     (if LOGIN_LIMIT \<le> length (ce_login_order ce)
      then ce\<lparr>ce_login_order := tl (ce_login_order ce),
              ce_entries := hm_remove (hd (ce_login_order ce)) (ce_entries ce)\<rparr>
      else ce)"

definition admit_elevation :: "bytes \<Rightarrow> ceremonies \<Rightarrow> (failure + unit) \<times> ceremonies" where
  "admit_elevation session ce =
     (let ce' = ce\<lparr>ce_entries := hm_retain (\<lambda>_ c. elevation_of (cm_kind c) \<noteq> Some session) (ce_entries ce)\<rparr>
      in if ce_elevation_limit ce' \<le> hm_count (\<lambda>c. elevation_of (cm_kind c) \<noteq> None) (ce_entries ce')
         then (Inl CHALLENGE_LIMIT, ce') else (Inr (), ce'))"

definition admit_registration :: "string \<Rightarrow> ceremonies \<Rightarrow> failure + unit" where
  "admit_registration pid ce =
     (if REGISTRATION_LIMIT \<le> hm_count (\<lambda>c. registration_of (cm_kind c) \<noteq> None) (ce_entries ce)
       \<or> 0 < hm_count (\<lambda>c. registration_of (cm_kind c) = Some pid) (ce_entries ce)
      then Inl CHALLENGE_LIMIT else Inr ())"

definition ceremonies_insert :: "ceremony \<Rightarrow> timestamp \<Rightarrow> ceremonies \<Rightarrow> (failure + unit) \<times> ceremonies" where
  "ceremonies_insert c now ce =
     (let ce = ceremonies_purge now ce;
          (r, ce) = (case cm_kind c of
                       CLogin _ \<Rightarrow> (Inr (), admit_login ce)
                     | CElevation session _ _ \<Rightarrow> admit_elevation session ce
                     | CRegistration pairing _ _ \<Rightarrow> (admit_registration (rg_pairing_id pairing) ce, ce));
          key = ceremony_key (cm_kind c)
      in case r of
           Inl f \<Rightarrow> (Inl f, ce)
         | Inr _ \<Rightarrow>
             (Inr (), ce\<lparr>ce_login_order := (if login_kind (cm_kind c) then ce_login_order ce @ [key] else ce_login_order ce),
                         ce_entries := hm_insert key c (ce_entries ce)\<rparr>))"

definition take_registration ::
  "webauthn_lib \<Rightarrow> string \<Rightarrow> json \<Rightarrow> timestamp \<Rightarrow> ceremonies \<Rightarrow> (failure + ceremony) \<times> ceremonies" where
  "take_registration W pid response now ce =
     (let ce = ceremonies_purge now ce
      in if \<not> wl_registration_parse W response then (Inl REJECTED, ce)
         else (case wl_registration_challenge W response of
                 None \<Rightarrow> (Inl REJECTED, ce)
               | Some key \<Rightarrow>
                   (case hm_get (ce_entries ce) key of
                      None \<Rightarrow> (Inl REJECTED, ce)
                    | Some c \<Rightarrow>
                        if registration_of (cm_kind c) = Some pid
                        then (Inr c, ce\<lparr>ce_entries := hm_remove key (ce_entries ce)\<rparr>)
                        else (Inl REJECTED, ce))))"

definition assertion_key :: "webauthn_lib \<Rightarrow> bool \<Rightarrow> json \<Rightarrow> challenge option" where
  "assertion_key W elevation response =
     (if elevation
      then (if wl_elevation_parse W response then wl_elevation_challenge W response else None)
      else (if wl_login_parse W response then wl_login_challenge W response else None))"

definition assertion_bound :: "ceremony_kind \<Rightarrow> (bytes \<times> scope) option \<Rightarrow> bool" where
  "assertion_bound kind session =
     (case (kind, session) of
        (CLogin _, None) \<Rightarrow> True
      | (CElevation s scope _, Some (sid, requested)) \<Rightarrow> s = sid \<and> scope = requested
      | _ \<Rightarrow> False)"

definition take_assertion ::
  "webauthn_lib \<Rightarrow> json \<Rightarrow> (bytes \<times> scope) option \<Rightarrow> timestamp \<Rightarrow> ceremonies \<Rightarrow> (failure + ceremony) \<times> ceremonies" where
  "take_assertion W response session now ce =
     (let ce = ceremonies_purge now ce
      in case assertion_key W (session \<noteq> None) response of
           None \<Rightarrow> (Inl REJECTED, ce)
         | Some key \<Rightarrow>
             (case hm_get (ce_entries ce) key of
                None \<Rightarrow> (Inl REJECTED, ce)
              | Some c \<Rightarrow>
                  if assertion_bound (cm_kind c) session
                  then (Inr c, ce\<lparr>ce_entries := hm_remove key (ce_entries ce)\<rparr>)
                  else (Inl REJECTED, ce)))"

section \<open>Request and response bodies\<close>

record registration_options = go_pairing_id :: string
  go_registration_ticket :: string

record registration_finish = gf_pairing_id :: string
  gf_credential :: json

record login_response =
  lr_binding :: string
  lr_device_id :: string
  lr_scopes :: "scope list"

end
