(* ===== verification/Session.thy ===== *)
theory Session
  imports Webauthn
begin

text \<open>
  \<open>companion/src/session.rs\<close>: the identity table. Devices, sessions, transport peers and deferred
  device notifications share one lock; every method is a function on the record \<open>identity\<close>, with
  the event queue where it emits. A peer's watch channel is the flag that it has been told to
  close. Each reading of the clock and each draw of entropy is an argument of its own.
\<close>

section \<open>Cookies\<close>

definition COOKIE_NAME :: string where "COOKIE_NAME = ''__Host-yzc''"
definition COOKIE_ATTRIBUTES :: string where "COOKIE_ATTRIBUTES = ''Secure; HttpOnly; SameSite=Strict; Path=/''"

definition clear_cookie :: string where
  "clear_cookie = COOKIE_NAME @ ''=; '' @ COOKIE_ATTRIBUTES @ ''; Max-Age=0''"

definition session_cookie :: "ext \<Rightarrow> bytes \<Rightarrow> string" where
  "session_cookie X sid = COOKIE_NAME @ ''='' @ encode X sid @ ''; '' @ COOKIE_ATTRIBUTES"

text \<open>Header names are lower case in a header map; values are byte strings.\<close>

type_synonym headers = "(string \<times> string) list"

definition get_all :: "headers \<Rightarrow> string \<Rightarrow> string list" where
  "get_all hs name = map snd (filter (\<lambda>h. fst h = name) hs)"

fun cookie_scan :: "ext \<Rightarrow> string list \<Rightarrow> bytes option \<Rightarrow> bytes option" where
  "cookie_scan X [] result = result"
| "cookie_scan X (raw # ps) result =
     (let pair = trim_by is_ascii_whitespace raw;
          name = takeWhile (\<lambda>b. b \<noteq> CHR ''='') pair
      in if name = COOKIE_NAME
         then (if result \<noteq> None then None
               else if CHR ''='' \<notin> set pair then None
               else (case from_utf8 (str_bytes (drop (length name + 1) pair)) of
                       None \<Rightarrow> None
                     | Some value \<Rightarrow>
                         (case decode X 32 value of None \<Rightarrow> None | Some sid \<Rightarrow> cookie_scan X ps (Some sid))))
         else cookie_scan X ps result)"

definition cookie_id :: "ext \<Rightarrow> headers \<Rightarrow> bytes option" where
  "cookie_id X hs = cookie_scan X (concat (map (split_on (CHR '';'')) (get_all hs ''cookie''))) None"

section \<open>Data\<close>

record auth_context =
  cx_session_id :: bytes
  cx_device_id :: string
  cx_rp_id :: string

record peer =
  pc_session :: bytes
  pc_device :: string
  pc_invalidated :: bool

record session =
  se_device_id :: string
  se_rp_id :: string
  se_created_at :: timestamp
  se_last_seen :: timestamp
  se_control_until :: "timestamp option"
  se_full_until :: "timestamp option"
  se_control_at :: "timestamp option"
  se_full_at :: "timestamp option"
  se_binding_hash :: bytes

record identity =
  id_devices :: "(string, device) hmap"
  id_notifications :: "(string, device option) hmap"
  id_sessions :: "(bytes, session) hmap"
  id_peers :: "(u64, peer) hmap"
  id_next_peer :: u64
  id_failures :: "(string, u8) hmap"
  id_dirty_devices :: "string list"
  id_policy :: policy

definition BAD_COMMAND :: failure where "BAD_COMMAND = (BAD_REQUEST, ''Invalid device command'')"
definition SESSION_LIMIT_REACHED :: failure where
  "SESSION_LIMIT_REACHED = (SERVICE_UNAVAILABLE, ''Session limit reached'')"

definition MAX_PEERS :: nat where "MAX_PEERS = 16"

definition identity_new :: "ext \<Rightarrow> device list \<Rightarrow> policy \<Rightarrow> string + identity" where
  "identity_new X devices pol =
     (if \<not> policy_valid pol \<or> po_max_devices pol < length devices \<or> \<not> list_all (device_valid X) devices
      then Inl ''invalid-policy''
      else (let table = fold (\<lambda>d m. hm_insert (dv_device_id d) d m) devices []
            in if length table \<noteq> length devices then Inl ''invalid-devices''
               else Inr \<lparr>id_devices = table, id_notifications = [], id_sessions = [], id_peers = [], id_next_peer = 0,
                         id_failures = [], id_dirty_devices = [], id_policy = pol\<rparr>))"

definition has_session_cookie :: "ext \<Rightarrow> headers \<Rightarrow> identity \<Rightarrow> bool" where
  "has_session_cookie X hs idt =
     (case cookie_id X hs of None \<Rightarrow> False | Some sid \<Rightarrow> hm_get (id_sessions idt) sid \<noteq> None)"

definition session_limit :: "identity \<Rightarrow> nat" where
  "session_limit idt = po_max_devices (id_policy idt) * 4"

section \<open>Peers\<close>

definition register_peer :: "auth_context \<Rightarrow> identity \<Rightarrow> u64 option \<times> identity" where
  "register_peer ctx idt =
     (if MAX_PEERS \<le> length (id_peers idt)
       \<or> 2 \<le> hm_count (\<lambda>p. pc_device p = cx_device_id ctx) (id_peers idt)
      then (None, idt)
      else (case checked_add (id_next_peer idt) 1 of
              None \<Rightarrow> (None, idt)
            | Some nxt \<Rightarrow>
                (Some (id_next_peer idt),
                 idt\<lparr>id_next_peer := nxt,
                     id_peers := hm_insert (id_next_peer idt)
                       \<lparr>pc_session = cx_session_id ctx, pc_device = cx_device_id ctx, pc_invalidated = False\<rparr>
                       (id_peers idt)\<rparr>)))"

definition unregister_peer :: "u64 \<Rightarrow> identity \<Rightarrow> identity" where
  "unregister_peer pid idt = idt\<lparr>id_peers := hm_remove pid (id_peers idt)\<rparr>"

definition peer_list :: "identity \<Rightarrow> peer_info list" where
  "peer_list idt =
     sort_key pe_peer_id (map (\<lambda>(pid, p). \<lparr>pe_peer_id = pid, pe_device_id = pc_device p\<rparr>) (id_peers idt))"

section \<open>Invalidation\<close>

definition invalidate_session :: "bytes \<Rightarrow> identity \<Rightarrow> identity" where
  "invalidate_session sid idt =
     idt\<lparr>id_sessions := hm_remove sid (id_sessions idt),
         id_peers := map (\<lambda>(pid, p). (pid, if pc_session p = sid then p\<lparr>pc_invalidated := True\<rparr> else p)) (id_peers idt)\<rparr>"

definition invalidate_device :: "string \<Rightarrow> identity \<Rightarrow> identity" where
  "invalidate_device did idt =
     fold invalidate_session (map fst (filter (\<lambda>e. se_device_id (snd e) = did) (id_sessions idt))) idt"

definition absolute_end :: "policy \<Rightarrow> session \<Rightarrow> timestamp" where
  "absolute_end pol s = after (se_created_at s) (from_secs (po_view_absolute_hours pol * 3600))"

definition active :: "identity \<Rightarrow> session \<Rightarrow> timestamp \<Rightarrow> bool" where
  "active idt s now \<longleftrightarrow>
     now < po_enable_until (id_policy idt)
     \<and> now < absolute_end (id_policy idt) s
     \<and> now < after (se_last_seen s) (from_secs (po_view_idle_min (id_policy idt) * 60))
     \<and> (case hm_get (id_devices idt) (se_device_id s) of
          None \<Rightarrow> False
        | Some d \<Rightarrow> \<not> dv_locked d \<and> list_ex (\<lambda>c. cr_rp_id c = se_rp_id s) (dv_credentials d))"

definition purge_expired :: "timestamp \<Rightarrow> identity \<Rightarrow> identity" where
  "purge_expired now idt =
     fold invalidate_session (map fst (filter (\<lambda>e. \<not> active idt (snd e) now) (id_sessions idt))) idt"

section \<open>Notifications\<close>

definition notification :: "string \<Rightarrow> device option \<Rightarrow> event" where
  "notification did d = (case d of Some dev \<Rightarrow> DeviceUpdated dev | None \<Rightarrow> DeviceRevoked did)"

definition notify_snapshot :: "string \<Rightarrow> identity \<Rightarrow> event_sender \<Rightarrow> identity \<times> event_sender" where
  "notify_snapshot did idt es =
     (let idt = idt\<lparr>id_dirty_devices := filter (\<lambda>x. x \<noteq> did) (id_dirty_devices idt)\<rparr>
      in case hm_get (id_devices idt) did of
           None \<Rightarrow> (idt, es)
         | Some d \<Rightarrow>
             (let idt = idt\<lparr>id_notifications := hm_insert did (Some d) (id_notifications idt)\<rparr>
              in case try_emit es (notification did (Some d)) of
                   (True, es) \<Rightarrow> (idt\<lparr>id_notifications := hm_remove did (id_notifications idt)\<rparr>, es)
                 | (False, es) \<Rightarrow> (idt, es)))"

fun notify_all :: "string list \<Rightarrow> identity \<Rightarrow> event_sender \<Rightarrow> identity \<times> event_sender" where
  "notify_all [] idt es = (idt, es)"
| "notify_all (did # dids) idt es = (case notify_snapshot did idt es of (idt, es) \<Rightarrow> notify_all dids idt es)"

text \<open>\<open>notifications.retain\<close>: an entry goes when its event is accepted.\<close>

fun flush_notifications ::
  "(string, device option) hmap \<Rightarrow> event_sender \<Rightarrow> (string, device option) hmap \<times> event_sender" where
  "flush_notifications [] es = ([], es)"
| "flush_notifications ((did, d) # m) es =
     (case try_emit es (notification did d) of (ok, es) \<Rightarrow>
        (case flush_notifications m es of (m', es) \<Rightarrow> (if ok then m' else (did, d) # m', es)))"

definition identity_maintenance :: "timestamp \<Rightarrow> identity \<Rightarrow> event_sender \<Rightarrow> identity \<times> event_sender" where
  "identity_maintenance now idt es =
     (let idt = purge_expired now idt; dirty = id_dirty_devices idt
      in case notify_all dirty (idt\<lparr>id_dirty_devices := []\<rparr>) es of
           (idt, es) \<Rightarrow> (case flush_notifications (id_notifications idt) es of
                           (m, es) \<Rightarrow> (idt\<lparr>id_notifications := m\<rparr>, es)))"

section \<open>Validation and elevation\<close>

definition granted :: "identity \<Rightarrow> device \<Rightarrow> scope \<Rightarrow> timestamp \<Rightarrow> bool" where
  "granted idt d scope now =
     (case scope of
        View \<Rightarrow> True
      | Control \<Rightarrow> (case gr_control (dv_grants d) of None \<Rightarrow> False | Some until \<Rightarrow> now < until)
      | Full \<Rightarrow> po_full_session_enabled (id_policy idt) \<and> gr_full (dv_grants d))"

definition scope_until :: "session \<Rightarrow> scope \<Rightarrow> timestamp option" where
  "scope_until s scope = (case scope of Control \<Rightarrow> se_control_until s | Full \<Rightarrow> se_full_until s | View \<Rightarrow> None)"

definition validate :: "bytes \<Rightarrow> string \<Rightarrow> scope \<Rightarrow> timestamp \<Rightarrow> identity \<Rightarrow> bool \<times> identity" where
  "validate sid rp scope now idt =
     (case hm_get (id_sessions idt) sid of
        None \<Rightarrow> (False, idt)
      | Some s \<Rightarrow>
          if \<not> active idt s now then (False, invalidate_session sid idt)
          else if se_rp_id s \<noteq> rp then (False, idt)
          else (case hm_get (id_devices idt) (se_device_id s) of
                  None \<Rightarrow> (False, idt)
                | Some d \<Rightarrow>
                    if \<not> granted idt d scope now
                       \<or> (scope \<noteq> View \<and> (case scope_until s scope of None \<Rightarrow> True | Some until \<Rightarrow> until \<le> now))
                    then (False, idt)
                    else (True, idt\<lparr>id_sessions := hm_insert sid (s\<lparr>se_last_seen := now\<rparr>) (id_sessions idt),
                                    id_devices := hm_insert (se_device_id s) (d\<lparr>dv_last_seen := now\<rparr>) (id_devices idt),
                                    id_dirty_devices := List.insert (se_device_id s) (id_dirty_devices idt)\<rparr>)))"

definition authenticate ::
  "ext \<Rightarrow> headers \<Rightarrow> string \<Rightarrow> timestamp \<Rightarrow> identity \<Rightarrow> auth_context option \<times> identity" where
  "authenticate X hs rp now idt =
     (case cookie_id X hs of
        None \<Rightarrow> (None, idt)
      | Some sid \<Rightarrow>
          (case get_all hs ''x-yzc-binding'' of
             [] \<Rightarrow> (None, idt)
           | value # others \<Rightarrow>
               if \<not> list_all (\<lambda>b. 32 \<le> code b \<and> code b < 127 \<or> code b = 9) value then (None, idt)
               else (case decode X 32 value of
                       None \<Rightarrow> (None, idt)
                     | Some token \<Rightarrow>
                         if others \<noteq> [] then (None, idt)
                         else (case hm_get (id_sessions idt) sid of
                                 None \<Rightarrow> (None, idt)
                               | Some s \<Rightarrow>
                                   if \<not> matches X (se_binding_hash s) token then (None, idt)
                                   else (case validate sid rp View now idt of
                                           (False, idt) \<Rightarrow> (None, idt)
                                         | (True, idt) \<Rightarrow>
                                             (case hm_get (id_sessions idt) sid of
                                                None \<Rightarrow> (None, idt)
                                              | Some s \<Rightarrow>
                                                  (Some \<lparr>cx_session_id = sid, cx_device_id = se_device_id s,
                                                         cx_rp_id = rp\<rparr>, idt)))))))"

definition revalidate :: "auth_context \<Rightarrow> scope \<Rightarrow> timestamp \<Rightarrow> identity \<Rightarrow> bool \<times> identity" where
  "revalidate ctx scope now idt =
     (case hm_get (id_sessions idt) (cx_session_id ctx) of
        None \<Rightarrow> (False, idt)
      | Some s \<Rightarrow>
          if se_device_id s \<noteq> cx_device_id ctx then (False, idt)
          else validate (cx_session_id ctx) (cx_rp_id ctx) scope now idt)"

definition elevation_cap :: "identity \<Rightarrow> device \<Rightarrow> scope \<Rightarrow> timestamp \<Rightarrow> timestamp option" where
  "elevation_cap idt d scope now =
     (case scope of
        View \<Rightarrow> None
      | Control \<Rightarrow> gr_control (dv_grants d)
      | Full \<Rightarrow> if po_full_session_enabled (id_policy idt) \<and> gr_full (dv_grants d)
                then Some (after now (from_secs 900)) else None)"

definition elevation_until :: "identity \<Rightarrow> session \<Rightarrow> timestamp \<Rightarrow> timestamp \<Rightarrow> timestamp" where
  "elevation_until idt s cap now =
     min (min (min (after now (from_secs (po_elevation_max_min (id_policy idt) * 60))) cap)
            (po_enable_until (id_policy idt)))
         (absolute_end (id_policy idt) s)"

definition set_elevation :: "scope \<Rightarrow> timestamp \<Rightarrow> timestamp \<Rightarrow> session \<Rightarrow> session" where
  "set_elevation scope until now s =
     (case scope of
        Control \<Rightarrow> s\<lparr>se_control_until := Some until, se_control_at := Some now\<rparr>
      | Full \<Rightarrow> s\<lparr>se_full_until := Some until, se_full_at := Some now\<rparr>
      | View \<Rightarrow> s)"

definition elevate ::
  "auth_context \<Rightarrow> scope \<Rightarrow> timestamp \<Rightarrow> timestamp \<Rightarrow> identity \<Rightarrow> timestamp option \<times> identity" where
  "elevate ctx scope now0 now idt =
     (case revalidate ctx View now0 idt of
        (False, idt) \<Rightarrow> (None, idt)
      | (True, idt) \<Rightarrow>
          (case hm_get (id_sessions idt) (cx_session_id ctx) of
             None \<Rightarrow> (None, idt)
           | Some s \<Rightarrow>
               if se_rp_id s \<noteq> cx_rp_id ctx \<or> \<not> active idt s now then (None, idt)
               else (case hm_get (id_devices idt) (se_device_id s) of
                       None \<Rightarrow> (None, idt)
                     | Some d \<Rightarrow>
                         (case elevation_cap idt d scope now of
                            None \<Rightarrow> (None, idt)
                          | Some cap \<Rightarrow>
                              (let until = elevation_until idt s cap now
                               in if until \<le> now then (None, idt)
                                  else (Some until,
                                        idt\<lparr>id_sessions := hm_insert (cx_session_id ctx) (set_elevation scope until now s)
                                                             (id_sessions idt)\<rparr>))))))"

definition scope_at :: "session \<Rightarrow> scope \<Rightarrow> timestamp option" where
  "scope_at s scope = (case scope of Control \<Rightarrow> se_control_at s | Full \<Rightarrow> se_full_at s | View \<Rightarrow> None)"

definition write_deadline :: "auth_context \<Rightarrow> scope \<Rightarrow> bool \<Rightarrow> timestamp \<Rightarrow> identity \<Rightarrow> timestamp option" where
  "write_deadline ctx scope fresh now idt =
     (case hm_get (id_sessions idt) (cx_session_id ctx) of
        None \<Rightarrow> None
      | Some s \<Rightarrow>
          (case (scope_at s scope, scope_until s scope) of
             (Some at, Some until) \<Rightarrow> if fresh \<and> after at (from_secs 120) < now then None else Some until
           | _ \<Rightarrow> None))"

definition freshness_deadline :: "auth_context \<Rightarrow> scope \<Rightarrow> identity \<Rightarrow> timestamp option" where
  "freshness_deadline ctx scope idt =
     (case hm_get (id_sessions idt) (cx_session_id ctx) of
        None \<Rightarrow> None
      | Some s \<Rightarrow> map_option (\<lambda>at. after at (from_secs 120)) (scope_at s scope))"

definition session_logout :: "bytes \<Rightarrow> identity \<Rightarrow> identity" where
  "session_logout sid idt = invalidate_session sid idt"

section \<open>Commands of the desktop\<close>

text \<open>\<open>Option<Timestamp>\<close> compares with \<open>None\<close> below every \<open>Some\<close>.\<close>

fun grant_less :: "timestamp option \<Rightarrow> timestamp option \<Rightarrow> bool" where
  "grant_less None (Some _) = True"
| "grant_less (Some a) (Some b) = (a < b)"
| "grant_less _ None = False"

definition tightening :: "grants \<Rightarrow> grants \<Rightarrow> bool" where
  "tightening old new \<longleftrightarrow> grant_less (gr_control new) (gr_control old) \<or> (\<not> gr_full new \<and> gr_full old)"

definition widening :: "grants \<Rightarrow> grants \<Rightarrow> bool" where
  "widening old new \<longleftrightarrow> grant_less (gr_control old) (gr_control new) \<or> (gr_full new \<and> \<not> gr_full old)"

text \<open>What a command makes of the device: the failure, or the command's name, whether it widens, and the snapshot.\<close>

definition device_change :: "device_command \<Rightarrow> device \<Rightarrow> failure + (string \<times> bool \<times> device option)" where
  "device_change command d =
     (case command of
        DeviceUpdate _ label grants \<Rightarrow>
          if label = None \<and> grants = None then Inl BAD_COMMAND
          else if (case label of None \<Rightarrow> False | Some l \<Rightarrow> \<not> valid_label l) then Inl BAD_COMMAND
          else (let d1 = (case label of None \<Rightarrow> d | Some l \<Rightarrow> d\<lparr>dv_label := l\<rparr>)
                in case grants of
                     None \<Rightarrow> Inr (''device.update'', False, Some d1)
                   | Some g \<Rightarrow>
                       if tightening (dv_grants d1) g \<and> widening (dv_grants d1) g then Inl BAD_COMMAND
                       else Inr (''device.update'', widening (dv_grants d1) g, Some (d1\<lparr>dv_grants := g\<rparr>)))
      | DeviceUnlock _ \<Rightarrow> Inr (''device.unlock'', True, Some (d\<lparr>dv_locked := False\<rparr>))
      | DeviceRevoke _ \<Rightarrow> Inr (''device.revoke'', False, None))"

definition command_device :: "device_command \<Rightarrow> string" where
  "command_device command =
     (case command of DeviceUpdate did _ _ \<Rightarrow> did | DeviceRevoke did \<Rightarrow> did | DeviceUnlock did \<Rightarrow> did)"

definition clears_failures :: "device_command \<Rightarrow> bool" where
  "clears_failures command = (case command of DeviceUpdate _ _ _ \<Rightarrow> False | _ \<Rightarrow> True)"

definition put_device :: "string \<Rightarrow> device option \<Rightarrow> (string, device) hmap \<Rightarrow> (string, device) hmap" where
  "put_device did snapshot m = (case snapshot of Some d \<Rightarrow> hm_insert did d m | None \<Rightarrow> hm_remove did m)"

text \<open>The part after the queue has accepted a widening event.\<close>

definition commit_change :: "device_command \<Rightarrow> string \<Rightarrow> device option \<Rightarrow> identity \<Rightarrow> identity" where
  "commit_change command did snapshot idt =
     invalidate_device did
       (idt\<lparr>id_dirty_devices := filter (\<lambda>x. x \<noteq> did) (id_dirty_devices idt),
            id_failures := (if clears_failures command then hm_remove did (id_failures idt) else id_failures idt),
            id_devices := put_device did snapshot (id_devices idt)\<rparr>)"

definition device_command_run ::
  "ext \<Rightarrow> device_command \<Rightarrow> identity \<Rightarrow> event_sender \<Rightarrow> (failure + admin_result) \<times> identity \<times> event_sender" where
  "device_command_run X command idt es =
     (let did = command_device command
      in if decode X 16 did = None then (Inl BAD_COMMAND, idt, es)
         else (case hm_get (id_devices idt) did of
                 None \<Rightarrow> (Inl BAD_COMMAND, idt, es)
               | Some d \<Rightarrow>
                   (case device_change command d of
                      Inl f \<Rightarrow> (Inl f, idt, es)
                    | Inr (name, widens, snapshot) \<Rightarrow>
                        if widens
                        then (if hm_get (id_notifications idt) did \<noteq> None then (Inl QUEUE_UNAVAILABLE, idt, es)
                              else (case try_emit_event es (notification did snapshot) of
                                      (Inl f, es) \<Rightarrow> (Inl f, idt, es)
                                    | (Inr _, es) \<Rightarrow> (Inr Applied, commit_change command did snapshot idt, es)))
                        else (let idt = commit_change command did snapshot idt;
                                  idt = idt\<lparr>id_notifications := hm_insert did snapshot (id_notifications idt)\<rparr>
                              in case try_emit es (notification did snapshot) of
                                   (True, es) \<Rightarrow>
                                     (Inr Applied, idt\<lparr>id_notifications := hm_remove did (id_notifications idt)\<rparr>, es)
                                 | (False, es) \<Rightarrow> (Inr (NotificationDeferred name did), idt, es)))))"

section \<open>Registration\<close>

definition registration_target :: "string \<Rightarrow> identity \<Rightarrow> failure + device" where
  "registration_target did idt =
     (case hm_get (id_devices idt) did of
        None \<Rightarrow> Inl REJECTED
      | Some d \<Rightarrow> if \<not> dv_locked d \<and> length (dv_credentials d) < 8 then Inr d else Inl REJECTED)"

definition new_device :: "string \<Rightarrow> string \<Rightarrow> timestamp \<Rightarrow> device" where
  "new_device did label now =
     \<lparr>dv_device_id = did, dv_label = label, dv_credentials = [], dv_grants = \<lparr>gr_control = None, gr_full = False\<rparr>,
      dv_locked = False, dv_created_at = now, dv_last_seen = now\<rparr>"

definition registration_base :: "registration \<Rightarrow> string \<Rightarrow> timestamp \<Rightarrow> identity \<Rightarrow> failure + device" where
  "registration_base pairing did now idt =
     (case rg_add_to_device pairing of
        Some target \<Rightarrow>
          if target \<noteq> did then Inl REJECTED
          else if hm_get (id_notifications idt) target \<noteq> None then Inl QUEUE_UNAVAILABLE
          else registration_target target idt
      | None \<Rightarrow>
          if id_notifications idt \<noteq> [] then Inl QUEUE_UNAVAILABLE
          else if po_max_devices (id_policy idt) \<le> length (id_devices idt) \<or> hm_get (id_devices idt) did \<noteq> None
          then Inl REJECTED
          else Inr (new_device did (rg_device_label pairing) now))"

definition register_verified ::
  "ext \<Rightarrow> registration \<Rightarrow> verified_registration \<Rightarrow> timestamp \<Rightarrow> timestamp \<Rightarrow> timestamp \<Rightarrow> identity \<Rightarrow> event_sender
     \<Rightarrow> (failure + string) \<times> identity \<times> event_sender" where
  "register_verified X pairing verified now1 now2 now3 idt es =
     (let did = vr_device_id verified; c = vr_record verified
      in if po_enable_until (id_policy idt) \<le> now1 \<or> rg_deadline pairing \<le> now2 then (Inl REJECTED, idt, es)
         else if list_ex (\<lambda>d. list_ex (\<lambda>k. cr_id k = cr_id c \<and> cr_rp_id k = cr_rp_id c) (dv_credentials d)) (map snd (id_devices idt))
         then (Inl REJECTED, idt, es)
         else (case registration_base pairing did now3 idt of
                 Inl f \<Rightarrow> (Inl f, idt, es)
               | Inr d \<Rightarrow>
                   (let d = d\<lparr>dv_credentials := dv_credentials d @ [c]\<rparr>
                    in if \<not> device_valid X d then (Inl REJECTED, idt, es)
                       else (case try_emit_event es
                                    (if rg_add_to_device pairing \<noteq> None then DeviceUpdated d else DeviceRegistered d) of
                               (Inl f, es) \<Rightarrow> (Inl f, idt, es)
                             | (Inr _, es) \<Rightarrow>
                                 (Inr did, invalidate_device did (idt\<lparr>id_devices := hm_insert did d (id_devices idt)\<rparr>), es)))))"

section \<open>Assertions\<close>

definition json_index :: "json \<Rightarrow> string \<Rightarrow> json" where
  "json_index v k = (case json_get v k of None \<Rightarrow> JNull | Some w \<Rightarrow> w)"

definition raw_id :: "json \<Rightarrow> string option" where
  "raw_id response = Option.bind (json_get response ''rawId'') json_as_str"

definition owns :: "string \<Rightarrow> string \<Rightarrow> device \<Rightarrow> bool" where
  "owns cid rp d = list_ex (\<lambda>c. cr_id c = cid \<and> cr_rp_id c = rp) (dv_credentials d)"

definition assertion_owner :: "json \<Rightarrow> string \<Rightarrow> identity \<Rightarrow> string option" where
  "assertion_owner response rp idt =
     (case raw_id response of None \<Rightarrow> None
      | Some cid \<Rightarrow> map_option dv_device_id (List.find (owns cid rp) (map snd (id_devices idt))))"

definition assertion_failed :: "string \<Rightarrow> bool \<Rightarrow> identity \<Rightarrow> event_sender \<Rightarrow> identity \<times> event_sender" where
  "assertion_failed did rollback idt es =
     (case hm_get (id_devices idt) did of
        None \<Rightarrow> (idt, es)
      | Some d \<Rightarrow>
          if dv_locked d then (idt, es)
          else (let count = saturating_add (case hm_get (id_failures idt) did of None \<Rightarrow> 0 | Some n \<Rightarrow> n) 1;
                    idt = idt\<lparr>id_failures := hm_insert did count (id_failures idt)\<rparr>
                in if rollback \<or> 5 \<le> count
                   then notify_snapshot did
                          (invalidate_device did (idt\<lparr>id_devices := hm_insert did (d\<lparr>dv_locked := True\<rparr>) (id_devices idt)\<rparr>)) es
                   else (idt, es)))"

fun update_first :: "('a \<Rightarrow> bool) \<Rightarrow> ('a \<Rightarrow> 'a) \<Rightarrow> 'a list \<Rightarrow> 'a list" where
  "update_first P f [] = []"
| "update_first P f (x # xs) = (if P x then f x # xs else x # update_first P f xs)"

text \<open>Both lookups are expected to succeed under the lock; the model leaves the table as it is otherwise.\<close>

definition assertion_verified ::
  "string \<Rightarrow> string \<Rightarrow> string \<Rightarrow> verified_assertion \<Rightarrow> timestamp \<Rightarrow> identity \<Rightarrow> event_sender \<Rightarrow> identity \<times> event_sender" where
  "assertion_verified did cid rp verified now idt es =
     (case hm_get (id_devices idt) did of
        None \<Rightarrow> (idt, es)
      | Some d \<Rightarrow>
          (let d = d\<lparr>dv_credentials := update_first (\<lambda>c. cr_id c = cid \<and> cr_rp_id c = rp)
                        (\<lambda>c. c\<lparr>cr_sign_count := va_sign_count verified, cr_backup_state := va_backup_state verified\<rparr>)
                        (dv_credentials d), dv_last_seen := now\<rparr>
           in notify_snapshot did
                (idt\<lparr>id_devices := hm_insert did d (id_devices idt), id_failures := hm_remove did (id_failures idt)\<rparr>) es))"

datatype assertion_result = LoggedIn bytes string string | Elevated timestamp

definition new_session :: "ext \<Rightarrow> string \<Rightarrow> string \<Rightarrow> bytes \<Rightarrow> timestamp \<Rightarrow> session" where
  "new_session X did rp binding now =
     \<lparr>se_device_id = did, se_rp_id = rp, se_created_at = now, se_last_seen = now, se_control_until = None,
      se_full_until = None, se_control_at = None, se_full_at = None, se_binding_hash = hash X binding\<rparr>"

definition evict_session :: "string \<Rightarrow> identity \<Rightarrow> identity" where
  "evict_session did idt =
     (if 4 \<le> hm_count (\<lambda>s. se_device_id s = did) (id_sessions idt)
      then (case min_by_key (\<lambda>e. se_created_at (snd e)) (filter (\<lambda>e. se_device_id (snd e) = did) (id_sessions idt)) of
              None \<Rightarrow> idt
            | Some e \<Rightarrow> invalidate_session (fst e) idt)
      else idt)"

definition issue_session ::
  "ext \<Rightarrow> string \<Rightarrow> string \<Rightarrow> timestamp \<Rightarrow> timestamp \<Rightarrow> timestamp \<Rightarrow> bytes option \<Rightarrow> bytes option \<Rightarrow> identity
     \<Rightarrow> (failure + bytes \<times> string) \<times> identity" where
  "issue_session X did rp now1 now2 now3 rbinding rid idt =
     (let idt = purge_expired now1 idt
      in if po_enable_until (id_policy idt) \<le> now2 then (Inl REJECTED, idt)
         else (case (rbinding, rid) of
                 (Some binding, Some sid) \<Rightarrow>
                   (let idt = evict_session did idt
                    in if session_limit idt \<le> length (id_sessions idt) then (Inl SESSION_LIMIT_REACHED, idt)
                       else (Inr (sid, encode X binding),
                             idt\<lparr>id_sessions := hm_insert sid (new_session X did rp binding now3) (id_sessions idt)\<rparr>))
               | _ \<Rightarrow> (Inl UNAVAILABLE, idt)))"

text \<open>Whose assertion it is: the context's device, or the owner of the credential the response names.\<close>

definition assertion_device :: "relying_party \<Rightarrow> json \<Rightarrow> auth_context option \<Rightarrow> identity \<Rightarrow> failure + string" where
  "assertion_device rp response ctx idt =
     (case ctx of
        Some c \<Rightarrow> Inr (cx_device_id c)
      | None \<Rightarrow>
          (case assertion_owner response (rp_host rp) idt of
             None \<Rightarrow> Inl REJECTED
           | Some owner \<Rightarrow>
               if json_as_str (json_index (json_index response ''response'') ''userHandle'') \<noteq> Some owner
               then Inl REJECTED else Inr owner))"

definition assertion_check ::
  "ext \<Rightarrow> webauthn_lib \<Rightarrow> relying_party \<Rightarrow> assertion_state \<Rightarrow> json \<Rightarrow> string \<Rightarrow> scope \<Rightarrow> identity
     \<Rightarrow> assertion_failure + verified_assertion" where
  "assertion_check X W rp state response did scope idt =
     (case hm_get (id_devices idt) did of
        None \<Rightarrow> Inl AssertionInvalid
      | Some d \<Rightarrow>
          if dv_locked d then Inl AssertionInvalid
          else (case List.find (\<lambda>c. cr_rp_id c = rp_host rp \<and> Some (cr_id c) = raw_id response) (dv_credentials d) of
                  None \<Rightarrow> Inl AssertionInvalid
                | Some c \<Rightarrow>
                    verify_assertion X W rp state response did c (po_passkey_binding (id_policy idt)) scope))"

definition finish_assertion ::
  "ext \<Rightarrow> webauthn_lib \<Rightarrow> relying_party \<Rightarrow> assertion_state \<Rightarrow> json \<Rightarrow> (auth_context \<times> scope) option
     \<Rightarrow> timestamp \<Rightarrow> timestamp \<Rightarrow> timestamp \<Rightarrow> timestamp \<Rightarrow> bytes option \<Rightarrow> bytes option \<Rightarrow> identity \<Rightarrow> event_sender
     \<Rightarrow> (failure + assertion_result) \<times> identity \<times> event_sender" where
  "finish_assertion X W rp state response ctx now0 now1 now2 now3 rbinding rid idt es =
     (case assertion_device rp response (map_option fst ctx) idt of
        Inl f \<Rightarrow> (Inl f, idt, es)
      | Inr did \<Rightarrow>
          (case assertion_check X W rp state response did (case ctx of None \<Rightarrow> View | Some (_, scope) \<Rightarrow> scope) idt of
             Inl e \<Rightarrow>
               (case (if e = AssertionInvalid then (idt, es) else assertion_failed did (e = AssertionRollback) idt es) of
                  (idt, es) \<Rightarrow> (Inl REJECTED, idt, es))
           | Inr verified \<Rightarrow>
               (case json_as_str (json_index response ''rawId'') of
                  None \<Rightarrow> (Inl REJECTED, idt, es)
                | Some cid \<Rightarrow>
                    (case assertion_verified did cid (rp_host rp) verified now0 idt es of
                       (idt, es) \<Rightarrow>
                         (case ctx of
                            Some (c, scope) \<Rightarrow>
                              (case elevate c scope now1 now2 idt of
                                 (None, idt) \<Rightarrow> (Inl SCOPE_NOT_GRANTED, idt, es)
                               | (Some until, idt) \<Rightarrow> (Inr (Elevated until), idt, es))
                          | None \<Rightarrow>
                              (case issue_session X did (rp_host rp) now1 now2 now3 rbinding rid idt of
                                 (Inl f, idt) \<Rightarrow> (Inl f, idt, es)
                               | (Inr (sid, binding), idt) \<Rightarrow> (Inr (LoggedIn sid binding did), idt, es)))))))"

definition active_session_ids :: "timestamp \<Rightarrow> identity \<Rightarrow> bytes set \<times> identity" where
  "active_session_ids now idt =
     (let idt = purge_expired now idt in (set (map fst (id_sessions idt)), idt))"

definition can_elevate :: "auth_context \<Rightarrow> scope \<Rightarrow> timestamp \<Rightarrow> identity \<Rightarrow> bool" where
  "can_elevate ctx scope now idt =
     (case hm_get (id_devices idt) (cx_device_id ctx) of
        None \<Rightarrow> False
      | Some d \<Rightarrow> \<not> dv_locked d \<and> (if scope = View then False else granted idt d scope now))"

end
