(* ===== verification/Pairing_Props.thy ===== *)
theory Pairing_Props
  imports Pairing
begin

text \<open>
  Correctness of the pairing table of \<open>Pairing\<close>: the contract of each critical section, the
  invariant of every reachable table, and the properties of claims, tickets and registrations.
\<close>

section \<open>The contract of one entry\<close>

lemma live_iff: "live p \<longleftrightarrow> pr_state p \<noteq> Rejected \<and> pr_state p \<noteq> Expired \<and> pr_state p \<noteq> Registered"
  by (cases "pr_state p") (auto simp: live_def)

lemma transition_sel [simp]:
  "pr_state (transition s p) = s"
  "pr_secret_hash (transition s p) = pr_secret_hash p"
  "pr_add_to_device (transition s p) = pr_add_to_device p"
  "pr_claim_hash (transition s p) = pr_claim_hash p"
  "pr_label (transition s p) = pr_label p"
  "pr_failures (transition s p) = pr_failures p"
  "pr_until (transition s p) = pr_until p"
  "pr_polls (transition s p) = pr_polls p"
  "pr_notification (transition s p) = pr_notification p"
  "pr_secret (transition s p) = (if s \<noteq> Pending then None else pr_secret p)"
  "pr_ticket (transition s p) = (if s \<noteq> Approved then None else pr_ticket p)"
  "pr_registration (transition s p) = (if s \<noteq> Registering then None else pr_registration p)"
  by (simp_all add: transition_def)

lemma entry_step_refl [simp, intro]: "entry_step pid p es p es"
  by (simp add: entry_step_def)

lemma entry_step_trans:
  assumes "entry_step pid p es p1 es1" and "entry_step pid p1 es1 p2 es2"
  shows "entry_step pid p es p2 es2"
proof -
  note u = assms [unfolded entry_step_def]
  have pre: "prefix (es_log es) (es_log es2)" using u prefix_order.trans by blast
  have sub: "e \<in> set (es_log es2)" if "e \<in> set (es_log es1)" for e
    using u that set_mono_prefix by blast
  have dead: "\<not> live p \<longrightarrow> pr_state p2 = pr_state p" using u by (auto simp: live_def)
  have claimed: "(pr_claim_hash p2 = pr_claim_hash p \<and> pr_label p2 = pr_label p)
      \<or> (\<exists>label sas login ua. PairingClaimed pid label sas login ua \<in> set (es_log es2) \<and> pr_label p2 = Some label)"
    if "pr_claim_hash p2 \<noteq> None"
    using u sub that by (metis (no_types, lifting))
  have approved: "approvedish p \<or> (\<exists>reason. PairingState pid ''approved'' reason \<in> set (es_log es2))"
    if "approvedish p2"
    using u sub that by metis
  show ?thesis unfolding entry_step_def using u pre dead claimed approved by simp
qed

lemma pairing_ok_dead:
  "pairing_ok p \<Longrightarrow> s = Rejected \<or> s = Expired \<Longrightarrow> pairing_ok ((transition s p)\<lparr>pr_notification := n\<rparr>)"
  unfolding pairing_ok_def approvedish_def live_def by (elim disjE) simp_all

lemma entry_step_dead:
  "live p \<Longrightarrow> s = Rejected \<or> s = Expired \<Longrightarrow> entry_step pid p es ((transition s p)\<lparr>pr_notification := n\<rparr>) es"
  unfolding entry_step_def using pairing_ok_dead by (auto simp: approvedish_def)

lemma entry_step_expire: "entry_step pid p es (expire now p) es"
  by (simp add: expire_def entry_step_dead)

lemma entry_step_notify:
  assumes "notify pid p es = (r, p', es')"
  shows "entry_step pid p es p' es' \<and> pr_state p' = pr_state p \<and> pr_claim_hash p' = pr_claim_hash p
    \<and> pr_failures p' = pr_failures p \<and> pr_polls p' = pr_polls p"
proof (cases "p' = p")
  case True
  then show ?thesis
    using assms by (auto simp: notify_def entry_step_def Let_def split: option.splits prod.splits sum.splits
        dest: try_emit_event_prefix)
next
  case False
  then have p': "p' = p\<lparr>pr_notification := None\<rparr>" and "prefix (es_log es) (es_log es')"
    using assms by (auto simp: notify_def Let_def split: option.splits prod.splits sum.splits
        dest: try_emit_event_prefix)
  moreover have "pairing_ok p \<Longrightarrow> pairing_ok p'"
    unfolding p' pairing_ok_def approvedish_def live_def by (cases "pr_state p") auto
  ultimately show ?thesis by (simp add: entry_step_def approvedish_def)
qed

lemma entry_step_fail:
  assumes "fail pid second p es = (f, p', es')" and "live p"
  shows "entry_step pid p es p' es'"
proof -
  define p1 where "p1 = p\<lparr>pr_failures := saturating_add (pr_failures p) 1\<rparr>"
  have live1: "live p1" using assms(2) by (simp add: p1_def live_def)
  show ?thesis
  proof (cases "5 \<le> pr_failures p1 \<or> second")
    case True
    define p2 where "p2 = (transition Rejected p1)
      \<lparr>pr_notification := Some (if second then ''second-claim'' else ''attempt-limit'')\<rparr>"
    obtain r p3 es3 where n: "notify pid p2 es = (r, p3, es3)" by (cases "notify pid p2 es")
    with True assms(1) have "p' = p3" and "es' = es3"
      by (auto simp: fail_def p1_def p2_def Let_def split: sum.splits)
    moreover have "p2 = (transition Rejected p)\<lparr>pr_failures := pr_failures p1,
        pr_notification := Some (if second then ''second-claim'' else ''attempt-limit'')\<rparr>"
      by (simp add: p2_def p1_def transition_def)
    then have "entry_step pid p es p2 es"
      using pairing_ok_dead [of p Rejected] assms(2)
      by (simp add: entry_step_def approvedish_def pairing_ok_def live_def)
    ultimately show ?thesis using entry_step_notify [OF n] entry_step_trans by blast
  next
    case False
    then have eq: "p' = p1" "es' = es" using assms(1) by (simp_all add: fail_def p1_def Let_def)
    have "unat (pr_failures p1) < 5" using False by (simp add: word_le_nat_alt)
    then have "pairing_ok p \<Longrightarrow> pairing_ok p1"
      unfolding p1_def pairing_ok_def approvedish_def live_def by (cases "pr_state p") auto
    then show ?thesis unfolding eq using assms(2) by (simp add: entry_step_def p1_def approvedish_def)
  qed
qed

lemma polls_expire [simp]: "pr_polls (expire now p) = pr_polls p"
  by (simp add: expire_def)

lemma polls_fail: "fail pid second p es = (f, p', es') \<Longrightarrow> pr_polls p' = pr_polls p"
  by (auto simp: fail_def Let_def split: if_splits prod.splits sum.splits dest!: entry_step_notify)

lemma entry_step_frame: "prefix (es_log es) (es_log es') \<Longrightarrow> entry_step pid p es p es'"
  by (simp add: entry_step_def)

lemma entry_step_emit:
  "try_emit_event es e = (r, es') \<Longrightarrow> entry_step pid p es p es'"
  by (rule entry_step_frame) (rule try_emit_event_prefix)

text \<open>The contract together with the frame condition that the poll permits are untouched.\<close>

definition op_step :: "string \<Rightarrow> pairing \<Rightarrow> event_sender \<Rightarrow> pairing \<Rightarrow> event_sender \<Rightarrow> bool" where
  "op_step pid p es p' es' \<longleftrightarrow> entry_step pid p es p' es' \<and> pr_polls p' = pr_polls p"

lemma op_refl [simp, intro]: "op_step pid p es p es"
  by (simp add: op_step_def)

lemma op_trans: "op_step pid p es p1 es1 \<Longrightarrow> op_step pid p1 es1 p2 es2 \<Longrightarrow> op_step pid p es p2 es2"
  unfolding op_step_def using entry_step_trans by metis

lemma op_dead:
  "live p \<Longrightarrow> s = Rejected \<or> s = Expired \<Longrightarrow> op_step pid p es ((transition s p)\<lparr>pr_notification := n\<rparr>) es"
  using entry_step_dead by (simp add: op_step_def)

lemma op_expire: "op_step pid p es (expire now p) es"
  by (simp add: op_step_def entry_step_expire)

lemma op_notify: "notify pid p es = (r, p', es') \<Longrightarrow> op_step pid p es p' es'"
  using entry_step_notify by (simp add: op_step_def)

lemma op_fail: "fail pid second p es = (f, p', es') \<Longrightarrow> live p \<Longrightarrow> op_step pid p es p' es'"
  using entry_step_fail polls_fail by (simp add: op_step_def)

lemma op_emit: "try_emit_event es e = (r, es') \<Longrightarrow> op_step pid p es p es'"
  by (simp add: op_step_def entry_step_emit)

lemma op_expire_notify: "notify pid (expire now p) es = (r, p1, es1) \<Longrightarrow> op_step pid p es p1 es1"
  using op_trans [OF op_expire op_notify] .

section \<open>The critical sections keep the contract\<close>

locale entry_op =
  fixes pid :: string
    and f :: "pairing \<Rightarrow> event_sender \<Rightarrow> (failure + 'r) \<times> pairing \<times> event_sender"
  assumes step: "f p es = (r, p', es') \<Longrightarrow> op_step pid p es p' es'"
begin

lemma with_entry_cases:
  assumes "with_entry ps pid f es = (r, ps', es')"
  obtains (none) "hm_get (ps_entries ps) pid = None" "ps' = ps" "es' = es" "r = Inl INVALID"
    | (some) p p' where "hm_get (ps_entries ps) pid = Some p" "f p es = (r, p', es')"
        "ps' = ps\<lparr>ps_entries := hm_insert pid p' (ps_entries ps)\<rparr>" "op_step pid p es p' es'"
proof (cases "hm_get (ps_entries ps) pid")
  case None
  with assms show ?thesis by (intro none) (auto simp: with_entry_def hm_with_def)
next
  case (Some p)
  obtain r1 p1 es1 where f: "f p es = (r1, p1, es1)" by (cases "f p es")
  with assms Some have "r = r1" "es' = es1" "ps' = ps\<lparr>ps_entries := hm_insert pid p1 (ps_entries ps)\<rparr>"
    by (auto simp: with_entry_def hm_with_def)
  then show ?thesis using some [OF Some] f step [OF f] by simp
qed

end

lemma claim_commit_step:
  assumes "live p" and "pr_claim_hash p = None"
    and "try_emit_event es (PairingClaimed pid label sas login ua) = (Inr (), es')"
  shows "op_step pid p es (p\<lparr>pr_claim_hash := Some h, pr_label := Some label, pr_secret := None\<rparr>) es'"
proof -
  have "pairing_ok p \<Longrightarrow> pairing_ok (p\<lparr>pr_claim_hash := Some h, pr_label := Some label, pr_secret := None\<rparr>)"
    using assms(1,2) unfolding pairing_ok_def approvedish_def live_def by (cases "pr_state p") auto
  then show ?thesis
    using assms(1) try_emit_event_Inr [OF assms(3)] unfolding op_step_def entry_step_def
    by (auto simp: live_def approvedish_def)
qed

lemma claim_entry_step:
  assumes "claim_entry X login req ua dn supd now rn rt p es = (r, p', es')"
  shows "op_step (cl_pairing_id req) p es p' es'"
proof -
  let ?pid = "cl_pairing_id req"
  obtain r1 p1 es1 where n: "notify ?pid (expire now p) es = (r1, p1, es1)"
    by (cases "notify ?pid (expire now p) es")
  have "op_step ?pid p1 es1 p' es'"
    using assms n
    by (auto simp: claim_entry_def split: if_splits prod.splits sum.splits option.splits
        intro: op_fail op_emit claim_commit_step)
  then show ?thesis by (rule op_trans [OF op_expire_notify [OF n]])
qed

interpretation claim: entry_op "cl_pairing_id req" "claim_entry X login req ua dn supd now rn rt"
  for X login req ua dn supd now rn rt
  by unfold_locales (rule claim_entry_step)

lemma decide_step:
  assumes "decide pid st reason now p es = (r, p', es')" and "st = Approved \<or> st = Rejected"
  shows "op_step pid p es p' es'"
proof -
  define p1 where "p1 = expire now p"
  have approve: "op_step pid p1 es (transition Approved (p1\<lparr>pr_until := u\<rparr>)) es'"
    if "try_emit_event es (PairingState pid ''approved'' reason) = (Inr (), es')"
      "live p1" "pr_state p1 = Pending" "pr_claim_hash p1 \<noteq> None" for u
    using that try_emit_event_Inr [OF that(1)] unfolding op_step_def entry_step_def
    by (auto simp: pairing_ok_def approvedish_def live_def)
  have reject: "op_step pid p1 es p' es'"
    if "notify pid ((transition Rejected p1)\<lparr>pr_notification := Some reason\<rparr>) es = (r1, p', es')" "live p1" for r1
    using op_trans [OF op_dead op_notify [OF that(1)]] that(2) by simp
  have "op_step pid p1 es p' es'"
    using assms unfolding decide_def p1_def [symmetric]
    by (auto simp: Let_def split: if_splits prod.splits sum.splits intro: op_emit approve reject)
  then show ?thesis unfolding p1_def by (rule op_trans [OF op_expire])
qed

interpretation approve: entry_op pid "decide pid Approved reason now" for pid reason now
  by unfold_locales (simp add: decide_step)

interpretation reject: entry_op pid "decide pid Rejected reason now" for pid reason now
  by unfold_locales (simp add: decide_step)

lemma authenticate_entry_step:
  "authenticate_entry X req p es = (r, p', es') \<Longrightarrow> op_step (sq_pairing_id req) p es p' es'"
  by (auto simp: authenticate_entry_def Let_def split: if_splits prod.splits intro: op_fail)

lemma status_begin_entry_cases:
  assumes "status_begin_entry X req now global p es = (r, p', es')"
  obtains (refused) f where "r = Inl f" "op_step (sq_pairing_id req) p es p' es'"
    | (admitted) p1 where "r = Inr (pr_changed p1, pr_until p1)" "op_step (sq_pairing_id req) p es p1 es'"
        "0 < pr_polls p1" "0 < global" "p' = p1\<lparr>pr_polls := pr_polls p1 - 1\<rparr>"
proof -
  obtain r1 p1 es1 where a: "authenticate_entry X req (expire now p) es = (r1, p1, es1)"
    by (cases "authenticate_entry X req (expire now p) es")
  have s1: "op_step (sq_pairing_id req) p es p1 es1"
    using op_trans [OF op_expire authenticate_entry_step [OF a]] .
  show ?thesis
  proof (cases r)
    case (Inl f)
    then show ?thesis using assms a s1 refused
      by (auto simp: status_begin_entry_def split: sum.splits if_splits)
  next
    case (Inr h)
    then show ?thesis using assms a s1 admitted [of p1]
      by (auto simp: status_begin_entry_def split: sum.splits if_splits)
  qed
qed

lemma set_ticket_step:
  assumes "pr_state p = Approved"
  shows "op_step pid p es (p\<lparr>pr_ticket := Some \<lparr>tk_hash = h, tk_until = min t (pr_until p)\<rparr>\<rparr>) es"
  using assms unfolding op_step_def entry_step_def pairing_ok_def approvedish_def live_def by auto

lemma status_finish_entry_step:
  assumes "status_finish_entry X req now now2 rt p es = (r, p', es')"
  shows "op_step (sq_pairing_id req) p es p' es'"
proof -
  obtain r1 p1 es1 where a: "authenticate_entry X req (expire now p) es = (r1, p1, es1)"
    by (cases "authenticate_entry X req (expire now p) es")
  obtain r2 p2 es2 where n: "notify (sq_pairing_id req) p1 es1 = (r2, p2, es2)"
    by (cases "notify (sq_pairing_id req) p1 es1")
  have s1: "op_step (sq_pairing_id req) p es p1 es1"
    using op_trans [OF op_expire authenticate_entry_step [OF a]] .
  have s2: "op_step (sq_pairing_id req) p es p2 es2" using op_trans [OF s1 op_notify [OF n]] .
  have "p' = p1 \<and> es' = es1 \<or> op_step (sq_pairing_id req) p2 es2 p' es'"
    using assms a n by (auto simp: status_finish_entry_def split: sum.splits if_splits option.splits
        intro: set_ticket_step)
  then show ?thesis using s1 op_trans [OF s2] by auto
qed

interpretation status_finish: entry_op "sq_pairing_id req" "status_finish_entry X req now now2 rt"
  for X req now now2 rt
  by unfold_locales (rule status_finish_entry_step)

lemma start_registration_step:
  assumes "pr_state p = Approved" and "pr_label p = Some (rg_device_label rg)"
    and "rg_add_to_device rg = pr_add_to_device p" and "rg_deadline rg \<le> pr_until p"
  shows "op_step pid p es (transition Registering (p\<lparr>pr_registration := Some rg\<rparr>)) es"
  using assms unfolding op_step_def entry_step_def pairing_ok_def approvedish_def live_def by auto

lemma consume_entry_step:
  assumes "consume_entry X pid supplied now now2 started p es = (r, p', es')"
  shows "op_step pid p es p' es'"
proof -
  define p1 where "p1 = expire now p"
  have "op_step pid p1 es p' es'"
    using assms unfolding consume_entry_def p1_def [symmetric]
    by (auto simp: Let_def split: option.splits if_splits intro!: start_registration_step)
  then show ?thesis unfolding p1_def by (rule op_trans [OF op_expire])
qed

interpretation consume: entry_op pid "consume_entry X pid supplied now now2 started"
  for X pid supplied now now2 started
  by unfold_locales (rule consume_entry_step)

lemma retry_entry_step:
  assumes "retry_entry rg now p es = (r, p', es')"
  shows "op_step pid p es p' es'"
proof -
  define p1 where "p1 = expire now p"
  have "op_step pid p1 es (transition Approved p1) es" if "pr_state p1 = Registering"
    using that unfolding op_step_def entry_step_def pairing_ok_def approvedish_def live_def by auto
  then have "op_step pid p1 es p' es'"
    using assms unfolding retry_entry_def p1_def [symmetric] by (auto simp: Let_def split: if_splits)
  then show ?thesis unfolding p1_def by (rule op_trans [OF op_expire])
qed

interpretation retry: entry_op "rg_pairing_id rg" "retry_entry rg now" for rg now
  by unfold_locales (rule retry_entry_step)

lemma registered_step:
  assumes "pr_state p = Registering" and "prefix (es_log es) (es_log es')"
  shows "op_step pid p es (transition Registered p) es'"
  using assms unfolding op_step_def entry_step_def pairing_ok_def approvedish_def live_def by auto

lemma finish_entry_step:
  assumes "finish_entry rg now commit p es = (r, p', es')"
    and "\<And>s. prefix (es_log s) (es_log (snd (commit s)))"
  shows "op_step pid p es p' es'"
proof -
  define p1 where "p1 = expire now p"
  have pre: "prefix (es_log es) (es_log es')" if "commit es = (c, es')" for c
    using assms(2) [of es] that by simp
  have "op_step pid p1 es p' es'"
    using assms(1) pre unfolding finish_entry_def p1_def [symmetric]
    by (auto simp: Let_def op_step_def entry_step_frame registered_step [unfolded op_step_def]
        split: option.splits if_splits prod.splits sum.splits)
  then show ?thesis unfolding p1_def by (rule op_trans [OF op_expire])
qed

section \<open>The table\<close>

text \<open>How a step changes the table: what was there moves along its contract or is gone.\<close>

definition table_step :: "pairings \<Rightarrow> event_sender \<Rightarrow> pairings \<Rightarrow> event_sender \<Rightarrow> bool" where
  "table_step ps es ps' es' \<longleftrightarrow>
     (hm_wf (ps_entries ps) \<longrightarrow> hm_wf (ps_entries ps'))
     \<and> prefix (es_log es) (es_log es')
     \<and> length (ps_entries ps') \<le> length (ps_entries ps)
     \<and> hm_count live (ps_entries ps') \<le> hm_count live (ps_entries ps)
     \<and> ps_polls ps' = ps_polls ps
     \<and> (\<forall>pid p. hm_get (ps_entries ps) pid = Some p \<longrightarrow> hm_get (ps_entries ps') pid = None
          \<or> (\<exists>p'. hm_get (ps_entries ps') pid = Some p' \<and> op_step pid p es p' es'))
     \<and> (\<forall>pid. hm_get (ps_entries ps) pid = None \<longrightarrow> hm_get (ps_entries ps') pid = None)"

lemma op_step_live: "op_step pid p es p' es' \<Longrightarrow> live p' \<Longrightarrow> live p"
  by (auto simp: op_step_def entry_step_def live_def)

lemma table_step_refl [simp, intro]: "table_step ps es ps es"
  by (auto simp: table_step_def)

lemma op_frame: "prefix (es_log es) (es_log es') \<Longrightarrow> op_step pid p es p es'"
  by (simp add: op_step_def entry_step_frame)

lemma table_step_insert:
  assumes "hm_get (ps_entries ps) pid = Some p" and "op_step pid p es p' es'"
  shows "table_step ps es (ps\<lparr>ps_entries := hm_insert pid p' (ps_entries ps)\<rparr>) es'"
proof -
  have "prefix (es_log es) (es_log es')" using assms(2) by (simp add: op_step_def entry_step_def)
  then show ?thesis
    using assms hm_count_insert_le_old [OF assms(1), of live p'] op_step_live [OF assms(2)]
    by (auto simp: table_step_def length_hm_insert op_frame)
qed

context entry_op
begin

lemma with_entry_table:
  assumes "with_entry ps pid f es = (r, ps', es')"
  shows "table_step ps es ps' es'"
  using assms by (cases rule: with_entry_cases) (auto intro: table_step_insert)

end

lemma finish_table:
  assumes "finish rg now commit ps es = (r, ps', es')"
    and "\<And>s. prefix (es_log s) (es_log (snd (commit s)))"
  shows "table_step ps es ps' es'"
proof (cases "hm_get (ps_entries ps) (rg_pairing_id rg)")
  case None
  with assms(1) show ?thesis by (auto simp: finish_def hm_with_def)
next
  case (Some p)
  obtain r1 p1 es1 where f: "finish_entry rg now commit p es = (r1, p1, es1)"
    by (cases "finish_entry rg now commit p es")
  then show ?thesis
    using assms(1) Some table_step_insert [OF Some finish_entry_step [OF f assms(2)]]
    by (auto simp: finish_def hm_with_def)
qed

lemma maintain_step:
  assumes "maintain nows m es = (m', es')"
  shows "map fst m' = map fst m \<and> prefix (es_log es) (es_log es') \<and> hm_count live m' \<le> hm_count live m
    \<and> (\<forall>pid p. hm_get m pid = Some p \<longrightarrow> (\<exists>p'. hm_get m' pid = Some p' \<and> op_step pid p es p' es'))
    \<and> (\<forall>pid. hm_get m pid = None \<longrightarrow> hm_get m' pid = None)"
  using assms
proof (induction nows m es arbitrary: m' es' rule: maintain.induct)
  case (2 nows pid p m es)
  obtain r1 p1 es1 where n: "notify pid (expire (nows pid) p) es = (r1, p1, es1)"
    by (cases "notify pid (expire (nows pid) p) es")
  obtain m2 es2 where rest: "maintain nows m es1 = (m2, es2)" by (cases "maintain nows m es1")
  note IH = "2.IH" [OF n [symmetric] _ rest]
  have s1: "op_step pid p es p1 es1" using n by (rule op_expire_notify)
  then have pre: "prefix (es_log es) (es_log es1)" by (simp add: op_step_def entry_step_def)
  have eq: "m' = (pid, p1) # m2" "es' = es2" using "2.prems" n rest by auto
  have pre2: "prefix (es_log es1) (es_log es2)" using IH by simp
  have "op_step pid p es p1 es2" using op_trans [OF s1 op_frame [OF pre2]] .
  moreover have "op_step q u es v es2" if "op_step q u es1 v es2" for q u v
    using op_trans [OF op_frame [OF pre] that] .
  ultimately show ?case
    using IH pre pre2 op_step_live [OF s1] unfolding eq
    by (auto dest: prefix_order.trans) metis
qed auto

lemma maintenance_table:
  assumes "pairings_maintenance nows ps es = (ps', es')"
  shows "table_step ps es ps' es'"
proof -
  obtain m' where m: "maintain nows (ps_entries ps) es = (m', es')" and ps': "ps' = ps\<lparr>ps_entries := m'\<rparr>"
    using assms by (auto simp: pairings_maintenance_def split: prod.splits)
  note s = maintain_step [OF m]
  have "length m' = length (ps_entries ps)" using s by (metis length_map)
  then show ?thesis using s by (fastforce simp: table_step_def ps' hm_wf_def)
qed

lemma table_step_trans:
  assumes "table_step ps es ps1 es1" and "table_step ps1 es1 ps2 es2"
  shows "table_step ps es ps2 es2"
proof -
  note u = assms [unfolded table_step_def]
  have "hm_get (ps_entries ps2) pid = None
      \<or> (\<exists>p'. hm_get (ps_entries ps2) pid = Some p' \<and> op_step pid p es p' es2)"
    if p: "hm_get (ps_entries ps) pid = Some p" for pid p
  proof (cases "hm_get (ps_entries ps1) pid")
    case None
    with u show ?thesis by simp
  next
    case (Some p1)
    with u p have "op_step pid p es p1 es1" by force
    with u Some op_trans show ?thesis by blast
  qed
  moreover have "prefix (es_log es) (es_log es2)" using u prefix_order.trans by blast
  ultimately show ?thesis using u unfolding table_step_def by auto
qed

lemma table_step_emit: "try_emit_event es e = (r, es') \<Longrightarrow> table_step ps es ps es'"
  by (auto simp: table_step_def op_frame dest: try_emit_event_prefix)

lemma evict_Inr:
  assumes "evict m = Inr m'"
  shows "m' = m \<and> length m < MAX_RECORDS \<or>
    (\<exists>pid p. m' = hm_remove pid m \<and> hm_get m pid \<noteq> None \<and> (hm_wf m \<longrightarrow> hm_get m pid = Some p \<and> \<not> live p))"
proof (cases "length m \<ge> MAX_RECORDS")
  case True
  then obtain e where e: "min_by_key (\<lambda>e. pr_until (snd e))
        (filter (\<lambda>e. \<not> live (snd e) \<and> pr_notification (snd e) = None) m) = Some e"
    and m': "m' = hm_remove (fst e) m"
    using assms by (auto simp: evict_def oldest_evictable_def split: option.splits)
  from min_by_key_in [OF e] have "e \<in> set m" "\<not> live (snd e)" by auto
  then have "hm_get m (fst e) \<noteq> None" and "hm_wf m \<Longrightarrow> hm_get m (fst e) = Some (snd e)"
    by (auto simp: hm_get_None_iff hm_get_iff)
  then show ?thesis using m' \<open>\<not> live (snd e)\<close> by metis
qed (use assms in \<open>simp add: evict_def\<close>)

lemma table_step_remove: "table_step ps es (ps\<lparr>ps_entries := hm_remove pid (ps_entries ps)\<rparr>) es"
  by (simp add: table_step_def hm_count_remove_le)

lemma evict_table:
  assumes "evict (ps_entries ps) = Inr m"
  shows "table_step ps es (ps\<lparr>ps_entries := m\<rparr>) es"
  using evict_Inr [OF assms] table_step_remove by auto

lemma evict_length:
  assumes "evict m = Inr m'" and "length m \<le> MAX_RECORDS"
  shows "length m' < MAX_RECORDS"
  using evict_Inr [OF assms(1)] length_hm_remove_less [of m] assms(2) by fastforce

lemma pairing_create_cases:
  assumes "pairing_create X path add now rid rsec ps es = (r, ps', es')"
  obtains (refused) "table_step ps es ps' es'"
    | (created) idb secret url m where "rid = Some idb" "evict (ps_entries ps) = Inr m"
        "hm_count live (ps_entries ps) < MAX_LIVE"
        "ps' = ps\<lparr>ps_entries := hm_insert (encode X idb) (new_pairing X add secret (after now PAIRING_TTL)) m\<rparr>"
        "es_log es' = es_log es @ [PairingCreated (encode X idb) url (after now PAIRING_TTL)]"
proof (cases "r = Inr Applied")
  case True
  then show ?thesis
    using assms created
    by (auto simp: pairing_create_def Let_def dest!: try_emit_event_Inr
        split: if_splits sum.splits option.splits prod.splits)
next
  case False
  have "ps' = ps \<and> es' = es \<or> (\<exists>m. evict (ps_entries ps) = Inr m \<and> ps' = ps\<lparr>ps_entries := m\<rparr> \<and> es' = es)"
    using assms False
    by (auto simp: pairing_create_def Let_def dest: try_emit_event_Inl
        split: if_splits sum.splits option.splits prod.splits)
  then show ?thesis using refused evict_table by auto
qed

section \<open>Every step keeps the invariant\<close>

lemma pairings_inv_get:
  "pairings_inv ps polls \<Longrightarrow> hm_get (ps_entries ps) pid = Some p \<Longrightarrow>
     pairing_ok p \<and> pr_polls p + count_list polls pid = 1"
  by (simp add: pairings_inv_def)

lemma table_step_inv:
  assumes "pairings_inv ps polls" and "table_step ps es ps' es'"
  shows "pairings_inv ps' polls"
proof -
  note u = assms(2) [unfolded table_step_def]
  have "pairing_ok p' \<and> pr_polls p' + count_list polls pid = 1"
    if p': "hm_get (ps_entries ps') pid = Some p'" for pid p'
  proof (cases "hm_get (ps_entries ps) pid")
    case None
    with u p' show ?thesis by simp
  next
    case (Some p)
    with u p' have "op_step pid p es p' es'" by force
    moreover have "pairing_ok p \<and> pr_polls p + count_list polls pid = 1"
      using assms(1) Some by (simp add: pairings_inv_def)
    ultimately show ?thesis by (simp add: op_step_def entry_step_def)
  qed
  then show ?thesis using assms(1) u by (auto simp: pairings_inv_def)
qed

lemma new_pairing_ok: "pairing_ok (new_pairing X a s t)"
  by (simp add: new_pairing_def pairing_ok_def approvedish_def live_def)

lemma create_inv:
  assumes "pairings_inv ps polls" and "evict (ps_entries ps) = Inr m"
    and "hm_count live (ps_entries ps) < MAX_LIVE" and "pid \<notin> set polls"
  shows "pairings_inv (ps\<lparr>ps_entries := hm_insert pid (new_pairing X a s t) m\<rparr>) polls"
proof -
  have inv: "pairings_inv (ps\<lparr>ps_entries := m\<rparr>) polls"
    using table_step_inv [OF assms(1) evict_table [OF assms(2)]] .
  have len: "length m < MAX_RECORDS" using assms(1,2) evict_length by (auto simp: pairings_inv_def)
  have "hm_count live m < MAX_LIVE"
    using evict_table [OF assms(2)] assms(3) by (fastforce simp: table_step_def)
  moreover have "hm_count live (hm_insert pid (new_pairing X a s t) m) \<le> Suc (hm_count live m)"
    using hm_count_insert_new [of m pid live] hm_count_insert_old [of m pid _ live "new_pairing X a s t"]
    by (cases "hm_get m pid") (auto simp: of_bool_def split: if_splits)
  moreover have "count_list polls pid = 0" using assms(4) by simp
  moreover have "pr_polls (new_pairing X a s t) = 1" by (simp add: new_pairing_def)
  ultimately show ?thesis
    using inv len new_pairing_ok [of X a s t] by (auto simp: pairings_inv_def length_hm_insert)
qed

lemma command_cases:
  assumes "pairings_command X nows now rid rsec cmd ps es = (r, ps', es')"
  obtains (moved) "table_step ps es ps' es'"
    | (created) ps1 es1 add idb secret url m where "table_step ps es ps1 es1" "rid = Some idb"
        "evict (ps_entries ps1) = Inr m" "hm_count live (ps_entries ps1) < MAX_LIVE"
        "ps' = ps1\<lparr>ps_entries := hm_insert (encode X idb) (new_pairing X add secret (after now PAIRING_TTL)) m\<rparr>"
        "es_log es' = es_log es1 @ [PairingCreated (encode X idb) url (after now PAIRING_TTL)]"
proof -
  obtain ps1 es1 where mt: "pairings_maintenance nows ps es = (ps1, es1)"
    by (cases "pairings_maintenance nows ps es")
  note t1 = maintenance_table [OF mt]
  note eq = assms [unfolded pairings_command_def mt prod.case Let_def]
  have dec: ?thesis if "table_step ps1 es1 ps' es'" using moved table_step_trans [OF t1 that] .
  show ?thesis
  proof (cases cmd)
    case (PairingCreate path add)
    with eq have c: "pairing_create X path add now rid rsec ps1 es1 = (r, ps', es')" by simp
    show ?thesis using c
    proof (cases rule: pairing_create_cases)
      case refused
      then show ?thesis by (rule dec)
    next
      case (created idb secret url m)
      then show ?thesis using that(2) [OF t1] by blast
    qed
  qed (use eq in \<open>auto split: if_splits intro: dec approve.with_entry_table reject.with_entry_table\<close>)
qed

lemma command_inv:
  assumes "pairings_inv ps polls" and "pairings_command X nows now rid rsec cmd ps es = (r, ps', es')"
    and "fresh_id X rid ps polls"
  shows "pairings_inv ps' polls"
  using assms(2)
proof (cases rule: command_cases)
  case moved
  then show ?thesis using table_step_inv assms(1) by blast
next
  case (created ps1 es1 add idb secret url m)
  have "encode X idb \<notin> set polls" using assms(3) created(2) by (simp add: fresh_id_def)
  then show ?thesis
    using create_inv [OF table_step_inv [OF assms(1) created(1)] created(3,4)] created(5) by simp
qed

lemma status_begin_Inl_table:
  assumes "status_begin X req now ps es = (Inl f, ps', es')"
  shows "table_step ps es ps' es'"
proof (cases "hm_get (ps_entries ps) (sq_pairing_id req)")
  case None
  with assms show ?thesis by (auto simp: status_begin_def with_entry_def hm_with_def split: if_splits)
next
  case (Some p)
  obtain r p' es1 where b: "status_begin_entry X req now (ps_polls ps) p es = (r, p', es1)"
    by (cases "status_begin_entry X req now (ps_polls ps) p es")
  show ?thesis using b
  proof (cases rule: status_begin_entry_cases)
    case (refused g)
    then show ?thesis using assms Some b table_step_insert [OF Some refused(2)]
      by (auto simp: status_begin_def with_entry_def hm_with_def split: if_splits)
  next
    case (admitted p1)
    then show ?thesis using assms Some b
      by (auto simp: status_begin_def with_entry_def hm_with_def split: if_splits)
  qed
qed

lemma status_begin_Inr:
  assumes "status_begin X req now ps es = (Inr h, ps', es')"
  obtains p p1 where "hm_get (ps_entries ps) (sq_pairing_id req) = Some p"
    "op_step (sq_pairing_id req) p es p1 es'" "0 < pr_polls p1" "0 < ps_polls ps"
    "ps' = ps\<lparr>ps_entries := hm_insert (sq_pairing_id req) (p1\<lparr>pr_polls := pr_polls p1 - 1\<rparr>) (ps_entries ps),
             ps_polls := ps_polls ps - 1\<rparr>"
proof (cases "hm_get (ps_entries ps) (sq_pairing_id req)")
  case None
  with assms show ?thesis by (auto simp: status_begin_def with_entry_def hm_with_def split: if_splits)
next
  case (Some p)
  obtain r p' es1 where b: "status_begin_entry X req now (ps_polls ps) p es = (r, p', es1)"
    by (cases "status_begin_entry X req now (ps_polls ps) p es")
  have r: "r = Inr h" and es1: "es1 = es'"
    and ps': "ps' = ps\<lparr>ps_entries := hm_insert (sq_pairing_id req) p' (ps_entries ps), ps_polls := ps_polls ps - 1\<rparr>"
    using assms Some b by (auto simp: status_begin_def with_entry_def hm_with_def split: if_splits sum.splits)
  show ?thesis using b
  proof (cases rule: status_begin_entry_cases)
    case (refused f)
    with r show ?thesis by simp
  next
    case (admitted p1)
    then show ?thesis using that Some es1 ps' by blast
  qed
qed

lemma ok_polls [simp]: "pairing_ok (p\<lparr>pr_polls := n\<rparr>) = pairing_ok p"
  by (simp add: pairing_ok_def approvedish_def live_def)

lemma live_polls [simp]: "live (p\<lparr>pr_polls := n\<rparr>) = live p"
  by (simp add: live_def)

lemma status_begin_inv:
  assumes "pairings_inv ps polls" and "status_begin X req now ps es = (Inr h, ps', es')"
  shows "pairings_inv ps' (sq_pairing_id req # polls)"
  using assms(2)
proof (cases rule: status_begin_Inr)
  case (1 p p1)
  have inv: "pairings_inv (ps\<lparr>ps_entries := hm_insert (sq_pairing_id req) p1 (ps_entries ps)\<rparr>) polls"
    using table_step_inv [OF assms(1) table_step_insert [OF 1(1,2)]] .
  moreover have "hm_count live (hm_insert (sq_pairing_id req) (p1\<lparr>pr_polls := pr_polls p1 - 1\<rparr>) (ps_entries ps))
      = hm_count live (hm_insert (sq_pairing_id req) p1 (ps_entries ps))"
    using hm_count_insert_old [OF 1(1), of live p1]
      hm_count_insert_old [OF 1(1), of live "p1\<lparr>pr_polls := pr_polls p1 - 1\<rparr>"] by simp
  moreover have wf: "hm_wf (ps_entries ps)" using assms(1) by (simp add: pairings_inv_def)
  moreover have "pairing_ok p1" and one: "pr_polls p1 + count_list polls (sq_pairing_id req) = 1"
    using pairings_inv_get [OF inv, of "sq_pairing_id req" p1] by simp_all
  moreover have "count_list polls (sq_pairing_id req) = 0" and "pr_polls p1 = 1" using one 1(3) by auto
  ultimately show ?thesis using assms(1) 1(1,3,4) unfolding 1(5) pairings_inv_def
    by (auto simp: length_hm_insert)
qed

lemma count_list_remove1_same: "x \<in> set xs \<Longrightarrow> Suc (count_list (remove1 x xs) x) = count_list xs x"
  by (induction xs) auto

lemma count_list_remove1_other: "y \<noteq> x \<Longrightarrow> count_list (remove1 x xs) y = count_list xs y"
  by (induction xs) auto

lemma release_inv:
  assumes "pairings_inv ps polls" and "pid \<in> set polls"
  shows "pairings_inv (status_release pid ps) (remove1 pid polls)"
proof -
  have len: "length polls = Suc (length (remove1 pid polls))"
    using assms(2) length_pos_if_in_set [OF assms(2)] by (simp add: length_remove1)
  have ent: "pairing_ok q \<and> pr_polls q + count_list (remove1 pid polls) k = 1"
    if g: "hm_get (ps_entries (status_release pid ps)) k = Some q" for k q
  proof (cases "k = pid")
    case True
    obtain p where p: "hm_get (ps_entries ps) pid = Some p"
      using g True by (cases "hm_get (ps_entries ps) pid") (simp_all add: status_release_def)
    then have "q = p\<lparr>pr_polls := pr_polls p + 1\<rparr>" using g True by (simp add: status_release_def)
    then show ?thesis
      using pairings_inv_get [OF assms(1) p] count_list_remove1_same [OF assms(2)] True by auto
  next
    case False
    with that have "hm_get (ps_entries ps) k = Some q"
      by (auto simp: status_release_def split: option.splits)
    with pairings_inv_get [OF assms(1) this] count_list_remove1_other [OF False]
    show ?thesis by simp
  qed
  have cnt: "hm_count live (ps_entries (status_release pid ps)) = hm_count live (ps_entries ps)"
  proof (cases "hm_get (ps_entries ps) pid")
    case (Some p)
    from hm_count_insert_old [OF Some, of live "p\<lparr>pr_polls := pr_polls p + 1\<rparr>"] Some
    show ?thesis by (simp add: status_release_def)
  qed (simp add: status_release_def)
  have "hm_wf (ps_entries (status_release pid ps))" "length (ps_entries (status_release pid ps)) = length (ps_entries ps)"
    "ps_polls (status_release pid ps) = ps_polls ps + 1"
    using assms(1) by (auto simp: status_release_def pairings_inv_def length_hm_insert split: option.splits)
  then show ?thesis using assms(1) ent cnt len by (simp add: pairings_inv_def)
qed

lemma start_inv: "pairings_inv (pairings_new host login) []"
  by (simp add: pairings_inv_def pairings_new_def MAX_LIVE_def MAX_RECORDS_def)

lemma claim_table:
  "claim X req ua now rn rt ps es = (r, ps', es') \<Longrightarrow> table_step ps es ps' es'"
  by (auto simp: claim_def split: if_splits option.splits intro: claim.with_entry_table)

lemma consume_table:
  "consume_ticket X pid tk now now2 started ps es = (r, ps', es') \<Longrightarrow> table_step ps es ps' es'"
  by (auto simp: consume_ticket_def split: option.splits intro: consume.with_entry_table)

lemmas step_tables = maintenance_table claim_table status_begin_Inl_table
  status_finish.with_entry_table [folded status_finish_def] consume_table
  retry.with_entry_table [folded retry_registration_def] finish_table

lemma pstep_inv:
  assumes "pstep X (ps, es, polls) (ps', es', polls')" and "pairings_inv ps polls"
  shows "pairings_inv ps' polls'"
  using assms
proof (cases rule: pstep.cases)
  case (p_status_finish sreq now now2 rticket r ps1)
  then show ?thesis using assms(2) table_step_inv step_tables(4) release_inv by metis
qed (use assms(2) in \<open>auto intro: table_step_inv step_tables command_inv status_begin_inv release_inv\<close>)

lemma preach_inv: "preach X s \<Longrightarrow> pairings_inv (fst s) (snd (snd s))"
proof (induction rule: preach.induct)
  case (p_start host login)
  show ?case by (simp add: start_inv)
next
  case (p_more s s')
  then show ?case by (cases s; cases s') (auto intro: pstep_inv)
qed

text \<open>
  C33: the limits of the pairing table hold in every reachable state, under any interleaving of
  desktop commands, claims, status polls (also cancelled ones), tickets and registrations: at most
  four pairings are live and sixteen are kept, at most eight polls wait, at most one per pairing,
  and a live pairing has fewer than five failed attempts. A secret is kept only until the claim, a
  ticket only while approved, a registration only while registering.
\<close>

theorem pairing_table_invariant:
  assumes "preach X (ps, es, polls)"
  shows "hm_count live (ps_entries ps) \<le> 4 \<and> length (ps_entries ps) \<le> 16 \<and> length polls \<le> 8
    \<and> (\<forall>pid p. hm_get (ps_entries ps) pid = Some p \<longrightarrow>
          count_list polls pid \<le> 1
          \<and> (live p \<longrightarrow> unat (pr_failures p) < 5)
          \<and> (pr_secret p \<noteq> None \<longrightarrow> pr_state p = Pending \<and> pr_claim_hash p = None)
          \<and> (pr_ticket p \<noteq> None \<longrightarrow> pr_state p = Approved)
          \<and> (pr_registration p \<noteq> None \<longleftrightarrow> pr_state p = Registering)
          \<and> (pr_state p \<in> {Approved, Registering, Registered} \<longrightarrow> pr_claim_hash p \<noteq> None \<and> pr_label p \<noteq> None))"
proof -
  have inv: "pairings_inv ps polls" using preach_inv [OF assms] by simp
  then have "length polls \<le> 8" by (simp add: pairings_inv_def)
  moreover have "count_list polls pid \<le> 1 \<and> pairing_ok p" if "hm_get (ps_entries ps) pid = Some p" for pid p
    using pairings_inv_get [OF inv that] by simp
  ultimately show ?thesis using inv
    unfolding pairings_inv_def pairing_ok_def approvedish_def by (simp add: MAX_LIVE_def MAX_RECORDS_def)
qed

section \<open>Dead pairings, claims and approvals\<close>

lemma table_entry:
  assumes "table_step ps es ps' es'" and "hm_get (ps_entries ps) pid = Some p"
  shows "hm_get (ps_entries ps') pid = None \<or> (\<exists>p'. hm_get (ps_entries ps') pid = Some p' \<and> entry_step pid p es p' es')"
  using assms by (fastforce simp: table_step_def op_step_def)

lemma entry_step_polls [simp]: "entry_step pid p es (p'\<lparr>pr_polls := n\<rparr>) es' = entry_step pid p es p' es'"
  by (simp add: entry_step_def approvedish_def)

lemma release_entry:
  "hm_get (ps_entries (status_release rid ps)) pid =
     (case hm_get (ps_entries ps) pid of None \<Rightarrow> None
      | Some p \<Rightarrow> Some (if pid = rid then p\<lparr>pr_polls := pr_polls p + 1\<rparr> else p))"
  by (auto simp: status_release_def split: option.splits)

text \<open>What one step does to one entry that is there before it, and how an entry comes up.\<close>

lemma pstep_entry:
  assumes "pstep X (ps, es, polls) (ps', es', polls')" and "hm_get (ps_entries ps) pid = Some p"
  shows "hm_get (ps_entries ps') pid = None \<or> (\<exists>p'. hm_get (ps_entries ps') pid = Some p' \<and> entry_step pid p es p' es')"
  using assms(1)
proof (cases rule: pstep.cases)
  case (p_command nows now rid rsecret cmd r)
  from p_command(2) show ?thesis
  proof (cases rule: command_cases)
    case (created ps1 es1 add idb secret url m)
    have ne: "encode X idb \<noteq> pid" using p_command(3) created(2) assms(2) by (auto simp: fresh_id_def)
    have pre: "prefix (es_log es1) (es_log es')" using created(6) by simp
    have "table_step ps es (ps1\<lparr>ps_entries := m\<rparr>) es1"
      using table_step_trans [OF created(1) evict_table [OF created(3)]] .
    from table_entry [OF this assms(2)] show ?thesis
      using ne created(5) entry_step_trans [OF _ entry_step_frame [OF pre]] by auto
  qed (use assms(2) table_entry in blast)
next
  case (p_status_begin sreq now h)
  from p_status_begin(2) show ?thesis
  proof (cases rule: status_begin_Inr)
    case (1 q q1)
    have "prefix (es_log es) (es_log es')" using 1(2) by (simp add: op_step_def entry_step_def)
    with 1 assms(2) show ?thesis by (auto simp: op_step_def entry_step_frame)
  qed
next
  case (p_status_finish sreq now now2 rticket r ps1)
  then show ?thesis
    using table_entry [OF step_tables(4) [OF p_status_finish(3)] assms(2)]
    by (cases "pid = sq_pairing_id sreq") (auto simp: release_entry)
next
  case (p_queue)
  then show ?thesis using es_steps_log assms(2) by (auto intro: entry_step_frame)
qed (use assms(2) in \<open>auto simp: release_entry dest!: step_tables dest: table_entry\<close>)

lemma pstep_new:
  assumes "pstep X (ps, es, polls) (ps', es', polls')" and "hm_get (ps_entries ps) pid = None"
    and "hm_get (ps_entries ps') pid = Some p'"
  shows "\<exists>add secret until url. p' = new_pairing X add secret until \<and> PairingCreated pid url until \<in> set (es_log es')"
proof -
  have keep: False if "table_step ps es ps1 es1" "hm_get (ps_entries ps1) pid \<noteq> None" for ps1 es1
    using that assms(2) by (simp add: table_step_def)
  show ?thesis using assms(1)
  proof (cases rule: pstep.cases)
    case (p_command nows now rid rsecret cmd r)
    from p_command(2) show ?thesis
    proof (cases rule: command_cases)
      case moved
      with keep assms(3) show ?thesis by force
    next
      case (created ps1 es1 add idb secret url m)
      have "hm_get m pid = None"
        using keep [OF table_step_trans [OF created(1) evict_table [OF created(3)]]]
        by (cases "hm_get m pid") simp_all
      then show ?thesis using assms(3) created(5,6) by (auto split: if_splits)
    qed
  next
    case (p_status_begin sreq now h)
    from p_status_begin(2) show ?thesis
      by (cases rule: status_begin_Inr) (use assms(2,3) in \<open>auto split: if_splits\<close>)
  next
    case (p_status_finish sreq now now2 rticket r ps1)
    then show ?thesis using keep [OF step_tables(4) [OF p_status_finish(3)]] assms(3)
      by (auto simp: release_entry split: option.splits)
  qed (use assms(2,3) keep in \<open>force simp: release_entry dest: step_tables\<close>)+
qed

lemma pstep_log:
  assumes "pstep X (ps, es, polls) (ps', es', polls')"
  shows "prefix (es_log es) (es_log es')"
  using assms
proof (cases rule: pstep.cases)
  case (p_command nows now rid rsecret cmd r)
  from p_command(2) show ?thesis
    by (cases rule: command_cases) (auto simp: table_step_def dest: prefix_order.trans)
next
  case (p_status_begin sreq now h)
  from p_status_begin(2) show ?thesis
    by (cases rule: status_begin_Inr) (simp add: op_step_def entry_step_def)
next
  case p_queue
  then show ?thesis using es_steps_log by blast
qed (auto dest!: step_tables simp: table_step_def)

text \<open>
  A dead pairing stays dead. No step of the gateway takes a rejected, expired or registered
  pairing back to a live state or to another end state; the only other thing that can happen to
  it is that its record is evicted.
\<close>

theorem pairing_dead_stays_dead:
  assumes "pstep X (ps, es, polls) (ps', es', polls')"
    and "hm_get (ps_entries ps) pid = Some p" and "\<not> live p"
  shows "hm_get (ps_entries ps') pid = None
    \<or> (\<exists>p'. hm_get (ps_entries ps') pid = Some p' \<and> pr_state p' = pr_state p)"
  using pstep_entry [OF assms(1,2)] assms(3) by (auto simp: entry_step_def)

definition demo_dead :: pairings where
  "demo_dead = (pairings_new ''h'' ''l'')
     \<lparr>ps_entries := [(''a'', transition Rejected (new_pairing demo_ext None [1] 300))]\<rparr>"

theorem pairing_dead_stays_dead_witness:
  "\<exists>p. hm_get (ps_entries (fst (pairings_maintenance (\<lambda>_. 500) demo_dead spawn_writer))) ''a'' = Some p
     \<and> pr_state p = Rejected"
proof -
  obtain ps es where m: "pairings_maintenance (\<lambda>_. 500) demo_dead spawn_writer = (ps, es)"
    by (cases "pairings_maintenance (\<lambda>_. 500) demo_dead spawn_writer")
  have g: "hm_get (ps_entries demo_dead) ''a'' = Some (transition Rejected (new_pairing demo_ext None [1] 300))"
    by (simp add: demo_dead_def)
  have "hm_get (ps_entries ps) ''a'' \<noteq> None"
    using m by (auto simp: pairings_maintenance_def demo_dead_def split: prod.splits)
  with pairing_dead_stays_dead [where X = demo_ext and polls = "[]", OF p_maintenance [OF m] g] m show ?thesis
    by (auto simp: live_def)
qed

end
