(* ===== verification/Pairing_Security.thy ===== *)
theory Pairing_Security
  imports Pairing_Props
begin

text \<open>
  What the pairing protocol promises: where a claimed or an approved pairing comes from, what a
  claim, a ticket and a registration need, how often a secret can be guessed, and the digits of
  the short authentication string.
\<close>

section \<open>Provenance\<close>

lemma provenance_mono: "provenance evs pid p \<Longrightarrow> prefix evs evs' \<Longrightarrow> provenance evs' pid p"
  using set_mono_prefix by (fastforce simp: provenance_def)

lemma provenance_step:
  assumes "provenance (es_log es) pid p" and "entry_step pid p es p' es'"
  shows "provenance (es_log es') pid p'"
proof -
  have pre: "prefix (es_log es) (es_log es')" using assms(2) by (simp add: entry_step_def)
  show ?thesis
    using provenance_mono [OF assms(1) pre] assms(2) unfolding provenance_def entry_step_def by metis
qed

lemma provenance_new:
  "PairingCreated pid url until \<in> set evs \<Longrightarrow> provenance evs pid (new_pairing X add secret until')"
  by (auto simp: provenance_def new_pairing_def approvedish_def)

lemma preach_provenance:
  "preach X s \<Longrightarrow> hm_get (ps_entries (fst s)) pid = Some p \<Longrightarrow> provenance (es_log (fst (snd s))) pid p"
proof (induction arbitrary: p rule: preach.induct)
  case (p_start host login)
  then show ?case by (simp add: pairings_new_def)
next
  case (p_more s s')
  obtain ps es polls where s: "s = (ps, es, polls)" by (cases s)
  obtain ps' es' polls' where s': "s' = (ps', es', polls')" by (cases s')
  show ?case
  proof (cases "hm_get (ps_entries ps) pid")
    case None
    from pstep_new [OF p_more.hyps(2) [unfolded s s'] None] p_more.prems s' show ?thesis
      by (auto intro: provenance_new)
  next
    case (Some q)
    from pstep_entry [OF p_more.hyps(2) [unfolded s s'] Some] p_more.prems p_more.IH [of q] Some s s'
    show ?thesis by (auto intro: provenance_step)
  qed
qed

text \<open>
  C34: nothing is approved behind the desktop's back. In every reachable state, a pairing of the
  table was announced to the desktop; one that carries a claim was announced with the label it
  carries; and one that is approved, registering or registered was claimed and then approved by an
  event the desktop was sent.
\<close>

theorem pairing_provenance:
  assumes "preach X (ps, es, polls)" and "hm_get (ps_entries ps) pid = Some p"
  shows "(\<exists>url until. PairingCreated pid url until \<in> set (es_log es))
    \<and> (pr_claim_hash p \<noteq> None \<longrightarrow>
         (\<exists>label sas login ua. PairingClaimed pid label sas login ua \<in> set (es_log es) \<and> pr_label p = Some label))
    \<and> (pr_state p \<in> {Approved, Registering, Registered} \<longrightarrow>
         pr_claim_hash p \<noteq> None \<and> (\<exists>reason. PairingState pid ''approved'' reason \<in> set (es_log es)))"
proof -
  have "provenance (es_log es) pid p" using preach_provenance [OF assms(1)] assms(2) by simp
  moreover have "pairing_ok p"
    using pairings_inv_get [OF preach_inv [OF assms(1), simplified] assms(2)] by simp
  then have "approvedish p \<longrightarrow> pr_claim_hash p \<noteq> None" unfolding pairing_ok_def by blast
  ultimately show ?thesis unfolding provenance_def approvedish_def by blast
qed

section \<open>Claims\<close>

lemma notify_Inr_live: "notify pid (expire now p) es = (r, q, es') \<Longrightarrow> live q \<Longrightarrow>
    live p \<and> now < expiry p"
  by (auto simp: expire_def notify_def live_def Let_def split: if_splits option.splits prod.splits sum.splits)

lemma ok_live_silent: "pairing_ok p \<Longrightarrow> live p \<Longrightarrow> pr_notification p = None"
  by (auto simp: pairing_ok_def)

lemma notify_live_same:
  assumes "notify pid (expire now p) es = (r, q, es')" and "live q" and "pairing_ok p"
  shows "q = p \<and> es' = es"
proof -
  have "live p \<and> now < expiry p" by (rule notify_Inr_live [OF assms(1,2)])
  with ok_live_silent [OF assms(3)] assms(1) show ?thesis by (simp add: expire_def notify_def)
qed

text \<open>
  A claim succeeds only against a pairing that is live, not past its deadline and not claimed
  before, with the pairing's own secret (up to the digest), an admissible label and an admissible
  user agent; the desktop has then been sent the claim with this label and this authentication
  string; and the table keeps the digest of the returned token, the label, and no secret.
\<close>

theorem claim_sound:
  assumes "pairings_inv ps polls" and "claim X req ua now rnonce rtoken ps es = (Inr (Some resp), ps', es')"
  shows "\<exists>p p' secret sup token. hm_get (ps_entries ps) (cl_pairing_id req) = Some p
    \<and> live p \<and> now < pr_until p \<and> pr_claim_hash p = None
    \<and> decode X 32 (cl_secret req) = Some sup \<and> hash X sup = pr_secret_hash p
    \<and> valid_label (cl_device_label req) \<and> user_agent_ok ua
    \<and> es_log es' = es_log es @ [PairingClaimed (cl_pairing_id req) (cl_device_label req) (cp_sas resp) (ps_login ps) ua]
    \<and> rtoken = Some token \<and> cp_claim_token resp = encode X token
    \<and> hm_get (ps_entries ps') (cl_pairing_id req) = Some p'
    \<and> pr_claim_hash p' = Some (hash X token) \<and> pr_label p' = Some (cl_device_label req) \<and> pr_secret p' = None"
proof -
  let ?pid = "cl_pairing_id req"
  obtain dn where c: "valid_label (cl_device_label req)" "user_agent_ok ua"
      "with_entry ps ?pid (claim_entry X (ps_login ps) req ua dn (decode X 32 (cl_secret req)) now rnonce rtoken) es
        = (Inr (Some resp), ps', es')"
    using assms(2) by (auto simp: claim_def split: if_splits option.splits)
  from c(3) show ?thesis
  proof (cases rule: claim.with_entry_cases)
    case (some p p')
    obtain r1 q es1 where n: "notify ?pid (expire now p) es = (r1, q, es1)" by (cases "notify ?pid (expire now p) es")
    have ok: "pairing_ok p" using pairings_inv_get [OF assms(1) some(1)] by simp
    have "live q" using some(2) n by (auto simp: claim_entry_def split: if_splits sum.splits prod.splits)
    with n ok have q: "q = p" "es1 = es" "live p" "now < expiry p"
      using notify_live_same notify_Inr_live by blast+
    have "pr_registration p = None" if "pr_claim_hash p = None"
      using that ok by (auto simp: pairing_ok_def approvedish_def)
    then show ?thesis using some c(1,2) n q
      by (auto simp: claim_entry_def expiry_def matches_def unwrap_or_def
          split: if_splits sum.splits prod.splits option.splits dest!: try_emit_event_Inr)
  qed simp
qed

lemma expire_unexpired: "now < expiry p \<Longrightarrow> expire now p = p"
  by (simp add: expire_def)

lemma notify_silent: "pr_notification p = None \<Longrightarrow> notify pid p es = (Inr (), p, es)"
  by (simp add: notify_def)

lemma notify_dead:
  assumes "notify pid p es = (r, p', es')"
  shows "pr_state p' = pr_state p \<and> pr_failures p' = pr_failures p"
  using assms by (auto simp: notify_def Let_def split: option.splits prod.splits sum.splits)

lemma fail_second: "fail pid True p es = (f, p', es') \<Longrightarrow> pr_state p' = Rejected"
  by (auto simp: fail_def Let_def split: prod.splits sum.splits dest: notify_dead)

lemma fail_counts:
  assumes "fail pid False p es = (f, p', es')" and "unat (pr_failures p) < 5"
  shows "pr_state p' = Rejected \<or> unat (pr_failures p') = Suc (unat (pr_failures p)) \<and> unat (pr_failures p') < 5"
proof -
  have add: "unat (saturating_add (pr_failures p) 1) = Suc (unat (pr_failures p))"
    using assms(2) by (simp add: unat_saturating_add)
  then show ?thesis using assms(1)
    by (auto simp: fail_def Let_def word_le_nat_alt split: prod.splits sum.splits if_splits dest: notify_dead)
qed

definition claim_well_formed :: "ext \<Rightarrow> claim_request \<Rightarrow> string \<Rightarrow> bool" where
  "claim_well_formed X req ua \<longleftrightarrow> decode X 16 (cl_pairing_id req) \<noteq> None \<and> valid_label (cl_device_label req)
     \<and> user_agent_ok ua \<and> decode X 32 (cl_device_nonce req) \<noteq> None"

definition wrong_secret :: "ext \<Rightarrow> bytes \<Rightarrow> claim_request \<Rightarrow> bool" where
  "wrong_secret X digest req \<longleftrightarrow>
     (case decode X 32 (cl_secret req) of None \<Rightarrow> True | Some v \<Rightarrow> hash X v \<noteq> digest)"

lemma claim_at:
  assumes "claim_well_formed X req ua" and "hm_get (ps_entries ps) (cl_pairing_id req) = Some p"
    and "claim X req ua now rn rt ps es = (r, ps', es')"
  obtains dn p' where "claim_entry X (ps_login ps) req ua dn (decode X 32 (cl_secret req)) now rn rt p es = (r, p', es')"
    and "hm_get (ps_entries ps') (cl_pairing_id req) = Some p'"
  using assms by (auto simp: claim_def claim_well_formed_def with_entry_def hm_with_def split: option.splits prod.splits)

text \<open>
  A secret is good for one claim. A second claim of a pairing that is still live is refused even with
  the right secret, and rejects the pairing: neither party can go on with it.
\<close>

theorem second_claim_rejects:
  assumes "claim_well_formed X req ua" and "hm_get (ps_entries ps) (cl_pairing_id req) = Some p"
    and "pairing_ok p" and "live p" and "now < expiry p" and "pr_claim_hash p \<noteq> None"
    and "claim X req ua now rn rt ps es = (r, ps', es')"
  shows "(\<exists>f. r = Inl f) \<and> (\<exists>p'. hm_get (ps_entries ps') (cl_pairing_id req) = Some p' \<and> pr_state p' = Rejected)"
proof -
  obtain dn p' where c: "claim_entry X (ps_login ps) req ua dn (decode X 32 (cl_secret req)) now rn rt p es = (r, p', es')"
    and g: "hm_get (ps_entries ps') (cl_pairing_id req) = Some p'" by (rule claim_at [OF assms(1,2,7)])
  have "notify (cl_pairing_id req) (expire now p) es = (Inr (), p, es)"
    using assms(3-5) ok_live_silent by (simp add: expire_unexpired notify_silent)
  with c assms(4,6) have "(\<exists>f. r = Inl f) \<and> pr_state p' = Rejected"
    by (auto simp: claim_entry_def split: prod.splits if_splits dest: fail_second)
  with g show ?thesis by blast
qed

section \<open>Guessing\<close>

lemma wrong_claim:
  assumes wf: "claim_well_formed X req ua" and g: "hm_get (ps_entries ps) (cl_pairing_id req) = Some p"
    and ok: "pairing_ok p" and wrong: "wrong_secret X (pr_secret_hash p) req"
    and c: "claim X req ua now rn rt ps es = (r, ps', es')"
  obtains p' where "hm_get (ps_entries ps') (cl_pairing_id req) = Some p'" and "pairing_ok p'"
    and "pr_secret_hash p' = pr_secret_hash p"
    and "live p' \<longrightarrow> live p \<and> unat (pr_failures p') = Suc (unat (pr_failures p))"
proof -
  obtain dn p' where e: "claim_entry X (ps_login ps) req ua dn (decode X 32 (cl_secret req)) now rn rt p es = (r, p', es')"
    and g': "hm_get (ps_entries ps') (cl_pairing_id req) = Some p'" by (rule claim_at [OF wf g c])
  have step: "entry_step (cl_pairing_id req) p es p' es'" using claim_entry_step [OF e] by (simp add: op_step_def)
  obtain r1 q es1 where n: "notify (cl_pairing_id req) (expire now p) es = (r1, q, es1)"
    by (cases "notify (cl_pairing_id req) (expire now p) es")
  have "unat (pr_failures p') = Suc (unat (pr_failures p))" if l: "live p'"
  proof -
    have "live q"
    proof (rule ccontr)
      assume "\<not> live q"
      then have "p' = q" using e n by (auto simp: claim_entry_def split: sum.splits)
      with l \<open>\<not> live q\<close> show False by simp
    qed
    with n ok have q: "q = p" "es1 = es" "r1 = Inr ()" "live p"
      using notify_live_same [OF n] notify_Inr_live [OF n] ok_live_silent [OF ok] by (auto simp: expire_unexpired notify_silent)
    have f: "unat (pr_failures p) < 5" using ok \<open>live p\<close> by (simp add: pairing_ok_def)
    have "pr_claim_hash p = None"
      using e n q l by (auto simp: claim_entry_def live_iff split: if_splits prod.splits dest!: fail_second)
    then obtain ff where "fail (cl_pairing_id req) False p es = (ff, p', es')"
      using e n q wrong by (auto simp: claim_entry_def wrong_secret_def matches_def unwrap_or_def
          split: if_splits prod.splits option.splits)
    from fail_counts [OF this f] l show ?thesis by (auto simp: live_iff)
  qed
  moreover have "live p" if "live p'" using step that by (auto simp: entry_step_def live_def)
  ultimately show ?thesis using that [OF g'] step ok by (simp add: entry_step_def)
qed

text \<open>Claims that arrive one after the other, with their user agents, times and entropy.\<close>

fun claim_all ::
  "ext \<Rightarrow> (claim_request \<times> string \<times> timestamp \<times> bytes option \<times> bytes option) list
     \<Rightarrow> pairings \<times> event_sender \<Rightarrow> pairings \<times> event_sender" where
  "claim_all X [] s = s"
| "claim_all X ((req, ua, now, rn, rt) # cs) (ps, es) = claim_all X cs (snd (claim X req ua now rn rt ps es))"

lemma wrong_claims:
  assumes "\<forall>(req, ua, _) \<in> set cs. cl_pairing_id req = pid \<and> claim_well_formed X req ua \<and> wrong_secret X digest req"
    and "hm_get (ps_entries ps) pid = Some p" and "pairing_ok p" and "pr_secret_hash p = digest"
  shows "\<exists>p'. hm_get (ps_entries (fst (claim_all X cs (ps, es)))) pid = Some p' \<and> pairing_ok p'
    \<and> (live p' \<longrightarrow> live p \<and> length cs + unat (pr_failures p) \<le> unat (pr_failures p'))"
  using assms
proof (induction cs arbitrary: ps es p)
  case (Cons a cs)
  obtain req ua now rn rt where a: "a = (req, ua, now, rn, rt)" by (cases a)
  obtain r ps1 es1 where c: "claim X req ua now rn rt ps es = (r, ps1, es1)" by (cases "claim X req ua now rn rt ps es")
  have pid: "cl_pairing_id req = pid" and wf: "claim_well_formed X req ua" and wr: "wrong_secret X (pr_secret_hash p) req"
    using Cons.prems(1,4) a by auto
  obtain p1 where p1: "hm_get (ps_entries ps1) pid = Some p1" "pairing_ok p1" "pr_secret_hash p1 = digest"
    "live p1 \<longrightarrow> live p \<and> unat (pr_failures p1) = Suc (unat (pr_failures p))"
    using wrong_claim [OF wf _ Cons.prems(3) wr c] Cons.prems(2,4) pid by metis
  from Cons.IH [OF _ p1(1-3), of es1] Cons.prems(1)
  obtain p' where p': "hm_get (ps_entries (fst (claim_all X cs (ps1, es1)))) pid = Some p'" "pairing_ok p'"
    "live p' \<longrightarrow> live p1 \<and> length cs + unat (pr_failures p1) \<le> unat (pr_failures p')" by auto
  with p1(4) a c show ?case by auto
qed auto

text \<open>
  C18: five guesses. Whatever happened to a pairing before, five well-formed claims with wrong
  secrets leave it dead, whenever they come and whatever the state of the event queue.
\<close>

theorem five_wrong_claims_kill:
  assumes "pairings_inv ps polls" and "hm_get (ps_entries ps) pid = Some p" and "5 \<le> length cs"
    and "\<forall>(req, ua, _) \<in> set cs. cl_pairing_id req = pid \<and> claim_well_formed X req ua
           \<and> wrong_secret X (pr_secret_hash p) req"
  shows "\<exists>p'. hm_get (ps_entries (fst (claim_all X cs (ps, es)))) pid = Some p' \<and> \<not> live p'"
proof -
  have "pairing_ok p" using pairings_inv_get [OF assms(1,2)] by simp
  from wrong_claims [OF assms(4,2) this refl, of es]
  obtain p' where p': "hm_get (ps_entries (fst (claim_all X cs (ps, es)))) pid = Some p'" "pairing_ok p'"
    "live p' \<longrightarrow> live p \<and> length cs + unat (pr_failures p) \<le> unat (pr_failures p')" by auto
  moreover have "live p' \<longrightarrow> unat (pr_failures p') < 5" using p'(2) by (simp add: pairing_ok_def)
  ultimately show ?thesis using assms(3) by auto
qed

section \<open>Tickets and registrations\<close>

lemma ticket_expire: "pr_ticket (expire now p) = Some t \<Longrightarrow> expire now p = p \<and> pr_ticket p = Some t"
  by (auto simp: expire_def split: if_splits)

lemma consume_Inr:
  assumes "consume_ticket X pid tk now now2 started ps es = (Inr rg, ps', es')"
  obtains p t v where "hm_get (ps_entries ps) pid = Some p" "pr_state p = Approved" "now < expiry p"
    "pr_ticket p = Some t" "decode X 32 tk = Some v" "tk_hash t = hash X v" "now2 < tk_until t" "pr_label p = Some (rg_device_label rg)"
    "rg = \<lparr>rg_pairing_id = pid, rg_device_label = rg_device_label rg, rg_add_to_device = pr_add_to_device p,
           rg_started_at = started, rg_deadline = min (after started TICKET_TTL) (pr_until p)\<rparr>"
    "es' = es" "ps' = ps\<lparr>ps_entries := hm_insert pid (transition Registering (p\<lparr>pr_registration := Some rg\<rparr>)) (ps_entries ps)\<rparr>"
proof -
  obtain v where v: "decode X 32 tk = Some v"
    and w: "with_entry ps pid (consume_entry X pid v now now2 started) es = (Inr rg, ps', es')"
    using assms by (auto simp: consume_ticket_def split: option.splits)
  from w obtain p p' where p: "hm_get (ps_entries ps) pid = Some p"
      "consume_entry X pid v now now2 started p es = (Inr rg, p', es')"
      "ps' = ps\<lparr>ps_entries := hm_insert pid p' (ps_entries ps)\<rparr>"
    by (cases rule: consume.with_entry_cases) auto
  from p(2) obtain t where t: "pr_ticket (expire now p) = Some t"
    by (auto simp: consume_entry_def Let_def split: option.splits)
  have e: "expire now p = p" "pr_ticket p = Some t" using ticket_expire [OF t] by auto
  with p(2) have st: "pr_state p = Approved"
    by (auto simp: consume_entry_def Let_def split: option.splits if_splits)
  with e(1) have "now < expiry p" by (auto simp: expire_def live_def split: if_splits dest!: arg_cong [where f = pr_state])
  with st e p v show ?thesis
    by (intro that [of p t v])
      (auto simp: consume_entry_def matches_def Let_def split: option.splits if_splits)
qed

text \<open>
  A registration starts only from an approved pairing within its window, with the one ticket
  that is current and not expired; it carries the label and the target the desktop approved and
  ends at the earlier of the ticket's lifetime and the window. Starting it uses the ticket up: no
  ticket starts another registration of this pairing until it is retried.
\<close>

theorem ticket_single_use:
  assumes "consume_ticket X pid tk now now2 started ps es = (Inr rg, ps', es')"
  shows "(\<exists>p t v. hm_get (ps_entries ps) pid = Some p \<and> pr_state p = Approved \<and> now < expiry p
      \<and> pr_ticket p = Some t \<and> decode X 32 tk = Some v \<and> tk_hash t = hash X v \<and> now2 < tk_until t
      \<and> rg_pairing_id rg = pid \<and> pr_label p = Some (rg_device_label rg) \<and> rg_add_to_device rg = pr_add_to_device p
      \<and> rg_deadline rg \<le> after started TICKET_TTL \<and> rg_deadline rg \<le> pr_until p)
    \<and> fst (consume_ticket X pid tk' now' now2' started' ps' es'') = Inl INVALID"
  using assms
proof (cases rule: consume_Inr)
  case (1 p t v)
  have "pr_ticket (expire now' (transition Registering (p\<lparr>pr_registration := Some rg\<rparr>))) = None"
    by (simp add: expire_def)
  then have again: "fst (consume_ticket X pid tk' now' now2' started' ps' es'') = Inl INVALID"
    unfolding 1(11) by (auto simp: consume_ticket_def with_entry_def hm_with_def consume_entry_def Let_def split: option.splits)
  have "rg_pairing_id rg = pid \<and> rg_add_to_device rg = pr_add_to_device p
      \<and> rg_deadline rg \<le> after started TICKET_TTL \<and> rg_deadline rg \<le> pr_until p"
    by (subst (1 2 3 4) 1(9)) simp
  with 1 again show ?thesis by blast
qed

lemma expire_dead: "\<not> live p \<Longrightarrow> expire now p = p"
  by (simp add: expire_def)

lemma registration_expire:
  "pr_registration (expire now p) = Some rg \<Longrightarrow> expire now p = p \<and> pr_registration p = Some rg"
  by (auto simp: expire_def split: if_splits)

lemma finish_entry_Inr:
  assumes "finish_entry rg now commit p t = (Inr x, p', t')"
  obtains cur where "pr_registration p = Some cur" "pr_state p = Registering" "now < rg_deadline cur"
    "rg_started_at cur = rg_started_at rg" "rg_deadline cur = rg_deadline rg"
    "rg_device_label cur = rg_device_label rg" "rg_add_to_device cur = rg_add_to_device rg"
    "commit t = (Inr x, t')" "p' = transition Registered p"
proof -
  obtain cur where r: "pr_registration (expire now p) = Some cur"
    using assms by (auto simp: finish_entry_def Let_def split: option.splits)
  have e: "expire now p = p" "pr_registration p = Some cur" using registration_expire [OF r] by auto
  with assms have st: "pr_state p = Registering"
    by (auto simp: finish_entry_def Let_def split: option.splits if_splits)
  with e have "now < rg_deadline cur"
    by (auto simp: expire_def live_def expiry_def split: if_splits dest!: arg_cong [where f = pr_state])
  with assms e st show ?thesis
    by (intro that [of cur]) (auto simp: finish_entry_def Let_def split: option.splits if_splits prod.splits sum.splits)
qed

text \<open>
  A pairing registers at most one device. A successful \<open>finish\<close> ran the commit exactly
  once, on the registration the pairing is in and before its deadline; afterwards the pairing is
  registered, and no later \<open>finish\<close> on it runs a commit, whatever registration it presents.
\<close>

theorem registration_commits_once:
  assumes "finish rg now commit ps t = (Inr x, ps', t')" and "rg_pairing_id rg' = rg_pairing_id rg"
  shows "(\<exists>p p' cur. hm_get (ps_entries ps) (rg_pairing_id rg) = Some p \<and> pr_state p = Registering
      \<and> pr_registration p = Some cur \<and> now < rg_deadline cur
      \<and> rg_started_at cur = rg_started_at rg \<and> rg_device_label cur = rg_device_label rg
      \<and> rg_add_to_device cur = rg_add_to_device rg
      \<and> commit t = (Inr x, t') \<and> hm_get (ps_entries ps') (rg_pairing_id rg) = Some p' \<and> pr_state p' = Registered)
    \<and> (\<exists>ps''. finish rg' now' commit' ps' t'' = (Inl INVALID, ps'', t''))"
proof -
  from assms(1) obtain p p' where p: "hm_get (ps_entries ps) (rg_pairing_id rg) = Some p"
      "finish_entry rg now commit p t = (Inr x, p', t')"
      "ps' = ps\<lparr>ps_entries := hm_insert (rg_pairing_id rg) p' (ps_entries ps)\<rparr>"
    by (auto simp: finish_def hm_with_Inr split: prod.splits)
  from p(2) show ?thesis
  proof (cases rule: finish_entry_Inr)
    case (1 cur)
    have "expire now' (transition Registered p) = transition Registered p"
      by (simp add: expire_dead live_def)
    then have "\<exists>ps''. finish rg' now' commit' ps' t'' = (Inl INVALID, ps'', t'')"
      using p(3) 1(9) assms(2) by (simp add: finish_def hm_with_def finish_entry_def Let_def)
    then show ?thesis using p 1 by auto
  qed
qed

section \<open>The short authentication string\<close>

definition usable :: "byte \<Rightarrow> bool" where
  "usable b \<longleftrightarrow> unat b < 250"

lemma sas_take_eq:
  "length result < 6 \<Longrightarrow> sas_take bs result = take 6 (result @ map sas_digit (filter usable bs))"
proof (induction bs arbitrary: result)
  case (Cons b bs)
  consider "usable b" "length result = 5" | "usable b" "length result < 5" | "\<not> usable b"
    using Cons.prems by linarith
  then show ?case
  proof cases
    case 1
    then show ?thesis by (simp add: usable_def)
  next
    case 2
    then have "sas_take (b # bs) result = sas_take bs (result @ [sas_digit b])" by (simp add: usable_def)
    also have "\<dots> = take 6 ((result @ [sas_digit b]) @ map sas_digit (filter usable bs))"
      using 2 by (intro Cons.IH) simp
    finally show ?thesis using 2 by simp
  qed (use Cons in \<open>auto simp: usable_def\<close>)
qed simp

lemma sas_loop_eq:
  assumes "6 \<le> length (result @ map sas_digit (filter usable (concat (map block [c..<c + n]))))"
    and "c + n \<le> 2 ^ 32" and "length result < 6"
  shows "sas_loop block c result
    = Some (take 6 (result @ map sas_digit (filter usable (concat (map block [c..<c + n])))))"
  using assms
proof (induction n arbitrary: c result)
  case (Suc n)
  define A where "A = map sas_digit (filter usable (block c))"
  define B where "B = map sas_digit (filter usable (concat (map block [Suc c..<Suc c + n])))"
  have AB: "map sas_digit (filter usable (concat (map block [c..<c + Suc n]))) = A @ B"
    unfolding A_def B_def by (simp only: add_Suc_right add_Suc upt_conv_Cons [of c "Suc (c + n)"]) simp
  have st: "sas_take (block c) result = take 6 (result @ A)" using sas_take_eq [OF Suc.prems(3)] unfolding A_def .
  have c: "\<not> 2 ^ 32 \<le> c" using Suc.prems(2) by simp
  show ?case
  proof (cases "6 \<le> length (result @ A)")
    case True
    then have "take 6 (result @ A @ B) = take 6 (result @ A)" and "length (take 6 (result @ A)) = 6" by auto
    then show ?thesis unfolding AB by (subst sas_loop.simps) (simp only: st c Let_def if_True if_False simp_thms)
  next
    case False
    then have t: "take 6 (result @ A) = result @ A" and l: "length (result @ A) < 6" by auto
    have "sas_loop block (Suc c) (result @ A) = Some (take 6 ((result @ A) @ B))"
      using Suc.IH [of "result @ A" "Suc c"] Suc.prems(1,2) l unfolding AB B_def by simp
    moreover have "length (result @ A) \<noteq> 6" using l by simp
    ultimately show ?thesis unfolding AB
      by (subst sas_loop.simps) (simp only: st t c Let_def if_False Suc_eq_plus1 append_assoc)
  qed
qed simp

text \<open>
  The authentication string is the first six usable bytes of the keyed stream, as digits. If
  the first \<open>n\<close> blocks hold six bytes below 250, the loop ends with exactly those, each reduced
  to a decimal digit, whatever further blocks hold.
\<close>

theorem derive_sas_digits:
  assumes "n \<le> 2 ^ 32"
    and "6 \<le> length (filter (\<lambda>b. unat b < 250) (concat (map (sas_block X secret dn gn) [0..<n])))"
  shows "derive_sas X secret dn gn =
    Some (map (\<lambda>b. char_of (48 + unat b mod 10))
      (take 6 (filter (\<lambda>b. unat b < 250) (concat (map (sas_block X secret dn gn) [0..<n])))))"
proof -
  have u: "(\<lambda>b. unat b < 250) = usable" and d: "(\<lambda>b. char_of (48 + unat b mod 10)) = sas_digit"
    by (auto simp: usable_def sas_digit_def)
  show ?thesis
    using sas_loop_eq [of "[]" "sas_block X secret dn gn" 0 n] assms unfolding derive_sas_def u d
    by (simp add: take_map)
qed

lemma byte_unat: "n < 256 \<Longrightarrow> unat (of_nat n :: byte) = n"
  by (simp add: unat_of_nat take_bit_eq_mod)

lemma sas_preimage:
  assumes "d < 10"
  shows "{b :: byte. unat b < 250 \<and> unat b mod 10 = d} = (\<lambda>k. of_nat (10 * k + d)) ` {..<25}"
proof (intro equalityI subsetI)
  fix b :: byte assume "b \<in> {b. unat b < 250 \<and> unat b mod 10 = d}"
  then have "unat b div 10 < 25" "10 * (unat b div 10) + d = unat b" by auto
  then show "b \<in> (\<lambda>k. of_nat (10 * k + d)) ` {..<25}"
    by (intro image_eqI [of _ _ "unat b div 10"]) (auto simp flip: of_nat_mult of_nat_add)
next
  fix b :: byte assume "b \<in> (\<lambda>k. of_nat (10 * k + d)) ` {..<25}"
  then obtain k where k: "k < 25" "b = of_nat (10 * k + d)" by auto
  with assms have "unat b = 10 * k + d" using byte_unat [of "10 * k + d"] by simp
  with k assms show "b \<in> {b. unat b < 250 \<and> unat b mod 10 = d}" by auto
qed

text \<open>
  The digits are unbiased: every decimal digit is the image of exactly 25 of the 250 usable
  byte values.
\<close>

theorem sas_digit_unbiased:
  fixes d :: nat
  assumes "d < 10"
  shows "card {b :: byte. unat b < 250 \<and> sas_digit b = char_of (48 + d)} = 25"
proof -
  have "sas_digit b = char_of (48 + d) \<longleftrightarrow> unat b mod 10 = d" for b
  proof -
    have "(of_char (char_of (48 + unat b mod 10) :: char) :: nat) = 48 + unat b mod 10"
      and "(of_char (char_of (48 + d) :: char) :: nat) = 48 + d"
      using assms by (auto simp: take_bit_eq_mod)
    then show ?thesis unfolding sas_digit_def by (metis add_left_cancel)
  qed
  moreover have "inj_on (\<lambda>k. of_nat (10 * k + d) :: byte) {..<25}"
  proof (rule inj_onI)
    fix k l assume "k \<in> {..<25::nat}" "l \<in> {..<25}" "(of_nat (10 * k + d) :: byte) = of_nat (10 * l + d)"
    then have "unat (of_nat (10 * k + d) :: byte) = unat (of_nat (10 * l + d) :: byte)" by simp
    with \<open>k \<in> _\<close> \<open>l \<in> _\<close> assms show "k = l"
      using byte_unat [of "10 * k + d"] byte_unat [of "10 * l + d"] by simp
  qed
  ultimately show ?thesis using sas_preimage [OF assms] by (simp add: card_image)
qed

section \<open>The whole protocol\<close>

lemma emit_pairing:
  assumes "\<not> es_closed es" and "0 < es_capacity es" and "\<not> ordinary e"
  shows "try_emit_event es e = (Inr (), es_push es \<lparr>qe_event = e, qe_ack = False, qe_audit = False\<rparr>)"
  using assms by (simp add: try_emit_event_def try_emit_def)

lemma push_capacity [simp]:
  "es_closed (es_push es q) = es_closed es" "es_capacity (es_push es q) = es_capacity es - 1"
  by (simp_all add: es_push_def es_capacity_def)

lemma pairing_events [simp]:
  "\<not> ordinary (PairingCreated pid url t)" "\<not> ordinary (PairingClaimed pid l sas lg ua)" "\<not> ordinary (PairingState pid st r)"
  by (simp_all add: ordinary_def)

lemma maintenance_quiet:
  assumes "ps_entries ps = [(pid, p)]" and "now < expiry p" and "pr_notification p = None"
  shows "pairings_maintenance (\<lambda>_. now) ps es = (ps, es)"
  using assms by (simp add: pairings_maintenance_def expire_unexpired notify_silent)

abbreviation lifecycle_push :: "event_sender \<Rightarrow> event \<Rightarrow> event_sender" where
  "lifecycle_push es e \<equiv> es_push es \<lparr>qe_event = e, qe_ack = False, qe_audit = False\<rparr>"

text \<open>Each handler's successful run on one entry.\<close>

lemma claim_entry_ok:
  assumes "live p" "now < expiry p" "pr_notification p = None" "pr_claim_hash p = None" "pr_secret p = Some secret"
    and "pr_secret_hash p = hash X secret" "derive_sas X secret dn gn = Some sas" "\<not> es_closed es" "0 < es_capacity es"
  shows "claim_entry X login req ua dn (Some secret) now (Some gn) (Some tok) p es =
    (Inr (Some \<lparr>cp_gateway_nonce = encode X gn, cp_sas = sas, cp_claim_token = encode X tok\<rparr>),
     p\<lparr>pr_claim_hash := Some (hash X tok), pr_label := Some (cl_device_label req), pr_secret := None\<rparr>,
     lifecycle_push es (PairingClaimed (cl_pairing_id req) (cl_device_label req) sas login ua))"
  using assms by (simp add: claim_entry_def expire_unexpired notify_silent unwrap_or_def emit_pairing)

lemma approve_ok:
  assumes "pr_state p = Pending" "now < expiry p" "pr_claim_hash p \<noteq> None" "\<not> es_closed es" "0 < es_capacity es"
  shows "decide pid Approved reason now p es =
    (Inr Applied, transition Approved (p\<lparr>pr_until := after now REGISTRATION_WINDOW\<rparr>),
     lifecycle_push es (PairingState pid ''approved'' reason))"
  using assms by (simp add: decide_def expire_unexpired live_def emit_pairing Let_def)

lemma authenticate_ok:
  assumes "decode X 32 (sq_claim_token req) = Some tok" and "pr_claim_hash p = Some (hash X tok)"
  shows "authenticate_entry X req p es = (Inr (), p, es)"
  using assms by (simp add: authenticate_entry_def unwrap_or_def)

lemma status_begin_ok:
  assumes "decode X 32 (sq_claim_token req) = Some tok" "pr_claim_hash p = Some (hash X tok)" "now < expiry p"
    and "pr_polls p = 1" "0 < n"
  shows "status_begin_entry X req now n p es = (Inr (pr_changed p, pr_until p), p\<lparr>pr_polls := 0\<rparr>, es)"
  using assms by (simp add: status_begin_entry_def expire_unexpired authenticate_ok)

lemma status_finish_ok:
  assumes "decode X 32 (sq_claim_token req) = Some tok" "pr_claim_hash p = Some (hash X tok)" "now < expiry p"
    and "pr_notification p = None" "pr_state p = Approved"
  shows "status_finish_entry X req now now2 (Some tk) p es =
    (Inr \<lparr>sp_state = Approved, sp_registration_ticket = Some (encode X tk)\<rparr>,
     p\<lparr>pr_ticket := Some \<lparr>tk_hash = hash X tk, tk_until = min (after now2 TICKET_TTL) (pr_until p)\<rparr>\<rparr>, es)"
  using assms by (simp add: status_finish_entry_def expire_unexpired authenticate_ok notify_silent)

lemma consume_ok:
  assumes "pr_ticket p = Some t" "tk_hash t = hash X v" "now < expiry p" "now2 < tk_until t" "pr_state p = Approved"
    and "pr_label p = Some label"
    and "rg = \<lparr>rg_pairing_id = pid, rg_device_label = label, rg_add_to_device = pr_add_to_device p,
           rg_started_at = started, rg_deadline = min (after started TICKET_TTL) (pr_until p)\<rparr>"
  shows "consume_entry X pid v now now2 started p es = (Inr rg, transition Registering (p\<lparr>pr_registration := Some rg\<rparr>), es)"
  using assms by (simp add: consume_entry_def expire_unexpired Let_def)

lemma finish_ok:
  assumes "pr_registration p = Some rg" "pr_state p = Registering" "now < rg_deadline rg" "commit t = (Inr x, t')"
  shows "finish_entry rg now commit p t = (Inr x, transition Registered p, t')"
  using assms by (simp add: finish_entry_def expire_unexpired expiry_def Let_def)

lemma create_ok:
  assumes "case add of None \<Rightarrow> True | Some d \<Rightarrow> decode X 16 d \<noteq> None" "\<not> es_closed es" "0 < es_capacity es"
  shows "pairings_command X nows now (Some idb) (Some secret) (PairingCreate ''tailscale'' add) (pairings_new host login) es =
    (Inr Applied, (pairings_new host login)\<lparr>ps_entries := [(encode X idb, new_pairing X add secret (after now PAIRING_TTL))]\<rparr>,
     lifecycle_push es (PairingCreated (encode X idb)
       (''https://'' @ host @ ''/pair#p='' @ encode X idb @ ''.'' @ encode X secret) (after now PAIRING_TTL)))"
  using assms
  by (auto simp: pairings_command_def pairings_maintenance_def pairings_new_def pairing_create_def evict_def emit_pairing
      MAX_LIVE_def MAX_RECORDS_def Let_def split: option.splits)

text \<open>
  C39: the protocol completes. Take a fresh gateway whose event queue is open and has room for three
  events, random bytes that are drawn, and a secret and nonces of whose keyed stream some first \<open>n\<close> blocks,
  no more than the counter has values, hold six bytes below 250. Then a pairing created at \<open>t0\<close>, claimed
  with its secret before its five minutes are over, approved, polled, and registered within the ticket's
  two minutes goes through every step: the loop of the authentication string ends, the claim returns the
  string shown to the desktop, the poll returns a ticket, the ticket starts a registration with
  the claimed label, and the commit of the caller runs and leaves the pairing registered.
\<close>

theorem pairing_completes:
  fixes commit :: "event_sender \<Rightarrow> (failure + string) \<times> event_sender"
  assumes X: "b64_fits X" and len: "length idb = 16" "length secret = 32" "length dn = 32" "length tok = 32" "length tk = 32"
    and label: "valid_label label" and ua: "user_agent_ok ua" and blocks: "n \<le> 2 ^ 32"
      "6 \<le> length (filter (\<lambda>b. unat b < 250) (concat (map (sas_block X secret dn gn) [0..<n])))"
    and add: "case add of None \<Rightarrow> True | Some d \<Rightarrow> decode X 16 d \<noteq> None"
    and room: "\<not> es_closed es" "3 \<le> es_capacity es"
    and time: "t1 < after t0 PAIRING_TTL" "t2 < after t0 PAIRING_TTL" "t3 < after t2 REGISTRATION_WINDOW"
      "t4 < after t2 REGISTRATION_WINDOW" "t4 < after t3 TICKET_TTL" "t5 < after t4 TICKET_TTL" "t5 < after t2 REGISTRATION_WINDOW"
  shows "\<exists>sas ps1 ps2 ps3 ps4 ps5 ps6 ps7 es1 es2 es3 h rg p. derive_sas X secret dn gn = Some sas
    \<and> pairings_command X (\<lambda>_. t0) t0 (Some idb) (Some secret) (PairingCreate ''tailscale'' add) (pairings_new host login) es
        = (Inr Applied, ps1, es1)
    \<and> claim X \<lparr>cl_pairing_id = encode X idb, cl_secret = encode X secret, cl_device_label = label, cl_device_nonce = encode X dn\<rparr>
        ua t1 (Some gn) (Some tok) ps1 es1
        = (Inr (Some \<lparr>cp_gateway_nonce = encode X gn, cp_sas = sas, cp_claim_token = encode X tok\<rparr>), ps2, es2)
    \<and> pairings_command X (\<lambda>_. t2) t2 None None (PairingApprove (encode X idb)) ps2 es2 = (Inr Applied, ps3, es3)
    \<and> status_begin X \<lparr>sq_pairing_id = encode X idb, sq_claim_token = encode X tok\<rparr> t3 ps3 es3 = (Inr h, ps4, es3)
    \<and> status_finish X \<lparr>sq_pairing_id = encode X idb, sq_claim_token = encode X tok\<rparr> t3 t3 (Some tk) ps4 es3
        = (Inr \<lparr>sp_state = Approved, sp_registration_ticket = Some (encode X tk)\<rparr>, ps5, es3)
    \<and> consume_ticket X (encode X idb) (encode X tk) t4 t4 t4 (status_release (encode X idb) ps5) es3 = (Inr rg, ps6, es3)
    \<and> rg_device_label rg = label \<and> rg_add_to_device rg = add
    \<and> (\<forall>x es4. commit es3 = (Inr x, es4) \<longrightarrow> finish rg t5 commit ps6 es3 = (Inr x, ps7, es4))
    \<and> hm_get (ps_entries ps7) (encode X idb) = Some p \<and> pr_state p = Registered
    \<and> es_log es3 = es_log es @ [PairingCreated (encode X idb) (''https://'' @ host @ ''/pair#p='' @ encode X idb @ ''.'' @ encode X secret) (after t0 PAIRING_TTL),
        PairingClaimed (encode X idb) label sas login ua, PairingState (encode X idb) ''approved'' ''approved'']"
proof -
  note dec = decode_encode [OF X]
  obtain sas where sas: "derive_sas X secret dn gn = Some sas" using derive_sas_digits [OF blocks] by blast
  let ?pid = "encode X idb"
  define p1 where "p1 = new_pairing X add secret (after t0 PAIRING_TTL)"
  define es1 where "es1 = lifecycle_push es (PairingCreated ?pid
    (''https://'' @ host @ ''/pair#p='' @ ?pid @ ''.'' @ encode X secret) (after t0 PAIRING_TTL))"
  define p2 where "p2 = p1\<lparr>pr_claim_hash := Some (hash X tok), pr_label := Some label, pr_secret := None\<rparr>"
  define es2 where "es2 = lifecycle_push es1 (PairingClaimed ?pid label sas login ua)"
  define p3 where "p3 = transition Approved (p2\<lparr>pr_until := after t2 REGISTRATION_WINDOW\<rparr>)"
  define es3 where "es3 = lifecycle_push es2 (PairingState ?pid ''approved'' ''approved'')"
  define p5 where "p5 = p3\<lparr>pr_ticket := Some \<lparr>tk_hash = hash X tk, tk_until = min (after t3 TICKET_TTL) (pr_until p3)\<rparr>\<rparr>"
  define rg where "rg = \<lparr>rg_pairing_id = ?pid, rg_device_label = label, rg_add_to_device = add, rg_started_at = t4,
      rg_deadline = min (after t4 TICKET_TTL) (pr_until p3)\<rparr>"
  define p6 where "p6 = transition Registering (p5\<lparr>pr_registration := Some rg\<rparr>)"
  define T where "T p n = \<lparr>ps_entries = [(?pid, p)], ps_polls = n, ps_origin = ''https://'' @ host, ps_login = login\<rparr>" for p n
  note ps = p1_def p2_def p3_def p5_def p6_def new_pairing_def
  note table = T_def with_entry_def hm_with_def
  have room1: "\<not> es_closed es1" "0 < es_capacity es1" "\<not> es_closed es2" "0 < es_capacity es2"
    using room by (simp_all add: es1_def es2_def)
  have s1: "pairings_command X (\<lambda>_. t0) t0 (Some idb) (Some secret) (PairingCreate ''tailscale'' add) (pairings_new host login) es
      = (Inr Applied, T p1 8, es1)"
    using create_ok [OF add, of es "\<lambda>_. t0" t0 idb secret host login] room by (simp add: T_def es1_def p1_def pairings_new_def)
  have s2: "claim X \<lparr>cl_pairing_id = ?pid, cl_secret = encode X secret, cl_device_label = label, cl_device_nonce = encode X dn\<rparr>
      ua t1 (Some gn) (Some tok) (T p1 8) es1
      = (Inr (Some \<lparr>cp_gateway_nonce = encode X gn, cp_sas = sas, cp_claim_token = encode X tok\<rparr>), T p2 8, es2)"
    using len label ua sas room1 time(1)
    by (simp add: claim_def dec table claim_entry_ok ps live_def expiry_def es2_def)
  have quiet: "pairings_maintenance (\<lambda>_. t2) (T p2 8) es2 = (T p2 8, es2)"
    using time(2) by (intro maintenance_quiet [where p = p2]) (simp_all add: T_def ps expiry_def)
  have s3: "pairings_command X (\<lambda>_. t2) t2 None None (PairingApprove ?pid) (T p2 8) es2 = (Inr Applied, T p3 8, es3)"
    using len room1 time(2) approve_ok [of p2 t2 es2 ?pid "''approved''"]
    unfolding pairings_command_def quiet by (simp add: dec Let_def table ps expiry_def es3_def)
  have s4: "status_begin X \<lparr>sq_pairing_id = ?pid, sq_claim_token = encode X tok\<rparr> t3 (T p3 8) es3
      = (Inr (pr_changed p3, pr_until p3), T (p3\<lparr>pr_polls := 0\<rparr>) 7, es3)"
    using len time(3) by (simp add: status_begin_def table dec status_begin_ok [where tok = tok] ps expiry_def)
  have s5: "status_finish X \<lparr>sq_pairing_id = ?pid, sq_claim_token = encode X tok\<rparr> t3 t3 (Some tk) (T (p3\<lparr>pr_polls := 0\<rparr>) 7) es3
      = (Inr \<lparr>sp_state = Approved, sp_registration_ticket = Some (encode X tk)\<rparr>, T (p5\<lparr>pr_polls := 0\<rparr>) 7, es3)"
    using len time(3) by (simp add: status_finish_def table dec status_finish_ok [where tok = tok] ps expiry_def)
  have rel: "status_release ?pid (T (p5\<lparr>pr_polls := 0\<rparr>) 7) = T p5 8" by (simp add: status_release_def T_def ps)
  have s6: "consume_ticket X ?pid (encode X tk) t4 t4 t4 (T p5 8) es3 = (Inr rg, T p6 8, es3)"
    using len time(4,5) consume_ok [where p = p5 and rg = rg and X = X and v = tk and now = t4]
    by (simp add: consume_ticket_def table dec ps expiry_def rg_def)
  have s7: "finish rg t5 commit (T p6 8) es3 = (Inr x, T (transition Registered p6) 8, es4)" if "commit es3 = (Inr x, es4)" for x es4
    using that time(6,7) by (simp add: finish_def table finish_ok ps rg_def)
  have reg: "hm_get (ps_entries (T (transition Registered p6) 8)) ?pid = Some (transition Registered p6)" by (simp add: T_def)
  have log: "es_log es3 = es_log es @ [PairingCreated ?pid (''https://'' @ host @ ''/pair#p='' @ ?pid @ ''.'' @ encode X secret) (after t0 PAIRING_TTL),
        PairingClaimed ?pid label sas login ua, PairingState ?pid ''approved'' ''approved'']"
    unfolding es3_def es2_def es1_def es_log_push by simp
  have "rg_device_label rg = label" "rg_add_to_device rg = add" "pr_state (transition Registered p6) = Registered"
    by (simp_all add: rg_def)
  then show ?thesis using sas s1 s2 s3 s4 s5 s6 [folded rel] s7 reg log by blast
qed

section \<open>A concrete run\<close>

definition demo_pid :: string where "demo_pid = encode demo_ext (replicate 16 1)"
definition demo_secret :: bytes where "demo_secret = replicate 32 2"
definition demo_token :: bytes where "demo_token = replicate 32 3"
definition demo_nonce :: bytes where "demo_nonce = replicate 32 4"
definition demo_ticket :: bytes where "demo_ticket = replicate 32 5"

definition demo_table :: "pairing \<Rightarrow> pairings" where
  "demo_table p = (pairings_new ''desk'' ''me'')\<lparr>ps_entries := [(demo_pid, p)]\<rparr>"

definition demo_created :: pairing where
  "demo_created = new_pairing demo_ext None demo_secret (after 0 PAIRING_TTL)"

definition demo_claimed :: pairing where
  "demo_claimed = demo_created\<lparr>pr_claim_hash := Some (hash demo_ext demo_token), pr_label := Some ''Phone'', pr_secret := None\<rparr>"

definition demo_ticketed :: pairing where
  "demo_ticketed = (transition Approved demo_claimed)\<lparr>pr_until := 1000, pr_ticket := Some \<lparr>tk_hash = hash demo_ext demo_ticket, tk_until = 500\<rparr>\<rparr>"

definition demo_registration :: registration where
  "demo_registration = \<lparr>rg_pairing_id = demo_pid, rg_device_label = ''Phone'', rg_add_to_device = None, rg_started_at = 400,
     rg_deadline = min (after 400 TICKET_TTL) 1000\<rparr>"

definition demo_registering :: pairing where
  "demo_registering = transition Registering (demo_ticketed\<lparr>pr_registration := Some demo_registration\<rparr>)"

definition demo_claim :: "bytes \<Rightarrow> claim_request" where
  "demo_claim secret = \<lparr>cl_pairing_id = demo_pid, cl_secret = encode demo_ext secret, cl_device_label = ''Phone'',
     cl_device_nonce = encode demo_ext demo_nonce\<rparr>"

lemmas demo_pairing_defs = demo_created_def demo_claimed_def demo_ticketed_def demo_registering_def demo_registration_def
  new_pairing_def PAIRING_TTL_def TICKET_TTL_def from_secs_def after_def

lemma demo_lengths [simp]:
  "length demo_secret = 32" "length demo_token = 32" "length demo_nonce = 32" "length demo_ticket = 32"
  by (simp_all add: demo_secret_def demo_token_def demo_nonce_def demo_ticket_def)

lemma demo_decode_encode [simp]: "length bs = n \<Longrightarrow> decode demo_ext n (encode demo_ext bs) = Some bs"
  by (rule decode_encode [OF demo_fits])

lemma demo_pid_decode [simp]: "decode demo_ext 16 demo_pid = Some (replicate 16 1)"
  by (simp add: demo_pid_def)

lemma demo_hash [simp]: "length bs = 32 \<Longrightarrow> hash demo_ext bs = bs"
  by (simp add: hash_def demo_ext_def demo_digest_def)

lemma demo_room: "\<not> es_closed spawn_writer" "3 \<le> es_capacity spawn_writer" "0 < es_capacity spawn_writer"
  by (simp_all add: spawn_writer_def es_capacity_def queue_consts)

lemma demo_block: "sas_block demo_ext demo_secret dn gn 0 = replicate 32 2"
  by (simp add: sas_block_def demo_ext_def demo_digest_def demo_secret_def)

lemma replicate_six: "replicate 6 x = [x, x, x, x, x, x]"
  by (simp add: eval_nat_numeral)

lemma demo_sas: "derive_sas demo_ext demo_secret dn gn = Some ''222222''"
proof -
  have "sas_take (replicate 32 2) [] = replicate 6 (sas_digit 2)" by (simp add: sas_take_eq usable_def)
  also have "\<dots> = ''222222''"
    using replicate_six [of "sas_digit 2"] by (simp add: sas_digit_def char_of_def bit_0)
  finally have "sas_take (replicate 32 2) [] = ''222222''" .
  then show ?thesis unfolding derive_sas_def by (subst sas_loop.simps) (simp add: demo_block Let_def)
qed

lemma demo_well_formed: "claim_well_formed demo_ext (demo_claim secret) ''Phone''"
  using demo_label_valid by (simp add: claim_well_formed_def demo_claim_def user_agent_ok_def)

lemma demo_table_get [simp]: "hm_get (ps_entries (demo_table p)) demo_pid = Some p"
  by (simp add: demo_table_def)

lemma demo_table_inv: "pairing_ok p \<Longrightarrow> pr_polls p = 1 \<Longrightarrow> pairings_inv (demo_table p) []"
  by (simp add: pairings_inv_def demo_table_def pairings_new_def MAX_LIVE_def MAX_RECORDS_def hm_wf_def hm_count_def)

lemma demo_created_inv: "pairings_inv (demo_table demo_created) []"
  by (rule demo_table_inv) (simp_all add: demo_created_def new_pairing_ok, simp add: new_pairing_def)

lemma demo_claim_runs:
  "claim demo_ext (demo_claim demo_secret) ''Phone'' 7 (Some demo_nonce) (Some demo_token) (demo_table demo_created) spawn_writer
    = (Inr (Some \<lparr>cp_gateway_nonce = encode demo_ext demo_nonce, cp_sas = ''222222'', cp_claim_token = encode demo_ext demo_token\<rparr>),
       demo_table demo_claimed, lifecycle_push spawn_writer (PairingClaimed demo_pid ''Phone'' ''222222'' ''me'' ''Phone''))"
  using demo_label_valid demo_room
  by (simp add: claim_def with_entry_def hm_with_def claim_entry_ok demo_sas demo_pairing_defs live_def expiry_def
      user_agent_ok_def demo_claim_def demo_table_def pairings_new_def)



lemma demo_create_runs:
  "pairings_command demo_ext (\<lambda>_. 0) 0 (Some (replicate 16 1)) (Some demo_secret) (PairingCreate ''tailscale'' None)
     (pairings_new ''desk'' ''me'') spawn_writer
   = (Inr Applied, demo_table demo_created, lifecycle_push spawn_writer (PairingCreated demo_pid
        (''https://desk/pair#p='' @ demo_pid @ ''.'' @ encode demo_ext demo_secret) (after 0 PAIRING_TTL)))"
  using demo_room by (simp add: create_ok demo_table_def demo_created_def demo_pid_def)

lemma demo_reach_created: "preach demo_ext (demo_table demo_created, lifecycle_push spawn_writer (PairingCreated demo_pid
        (''https://desk/pair#p='' @ demo_pid @ ''.'' @ encode demo_ext demo_secret) (after 0 PAIRING_TTL)), [])"
  by (rule p_more [OF p_start p_command [OF demo_create_runs]]) (simp add: fresh_id_def pairings_new_def)

theorem pairing_table_invariant_witness:
  "hm_count live (ps_entries (demo_table demo_created)) \<le> 4 \<and> unat (pr_failures demo_created) < 5 \<and> pr_claim_hash demo_created = None"
proof -
  have "live demo_created" "pr_secret demo_created \<noteq> None" by (simp_all add: demo_pairing_defs live_def)
  then show ?thesis using pairing_table_invariant [OF demo_reach_created] demo_table_get by blast
qed

theorem pairing_provenance_witness:
  "\<exists>url until. PairingCreated demo_pid url until \<in> set (es_log (snd (snd (pairings_command demo_ext (\<lambda>_. 0) 0
     (Some (replicate 16 1)) (Some demo_secret) (PairingCreate ''tailscale'' None) (pairings_new ''desk'' ''me'') spawn_writer))))"
proof -
  from pairing_provenance [OF demo_reach_created demo_table_get] show ?thesis unfolding demo_create_runs by simp
qed

theorem claim_sound_witness:
  "hash demo_ext demo_secret = pr_secret_hash demo_created \<and> live demo_created"
  using claim_sound [OF demo_created_inv demo_claim_runs] by (auto simp: demo_claim_def)

lemma demo_claimed_ok: "pairing_ok demo_claimed" "live demo_claimed" "7 < expiry demo_claimed" "pr_claim_hash demo_claimed \<noteq> None"
  by (simp_all add: demo_pairing_defs pairing_ok_def live_def approvedish_def expiry_def)

theorem second_claim_rejects_witness:
  "\<exists>p. hm_get (ps_entries (fst (snd (claim demo_ext (demo_claim demo_secret) ''Phone'' 7 (Some demo_nonce) (Some demo_token)
     (demo_table demo_claimed) spawn_writer)))) demo_pid = Some p \<and> pr_state p = Rejected"
proof -
  obtain r ps es where c: "claim demo_ext (demo_claim demo_secret) ''Phone'' 7 (Some demo_nonce) (Some demo_token)
     (demo_table demo_claimed) spawn_writer = (r, ps, es)"
    by (cases "claim demo_ext (demo_claim demo_secret) ''Phone'' 7 (Some demo_nonce) (Some demo_token)
      (demo_table demo_claimed) spawn_writer")
  have "hm_get (ps_entries (demo_table demo_claimed)) (cl_pairing_id (demo_claim demo_secret)) = Some demo_claimed"
    by (simp add: demo_claim_def)
  from second_claim_rejects [OF demo_well_formed this demo_claimed_ok c] c show ?thesis by (simp add: demo_claim_def)
qed

theorem five_wrong_claims_kill_witness:
  "\<exists>p. hm_get (ps_entries (fst (claim_all demo_ext (replicate 5 (demo_claim demo_token, ''Phone'', 7, None, None))
     (demo_table demo_created, spawn_writer)))) demo_pid = Some p \<and> \<not> live p"
proof -
  have "wrong_secret demo_ext (pr_secret_hash demo_created) (demo_claim demo_token)"
    by (simp add: wrong_secret_def demo_claim_def demo_pairing_defs) (simp add: demo_secret_def demo_token_def)
  then show ?thesis using demo_well_formed
    by (intro five_wrong_claims_kill [OF demo_created_inv demo_table_get]) (auto simp: demo_claim_def)
qed

lemma demo_consume_runs:
  "consume_ticket demo_ext demo_pid (encode demo_ext demo_ticket) 400 400 400 (demo_table demo_ticketed) spawn_writer
    = (Inr demo_registration, demo_table demo_registering, spawn_writer)"
  using consume_ok [where p = demo_ticketed and rg = demo_registration and X = demo_ext and v = demo_ticket and now = 400]
  by (simp add: consume_ticket_def with_entry_def hm_with_def demo_table_def demo_pairing_defs expiry_def)

theorem ticket_single_use_witness:
  "pr_state demo_ticketed = Approved
    \<and> fst (consume_ticket demo_ext demo_pid (encode demo_ext demo_ticket) 410 410 410 (demo_table demo_registering) spawn_writer) = Inl INVALID"
  using ticket_single_use [OF demo_consume_runs] by auto

lemma demo_finish_runs:
  "finish demo_registration 410 (\<lambda>t. (Inr ''device'', Suc t)) (demo_table demo_registering) 0
    = (Inr ''device'', demo_table (transition Registered demo_registering), 1)"
  by (simp add: finish_def hm_with_def demo_table_def finish_ok demo_pairing_defs)

theorem registration_commits_once_witness:
  "(\<exists>ps. finish demo_registration 411 (\<lambda>t. (Inr ''device'', Suc t)) (demo_table (transition Registered demo_registering)) 1
     = (Inl INVALID, ps, 1))"
  by (rule registration_commits_once [OF demo_finish_runs refl, THEN conjunct2])

theorem derive_sas_digits_witness:
  "derive_sas demo_ext demo_secret demo_nonce demo_nonce = Some (replicate 6 (char_of (48 + (2 :: nat))))"
  using derive_sas_digits [of 1 demo_ext demo_secret demo_nonce demo_nonce] by (simp add: demo_block)

theorem sas_digit_unbiased_witness: "card {b :: byte. unat b < 250 \<and> sas_digit b = char_of (48 + 7 :: nat)} = 25"
  using sas_digit_unbiased [of 7] by simp

theorem pairing_completes_witness:
  "\<exists>ps1 ps6 ps7 es1 es3 rg p. pairings_command demo_ext (\<lambda>_. 0) 0 (Some (replicate 16 1)) (Some demo_secret)
       (PairingCreate ''tailscale'' None) (pairings_new ''desk'' ''me'') spawn_writer = (Inr Applied, ps1, es1)
     \<and> finish rg 5 (\<lambda>es :: event_sender. (Inr ''device'', es)) ps6 es3 = (Inr ''device'', ps7, es3)
     \<and> hm_get (ps_entries ps7) (encode demo_ext (replicate 16 1)) = Some p \<and> pr_state p = Registered"
proof -
  have t: "(1::timestamp) < after 0 PAIRING_TTL" "(2::timestamp) < after 0 PAIRING_TTL" "(3::timestamp) < after 2 REGISTRATION_WINDOW"
      "(4::timestamp) < after 2 REGISTRATION_WINDOW" "(4::timestamp) < after 3 TICKET_TTL" "(5::timestamp) < after 4 TICKET_TTL"
      "(5::timestamp) < after 2 REGISTRATION_WINDOW"
    by (simp_all add: after_def PAIRING_TTL_def TICKET_TTL_def REGISTRATION_WINDOW_def from_secs_def)
  have ua: "user_agent_ok ''Phone''" by (simp add: user_agent_ok_def)
  have blocks: "(1::nat) \<le> 2 ^ 32" "6 \<le> length (filter (\<lambda>b. unat b < 250) (concat (map (sas_block demo_ext demo_secret demo_nonce demo_nonce) [0..<1])))"
    by (simp_all add: demo_block)
  have l: "length (replicate 16 (1 :: byte)) = 16" and add: "case None of None \<Rightarrow> True | Some d \<Rightarrow> decode demo_ext 16 d \<noteq> None"
    by simp_all
  note run = pairing_completes [where idb = "replicate 16 1" and add = None and dn = demo_nonce and gn = demo_nonce
        and host = "''desk''" and login = "''me''" and commit = "\<lambda>es. (Inr ''device'', es)",
        OF demo_fits l demo_lengths(1,3,2,4) demo_label_valid ua blocks add demo_room(1,2) t]
  from run show ?thesis
  proof (elim exE conjE, goal_cases)
    case (1 sas ps1 ps2 ps3 ps4 ps5 ps6 ps7 es1 es2 es3 h rg p)
    have "finish rg 5 (\<lambda>es. (Inr ''device'', es)) ps6 es3 = (Inr ''device'', ps7, es3)" using 1(10) by simp
    then show ?case using 1(2,11,12) by blast
  qed
qed

end
