(* ===== verification/Webauthn_Props.thy ===== *)
theory Webauthn_Props
  imports Webauthn Pairing_Security
begin

text \<open>
  The ceremony table keeps its three pools within their limits and apart from each other, and a
  challenge is answered at most once, by the party it was issued to.
\<close>

section \<open>The invariant of the table\<close>

abbreviation ce_get :: "ceremonies \<Rightarrow> challenge \<Rightarrow> ceremony option" where
  "ce_get ce k \<equiv> hm_get (ce_entries ce) k"

abbreviation is_registration :: "ceremony \<Rightarrow> bool" where
  "is_registration c \<equiv> registration_of (cm_kind c) \<noteq> None"

abbreviation is_elevation :: "ceremony \<Rightarrow> bool" where
  "is_elevation c \<equiv> elevation_of (cm_kind c) \<noteq> None"

abbreviation is_login :: "ceremony \<Rightarrow> bool" where
  "is_login c \<equiv> login_kind (cm_kind c)"

definition login_ordered :: "ceremonies \<Rightarrow> bool" where
  "login_ordered ce \<longleftrightarrow> (\<forall>k c. ce_get ce k = Some c \<longrightarrow> is_login c = (k \<in> set (ce_login_order ce)))"

definition one_each :: "(ceremony_kind \<Rightarrow> 'a option) \<Rightarrow> ceremonies \<Rightarrow> bool" where
  "one_each f ce \<longleftrightarrow> (\<forall>k c k' c'. ce_get ce k = Some c \<longrightarrow> ce_get ce k' = Some c' \<longrightarrow> f (cm_kind c) \<noteq> None \<longrightarrow>
     f (cm_kind c) = f (cm_kind c') \<longrightarrow> k = k')"

definition ceremonies_inv :: "ceremonies \<Rightarrow> bool" where
  "ceremonies_inv ce \<longleftrightarrow>
     hm_wf (ce_entries ce) \<and> distinct (ce_login_order ce) \<and> length (ce_login_order ce) \<le> LOGIN_LIMIT
     \<and> login_ordered ce \<and> one_each registration_of ce \<and> one_each elevation_of ce
     \<and> hm_count is_registration (ce_entries ce) \<le> REGISTRATION_LIMIT
     \<and> hm_count is_elevation (ce_entries ce) \<le> ce_elevation_limit ce"

lemma one_each_mono:
  "one_each f ce \<Longrightarrow> (\<And>k c. ce_get ce' k = Some c \<Longrightarrow> ce_get ce k = Some c) \<Longrightarrow> one_each f ce'"
  unfolding one_each_def by blast

lemma one_each_insert:
  assumes "one_each f ce" and "\<And>k v. ce_get ce k = Some v \<Longrightarrow> f (cm_kind c) \<noteq> None \<Longrightarrow> f (cm_kind v) \<noteq> f (cm_kind c)"
    and "ce_entries ce' = hm_insert key c (ce_entries ce)"
  shows "one_each f ce'"
  using assms unfolding one_each_def by (auto split: if_splits)

text \<open>Dropping entries, with the login order shortened along, keeps the invariant.\<close>

definition ce_shrinks :: "ceremonies \<Rightarrow> ceremonies \<Rightarrow> bool" where
  "ce_shrinks ce ce' \<longleftrightarrow> ce_elevation_limit ce' = ce_elevation_limit ce
     \<and> (hm_wf (ce_entries ce) \<and> distinct (ce_login_order ce) \<longrightarrow>
        hm_wf (ce_entries ce') \<and> distinct (ce_login_order ce')
        \<and> (\<forall>P. hm_count P (ce_entries ce') \<le> hm_count P (ce_entries ce))
        \<and> length (ce_login_order ce') \<le> length (ce_login_order ce)
        \<and> (\<forall>k c. ce_get ce' k = Some c \<longrightarrow> ce_get ce k = Some c
             \<and> (k \<in> set (ce_login_order ce') \<longleftrightarrow> k \<in> set (ce_login_order ce))))"

lemma ce_shrinks_trans: "ce_shrinks a b \<Longrightarrow> ce_shrinks b c \<Longrightarrow> ce_shrinks a c"
  unfolding ce_shrinks_def by (auto intro: order_trans)

lemma ce_shrinks_inv:
  assumes "ce_shrinks ce ce'" and inv: "ceremonies_inv ce"
  shows "ceremonies_inv ce'"
proof -
  have "hm_wf (ce_entries ce)" "distinct (ce_login_order ce)" using inv by (auto simp: ceremonies_inv_def)
  with assms(1) have sh: "hm_wf (ce_entries ce')" "distinct (ce_login_order ce')"
      "\<forall>P. hm_count P (ce_entries ce') \<le> hm_count P (ce_entries ce)" "ce_elevation_limit ce' = ce_elevation_limit ce"
      "length (ce_login_order ce') \<le> length (ce_login_order ce)"
      "\<forall>k c. ce_get ce' k = Some c \<longrightarrow> ce_get ce k = Some c \<and> (k \<in> set (ce_login_order ce') \<longleftrightarrow> k \<in> set (ce_login_order ce))"
    by (auto simp: ce_shrinks_def)
  have c: "hm_count is_registration (ce_entries ce') \<le> REGISTRATION_LIMIT"
    using sh(3) inv unfolding ceremonies_inv_def by (blast intro: order_trans)
  have e: "hm_count is_elevation (ce_entries ce') \<le> ce_elevation_limit ce'"
    using sh(3) inv unfolding ceremonies_inv_def sh(4) by (blast intro: order_trans)
  have l: "length (ce_login_order ce') \<le> LOGIN_LIMIT" using sh(5) inv unfolding ceremonies_inv_def by linarith
  have "login_ordered ce" "one_each registration_of ce" "one_each elevation_of ce" using inv by (auto simp: ceremonies_inv_def)
  then have "login_ordered ce'" "one_each registration_of ce'" "one_each elevation_of ce'"
    using sh(6) by (auto simp: login_ordered_def intro: one_each_mono)
  with sh(1,2) c e l show ?thesis by (simp add: ceremonies_inv_def)
qed

lemma ce_shrinks_refl [simp]: "ce_shrinks ce ce"
  by (simp add: ce_shrinks_def)

lemma ce_shrinks_retain: "ce_shrinks ce (ce\<lparr>ce_entries := hm_retain P (ce_entries ce)\<rparr>)"
  by (auto simp: ce_shrinks_def hm_count_retain_le hm_get_retain split: option.splits if_splits)

lemma ce_shrinks_purge: "ce_shrinks ce (ceremonies_purge now ce)"
  by (auto simp: ce_shrinks_def ceremonies_purge_def Let_def hm_count_retain_le hm_get_retain split: option.splits if_splits)

lemma ce_shrinks_remove: "ce_shrinks ce (ce\<lparr>ce_entries := hm_remove k (ce_entries ce)\<rparr>)"
  by (auto simp: ce_shrinks_def hm_count_remove_le split: if_splits)

lemma ce_shrinks_admit_login: "ce_shrinks ce (admit_login ce)"
proof (cases "LOGIN_LIMIT \<le> length (ce_login_order ce)")
  case True
  then obtain k ks where "ce_login_order ce = k # ks" by (cases "ce_login_order ce") (auto simp: LOGIN_LIMIT_def)
  then show ?thesis using True by (auto simp: admit_login_def ce_shrinks_def hm_count_remove_le split: if_splits)
qed (simp add: admit_login_def)

lemmas ce_shrinks_ops = ce_shrinks_retain ce_shrinks_purge ce_shrinks_remove ce_shrinks_admit_login

lemma purge_order: "k \<in> set (ce_login_order (ceremonies_purge now ce)) \<Longrightarrow> ce_get (ceremonies_purge now ce) k \<noteq> None"
  by (auto simp: ceremonies_purge_def Let_def)

lemma hm_count_keys: "hm_wf m \<Longrightarrow> hm_count P m = card {k. \<exists>v. hm_get m k = Some v \<and> P v}"
proof -
  assume wf: "hm_wf m"
  have "hm_count P m = length (map fst (filter (\<lambda>e. P (snd e)) m))" by (simp add: hm_count_def)
  also have "\<dots> = card (set (map fst (filter (\<lambda>e. P (snd e)) m)))"
    using wf hm_wf_filter [of m "\<lambda>e. P (snd e)"] by (intro distinct_card [symmetric]) (simp add: hm_wf_def)
  also have "set (map fst (filter (\<lambda>e. P (snd e)) m)) = {k. \<exists>v. hm_get m k = Some v \<and> P v}"
    using hm_get_iff [OF wf] by force
  finally show ?thesis .
qed

section \<open>Inserting\<close>

lemma insert_inv:
  assumes inv: "ceremonies_inv ce" and fresh: "ce_get ce (ceremony_key (cm_kind c)) = None"
    "ceremony_key (cm_kind c) \<notin> set (ce_login_order ce)"
    and len: "is_login c \<longrightarrow> length (ce_login_order ce) < LOGIN_LIMIT"
    and reg: "\<forall>pid. registration_of (cm_kind c) = Some pid \<longrightarrow>
        hm_count is_registration (ce_entries ce) < REGISTRATION_LIMIT
        \<and> hm_count (\<lambda>c. registration_of (cm_kind c) = Some pid) (ce_entries ce) = 0"
    and elev: "\<forall>s. elevation_of (cm_kind c) = Some s \<longrightarrow>
        hm_count is_elevation (ce_entries ce) < ce_elevation_limit ce
        \<and> hm_count (\<lambda>c. elevation_of (cm_kind c) = Some s) (ce_entries ce) = 0"
  shows "ceremonies_inv (ce\<lparr>ce_login_order := (if is_login c then ce_login_order ce @ [ceremony_key (cm_kind c)] else ce_login_order ce),
       ce_entries := hm_insert (ceremony_key (cm_kind c)) c (ce_entries ce)\<rparr>)"
proof -
  let ?ce' = "ce\<lparr>ce_login_order := (if is_login c then ce_login_order ce @ [ceremony_key (cm_kind c)] else ce_login_order ce),
       ce_entries := hm_insert (ceremony_key (cm_kind c)) c (ce_entries ce)\<rparr>"
  have none: "\<not> P v" if "hm_count P (ce_entries ce) = 0" "ce_get ce k = Some v" for P k v
    using that hm_get_in [OF that(2)] by (force simp: hm_count_0_iff)
  have r: "registration_of (cm_kind v) \<noteq> registration_of (cm_kind c)" if "ce_get ce k = Some v" "is_registration c" for k v
    using none [OF _ that(1), of "\<lambda>d. registration_of (cm_kind d) = registration_of (cm_kind c)"] reg that(2) by auto
  have e: "elevation_of (cm_kind v) \<noteq> elevation_of (cm_kind c)" if "ce_get ce k = Some v" "is_elevation c" for k v
    using none [OF _ that(1), of "\<lambda>d. elevation_of (cm_kind d) = elevation_of (cm_kind c)"] elev that(2) by auto
  have "one_each registration_of ce" "one_each elevation_of ce" using inv by (auto simp: ceremonies_inv_def)
  then have "one_each registration_of ?ce'" "one_each elevation_of ?ce'"
    using r e by (auto intro!: one_each_insert [where ce = ce])
  moreover have "hm_count P (hm_insert (ceremony_key (cm_kind c)) c (ce_entries ce))
      = hm_count P (ce_entries ce) + (if P c then 1 else 0)" for P
    using hm_count_insert_new [OF fresh(1)] by simp
  moreover have "login_ordered ?ce'"
    using inv fresh by (auto simp: ceremonies_inv_def login_ordered_def)
  ultimately show ?thesis using inv fresh(2) len reg elev unfolding ceremonies_inv_def by auto
qed

lemma insert_cases:
  assumes "ceremonies_insert c now ce = (r, ce')"
  obtains (refused) f where "r = Inl f" "ce_shrinks ce ce'"
    | (inserted) ce1 where "r = Inr ()" "ce_shrinks ce ce1"
        "is_login c \<Longrightarrow> ce1 = admit_login (ceremonies_purge now ce)"
        "\<And>pid. registration_of (cm_kind c) = Some pid \<Longrightarrow> ce1 = ceremonies_purge now ce \<and> admit_registration pid ce1 = Inr ()"
        "\<And>s. elevation_of (cm_kind c) = Some s \<Longrightarrow>
            ce1 = (ceremonies_purge now ce)\<lparr>ce_entries := hm_retain (\<lambda>_ c. elevation_of (cm_kind c) \<noteq> Some s)
                (ce_entries (ceremonies_purge now ce))\<rparr>
            \<and> hm_count is_elevation (ce_entries ce1) < ce_elevation_limit ce1"
        "ce' = ce1\<lparr>ce_login_order := (if is_login c then ce_login_order ce1 @ [ceremony_key (cm_kind c)] else ce_login_order ce1),
           ce_entries := hm_insert (ceremony_key (cm_kind c)) c (ce_entries ce1)\<rparr>"
proof (cases "cm_kind c")
  case (CRegistration x1 x2 x3)
  show ?thesis
  proof (cases "admit_registration (rg_pairing_id x1) (ceremonies_purge now ce)")
    case (Inl f)
    then show ?thesis using assms CRegistration ce_shrinks_purge by (intro refused [of f]) (auto simp: ceremonies_insert_def Let_def)
  next
    case (Inr u)
    then show ?thesis using assms CRegistration ce_shrinks_purge
      by (intro inserted [of "ceremonies_purge now ce"]) (auto simp: ceremonies_insert_def Let_def)
  qed
next
  case (CLogin x)
  then show ?thesis using assms ce_shrinks_trans [OF ce_shrinks_purge ce_shrinks_admit_login]
    by (intro inserted [of "admit_login (ceremonies_purge now ce)"]) (auto simp: ceremonies_insert_def Let_def)
next
  case (CElevation s x2 x3)
  let ?ce1 = "(ceremonies_purge now ce)\<lparr>ce_entries := hm_retain (\<lambda>_ c. elevation_of (cm_kind c) \<noteq> Some s)
                (ce_entries (ceremonies_purge now ce))\<rparr>"
  have sh: "ce_shrinks ce ?ce1" by (rule ce_shrinks_trans [OF ce_shrinks_purge ce_shrinks_retain])
  show ?thesis
  proof (cases "hm_count is_elevation (ce_entries ?ce1) < ce_elevation_limit ?ce1")
    case True
    then show ?thesis using assms CElevation sh
      by (intro inserted [of ?ce1]) (auto simp: ceremonies_insert_def admit_elevation_def Let_def)
  next
    case False
    then show ?thesis using assms CElevation sh
      by (intro refused [of CHALLENGE_LIMIT]) (auto simp: ceremonies_insert_def admit_elevation_def Let_def)
  qed
qed

lemma ce_shrinks_fresh:
  assumes "ce_shrinks ce ce'" "ceremonies_inv ce" "ce_get ce k = None"
  shows "ce_get ce' k = None"
proof (cases "ce_get ce' k")
  case (Some c)
  then show ?thesis using assms by (auto simp: ce_shrinks_def ceremonies_inv_def)
qed simp

lemma admit_login_room: "length (ce_login_order ce) \<le> LOGIN_LIMIT \<Longrightarrow> length (ce_login_order (admit_login ce)) < LOGIN_LIMIT"
  by (auto simp: admit_login_def LOGIN_LIMIT_def)

lemma in_set_tlD: "x \<in> set (tl xs) \<Longrightarrow> x \<in> set xs"
  by (cases xs) auto

lemma order_subset:
  "set (ce_login_order (ceremonies_purge now ce)) \<subseteq> set (ce_login_order ce)"
  "set (ce_login_order (admit_login ce)) \<subseteq> set (ce_login_order ce)"
  by (auto simp: ceremonies_purge_def admit_login_def Let_def dest: in_set_tlD)

lemma ceremonies_insert_inv:
  assumes "ceremonies_insert c now ce = (r, ce')" and "ceremonies_inv ce"
    and "ce_get ce (ceremony_key (cm_kind c)) = None" and "ceremony_key (cm_kind c) \<notin> set (ce_login_order ce)"
  shows "ceremonies_inv ce'"
  using assms(1)
proof (cases rule: insert_cases)
  case (inserted ce1)
  have kinds: "is_login c \<or> is_registration c \<or> is_elevation c" by (cases "cm_kind c") auto
  have inv1: "ceremonies_inv ce1" by (rule ce_shrinks_inv [OF inserted(2) assms(2)])
  have pinv: "ceremonies_inv (ceremonies_purge now ce)" by (rule ce_shrinks_inv [OF ce_shrinks_purge assms(2)])
  have "set (ce_login_order ce1) \<subseteq> set (ce_login_order ce)"
    using kinds inserted(3-5) order_subset(1) [of now ce] order_subset(2) [of "ceremonies_purge now ce"] by auto
  moreover have "length (ce_login_order ce1) < LOGIN_LIMIT" if "is_login c"
    using inserted(3) that pinv by (simp add: ceremonies_inv_def admit_login_room)
  moreover have "hm_count is_registration (ce_entries ce1) < REGISTRATION_LIMIT
      \<and> hm_count (\<lambda>c. registration_of (cm_kind c) = Some pid) (ce_entries ce1) = 0" if "registration_of (cm_kind c) = Some pid" for pid
    using inserted(4) [OF that] by (auto simp: admit_registration_def split: if_splits)
  moreover have "hm_count (\<lambda>c. elevation_of (cm_kind c) = Some s) (ce_entries ce1) = 0" if "elevation_of (cm_kind c) = Some s" for s
    using inserted(5) [OF that] by (auto simp: hm_count_0_iff hm_retain_def)
  ultimately show ?thesis unfolding inserted(6)
    using insert_inv [OF inv1 ce_shrinks_fresh [OF inserted(2) assms(2,3)]] assms(4) inserted(5) by blast
qed (use assms(2) ce_shrinks_inv in blast)

lemma take_registration_shrinks: "take_registration W pid resp now ce = (r, ce') \<Longrightarrow> ce_shrinks ce ce'"
  by (auto simp: take_registration_def Let_def split: if_splits option.splits
      intro: ce_shrinks_purge ce_shrinks_trans [OF ce_shrinks_purge ce_shrinks_remove])

lemma take_assertion_shrinks: "take_assertion W resp sess now ce = (r, ce') \<Longrightarrow> ce_shrinks ce ce'"
  by (auto simp: take_assertion_def Let_def split: if_splits option.splits
      intro: ce_shrinks_purge ce_shrinks_trans [OF ce_shrinks_purge ce_shrinks_remove])

section \<open>Reachable tables\<close>

text \<open>A library draws 128 random bits for a challenge: a new one is none of those in the table.\<close>

inductive ce_reach :: "webauthn_lib \<Rightarrow> nat \<Rightarrow> ceremonies \<Rightarrow> bool" for W :: webauthn_lib and n :: nat where
  ce_start: "ce_reach W n (ceremonies_new n)"
| ce_insert: "ce_reach W n ce \<Longrightarrow> ceremonies_insert c now ce = (r, ce') \<Longrightarrow>
     ce_get ce (ceremony_key (cm_kind c)) = None \<Longrightarrow> ceremony_key (cm_kind c) \<notin> set (ce_login_order ce) \<Longrightarrow> ce_reach W n ce'"
| ce_take_reg: "ce_reach W n ce \<Longrightarrow> take_registration W pid resp now ce = (rr, ce') \<Longrightarrow> ce_reach W n ce'"
| ce_take_auth: "ce_reach W n ce \<Longrightarrow> take_assertion W resp sess now ce = (rr, ce') \<Longrightarrow> ce_reach W n ce'"
| ce_purge: "ce_reach W n ce \<Longrightarrow> ce_reach W n (ceremonies_purge now ce)"
| ce_retain: "ce_reach W n ce \<Longrightarrow> ce_reach W n (retain_sessions active ce)"

lemma ce_reach_inv: "ce_reach W n ce \<Longrightarrow> ceremonies_inv ce \<and> ce_elevation_limit ce = n * 4"
proof (induction rule: ce_reach.induct)
  case ce_start
  show ?case by (simp add: ceremonies_inv_def ceremonies_new_def login_ordered_def one_each_def)
next
  case (ce_insert ce c now r ce')
  have "ce_elevation_limit ce' = ce_elevation_limit ce"
    using ce_insert.hyps(2) by (cases rule: insert_cases) (simp_all add: ce_shrinks_def)
  then show ?case using ceremonies_insert_inv [OF ce_insert.hyps(2)] ce_insert by simp
qed (auto dest: take_registration_shrinks take_assertion_shrinks
    simp: retain_sessions_def intro: ce_shrinks_inv ce_shrinks_retain ce_shrinks_purge simp: ce_shrinks_def,
    (simp add: ceremonies_purge_def Let_def)?)

lemma login_count:
  assumes "ceremonies_inv ce"
  shows "hm_count is_login (ce_entries ce) \<le> LOGIN_LIMIT"
proof -
  have wf: "hm_wf (ce_entries ce)" and ord: "login_ordered ce" and d: "length (ce_login_order ce) \<le> LOGIN_LIMIT"
    using assms by (auto simp: ceremonies_inv_def)
  have "hm_count is_login (ce_entries ce) \<le> card (set (ce_login_order ce))"
    unfolding hm_count_keys [OF wf] using ord by (intro card_mono) (auto simp: login_ordered_def)
  also have "\<dots> \<le> length (ce_login_order ce)" by (rule card_length)
  finally show ?thesis using d by simp
qed

text \<open>
  The pools are bounded and exclusive. In every reachable table at most 48 logins, 16
  registrations and four elevations per admitted device are running; a pairing has at most one
  registration ceremony and a session at most one elevation ceremony.
\<close>

theorem ceremony_pools:
  assumes "ce_reach W n ce"
  shows "hm_count (\<lambda>c. login_kind (cm_kind c)) (ce_entries ce) \<le> 48
    \<and> hm_count (\<lambda>c. registration_of (cm_kind c) \<noteq> None) (ce_entries ce) \<le> 16
    \<and> hm_count (\<lambda>c. elevation_of (cm_kind c) \<noteq> None) (ce_entries ce) \<le> n * 4
    \<and> (\<forall>k c k' c'. hm_get (ce_entries ce) k = Some c \<longrightarrow> hm_get (ce_entries ce) k' = Some c' \<longrightarrow>
         registration_of (cm_kind c) \<noteq> None \<and> registration_of (cm_kind c) = registration_of (cm_kind c')
         \<or> elevation_of (cm_kind c) \<noteq> None \<and> elevation_of (cm_kind c) = elevation_of (cm_kind c') \<longrightarrow> k = k')"
proof -
  have inv: "ceremonies_inv ce" and lim: "ce_elevation_limit ce = n * 4" using ce_reach_inv [OF assms] by auto
  have "one_each registration_of ce" "one_each elevation_of ce" "hm_count is_registration (ce_entries ce) \<le> 16"
    "hm_count is_elevation (ce_entries ce) \<le> n * 4"
    using inv lim by (auto simp: ceremonies_inv_def REGISTRATION_LIMIT_def)
  then show ?thesis using login_count [OF inv] unfolding one_each_def LOGIN_LIMIT_def by blast
qed

theorem ceremony_pools_witness: "hm_count (\<lambda>c. login_kind (cm_kind c)) (ce_entries (ceremonies_new 3)) \<le> 48"
  using ceremony_pools [OF ce_start] by blast

lemma purge_get: "hm_wf (ce_entries ce) \<Longrightarrow> ce_get ce k = Some c \<Longrightarrow> now < cm_until c \<Longrightarrow> ce_get (ceremonies_purge now ce) k = Some c"
  by (simp add: ceremonies_purge_def Let_def hm_get_retain)

text \<open>
  Anonymous requests cannot crowd anyone out. Starting a login always succeeds, and it leaves
  every unexpired registration and elevation ceremony in place; it drops at most one login, the
  oldest one still running, and that only when 48 are running.
\<close>

theorem login_cannot_displace:
  assumes "ceremonies_inv ce" and "cm_kind c = CLogin st" and "hm_get (ce_entries ce) (ss_challenge st) = None"
    and "ceremonies_insert c now ce = (r, ce')"
  shows "r = Inr () \<and> hm_get (ce_entries ce') (ss_challenge st) = Some c
    \<and> (\<forall>k d. hm_get (ce_entries ce) k = Some d \<longrightarrow> now < cm_until d \<longrightarrow>
         hm_get (ce_entries ce') k = Some d
         \<or> login_kind (cm_kind d) \<and> 48 \<le> length (ce_login_order (ceremonies_purge now ce))
           \<and> k = hd (ce_login_order (ceremonies_purge now ce)))"
proof -
  let ?P = "ceremonies_purge now ce"
  have wf: "hm_wf (ce_entries ce)" using assms(1) by (simp add: ceremonies_inv_def)
  have ordP: "login_ordered ?P" using ce_shrinks_inv [OF ce_shrinks_purge assms(1)] by (simp add: ceremonies_inv_def)
  have r: "r = Inr ()" and get: "hm_get (ce_entries ce') k = (if k = ss_challenge st then Some c else ce_get (admit_login ?P) k)" for k
    using assms(2,4) by (auto simp: ceremonies_insert_def Let_def)
  have keep: "ce_get (admit_login ?P) k = Some d \<or> login_kind (cm_kind d) \<and> 48 \<le> length (ce_login_order ?P) \<and> k = hd (ce_login_order ?P)"
    if "hm_get (ce_entries ce) k = Some d" "now < cm_until d" for k d
  proof -
    have g: "ce_get ?P k = Some d" using purge_get [OF wf that] .
    show ?thesis
    proof (cases "48 \<le> length (ce_login_order ?P) \<and> k = hd (ce_login_order ?P)")
      case True
      then have "k \<in> set (ce_login_order ?P)" by (cases "ce_login_order ?P") auto
      with True g ordP show ?thesis by (auto simp: login_ordered_def)
    next
      case False
      with g show ?thesis by (auto simp: admit_login_def LOGIN_LIMIT_def)
    qed
  qed
  have "hm_get (ce_entries ce') k = ce_get (admit_login ?P) k" if "hm_get (ce_entries ce) k = Some d" for k d
    using that assms(3) get by auto
  with r get keep show ?thesis by metis
qed

definition demo_login :: "challenge \<Rightarrow> ceremony" where
  "demo_login ch = \<lparr>cm_until = 120, cm_kind = CLogin \<lparr>ss_challenge = ch, ss_data = []\<rparr>\<rparr>"

theorem login_cannot_displace_witness:
  "fst (ceremonies_insert (demo_login 7) 5 (ceremonies_new 2)) = Inr ()"
proof -
  obtain r ce' where i: "ceremonies_insert (demo_login 7) 5 (ceremonies_new 2) = (r, ce')"
    by (cases "ceremonies_insert (demo_login 7) 5 (ceremonies_new 2)")
  have "ceremonies_inv (ceremonies_new 2)" using ce_reach_inv [OF ce_start] by blast
  from login_cannot_displace [OF this _ _ i, of "\<lparr>ss_challenge = 7, ss_data = []\<rparr>"] i show ?thesis
    by (simp add: demo_login_def ceremonies_new_def)
qed

text \<open>
  C7: a challenge is answered once, and only by whom it was issued to. An assertion is admitted
  only for a running, unexpired ceremony with the challenge it answers: a login without a session,
  an elevation only for its own session and its own scope. Admission removes the ceremony, so the
  same response is refused from then on, whatever comes with it; a refusal removes nothing that
  has not expired.
\<close>

theorem assertion_single_use:
  assumes "hm_wf (ce_entries ce)" and "take_assertion W response session now ce = (r, ce')"
  shows "(\<forall>c. r = Inr c \<longrightarrow> (\<exists>key. assertion_key W (session \<noteq> None) response = Some key
        \<and> hm_get (ce_entries ce) key = Some c \<and> now < cm_until c
        \<and> (case session of None \<Rightarrow> login_kind (cm_kind c) | Some (sid, scope) \<Rightarrow> \<exists>st. cm_kind c = CElevation sid scope st)
        \<and> (\<forall>session' now'. (session' = None \<longleftrightarrow> session = None) \<longrightarrow>
              fst (take_assertion W response session' now' ce') = Inl REJECTED)))
    \<and> (\<forall>f. r = Inl f \<longrightarrow> f = REJECTED \<and> (\<forall>k c. hm_get (ce_entries ce) k = Some c \<longrightarrow> now < cm_until c \<longrightarrow>
          hm_get (ce_entries ce') k = Some c))"
proof (cases r)
  case (Inl f)
  then have "ce' = ceremonies_purge now ce" "f = REJECTED"
    using assms(2) by (auto simp: take_assertion_def Let_def split: option.splits if_splits)
  with Inl purge_get [OF assms(1)] show ?thesis by auto
next
  case (Inr c)
  then obtain key where key: "assertion_key W (session \<noteq> None) response = Some key" "ce_get (ceremonies_purge now ce) key = Some c"
      "assertion_bound (cm_kind c) session" "ce' = (ceremonies_purge now ce)\<lparr>ce_entries := hm_remove key (ce_entries (ceremonies_purge now ce))\<rparr>"
    using assms(2) by (auto simp: take_assertion_def Let_def split: option.splits if_splits)
  have get: "ce_get ce key = Some c" "now < cm_until c"
    using key(2) assms(1) by (auto simp: ceremonies_purge_def Let_def hm_get_retain split: option.splits if_splits)
  have wf': "hm_wf (ce_entries ce')" using assms(1) key(4) by (simp add: ceremonies_purge_def Let_def)
  have "ce_get (ceremonies_purge now' ce') key = None" for now'
    using wf' key(4) by (simp add: ceremonies_purge_def Let_def hm_get_retain)
  then have again: "fst (take_assertion W response session' now' ce') = Inl REJECTED" if "session' = None \<longleftrightarrow> session = None" for session' now'
    using key(1) that by (auto simp: take_assertion_def Let_def)
  have "case session of None \<Rightarrow> login_kind (cm_kind c) | Some (sid, scope) \<Rightarrow> \<exists>st. cm_kind c = CElevation sid scope st"
    using key(3) by (auto simp: assertion_bound_def split: ceremony_kind.splits option.splits)
  with Inr key(1) get again show ?thesis by auto
qed

text \<open>A concrete library for witnesses: the response's member \<open>c\<close> is the challenge it answers.\<close>

definition demo_challenge :: "json \<Rightarrow> challenge option" where
  "demo_challenge j = (case json_get j ''c'' of Some (JNum n) \<Rightarrow> Some (nat n) | _ \<Rightarrow> None)"

definition demo_assert ::
  "server_state \<Rightarrow> string \<Rightarrow> json \<Rightarrow> auth_credential \<Rightarrow> auth_verification \<Rightarrow> auth_ceremony_err + dynamic_state" where
  "demo_assert s h j cred v = Inr ((ac_dynamic_state cred)\<lparr>dy_sign_count := dy_sign_count (ac_dynamic_state cred) + 1\<rparr>)"

definition demo_wl :: webauthn_lib where
  "demo_wl = \<lparr>wl_domain = (\<lambda>_. True), wl_user_handle = (\<lambda>_. True), wl_credential_id = (\<lambda>_. True),
     wl_transports = (\<lambda>_. True), wl_nickname = Some,
     wl_start_registration = (\<lambda>p. Some (\<lparr>ss_challenge = co_challenge p, ss_data = []\<rparr>, JNull)),
     wl_start_login = (\<lambda>p. Some (\<lparr>ss_challenge = ro_challenge p, ss_data = []\<rparr>, JNull)),
     wl_second_factor = (\<lambda>ds. ds \<noteq> []),
     wl_start_elevation = (\<lambda>_ p. Some (\<lparr>ss_challenge = ro_challenge p, ss_data = []\<rparr>, JNull)),
     wl_registration_parse = (\<lambda>_. True), wl_registration_challenge = demo_challenge,
     wl_login_parse = (\<lambda>_. True), wl_login_challenge = demo_challenge,
     wl_elevation_parse = (\<lambda>_. True), wl_elevation_challenge = demo_challenge,
     wl_verify_registration = (\<lambda>s h j v. Some \<lparr>re_user_id = replicate 16 9, re_id = [1, 2, 3], re_static_state = Some [4, 5, 6],
       re_dynamic_state = \<lparr>dy_user_verified = True, dy_backup = NotEligible, dy_sign_count = 0\<rparr>, re_transports = Some [Internal]\<rparr>),
     wl_credential_new = (\<lambda>_. True), wl_verify_login = demo_assert, wl_verify_elevation = demo_assert\<rparr>"

definition demo_ceremonies :: ceremonies where
  "demo_ceremonies = snd (ceremonies_insert (demo_login 7) 5 (ceremonies_new 2))"

definition demo_answer :: json where
  "demo_answer = JObj [(''c'', JNum 7)]"

theorem assertion_single_use_witness:
  "fst (take_assertion demo_wl demo_answer None 6 (snd (take_assertion demo_wl demo_answer None 6 demo_ceremonies))) = Inl REJECTED"
proof -
  have t: "fst (take_assertion demo_wl demo_answer None 6 demo_ceremonies) = Inr (demo_login 7)" by code_simp
  obtain ce' where "take_assertion demo_wl demo_answer None 6 demo_ceremonies = (Inr (demo_login 7), ce')"
    using t by (cases "take_assertion demo_wl demo_answer None 6 demo_ceremonies") simp
  moreover have "hm_wf (ce_entries demo_ceremonies)" by code_simp
  ultimately show ?thesis using assertion_single_use by fastforce
qed

section \<open>Verification\<close>

text \<open>
  An assertion is accepted only under the passkey policy in force, judged on the flags the
  library verified: the record belongs to this host, the library verified the response with user
  verification for exactly the stored credential, the eligibility for backup has not changed, and
  where the policy asks for it (always under O1, for full sessions under O2) the credential cannot be backed up.
\<close>

theorem assertion_policy_enforced:
  assumes "verify_assertion X W rp server response did c pol scope = Inr va"
  shows "cr_rp_id c = rp_host rp
    \<and> (\<exists>cred options dyn. run_assertion W rp server response cred options = Inr dyn
         \<and> dy_user_verified dyn \<and> va_sign_count va = dy_sign_count dyn
         \<and> va_backup_state va = snd (flags (dy_backup dyn)) \<and> fst (flags (dy_backup dyn)) = cr_backup_eligible c
         \<and> ac_key_state cred = cr_public_key_state c \<and> Some (ac_id cred) = x_b64_decode X (cr_id c)
         \<and> Some (ac_user cred) = decode X 16 did \<and> dy_sign_count (ac_dynamic_state cred) = cr_sign_count c
         \<and> av_allowed_origins options = [rp_origin rp])
    \<and> (va_backup_state va \<longrightarrow> cr_backup_eligible c)
    \<and> (pol = O1 \<or> pol = O2 \<and> scope = Full \<longrightarrow> \<not> cr_backup_eligible c)"
proof -
  have rp: "cr_rp_id c = rp_host rp" using assms by (auto simp: verify_assertion_def split: if_splits)
  from assms rp obtain user cid k where uk: "user_handle X W did = Inr user" "x_b64_decode X (cr_id c) = Some cid"
      "key_state X (cr_public_key_state c) = Some k"
    by (auto simp: verify_assertion_def split: sum.splits option.splits)
  define cred where "cred = \<lparr>ac_id = cid, ac_user = user, ac_key_state = cr_public_key_state c,
      ac_dynamic_state = \<lparr>dy_user_verified = True, dy_backup = stored_backup c, dy_sign_count = cr_sign_count c\<rparr>\<rparr>"
  define options where "options = \<lparr>av_allowed_origins = [rp_origin rp],
      av_backup_requirement = (if requires_unbacked pol scope then Some BackupNotEligibleReq else None)\<rparr>"
  obtain dyn where dyn: "run_assertion W rp server response cred options = Inr dyn"
    using assms rp uk unfolding verify_assertion_def cred_def options_def by (auto simp: Let_def split: if_splits sum.splits)
  with assms rp uk have ok: "dy_user_verified dyn" "policy_accepts pol scope (fst (flags (dy_backup dyn))) (snd (flags (dy_backup dyn)))"
      "fst (flags (dy_backup dyn)) = cr_backup_eligible c" "va = \<lparr>va_sign_count = dy_sign_count dyn, va_backup_state = snd (flags (dy_backup dyn))\<rparr>"
    unfolding verify_assertion_def cred_def options_def by (auto simp: Let_def split: if_splits sum.splits)
  have "decode X 16 did = Some user" using uk(1) by (auto simp: user_handle_def split: option.splits if_splits)
  with rp uk dyn ok show ?thesis
    by (intro conjI exI [of _ cred] exI [of _ options] exI [of _ dyn])
      (auto simp: cred_def options_def policy_accepts_def requires_unbacked_def)
qed

definition demo_rp :: relying_party where
  "demo_rp = \<lparr>rp_host = ''desk.ts.net'', rp_origin = ''https://desk.ts.net''\<rparr>"

lemma demo_verifies:
  "verify_assertion demo_ext demo_wl demo_rp (LoginState \<lparr>ss_challenge = 7, ss_data = []\<rparr>) demo_answer (dv_device_id demo_device) demo_credential O1 View
     = Inr \<lparr>va_sign_count = 8, va_backup_state = False\<rparr>"
  by code_simp

theorem assertion_policy_enforced_witness: "\<not> cr_backup_eligible demo_credential"
  using assertion_policy_enforced [OF demo_verifies] by simp

end
