(* ===== verification/Session_Props.thy ===== *)
theory Session_Props
  imports Session Webauthn_Props
begin

text \<open>
  The invariant of the identity table: sessions belong to known, unlocked devices, their numbers
  are bounded, a peer that has not been told to close has its session, and a credential belongs to
  one device. Every operation keeps it.
\<close>

section \<open>Removing sessions\<close>

definition drop_sessions :: "(bytes \<Rightarrow> bool) \<Rightarrow> identity \<Rightarrow> identity" where
  "drop_sessions P idt =
     idt\<lparr>id_sessions := filter (\<lambda>e. \<not> P (fst e)) (id_sessions idt),
         id_peers := map (\<lambda>(pid, p). (pid, if P (pc_session p) then p\<lparr>pc_invalidated := True\<rparr> else p)) (id_peers idt)\<rparr>"

lemma drop_sessions_sel [simp]:
  "id_devices (drop_sessions P idt) = id_devices idt" "id_notifications (drop_sessions P idt) = id_notifications idt"
  "id_failures (drop_sessions P idt) = id_failures idt" "id_dirty_devices (drop_sessions P idt) = id_dirty_devices idt"
  "id_policy (drop_sessions P idt) = id_policy idt" "id_next_peer (drop_sessions P idt) = id_next_peer idt"
  "id_sessions (drop_sessions P idt) = filter (\<lambda>e. \<not> P (fst e)) (id_sessions idt)"
  by (simp_all add: drop_sessions_def)

lemma drop_none: "drop_sessions (\<lambda>_. False) idt = idt"
  by (simp add: drop_sessions_def case_prod_beta)

lemma invalidate_is_drop: "invalidate_session sid idt = drop_sessions (\<lambda>k. k = sid) idt"
  by (simp add: invalidate_session_def drop_sessions_def hm_remove_def)

lemma drop_drop: "drop_sessions Q (drop_sessions P idt) = drop_sessions (\<lambda>k. P k \<or> Q k) idt"
proof -
  have "(\<lambda>(pid, p). (pid, if Q (pc_session p) then p\<lparr>pc_invalidated := True\<rparr> else p)) \<circ>
      (\<lambda>(pid, p). (pid, if P (pc_session p) then p\<lparr>pc_invalidated := True\<rparr> else p))
    = (\<lambda>(pid :: u64, p :: peer). (pid, if P (pc_session p) \<or> Q (pc_session p) then p\<lparr>pc_invalidated := True\<rparr> else p))"
    by (rule ext) auto
  then show ?thesis by (simp add: drop_sessions_def)
qed

lemma fold_invalidate: "fold invalidate_session sids idt = drop_sessions (\<lambda>k. k \<in> set sids) idt"
proof (induction sids arbitrary: idt)
  case Nil
  show ?case by (simp add: drop_none)
next
  case (Cons s sids)
  have "fold invalidate_session (s # sids) idt = fold invalidate_session sids (invalidate_session s idt)" by simp
  also have "\<dots> = drop_sessions (\<lambda>k. k \<in> set sids) (invalidate_session s idt)" by (rule Cons.IH)
  also have "\<dots> = drop_sessions (\<lambda>k. k \<in> set (s # sids)) idt" by (simp add: invalidate_is_drop drop_drop)
  finally show ?case .
qed

lemma get_filter_key: "hm_get (filter (\<lambda>e. \<not> P (fst e)) m) k = (if P k then None else hm_get m k)"
  by (induction m) auto

lemma drop_get [simp]: "hm_get (id_sessions (drop_sessions P idt)) k = (if P k then None else hm_get (id_sessions idt) k)"
  by (simp add: get_filter_key)

lemma get_map_values: "hm_get (map (\<lambda>(k, v). (k, f v)) m) k = map_option f (hm_get m k)"
  by (induction m) auto

lemma drop_peer: "hm_get (id_peers (drop_sessions P idt)) pid
    = map_option (\<lambda>p. if P (pc_session p) then p\<lparr>pc_invalidated := True\<rparr> else p) (hm_get (id_peers idt) pid)"
  by (simp add: drop_sessions_def get_map_values)

text \<open>The sessions an operation removes, as a predicate on session identifiers.\<close>

definition of_device :: "string \<Rightarrow> identity \<Rightarrow> bytes \<Rightarrow> bool" where
  "of_device did idt k \<longleftrightarrow> (\<exists>s. hm_get (id_sessions idt) k = Some s \<and> se_device_id s = did)"

definition inactive :: "timestamp \<Rightarrow> identity \<Rightarrow> bytes \<Rightarrow> bool" where
  "inactive now idt k \<longleftrightarrow> (\<exists>s. hm_get (id_sessions idt) k = Some s \<and> \<not> active idt s now)"

lemma in_keys: "hm_wf m \<Longrightarrow> k \<in> set (map fst (filter (\<lambda>e. P (snd e)) m)) \<longleftrightarrow> (\<exists>v. hm_get m k = Some v \<and> P v)"
  using hm_get_iff by force

lemma invalidate_device_drop:
  "hm_wf (id_sessions idt) \<Longrightarrow> invalidate_device did idt = drop_sessions (of_device did idt) idt"
  unfolding invalidate_device_def fold_invalidate
  by (rule arg_cong [where f = "\<lambda>P. drop_sessions P idt"], rule ext)
    (simp only: of_device_def in_keys [where P = "\<lambda>s. se_device_id s = did"])

lemma purge_drop: "hm_wf (id_sessions idt) \<Longrightarrow> purge_expired now idt = drop_sessions (inactive now idt) idt"
  unfolding purge_expired_def fold_invalidate
  by (rule arg_cong [where f = "\<lambda>P. drop_sessions P idt"], rule ext)
    (simp only: inactive_def in_keys [where P = "\<lambda>s. \<not> active idt s now"])

section \<open>The invariant\<close>

definition backed :: "identity \<Rightarrow> session \<Rightarrow> bool" where
  "backed idt s \<longleftrightarrow> (\<exists>d. hm_get (id_devices idt) (se_device_id s) = Some d \<and> \<not> dv_locked d)"

definition sessions_ok :: "identity \<Rightarrow> bool" where
  "sessions_ok idt \<longleftrightarrow>
     hm_wf (id_sessions idt) \<and> length (id_sessions idt) \<le> session_limit idt
     \<and> (\<forall>did. hm_count (\<lambda>s. se_device_id s = did) (id_sessions idt) \<le> 4)
     \<and> (\<forall>sid s. hm_get (id_sessions idt) sid = Some s \<longrightarrow> backed idt s)"

definition peer_attached :: "identity \<Rightarrow> peer \<Rightarrow> bool" where
  "peer_attached idt p \<longleftrightarrow>
     pc_invalidated p \<or> (\<exists>s. hm_get (id_sessions idt) (pc_session p) = Some s \<and> se_device_id s = pc_device p)"

definition peers_ok :: "identity \<Rightarrow> bool" where
  "peers_ok idt \<longleftrightarrow>
     hm_wf (id_peers idt) \<and> length (id_peers idt) \<le> MAX_PEERS
     \<and> (\<forall>did. hm_count (\<lambda>p. pc_device p = did) (id_peers idt) \<le> 2)
     \<and> (\<forall>pid p. hm_get (id_peers idt) pid = Some p \<longrightarrow> pid < id_next_peer idt \<and> peer_attached idt p)"

text \<open>A device as validated when read, but for the time it was last seen.\<close>

definition strip :: "device \<Rightarrow> device" where
  "strip d = d\<lparr>dv_last_seen := dv_created_at d\<rparr>"

definition creds_disjoint :: "(string, device) hmap \<Rightarrow> bool" where
  "creds_disjoint m \<longleftrightarrow> (\<forall>did d did' d' c c'. hm_get m did = Some d \<longrightarrow> hm_get m did' = Some d' \<longrightarrow>
     c \<in> set (dv_credentials d) \<longrightarrow> c' \<in> set (dv_credentials d') \<longrightarrow> cred_key c = cred_key c' \<longrightarrow> did = did')"

definition devices_ok :: "ext \<Rightarrow> identity \<Rightarrow> bool" where
  "devices_ok X idt \<longleftrightarrow>
     hm_wf (id_devices idt) \<and> length (id_devices idt) \<le> po_max_devices (id_policy idt)
     \<and> (\<forall>did d. hm_get (id_devices idt) did = Some d \<longrightarrow> dv_device_id d = did \<and> device_valid X (strip d))
     \<and> creds_disjoint (id_devices idt) \<and> hm_wf (id_notifications idt)"

definition failures_ok :: "identity \<Rightarrow> bool" where
  "failures_ok idt \<longleftrightarrow> hm_wf (id_failures idt) \<and>
     (\<forall>did n. hm_get (id_failures idt) did = Some n \<longrightarrow>
        (\<exists>d. hm_get (id_devices idt) did = Some d \<and> (dv_locked d \<or> unat n < 5)))"

definition identity_inv :: "ext \<Rightarrow> identity \<Rightarrow> bool" where
  "identity_inv X idt \<longleftrightarrow> sessions_ok idt \<and> peers_ok idt \<and> devices_ok X idt \<and> failures_ok idt"

lemma inv_wf:
  assumes "identity_inv X idt"
  shows "hm_wf (id_sessions idt)" "hm_wf (id_peers idt)" "hm_wf (id_devices idt)" "hm_wf (id_notifications idt)" "hm_wf (id_failures idt)"
  using assms by (simp_all add: identity_inv_def sessions_ok_def peers_ok_def devices_ok_def failures_ok_def)

subsection \<open>Removing sessions keeps it\<close>

lemma count_map_values:
  assumes "\<And>v. P (f v) \<longleftrightarrow> P v"
  shows "hm_count P (map (\<lambda>(k, v). (k, f v)) m) = hm_count P m"
proof (induction m)
  case (Cons e m)
  then show ?case using assms [of "snd e"] by (simp add: case_prod_beta)
qed simp

lemma keys_map_values: "hm_wf (map (\<lambda>(k, v). (k, f v)) m) = hm_wf m"
proof -
  have "map fst (map (\<lambda>(k, v). (k, f v)) m) = map fst m" by (simp add: case_prod_beta)
  then show ?thesis by (simp only: hm_wf_def)
qed

lemma drop_sessions_ok: "sessions_ok idt \<Longrightarrow> sessions_ok (drop_sessions P idt)"
proof -
  assume ok: "sessions_ok idt"
  have "length (filter (\<lambda>e. \<not> P (fst e)) (id_sessions idt)) \<le> session_limit idt"
    by (rule order_trans [OF length_filter_le]) (use ok in \<open>simp add: sessions_ok_def\<close>)
  moreover have "hm_count (\<lambda>s. se_device_id s = did) (filter (\<lambda>e. \<not> P (fst e)) (id_sessions idt)) \<le> 4" for did
    by (rule order_trans [OF hm_count_filter_le]) (use ok in \<open>simp add: sessions_ok_def\<close>)
  ultimately show ?thesis using ok
    by (simp add: sessions_ok_def session_limit_def hm_wf_filter get_filter_key backed_def)
qed

lemma drop_attached:
  "peer_attached idt p \<Longrightarrow> peer_attached (drop_sessions P idt) (if P (pc_session p) then p\<lparr>pc_invalidated := True\<rparr> else p)"
  by (auto simp: peer_attached_def get_filter_key)

lemma drop_peers_ok:
  assumes "peers_ok idt"
  shows "peers_ok (drop_sessions P idt)"
proof -
  let ?f = "\<lambda>p. if P (pc_session p) then p\<lparr>pc_invalidated := True\<rparr> else p"
  have peers: "id_peers (drop_sessions P idt) = map (\<lambda>(pid, p). (pid, ?f p)) (id_peers idt)" by (simp add: drop_sessions_def)
  have "pid < id_next_peer idt \<and> peer_attached (drop_sessions P idt) q" if "hm_get (id_peers (drop_sessions P idt)) pid = Some q" for pid q
    using that assms unfolding drop_peer by (auto simp: peers_ok_def intro: drop_attached)
  moreover have "hm_count (\<lambda>p. pc_device p = did) (id_peers (drop_sessions P idt)) \<le> 2" for did
    using assms unfolding peers by (subst count_map_values) (auto simp: peers_ok_def)
  moreover have "hm_wf (id_peers (drop_sessions P idt))" "length (id_peers (drop_sessions P idt)) \<le> MAX_PEERS"
    using assms unfolding peers keys_map_values by (auto simp: peers_ok_def)
  ultimately show ?thesis by (simp add: peers_ok_def)
qed

lemma drop_inv: "identity_inv X idt \<Longrightarrow> identity_inv X (drop_sessions P idt)"
  unfolding identity_inv_def by (simp add: drop_sessions_ok drop_peers_ok) (simp add: devices_ok_def failures_ok_def)

lemma purge_inv: "identity_inv X idt \<Longrightarrow> identity_inv X (purge_expired now idt)"
  by (simp add: purge_drop inv_wf drop_inv)

lemma invalidate_session_inv: "identity_inv X idt \<Longrightarrow> identity_inv X (invalidate_session sid idt)"
  by (simp add: invalidate_is_drop drop_inv)


subsection \<open>Changing one device\<close>

lemma inv_frame [simp]:
  "identity_inv X (idt\<lparr>id_dirty_devices := ds\<rparr>) = identity_inv X idt"
  by (simp add: identity_inv_def sessions_ok_def peers_ok_def devices_ok_def failures_ok_def backed_def session_limit_def peer_attached_def)

lemma inv_notifications:
  "identity_inv X idt \<Longrightarrow> hm_wf m \<Longrightarrow> identity_inv X (idt\<lparr>id_notifications := m\<rparr>)"
  by (simp add: identity_inv_def sessions_ok_def peers_ok_def devices_ok_def failures_ok_def backed_def session_limit_def peer_attached_def)

lemma creds_disjoint_insert:
  assumes "creds_disjoint m"
    and "\<And>k d c c'. k \<noteq> did \<Longrightarrow> hm_get m k = Some d \<Longrightarrow> c \<in> set (dv_credentials d') \<Longrightarrow> c' \<in> set (dv_credentials d) \<Longrightarrow>
      cred_key c \<noteq> cred_key c'"
  shows "creds_disjoint (hm_insert did d' m)"
  unfolding creds_disjoint_def
proof (intro allI impI)
  fix k d k' e c c'
  assume g: "hm_get (hm_insert did d' m) k = Some d" "hm_get (hm_insert did d' m) k' = Some e"
    and c: "c \<in> set (dv_credentials d)" "c' \<in> set (dv_credentials e)" "cred_key c = cred_key c'"
  consider "k = did" "k' = did" | "k \<noteq> did" "k' \<noteq> did" | "k = did" "k' \<noteq> did" | "k \<noteq> did" "k' = did" by blast
  then show "k = k'"
  proof cases
    case 2
    with g c assms(1) show ?thesis unfolding creds_disjoint_def by auto
  next
    case 3
    with g c assms(2) [of k' e c c'] show ?thesis by auto
  next
    case 4
    with g c assms(2) [of k d c' c] show ?thesis by auto
  qed simp
qed

lemma creds_disjoint_same:
  assumes "creds_disjoint m" and "hm_get m did = Some d" and "map cred_key (dv_credentials d') = map cred_key (dv_credentials d)"
  shows "creds_disjoint (hm_insert did d' m)"
proof (rule creds_disjoint_insert [OF assms(1)])
  fix k e c c' assume a: "k \<noteq> did" "hm_get m k = Some e" "c \<in> set (dv_credentials d')" "c' \<in> set (dv_credentials e)"
  have "cred_key c \<in> set (map cred_key (dv_credentials d))" using a(3) unfolding assms(3) [symmetric] by simp
  then obtain c2 where "c2 \<in> set (dv_credentials d)" "cred_key c2 = cred_key c" by auto
  with a assms(1,2) show "cred_key c \<noteq> cred_key c'" unfolding creds_disjoint_def by metis
qed

lemma creds_disjoint_remove: "creds_disjoint m \<Longrightarrow> creds_disjoint (hm_remove did m)"
  unfolding creds_disjoint_def by (auto split: if_splits)

text \<open>The device tables that differ at one device only, with the failure counts to go with it.\<close>

definition one_device :: "ext \<Rightarrow> string \<Rightarrow> identity \<Rightarrow> identity \<Rightarrow> bool" where
  "one_device X did idt idt' \<longleftrightarrow>
     (\<forall>k. k \<noteq> did \<longrightarrow> hm_get (id_devices idt') k = hm_get (id_devices idt) k)
     \<and> devices_ok X idt' \<and> failures_ok idt'
     \<and> id_sessions idt' = id_sessions idt \<and> id_peers idt' = id_peers idt \<and> id_next_peer idt' = id_next_peer idt
     \<and> id_policy idt' = id_policy idt"

lemma one_device_inv:
  assumes "identity_inv X idt" and "one_device X did idt idt'"
  shows "identity_inv X (invalidate_device did idt')"
proof -
  have same: "id_sessions idt' = id_sessions idt" "id_peers idt' = id_peers idt" "id_next_peer idt' = id_next_peer idt"
      "id_policy idt' = id_policy idt" using assms(2) by (auto simp: one_device_def)
  have so: "sessions_ok idt" and po: "peers_ok idt" using assms(1) by (auto simp: identity_inv_def)
  have "peers_ok idt'" using po same by (simp add: peers_ok_def peer_attached_def)
  then have p: "peers_ok (invalidate_device did idt')"
    using so same by (subst invalidate_device_drop) (auto simp: sessions_ok_def intro: drop_peers_ok)
  let ?S = "filter (\<lambda>e. \<not> of_device did idt' (fst e)) (id_sessions idt)"
  have len: "length ?S \<le> session_limit idt"
    by (rule order_trans [OF length_filter_le]) (use so in \<open>simp add: sessions_ok_def\<close>)
  have cnt: "hm_count (\<lambda>s. se_device_id s = k) ?S \<le> 4" for k
    by (rule order_trans [OF hm_count_filter_le]) (use so in \<open>simp add: sessions_ok_def\<close>)
  have bk: "backed idt' s" if "hm_get (id_sessions idt) sid = Some s" "\<not> of_device did idt' sid" for sid s
  proof -
    have "se_device_id s \<noteq> did" using that same by (auto simp: of_device_def)
    then show ?thesis using that(1) so assms(2) by (auto simp: sessions_ok_def backed_def one_device_def)
  qed
  have s: "sessions_ok (invalidate_device did idt')"
    using so same len cnt bk
    by (subst invalidate_device_drop) (auto simp: sessions_ok_def session_limit_def backed_def hm_wf_filter get_filter_key split: if_splits)
  have "devices_ok X (invalidate_device did idt')" "failures_ok (invalidate_device did idt')"
    using assms(2) so same by (auto simp: invalidate_device_drop sessions_ok_def one_device_def devices_ok_def failures_ok_def)
  with p s show ?thesis by (simp add: identity_inv_def)
qed

lemma one_device_unlocked_inv:
  assumes "identity_inv X idt" and "one_device X did idt idt'"
    and "hm_get (id_devices idt') did = Some d" and "\<not> dv_locked d"
  shows "identity_inv X idt'"
proof -
  have same: "id_sessions idt' = id_sessions idt" "id_peers idt' = id_peers idt" "id_next_peer idt' = id_next_peer idt"
      "id_policy idt' = id_policy idt" using assms(2) by (auto simp: one_device_def)
  have "backed idt' s" if "backed idt s" for s
    using that assms(2-4) by (cases "se_device_id s = did") (auto simp: backed_def one_device_def)
  then have "sessions_ok idt'" using assms(1) same by (simp add: identity_inv_def sessions_ok_def session_limit_def)
  moreover have "peers_ok idt'" using assms(1) same by (simp add: identity_inv_def peers_ok_def peer_attached_def)
  ultimately show ?thesis using assms(2) by (simp add: identity_inv_def one_device_def)
qed

lemma devices_ok_update:
  assumes "devices_ok X idt" and "hm_get (id_devices idt) did = Some d" and "dv_device_id d' = dv_device_id d"
    and "device_valid X (strip d')" and "map cred_key (dv_credentials d') = map cred_key (dv_credentials d)"
  shows "devices_ok X (idt\<lparr>id_devices := hm_insert did d' (id_devices idt)\<rparr>)"
  using assms creds_disjoint_same [OF _ assms(2,5)] by (auto simp: devices_ok_def length_hm_insert)

lemma failures_ok_update:
  assumes "failures_ok idt" and "\<forall>n. hm_get (id_failures idt) did = Some n \<longrightarrow> dv_locked d' \<or> unat n < 5"
  shows "failures_ok (idt\<lparr>id_devices := hm_insert did d' (id_devices idt)\<rparr>)"
  using assms by (auto simp: failures_ok_def)

text \<open>A device that keeps its identity, its credentials' keys and its validity.\<close>

definition same_device :: "ext \<Rightarrow> device \<Rightarrow> device \<Rightarrow> bool" where
  "same_device X d d' \<longleftrightarrow> dv_device_id d' = dv_device_id d
     \<and> map cred_key (dv_credentials d') = map cred_key (dv_credentials d)
     \<and> (device_valid X (strip d) \<longrightarrow> device_valid X (strip d'))"

lemma one_device_update:
  assumes "identity_inv X idt" and "hm_get (id_devices idt) did = Some d" and "same_device X d d'"
    and "\<forall>n. hm_get (id_failures idt) did = Some n \<longrightarrow> dv_locked d' \<or> unat n < 5"
  shows "one_device X did idt (idt\<lparr>id_devices := hm_insert did d' (id_devices idt)\<rparr>)"
proof -
  have "devices_ok X idt" "failures_ok idt" using assms(1) by (auto simp: identity_inv_def)
  moreover from this assms(2) have "device_valid X (strip d)" by (auto simp: devices_ok_def)
  ultimately show ?thesis
    using assms(2-4) devices_ok_update [of X idt did d d'] failures_ok_update [of idt did d']
    by (simp add: one_device_def same_device_def)
qed

lemma unlocked_failures:
  assumes "identity_inv X idt" and "hm_get (id_devices idt) did = Some d" and "dv_locked d' = dv_locked d"
  shows "\<forall>n. hm_get (id_failures idt) did = Some n \<longrightarrow> dv_locked d' \<or> unat n < 5"
  using assms by (fastforce simp: identity_inv_def failures_ok_def)

lemma strip_last_seen: "strip (d\<lparr>dv_last_seen := t\<rparr>) = strip d"
  by (simp add: strip_def)

lemma same_device_seen: "same_device X d (d\<lparr>dv_last_seen := t\<rparr>)"
  by (simp add: same_device_def strip_last_seen)

lemma set_session_inv:
  assumes "identity_inv X idt" and "hm_get (id_sessions idt) sid = Some s" and "se_device_id s' = se_device_id s"
  shows "identity_inv X (idt\<lparr>id_sessions := hm_insert sid s' (id_sessions idt)\<rparr>)"
proof -
  have "hm_count (\<lambda>s. se_device_id s = did) (hm_insert sid s' (id_sessions idt)) \<le> 4" for did
    by (rule order_trans [OF hm_count_insert_le_old [OF assms(2)]])
      (use assms(1,3) in \<open>auto simp: identity_inv_def sessions_ok_def\<close>)
  moreover have "backed idt s'" using assms by (auto simp: identity_inv_def sessions_ok_def backed_def)
  ultimately have "sessions_ok (idt\<lparr>id_sessions := hm_insert sid s' (id_sessions idt)\<rparr>)"
    using assms(1,2) by (auto simp: identity_inv_def sessions_ok_def length_hm_insert backed_def session_limit_def)
  moreover have "peers_ok (idt\<lparr>id_sessions := hm_insert sid s' (id_sessions idt)\<rparr>)"
    using assms by (fastforce simp: identity_inv_def peers_ok_def peer_attached_def)
  ultimately show ?thesis using assms(1) by (simp add: identity_inv_def devices_ok_def failures_ok_def)
qed

section \<open>The operations keep the invariant\<close>

lemma validate_cases:
  assumes "validate sid rp scope now idt = (r, idt')"
  obtains (refused) "\<not> r" "idt' = idt \<or> idt' = invalidate_session sid idt"
    | (accepted) s d where "r" "hm_get (id_sessions idt) sid = Some s" "active idt s now" "se_rp_id s = rp"
        "hm_get (id_devices idt) (se_device_id s) = Some d" "\<not> dv_locked d" "granted idt d scope now"
        "scope \<noteq> View \<Longrightarrow> \<exists>until. scope_until s scope = Some until \<and> now < until"
        "idt' = idt\<lparr>id_sessions := hm_insert sid (s\<lparr>se_last_seen := now\<rparr>) (id_sessions idt),
                    id_devices := hm_insert (se_device_id s) (d\<lparr>dv_last_seen := now\<rparr>) (id_devices idt),
                    id_dirty_devices := List.insert (se_device_id s) (id_dirty_devices idt)\<rparr>"
proof (cases r)
  case False
  then show ?thesis using assms
    by (intro refused) (auto simp: validate_def split: option.splits if_splits)
next
  case True
  with assms obtain s d where sd: "hm_get (id_sessions idt) sid = Some s" "active idt s now"
      "hm_get (id_devices idt) (se_device_id s) = Some d"
    by (auto simp: validate_def split: option.splits if_splits)
  then have "\<not> dv_locked d" by (simp add: active_def)
  with True assms sd show ?thesis
    by (intro accepted [of s d]) (auto simp: validate_def split: option.splits if_splits)
qed

lemma validate_inv:
  assumes "validate sid rp scope now idt = (r, idt')" and inv: "identity_inv X idt"
  shows "identity_inv X idt'"
  using assms(1)
proof (cases rule: validate_cases)
  case refused
  with inv show ?thesis using invalidate_session_inv by blast
next
  case (accepted s d)
  let ?i = "idt\<lparr>id_devices := hm_insert (se_device_id s) (d\<lparr>dv_last_seen := now\<rparr>) (id_devices idt)\<rparr>"
  have "one_device X (se_device_id s) idt ?i"
    using one_device_update [OF inv accepted(5) same_device_seen unlocked_failures [OF inv accepted(5)]] by simp
  then have "identity_inv X ?i"
    by (rule one_device_unlocked_inv [OF inv, where d = "d\<lparr>dv_last_seen := now\<rparr>"]) (use accepted(6) in simp_all)
  from set_session_inv [OF this, of sid s "s\<lparr>se_last_seen := now\<rparr>"] accepted(2)
  have "identity_inv X (?i\<lparr>id_sessions := hm_insert sid (s\<lparr>se_last_seen := now\<rparr>) (id_sessions idt)\<rparr>)" by simp
  moreover have "idt' = ?i\<lparr>id_sessions := hm_insert sid (s\<lparr>se_last_seen := now\<rparr>) (id_sessions idt)\<rparr>
      \<lparr>id_dirty_devices := List.insert (se_device_id s) (id_dirty_devices idt)\<rparr>"
    unfolding accepted(9) by (cases idt) simp
  ultimately show ?thesis by simp
qed

lemma revalidate_inv: "revalidate ctx scope now idt = (r, idt') \<Longrightarrow> identity_inv X idt \<Longrightarrow> identity_inv X idt'"
  by (auto simp: revalidate_def split: option.splits if_splits intro: validate_inv)

lemma authenticate_inv: "authenticate X hs rp now idt = (r, idt') \<Longrightarrow> identity_inv X idt \<Longrightarrow> identity_inv X idt'"
  by (auto simp: authenticate_def split: option.splits if_splits list.splits prod.splits bool.splits intro: validate_inv)

lemma elevate_cases:
  assumes "elevate ctx scope now0 now idt = (r, idt')"
  obtains (refused) idt1 b where "r = None" "revalidate ctx View now0 idt = (b, idt1)" "idt' = idt1"
    | (raised) idt1 s d cap where "r = Some (elevation_until idt1 s cap now)" "revalidate ctx View now0 idt = (True, idt1)"
        "hm_get (id_sessions idt1) (cx_session_id ctx) = Some s" "active idt1 s now"
        "hm_get (id_devices idt1) (se_device_id s) = Some d" "elevation_cap idt1 d scope now = Some cap"
        "now < elevation_until idt1 s cap now"
        "idt' = idt1\<lparr>id_sessions := hm_insert (cx_session_id ctx) (set_elevation scope (elevation_until idt1 s cap now) now s)
                       (id_sessions idt1)\<rparr>"
proof -
  obtain b idt1 where rv: "revalidate ctx View now0 idt = (b, idt1)" by (cases "revalidate ctx View now0 idt")
  show ?thesis
  proof (cases "r = None")
    case True
    then show ?thesis using assms rv
      by (intro refused [of b idt1]) (auto simp: elevate_def Let_def split: bool.splits option.splits if_splits)
  next
    case False
    then show ?thesis using assms rv raised
      by (auto simp: elevate_def Let_def not_le split: bool.splits option.splits if_splits)
  qed
qed

lemma set_elevation_device [simp]: "se_device_id (set_elevation scope until now s) = se_device_id s"
  by (cases scope) (simp_all add: set_elevation_def)

lemma elevate_inv: "elevate ctx scope now0 now idt = (r, idt') \<Longrightarrow> identity_inv X idt \<Longrightarrow> identity_inv X idt'"
  by (erule elevate_cases) (auto intro: revalidate_inv set_session_inv)

subsection \<open>Notifications\<close>

lemma notify_snapshot_sel:
  assumes "notify_snapshot did idt es = (idt', es')"
  shows "id_devices idt' = id_devices idt" "id_sessions idt' = id_sessions idt" "id_peers idt' = id_peers idt"
    "id_failures idt' = id_failures idt" "id_policy idt' = id_policy idt"
  using assms by (auto simp: notify_snapshot_def Let_def split: option.splits bool.splits prod.splits)

lemma notify_snapshot_inv:
  assumes "notify_snapshot did idt es = (idt', es')" and inv: "identity_inv X idt"
  shows "identity_inv X idt'"
proof -
  let ?i = "idt\<lparr>id_dirty_devices := filter (\<lambda>x. x \<noteq> did) (id_dirty_devices idt)\<rparr>"
  have "idt' = ?i \<or> (\<exists>m. hm_wf m \<and> idt' = ?i\<lparr>id_notifications := m\<rparr>)"
    using assms(1) inv_wf(4) [OF inv]
    by (auto simp: notify_snapshot_def Let_def split: option.splits bool.splits prod.splits)
  then show ?thesis using inv inv_notifications [of X ?i] by auto
qed

lemma notify_all_inv: "notify_all dids idt es = (idt', es') \<Longrightarrow> identity_inv X idt \<Longrightarrow> identity_inv X idt'"
proof (induction dids arbitrary: idt es)
  case (Cons did dids)
  obtain idt1 es1 where n: "notify_snapshot did idt es = (idt1, es1)" by (cases "notify_snapshot did idt es")
  with Cons.prems Cons.IH [of idt1 es1] notify_snapshot_inv [OF n] show ?case by simp
qed simp

lemma flush_subset: "flush_notifications m es = (m', es') \<Longrightarrow> set m' \<subseteq> set m \<and> (hm_wf m \<longrightarrow> hm_wf m')"
proof (induction m arbitrary: es m' es')
  case (Cons e m)
  obtain did d where e: "e = (did, d)" by (cases e)
  obtain ok es1 where t: "try_emit es (notification did d) = (ok, es1)" by (cases "try_emit es (notification did d)")
  obtain m1 es2 where f: "flush_notifications m es1 = (m1, es2)" by (cases "flush_notifications m es1")
  have "fst ` set m1 \<subseteq> fst ` set m" using Cons.IH [OF f] by (intro image_mono) simp
  with Cons.IH [OF f] Cons.prems e t f show ?case by (auto split: if_splits)
qed simp

lemma maintenance_inv:
  assumes "identity_maintenance now idt es = (idt', es')" and inv: "identity_inv X idt"
  shows "identity_inv X idt'"
proof -
  let ?p = "purge_expired now idt"
  obtain idt1 es1 where n: "notify_all (id_dirty_devices ?p) (?p\<lparr>id_dirty_devices := []\<rparr>) es = (idt1, es1)"
    by (cases "notify_all (id_dirty_devices ?p) (?p\<lparr>id_dirty_devices := []\<rparr>) es")
  obtain m es2 where f: "flush_notifications (id_notifications idt1) es1 = (m, es2)"
    by (cases "flush_notifications (id_notifications idt1) es1")
  have i1: "identity_inv X idt1" using notify_all_inv [OF n] purge_inv [OF inv] by simp
  then show ?thesis using assms(1) n f flush_subset [OF f] inv_wf(4) [OF i1] inv_notifications [OF i1]
    by (auto simp: identity_maintenance_def Let_def)
qed

subsection \<open>Commands\<close>

lemma device_change_same:
  "device_change command d = Inr (name, widens, Some d') \<Longrightarrow> same_device X d d'"
  by (auto simp: device_change_def same_device_def Let_def device_valid_def strip_def
      split: device_command.splits if_splits option.splits)

lemma device_change_locked:
  "device_change command d = Inr (name, widens, Some d') \<Longrightarrow> \<not> clears_failures command \<Longrightarrow> dv_locked d' = dv_locked d"
  by (auto simp: device_change_def clears_failures_def Let_def split: device_command.splits if_splits option.splits)

lemma failures_ok_remove: "failures_ok idt \<Longrightarrow> failures_ok (idt\<lparr>id_failures := hm_remove did (id_failures idt)\<rparr>)"
  by (auto simp: failures_ok_def split: if_splits)

lemma commit_change_inv:
  assumes inv: "identity_inv X idt" and d: "hm_get (id_devices idt) did = Some d"
    and c: "device_change command d = Inr (name, widens, snapshot)"
  shows "identity_inv X (commit_change command did snapshot idt)"
proof -
  let ?F = "if clears_failures command then hm_remove did (id_failures idt) else id_failures idt"
  let ?i = "idt\<lparr>id_dirty_devices := filter (\<lambda>x. x \<noteq> did) (id_dirty_devices idt), id_failures := ?F,
            id_devices := put_device did snapshot (id_devices idt)\<rparr>"
  have ok: "devices_ok X idt" "failures_ok idt" using inv by (auto simp: identity_inv_def)
  have "one_device X did idt ?i"
  proof (cases snapshot)
    case None
    have "clears_failures command" using c None
      by (auto simp: device_change_def clears_failures_def Let_def split: device_command.splits if_splits option.splits)
    then have "failures_ok ?i" using ok(2) None by (auto simp: failures_ok_def put_device_def split: if_splits)
    moreover have "devices_ok X ?i" using ok(1) None creds_disjoint_remove
      by (auto simp: devices_ok_def put_device_def intro: order_trans [OF length_hm_remove_le] split: if_splits)
    ultimately show ?thesis using None by (simp add: one_device_def put_device_def)
  next
    case (Some d')
    have same: "same_device X d d'" using device_change_same c Some by blast
    have "device_valid X (strip d)" using ok(1) d by (simp add: devices_ok_def)
    then have "devices_ok X (idt\<lparr>id_devices := hm_insert did d' (id_devices idt)\<rparr>)"
      using same by (intro devices_ok_update [OF ok(1) d]) (simp_all add: same_device_def)
    then have "devices_ok X ?i" using Some by (simp add: devices_ok_def put_device_def)
    moreover have "failures_ok ?i"
    proof (cases "clears_failures command")
      case True
      then show ?thesis using ok(2) Some by (simp add: failures_ok_def put_device_def)
    next
      case False
      then have "dv_locked d' = dv_locked d" using device_change_locked c Some by blast
      with False show ?thesis using ok(2) d Some by (fastforce simp: failures_ok_def put_device_def)
    qed
    ultimately show ?thesis using Some by (simp add: one_device_def put_device_def)
  qed
  from one_device_inv [OF inv this] show ?thesis by (simp add: commit_change_def)
qed

lemma device_command_cases:
  assumes "device_command_run X command idt es = (r, idt', es')"
  obtains (refused) f where "r = Inl f" "idt' = idt" "es' = es"
    | (widened) d name snapshot where "r = Inr Applied" "hm_get (id_devices idt) (command_device command) = Some d"
        "device_change command d = Inr (name, True, snapshot)" "hm_get (id_notifications idt) (command_device command) = None"
        "try_emit_event es (notification (command_device command) snapshot) = (Inr (), es')"
        "idt' = commit_change command (command_device command) snapshot idt"
    | (tightened) d name snapshot ok where "hm_get (id_devices idt) (command_device command) = Some d"
        "device_change command d = Inr (name, False, snapshot)"
        "try_emit es (notification (command_device command) snapshot) = (ok, es')"
        "r = Inr (if ok then Applied else NotificationDeferred name (command_device command))"
        "idt' = (let i = commit_change command (command_device command) snapshot idt;
                     m = hm_insert (command_device command) snapshot (id_notifications i)
                 in i\<lparr>id_notifications := (if ok then hm_remove (command_device command) m else m)\<rparr>)"
proof -
  let ?did = "command_device command"
  consider (bad) "decode X 16 ?did = None \<or> hm_get (id_devices idt) ?did = None"
    | (fail) d f where "decode X 16 ?did \<noteq> None" "hm_get (id_devices idt) ?did = Some d" "device_change command d = Inl f"
    | (go) d name w snapshot where "decode X 16 ?did \<noteq> None" "hm_get (id_devices idt) ?did = Some d"
        "device_change command d = Inr (name, w, snapshot)"
  proof (cases "decode X 16 ?did = None \<or> hm_get (id_devices idt) ?did = None")
    case False
    then obtain d where d: "hm_get (id_devices idt) ?did = Some d" by auto
    then show ?thesis using False that(2,3) by (cases "device_change command d") auto
  qed (rule that(1))
  then show ?thesis
  proof cases
    case bad
    then show ?thesis using assms by (intro refused) (auto simp: device_command_run_def Let_def split: option.splits)
  next
    case fail
    then show ?thesis using assms by (intro refused) (auto simp: device_command_run_def Let_def)
  next
    case (go d name w snapshot)
    obtain r1 es1 where t: "try_emit_event es (notification ?did snapshot) = (r1, es1)"
      by (cases "try_emit_event es (notification ?did snapshot)")
    show ?thesis
    proof (cases w)
      case True
      show ?thesis
      proof (cases "hm_get (id_notifications idt) ?did = None")
        case n: True
        show ?thesis
        proof (cases r1)
          case (Inl f)
          then show ?thesis using assms go True n t try_emit_event_Inl [OF t [unfolded Inl]]
            by (intro refused [of f]) (auto simp: device_command_run_def Let_def)
        next
          case (Inr u)
          then show ?thesis using assms go True n t
            by (intro widened [of d name snapshot]) (auto simp: device_command_run_def Let_def)
        qed
      next
        case False
        then show ?thesis using assms go True by (intro refused [of QUEUE_UNAVAILABLE]) (auto simp: device_command_run_def Let_def)
      qed
    next
      case False
      obtain ok es2 where e: "try_emit es (notification ?did snapshot) = (ok, es2)" by (cases "try_emit es (notification ?did snapshot)")
      show ?thesis using assms go False e
        by (intro tightened [of d name snapshot ok]) (auto simp: device_command_run_def Let_def split: bool.splits)
    qed
  qed
qed

lemma commit_notifications [simp]: "id_notifications (commit_change command did snapshot idt) = id_notifications idt"
  by (simp add: commit_change_def invalidate_device_def fold_invalidate)

lemma device_command_inv:
  assumes "device_command_run X command idt es = (r, idt', es')" and inv: "identity_inv X idt"
  shows "identity_inv X idt'"
  using assms(1)
proof (cases rule: device_command_cases)
  case (tightened d name snapshot ok)
  let ?i = "commit_change command (command_device command) snapshot idt"
  have "identity_inv X ?i" by (rule commit_change_inv [OF inv tightened(1,2)])
  then show ?thesis unfolding tightened(5) Let_def using inv_wf(4) [OF inv] by (intro inv_notifications) auto
qed (use inv commit_change_inv in auto)

subsection \<open>Registration\<close>

lemma register_cases:
  assumes "register_verified X pairing v now1 now2 now3 idt es = (r, idt', es')"
  obtains (refused) f where "r = Inl f" "idt' = idt" "es' = es"
    | (added) d base where "r = Inr (vr_device_id v)" "now1 < po_enable_until (id_policy idt)" "now2 < rg_deadline pairing"
        "registration_base pairing (vr_device_id v) now3 idt = Inr base"
        "d = base\<lparr>dv_credentials := dv_credentials base @ [vr_record v]\<rparr>" "device_valid X d"
        "\<And>k e c. hm_get (id_devices idt) k = Some e \<Longrightarrow> c \<in> set (dv_credentials e) \<Longrightarrow> cred_key c \<noteq> cred_key (vr_record v)"
        "try_emit_event es (if rg_add_to_device pairing \<noteq> None then DeviceUpdated d else DeviceRegistered d) = (Inr (), es')"
        "idt' = invalidate_device (vr_device_id v) (idt\<lparr>id_devices := hm_insert (vr_device_id v) d (id_devices idt)\<rparr>)"
proof -
  let ?did = "vr_device_id v"
  let ?dup = "list_ex (\<lambda>d. list_ex (\<lambda>k. cr_id k = cr_id (vr_record v) \<and> cr_rp_id k = cr_rp_id (vr_record v)) (dv_credentials d)) (map snd (id_devices idt))"
  show ?thesis
  proof (cases "po_enable_until (id_policy idt) \<le> now1 \<or> rg_deadline pairing \<le> now2 \<or> ?dup")
    case True
    then show ?thesis using assms by (intro refused [of REJECTED]) (auto simp: register_verified_def Let_def split: if_splits)
  next
    case False
    then have new: "cred_key c \<noteq> cred_key (vr_record v)" if "hm_get (id_devices idt) k = Some e" "c \<in> set (dv_credentials e)" for k e c
      using that hm_get_in [OF that(1)] by (force simp: list_ex_iff cred_key_def)
    show ?thesis
    proof (cases "registration_base pairing ?did now3 idt")
      case (Inl f)
      then show ?thesis using assms False by (intro refused [of f]) (auto simp: register_verified_def Let_def)
    next
      case (Inr base)
      define d where "d = base\<lparr>dv_credentials := dv_credentials base @ [vr_record v]\<rparr>"
      define e where "e = (if rg_add_to_device pairing \<noteq> None then DeviceUpdated d else DeviceRegistered d)"
      obtain r1 es1 where t: "try_emit_event es e = (r1, es1)" by (cases "try_emit_event es e")
      have run: "register_verified X pairing v now1 now2 now3 idt es =
          (if \<not> device_valid X d then (Inl REJECTED, idt, es) else (case try_emit_event es e of (Inl f, es) \<Rightarrow> (Inl f, idt, es)
             | (Inr _, es) \<Rightarrow> (Inr ?did, invalidate_device ?did (idt\<lparr>id_devices := hm_insert ?did d (id_devices idt)\<rparr>), es)))"
        using False Inr unfolding e_def d_def by (simp add: register_verified_def Let_def)
      show ?thesis
      proof (cases "device_valid X d \<and> isl r1 = False")
        case True
        then obtain u where r1: "r1 = Inr u" by (cases r1) auto
        have res: "r = Inr ?did" "idt' = invalidate_device ?did (idt\<lparr>id_devices := hm_insert ?did d (id_devices idt)\<rparr>)" "es' = es1"
          using assms run t r1 True by simp_all
        have "now1 < po_enable_until (id_policy idt)" "now2 < rg_deadline pairing" using False by auto
        from added [OF res(1) this Inr d_def _ new _ res(2)] show ?thesis
          using True t [unfolded e_def r1] res(3) by simp
      next
        case f: False
        then show ?thesis using assms run t try_emit_event_Inl [of es e]
          by (cases "device_valid X d"; cases r1) (auto intro: refused)
      qed
    qed
  qed
qed

lemma registration_base_device:
  assumes "registration_base pairing did now idt = Inr base" and "devices_ok X idt"
  shows "dv_device_id base = did
    \<and> (hm_get (id_devices idt) did = Some base \<and> \<not> dv_locked base
       \<or> hm_get (id_devices idt) did = None \<and> length (id_devices idt) < po_max_devices (id_policy idt) \<and> dv_credentials base = []
         \<and> \<not> dv_locked base)"
  using assms
  by (auto simp: registration_base_def registration_target_def new_device_def devices_ok_def split: option.splits if_splits)

lemma valid_strip: "device_valid X d \<Longrightarrow> device_valid X (strip d)"
  by (simp add: device_valid_def strip_def)

lemma register_inv:
  assumes "register_verified X pairing v now1 now2 now3 idt es = (r, idt', es')" and inv: "identity_inv X idt"
  shows "identity_inv X idt'"
  using assms(1)
proof (cases rule: register_cases)
  case (added d base)
  let ?did = "vr_device_id v"
  have ok: "devices_ok X idt" "failures_ok idt" using inv by (auto simp: identity_inv_def)
  note base = registration_base_device [OF added(4) ok(1)]
  have d: "dv_device_id d = ?did" "dv_locked d = dv_locked base" "dv_credentials d = dv_credentials base @ [vr_record v]"
    using base by (simp_all add: added(5))
  have "cred_key c \<noteq> cred_key c'" if "k \<noteq> ?did" "hm_get (id_devices idt) k = Some e" "c \<in> set (dv_credentials d)" "c' \<in> set (dv_credentials e)" for k e c c'
  proof (cases "c = vr_record v")
    case True
    then show ?thesis using added(7) [OF that(2,4)] by simp
  next
    case False
    then have "c \<in> set (dv_credentials base)" using that(3) d by simp
    with base that ok(1) show ?thesis by (auto simp: devices_ok_def creds_disjoint_def)
  qed
  then have "creds_disjoint (hm_insert ?did d (id_devices idt))"
    using ok(1) by (intro creds_disjoint_insert) (auto simp: devices_ok_def)
  then have "devices_ok X (idt\<lparr>id_devices := hm_insert ?did d (id_devices idt)\<rparr>)"
    using ok(1) base d added(6) valid_strip by (auto simp: devices_ok_def length_hm_insert)
  moreover have "failures_ok (idt\<lparr>id_devices := hm_insert ?did d (id_devices idt)\<rparr>)"
    using ok(2) base by (intro failures_ok_update) (fastforce simp: failures_ok_def)+
  ultimately have "one_device X ?did idt (idt\<lparr>id_devices := hm_insert ?did d (id_devices idt)\<rparr>)"
    by (simp add: one_device_def)
  from one_device_inv [OF inv this] show ?thesis unfolding added(9) .
qed (use inv in simp)

subsection \<open>Assertions\<close>

lemma failures_ok_count:
  assumes "failures_ok idt" and "hm_get (id_devices idt) did = Some d" and "dv_locked d \<or> unat n < 5"
  shows "failures_ok (idt\<lparr>id_failures := hm_insert did n (id_failures idt)\<rparr>)"
  using assms by (auto simp: failures_ok_def)

lemma inv_failures:
  "identity_inv X idt \<Longrightarrow> failures_ok (idt\<lparr>id_failures := F\<rparr>) \<Longrightarrow> identity_inv X (idt\<lparr>id_failures := F\<rparr>)"
  by (simp add: identity_inv_def sessions_ok_def peers_ok_def devices_ok_def backed_def session_limit_def peer_attached_def)

lemma same_device_locked: "same_device X d (d\<lparr>dv_locked := b\<rparr>)"
  by (simp add: same_device_def device_valid_def strip_def)

definition lock_device :: "string \<Rightarrow> device \<Rightarrow> identity \<Rightarrow> identity" where
  "lock_device did d idt = invalidate_device did (idt\<lparr>id_devices := hm_insert did (d\<lparr>dv_locked := True\<rparr>) (id_devices idt)\<rparr>)"

lemma assertion_failed_cases:
  assumes "assertion_failed did rollback idt es = (idt', es')"
  obtains (skipped) "idt' = idt" "es' = es" "\<And>d. hm_get (id_devices idt) did = Some d \<Longrightarrow> dv_locked d"
    | (counted) d n where "hm_get (id_devices idt) did = Some d" "\<not> dv_locked d" "\<not> rollback"
        "n = saturating_add (case hm_get (id_failures idt) did of None \<Rightarrow> 0 | Some n \<Rightarrow> n) 1" "unat n < 5"
        "idt' = idt\<lparr>id_failures := hm_insert did n (id_failures idt)\<rparr>" "es' = es"
    | (locked) d n where "hm_get (id_devices idt) did = Some d" "\<not> dv_locked d"
        "notify_snapshot did (lock_device did d (idt\<lparr>id_failures := hm_insert did n (id_failures idt)\<rparr>)) es = (idt', es')"
proof (cases "\<exists>d. hm_get (id_devices idt) did = Some d \<and> \<not> dv_locked d")
  case False
  then show ?thesis using assms by (intro skipped) (auto simp: assertion_failed_def split: option.splits if_splits)
next
  case True
  then obtain d where d: "hm_get (id_devices idt) did = Some d" "\<not> dv_locked d" by blast
  define n where "n = saturating_add (case hm_get (id_failures idt) did of None \<Rightarrow> 0 | Some n \<Rightarrow> n) 1"
  have run: "assertion_failed did rollback idt es =
      (if rollback \<or> 5 \<le> n then notify_snapshot did (lock_device did d (idt\<lparr>id_failures := hm_insert did n (id_failures idt)\<rparr>)) es
       else (idt\<lparr>id_failures := hm_insert did n (id_failures idt)\<rparr>, es))"
    using d unfolding n_def by (simp add: assertion_failed_def lock_device_def Let_def)
  show ?thesis
  proof (cases "rollback \<or> 5 \<le> n")
    case True
    with run assms d show ?thesis by (intro locked [of d n]) simp_all
  next
    case False
    with run assms d n_def show ?thesis by (intro counted [of d n]) (simp_all add: word_le_nat_alt)
  qed
qed

lemma lock_device_inv:
  assumes "identity_inv X idt" and "hm_get (id_devices idt) did = Some d"
  shows "identity_inv X (lock_device did d (idt\<lparr>id_failures := hm_insert did n (id_failures idt)\<rparr>))"
proof -
  let ?i = "idt\<lparr>id_failures := hm_insert did n (id_failures idt)\<rparr>"
  let ?d = "d\<lparr>dv_locked := True\<rparr>"
  have ok: "devices_ok X idt" "failures_ok idt" using assms(1) by (auto simp: identity_inv_def)
  have "devices_ok X (idt\<lparr>id_devices := hm_insert did ?d (id_devices idt)\<rparr>)"
    using same_device_locked [of X d True] ok(1) assms(2) by (intro devices_ok_update [OF ok(1) assms(2)]) (simp_all add: same_device_def devices_ok_def)
  then have "devices_ok X (?i\<lparr>id_devices := hm_insert did ?d (id_devices idt)\<rparr>)" by (simp add: devices_ok_def)
  moreover have "failures_ok (?i\<lparr>id_devices := hm_insert did ?d (id_devices idt)\<rparr>)"
    using ok(2) by (auto simp: failures_ok_def)
  ultimately have "one_device X did idt (?i\<lparr>id_devices := hm_insert did ?d (id_devices idt)\<rparr>)" by (simp add: one_device_def)
  from one_device_inv [OF assms(1) this] show ?thesis by (simp add: lock_device_def)
qed

lemma assertion_failed_inv:
  assumes "assertion_failed did rollback idt es = (idt', es')" and inv: "identity_inv X idt"
  shows "identity_inv X idt'"
  using assms(1)
proof (cases rule: assertion_failed_cases)
  case (counted d n)
  have "failures_ok idt" using inv by (simp add: identity_inv_def)
  then show ?thesis unfolding counted(6) using failures_ok_count [OF _ counted(1), of n] counted(5) by (intro inv_failures [OF inv]) simp
next
  case (locked d n)
  show ?thesis by (rule notify_snapshot_inv [OF locked(3) lock_device_inv [OF inv locked(1)]])
qed (use inv in simp)

lemma verified_backup: "verify_assertion X W rp server response did c pol scope = Inr va \<Longrightarrow> va_backup_state va \<longrightarrow> cr_backup_eligible c"
  by (auto simp: verify_assertion_def policy_accepts_def Let_def split: if_splits sum.splits option.splits)

lemma update_first_keys: "(\<And>c. key (f c) = key c) \<Longrightarrow> map key (update_first P f cs) = map key cs"
  by (induction cs) auto

lemma update_first_all:
  "list_all Q cs \<Longrightarrow> (\<And>c. List.find P cs = Some c \<Longrightarrow> Q c \<Longrightarrow> Q (f c)) \<Longrightarrow> list_all Q (update_first P f cs)"
  by (induction cs) auto

lemma update_first_length [simp]: "length (update_first P f cs) = length cs"
  by (induction cs) auto

definition record_assertion :: "string \<Rightarrow> string \<Rightarrow> verified_assertion \<Rightarrow> timestamp \<Rightarrow> device \<Rightarrow> device" where
  "record_assertion cid rp va now d =
     d\<lparr>dv_credentials := update_first (\<lambda>c. cr_id c = cid \<and> cr_rp_id c = rp)
          (\<lambda>c. c\<lparr>cr_sign_count := va_sign_count va, cr_backup_state := va_backup_state va\<rparr>) (dv_credentials d),
       dv_last_seen := now\<rparr>"

lemma same_device_recorded:
  assumes "\<And>c. List.find (\<lambda>c. cr_id c = cid \<and> cr_rp_id c = rp) (dv_credentials d) = Some c \<Longrightarrow> va_backup_state va \<longrightarrow> cr_backup_eligible c"
  shows "same_device X d (record_assertion cid rp va now d)"
proof -
  let ?f = "\<lambda>c. c\<lparr>cr_sign_count := va_sign_count va, cr_backup_state := va_backup_state va\<rparr>"
  let ?P = "\<lambda>c. cr_id c = cid \<and> cr_rp_id c = rp"
  have keys: "map cred_key (update_first ?P ?f (dv_credentials d)) = map cred_key (dv_credentials d)"
    by (rule update_first_keys) (simp add: cred_key_def)
  have "list_all (credential_valid X) (update_first ?P ?f (dv_credentials d))" if "list_all (credential_valid X) (dv_credentials d)"
    using that assms by (intro update_first_all) (auto simp: credential_valid_def)
  moreover have "update_first ?P ?f (dv_credentials d) \<noteq> []" if "dv_credentials d \<noteq> []"
    using that update_first_length [of ?P ?f "dv_credentials d"] by fastforce
  ultimately show ?thesis using keys by (auto simp: same_device_def record_assertion_def device_valid_def strip_def)
qed

lemma assertion_verified_run:
  "hm_get (id_devices idt) did = Some d \<Longrightarrow> assertion_verified did cid rp va now idt es =
     notify_snapshot did (idt\<lparr>id_devices := hm_insert did (record_assertion cid rp va now d) (id_devices idt),
                              id_failures := hm_remove did (id_failures idt)\<rparr>) es"
  by (simp add: assertion_verified_def record_assertion_def Let_def)

lemma assertion_verified_inv:
  assumes "assertion_verified did cid rp va now idt es = (idt', es')" and inv: "identity_inv X idt"
    and d: "hm_get (id_devices idt) did = Some d" "\<not> dv_locked d"
    and backup: "\<And>c. List.find (\<lambda>c. cr_id c = cid \<and> cr_rp_id c = rp) (dv_credentials d) = Some c \<Longrightarrow> va_backup_state va \<longrightarrow> cr_backup_eligible c"
  shows "identity_inv X idt'"
proof -
  let ?d = "record_assertion cid rp va now d"
  have "one_device X did idt (idt\<lparr>id_devices := hm_insert did ?d (id_devices idt)\<rparr>)"
    by (rule one_device_update [OF inv d(1) same_device_recorded [OF backup] unlocked_failures [OF inv d(1)]])
      (simp_all add: record_assertion_def)
  then have i: "identity_inv X (idt\<lparr>id_devices := hm_insert did ?d (id_devices idt)\<rparr>)"
    by (rule one_device_unlocked_inv [OF inv, where d = ?d]) (use d(2) in \<open>simp_all add: record_assertion_def\<close>)
  then have "failures_ok (idt\<lparr>id_devices := hm_insert did ?d (id_devices idt)\<rparr>)" by (simp add: identity_inv_def)
  from inv_failures [OF i] failures_ok_remove [OF this, of did]
  have "identity_inv X (idt\<lparr>id_devices := hm_insert did ?d (id_devices idt), id_failures := hm_remove did (id_failures idt)\<rparr>)" by simp
  from notify_snapshot_inv [OF assms(1) [unfolded assertion_verified_run [OF d(1)]] this] show ?thesis .
qed

end
