(* ===== verification/Session_Steps.thy ===== *)
theory Session_Steps
  imports Session_Props
begin

text \<open>
  Logins, elevations and peers, the steps of the identity table, and the invariant in every
  reachable state.
\<close>

section \<open>Logins and peers\<close>

lemma evict_session_drop:
  assumes "hm_wf (id_sessions idt)"
  shows "\<exists>P. evict_session did idt = drop_sessions P idt"
proof (cases "4 \<le> hm_count (\<lambda>s. se_device_id s = did) (id_sessions idt)")
  case True
  then show ?thesis
    by (cases "min_by_key (\<lambda>e. se_created_at (snd e)) (filter (\<lambda>e. se_device_id (snd e) = did) (id_sessions idt))")
      (auto simp: evict_session_def invalidate_is_drop intro: exI [of _ "\<lambda>_. False"] simp: drop_none)
next
  case False
  then show ?thesis by (intro exI [of _ "\<lambda>_. False"]) (simp add: evict_session_def drop_none)
qed

lemma evict_session_room:
  assumes "hm_wf (id_sessions idt)" and "hm_count (\<lambda>s. se_device_id s = did) (id_sessions idt) \<le> 4"
  shows "hm_count (\<lambda>s. se_device_id s = did) (id_sessions (evict_session did idt)) < 4"
proof (cases "4 \<le> hm_count (\<lambda>s. se_device_id s = did) (id_sessions idt)")
  case True
  let ?es = "filter (\<lambda>e. se_device_id (snd e) = did) (id_sessions idt)"
  have "?es \<noteq> []" using True by (auto simp: hm_count_def)
  then obtain e where e: "min_by_key (\<lambda>e. se_created_at (snd e)) ?es = Some e"
    by (cases "min_by_key (\<lambda>e. se_created_at (snd e)) ?es") auto
  then have "e \<in> set ?es" by (rule min_by_key_in)
  then have "hm_get (id_sessions idt) (fst e) = Some (snd e)" "se_device_id (snd e) = did"
    using hm_get_iff [OF assms(1)] by auto
  from hm_count_remove_less [OF this(1), of "\<lambda>s. se_device_id s = did"] this(2)
  have "hm_count (\<lambda>s. se_device_id s = did) (hm_remove (fst e) (id_sessions idt)) < hm_count (\<lambda>s. se_device_id s = did) (id_sessions idt)" by simp
  with True e assms(2) show ?thesis by (simp add: evict_session_def invalidate_session_def)
qed (simp add: evict_session_def)

lemma add_session_inv:
  assumes inv: "identity_inv X idt" and fresh: "hm_get (id_sessions idt) sid = None" and len: "length (id_sessions idt) < session_limit idt"
    and cnt: "hm_count (\<lambda>s'. se_device_id s' = se_device_id s) (id_sessions idt) < 4" and b: "backed idt s"
  shows "identity_inv X (idt\<lparr>id_sessions := hm_insert sid s (id_sessions idt)\<rparr>)"
proof -
  have "hm_count (\<lambda>s'. se_device_id s' = did) (hm_insert sid s (id_sessions idt)) \<le> 4" for did
    using hm_count_insert_new [OF fresh, of "\<lambda>s'. se_device_id s' = did" s] cnt inv
    by (auto simp: identity_inv_def sessions_ok_def)
  then have "sessions_ok (idt\<lparr>id_sessions := hm_insert sid s (id_sessions idt)\<rparr>)"
    using inv fresh len b by (auto simp: identity_inv_def sessions_ok_def length_hm_insert backed_def session_limit_def)
  moreover have "peers_ok (idt\<lparr>id_sessions := hm_insert sid s (id_sessions idt)\<rparr>)"
    using inv fresh by (fastforce simp: identity_inv_def peers_ok_def peer_attached_def)
  ultimately show ?thesis using inv by (simp add: identity_inv_def devices_ok_def failures_ok_def)
qed

text \<open>What a login leaves: the expired sessions and perhaps the oldest of the device are gone, and one is new.\<close>

lemma issue_session_cases:
  assumes "issue_session X did rp now1 now2 now3 rb rid idt = (r, idt')" and "hm_wf (id_sessions idt)"
  obtains (refused) f P where "r = Inl f" "idt' = drop_sessions P idt"
    | (issued) P sid binding where "r = Inr (sid, encode X binding)" "rb = Some binding" "rid = Some sid" "now2 < po_enable_until (id_policy idt)"
        "evict_session did (purge_expired now1 idt) = drop_sessions P idt"
        "length (id_sessions (drop_sessions P idt)) < session_limit idt"
        "idt' = (drop_sessions P idt)\<lparr>id_sessions := hm_insert sid (new_session X did rp binding now3) (id_sessions (drop_sessions P idt))\<rparr>"
proof -
  have wf: "hm_wf (id_sessions (purge_expired now1 idt))" using assms(2) by (simp add: purge_drop hm_wf_filter)
  obtain P where P: "evict_session did (purge_expired now1 idt) = drop_sessions P idt"
    using evict_session_drop [OF wf, of did] purge_drop [OF assms(2), of now1] drop_drop by metis
  have pol: "id_policy (purge_expired now1 idt) = id_policy idt" "session_limit (drop_sessions P idt) = session_limit idt"
    using assms(2) by (simp_all add: purge_drop session_limit_def)
  show ?thesis
  proof (cases "po_enable_until (id_policy idt) \<le> now2 \<or> rb = None \<or> rid = None")
    case True
    then have "\<exists>f. r = Inl f \<and> idt' = purge_expired now1 idt"
      using assms(1) pol by (auto simp: issue_session_def Let_def split: if_splits option.splits)
    then show ?thesis using refused purge_drop [OF assms(2)] by auto
  next
    case False
    then obtain binding sid where rs: "rb = Some binding" "rid = Some sid" by auto
    show ?thesis
    proof (cases "length (id_sessions (drop_sessions P idt)) < session_limit idt")
      case True
      with assms(1) False rs P pol show ?thesis
        by (intro issued [of sid binding P]) (auto simp: issue_session_def Let_def)
    next
      case f: False
      with assms(1) False rs P pol show ?thesis
        by (intro refused [of SESSION_LIMIT_REACHED P]) (auto simp: issue_session_def Let_def)
    qed
  qed
qed

lemma issue_session_inv:
  assumes "issue_session X did rp now1 now2 now3 rb rid idt = (r, idt')" and inv: "identity_inv X idt"
    and fresh: "case rid of None \<Rightarrow> True | Some sid \<Rightarrow> hm_get (id_sessions idt) sid = None"
    and d: "hm_get (id_devices idt) did = Some d" "\<not> dv_locked d"
  shows "identity_inv X idt'"
  using assms(1) inv_wf(1) [OF inv]
proof (cases rule: issue_session_cases)
  case (refused f P)
  then show ?thesis using drop_inv [OF inv] by simp
next
  case (issued P sid binding)
  have pi: "identity_inv X (purge_expired now1 idt)" by (rule purge_inv [OF inv])
  have cnt: "hm_count (\<lambda>s. se_device_id s = did) (id_sessions (drop_sessions P idt)) < 4"
    unfolding issued(5) [symmetric] using pi by (intro evict_session_room) (auto simp: identity_inv_def sessions_ok_def)
  have "hm_get (id_sessions (drop_sessions P idt)) sid = None" using fresh issued(3) by (simp add: get_filter_key)
  moreover have "session_limit (drop_sessions P idt) = session_limit idt" by (simp add: session_limit_def)
  ultimately show ?thesis unfolding issued(7)
    using cnt issued(6) d drop_inv [OF inv, of P]
    by (intro add_session_inv) (simp_all add: new_session_def backed_def)
qed

lemma register_peer_cases:
  assumes "register_peer ctx idt = (r, idt')"
  obtains (refused) "r = None" "idt' = idt"
    | (registered) nxt where "r = Some (id_next_peer idt)" "checked_add (id_next_peer idt) 1 = Some nxt"
        "length (id_peers idt) < MAX_PEERS" "hm_count (\<lambda>p. pc_device p = cx_device_id ctx) (id_peers idt) < 2"
        "idt' = idt\<lparr>id_next_peer := nxt, id_peers := hm_insert (id_next_peer idt)
           \<lparr>pc_session = cx_session_id ctx, pc_device = cx_device_id ctx, pc_invalidated = False\<rparr> (id_peers idt)\<rparr>"
proof (cases "MAX_PEERS \<le> length (id_peers idt) \<or> 2 \<le> hm_count (\<lambda>p. pc_device p = cx_device_id ctx) (id_peers idt)")
  case True
  then show ?thesis using assms by (intro refused) (auto simp: register_peer_def)
next
  case False
  show ?thesis
  proof (cases "checked_add (id_next_peer idt) 1")
    case None
    with False show ?thesis using assms by (intro refused) (auto simp: register_peer_def)
  next
    case (Some nxt)
    with False show ?thesis using assms by (intro registered [of nxt]) (auto simp: register_peer_def)
  qed
qed

lemma revalidated_session:
  assumes "revalidate ctx scope now idt = (True, idt')"
  shows "\<exists>s. hm_get (id_sessions idt') (cx_session_id ctx) = Some s \<and> se_device_id s = cx_device_id ctx"
proof -
  obtain s where s: "hm_get (id_sessions idt) (cx_session_id ctx) = Some s" "se_device_id s = cx_device_id ctx"
      "validate (cx_session_id ctx) (cx_rp_id ctx) scope now idt = (True, idt')"
    using assms by (auto simp: revalidate_def split: option.splits if_splits)
  from s(3) show ?thesis by (cases rule: validate_cases) (use s in auto)
qed

lemma register_peer_inv:
  assumes "register_peer ctx idt = (r, idt')" and inv: "identity_inv X idt"
    and s: "hm_get (id_sessions idt) (cx_session_id ctx) = Some s" "se_device_id s = cx_device_id ctx"
  shows "identity_inv X idt'"
  using assms(1)
proof (cases rule: register_peer_cases)
  case (registered nxt)
  let ?p = "\<lparr>pc_session = cx_session_id ctx, pc_device = cx_device_id ctx, pc_invalidated = False\<rparr>"
  have lt: "pid < nxt" if "pid \<le> id_next_peer idt" for pid
    using that unat_checked_add [OF registered(2)] by (simp add: word_less_nat_alt word_le_nat_alt)
  have po: "peers_ok idt" using inv by (simp add: identity_inv_def)
  have new: "hm_get (id_peers idt) (id_next_peer idt) = None"
    using po by (cases "hm_get (id_peers idt) (id_next_peer idt)") (auto simp: peers_ok_def)
  have cnt: "hm_count (\<lambda>p. pc_device p = did) (hm_insert (id_next_peer idt) ?p (id_peers idt)) \<le> 2" for did
    using hm_count_insert_new [OF new, of "\<lambda>p. pc_device p = did" ?p] registered(4) po by (auto simp: peers_ok_def)
  have "peers_ok idt'"
    using po registered(3) cnt lt s new unfolding registered(5)
    by (auto simp: peers_ok_def length_hm_insert peer_attached_def order.strict_implies_order)
  then show ?thesis using inv registered(5)
    by (simp add: identity_inv_def sessions_ok_def devices_ok_def failures_ok_def backed_def session_limit_def)
qed (use inv in simp)

lemma unregister_inv: "identity_inv X idt \<Longrightarrow> identity_inv X (unregister_peer pid idt)"
proof -
  assume inv: "identity_inv X idt"
  have "hm_count (\<lambda>p. pc_device p = did) (hm_remove pid (id_peers idt)) \<le> 2" for did
    by (rule order_trans [OF hm_count_remove_le]) (use inv in \<open>simp add: identity_inv_def peers_ok_def\<close>)
  then have "peers_ok (unregister_peer pid idt)"
    using inv order_trans [OF length_hm_remove_le] by (auto simp: identity_inv_def peers_ok_def unregister_peer_def peer_attached_def)
  then show ?thesis using inv
    by (simp add: identity_inv_def unregister_peer_def sessions_ok_def devices_ok_def failures_ok_def backed_def session_limit_def)
qed

section \<open>A finished assertion\<close>

lemma assertion_check_Inr:
  assumes "assertion_check X W rp state response did scope idt = Inr va"
  obtains d c where "hm_get (id_devices idt) did = Some d" "\<not> dv_locked d"
    "List.find (\<lambda>c. cr_rp_id c = rp_host rp \<and> Some (cr_id c) = raw_id response) (dv_credentials d) = Some c"
    "verify_assertion X W rp state response did c (po_passkey_binding (id_policy idt)) scope = Inr va"
  using assms that by (auto simp: assertion_check_def split: option.splits if_splits)

lemma raw_id_index: "json_as_str (json_index response ''rawId'') = raw_id response"
  by (auto simp: raw_id_def json_index_def json_as_str_def split: option.splits)

definition finish_scope :: "(auth_context \<times> scope) option \<Rightarrow> scope" where
  "finish_scope ctx = (case ctx of None \<Rightarrow> View | Some (_, scope) \<Rightarrow> scope)"

lemma finish_assertion_cases:
  assumes "finish_assertion X W rp state response ctx now0 now1 now2 now3 rb rid idt es = (r, idt', es')"
  obtains (refused) f where "r = Inl f" "idt' = idt" "es' = es"
    | (failed) did e where "r = Inl REJECTED" "assertion_device rp response (map_option fst ctx) idt = Inr did"
        "assertion_check X W rp state response did (finish_scope ctx) idt = Inl e" "e \<noteq> AssertionInvalid"
        "assertion_failed did (e = AssertionRollback) idt es = (idt', es')"
    | (elevated) did c scope va cid idt1 ro where "ctx = Some (c, scope)" "did = cx_device_id c"
        "assertion_check X W rp state response did scope idt = Inr va" "raw_id response = Some cid"
        "assertion_verified did cid (rp_host rp) va now0 idt es = (idt1, es')" "elevate c scope now1 now2 idt1 = (ro, idt')"
        "r = (case ro of None \<Rightarrow> Inl SCOPE_NOT_GRANTED | Some until \<Rightarrow> Inr (Elevated until))"
    | (logged) did va cid idt1 ri where "ctx = None" "assertion_device rp response None idt = Inr did"
        "assertion_check X W rp state response did View idt = Inr va" "raw_id response = Some cid"
        "assertion_verified did cid (rp_host rp) va now0 idt es = (idt1, es')"
        "issue_session X did (rp_host rp) now1 now2 now3 rb rid idt1 = (ri, idt')"
        "r = (case ri of Inl f \<Rightarrow> Inl f | Inr (sid, binding) \<Rightarrow> Inr (LoggedIn sid binding did))"
proof (cases "assertion_device rp response (map_option fst ctx) idt")
  case (Inl f)
  then show ?thesis using assms by (intro refused [of f]) (auto simp: finish_assertion_def)
next
  case (Inr did)
  show ?thesis
  proof (cases "assertion_check X W rp state response did (finish_scope ctx) idt")
    case (Inl e)
    then show ?thesis using assms Inr refused [of REJECTED] failed [OF _ Inr Inl]
      by (cases "e = AssertionInvalid") (auto simp: finish_assertion_def finish_scope_def split: prod.splits)
  next
    case va: (Inr va)
    show ?thesis
    proof (cases "raw_id response")
      case None
      then show ?thesis using assms Inr va
        by (intro refused [of REJECTED]) (auto simp: finish_assertion_def finish_scope_def raw_id_index)
    next
      case (Some cid)
      obtain idt1 es1 where v: "assertion_verified did cid (rp_host rp) va now0 idt es = (idt1, es1)"
        by (cases "assertion_verified did cid (rp_host rp) va now0 idt es")
      show ?thesis
      proof (cases ctx)
        case None
        obtain ri idt2 where i: "issue_session X did (rp_host rp) now1 now2 now3 rb rid idt1 = (ri, idt2)"
          by (cases "issue_session X did (rp_host rp) now1 now2 now3 rb rid idt1")
        then show ?thesis using assms Inr va Some v None
          by (intro logged [of did va cid idt1 ri]) (auto simp: finish_assertion_def finish_scope_def raw_id_index split: sum.splits)
      next
        case c: (Some cs)
        obtain c scope where cs: "cs = (c, scope)" by (cases cs)
        obtain ro idt2 where i: "elevate c scope now1 now2 idt1 = (ro, idt2)" by (cases "elevate c scope now1 now2 idt1")
        then show ?thesis using assms Inr va Some v c cs
          by (intro elevated [of c scope did va cid idt1 ro])
            (auto simp: finish_assertion_def finish_scope_def raw_id_index assertion_device_def split: option.splits)
      qed
    qed
  qed
qed

lemma checked_verified_inv:
  assumes "assertion_check X W rp state response did scope idt = Inr va" and "raw_id response = Some cid"
    and "assertion_verified did cid (rp_host rp) va now0 idt es = (idt1, es1)" and inv: "identity_inv X idt"
  obtains d d1 where "identity_inv X idt1" "hm_get (id_devices idt) did = Some d" "hm_get (id_devices idt1) did = Some d1"
    "\<not> dv_locked d1" "id_sessions idt1 = id_sessions idt" "id_policy idt1 = id_policy idt"
  using assms(1)
proof (cases rule: assertion_check_Inr)
  case (1 d c)
  have feq: "(\<lambda>c. cr_id c = cid \<and> cr_rp_id c = rp_host rp) = (\<lambda>c. cr_rp_id c = rp_host rp \<and> Some (cr_id c) = raw_id response)"
    using assms(2) by auto
  have "va_backup_state va \<longrightarrow> cr_backup_eligible c'"
    if "List.find (\<lambda>c. cr_id c = cid \<and> cr_rp_id c = rp_host rp) (dv_credentials d) = Some c'" for c'
  proof -
    have "c' = c" using that 1(3) unfolding feq by simp
    then show ?thesis using verified_backup [OF 1(4)] by simp
  qed
  from assertion_verified_inv [OF assms(3) inv 1(1,2) this] have i: "identity_inv X idt1" .
  note n = notify_snapshot_sel [OF assms(3) [unfolded assertion_verified_run [OF 1(1)]]]
  then show ?thesis using that [OF i 1(1)] 1(2) by (simp add: record_assertion_def)
qed

lemma finish_assertion_inv:
  assumes "finish_assertion X W rp state response ctx now0 now1 now2 now3 rb rid idt es = (r, idt', es')" and inv: "identity_inv X idt"
    and fresh: "case rid of None \<Rightarrow> True | Some sid \<Rightarrow> hm_get (id_sessions idt) sid = None"
  shows "identity_inv X idt'"
  using assms(1)
proof (cases rule: finish_assertion_cases)
  case (failed did e)
  then show ?thesis using assertion_failed_inv inv by blast
next
  case (elevated did c scope va cid idt1 ro)
  then show ?thesis using checked_verified_inv [OF elevated(3,4,5) inv] elevate_inv by metis
next
  case (logged did va cid idt1 ri)
  obtain d1 where d1: "identity_inv X idt1" "hm_get (id_devices idt1) did = Some d1" "\<not> dv_locked d1" "id_sessions idt1 = id_sessions idt"
    using checked_verified_inv [OF logged(3,4,5) inv] by metis
  have "case rid of None \<Rightarrow> True | Some sid \<Rightarrow> hm_get (id_sessions idt1) sid = None" using fresh unfolding d1(4) .
  from issue_session_inv [OF logged(6) d1(1) this d1(2,3)] show ?thesis .
qed (use inv in simp)

section \<open>Reachable identity tables\<close>

text \<open>
  The steps of the table: every method the gateway calls, with drawn session identifiers new, peers
  registered only under the lock of a successful revalidation, and the event queue moving in
  between. Other producers of the queue emit no device events.
\<close>

definition device_event :: "event \<Rightarrow> bool" where
  "device_event e = (case e of DeviceRegistered _ \<Rightarrow> True | DeviceUpdated _ \<Rightarrow> True | DeviceRevoked _ \<Rightarrow> True | _ \<Rightarrow> False)"

inductive istep :: "ext \<Rightarrow> webauthn_lib \<Rightarrow> identity \<times> event_sender \<Rightarrow> identity \<times> event_sender \<Rightarrow> bool"
  for X :: ext and W :: webauthn_lib where
  i_command: "device_command_run X command idt es = (r, idt', es') \<Longrightarrow> istep X W (idt, es) (idt', es')"
| i_register: "register_verified X pairing v now1 now2 now3 idt es = (rs, idt', es') \<Longrightarrow> istep X W (idt, es) (idt', es')"
| i_finish: "finish_assertion X W rp state response ctx now0 now1 now2 now3 rb rid idt es = (ra, idt', es') \<Longrightarrow>
     (case rid of None \<Rightarrow> True | Some sid \<Rightarrow> hm_get (id_sessions idt) sid = None) \<Longrightarrow> istep X W (idt, es) (idt', es')"
| i_authenticate: "authenticate X hs host now idt = (rc, idt') \<Longrightarrow> istep X W (idt, es) (idt', es)"
| i_revalidate: "revalidate ctx1 scope now idt = (b, idt') \<Longrightarrow> istep X W (idt, es) (idt', es)"
| i_peer: "revalidate ctx1 scope now idt = (True, idt1) \<Longrightarrow> register_peer ctx1 idt1 = (rp1, idt') \<Longrightarrow> istep X W (idt, es) (idt', es)"
| i_unregister: "istep X W (idt, es) (unregister_peer pid idt, es)"
| i_logout: "istep X W (idt, es) (session_logout sid idt, es)"
| i_purge: "istep X W (idt, es) (purge_expired now idt, es)"
| i_maintenance: "identity_maintenance now idt es = (idt', es') \<Longrightarrow> istep X W (idt, es) (idt', es')"
| i_queue: "es_steps es es' \<Longrightarrow> \<not> es_closed es' \<Longrightarrow> es_log es' = es_log es @ evs \<Longrightarrow> \<forall>e \<in> set evs. \<not> device_event e \<Longrightarrow>
     istep X W (idt, es) (idt, es')"

inductive ireach :: "ext \<Rightarrow> webauthn_lib \<Rightarrow> device list \<Rightarrow> identity \<times> event_sender \<Rightarrow> bool"
  for X :: ext and W :: webauthn_lib and devs :: "device list" where
  i_start: "deserialize_devices X devs = Inr ds \<Longrightarrow> identity_new X ds pol = Inr idt \<Longrightarrow> ireach X W devs (idt, spawn_writer)"
| i_more: "ireach X W devs s \<Longrightarrow> istep X W s s' \<Longrightarrow> ireach X W devs s'"

lemma istep_inv: "istep X W (idt, es) (idt', es') \<Longrightarrow> identity_inv X idt \<Longrightarrow> identity_inv X idt'"
proof (induction "(idt, es)" "(idt', es')" rule: istep.induct)
  case (i_peer ctx1 scope now idt1 rp1)
  then show ?case using revalidated_session [OF i_peer(1)] revalidate_inv [OF i_peer(1)] register_peer_inv [OF i_peer(2)] by blast
qed (auto intro: device_command_inv register_inv finish_assertion_inv authenticate_inv revalidate_inv unregister_inv
    invalidate_session_inv purge_inv maintenance_inv simp: session_logout_def)

lemma fold_table_get:
  "distinct (map dv_device_id ds) \<Longrightarrow>
     hm_get (fold (\<lambda>d m. hm_insert (dv_device_id d) d m) ds m) k
       = (case List.find (\<lambda>d. dv_device_id d = k) ds of None \<Rightarrow> hm_get m k | Some d \<Rightarrow> Some d)"
proof (induction ds arbitrary: m)
  case (Cons d ds)
  have "List.find (\<lambda>e. dv_device_id e = k) ds = None" if "dv_device_id d = k"
    unfolding find_None_iff using Cons.prems that by (metis distinct.simps(2) image_eqI list.set_map list.simps(9))
  then show ?case using Cons by (auto split: option.splits)
qed simp

lemma fold_table_wf: "hm_wf m \<Longrightarrow> hm_wf (fold (\<lambda>d m. hm_insert (dv_device_id d) d m) ds m)"
  by (induction ds arbitrary: m) auto

lemma start_facts:
  assumes "deserialize_devices X devs = Inr ds" and "identity_new X ds pol = Inr idt"
  shows "ds = devs" "distinct (map dv_device_id ds)" "list_all (device_valid X) ds"
    "id_devices idt = fold (\<lambda>d m. hm_insert (dv_device_id d) d m) ds []" "length (id_devices idt) \<le> po_max_devices (id_policy idt)"
    "id_sessions idt = []" "id_peers idt = []" "id_failures idt = []" "id_notifications idt = []"
  using assms by (auto simp: deserialize_devices_def all_distinct_def identity_new_def Let_def split: if_splits
      intro: card_distinct simp: length_remdups_card_conv)

lemma identity_start_inv:
  assumes "deserialize_devices X devs = Inr ds" and "identity_new X ds pol = Inr idt"
  shows "identity_inv X idt"
proof -
  note f = start_facts [OF assms]
  have get: "hm_get (id_devices idt) k = List.find (\<lambda>d. dv_device_id d = k) ds" for k
    unfolding f(4) fold_table_get [OF f(2)] by (simp split: option.splits)
  have d: "dv_device_id d = k \<and> d \<in> set ds" if "hm_get (id_devices idt) k = Some d" for k d
    using that unfolding get by (auto simp: find_Some_iff)
  have dis: "creds_disjoint (id_devices idt)" unfolding creds_disjoint_def
  proof (intro allI impI)
    fix k e k' e' c c' assume a: "hm_get (id_devices idt) k = Some e" "hm_get (id_devices idt) k' = Some e'"
      "c \<in> set (dv_credentials e)" "c' \<in> set (dv_credentials e')" "cred_key c = cred_key c'"
    obtain i j where ij: "i < length devs" "j < length devs" "e = devs ! i" "e' = devs ! j"
      using d [OF a(1)] d [OF a(2)] f(1) by (metis in_set_conv_nth)
    have "i = j"
    proof (rule ccontr)
      assume "i \<noteq> j"
      from distinct_concat_map [OF deserialize_devices_distinct [OF assms(1)] ij(1,2) this] show False using a(3-5) ij(3,4) by force
    qed
    then show "k = k'" using d [OF a(1)] d [OF a(2)] ij by simp
  qed
  have "device_valid X (strip e)" if "hm_get (id_devices idt) k = Some e" for k e
    using d [OF that] f(3) valid_strip by (auto simp: list_all_iff)
  then have "devices_ok X idt" using d dis f fold_table_wf [of "[]" ds] by (auto simp: devices_ok_def)
  then show ?thesis using f
    by (simp add: identity_inv_def sessions_ok_def peers_ok_def failures_ok_def)
qed

lemma ireach_inv: "ireach X W devs s \<Longrightarrow> identity_inv X (fst s)"
proof (induction rule: ireach.induct)
  case (i_start ds pol idt)
  then show ?case using identity_start_inv by simp
next
  case (i_more s s')
  then show ?case using istep_inv by (cases s; cases s') auto
qed

text \<open>
  The identity table is consistent at all times, under any interleaving of desktop commands,
  registrations, logins, elevations, requests, transport peers and maintenance. Every session
  belongs to a known device that is not locked; a device has at most four sessions, and all
  together stay within the limit; a connected peer that was not told to close has its session, of
  the same device; there are at most 16 peers and two per device; a credential belongs to one
  device only; and an unlocked device has fewer than five failed assertions on record.
\<close>

theorem identity_invariant:
  assumes "ireach X W devs (idt, es)"
  shows "(\<forall>sid s. hm_get (id_sessions idt) sid = Some s \<longrightarrow>
        (\<exists>d. hm_get (id_devices idt) (se_device_id s) = Some d \<and> \<not> dv_locked d))
    \<and> length (id_sessions idt) \<le> po_max_devices (id_policy idt) * 4
    \<and> (\<forall>did. hm_count (\<lambda>s. se_device_id s = did) (id_sessions idt) \<le> 4)
    \<and> (\<forall>pid p. hm_get (id_peers idt) pid = Some p \<longrightarrow> pc_invalidated p
        \<or> (\<exists>s. hm_get (id_sessions idt) (pc_session p) = Some s \<and> se_device_id s = pc_device p))
    \<and> length (id_peers idt) \<le> 16 \<and> (\<forall>did. hm_count (\<lambda>p. pc_device p = did) (id_peers idt) \<le> 2)
    \<and> (\<forall>did d did' d' c c'. hm_get (id_devices idt) did = Some d \<longrightarrow> hm_get (id_devices idt) did' = Some d' \<longrightarrow>
        c \<in> set (dv_credentials d) \<longrightarrow> c' \<in> set (dv_credentials d') \<longrightarrow> cred_key c = cred_key c' \<longrightarrow> did = did')
    \<and> (\<forall>did d n. hm_get (id_devices idt) did = Some d \<longrightarrow> \<not> dv_locked d \<longrightarrow> hm_get (id_failures idt) did = Some n \<longrightarrow> unat n < 5)"
proof -
  have "identity_inv X idt" using ireach_inv [OF assms] by simp
  then have i: "sessions_ok idt" "peers_ok idt" "devices_ok X idt" "failures_ok idt" by (auto simp: identity_inv_def)
  have "\<forall>did d n. hm_get (id_devices idt) did = Some d \<longrightarrow> \<not> dv_locked d \<longrightarrow> hm_get (id_failures idt) did = Some n \<longrightarrow> unat n < 5"
    using i(4) unfolding failures_ok_def by fastforce
  moreover have "creds_disjoint (id_devices idt)" using i(3) by (simp add: devices_ok_def)
  ultimately show ?thesis using i(1,2)
    unfolding creds_disjoint_def sessions_ok_def peers_ok_def backed_def peer_attached_def session_limit_def MAX_PEERS_def by blast
qed

end
