(* ===== verification/Session_Security.thy ===== *)
theory Session_Security
  imports Session_Steps
begin

text \<open>
  What the identity table promises to the desktop and to the handlers: when a request is
  authorised, how far an elevation reaches, that tightening never waits and widening never goes
  unannounced, and when a device is locked.
\<close>

section \<open>Authorisation\<close>

text \<open>
  C8: a request is let through only while everything it needs holds at that moment. The session is
  known, belongs to this relying party and to a device that is known, not locked and still has a
  credential for it; neither the companion's window, nor the session's absolute lifetime, nor its
  idle time has run out; and beyond viewing, the device has the grant and the session a running
  elevation for that scope. Only the times last seen change.
\<close>

theorem validate_sound:
  assumes "validate sid rp scope now idt = (True, idt')"
  shows "\<exists>s d. hm_get (id_sessions idt) sid = Some s \<and> se_rp_id s = rp
    \<and> hm_get (id_devices idt) (se_device_id s) = Some d \<and> \<not> dv_locked d
    \<and> list_ex (\<lambda>c. cr_rp_id c = rp) (dv_credentials d)
    \<and> now < po_enable_until (id_policy idt)
    \<and> now < after (se_created_at s) (from_secs (po_view_absolute_hours (id_policy idt) * 3600))
    \<and> now < after (se_last_seen s) (from_secs (po_view_idle_min (id_policy idt) * 60))
    \<and> (scope = Control \<longrightarrow> (\<exists>g u. gr_control (dv_grants d) = Some g \<and> now < g \<and> se_control_until s = Some u \<and> now < u))
    \<and> (scope = Full \<longrightarrow> po_full_session_enabled (id_policy idt) \<and> gr_full (dv_grants d) \<and> (\<exists>u. se_full_until s = Some u \<and> now < u))
    \<and> hm_get (id_sessions idt') sid = Some (s\<lparr>se_last_seen := now\<rparr>)
    \<and> (\<forall>k. k \<noteq> sid \<longrightarrow> hm_get (id_sessions idt') k = hm_get (id_sessions idt) k)
    \<and> (\<forall>k. map_option strip (hm_get (id_devices idt') k) = map_option strip (hm_get (id_devices idt) k))"
  using assms
proof (cases rule: validate_cases)
  case (accepted s d)
  then have "se_rp_id s = rp" "now < po_enable_until (id_policy idt)" "now < absolute_end (id_policy idt) s"
      "now < after (se_last_seen s) (from_secs (po_view_idle_min (id_policy idt) * 60))"
      "list_ex (\<lambda>c. cr_rp_id c = rp) (dv_credentials d)"
    by (auto simp: active_def)
  with accepted show ?thesis
    by (intro exI [of _ s] exI [of _ d])
      (auto simp: absolute_end_def granted_def scope_until_def strip_last_seen split: option.splits)
qed simp

lemma active_mono_sessions: "active (idt\<lparr>id_sessions := m\<rparr>) s now = active idt s now"
  by (simp add: active_def)

text \<open>
  An elevation is bounded on every side. It is granted only to a session that is active and
  revalidated, for a scope the device holds; it ends after the moment it was granted and no later
  than the policy's elevation limit, the companion's window, the session's absolute lifetime, and,
  for control, the device's own grant or, for a full session, fifteen minutes. Nothing but this
  session's record of the scope changes.
\<close>

theorem elevation_bounded:
  assumes "elevate ctx scope now0 now idt = (Some until, idt')"
  shows "\<exists>s d idt1. revalidate ctx View now0 idt = (True, idt1)
    \<and> hm_get (id_sessions idt1) (cx_session_id ctx) = Some s \<and> active idt1 s now
    \<and> hm_get (id_devices idt1) (se_device_id s) = Some d
    \<and> scope \<noteq> View \<and> now < until
    \<and> until \<le> after now (from_secs (po_elevation_max_min (id_policy idt1) * 60))
    \<and> until \<le> po_enable_until (id_policy idt1)
    \<and> until \<le> after (se_created_at s) (from_secs (po_view_absolute_hours (id_policy idt1) * 3600))
    \<and> (scope = Control \<longrightarrow> (\<exists>g. gr_control (dv_grants d) = Some g \<and> until \<le> g))
    \<and> (scope = Full \<longrightarrow> po_full_session_enabled (id_policy idt1) \<and> gr_full (dv_grants d) \<and> until \<le> after now (from_secs 900))
    \<and> idt' = idt1\<lparr>id_sessions := hm_insert (cx_session_id ctx) (set_elevation scope until now s) (id_sessions idt1)\<rparr>"
  using assms
proof (cases rule: elevate_cases)
  case (raised idt1 s d cap)
  have cap: "scope \<noteq> View" "scope = Control \<longrightarrow> gr_control (dv_grants d) = Some cap"
      "scope = Full \<longrightarrow> po_full_session_enabled (id_policy idt1) \<and> gr_full (dv_grants d) \<and> cap = after now (from_secs 900)"
    using raised(6) by (auto simp: elevation_cap_def split: scope.splits if_splits)
  have u: "until = elevation_until idt1 s cap now" using raised(1) by simp
  have "until \<le> cap" "until \<le> after now (from_secs (po_elevation_max_min (id_policy idt1) * 60))"
      "until \<le> po_enable_until (id_policy idt1)" "until \<le> absolute_end (id_policy idt1) s"
    unfolding u elevation_until_def by linarith+
  then show ?thesis using raised cap u by (intro exI [of _ s] exI [of _ d] exI [of _ idt1]) (auto simp: absolute_end_def)
qed simp

text \<open>
  A transport is authenticated by two secrets that travel apart: the session cookie and, in a
  header of its own, the binding token whose digest the session keeps. The context names the
  session of the cookie and that session's device, and the session was valid for viewing.
\<close>

theorem authenticate_sound:
  assumes "authenticate X hs rp now idt = (Some ctx, idt')"
  shows "\<exists>s token value. cookie_id X hs = Some (cx_session_id ctx) \<and> get_all hs ''x-yzc-binding'' = [value]
    \<and> decode X 32 value = Some token
    \<and> hm_get (id_sessions idt) (cx_session_id ctx) = Some s \<and> se_binding_hash s = hash X token
    \<and> cx_device_id ctx = se_device_id s \<and> cx_rp_id ctx = rp
    \<and> validate (cx_session_id ctx) rp View now idt = (True, idt')"
proof -
  obtain sid hv token s where a: "cookie_id X hs = Some sid" "get_all hs ''x-yzc-binding'' = [hv]"
      "decode X 32 hv = Some token" "hm_get (id_sessions idt) sid = Some s" "matches X (se_binding_hash s) token"
    using assms by (auto simp: authenticate_def split: option.splits list.splits if_splits)
  with assms have v: "validate sid rp View now idt = (True, idt')"
    and c: "\<exists>s'. hm_get (id_sessions idt') sid = Some s' \<and> ctx = \<lparr>cx_session_id = sid, cx_device_id = se_device_id s', cx_rp_id = rp\<rparr>"
    by (auto simp: authenticate_def split: option.splits if_splits prod.splits bool.splits)
  from v have "\<exists>s'. hm_get (id_sessions idt') sid = Some s' \<and> se_device_id s' = se_device_id s"
    by (cases rule: validate_cases) (use a in auto)
  with a v c show ?thesis by (auto simp: matches_def)
qed

section \<open>Commands of the desktop\<close>

lemma commit_change_effect:
  assumes "hm_wf (id_sessions idt)"
  shows "hm_get (id_devices (commit_change command did snapshot idt)) did = snapshot"
    "hm_get (id_sessions (commit_change command did snapshot idt)) sid = Some s \<Longrightarrow> se_device_id s \<noteq> did"
    "hm_get (id_peers (commit_change command did snapshot idt)) pid = Some p \<Longrightarrow>
       hm_get (id_sessions idt) (pc_session p) = Some s \<Longrightarrow> se_device_id s = did \<Longrightarrow> pc_invalidated p"
proof -
  let ?i = "idt\<lparr>id_dirty_devices := filter (\<lambda>x. x \<noteq> did) (id_dirty_devices idt),
            id_failures := (if clears_failures command then hm_remove did (id_failures idt) else id_failures idt),
            id_devices := put_device did snapshot (id_devices idt)\<rparr>"
  have c: "commit_change command did snapshot idt = drop_sessions (of_device did ?i) ?i"
    using assms by (simp add: commit_change_def invalidate_device_drop)
  have od: "of_device did ?i k \<longleftrightarrow> (\<exists>s. hm_get (id_sessions idt) k = Some s \<and> se_device_id s = did)" for k
    by (simp add: of_device_def)
  show "hm_get (id_devices (commit_change command did snapshot idt)) did = snapshot"
    unfolding c by (cases snapshot) (simp_all add: put_device_def)
  show "hm_get (id_sessions (commit_change command did snapshot idt)) sid = Some s \<Longrightarrow> se_device_id s \<noteq> did"
    unfolding c drop_get by (auto simp: od split: if_splits)
  show "hm_get (id_peers (commit_change command did snapshot idt)) pid = Some p \<Longrightarrow>
       hm_get (id_sessions idt) (pc_session p) = Some s \<Longrightarrow> se_device_id s = did \<Longrightarrow> pc_invalidated p"
    unfolding c drop_peer by (auto simp: od split: if_splits dest: arg_cong [where f = pc_invalidated])
qed

text \<open>
  C38: tightening never waits. A revocation, a narrower grant or a new label is applied at once,
  whatever the state of the event queue: the device has the new record or is gone, all its sessions
  with their elevations are gone, and every peer of theirs has been told to close. A full queue only
  defers the notification, and that is what the desktop is told.
\<close>

theorem tightening_commits:
  assumes "hm_wf (id_sessions idt)" and "decode X 16 (command_device command) \<noteq> None"
    and "hm_get (id_devices idt) (command_device command) = Some d" and "device_change command d = Inr (name, False, snapshot)"
    and "device_command_run X command idt es = (r, idt', es')"
  shows "r \<in> {Inr Applied, Inr (NotificationDeferred name (command_device command))}
    \<and> hm_get (id_devices idt') (command_device command) = snapshot
    \<and> (\<forall>sid s. hm_get (id_sessions idt') sid = Some s \<longrightarrow> se_device_id s \<noteq> command_device command)
    \<and> (\<forall>pid p s. hm_get (id_peers idt') pid = Some p \<longrightarrow> hm_get (id_sessions idt) (pc_session p) = Some s \<longrightarrow>
          se_device_id s = command_device command \<longrightarrow> pc_invalidated p)
    \<and> (r = Inr Applied \<longrightarrow> es_log es' = es_log es @ [notification (command_device command) snapshot])
    \<and> (r \<noteq> Inr Applied \<longrightarrow> hm_get (id_notifications idt') (command_device command) = Some snapshot)"
proof -
  let ?did = "command_device command"
  obtain ok es1 where e: "try_emit es (notification ?did snapshot) = (ok, es1)" by (cases "try_emit es (notification ?did snapshot)")
  let ?i = "commit_change command ?did snapshot idt"
  let ?m = "hm_insert ?did snapshot (id_notifications idt)"
  have r: "r = Inr (if ok then Applied else NotificationDeferred name ?did)" "es' = es1"
      "idt' = ?i\<lparr>id_notifications := (if ok then hm_remove ?did ?m else ?m)\<rparr>"
    using assms(2-5) e by (auto simp: device_command_run_def Let_def split: bool.splits)
  have "ok \<longrightarrow> es_log es1 = es_log es @ [notification ?did snapshot]"
    using es.emit_log [OF e] by simp
  with r commit_change_effect [OF assms(1), of command ?did snapshot] show ?thesis by auto
qed

text \<open>
  Widening is never silent. If a command leaves a device with a wider grant than before, or
  unlocked where it was locked, then it succeeded, the queue accepted exactly the new record as its
  last event, and no older notification of the device was still waiting. A command that would both
  widen and tighten a grant is refused and changes nothing.
\<close>

theorem widening_announced:
  assumes "hm_wf (id_sessions idt)" and "device_command_run X command idt es = (r, idt', es')"
    and "hm_get (id_devices idt) (command_device command) = Some d" and "hm_get (id_devices idt') (command_device command) = Some d'"
  shows "(widening (dv_grants d) (dv_grants d') \<or> dv_locked d \<and> \<not> dv_locked d' \<longrightarrow>
        r = Inr Applied \<and> es_log es' = es_log es @ [DeviceUpdated d'] \<and> hm_get (id_notifications idt) (command_device command) = None)
    \<and> (\<not> (tightening (dv_grants d) (dv_grants d') \<and> widening (dv_grants d) (dv_grants d')))
    \<and> (\<forall>f. r = Inl f \<longrightarrow> idt' = idt \<and> es' = es)"
proof -
  have irr: "\<not> widening g g" "\<not> tightening g g" for g
    by (cases "gr_control g"; simp add: widening_def tightening_def)+
  have tight: "\<not> widening (dv_grants d) (dv_grants e) \<and> (dv_locked e = dv_locked d)"
    if "device_change command d = Inr (name, False, Some e)" for name e
    using that irr by (auto simp: device_change_def Let_def split: device_command.splits if_splits option.splits)
  have both: "\<not> (tightening (dv_grants d) (dv_grants e) \<and> widening (dv_grants d) (dv_grants e))"
    if "device_change command d = Inr (name, w, Some e)" for name w e
    using that irr by (auto simp: device_change_def Let_def split: device_command.splits if_splits option.splits)
  from assms(2) show ?thesis
  proof (cases rule: device_command_cases)
    case (refused f)
    then show ?thesis using assms(3,4) irr by simp
  next
    case (widened d0 name snapshot)
    have snap: "snapshot = Some d'" using commit_change_effect(1) [OF assms(1)] assms(4) widened(6) by simp
    with widened assms(3) both show ?thesis
      using try_emit_event_Inr [OF widened(5)] by (auto simp: notification_def)
  next
    case (tightened d0 name snapshot ok)
    have "snapshot = Some d'" using commit_change_effect(1) [OF assms(1)] assms(4) tightened(5) by (simp add: Let_def)
    with tightened(1,2,4) assms(3) tight both show ?thesis by auto
  qed
qed

section \<open>Logins and lockout\<close>

text \<open>
  C32: a login needs a verified assertion of the very device it logs in. The device is known and not
  locked, the response names one of its credentials for this host and carries the device as user
  handle, the library verified it under the policy in force, and the companion's window is open. The
  new session belongs to that device, keeps only the digest of the binding it returned, and has no
  elevation.
\<close>

theorem login_sound:
  assumes "identity_inv X idt"
    and "finish_assertion X W rp state response None now0 now1 now2 now3 rb rid idt es = (Inr (LoggedIn sid binding did), idt', es')"
  shows "\<exists>d c va token s. hm_get (id_devices idt) did = Some d \<and> \<not> dv_locked d
    \<and> c \<in> set (dv_credentials d) \<and> cr_rp_id c = rp_host rp \<and> raw_id response = Some (cr_id c)
    \<and> json_as_str (json_index (json_index response ''response'') ''userHandle'') = Some did
    \<and> verify_assertion X W rp state response did c (po_passkey_binding (id_policy idt)) View = Inr va
    \<and> now2 < po_enable_until (id_policy idt) \<and> rid = Some sid \<and> rb = Some token \<and> binding = encode X token
    \<and> hm_get (id_sessions idt') sid = Some s \<and> se_device_id s = did \<and> se_rp_id s = rp_host rp
    \<and> se_created_at s = now3 \<and> se_binding_hash s = hash X token \<and> se_control_until s = None \<and> se_full_until s = None"
  using assms(2)
proof (cases rule: finish_assertion_cases)
  case (logged did' va cid idt1 ri)
  from logged(7) have ri: "ri = Inr (sid, binding)" "did' = did" by (auto split: sum.splits)
  obtain d1 where d1: "identity_inv X idt1" "id_policy idt1 = id_policy idt"
    using checked_verified_inv [OF logged(3,4,5) assms(1)] by metis
  have handle: "json_as_str (json_index (json_index response ''response'') ''userHandle'') = Some did"
    using logged(2) ri(2) by (auto simp: assertion_device_def split: option.splits if_splits)
  obtain d c where dc: "hm_get (id_devices idt) did = Some d" "\<not> dv_locked d"
      "List.find (\<lambda>c. cr_rp_id c = rp_host rp \<and> Some (cr_id c) = raw_id response) (dv_credentials d) = Some c"
      "verify_assertion X W rp state response did c (po_passkey_binding (id_policy idt)) View = Inr va"
    using logged(3) unfolding ri(2) by (rule assertion_check_Inr)
  then have c: "c \<in> set (dv_credentials d)" "cr_rp_id c = rp_host rp" "raw_id response = Some (cr_id c)"
    by (auto simp: find_Some_iff)
  from logged(6) inv_wf(1) [OF d1(1)] show ?thesis
  proof (cases rule: issue_session_cases)
    case (issued P sid1 token)
    then have "sid1 = sid" "binding = encode X token" using ri by auto
    with issued dc c handle d1(2) ri(2) show ?thesis by (auto simp: new_session_def)
  qed (use ri in simp)
qed (auto split: option.splits)

definition fail_count :: "identity \<Rightarrow> string \<Rightarrow> nat" where
  "fail_count idt did = (case hm_get (id_failures idt) did of None \<Rightarrow> 0 | Some n \<Rightarrow> unat n)"

lemma failed_step:
  assumes inv: "identity_inv X idt" and d: "hm_get (id_devices idt) did = Some d"
    and "assertion_failed did rollback idt es = (idt', es')"
  obtains d' where "hm_get (id_devices idt') did = Some d'" "dv_locked d \<Longrightarrow> dv_locked d'" "rollback \<Longrightarrow> dv_locked d'"
    "\<not> dv_locked d' \<Longrightarrow> fail_count idt' did = Suc (fail_count idt did)"
  using assms(3)
proof (cases rule: assertion_failed_cases)
  case skipped
  then show ?thesis using that d by auto
next
  case (counted d0 n)
  have "fail_count idt did < 5" using inv counted(1,2) by (fastforce simp: fail_count_def identity_inv_def failures_ok_def split: option.splits)
  then have "unat n = Suc (fail_count idt did)"
    unfolding counted(4) by (auto simp: fail_count_def unat_saturating_add split: option.splits)
  then show ?thesis using that [of d] d counted by (simp add: fail_count_def)
next
  case (locked d0 n)
  note sel = notify_snapshot_sel [OF locked(3)]
  have wf: "hm_wf (id_sessions idt)" using inv_wf(1) [OF inv] .
  have "hm_get (id_devices idt') did = Some (d0\<lparr>dv_locked := True\<rparr>)"
    unfolding sel(1) lock_device_def by (simp add: invalidate_device_drop wf)
  then show ?thesis using that by simp
qed

fun fail_times :: "nat \<Rightarrow> string \<Rightarrow> identity \<Rightarrow> event_sender \<Rightarrow> identity \<times> event_sender" where
  "fail_times 0 did idt es = (idt, es)"
| "fail_times (Suc n) did idt es = (case assertion_failed did False idt es of (idt, es) \<Rightarrow> fail_times n did idt es)"

lemma fail_times_count:
  assumes "identity_inv X idt" and "hm_get (id_devices idt) did = Some d" and "fail_times n did idt es = (idt', es')"
  shows "identity_inv X idt' \<and> (\<exists>d'. hm_get (id_devices idt') did = Some d' \<and> (dv_locked d \<longrightarrow> dv_locked d')
    \<and> (\<not> dv_locked d' \<longrightarrow> n + fail_count idt did \<le> fail_count idt' did))"
  using assms
proof (induction n arbitrary: idt es d)
  case (Suc n)
  obtain idt1 es1 where a: "assertion_failed did False idt es = (idt1, es1)" by (cases "assertion_failed did False idt es")
  obtain d1 where d1: "hm_get (id_devices idt1) did = Some d1" "dv_locked d \<Longrightarrow> dv_locked d1"
      "\<not> dv_locked d1 \<Longrightarrow> fail_count idt1 did = Suc (fail_count idt did)"
    by (rule failed_step [OF Suc.prems(1,2) a]) blast
  have "fail_times n did idt1 es1 = (idt', es')" using Suc.prems(3) a by simp
  from Suc.IH [OF assertion_failed_inv [OF a Suc.prems(1)] d1(1) this]
  obtain d' where d': "identity_inv X idt'" "hm_get (id_devices idt') did = Some d'" "dv_locked d1 \<longrightarrow> dv_locked d'"
    "\<not> dv_locked d' \<longrightarrow> n + fail_count idt1 did \<le> fail_count idt' did" by blast
  have "\<not> dv_locked d' \<longrightarrow> Suc n + fail_count idt did \<le> fail_count idt' did" using d'(3,4) d1(3) by auto
  with d' d1(2) show ?case by blast
qed auto

lemma locked_closed:
  assumes "identity_inv X idt" and "hm_get (id_devices idt) did = Some d" and "dv_locked d"
  shows "(\<forall>sid s. hm_get (id_sessions idt) sid = Some s \<longrightarrow> se_device_id s \<noteq> did)
    \<and> (\<forall>pid p. hm_get (id_peers idt) pid = Some p \<longrightarrow> pc_device p = did \<longrightarrow> pc_invalidated p)"
proof -
  have no: "se_device_id s \<noteq> did" if "hm_get (id_sessions idt) sid = Some s" for sid s
  proof -
    have "backed idt s" using that assms(1) by (simp add: identity_inv_def sessions_ok_def)
    then show ?thesis using assms(2,3) by (auto simp: backed_def)
  qed
  have "pc_invalidated p" if "hm_get (id_peers idt) pid = Some p" "pc_device p = did" for pid p
  proof -
    have "peer_attached idt p" using that(1) assms(1) by (simp add: identity_inv_def peers_ok_def)
    then show ?thesis using no that(2) by (auto simp: peer_attached_def)
  qed
  with no show ?thesis by blast
qed

text \<open>
  Lockout. Five assertions in a row that fail the policy, or a single one whose signature
  counter went back, lock the device: its sessions are gone and its peers have been told to close,
  whether or not the queue could take the notification. A locked device logs in or elevates no
  more: its assertions are refused and change nothing, not even the failure count.
\<close>

theorem lockout:
  assumes "identity_inv X idt" and "hm_get (id_devices idt) did = Some d"
    and "(idt', es') = fail_times 5 did idt es \<or> (idt', es') = assertion_failed did True idt es"
  shows "\<exists>d'. hm_get (id_devices idt') did = Some d' \<and> dv_locked d'
    \<and> (\<forall>sid s. hm_get (id_sessions idt') sid = Some s \<longrightarrow> se_device_id s \<noteq> did)
    \<and> (\<forall>pid p. hm_get (id_peers idt') pid = Some p \<longrightarrow> pc_device p = did \<longrightarrow> pc_invalidated p)
    \<and> (assertion_device rp response (map_option fst ctx) idt' = Inr did \<longrightarrow>
         finish_assertion X W rp state response ctx now0 now1 now2 now3 rb rid idt' es' = (Inl REJECTED, idt', es'))"
proof -
  have "\<exists>d'. identity_inv X idt' \<and> hm_get (id_devices idt') did = Some d' \<and> dv_locked d'"
    using assms(3)
  proof
    assume f: "(idt', es') = fail_times 5 did idt es"
    from fail_times_count [OF assms(1,2) f [symmetric]] obtain d' where d': "identity_inv X idt'"
        "hm_get (id_devices idt') did = Some d'" "\<not> dv_locked d' \<longrightarrow> 5 + fail_count idt did \<le> fail_count idt' did" by auto
    have "fail_count idt' did < 5" if "\<not> dv_locked d'"
      using d'(1,2) that by (fastforce simp: fail_count_def identity_inv_def failures_ok_def split: option.splits)
    with d' show ?thesis by fastforce
  next
    assume f: "(idt', es') = assertion_failed did True idt es"
    from failed_step [OF assms(1,2) f [symmetric]] assertion_failed_inv [OF f [symmetric] assms(1)] show ?thesis by metis
  qed
  then obtain d' where d': "identity_inv X idt'" "hm_get (id_devices idt') did = Some d'" "dv_locked d'" by blast
  then have "assertion_check X W rp state response did scope idt' = Inl AssertionInvalid" for scope by (simp add: assertion_check_def)
  then have "finish_assertion X W rp state response ctx now0 now1 now2 now3 rb rid idt' es' = (Inl REJECTED, idt', es')"
    if "assertion_device rp response (map_option fst ctx) idt' = Inr did"
    using that by (simp add: finish_assertion_def)
  with d' locked_closed [OF d'] show ?thesis by blast
qed

section \<open>A concrete table\<close>

definition demo_policy :: policy where
  "demo_policy = \<lparr>po_enable_until = 100000, po_view_idle_min = 30, po_view_absolute_hours = 12, po_elevation_max_min = 15,
     po_full_session_enabled = False, po_max_devices = 4, po_passkey_binding = O1\<rparr>"

definition demo_sid :: bytes where "demo_sid = replicate 32 7"
definition demo_binding :: bytes where "demo_binding = replicate 32 0x41"
definition demo_did :: string where "demo_did = dv_device_id demo_device"

definition demo_session :: session where
  "demo_session = (new_session demo_ext demo_did ''desk.ts.net'' demo_binding 50)\<lparr>se_control_until := Some 4000, se_control_at := Some 60\<rparr>"

definition demo_idt :: identity where
  "demo_idt = \<lparr>id_devices = [(demo_did, demo_device)], id_notifications = [], id_sessions = [(demo_sid, demo_session)],
     id_peers = [], id_next_peer = 0, id_failures = [], id_dirty_devices = [], id_policy = demo_policy\<rparr>"

definition demo_ctx :: auth_context where
  "demo_ctx = \<lparr>cx_session_id = demo_sid, cx_device_id = demo_did, cx_rp_id = ''desk.ts.net''\<rparr>"

lemmas demo_idt_defs = demo_idt_def demo_policy_def demo_session_def new_session_def demo_did_def demo_device_def demo_credential_def

lemma demo_idt_inv: "identity_inv demo_ext demo_idt"
proof -
  have "device_valid demo_ext (strip demo_device)" using valid_strip demo_device_valid by blast
  then have "devices_ok demo_ext demo_idt"
    by (simp add: devices_ok_def demo_idt_def demo_did_def creds_disjoint_def demo_policy_def)
  moreover have "sessions_ok demo_idt"
    by (simp add: sessions_ok_def session_limit_def backed_def demo_idt_defs)
  ultimately show ?thesis by (simp add: identity_inv_def peers_ok_def failures_ok_def) (simp add: demo_idt_def)
qed

lemma demo_get [simp]:
  "hm_get (id_devices demo_idt) demo_did = Some demo_device" "hm_get (id_sessions demo_idt) demo_sid = Some demo_session"
  by (simp_all add: demo_idt_def)

lemma demo_active: "100 \<le> now \<Longrightarrow> now < 4000 \<Longrightarrow> active demo_idt demo_session now"
  by (simp add: active_def absolute_end_def demo_idt_defs after_def from_secs_def)

lemma demo_validates: "fst (validate demo_sid ''desk.ts.net'' Control 100 demo_idt)"
  using demo_active [of 100] by (simp add: validate_def granted_def scope_until_def demo_idt_defs)

lemma run_pair: "fst x \<Longrightarrow> x = (True, snd x)"
  by (cases x) simp

theorem validate_sound_witness: "100 < po_enable_until (id_policy demo_idt)"
  using validate_sound [OF run_pair [OF demo_validates]] by auto

lemma demo_elevates: "fst (elevate demo_ctx Control 100 101 demo_idt) = Some 5000"
  using demo_active [of 100] by (simp add: elevate_def revalidate_def validate_def granted_def demo_ctx_def elevation_cap_def elevation_until_def Let_def
      demo_idt_defs active_def absolute_end_def after_def from_secs_def)

theorem elevation_bounded_witness:
  "\<exists>idt. revalidate demo_ctx View 100 demo_idt = (True, idt) \<and> 5000 \<le> po_enable_until (id_policy idt)"
proof -
  obtain idt where "elevate demo_ctx Control 100 101 demo_idt = (Some 5000, idt)"
    using demo_elevates by (cases "elevate demo_ctx Control 100 101 demo_idt") simp
  from elevation_bounded [OF this] show ?thesis by blast
qed

definition demo_headers :: headers where
  "demo_headers = [(''cookie'', COOKIE_NAME @ ''='' @ encode demo_ext demo_sid), (''x-yzc-binding'', encode demo_ext demo_binding)]"

lemma demo_cookie: "cookie_id demo_ext demo_headers = Some demo_sid" by code_simp

lemma demo_authenticates: "\<exists>ctx. fst (authenticate demo_ext demo_headers ''desk.ts.net'' 100 demo_idt) = Some ctx"
proof -
  have b: "get_all demo_headers ''x-yzc-binding'' = [encode demo_ext demo_binding]"
    by (simp add: demo_headers_def get_all_def)
  have c: "list_all (\<lambda>b. 32 \<le> code b \<and> code b < 127 \<or> code b = 9) (encode demo_ext demo_binding)"
    by (simp add: demo_binding_def encode_def demo_ext_def demo_encode_def bytes_str_def list_all_iff div_ceil_def)
  have d: "decode demo_ext 32 (encode demo_ext demo_binding) = Some demo_binding"
    by (rule decode_encode [OF demo_fits]) (simp add: demo_binding_def)
  have m: "matches demo_ext (se_binding_hash demo_session) demo_binding" by (simp add: demo_session_def new_session_def)
  have "\<exists>s. validate demo_sid ''desk.ts.net'' View 100 demo_idt = (True, s) \<and> hm_get (id_sessions s) demo_sid \<noteq> None"
    using demo_active [of 100] by (simp add: validate_def granted_def demo_idt_defs)
  then show ?thesis using b c d m by (auto simp: authenticate_def demo_cookie split: prod.splits)
qed

theorem authenticate_sound_witness: "se_binding_hash demo_session = hash demo_ext demo_binding"
proof -
  obtain ctx idt' where "authenticate demo_ext demo_headers ''desk.ts.net'' 100 demo_idt = (Some ctx, idt')"
    using demo_authenticates by (cases "authenticate demo_ext demo_headers ''desk.ts.net'' 100 demo_idt") auto
  from authenticate_sound [OF this] show ?thesis by (simp add: demo_session_def new_session_def)
qed

lemma demo_did_decode: "decode demo_ext 16 demo_did \<noteq> None" by code_simp

lemma demo_wf: "hm_wf (id_sessions demo_idt)" by (rule inv_wf [OF demo_idt_inv])

theorem tightening_commits_witness:
  "hm_get (id_devices (fst (snd (device_command_run demo_ext (DeviceRevoke demo_did) demo_idt spawn_writer)))) demo_did = None"
proof -
  obtain r idt es where c: "device_command_run demo_ext (DeviceRevoke demo_did) demo_idt spawn_writer = (r, idt, es)"
    by (cases "device_command_run demo_ext (DeviceRevoke demo_did) demo_idt spawn_writer")
  have "device_change (DeviceRevoke demo_did) demo_device = Inr (''device.revoke'', False, None)" by (simp add: device_change_def)
  from tightening_commits [OF demo_wf _ _ this c] c demo_did_decode show ?thesis by (simp add: command_device_def)
qed

theorem widening_announced_witness:
  "fst (device_command_run demo_ext (DeviceUpdate demo_did None (Some \<lparr>gr_control = Some 9000, gr_full = False\<rparr>)) demo_idt spawn_writer) = Inr Applied"
proof -
  let ?c = "DeviceUpdate demo_did None (Some \<lparr>gr_control = Some 9000, gr_full = False\<rparr>)"
  let ?d = "demo_device\<lparr>dv_grants := \<lparr>gr_control = Some 9000, gr_full = False\<rparr>\<rparr>"
  obtain r idt es where c: "device_command_run demo_ext ?c demo_idt spawn_writer = (r, idt, es)"
    by (cases "device_command_run demo_ext ?c demo_idt spawn_writer")
  have ch: "device_change ?c demo_device = Inr (''device.update'', True, Some ?d)"
    by (simp add: device_change_def tightening_def widening_def) (simp add: demo_device_def)
  have e: "\<exists>es'. try_emit_event spawn_writer (DeviceUpdated ?d) = (Inr (), es')"
    using demo_room by (intro exI) (rule emit_pairing, simp_all add: ordinary_def)
  have n: "hm_get (id_notifications demo_idt) demo_did = None" by (simp add: demo_idt_def)
  have "idt = commit_change ?c demo_did (Some ?d) demo_idt"
    using c ch e n demo_did_decode by (auto simp: device_command_run_def command_device_def Let_def notification_def)
  then have "hm_get (id_devices idt) demo_did = Some ?d" using commit_change_effect(1) [OF demo_wf] by simp
  from widening_announced [OF demo_wf c _, of demo_device ?d] this c show ?thesis
    by (simp add: command_device_def widening_def) (simp add: demo_device_def)
qed

definition demo_assertion :: json where
  "demo_assertion = JObj [(''rawId'', JStr ''cred''), (''response'', JObj [(''userHandle'', JStr demo_did)])]"

lemma issue_session_ok:
  assumes "hm_wf (id_sessions idt)" and "length (id_sessions idt) < session_limit idt" and "now2 < po_enable_until (id_policy idt)"
  shows "fst (issue_session X did rp now1 now2 now3 (Some b) (Some sid) idt) = Inr (sid, encode X b)"
proof -
  have wf: "hm_wf (id_sessions (purge_expired now1 idt))" using assms(1) by (simp add: purge_drop hm_wf_filter)
  obtain P where P: "evict_session did (purge_expired now1 idt) = drop_sessions P idt"
    using evict_session_drop [OF wf, of did] purge_drop [OF assms(1), of now1] drop_drop by metis
  have "length (id_sessions (drop_sessions P idt)) < session_limit (drop_sessions P idt)"
    using assms(2) le_less_trans [OF length_filter_le] by (auto simp: session_limit_def)
  then show ?thesis using assms(1,3) P by (simp add: issue_session_def Let_def purge_drop)
qed

lemma demo_login_runs:
  "\<exists>idt' es'. finish_assertion demo_ext demo_wl demo_rp (LoginState \<lparr>ss_challenge = 7, ss_data = []\<rparr>) demo_assertion None 100 101 102 103
     (Some demo_binding) (Some demo_nonce) demo_idt spawn_writer = (Inr (LoggedIn demo_nonce (encode demo_ext demo_binding) demo_did), idt', es')"
proof -
  let ?st = "LoginState \<lparr>ss_challenge = 7, ss_data = []\<rparr>"
  have dev: "assertion_device demo_rp demo_assertion None demo_idt = Inr demo_did" by code_simp
  have chk: "assertion_check demo_ext demo_wl demo_rp ?st demo_assertion demo_did View demo_idt = Inr \<lparr>va_sign_count = 8, va_backup_state = False\<rparr>"
    by code_simp
  have raw: "raw_id demo_assertion = Some ''cred''" by code_simp
  obtain idt1 es1 where v: "assertion_verified demo_did ''cred'' (rp_host demo_rp) \<lparr>va_sign_count = 8, va_backup_state = False\<rparr> 100 demo_idt spawn_writer = (idt1, es1)"
    by (cases "assertion_verified demo_did ''cred'' (rp_host demo_rp) \<lparr>va_sign_count = 8, va_backup_state = False\<rparr> 100 demo_idt spawn_writer")
  note sel = notify_snapshot_sel [OF v [unfolded assertion_verified_run [OF demo_get(1)]]]
  have "fst (issue_session demo_ext demo_did (rp_host demo_rp) 101 102 103 (Some demo_binding) (Some demo_nonce) idt1) = Inr (demo_nonce, encode demo_ext demo_binding)"
    using sel by (intro issue_session_ok) (simp_all add: demo_idt_def demo_policy_def session_limit_def)
  then show ?thesis using dev chk raw v
    by (cases "issue_session demo_ext demo_did (rp_host demo_rp) 101 102 103 (Some demo_binding) (Some demo_nonce) idt1")
      (simp add: finish_assertion_def raw_id_index)
qed

theorem login_sound_witness: "\<not> dv_locked demo_device"
proof -
  obtain idt' es' where "finish_assertion demo_ext demo_wl demo_rp (LoginState \<lparr>ss_challenge = 7, ss_data = []\<rparr>) demo_assertion None 100 101 102 103
     (Some demo_binding) (Some demo_nonce) demo_idt spawn_writer = (Inr (LoggedIn demo_nonce (encode demo_ext demo_binding) demo_did), idt', es')"
    using demo_login_runs by blast
  from login_sound [OF demo_idt_inv this] show ?thesis by auto
qed

theorem lockout_witness:
  "\<exists>d. hm_get (id_devices (fst (fail_times 5 demo_did demo_idt spawn_writer))) demo_did = Some d \<and> dv_locked d"
proof -
  obtain idt' es' where f: "(idt', es') = fail_times 5 demo_did demo_idt spawn_writer" by (metis surj_pair)
  have "\<exists>d. hm_get (id_devices idt') demo_did = Some d \<and> dv_locked d"
    using lockout [OF demo_idt_inv demo_get(1) disjI1 [OF f]] by meson
  then show ?thesis using f [symmetric] by simp
qed

lemma demo_started:
  "\<exists>idt. deserialize_devices demo_ext [demo_device] = Inr [demo_device] \<and> identity_new demo_ext [demo_device] demo_policy = Inr idt
     \<and> id_devices idt = [(demo_did, demo_device)] \<and> id_notifications idt = []"
  using demo_device_valid
  by (simp add: deserialize_devices_def identity_new_def policy_valid_def demo_policy_def demo_did_def) (simp add: demo_device_def)

theorem identity_invariant_witness:
  "\<exists>idt. identity_new demo_ext [demo_device] demo_policy = Inr idt \<and> length (id_sessions idt) \<le> po_max_devices (id_policy idt) * 4"
proof -
  obtain idt where s: "deserialize_devices demo_ext [demo_device] = Inr [demo_device]" "identity_new demo_ext [demo_device] demo_policy = Inr idt"
    using demo_started by blast
  from identity_invariant [OF i_start [OF s, of demo_wl]] s(2) show ?thesis by blast
qed

end
