(* ===== verification/Session_Replica.thy ===== *)
theory Session_Replica
  imports Session_Steps Session_Security
begin

text \<open>
  The desktop keeps its own copy of the device table and persists it; all it ever learns of the
  gateway's table are device events. The abstract specification is that copy: the events replayed
  over the devices the gateway was started with, and the notifications still waiting. The device
  table refines it, up to the time a device was last seen.
\<close>

section \<open>The desktop's copy\<close>

type_synonym store = "string \<rightharpoonup> device"

definition apply_event :: "store \<Rightarrow> event \<Rightarrow> store" where
  "apply_event m e =
     (case e of
        DeviceRegistered d \<Rightarrow> m(dv_device_id d \<mapsto> d)
      | DeviceUpdated d \<Rightarrow> m(dv_device_id d \<mapsto> d)
      | DeviceRevoked did \<Rightarrow> m(did := None)
      | _ \<Rightarrow> m)"

definition replica :: "store \<Rightarrow> event list \<Rightarrow> store" where
  "replica start evs = foldl apply_event start evs"

definition pending :: "(string, device option) hmap \<Rightarrow> store \<Rightarrow> store" where
  "pending ns m did = (case hm_get ns did of None \<Rightarrow> m did | Some snapshot \<Rightarrow> snapshot)"

definition tracks_at :: "store \<Rightarrow> identity \<Rightarrow> event_sender \<Rightarrow> string \<Rightarrow> bool" where
  "tracks_at start idt es did \<longleftrightarrow>
     map_option strip (hm_get (id_devices idt) did)
       = map_option strip (pending (id_notifications idt) (replica start (es_log es)) did)"

definition tracks :: "store \<Rightarrow> identity \<Rightarrow> event_sender \<Rightarrow> bool" where
  "tracks start idt es \<longleftrightarrow> (\<forall>did. tracks_at start idt es did)"

lemma replica_snoc [simp]: "replica start (evs @ [e]) = apply_event (replica start evs) e"
  by (simp add: replica_def)

lemma apply_other: "\<not> device_event e \<Longrightarrow> apply_event m e = m"
  by (cases e) (simp_all add: apply_event_def device_event_def)

lemma replica_other: "\<forall>e \<in> set evs'. \<not> device_event e \<Longrightarrow> replica start (evs @ evs') = replica start evs"
proof -
  assume a: "\<forall>e \<in> set evs'. \<not> device_event e"
  have "foldl apply_event m evs' = m" for m using a by (induction evs') (auto simp: apply_other)
  then show ?thesis by (simp add: replica_def)
qed

lemma apply_notification:
  "(\<And>d. snapshot = Some d \<Longrightarrow> dv_device_id d = did) \<Longrightarrow> apply_event m (notification did snapshot) = m(did := snapshot)"
  by (cases snapshot) (simp_all add: apply_event_def notification_def)

section \<open>Frames\<close>

lemma tracks_cong:
  assumes "tracks start idt es" and "es_log es' = es_log es" and "id_notifications idt' = id_notifications idt"
    and "\<And>did. map_option strip (hm_get (id_devices idt') did) = map_option strip (hm_get (id_devices idt) did)"
  shows "tracks start idt' es'"
  using assms by (simp add: tracks_def tracks_at_def)

lemma tracks_frame [simp]:
  "tracks start (idt\<lparr>id_dirty_devices := ds\<rparr>) es = tracks start idt es"
  "tracks start (idt\<lparr>id_peers := ps\<rparr>) es = tracks start idt es"
  "tracks start (idt\<lparr>id_next_peer := n\<rparr>) es = tracks start idt es"
  "tracks start (idt\<lparr>id_failures := fs\<rparr>) es = tracks start idt es"
  by (simp_all add: tracks_def tracks_at_def)

lemma tracks_drop: "tracks start idt es \<Longrightarrow> tracks start (drop_sessions P idt) es"
  by (erule tracks_cong) simp_all

lemma invalidate_frame: "id_devices (invalidate_device did idt) = id_devices idt" "id_notifications (invalidate_device did idt) = id_notifications idt"
  by (simp_all add: invalidate_device_def fold_invalidate)

lemma tracks_validate:
  assumes "validate sid rp scope now idt = (r, idt')" and "tracks start idt es"
  shows "tracks start idt' es"
  using assms(1)
proof (cases rule: validate_cases)
  case refused
  then show ?thesis using assms(2) tracks_drop by (auto simp: invalidate_is_drop)
next
  case (accepted s d)
  show ?thesis by (rule tracks_cong [OF assms(2)]) (use accepted(5,9) in \<open>auto simp: strip_last_seen\<close>)
qed

lemma tracks_revalidate: "revalidate ctx scope now idt = (r, idt') \<Longrightarrow> tracks start idt es \<Longrightarrow> tracks start idt' es"
  by (auto simp: revalidate_def split: option.splits if_splits intro: tracks_validate)

lemma tracks_authenticate: "authenticate X hs rp now idt = (r, idt') \<Longrightarrow> tracks start idt es \<Longrightarrow> tracks start idt' es"
  by (auto simp: authenticate_def split: option.splits if_splits list.splits prod.splits bool.splits intro: tracks_validate)

lemma tracks_sessions: "tracks start idt es \<Longrightarrow> tracks start (idt\<lparr>id_sessions := m\<rparr>) es"
  by (erule tracks_cong) simp_all

lemma tracks_elevate: "elevate ctx scope now0 now idt = (r, idt') \<Longrightarrow> tracks start idt es \<Longrightarrow> tracks start idt' es"
  by (erule elevate_cases) (auto intro: tracks_revalidate tracks_sessions)

lemma tracks_issue:
  assumes "issue_session X did rp now1 now2 now3 rb rid idt = (r, idt')" and "tracks start idt es" and "hm_wf (id_sessions idt)"
  shows "tracks start idt' es"
  using assms(1,3) by (cases rule: issue_session_cases) (auto intro: tracks_drop tracks_sessions assms(2))

section \<open>Operations that change a device\<close>

text \<open>A new record of one device, either accepted as an event or left as a notification.\<close>

lemma tracks_change:
  assumes "tracks start idt es" and "\<And>d. snapshot = Some d \<Longrightarrow> dv_device_id d = did"
    and "\<And>k. k \<noteq> did \<Longrightarrow> hm_get (id_devices idt') k = hm_get (id_devices idt) k" and "hm_get (id_devices idt') did = snapshot"
    and "\<And>k. k \<noteq> did \<Longrightarrow> hm_get (id_notifications idt') k = hm_get (id_notifications idt) k"
    and "es_log es' = es_log es @ [e] \<and> (\<forall>m. apply_event m e = m(did := snapshot)) \<and> hm_get (id_notifications idt') did = None
      \<or> es_log es' = es_log es \<and> hm_get (id_notifications idt') did = Some snapshot"
  shows "tracks start idt' es'"
  unfolding tracks_def
proof
  fix k show "tracks_at start idt' es' k"
  proof (cases "k = did")
    case True
    then show ?thesis using assms(4,6) by (auto simp: tracks_at_def pending_def)
  next
    case False
    then have "replica start (es_log es') k = replica start (es_log es) k" using assms(6) by auto
    with False assms(1,3,5) show ?thesis by (simp add: tracks_def tracks_at_def pending_def split: option.split)
  qed
qed

lemma tracks_except:
  assumes "\<And>k. k \<noteq> did \<Longrightarrow> tracks_at start idt es k" and "hm_get (id_devices idt) did = Some d" and "dv_device_id d = did"
    and "notify_snapshot did idt es = (idt', es')"
  shows "tracks start idt' es'"
proof -
  obtain ok es1 where e: "try_emit es (notification did (Some d)) = (ok, es1)" by (cases "try_emit es (notification did (Some d))")
  let ?m = "hm_insert did (Some d) (id_notifications idt)"
  have r: "es' = es1" "id_devices idt' = id_devices idt" "id_notifications idt' = (if ok then hm_remove did ?m else ?m)"
    using assms(2,4) e by (auto simp: notify_snapshot_def Let_def split: bool.splits)
  have log: "es_log es1 = es_log es @ (if ok then [notification did (Some d)] else [])" using es.emit_log [OF e] .
  have ap: "apply_event m (notification did (Some d)) = m(did \<mapsto> d)" for m
    by (rule apply_notification) (use assms(3) in simp)
  show ?thesis unfolding tracks_def
  proof
    fix k show "tracks_at start idt' es' k"
    proof (cases "k = did")
      case True
      then show ?thesis using r log assms(2) by (simp add: tracks_at_def pending_def ap)
    next
      case False
      then have "replica start (es_log es') k = replica start (es_log es) k" using r log by (simp add: ap)
      with False assms(1) [of k] r show ?thesis by (simp add: tracks_at_def pending_def split: option.split)
    qed
  qed
qed

lemma tracks_snapshot:
  assumes "notify_snapshot did idt es = (idt', es')" and "tracks start idt es" and "identity_inv X idt"
  shows "tracks start idt' es'"
proof (cases "hm_get (id_devices idt) did")
  case None
  then show ?thesis using assms(1,2) by (auto simp: notify_snapshot_def Let_def intro: tracks_cong)
next
  case (Some d)
  then have "dv_device_id d = did" using assms(3) by (simp add: identity_inv_def devices_ok_def)
  from tracks_except [OF _ Some this assms(1)] assms(2) show ?thesis by (simp add: tracks_def)
qed

lemma tracks_notify_all:
  "notify_all dids idt es = (idt', es') \<Longrightarrow> tracks start idt es \<Longrightarrow> identity_inv X idt \<Longrightarrow> tracks start idt' es'"
proof (induction dids arbitrary: idt es)
  case (Cons did dids)
  obtain idt1 es1 where n: "notify_snapshot did idt es = (idt1, es1)" by (cases "notify_snapshot did idt es")
  from Cons.IH [of idt1 es1] Cons.prems n tracks_snapshot [OF n] notify_snapshot_inv [OF n] show ?case by simp
qed simp

lemma flush_pending:
  assumes "flush_notifications m es = (m', es')" and "hm_wf m" and "\<And>did d. hm_get m did = Some (Some d) \<Longrightarrow> dv_device_id d = did"
  shows "pending m' (replica start (es_log es')) = pending m (replica start (es_log es))"
  using assms
proof (induction m arbitrary: es m' es')
  case (Cons x m)
  obtain did d where x: "x = (did, d)" by (cases x)
  obtain ok es1 where t: "try_emit es (notification did d) = (ok, es1)" by (cases "try_emit es (notification did d)")
  obtain m1 es2 where f: "flush_notifications m es1 = (m1, es2)" by (cases "flush_notifications m es1")
  have new: "hm_get m did = None" using Cons.prems(2) x by (simp add: hm_get_None_iff)
  have ids: "dv_device_id e = k" if "hm_get m k = Some (Some e)" for k e
    using Cons.prems(3) [of k e] that x new by (cases "k = did") auto
  have IH: "pending m1 (replica start (es_log es2)) = pending m (replica start (es_log es1))"
    using Cons.IH [OF f _ ids] Cons.prems(2) by simp
  have "apply_event r (notification did d) = r(did := d)" for r using Cons.prems(3) [of did] x by (intro apply_notification) auto
  then have log: "replica start (es_log es1) = (if ok then (replica start (es_log es))(did := d) else replica start (es_log es))"
    using es.emit_log [OF t] by simp
  have r: "es' = es2" "m' = (if ok then m1 else (did, d) # m1)" using Cons.prems(1) x t f by auto
  show ?case
  proof
    fix k
    have "pending m1 (replica start (es_log es2)) k = pending m (replica start (es_log es1)) k" using IH by simp
    then show "pending m' (replica start (es_log es')) k = pending (x # m) (replica start (es_log es)) k"
      unfolding r x using log new by (auto simp: pending_def split: if_splits option.splits)
  qed
qed simp

lemma notification_ids:
  assumes "tracks start idt es" and "identity_inv X idt" and "hm_get (id_notifications idt) did = Some (Some d)"
  shows "dv_device_id d = did"
proof -
  have t: "map_option strip (hm_get (id_devices idt) did) = Some (strip d)"
    using assms(1,3) by (simp add: tracks_def tracks_at_def pending_def)
  then obtain e where "hm_get (id_devices idt) did = Some e" "strip e = strip d" by auto
  moreover have "dv_device_id (strip e) = dv_device_id e" "dv_device_id (strip d) = dv_device_id d" by (simp_all add: strip_def)
  ultimately show ?thesis using assms(2) by (auto simp: identity_inv_def devices_ok_def)
qed

lemma tracks_maintenance:
  assumes "identity_maintenance now idt es = (idt', es')" and "tracks start idt es" and inv: "identity_inv X idt"
  shows "tracks start idt' es'"
proof -
  let ?p = "purge_expired now idt"
  have wf: "hm_wf (id_sessions idt)" using inv_wf(1) [OF inv] .
  have p: "tracks start (?p\<lparr>id_dirty_devices := []\<rparr>) es" "identity_inv X (?p\<lparr>id_dirty_devices := []\<rparr>)"
    using tracks_drop [OF assms(2)] purge_inv [OF inv] by (simp_all add: purge_drop [OF wf])
  obtain idt1 es1 where n: "notify_all (id_dirty_devices ?p) (?p\<lparr>id_dirty_devices := []\<rparr>) es = (idt1, es1)"
    by (cases "notify_all (id_dirty_devices ?p) (?p\<lparr>id_dirty_devices := []\<rparr>) es")
  obtain m es2 where f: "flush_notifications (id_notifications idt1) es1 = (m, es2)"
    by (cases "flush_notifications (id_notifications idt1) es1")
  have t1: "tracks start idt1 es1" by (rule tracks_notify_all [OF n p])
  have i1: "identity_inv X idt1" by (rule notify_all_inv [OF n p(2)])
  have r: "idt' = idt1\<lparr>id_notifications := m\<rparr>" "es' = es2" using assms(1) n f by (auto simp: identity_maintenance_def Let_def)
  have "pending m (replica start (es_log es2)) = pending (id_notifications idt1) (replica start (es_log es1))"
    by (rule flush_pending [OF f inv_wf(4) [OF i1] notification_ids [OF t1 i1]])
  with t1 show ?thesis unfolding r by (simp add: tracks_def tracks_at_def)
qed

lemma commit_devices:
  "id_devices (commit_change command did snapshot idt) = put_device did snapshot (id_devices idt)"
  by (simp add: commit_change_def invalidate_frame)

lemma put_device_get: "hm_get (put_device did snapshot m) k = (if k = did then snapshot else hm_get m k)"
  by (cases snapshot) (auto simp: put_device_def)

lemma tracks_command:
  assumes "device_command_run X command idt es = (r, idt', es')" and "tracks start idt es" and inv: "identity_inv X idt"
  shows "tracks start idt' es'"
proof -
  let ?did = "command_device command"
  have sid: "dv_device_id d' = ?did" if "hm_get (id_devices idt) ?did = Some d" "device_change command d = Inr (name, w, Some d')" for d d' name w
    using that device_change_same [of command d name w d' X] inv by (auto simp: same_device_def identity_inv_def devices_ok_def)
  from assms(1) show ?thesis
  proof (cases rule: device_command_cases)
    case (widened d name snapshot)
    have sd: "dv_device_id d' = ?did" if "snapshot = Some d'" for d'
      using sid [OF widened(2), of name True d'] widened(3) that by simp
    have ap: "apply_event m (notification ?did snapshot) = m(?did := snapshot)" for m
      by (rule apply_notification) (rule sd)
    show ?thesis
      by (rule tracks_change [OF assms(2), of snapshot ?did _ _ "notification ?did snapshot"])
        (use widened ap try_emit_event_Inr [OF widened(5)] sd in \<open>auto simp: commit_devices put_device_get\<close>)
  next
    case (tightened d name snapshot ok)
    have sd: "dv_device_id d' = ?did" if "snapshot = Some d'" for d'
      using sid [OF tightened(1), of name False d'] tightened(2) that by simp
    have ap: "apply_event m (notification ?did snapshot) = m(?did := snapshot)" for m
      by (rule apply_notification) (rule sd)
    show ?thesis
      by (rule tracks_change [OF assms(2), of snapshot ?did _ _ "notification ?did snapshot"])
        (use tightened ap es.emit_log [OF tightened(3)] sd in \<open>auto simp: commit_devices put_device_get Let_def\<close>)
  qed (use assms(2) in simp)
qed

lemma tracks_register:
  assumes "register_verified X pairing v now1 now2 now3 idt es = (r, idt', es')" and "tracks start idt es" and inv: "identity_inv X idt"
  shows "tracks start idt' es'"
  using assms(1)
proof (cases rule: register_cases)
  case (added d base)
  let ?did = "vr_device_id v"
  let ?e = "if rg_add_to_device pairing \<noteq> None then DeviceUpdated d else DeviceRegistered d"
  have "devices_ok X idt" using inv by (simp add: identity_inv_def)
  then have did: "dv_device_id d = ?did" using registration_base_device [OF added(4)] added(5) by simp
  have none: "hm_get (id_notifications idt) ?did = None"
    using added(4) by (auto simp: registration_base_def split: option.splits if_splits)
  show ?thesis
    by (rule tracks_change [OF assms(2), of "Some d" ?did _ _ ?e])
      (use added(9) did none try_emit_event_Inr [OF added(8)] in \<open>auto simp: invalidate_frame apply_event_def\<close>)
qed (use assms(2) in simp)

lemma tracks_failed:
  assumes "assertion_failed did rollback idt es = (idt', es')" and "tracks start idt es" and inv: "identity_inv X idt"
  shows "tracks start idt' es'"
  using assms(1)
proof (cases rule: assertion_failed_cases)
  case (counted d n)
  then show ?thesis by (intro tracks_cong [OF assms(2)]) simp_all
next
  case (locked d n)
  let ?i = "lock_device did d (idt\<lparr>id_failures := hm_insert did n (id_failures idt)\<rparr>)"
  have "dv_device_id d = did" using locked(1) inv by (simp add: identity_inv_def devices_ok_def)
  moreover have "tracks_at start ?i es k" if "k \<noteq> did" for k
    using assms(2) that by (simp add: tracks_def tracks_at_def lock_device_def invalidate_frame)
  ultimately show ?thesis
    by (intro tracks_except [OF _ _ _ locked(3), of start "d\<lparr>dv_locked := True\<rparr>"]) (simp_all add: lock_device_def invalidate_frame)
qed (use assms(2) in simp)

lemma tracks_verified:
  assumes "assertion_verified did cid rp va now idt es = (idt', es')" and "tracks start idt es" and inv: "identity_inv X idt"
    and d: "hm_get (id_devices idt) did = Some d"
  shows "tracks start idt' es'"
proof -
  have "dv_device_id d = did" using d inv by (simp add: identity_inv_def devices_ok_def)
  then show ?thesis using assms(2)
    by (intro tracks_except [OF _ _ _ assms(1) [unfolded assertion_verified_run [OF d]], of start "record_assertion cid rp va now d"])
      (simp_all add: record_assertion_def tracks_def tracks_at_def)
qed

lemma tracks_finish:
  assumes "finish_assertion X W rp state response ctx now0 now1 now2 now3 rb rid idt es = (r, idt', es')"
    and "tracks start idt es" and inv: "identity_inv X idt"
  shows "tracks start idt' es'"
  using assms(1)
proof (cases rule: finish_assertion_cases)
  case (failed did e)
  show ?thesis by (rule tracks_failed [OF failed(5) assms(2) inv])
next
  case (elevated did c scope va cid idt1 ro)
  obtain d where "hm_get (id_devices idt) did = Some d" using elevated(3) by (rule assertion_check_Inr)
  from tracks_elevate [OF elevated(6) tracks_verified [OF elevated(5) assms(2) inv this]] show ?thesis .
next
  case (logged did va cid idt1 ri)
  obtain d where "hm_get (id_devices idt) did = Some d" using logged(3) by (rule assertion_check_Inr)
  moreover have "hm_wf (id_sessions idt1)" using checked_verified_inv [OF logged(3,4,5) inv] inv_wf(1) by metis
  ultimately show ?thesis using tracks_issue [OF logged(6) tracks_verified [OF logged(5) assms(2) inv]] by blast
qed (use assms(2) in simp)

section \<open>The refinement\<close>

lemma istep_tracks:
  "istep X W (idt, es) (idt', es') \<Longrightarrow> identity_inv X idt \<Longrightarrow> tracks start idt es \<Longrightarrow> tracks start idt' es'"
proof (induction "(idt, es)" "(idt', es')" rule: istep.induct)
  case (i_peer ctx1 scope now idt1 rp1)
  have t: "tracks start idt1 es" using tracks_revalidate i_peer by blast
  from i_peer(2) show ?case
    by (cases rule: register_peer_cases) (use t i_peer in simp_all)
next
  case (i_unregister pid)
  then show ?case by (auto simp: unregister_peer_def)
next
  case (i_purge now)
  then show ?case using tracks_drop purge_drop inv_wf(1) by metis
next
  case (i_queue evs)
  then show ?case by (simp add: tracks_def tracks_at_def replica_other)
qed (auto intro: tracks_command tracks_register tracks_finish tracks_authenticate tracks_revalidate tracks_maintenance tracks_drop
    simp: session_logout_def invalidate_is_drop)

text \<open>
  C31: the desktop's copy is faithful. In every reachable state the gateway's device table is, but
  for the times last seen, what the desktop gets by replaying the device events accepted so far over
  the devices it started the gateway with, corrected at exactly the devices whose latest record is
  still waiting to be sent. So a grant, a lock or a revocation is never lost and never applied on
  one side only; with nothing waiting, both sides agree.
\<close>

theorem device_table_refines_replica:
  assumes "ireach X W devs (idt, es)"
  shows "map_option strip (hm_get (id_devices idt) did)
    = map_option strip (case hm_get (id_notifications idt) did of
        Some snapshot \<Rightarrow> snapshot
      | None \<Rightarrow> replica (\<lambda>k. List.find (\<lambda>d. dv_device_id d = k) devs) (es_log es) did)"
proof -
  let ?start = "\<lambda>k. List.find (\<lambda>d. dv_device_id d = k) devs"
  have "ireach X W devs s \<Longrightarrow> tracks ?start (fst s) (snd s)" for s
  proof (induction rule: ireach.induct)
    case (i_start ds pol idt)
    note f = start_facts [OF i_start]
    have "hm_get (id_devices idt) k = ?start k" for k
      unfolding f(4) fold_table_get [OF f(2)] using f(1) by (simp split: option.splits)
    moreover have "es_log spawn_writer = []" by (simp add: es_log_def spawn_writer_def)
    ultimately show ?case using f(9) by (simp add: tracks_def tracks_at_def pending_def replica_def)
  next
    case (i_more s s')
    then show ?case using istep_tracks [of X W "fst s" "snd s" "fst s'" "snd s'"] ireach_inv [OF i_more(1)] by simp
  qed
  from this [OF assms] show ?thesis by (simp add: tracks_def tracks_at_def pending_def split: option.splits)
qed

text \<open>A start with one device, and its revocation: the table and the replayed log both lose it.\<close>

lemma revoke_emitted:
  "fst (try_emit spawn_writer (DeviceRevoked demo_did)) \<and> es_log (snd (try_emit spawn_writer (DeviceRevoked demo_did))) = [DeviceRevoked demo_did]"
  by code_simp

theorem device_table_refines_replica_witness:
  "\<exists>idt idt' es'. identity_new demo_ext [demo_device] demo_policy = Inr idt
     \<and> device_command_run demo_ext (DeviceRevoke demo_did) idt spawn_writer = (Inr Applied, idt', es')
     \<and> hm_get (id_devices idt) demo_did \<noteq> None \<and> es_log es' = [DeviceRevoked demo_did]
     \<and> map_option strip (hm_get (id_devices idt') demo_did) = None"
proof -
  obtain idt where s: "deserialize_devices demo_ext [demo_device] = Inr [demo_device]" "identity_new demo_ext [demo_device] demo_policy = Inr idt"
    "id_devices idt = [(demo_did, demo_device)]" "id_notifications idt = []"
    using demo_started by blast
  obtain es' where e: "try_emit spawn_writer (DeviceRevoked demo_did) = (True, es')" "es_log es' = [DeviceRevoked demo_did]"
    using revoke_emitted by (cases "try_emit spawn_writer (DeviceRevoked demo_did)") auto
  define i where "i = commit_change (DeviceRevoke demo_did) demo_did None idt"
  have n: "id_notifications i = []" using s(4) by (simp add: i_def commit_change_def invalidate_frame)
  let ?i = "i\<lparr>id_notifications := []\<rparr>"
  have c: "device_command_run demo_ext (DeviceRevoke demo_did) idt spawn_writer = (Inr Applied, ?i, es')"
    using demo_did_decode s(3) e(1) n
    by (simp add: device_command_run_def command_device_def device_change_def notification_def Let_def i_def [symmetric] hm_remove_def)
  have "map_option strip (hm_get (id_devices ?i) demo_did) = None"
    using device_table_refines_replica [OF i_more [OF i_start [OF s(1,2), of demo_wl] i_command [OF c]], of demo_did] e(2)
    by (simp add: replica_def apply_event_def)
  then show ?thesis using s c e(2) by auto
qed

end
