(* ===== verification/Guard.thy ===== *)
theory Guard
  imports Session Complex_Main
begin

text \<open>
  \<open>companion/src/guard.rs\<close>: the first check of every HTTP request. A request passes when it names
  the configured host, carries the secret only the embedded network node knows and the one permitted
  peer login, comes from the gateway's own origin where that matters, and finds a token in the
  bucket of its class.

  The \<open>http\<close> crate's authority parser is the argument \<open>A\<close>. Token counts are \<open>f64\<close> values: every
  floating-point operation is the exact operation followed by the rounding \<open>fl\<close>. A poisoned bucket
  lock, which needs a panic inside the critical section, is not modelled.

  The peer login arrives in the form \<open>companion-net/proxy.go\<close> writes it, with Go's \<open>mime\<close> package:
  its encoder is modelled beside the decoder.
\<close>

section \<open>Login decoding\<close>

definition hex_digit :: "char \<Rightarrow> byte option" where
  "hex_digit b =
     (if 48 \<le> code b \<and> code b \<le> 57 then Some (of_nat (code b - 48))
      else if 97 \<le> code b \<and> code b \<le> 102 then Some (of_nat (code b - 97 + 10))
      else if 65 \<le> code b \<and> code b \<le> 70 then Some (of_nat (code b - 65 + 10))
      else None)"

text \<open>The bytes of a Q-encoded text.\<close>

fun q_decode :: "string \<Rightarrow> bytes option" where
  "q_decode [] = Some []"
| "q_decode (b # iter) =
     (if b = CHR ''_'' then map_option ((#) 32) (q_decode iter)
      else if b = CHR ''='' then
        (case iter of
           h # l # iter' \<Rightarrow>
             (case (hex_digit h, hex_digit l) of
                (Some x, Some y) \<Rightarrow> map_option ((#) (x * 16 + y)) (q_decode iter')
              | _ \<Rightarrow> None)
         | _ \<Rightarrow> None)
      else if 33 \<le> code b \<and> code b \<le> 126 \<and> b \<noteq> CHR ''?'' then map_option ((#) (of_char b)) (q_decode iter)
      else None)"

text \<open>Where the encoded word at the start of \<open>rest\<close> ends.\<close>

definition word_end :: "string \<Rightarrow> nat option" where
  "word_end rest =
     (case Option.bind (strip_prefix ''=?'' rest) (find_str ''?'') of
        None \<Rightarrow> None
      | Some i \<Rightarrow>
          (let charset_end = i + 2
           in case find_str ''?'' (drop (charset_end + 1) rest) of
                None \<Rightarrow> None
              | Some j \<Rightarrow>
                  (let text_start = j + charset_end + 2
                   in case find_str ''?='' (drop text_start rest) of
                        None \<Rightarrow> None
                      | Some k \<Rightarrow> Some (k + text_start + 2))))"

definition word_bytes :: "ext \<Rightarrow> string \<Rightarrow> string \<Rightarrow> bytes option" where
  "word_bytes X encoding txt =
     (if eq_ignore_ascii_case encoding ''b'' then x_std_b64_decode X txt
      else if eq_ignore_ascii_case encoding ''q'' then q_decode txt
      else None)"

definition word_text :: "ext \<Rightarrow> string \<Rightarrow> string option" where
  "word_text X word =
     (case Option.bind (strip_prefix ''=?'' word) (strip_suffix ''?='') of
        None \<Rightarrow> None
      | Some inner \<Rightarrow>
          (case split_on (CHR ''?'') inner of
             [charset, encoding, txt] \<Rightarrow>
               if \<not> eq_ignore_ascii_case charset ''utf-8'' \<or> txt = [] then None
               else Option.bind (word_bytes X encoding txt) from_utf8
           | _ \<Rightarrow> None))"

text \<open>The loop over adjacent words; the exit test \<open>rest.is_empty()\<close> comes first in each round.\<close>

function decode_words :: "ext \<Rightarrow> string \<Rightarrow> string \<Rightarrow> string option" where
  "decode_words X result rest =
     (if rest = [] then Some result
      else (case word_end rest of
              None \<Rightarrow> None
            | Some e \<Rightarrow>
                if length (take e rest) > 75 then None
                else (case word_text X (take e rest) of
                        None \<Rightarrow> None
                      | Some t \<Rightarrow>
                          (let rest' = drop e rest;
                               trimmed = dropWhile (\<lambda>c. c = CHR '' '' \<or> c = CHR 0x09) rest'
                           in if rest' = [] then Some (result @ t)
                              else if length trimmed = length rest' \<or> \<not> starts_with trimmed ''=?'' then None
                              else decode_words X (result @ t) trimmed))))"
  by pat_completeness auto

termination
proof (relation "measure (\<lambda>(X, result, rest). length rest)", goal_cases)
  case (2 X result rest e t rest' trimmed)
  have "length trimmed \<le> length rest'" unfolding 2 by (rule length_dropWhile_le)
  with 2 have "length trimmed < length rest'" by simp
  also have "\<dots> \<le> length rest" by (simp add: 2)
  finally show ?case by simp
qed simp

declare decode_words.simps [simp del]

definition decode_login :: "ext \<Rightarrow> string \<Rightarrow> string option" where
  "decode_login X input =
     (if \<not> starts_with input ''=?'' then
        (if input \<noteq> [] \<and> list_all (\<lambda>b. 33 \<le> code b \<and> code b \<le> 126) input \<and> find_str ''=?'' input = None
         then Some input else None)
      else (case decode_words X [] input of
              None \<Rightarrow> None
            | Some result \<Rightarrow>
                if result = [] \<or> list_ex is_control (chars result) then None else Some result))"

section \<open>Login encoding in the network node\<close>

text \<open>
  \<open>encodeHeader\<close> of \<open>companion-net/proxy.go\<close>, with \<open>mime.QEncoding.Encode\<close> of the Go library: at
  most 63 characters of content in a word, and no code point split between words.
\<close>

definition upper_hex :: "nat \<Rightarrow> char" where
  "upper_hex n = (if n < 10 then char_of (48 + n) else char_of (55 + n))"

definition q_char :: "char \<Rightarrow> string" where
  "q_char b =
     (if b = CHR '' '' then ''_''
      else if 33 \<le> code b \<and> code b \<le> 126 \<and> b \<noteq> CHR ''='' \<and> b \<noteq> CHR ''?'' \<and> b \<noteq> CHR ''_'' then [b]
      else [CHR ''='', upper_hex (code b div 16), upper_hex (code b mod 16)])"

definition q_string :: "string \<Rightarrow> string" where
  "q_string s = concat (map q_char s)"

text \<open>\<open>utf8.DecodeRuneInString\<close>: the width of the first code point, 1 when it is malformed.\<close>

definition rune_at :: "string \<Rightarrow> nat \<Rightarrow> bool" where
  "rune_at s n \<longleftrightarrow> n \<le> length s
     \<and> (case utf8_decode (map of_char (take n s)) of Some [c] \<Rightarrow> True | _ \<Rightarrow> False)"

definition rune_len :: "string \<Rightarrow> nat" where
  "rune_len s = (if rune_at s 2 then 2 else if rune_at s 3 then 3 else if rune_at s 4 then 4 else 1)"

definition q_width :: "string \<Rightarrow> nat \<times> nat" where
  "q_width s =
     (let b = hd s
      in if 32 \<le> code b \<and> code b \<le> 126 \<and> b \<noteq> CHR ''='' \<and> b \<noteq> CHR ''?'' \<and> b \<noteq> CHR ''_'' then (1, 1)
         else (rune_len s, 3 * rune_len s))"

definition OPEN_WORD :: string where "OPEN_WORD = ''=?utf-8?q?''"
definition CLOSE_WORD :: string where "CLOSE_WORD = ''?=''"
definition MAX_CONTENT_LEN :: nat where "MAX_CONTENT_LEN = 63"

lemma q_width_pos [simp]: "0 < fst (q_width s)"
  by (simp add: q_width_def rune_len_def Let_def)

lemma q_width_shrinks: "s \<noteq> [] \<Longrightarrow> (n, e) = q_width s \<Longrightarrow> length (drop n s) < length s"
  using q_width_pos [of s] by (cases "q_width s") auto

function q_encode :: "string \<Rightarrow> nat \<Rightarrow> string \<Rightarrow> string" where
  "q_encode buf current_len s =
     (if s = [] then buf
      else (case q_width s of (n, enc_len) \<Rightarrow>
              if current_len + enc_len > MAX_CONTENT_LEN
              then q_encode (buf @ CLOSE_WORD @ '' '' @ OPEN_WORD @ q_string (take n s)) enc_len (drop n s)
              else q_encode (buf @ q_string (take n s)) (current_len + enc_len) (drop n s)))"
  by pat_completeness auto

termination
  by (relation "measure (\<lambda>(buf, n, s). length s)") (auto dest: q_width_shrinks)

declare q_encode.simps [simp del]

definition mime_q_encode :: "string \<Rightarrow> string" where
  "mime_q_encode s =
     (if list_ex (\<lambda>b. (code b < 32 \<or> 126 < code b) \<and> code b \<noteq> 9) s
      then q_encode OPEN_WORD 0 s @ CLOSE_WORD else s)"

definition encode_header :: "string \<Rightarrow> string" where
  "encode_header s = (if list_ex (\<lambda>b. code b < 32 \<or> 126 < code b) s then mime_q_encode s else s)"

section \<open>The token bucket\<close>

definition RATE_BURST :: real where "RATE_BURST = 60"
definition RATE_PER_SECOND :: real where "RATE_PER_SECOND = 10"

record bucket =
  bk_tokens :: real
  bk_updated :: nat

text \<open>\<open>Duration::as_secs_f64\<close> of nanoseconds: seconds plus the fraction, each as \<open>f64\<close>.\<close>

definition as_secs_f64 :: "(real \<Rightarrow> real) \<Rightarrow> duration \<Rightarrow> real" where
  "as_secs_f64 fl d =
     fl (fl (real (d div 1000000000)) + fl (fl (real (d mod 1000000000)) / 1000000000))"

definition refill :: "(real \<Rightarrow> real) \<Rightarrow> nat \<Rightarrow> bucket \<Rightarrow> bucket" where
  "refill fl t b =
     b\<lparr>bk_tokens := min (fl (bk_tokens b + fl (as_secs_f64 fl (t - bk_updated b) * RATE_PER_SECOND))) RATE_BURST,
       bk_updated := t\<rparr>"

definition take_token :: "(real \<Rightarrow> real) \<Rightarrow> nat \<Rightarrow> bucket \<Rightarrow> (status_code + unit) \<times> bucket" where
  "take_token fl t b =
     (let b' = refill fl t b
      in if bk_tokens b' < 1 then (Inl TOO_MANY_REQUESTS, b')
         else (Inr (), b'\<lparr>bk_tokens := fl (bk_tokens b' - 1)\<rparr>))"

section \<open>The guard\<close>

definition HEADER_LIMIT :: nat where "HEADER_LIMIT = 16 * 1024"
definition HEADER_COUNT :: nat where "HEADER_COUNT = 64"

record guard =
  gd_host :: string
  gd_login :: string
  gd_proxy_secret :: bytes
  gd_origin :: string
  gd_static_bucket :: bucket
  gd_api_bucket :: bucket

record authority =
  at_str :: string
  at_host :: string
  at_port :: "(nat \<times> string) option"

definition host_invalid :: "authority \<Rightarrow> string \<Rightarrow> bool" where
  "host_invalid authority public_host \<longleftrightarrow>
     (let host = at_host authority
      in host = []
         \<or> list_ex is_ascii_uppercase host
         \<or> ends_with host ''.''
         \<or> (case at_port authority of None \<Rightarrow> False | Some (p, txt) \<Rightarrow> p = 443 \<or> txt \<noteq> nat_str p)
         \<or> list_ex (\<lambda>c. c = CHR ''['' \<or> c = CHR '']'' \<or> c = CHR ''@'') public_host
         \<or> is_ip_addr host
         \<or> \<not> list_all (\<lambda>b. is_ascii_alphanumeric b \<or> b = CHR ''.'' \<or> b = CHR ''-'') host
         \<or> at_str authority \<noteq> public_host
         \<or> ends_with public_host '':''
         \<or> (CHR '':'' \<in> set public_host
             \<and> (case at_port authority of None \<Rightarrow> True | Some (p, txt) \<Rightarrow> p = 0)))"

definition guard_new ::
  "ext \<Rightarrow> (string \<Rightarrow> authority option) \<Rightarrow> loopback \<Rightarrow> nat \<Rightarrow> nat \<Rightarrow> string + guard" where
  "guard_new X A config now1 now2 =
     (case A (lb_public_host config) of
        None \<Rightarrow> Inl ''invalid-host''
      | Some authority \<Rightarrow>
          if host_invalid authority (lb_public_host config) then Inl ''invalid-host''
          else if lb_required_tailscale_login config = []
               \<or> list_ex is_control (chars (lb_required_tailscale_login config)) then Inl ''invalid-login''
          else if \<not> proxy_secret_valid X (lb_proxy_secret config) then Inl ''invalid-proxy-secret''
          else Inr \<lparr>gd_host = lb_public_host config, gd_login = lb_required_tailscale_login config,
                 gd_proxy_secret = hash X (str_bytes (lb_proxy_secret config)),
                 gd_origin = ''https://'' @ lb_public_host config,
                 gd_static_bucket = \<lparr>bk_tokens = RATE_BURST, bk_updated = now2\<rparr>,
                 gd_api_bucket = \<lparr>bk_tokens = RATE_BURST, bk_updated = now1\<rparr>\<rparr>)"

text \<open>\<open>HeaderValue::to_str\<close> accepts visible ASCII, spaces and tabs; \<open>one\<close> wants a single value.\<close>

definition header_to_str :: "string \<Rightarrow> string option" where
  "header_to_str v = (if list_all (\<lambda>b. (32 \<le> code b \<and> code b < 127) \<or> code b = 9) v then Some v else None)"

definition one :: "headers \<Rightarrow> string \<Rightarrow> string option" where
  "one hs name =
     (case get_all hs name of
        [] \<Rightarrow> None
      | v # vs \<Rightarrow>
          (case header_to_str v of None \<Rightarrow> None | Some s \<Rightarrow> if vs \<noteq> [] then None else Some s))"

definition contains_key :: "headers \<Rightarrow> string \<Rightarrow> bool" where
  "contains_key hs name \<longleftrightarrow> get_all hs name \<noteq> []"

record uri =
  uri_authority :: "string option"
  uri_scheme :: "string option"
  uri_path :: string

definition headers_too_large :: "headers \<Rightarrow> bool" where
  "headers_too_large hs \<longleftrightarrow> length hs > HEADER_COUNT
     \<or> sum_list (map (\<lambda>(k, v). length k + length v + 4) hs) > HEADER_LIMIT"

definition needs_origin :: "string \<Rightarrow> uri \<Rightarrow> headers \<Rightarrow> bool" where
  "needs_origin meth u hs \<longleftrightarrow> meth \<noteq> ''GET'' \<or> contains_key hs ''upgrade'' \<or> uri_path u = ''/ws''"

definition api_class :: "uri \<Rightarrow> bool" where
  "api_class u \<longleftrightarrow> starts_with (uri_path u) ''/api/'' \<or> uri_path u = ''/ws''"

text \<open>The checks before the bucket, in order: \<open>Some\<close> is the status the request is refused with.\<close>

definition guard_refuses :: "ext \<Rightarrow> guard \<Rightarrow> string \<Rightarrow> uri \<Rightarrow> headers \<Rightarrow> status_code option" where
  "guard_refuses X g meth u hs =
     (if headers_too_large hs then Some REQUEST_HEADER_FIELDS_TOO_LARGE
      else case one hs ''host'' of
        None \<Rightarrow> Some MISDIRECTED_REQUEST
      | Some host \<Rightarrow>
          if \<not> eq_ignore_ascii_case host (gd_host g) \<or> uri_authority u \<noteq> None \<or> uri_scheme u \<noteq> None
          then Some MISDIRECTED_REQUEST
          else case one hs ''yzc-proxy-secret'' of
            None \<Rightarrow> Some FORBIDDEN
          | Some secret \<Rightarrow>
              if \<not> matches X (gd_proxy_secret g) (str_bytes secret) then Some FORBIDDEN
              else case Option.bind (one hs ''yzc-peer-login'') (decode_login X) of
                None \<Rightarrow> Some FORBIDDEN
              | Some login \<Rightarrow>
                  if login \<noteq> gd_login g then Some FORBIDDEN
                  else if needs_origin meth u hs \<and> one hs ''origin'' \<noteq> Some (gd_origin g) then Some FORBIDDEN
                  else if meth = ''GET'' \<and> starts_with (uri_path u) ''/api/''
                       \<and> one hs ''origin'' \<noteq> Some (gd_origin g)
                       \<and> (contains_key hs ''origin'' \<or> one hs ''sec-fetch-site'' \<noteq> Some ''same-origin'')
                  then Some FORBIDDEN
                  else None)"

definition check ::
  "ext \<Rightarrow> (real \<Rightarrow> real) \<Rightarrow> string \<Rightarrow> uri \<Rightarrow> headers \<Rightarrow> nat \<Rightarrow> guard \<Rightarrow> (status_code + unit) \<times> guard" where
  "check X fl meth u hs t g =
     (case guard_refuses X g meth u hs of
        Some e \<Rightarrow> (Inl e, g)
      | None \<Rightarrow>
          if api_class u
          then (case take_token fl t (gd_api_bucket g) of (r, b) \<Rightarrow> (r, g\<lparr>gd_api_bucket := b\<rparr>))
          else (case take_token fl t (gd_static_bucket g) of (r, b) \<Rightarrow> (r, g\<lparr>gd_static_bucket := b\<rparr>)))"

end
