(* ===== verification/Guard_Login.thy ===== *)
theory Guard_Login
  imports Guard
begin

text \<open>
  The peer login survives its trip through the header: whatever login the network node encodes, the
  guard decodes to the same login. The encoder splits long logins into words at code point
  boundaries; the proof follows the words.
\<close>

section \<open>UTF-8 boundaries\<close>

abbreviation codes :: "string \<Rightarrow> nat list" where
  "codes s \<equiv> map of_char s"

definition utf8_ok :: "string \<Rightarrow> bool" where
  "utf8_ok s \<longleftrightarrow> utf8_decode (codes s) \<noteq> None"

lemma utf8_decode_append:
  "utf8_decode a = Some x \<Longrightarrow> utf8_decode (a @ b) = map_option ((@) x) (utf8_decode b)"
proof (induction a arbitrary: x rule: utf8_decode.induct)
  case 1
  then show ?case by (cases "utf8_decode b") auto
next
  case (2 a r)
  then show ?case
    by (cases "utf8_decode b") (auto split: if_splits list.splits)
qed

lemma utf8_decode_Nil [simp]: "utf8_decode xs = Some [] \<longleftrightarrow> xs = []"
  by (cases xs) (auto split: if_splits list.splits)

lemma utf8_single_high:
  assumes "utf8_decode xs = Some [c]" and "2 \<le> length xs" and "x \<in> set xs"
  shows "128 \<le> x"
proof (cases xs)
  case (Cons a r)
  with assms have "\<not> a < 128" by auto
  with assms Cons show ?thesis
    by (auto simp: cont_byte_def split: if_splits list.splits)
qed (use assms in simp)

lemma utf8_first:
  assumes "utf8_decode (a # r) \<noteq> None"
  obtains "utf8_decode [a] = Some [a]"
  | b r2 c where "r = b # r2" and "utf8_decode [a, b] = Some [c]"
  | b b3 r3 c where "r = b # b3 # r3" and "utf8_decode [a, b, b3] = Some [c]"
  | b b3 b4 r4 c where "r = b # b3 # b4 # r4" and "utf8_decode [a, b, b3, b4] = Some [c]"
  using assms by (auto split: if_splits list.splits)

lemma rune_at_rune_len:
  assumes "utf8_ok s" and "s \<noteq> []"
  shows "rune_at s (rune_len s)"
proof -
  obtain a r where s: "codes s = a # r" using assms(2) by (cases s) auto
  have t: "codes (take n s) = take n (a # r)" for n by (metis s take_map)
  have l: "length s = Suc (length r)" using s by (metis length_Cons length_map)
  have "utf8_decode (a # r) \<noteq> None" using assms(1) by (simp add: utf8_ok_def s)
  then have "\<exists>n \<in> {1, 2, 3, 4}. rune_at s n"
    by (cases rule: utf8_first) (simp_all add: rune_at_def t l del: utf8_decode.simps)
  then show ?thesis by (auto simp: rune_len_def)
qed

lemma rune_split:
  assumes "utf8_ok s" and "rune_at s n"
  shows "utf8_ok (take n s)" and "utf8_ok (drop n s)"
proof -
  from assms(2) obtain c where c: "utf8_decode (codes (take n s)) = Some [c]"
    by (auto simp: rune_at_def split: option.splits list.splits)
  then show "utf8_ok (take n s)" by (simp add: utf8_ok_def)
  have "utf8_decode (codes s) = map_option ((@) [c]) (utf8_decode (codes (drop n s)))"
    using utf8_decode_append [OF c, of "codes (drop n s)"] by (simp flip: map_append)
  with assms(1) show "utf8_ok (drop n s)" by (auto simp: utf8_ok_def)
qed

lemma utf8_ok_append: "utf8_ok a \<Longrightarrow> utf8_ok b \<Longrightarrow> utf8_ok (a @ b)"
  by (auto simp: utf8_ok_def utf8_decode_append)

lemma utf8_ok_ascii: "code (hd s) < 128 \<Longrightarrow> s \<noteq> [] \<Longrightarrow> rune_at s 1"
  by (cases s) (auto simp: rune_at_def)

section \<open>One encoded word\<close>

lemma code_less_256 [simp]: "code c < 256"
  by (metis of_char_def char_of_char of_char_mod_256 mod_less_divisor zero_less_numeral)

lemma unat_of_char: "unat (of_char x :: 8 word) = code x"
proof -
  have "unat (of_nat (code x) :: 8 word) = code x"
    by (simp add: unat_of_nat del: of_nat_of_char)
  then show ?thesis by (simp only: of_nat_of_char)
qed

lemma code_space: "code b = 32 \<longleftrightarrow> b = CHR '' ''"
proof
  assume "code b = 32"
  then have "code b = code (CHR '' '')" by simp
  then show "b = CHR '' ''" by (simp only: of_char_eq_iff)
qed simp

lemma hex_digit_upper_hex: "n < 16 \<Longrightarrow> hex_digit (upper_hex n) = Some (of_nat n)"
  by (auto simp: hex_digit_def upper_hex_def of_char_of)

lemma upper_hex_plain: "n < 16 \<Longrightarrow> upper_hex n \<noteq> CHR ''?''"
proof
  assume "n < 16" and "upper_hex n = CHR ''?''"
  then have "hex_digit (CHR ''?'') = Some (of_nat n)" using hex_digit_upper_hex by metis
  then show False by (simp add: hex_digit_def)
qed

lemma nibbles: "of_nat (code b div 16) * 16 + of_nat (code b mod 16) = (of_char b :: 8 word)"
proof -
  have "of_nat (code b div 16 * 16 + code b mod 16) = (of_char b :: 8 word)"
    by (simp only: div_mult_mod_eq of_nat_of_char)
  then show ?thesis by (simp only: of_nat_add of_nat_mult of_nat_numeral)
qed

lemma q_decode_char: "q_decode (q_char b @ r) = map_option ((#) (of_char b)) (q_decode r)"
  by (auto simp: q_char_def hex_digit_upper_hex nibbles less_mult_imp_div_less split: option.splits)

lemma q_decode_string: "q_decode (q_string s) = Some (str_bytes s)"
  by (induction s) (simp_all add: q_string_def str_bytes_def q_decode_char)

lemma q_string_plain: "CHR ''?'' \<notin> set (q_string s)"
  by (induction s)
    (auto simp: q_string_def q_char_def upper_hex_plain less_mult_imp_div_less dest!: sym [of "CHR ''?''"])

lemma q_string_empty: "q_string s = [] \<longleftrightarrow> s = []"
  by (cases s) (auto simp: q_string_def q_char_def)

lemma q_string_append: "q_string (a @ b) = q_string a @ q_string b"
  by (simp add: q_string_def)

lemma q_width_length:
  assumes "utf8_ok s" and "s \<noteq> []" and "q_width s = (n, e)"
  shows "length (q_string (take n s)) = e" and "rune_at s n" and "e \<le> 12"
proof -
  obtain b r where s: "s = b # r" using assms(2) by (cases s) auto
  have "length (q_string (take n s)) = e \<and> rune_at s n \<and> e \<le> 12"
  proof (cases "32 \<le> code b \<and> code b \<le> 126 \<and> b \<noteq> CHR ''='' \<and> b \<noteq> CHR ''?'' \<and> b \<noteq> CHR ''_''")
    case True
    then have "n = 1" and "e = 1" and "rune_at s 1"
      using assms(3) utf8_ok_ascii [of s] by (auto simp: q_width_def s Let_def)
    moreover from True have "b = CHR '' '' \<or> 33 \<le> code b" using code_space [of b] by linarith
    ultimately show ?thesis using True by (auto simp: q_string_def q_char_def s)
  next
    case False
    then have n: "n = rune_len s" and e: "e = 3 * n"
      using assms(3) by (auto simp: q_width_def s Let_def split: if_splits)
    have at: "rune_at s n" unfolding n by (rule rune_at_rune_len [OF assms(1,2)])
    then obtain c where c: "utf8_decode (codes (take n s)) = Some [c]" and le: "n \<le> length s"
      by (auto simp: rune_at_def split: option.splits list.splits)
    have "length (q_char x) = 3" if "x \<in> set (take n s)" for x
    proof (cases "n = 1")
      case True
      with that s False show ?thesis by (auto simp: q_char_def)
    next
      case n1: False
      then have "2 \<le> length (codes (take n s))" using le by (auto simp: n rune_len_def split: if_splits)
      then have "128 \<le> code x" using utf8_single_high [OF c] that by auto
      then show ?thesis by (auto simp: q_char_def)
    qed
    then have "map (length \<circ> q_char) (take n s) = map (\<lambda>_. 3) (take n s)" by simp
    then have "length (q_string (take n s)) = 3 * n"
      using le by (simp only: q_string_def length_concat map_map) (simp add: sum_list_triv)
    with at e show ?thesis by (auto simp: n rune_len_def)
  qed
  then show "length (q_string (take n s)) = e" and "rune_at s n" and "e \<le> 12" by auto
qed

section \<open>Sequences of words\<close>

definition q_word :: "string \<Rightarrow> string" where
  "q_word c = OPEN_WORD @ q_string c @ CLOSE_WORD"

definition chunk_ok :: "string \<Rightarrow> bool" where
  "chunk_ok c \<longleftrightarrow> c \<noteq> [] \<and> utf8_ok c \<and> length (q_string c) \<le> MAX_CONTENT_LEN"

fun join_words :: "string list \<Rightarrow> string" where
  "join_words [] = []"
| "join_words [c] = q_word c"
| "join_words (c # cs) = q_word c @ '' '' @ join_words cs"

lemma find_str_before:
  "pat \<noteq> [] \<Longrightarrow> hd pat \<notin> set a \<Longrightarrow> find_str pat (a @ pat @ b) = Some (length a)"
proof (induction a)
  case Nil
  then show ?case by (cases pat) (auto simp: starts_with_def)
next
  case (Cons x a)
  then have "\<not> starts_with (x # a @ pat @ b) pat"
    by (cases pat) (auto simp: starts_with_def)
  with Cons show ?case by simp
qed

lemma word_end_q_word: "word_end (q_word c @ r) = Some (length (q_word c))"
proof -
  have a: "find_str ''?'' (''utf-8?q?'' @ x) = Some 5" for x
    using find_str_before [of "''?''" "''utf-8''" "''q?'' @ x"] by simp
  have b: "find_str ''?'' (''q?'' @ x) = Some 1" for x
    using find_str_before [of "''?''" "''q''" x] by simp
  have c: "find_str ''?='' (q_string c @ ''?='' @ r) = Some (length (q_string c))"
    using find_str_before [of "''?=''" "q_string c" r] q_string_plain by simp
  show ?thesis using a b c
    by (simp add: word_end_def q_word_def OPEN_WORD_def CLOSE_WORD_def strip_prefix_def)
qed

lemma split_on_append: "c \<notin> set a \<Longrightarrow> split_on c (a @ c # b) = a # split_on c b"
  by (induction a) auto

lemma word_text_q_word:
  assumes "utf8_ok c" and "c \<noteq> []"
  shows "word_text X (q_word c) = Some c"
proof -
  have "split_on (CHR ''?'') (''utf-8?q?'' @ q_string c) = [''utf-8'', ''q'', q_string c]"
    using split_on_id [OF q_string_plain] by simp
  moreover have "Option.bind (strip_prefix ''=?'' (q_word c)) (strip_suffix ''?='') = Some (''utf-8?q?'' @ q_string c)"
    by (simp add: q_word_def OPEN_WORD_def CLOSE_WORD_def strip_prefix_def strip_suffix_Some)
  moreover have "word_bytes X ''q'' (q_string c) = Some (str_bytes c)"
    by (simp add: word_bytes_def eq_ignore_ascii_case_def to_ascii_lowercase_def is_ascii_uppercase_def
        q_decode_string)
  moreover have "from_utf8 (str_bytes c) = Some c"
  proof -
    have "map unat (str_bytes c) = codes c"
      by (simp add: str_bytes_def unat_of_char)
    moreover have "bytes_str (str_bytes c) = c" by (simp add: bytes_str_def str_bytes_def unat_of_char comp_def)
    ultimately show ?thesis using assms(1) by (auto simp: from_utf8_def utf8_ok_def)
  qed
  ultimately show ?thesis
    using assms(2) by (simp add: word_text_def eq_ignore_ascii_case_def q_string_empty)
qed

lemma decode_words_q_word:
  assumes "chunk_ok c"
  shows "decode_words X res (q_word c) = Some (res @ c)"
    and "decode_words X res (q_word c @ '' '' @ q_word c' @ r) = decode_words X (res @ c) (q_word c' @ r)"
proof -
  have l: "length (q_word c) \<le> 75" and ne: "q_word c \<noteq> []"
    using assms by (auto simp: chunk_ok_def q_word_def OPEN_WORD_def CLOSE_WORD_def MAX_CONTENT_LEN_def)
  have t: "word_text X (q_word c) = Some c" using assms by (simp add: chunk_ok_def word_text_q_word)
  show "decode_words X res (q_word c) = Some (res @ c)"
    using l ne t word_end_q_word [of c "[]"] by (subst decode_words.simps) simp
  obtain y where y: "q_word c' @ r = CHR ''='' # CHR ''?'' # y"
    by (simp add: q_word_def OPEN_WORD_def)
  show "decode_words X res (q_word c @ '' '' @ q_word c' @ r) = decode_words X (res @ c) (q_word c' @ r)"
    using l ne t word_end_q_word [of c "'' '' @ q_word c' @ r"] unfolding y
    by (subst decode_words.simps) (simp add: starts_with_def)
qed

lemma decode_words_join:
  "cs \<noteq> [] \<Longrightarrow> list_all chunk_ok cs \<Longrightarrow> decode_words X res (join_words cs) = Some (res @ concat cs)"
proof (induction cs arbitrary: res rule: join_words.induct)
  case (3 c c' cs)
  have "\<exists>r. join_words (c' # cs) = q_word c' @ r" by (cases cs) auto
  with 3 show ?case using decode_words_q_word(2) [of c X res c'] by auto
qed (simp_all add: decode_words_q_word(1))

section \<open>The encoder writes such a sequence\<close>

lemma q_encode_words:
  assumes "utf8_ok c" and "length (q_string c) \<le> MAX_CONTENT_LEN" and "utf8_ok s" and "c @ s \<noteq> []"
  shows "\<exists>cs. cs \<noteq> [] \<and> list_all chunk_ok cs \<and> concat cs = c @ s
     \<and> q_encode (B @ OPEN_WORD @ q_string c) (length (q_string c)) s @ CLOSE_WORD = B @ join_words cs"
  using assms
proof (induction "length s" arbitrary: s c B rule: less_induct)
  case less
  show ?case
  proof (cases "s = []")
    case True
    with less.prems show ?thesis
      by (intro exI [of _ "[c]"]) (simp add: chunk_ok_def q_encode.simps q_word_def)
  next
    case False
    obtain n e where w: "q_width s = (n, e)" by (cases "q_width s")
    note q = q_width_length [OF less.prems(3) False w]
    note ok = rune_split [OF less.prems(3) q(2)]
    have shorter: "length (drop n s) < length s" using q_width_shrinks [OF False w [symmetric]] .
    have whole: "take n s @ drop n s = s" by simp
    have ne: "take n s \<noteq> []" using q(1) w False q_width_pos [of s] by (cases s) auto
    show ?thesis
    proof (cases "length (q_string c) + e > MAX_CONTENT_LEN")
      case True
      have fits: "length (q_string (take n s)) \<le> MAX_CONTENT_LEN" using q by (simp add: MAX_CONTENT_LEN_def)
      have c: "c \<noteq> []" using True q(3) by (auto simp: MAX_CONTENT_LEN_def q_string_def)
      from less.hyps [OF shorter ok(1) fits ok(2), of "B @ q_word c @ '' ''"] ne
      obtain cs where cs: "cs \<noteq> []" "list_all chunk_ok cs" "concat cs = s"
        "q_encode (B @ q_word c @ '' '' @ OPEN_WORD @ q_string (take n s)) e (drop n s) @ CLOSE_WORD
           = B @ q_word c @ '' '' @ join_words cs"
        unfolding q(1) by auto
      have "join_words (c # cs) = q_word c @ '' '' @ join_words cs" using cs(1) by (cases cs) auto
      with cs c True w False less.prems show ?thesis
        by (intro exI [of _ "c # cs"]) (simp add: chunk_ok_def q_encode.simps [of _ _ s] q_word_def)
    next
      case small: False
      then have fits: "length (q_string (c @ take n s)) \<le> MAX_CONTENT_LEN"
        by (simp add: q_string_append q(1))
      from less.hyps [OF shorter utf8_ok_append [OF less.prems(1) ok(1)] fits ok(2), of B] ne
      show ?thesis using small w False by (simp add: q_encode.simps [of _ _ s] q_string_append q(1))
    qed
  qed
qed

lemma utf8_uncons:
  assumes "utf8_decode xs \<noteq> None" and "xs \<noteq> []"
  obtains p q c where "xs = p @ q" and "p \<noteq> []" and "utf8_decode p = Some [c]"
proof -
  obtain a r where xs: "xs = a # r" using assms(2) by (cases xs) auto
  from assms(1)[unfolded xs] show thesis
  proof (cases rule: utf8_first)
    case 1
    then show thesis using that [of "[a]" r] xs by auto
  next
    case (2 b r2 c)
    then show thesis using that [of "[a, b]" r2] xs by auto
  next
    case (3 b b3 r3 c)
    then show thesis using that [of "[a, b, b3]" r3] xs by auto
  next
    case (4 b b3 b4 r4 c)
    then show thesis using that [of "[a, b, b3, b4]" r4] xs by auto
  qed
qed

lemma utf8_ascii_kept: "utf8_decode xs = Some cs \<Longrightarrow> x \<in> set xs \<Longrightarrow> x < 128 \<Longrightarrow> x \<in> set cs"
proof (induction "length xs" arbitrary: xs cs rule: less_induct)
  case less
  then have "utf8_decode xs \<noteq> None" and "xs \<noteq> []" by auto
  then obtain p q c where xs: "xs = p @ q" and p: "p \<noteq> []" "utf8_decode p = Some [c]" by (rule utf8_uncons)
  obtain cs' where q: "utf8_decode q = Some cs'" and cs: "cs = c # cs'"
    using less.prems(1) utf8_decode_append [OF p(2), of q] by (auto simp: xs)
  show ?case
  proof (cases "x \<in> set q")
    case True
    then show ?thesis using less.hyps [OF _ q True less.prems(3)] p(1) by (simp add: xs cs)
  next
    case False
    then have x: "x \<in> set p" using less.prems(2) by (simp add: xs)
    then have "\<not> 2 \<le> length p" using utf8_single_high [OF p(2)] less.prems(3) by force
    then have "p = [x]" using x by (cases p) (auto simp: Suc_le_eq)
    then show ?thesis using p(2) less.prems(3) by (simp add: cs)
  qed
qed

definition plain_ascii :: "string \<Rightarrow> bool" where
  "plain_ascii s \<longleftrightarrow> \<not> list_ex (\<lambda>b. code b < 32 \<or> 126 < code b) s"

lemma no_control_bytes:
  assumes "utf8_ok s" and "\<not> list_ex is_control (chars s)" and "b \<in> set s"
  shows "32 \<le> code b"
proof (rule ccontr)
  assume b: "\<not> 32 \<le> code b"
  obtain cs where cs: "utf8_decode (codes s) = Some cs" using assms(1) by (auto simp: utf8_ok_def)
  have "code b \<in> set cs" using utf8_ascii_kept [OF cs, of "code b"] assms(3) b by auto
  with assms(2) b cs show False by (auto simp: chars_def is_control_def list_ex_iff)
qed

lemma plain_no_blank:
  assumes "plain_ascii s"
  shows "list_all (\<lambda>b. 33 \<le> code b \<and> code b \<le> 126) s \<longleftrightarrow> CHR '' '' \<notin> set s"
proof -
  have "33 \<le> code b \<and> code b \<le> 126 \<longleftrightarrow> b \<noteq> CHR '' ''" if "b \<in> set s" for b
  proof -
    have "32 \<le> code b" "code b \<le> 126" using assms that by (auto simp: plain_ascii_def list_ex_iff not_less)
    moreover have "code b = 32 \<longleftrightarrow> b = CHR '' ''" by (rule code_space)
    ultimately show ?thesis by (metis Suc_leI eval_nat_numeral(3) le_neq_implies_less not_less_eq_eq numeral_eq_Suc pred_numeral_simps(3))
  qed
  then show ?thesis by (auto simp: list_all_iff)
qed

text \<open>
  C35: What becomes of a login on its way from the network node to the guard. Of the logins that
  \<open>Guard::new\<close> accepts (UTF-8, not empty, no control character), and but for plain ASCII text that
  itself starts as an encoded word, every one comes back unchanged, however many words
  \<open>encodeHeader\<close> splits it into: the guard's \<open>decode_login\<close> inverts it. The exceptions are exactly the
  plain ASCII logins with a blank or with \<open>=?\<close> in them, which the node passes on as they are and the
  guard refuses.
\<close>

theorem login_roundtrip:
  assumes "utf8_ok s" and "s \<noteq> []" and "\<not> list_ex is_control (chars s)"
    and "plain_ascii s \<Longrightarrow> \<not> starts_with s ''=?''"
  shows "decode_login X (encode_header s) =
    (if plain_ascii s \<and> (CHR '' '' \<in> set s \<or> find_str ''=?'' s \<noteq> None) then None else Some s)"
proof (cases "plain_ascii s")
  case True
  then have "encode_header s = s" by (simp add: plain_ascii_def encode_header_def)
  moreover have "list_all (\<lambda>b. 33 \<le> code b \<and> code b \<le> 126) s \<longleftrightarrow> CHR '' '' \<notin> set s"
    using True by (rule plain_no_blank)
  ultimately show ?thesis using assms(2,4) True by (auto simp: decode_login_def)
next
  case False
  have "list_ex (\<lambda>b. (code b < 32 \<or> 126 < code b) \<and> code b \<noteq> 9) s"
    using False no_control_bytes [OF assms(1,3)] by (fastforce simp: plain_ascii_def list_ex_iff)
  then have enc: "encode_header s = q_encode OPEN_WORD 0 s @ CLOSE_WORD"
    using False by (simp add: encode_header_def plain_ascii_def mime_q_encode_def)
  from q_encode_words [of "[]" s "[]"] assms(1,2)
  obtain cs where cs: "cs \<noteq> []" "list_all chunk_ok cs" "concat cs = s" "encode_header s = join_words cs"
    by (auto simp: enc utf8_ok_def q_string_def MAX_CONTENT_LEN_def)
  have "\<exists>y. join_words cs = q_word (hd cs) @ y" using cs(1) by (cases cs rule: join_words.cases) auto
  then have "starts_with (encode_header s) ''=?''"
    by (auto simp: cs(4) q_word_def OPEN_WORD_def starts_with_def)
  then show ?thesis using False assms(2,3) cs decode_words_join [of cs X "[]"] by (simp add: decode_login_def)
qed

definition demo_identity :: string where
  "demo_identity = [CHR 0xE4, CHR 0xBD, CHR 0xA0] @ '' user@example.com''"

definition blank_identity :: string where
  "blank_identity = ''user name@example.com''"

text \<open>A login of two scripts comes back; a plain one with a blank, which \<open>Guard::new\<close> accepts, does not.\<close>

theorem login_roundtrip_witness:
  "decode_login demo_ext (encode_header demo_identity) = Some demo_identity
   \<and> decode_login demo_ext (encode_header blank_identity) = None"
proof -
  have d: "utf8_ok demo_identity" "demo_identity \<noteq> []" "\<not> list_ex is_control (chars demo_identity)" "\<not> plain_ascii demo_identity"
    by (simp_all add: utf8_ok_def demo_identity_def cont_byte_def chars_def is_control_def plain_ascii_def)
  have b: "utf8_ok blank_identity" "blank_identity \<noteq> []" "\<not> list_ex is_control (chars blank_identity)"
      "plain_ascii blank_identity" "\<not> starts_with blank_identity ''=?''" "CHR '' '' \<in> set blank_identity"
    by (simp_all add: utf8_ok_def blank_identity_def chars_def is_control_def plain_ascii_def starts_with_def)
  show ?thesis
    using login_roundtrip [OF d(1-3), of demo_ext] login_roundtrip [OF b(1-3), of demo_ext] d(4) b(4-6) by simp
qed

end
