(* ===== verification/Guard_Props.thy ===== *)
theory Guard_Props
  imports Guard_Login
begin

text \<open>
  What the guard lets through, at which rate, and what refused requests cost: properties of runs of
  \<open>Guard::check\<close> over any sequence of requests.
\<close>

section \<open>Runs\<close>

record request =
  rq_method :: string
  rq_uri :: uri
  rq_headers :: headers
  rq_now :: nat

definition check_request :: "ext \<Rightarrow> (real \<Rightarrow> real) \<Rightarrow> request \<Rightarrow> guard \<Rightarrow> (status_code + unit) \<times> guard" where
  "check_request X fl r g = check X fl (rq_method r) (rq_uri r) (rq_headers r) (rq_now r) g"

fun guard_run :: "ext \<Rightarrow> (real \<Rightarrow> real) \<Rightarrow> guard \<Rightarrow> request list \<Rightarrow> (status_code + unit) list \<times> guard" where
  "guard_run X fl g [] = ([], g)"
| "guard_run X fl g (r # rs) =
     (case check_request X fl r g of (res, g1) \<Rightarrow>
        (case guard_run X fl g1 rs of (out, g2) \<Rightarrow> (res # out, g2)))"

definition same_config :: "guard \<Rightarrow> guard \<Rightarrow> bool" where
  "same_config g g' \<longleftrightarrow> gd_host g' = gd_host g \<and> gd_login g' = gd_login g
     \<and> gd_proxy_secret g' = gd_proxy_secret g \<and> gd_origin g' = gd_origin g"

lemma same_config_refl [simp]: "same_config g g"
  by (simp add: same_config_def)

lemma same_config_trans [trans]: "same_config g g' \<Longrightarrow> same_config g' g'' \<Longrightarrow> same_config g g''"
  by (simp add: same_config_def)

lemma check_config: "check_request X fl r g = (res, g') \<Longrightarrow> same_config g g'"
  by (auto simp: check_request_def check_def same_config_def split: option.splits if_splits prod.splits)

lemma refuses_config:
  "same_config g g' \<Longrightarrow> guard_refuses X g' meth u hs = guard_refuses X g meth u hs"
  unfolding same_config_def guard_refuses_def by (elim conjE) (simp only:)

lemma guard_run_accepted:
  assumes "(r, Inr ()) \<in> set (zip rs (fst (guard_run X fl g rs)))"
  shows "guard_refuses X g (rq_method r) (rq_uri r) (rq_headers r) = None"
  using assms
proof (induction rs arbitrary: g)
  case (Cons a rs)
  obtain res g1 where a: "check_request X fl a g = (res, g1)" by fastforce
  note conf = check_config [OF a]
  from Cons.prems a consider "r = a" "res = Inr ()" | "(r, Inr ()) \<in> set (zip rs (fst (guard_run X fl g1 rs)))"
    by (auto split: prod.splits)
  then show ?case
  proof cases
    case 1
    with a show ?thesis by (auto simp: check_request_def check_def split: option.splits)
  next
    case 2
    from Cons.IH [OF this] show ?thesis by (simp add: refuses_config [OF conf])
  qed
qed simp

section \<open>What passes\<close>

lemma one_Some: "one hs name = Some v \<Longrightarrow> get_all hs name = [v]"
  by (auto simp: one_def header_to_str_def split: list.splits option.splits if_splits)

lemma not_contains_key: "\<not> contains_key hs name \<longleftrightarrow> get_all hs name = []"
  by (simp add: contains_key_def)

lemma refuses_None:
  assumes "guard_refuses X g meth u hs = None"
  shows "length hs \<le> HEADER_COUNT"
    and "\<exists>h. get_all hs ''host'' = [h] \<and> eq_ignore_ascii_case h (gd_host g)"
    and "uri_authority u = None \<and> uri_scheme u = None"
    and "\<exists>s. get_all hs ''yzc-proxy-secret'' = [s] \<and> hash X (str_bytes s) = gd_proxy_secret g"
    and "\<exists>l. get_all hs ''yzc-peer-login'' = [l] \<and> decode_login X l = Some (gd_login g)"
    and "needs_origin meth u hs \<Longrightarrow> get_all hs ''origin'' = [gd_origin g]"
    and "starts_with (uri_path u) ''/api/'' \<Longrightarrow> get_all hs ''origin'' = [gd_origin g]
           \<or> (get_all hs ''origin'' = [] \<and> get_all hs ''sec-fetch-site'' = [''same-origin''])"
  using assms
  by (auto simp: guard_refuses_def headers_too_large_def matches_def needs_origin_def not_contains_key
      Option.bind_eq_Some_conv dest!: one_Some split: if_splits option.splits)

text \<open>
  C6: What the guard lets through. In any run from \<open>Guard::new\<close>, an accepted request has one
  \<open>Host\<close> header naming the configured host and a target without authority, one proxy secret with
  the digest of the configured secret, and one peer login that decodes to the configured login;
  any request that writes or upgrades has exactly the gateway's origin; and a read of the API has
  that origin, or no origin at all and the browser's own statement that it is same-origin.
\<close>

theorem guard_accepts_only:
  assumes "guard_new X A config n1 n2 = Inr g"
    and "(r, Inr ()) \<in> set (zip rs (fst (guard_run X fl g rs)))"
  shows "(\<exists>h. get_all (rq_headers r) ''host'' = [h] \<and> eq_ignore_ascii_case h (lb_public_host config))
     \<and> uri_authority (rq_uri r) = None
     \<and> (\<exists>s. get_all (rq_headers r) ''yzc-proxy-secret'' = [s]
            \<and> x_sha256 X (str_bytes s) = x_sha256 X (str_bytes (lb_proxy_secret config)))
     \<and> (\<exists>l. get_all (rq_headers r) ''yzc-peer-login'' = [l]
            \<and> decode_login X l = Some (lb_required_tailscale_login config))
     \<and> (rq_method r = ''GET'' \<and> get_all (rq_headers r) ''upgrade'' = [] \<and> uri_path (rq_uri r) \<noteq> ''/ws''
          \<or> get_all (rq_headers r) ''origin'' = [''https://'' @ lb_public_host config])
     \<and> (\<not> starts_with (uri_path (rq_uri r)) ''/api/''
          \<or> get_all (rq_headers r) ''origin'' = [''https://'' @ lb_public_host config]
          \<or> get_all (rq_headers r) ''origin'' = []
            \<and> get_all (rq_headers r) ''sec-fetch-site'' = [''same-origin''])"
proof -
  have g: "gd_host g = lb_public_host config" "gd_login g = lb_required_tailscale_login config"
    "gd_proxy_secret g = hash X (str_bytes (lb_proxy_secret config))"
    "gd_origin g = ''https://'' @ lb_public_host config"
    using assms(1) by (auto simp: guard_new_def split: option.splits if_splits)
  note ok = refuses_None [OF guard_run_accepted [OF assms(2)], unfolded g hash_def needs_origin_def contains_key_def]
  show ?thesis using ok(2-7) by blast
qed

definition demo_loopback :: loopback where
  "demo_loopback = \<lparr>lb_port = 0, lb_public_host = ''d.ts.net'', lb_required_tailscale_login = ''u@e.com'',
     lb_proxy_secret = replicate 43 (CHR ''A'')\<rparr>"

definition demo_authority :: "string \<Rightarrow> authority option" where
  "demo_authority s = Some \<lparr>at_str = s, at_host = ''d.ts.net'', at_port = None\<rparr>"

definition demo_guard :: guard where
  "demo_guard = \<lparr>gd_host = ''d.ts.net'', gd_login = ''u@e.com'',
     gd_proxy_secret = demo_digest (str_bytes (replicate 43 (CHR ''A''))),
     gd_origin = ''https://d.ts.net'', gd_static_bucket = \<lparr>bk_tokens = 60, bk_updated = 0\<rparr>,
     gd_api_bucket = \<lparr>bk_tokens = 60, bk_updated = 0\<rparr>\<rparr>"

definition demo_guard_headers :: headers where
  "demo_guard_headers = [(''host'', ''d.ts.net''), (''yzc-proxy-secret'', replicate 43 (CHR ''A'')),
     (''yzc-peer-login'', ''u@e.com''), (''sec-fetch-site'', ''same-origin'')]"

definition demo_guard_request :: request where
  "demo_guard_request = \<lparr>rq_method = ''GET'', rq_uri = \<lparr>uri_authority = None, uri_scheme = None, uri_path = ''/api/peers''\<rparr>,
     rq_headers = demo_guard_headers, rq_now = 5\<rparr>"

lemma demo_guard_host: "\<not> host_invalid \<lparr>at_str = ''d.ts.net'', at_host = ''d.ts.net'', at_port = None\<rparr> ''d.ts.net''"
  by code_simp

lemma demo_guard_new: "guard_new demo_ext demo_authority demo_loopback 0 0 = Inr demo_guard"
  using demo_guard_host
  by (simp add: guard_new_def demo_authority_def demo_loopback_def demo_guard_def chars_def is_control_def
      proxy_secret_valid_def demo_ext_def demo_decode_def hash_def RATE_BURST_def)

lemma demo_accepted: "guard_refuses demo_ext demo_guard ''GET'' (rq_uri demo_guard_request) demo_guard_headers = None"
  by (simp add: guard_refuses_def demo_guard_def demo_guard_request_def demo_guard_headers_def headers_too_large_def
      HEADER_COUNT_def HEADER_LIMIT_def one_def get_all_def header_to_str_def eq_ignore_ascii_case_def
      to_ascii_lowercase_def is_ascii_uppercase_def matches_def hash_def demo_ext_def decode_login_def
      starts_with_def needs_origin_def contains_key_def list_all_iff)

lemma demo_guard_run: "fst (guard_run demo_ext (\<lambda>x. x) demo_guard [demo_guard_request]) = [Inr ()]"
  using demo_accepted
  by (simp add: check_request_def check_def demo_guard_request_def take_token_def refill_def as_secs_f64_def
      RATE_BURST_def RATE_PER_SECOND_def demo_guard_def api_class_def starts_with_def)

theorem guard_accepts_only_witness:
  "guard_new demo_ext demo_authority demo_loopback 0 0 = Inr demo_guard
   \<and> decode_login demo_ext ''u@e.com'' = Some (lb_required_tailscale_login demo_loopback)"
proof -
  have "(demo_guard_request, Inr ()) \<in> set (zip [demo_guard_request] (fst (guard_run demo_ext (\<lambda>x. x) demo_guard [demo_guard_request])))"
    unfolding demo_guard_run by simp
  from guard_accepts_only [OF demo_guard_new this] show ?thesis
    using demo_guard_new by (simp add: demo_guard_request_def demo_guard_headers_def get_all_def)
qed

section \<open>Refused requests cost nothing\<close>

text \<open>The request carries the node's secret: the other checks are about the person behind it.\<close>

definition authentic :: "ext \<Rightarrow> guard \<Rightarrow> request \<Rightarrow> bool" where
  "authentic X g r \<longleftrightarrow>
     (case one (rq_headers r) ''yzc-proxy-secret'' of
        None \<Rightarrow> False
      | Some s \<Rightarrow> matches X (gd_proxy_secret g) (str_bytes s))"

lemma authentic_config: "same_config g g' \<Longrightarrow> authentic X g' r = authentic X g r"
  unfolding same_config_def authentic_def by (elim conjE) (simp only:)

lemma authentic_run: "same_config g g' \<Longrightarrow> authentic X g' = authentic X g"
  using authentic_config by (intro ext) blast

lemma unauthentic_refused:
  "\<not> authentic X g r \<Longrightarrow> \<exists>e. e \<noteq> TOO_MANY_REQUESTS \<and> check_request X fl r g = (Inl e, g)"
  by (auto simp: authentic_def check_request_def check_def guard_refuses_def split: option.splits)

text \<open>
  Requests without the node's secret cannot affect the others. Mixed into a run in any number
  and order they are all refused, and the answers to the other requests, and the guard itself, are
  as if they had never arrived: they use up no token of the rate limit.
\<close>

theorem guard_noninterference:
  "map snd (filter (\<lambda>p. authentic X g (fst p)) (zip rs (fst (guard_run X fl g rs))))
     = fst (guard_run X fl g (filter (authentic X g) rs))
   \<and> snd (guard_run X fl g rs) = snd (guard_run X fl g (filter (authentic X g) rs))
   \<and> list_all (\<lambda>p. authentic X g (fst p) \<or> snd p \<in> range Inl) (zip rs (fst (guard_run X fl g rs)))"
proof (induction rs arbitrary: g)
  case (Cons r rs)
  obtain res g1 where r: "check_request X fl r g = (res, g1)" by fastforce
  have conf: "authentic X g1 = authentic X g" by (rule authentic_run [OF check_config [OF r]])
  show ?case
  proof (cases "authentic X g r")
    case True
    then show ?thesis using Cons.IH [of g1, unfolded conf] r by (auto split: prod.splits)
  next
    case False
    then obtain e where "res = Inl e" and "g1 = g" using unauthentic_refused [OF False, of fl] r by auto
    with False show ?thesis using Cons.IH [of g] r by (auto split: prod.splits)
  qed
qed simp

section \<open>The rate\<close>

text \<open>
  What is used of IEEE 754 double arithmetic: rounding a non-negative number gives a non-negative
  number, and away from overflow the error is at most half a unit in the last place of 53 bits, or
  less than the spacing of the subnormal numbers, which is far below \<open>2\<^sup>-\<^sup>1\<^sup>0\<^sup>0\<close>.
\<close>

definition f64_rounding :: "(real \<Rightarrow> real) \<Rightarrow> bool" where
  "f64_rounding fl \<longleftrightarrow>
     (\<forall>x \<ge> 0. 0 \<le> fl x) \<and> (\<forall>x. 0 \<le> x \<and> x \<le> 2 ^ 100 \<longrightarrow> \<bar>fl x - x\<bar> \<le> x / 2 ^ 53 + 1 / 2 ^ 100)"

lemma fl_pos: "f64_rounding fl \<Longrightarrow> 0 \<le> x \<Longrightarrow> 0 \<le> fl x"
  by (simp add: f64_rounding_def)

lemma fl_le:
  assumes "f64_rounding fl" and "0 \<le> x" and "x \<le> 10 ^ 12"
  shows "fl x \<le> x + x / 2 ^ 53 + 1 / 2 ^ 100"
proof -
  have "x \<le> 2 ^ 100" using assms(3) by (rule order_trans) simp
  with assms(1,2) have "\<bar>fl x - x\<bar> \<le> x / 2 ^ 53 + 1 / 2 ^ 100" by (simp add: f64_rounding_def)
  then show ?thesis by linarith
qed

definition secs :: "duration \<Rightarrow> real" where
  "secs d = real d / 10 ^ 9"

lemma secs_split: "secs d = real (d div 1000000000) + real (d mod 1000000000) / 10 ^ 9"
proof -
  have "real d = real (d div 1000000000 * 1000000000 + d mod 1000000000)" by simp
  also have "\<dots> = real (d div 1000000000) * 10 ^ 9 + real (d mod 1000000000)" by (simp only: of_nat_add of_nat_mult) simp
  finally show ?thesis by (simp add: secs_def add_divide_distrib)
qed

lemma as_secs_bounds:
  assumes "f64_rounding fl"
  shows "0 \<le> as_secs_f64 fl d" and "secs d \<le> 6 \<Longrightarrow> as_secs_f64 fl d \<le> secs d + 1 / 2 ^ 47"
proof -
  define a where "a = real (d div 1000000000)"
  define b where "b = real (d mod 1000000000)"
  have b: "0 \<le> b" "b \<le> 10 ^ 9" by (simp_all add: b_def less_imp_le)
  have a: "0 \<le> a" by (simp add: a_def)
  have fa: "0 \<le> fl a" and fb: "0 \<le> fl b" and fc: "0 \<le> fl (fl b / 10 ^ 9)"
    using fl_pos [OF assms] a b by (auto simp: divide_nonneg_pos)
  then show "0 \<le> as_secs_f64 fl d"
    using fl_pos [OF assms] by (simp add: as_secs_f64_def flip: a_def b_def)
  assume "secs d \<le> 6"
  then have s: "a + b / 10 ^ 9 \<le> 6" by (simp add: secs_split a_def b_def)
  have "a \<le> 6" using s b by simp
  with a have 1: "fl a \<le> a + 6 / 2 ^ 53 + 1 / 2 ^ 100" using fl_le [OF assms, of a] by simp
  have 2: "fl b \<le> b + 10 ^ 9 / 2 ^ 53 + 1 / 2 ^ 100" using fl_le [OF assms, of b] b by simp
  have 3: "fl (fl b / 10 ^ 9) \<le> b / 10 ^ 9 + 4 / 2 ^ 53"
    using fl_le [OF assms, of "fl b / 10 ^ 9"] fb b 2 by (simp add: field_simps)
  have 4: "fl a + fl (fl b / 10 ^ 9) \<le> a + b / 10 ^ 9 + 11 / 2 ^ 53" using 1 3 by (simp add: field_simps)
  have "fl (fl a + fl (fl b / 10 ^ 9)) \<le> a + b / 10 ^ 9 + 1 / 2 ^ 47"
    using fl_le [OF assms, of "fl a + fl (fl b / 10 ^ 9)"] fa fc 4 s by (simp add: field_simps)
  then show "as_secs_f64 fl d \<le> secs d + 1 / 2 ^ 47"
    by (simp add: as_secs_f64_def secs_split flip: a_def b_def)
qed

definition full_enough :: "bucket \<Rightarrow> bool" where
  "full_enough b \<longleftrightarrow> 0 \<le> bk_tokens b \<and> bk_tokens b \<le> 60"

lemma refill_bounds:
  assumes "f64_rounding fl" and "full_enough b"
  shows "full_enough (refill fl t b)"
    and "bk_tokens (refill fl t b) \<le> bk_tokens b + 10 * secs (t - bk_updated b) + 1 / 2 ^ 42"
proof -
  define e where "e = as_secs_f64 fl (t - bk_updated b)"
  define f where "f = fl (e * 10)"
  note e = as_secs_bounds [OF assms(1), of "t - bk_updated b", folded e_def]
  have b: "0 \<le> bk_tokens b" "bk_tokens b \<le> 60" using assms(2) by (simp_all add: full_enough_def)
  have f: "0 \<le> f" using fl_pos [OF assms(1)] e(1) by (simp add: f_def)
  have r: "bk_tokens (refill fl t b) = min (fl (bk_tokens b + f)) 60"
    by (simp add: refill_def e_def f_def RATE_PER_SECOND_def RATE_BURST_def)
  show "full_enough (refill fl t b)"
    using fl_pos [OF assms(1), of "bk_tokens b + f"] b f by (simp add: r full_enough_def)
  show "bk_tokens (refill fl t b) \<le> bk_tokens b + 10 * secs (t - bk_updated b) + 1 / 2 ^ 42"
  proof (cases "secs (t - bk_updated b) \<le> 6")
    case True
    have "f \<le> 10 * secs (t - bk_updated b) + 11 / 2 ^ 47"
      using fl_le [OF assms(1), of "e * 10"] e(1) e(2) [OF True] True by (simp add: f_def field_simps)
    then have "fl (bk_tokens b + f) \<le> bk_tokens b + 10 * secs (t - bk_updated b) + 1 / 2 ^ 42"
      using fl_le [OF assms(1), of "bk_tokens b + f"] b f True by (simp add: field_simps)
    then show ?thesis by (simp add: r min.coboundedI1)
  next
    case False
    then show ?thesis using b by (simp add: r min.coboundedI2)
  qed
qed

lemma take_token_bounds:
  assumes "f64_rounding fl" and "full_enough b" and "take_token fl t b = (res, b')"
  shows "full_enough b'" and "bk_updated b' = t"
    and "of_bool (res = Inr ()) + bk_tokens b' \<le> bk_tokens (refill fl t b) + 1 / 2 ^ 42"
proof -
  define x where "x = bk_tokens (refill fl t b)"
  have x: "0 \<le> x" "x \<le> 60" using refill_bounds(1) [OF assms(1,2)] by (simp_all add: full_enough_def x_def)
  have "full_enough b' \<and> bk_updated b' = t \<and> of_bool (res = Inr ()) + bk_tokens b' \<le> x + 1 / 2 ^ 42"
  proof (cases "x < 1")
    case True
    then show ?thesis using assms(3) x
      by (auto simp: take_token_def Let_def x_def full_enough_def refill_def)
  next
    case False
    then have b': "res = Inr ()" "bk_tokens b' = fl (x - 1)" "bk_updated b' = t"
      using assms(3) by (auto simp: take_token_def Let_def x_def refill_def)
    have "0 \<le> fl (x - 1)" using fl_pos [OF assms(1)] False by simp
    moreover have "fl (x - 1) \<le> x - 1 + 1 / 2 ^ 42"
      using fl_le [OF assms(1), of "x - 1"] False x by (simp add: field_simps)
    ultimately show ?thesis using x by (simp add: b' full_enough_def field_simps)
  qed
  then show "full_enough b'" and "bk_updated b' = t"
    and "of_bool (res = Inr ()) + bk_tokens b' \<le> bk_tokens (refill fl t b) + 1 / 2 ^ 42"
    by (simp_all add: x_def)
qed

definition bucket_of :: "bool \<Rightarrow> guard \<Rightarrow> bucket" where
  "bucket_of api g = (if api then gd_api_bucket g else gd_static_bucket g)"

text \<open>The number of requests of one class that a run lets through.\<close>

definition passed :: "bool \<Rightarrow> request list \<Rightarrow> (status_code + unit) list \<Rightarrow> nat" where
  "passed api rs out = length (filter (\<lambda>(r, res). api_class (rq_uri r) = api \<and> res = Inr ()) (zip rs out))"

lemma check_bucket:
  assumes "check_request X fl r g = (res, g')"
  obtains "api_class (rq_uri r) = api" and "take_token fl (rq_now r) (bucket_of api g) = (res, bucket_of api g')"
  | "bucket_of api g' = bucket_of api g" and "\<not> (api_class (rq_uri r) = api \<and> res = Inr ())"
  using assms
  by (cases api) (auto simp: check_request_def check_def bucket_of_def split: option.splits if_splits prod.splits)

lemma passed_Cons:
  "passed api (r # rs) (res # out) = of_bool (api_class (rq_uri r) = api \<and> res = Inr ()) + passed api rs out"
  by (simp add: passed_def)

lemma passed_step:
  "check_request X fl r g = (res, g1) \<Longrightarrow>
     real (passed api (r # rs) (fst (guard_run X fl g (r # rs))))
       = of_bool (api_class (rq_uri r) = api \<and> res = Inr ()) + real (passed api rs (fst (guard_run X fl g1 rs)))"
  by (simp add: passed_Cons split: prod.splits)

lemma secs_add: "a \<le> b \<Longrightarrow> b \<le> c \<Longrightarrow> secs (b - a) + secs (c - b) = secs (c - a)"
  by (simp add: secs_def of_nat_diff field_simps)

lemma secs_mono: "a \<le> b \<Longrightarrow> secs a \<le> secs b"
  by (simp add: secs_def divide_right_mono)

lemma run_bound:
  assumes "f64_rounding fl" and "full_enough (bucket_of api g)" and "sorted (map rq_now rs)"
    and "\<And>r. r \<in> set rs \<Longrightarrow> bk_updated (bucket_of api g) \<le> rq_now r \<and> rq_now r \<le> T"
    and "bk_updated (bucket_of api g) \<le> T"
  shows "real (passed api rs (fst (guard_run X fl g rs)))
     \<le> bk_tokens (bucket_of api g) + 10 * secs (T - bk_updated (bucket_of api g)) + real (length rs) / 2 ^ 41"
  using assms
proof (induction rs arbitrary: g)
  case Nil
  then show ?case by (simp add: passed_def full_enough_def secs_def)
next
  case (Cons r rs)
  obtain res g1 where r: "check_request X fl r g = (res, g1)" by fastforce
  note run = passed_step [OF r, of api rs]
  show ?case
  proof (cases rule: check_bucket [OF r, of api])
    case 1
    note t = take_token_bounds [OF Cons.prems(1,2) 1(2)] refill_bounds(2) [OF Cons.prems(1,2), of "rq_now r"]
    have ih: "real (passed api rs (fst (guard_run X fl g1 rs)))
       \<le> bk_tokens (bucket_of api g1) + 10 * secs (T - rq_now r) + real (length rs) / 2 ^ 41"
      using Cons.IH [of g1] Cons.prems t(1,2) by simp
    have "secs (rq_now r - bk_updated (bucket_of api g)) + secs (T - rq_now r)
       = secs (T - bk_updated (bucket_of api g))" using Cons.prems(4) [of r] secs_add by simp
    with ih t(3,4) 1(1) show ?thesis unfolding run by (simp add: field_simps)
  next
    case 2
    have "real (passed api rs (fst (guard_run X fl g1 rs)))
       \<le> bk_tokens (bucket_of api g1) + 10 * secs (T - bk_updated (bucket_of api g)) + real (length rs) / 2 ^ 41"
      using Cons.IH [of g1] Cons.prems 2(1) by simp
    with 2 show ?thesis unfolding run by (auto simp: field_simps)
  qed
qed

lemma window_bound:
  assumes "f64_rounding fl" and "full_enough (bucket_of api g)" and "sorted (map rq_now rs)"
    and "\<And>r. r \<in> set rs \<Longrightarrow> t0 \<le> rq_now r \<and> rq_now r \<le> T"
  shows "real (passed api rs (fst (guard_run X fl g rs))) \<le> 60 + 10 * secs (T - t0) + real (length rs) / 2 ^ 41"
  using assms
proof (induction rs arbitrary: g)
  case Nil
  then show ?case by (simp add: passed_def secs_def)
next
  case (Cons r rs)
  obtain res g1 where r: "check_request X fl r g = (res, g1)" by fastforce
  note run = passed_step [OF r, of api rs]
  show ?case
  proof (cases rule: check_bucket [OF r, of api])
    case 1
    note t = take_token_bounds [OF Cons.prems(1,2) 1(2)] refill_bounds(1) [OF Cons.prems(1,2), of "rq_now r"]
    have "real (passed api rs (fst (guard_run X fl g1 rs)))
       \<le> bk_tokens (bucket_of api g1) + 10 * secs (T - rq_now r) + real (length rs) / 2 ^ 41"
      using run_bound [OF Cons.prems(1) t(1), of rs T X] Cons.prems t(2) by simp
    moreover have "secs (T - rq_now r) \<le> secs (T - t0)"
      using Cons.prems(4) [of r] by (intro secs_mono) auto
    ultimately show ?thesis unfolding run using t(3,4) 1(1) by (simp add: full_enough_def field_simps)
  next
    case 2
    have "real (passed api rs (fst (guard_run X fl g1 rs))) \<le> 60 + 10 * secs (T - t0) + real (length rs) / 2 ^ 41"
      using Cons.IH [of g1] Cons.prems 2(1) by simp
    with 2 show ?thesis unfolding run by (auto simp: field_simps)
  qed
qed

lemma run_full_enough:
  "f64_rounding fl \<Longrightarrow> full_enough (bucket_of api g) \<Longrightarrow> full_enough (bucket_of api (snd (guard_run X fl g rs)))"
proof (induction rs arbitrary: g)
  case (Cons r rs)
  obtain res g1 where r: "check_request X fl r g = (res, g1)" by fastforce
  have "full_enough (bucket_of api g1)"
    by (cases rule: check_bucket [OF r, of api]) (use Cons.prems take_token_bounds(1) in auto)
  then show ?case using Cons.IH [of g1] Cons.prems(1) r by (auto split: prod.splits)
qed simp

text \<open>
  C20: The rate limit. After any history, and with the clock readings of a window in order, the
  requests of one class (API or static) that pass between \<open>t0\<close> and \<open>T\<close> number at most the burst
  of 60 plus ten per second; rounding in the \<open>f64\<close> token count adds less than one request in
  \<open>2\<^sup>4\<^sup>1\<close>.
\<close>

theorem guard_rate_bound:
  assumes "f64_rounding fl" and "guard_new X A config n1 n2 = Inr g0"
    and "sorted (map rq_now rs)" and "list_all (\<lambda>r. t0 \<le> rq_now r \<and> rq_now r \<le> T) rs"
  shows "real (passed api rs (fst (guard_run X fl (snd (guard_run X fl g0 history)) rs)))
     \<le> 60 + 10 * (real (T - t0) / 10 ^ 9) + real (length rs) / 2 ^ 41"
proof -
  have "full_enough (bucket_of api g0)"
    using assms(2) by (auto simp: guard_new_def full_enough_def bucket_of_def RATE_BURST_def split: option.splits if_splits)
  from window_bound [OF assms(1) run_full_enough [OF assms(1) this, of X history] assms(3), of t0 T X] assms(4)
  show ?thesis by (simp add: list_all_iff secs_def)
qed

lemma exact_rounding: "f64_rounding (\<lambda>x. x)"
  by (simp add: f64_rounding_def)

theorem guard_rate_bound_witness:
  "passed True [demo_guard_request] (fst (guard_run demo_ext (\<lambda>x. x) demo_guard [demo_guard_request])) = 1
   \<and> real (passed True [demo_guard_request] (fst (guard_run demo_ext (\<lambda>x. x) demo_guard [demo_guard_request]))) \<le> 61"
  using guard_rate_bound [OF exact_rounding demo_guard_new, of "[demo_guard_request]" 5 5 True "[]"] demo_guard_run
  by (simp add: passed_def demo_guard_request_def api_class_def starts_with_def del: guard_run.simps(2))

text \<open>
  The readings have to be in order. \<open>check\<close> reads the clock before it locks the bucket and stores
  the reading in it: a request that waits for the lock moves \<open>updated\<close> back, and the time since
  its own reading is credited a second time.
\<close>

lemma late_reading_credits_twice:
  assumes "b = \<lparr>bk_tokens = 0, bk_updated = 0\<rparr>"
  shows "bk_tokens (refill (\<lambda>x. x) 2000000000 b) = 20"
    and "bk_tokens (refill (\<lambda>x. x) 2000000000 (refill (\<lambda>x. x) 1000000000 (refill (\<lambda>x. x) 2000000000 b))) = 30"
  using assms by (simp_all add: refill_def as_secs_f64_def RATE_PER_SECOND_def RATE_BURST_def)

end
