(* ===== verification/Audit_Trail.thy ===== *)
theory Audit_Trail
  imports Event_Queue
begin

text \<open>
  \<open>companion/src/audit.rs\<close>: the audit trail of writes. Writes are audited before they happen and
  fail when the queue is full; the release of a terminal never waits for the queue: its events are
  kept in \<open>Deferred\<close>, at most 64 bundles, and what does not fit is counted and reported.

  The shared cells an \<open>Audit\<close> points to (event queue, deferred events, live streams, the process-wide
  key counter) are the fields of one state. The live streams are a \<open>BTreeMap\<close>: a list of pairs in
  ascending key order.
\<close>

section \<open>State\<close>

record dropped =
  dr_lost :: u64
  dr_lost_tightening :: u64
  dr_rejected_omitted :: u64
  dr_since :: timestamp

record deferred =
  df_pending :: "(u64, string \<times> event list) hmap"
  df_dropped :: "dropped option"

record live_stream =
  ls_device :: string
  ls_peer_id :: u64
  ls_session :: string
  ls_target :: "string option"
  ls_scope :: scope

record rejections =
  rj_count :: u64
  rj_next :: "timestamp option"

record audit_state =
  as_events :: event_sender
  as_deferred :: deferred
  as_live :: "(u64 \<times> live_stream) list"
  as_next :: u64

record audit =
  ad_device :: string
  ad_peer_id :: u64
  ad_session :: string
  ad_target :: "string option"
  ad_scope :: scope
  ad_key :: u64

definition deferred_default :: deferred where
  "deferred_default = \<lparr>df_pending = [], df_dropped = None\<rparr>"

definition MAX_PENDING :: nat where "MAX_PENDING = 64"

section \<open>Deferred events\<close>

definition pending_for :: "deferred \<Rightarrow> string \<Rightarrow> bool" where
  "pending_for d device \<longleftrightarrow> list_ex (\<lambda>(k, dev, evs). dev = device) (df_pending d)"

definition counts :: "timestamp \<Rightarrow> deferred \<Rightarrow> dropped" where
  "counts t d =
     (case df_dropped d of
        Some r \<Rightarrow> r
      | None \<Rightarrow> \<lparr>dr_lost = 0, dr_lost_tightening = 0, dr_rejected_omitted = 0, dr_since = t\<rparr>)"

definition lost :: "u64 \<Rightarrow> timestamp \<Rightarrow> deferred \<Rightarrow> deferred" where
  "lost n t d =
     (let r = counts t d in d\<lparr>df_dropped := Some (r\<lparr>dr_lost := saturating_add (dr_lost r) n\<rparr>)\<rparr>)"

definition lost_tightening :: "u64 \<Rightarrow> timestamp \<Rightarrow> deferred \<Rightarrow> deferred" where
  "lost_tightening n t d =
     (let d1 = lost n t d; r = counts t d1
      in d1\<lparr>df_dropped := Some (r\<lparr>dr_lost_tightening := saturating_add (dr_lost_tightening r) n\<rparr>)\<rparr>)"

definition rejected_omitted :: "timestamp \<Rightarrow> deferred \<Rightarrow> deferred" where
  "rejected_omitted t d =
     (let r = counts t d
      in d\<lparr>df_dropped := Some (r\<lparr>dr_rejected_omitted := saturating_add (dr_rejected_omitted r) 1\<rparr>)\<rparr>)"

definition deferred_retain :: "u64 \<Rightarrow> string \<Rightarrow> event list \<Rightarrow> timestamp \<Rightarrow> deferred \<Rightarrow> deferred" where
  "deferred_retain key device evs t d =
     (if length (df_pending d) < MAX_PENDING \<or> hm_get (df_pending d) key \<noteq> None then
        (let d1 = d\<lparr>df_pending := hm_insert key (device, evs) (df_pending d)\<rparr>
         in case hm_get (df_pending d) key of
              None \<Rightarrow> d1
            | Some (dev, old) \<Rightarrow> lost_tightening (of_nat (length old)) t d1)
      else lost_tightening (of_nat (length evs)) t d)"

text \<open>Emit events from the front until one is refused; the rest stays.\<close>

fun emit_front :: "event list \<Rightarrow> event_sender \<Rightarrow> event list \<times> event_sender" where
  "emit_front [] es = ([], es)"
| "emit_front (e # evs) es =
     (case try_emit es e of
        (False, es') \<Rightarrow> (e # evs, es')
      | (True, es') \<Rightarrow> emit_front evs es')"

fun flush_pending ::
  "(u64, string \<times> event list) hmap \<Rightarrow> event_sender \<Rightarrow> (u64, string \<times> event list) hmap \<times> event_sender" where
  "flush_pending [] es = ([], es)"
| "flush_pending ((k, dev, evs) # m) es =
     (case emit_front evs es of (left, es1) \<Rightarrow>
        (case flush_pending m es1 of (m', es2) \<Rightarrow>
           (if left = [] then m' else (k, dev, left) # m', es2)))"

definition deferred_flush :: "deferred \<Rightarrow> event_sender \<Rightarrow> deferred \<times> event_sender" where
  "deferred_flush d es =
     (case flush_pending (df_pending d) es of (m, es1) \<Rightarrow>
        (case df_dropped d of
           None \<Rightarrow> (d\<lparr>df_pending := m\<rparr>, es1)
         | Some r \<Rightarrow>
             (case try_emit es1
                (AuditDropped (dr_lost r) (dr_lost_tightening r) (dr_rejected_omitted r) (dr_since r)) of
                (True, es2) \<Rightarrow> (d\<lparr>df_pending := m, df_dropped := None\<rparr>, es2)
              | (False, es2) \<Rightarrow> (d\<lparr>df_pending := m\<rparr>, es2))))"

text \<open>\<open>Gateway::maintenance\<close> flushes both under the deferred lock.\<close>

definition audit_flush :: "audit_state \<Rightarrow> audit_state" where
  "audit_flush s =
     (case deferred_flush (as_deferred s) (as_events s) of (d, es) \<Rightarrow> s\<lparr>as_deferred := d, as_events := es\<rparr>)"

section \<open>Emitting with loss accounting\<close>

definition set_events :: "event_sender \<Rightarrow> audit_state \<Rightarrow> audit_state" where
  "set_events es s = s\<lparr>as_events := es\<rparr>"

definition count_lost :: "timestamp \<Rightarrow> audit_state \<Rightarrow> audit_state" where
  "count_lost t s = s\<lparr>as_deferred := lost 1 t (as_deferred s)\<rparr>"

definition emit_or_lose :: "event \<Rightarrow> timestamp \<Rightarrow> audit_state \<Rightarrow> audit_state" where
  "emit_or_lose e t s =
     (case try_emit (as_events s) e of
        (True, es) \<Rightarrow> set_events es s
      | (False, es) \<Rightarrow> count_lost t (set_events es s))"

definition git_read ::
  "string \<Rightarrow> u64 \<Rightarrow> string \<Rightarrow> string \<Rightarrow> string \<Rightarrow> timestamp \<Rightarrow> audit_state \<Rightarrow> audit_state" where
  "git_read device peer_id session workspace_id meth t s =
     emit_or_lose (event_audit device peer_id View ''git.read'' session (Some workspace_id)
       (JObj [(''method'', JStr meth)]) t) t s"

definition event_lost :: "timestamp \<Rightarrow> audit_state \<Rightarrow> audit_state" where
  "event_lost t s = count_lost t s"

section \<open>The audit of one stream\<close>

definition live_list :: "audit_state \<Rightarrow> stream_info list" where
  "live_list s = map (\<lambda>(key, st). \<lparr>st_stream = nat_str (unat key), st_device_id = ls_device st,
     st_peer_id = ls_peer_id st, st_session = ls_session st, st_scope = ls_scope st,
     st_target = ls_target st\<rparr>) (as_live s)"

fun btree_insert :: "'k::linorder \<Rightarrow> 'v \<Rightarrow> ('k \<times> 'v) list \<Rightarrow> ('k \<times> 'v) list" where
  "btree_insert k v [] = [(k, v)]"
| "btree_insert k v ((j, u) # m) =
     (if k < j then (k, v) # (j, u) # m else if k = j then (k, v) # m else (j, u) # btree_insert k v m)"

text \<open>\<open>None\<close> is the panic when the stream keys are used up.\<close>

definition audit_new ::
  "string \<Rightarrow> u64 \<Rightarrow> scope \<Rightarrow> string \<Rightarrow> string option \<Rightarrow> audit_state \<Rightarrow> (audit \<times> audit_state) option" where
  "audit_new device peer_id scope session target s =
     (case checked_add (as_next s) 1 of
        None \<Rightarrow> None
      | Some n \<Rightarrow> Some (\<lparr>ad_device = device, ad_peer_id = peer_id, ad_session = session,
          ad_target = target, ad_scope = scope, ad_key = as_next s\<rparr>, s\<lparr>as_next := n\<rparr>))"

definition audit_event_of :: "audit \<Rightarrow> string \<Rightarrow> json \<Rightarrow> timestamp \<Rightarrow> event" where
  "audit_event_of a action summary t =
     event_audit (ad_device a) (ad_peer_id a) (ad_scope a) action (ad_session a) (ad_target a) summary t"

definition admit :: "audit \<Rightarrow> string \<Rightarrow> json \<Rightarrow> timestamp \<Rightarrow> audit_state \<Rightarrow> (string + unit) \<times> audit_state" where
  "admit a action summary t s =
     (case try_emit (as_events s) (audit_event_of a action summary t) of
        (ok, es) \<Rightarrow> (if ok then Inr () else Inl ''audit-unavailable'', set_events es s))"

definition stream_state :: "audit \<Rightarrow> bool \<Rightarrow> bool \<Rightarrow> event" where
  "stream_state a open takeover =
     (let seq = (if open then 1 else 2)
      in if ad_scope a = Full
         then FullState (ad_device a) (ad_peer_id a) (nat_str (unat (ad_key a))) seq (ad_session a) open
         else ControlState (ad_device a) (ad_peer_id a) (nat_str (unat (ad_key a))) seq (ad_session a)
                (case ad_target a of None \<Rightarrow> [] | Some t \<Rightarrow> t) takeover open)"

definition announce :: "audit \<Rightarrow> bool \<Rightarrow> audit_state \<Rightarrow> audit_state" where
  "announce a takeover s =
     s\<lparr>as_live := btree_insert (ad_key a) \<lparr>ls_device = ad_device a, ls_peer_id = ad_peer_id a,
         ls_session = ad_session a, ls_target = ad_target a, ls_scope = ad_scope a\<rparr> (as_live s),
       as_events := reservation_emit Announcement (as_events s) (stream_state a True takeover)\<rparr>"

definition reserve_announcement :: "audit \<Rightarrow> audit_state \<Rightarrow> (string + unit) \<times> audit_state" where
  "reserve_announcement a s =
     (if pending_for (as_deferred s) (ad_device a) then (Inl ''audit-unavailable'', s)
      else (case reserve Announcement (as_events s) of
              (ok, es) \<Rightarrow> (if ok then Inr () else Inl ''audit-unavailable'', set_events es s)))"

definition stalled :: "audit \<Rightarrow> string \<Rightarrow> timestamp \<Rightarrow> timestamp \<Rightarrow> audit_state \<Rightarrow> audit_state" where
  "stalled a phase t1 t2 s =
     emit_or_lose (audit_event_of a ''herdr-io-stalled''
       (JObj [(''phase'', JStr phase), (''reason'', JStr ''stream-stalled'')]) t1) t2 s"

definition rejected ::
  "audit \<Rightarrow> timestamp \<Rightarrow> timestamp \<Rightarrow> rejections \<Rightarrow> audit_state \<Rightarrow> rejections \<times> audit_state" where
  "rejected a t1 t2 rj s =
     (let s1 = s\<lparr>as_deferred := rejected_omitted t1 (as_deferred s)\<rparr>;
          rj1 = rj\<lparr>rj_count := saturating_add (rj_count rj) 1\<rparr>
      in if (case rj_next rj of None \<Rightarrow> True | Some n \<Rightarrow> n \<le> t1) then
           (let rj2 = rj1\<lparr>rj_next := Some (after t1 (from_secs 10))\<rparr>
            in case try_emit (as_events s1) (audit_event_of a ''write.rejected''
                   (JObj [(''count'', JNum (int (unat (rj_count rj2))))]) t2) of
                 (True, es) \<Rightarrow> (rj2\<lparr>rj_count := 0\<rparr>, set_events es s1)
               | (False, es) \<Rightarrow> (rj2, set_events es s1))
         else (rj1, s1))"

definition cancelled :: "audit \<Rightarrow> bool \<Rightarrow> string \<Rightarrow> timestamp \<Rightarrow> timestamp \<Rightarrow> audit_state \<Rightarrow> audit_state" where
  "cancelled a inp outcome t1 t2 s =
     emit_or_lose (audit_event_of a (if inp then ''input.cancelled'' else ''write.cancelled'')
       (JObj [(''outcome'', JStr outcome)]) t1) t2 s"

definition open_failed :: "audit \<Rightarrow> string \<Rightarrow> timestamp \<Rightarrow> timestamp \<Rightarrow> audit_state \<Rightarrow> audit_state" where
  "open_failed a reason t1 t2 s =
     emit_or_lose (audit_event_of a ''open.failed'' (JObj [(''reason'', JStr reason)]) t1) t2 s"

definition tightened_action :: "audit \<Rightarrow> string \<Rightarrow> string" where
  "tightened_action a reason =
     (if reason = ''elevation-expired'' then ''expiry''
      else if reason = ''session-invalid'' then ''revoke''
      else if ad_scope a = Full then ''full.close''
      else ''terminal.release'')"

definition tightened_events :: "audit \<Rightarrow> string \<Rightarrow> bool \<Rightarrow> timestamp \<Rightarrow> event list" where
  "tightened_events a reason announced t =
     audit_event_of a (tightened_action a reason) (JObj [(''reason'', JStr reason)]) t
       # (if announced then [stream_state a False False] else [])"

definition tightened ::
  "audit \<Rightarrow> string \<Rightarrow> bool \<Rightarrow> timestamp \<Rightarrow> timestamp \<Rightarrow> audit_state \<Rightarrow> audit_state" where
  "tightened a reason announced t1 t2 s =
     (let live = (if announced then hm_remove (ad_key a) (as_live s) else as_live s)
      in case emit_front (tightened_events a reason announced t1) (as_events s) of
           (left, es) \<Rightarrow>
             s\<lparr>as_live := live, as_events := es,
               as_deferred := (if left = [] then as_deferred s
                 else deferred_retain (ad_key a) (ad_device a) left t2 (as_deferred s))\<rparr>)"

end
