(* ===== verification/Audit_Props.thy ===== *)
theory Audit_Props
  imports Audit_Trail
begin

text \<open>
  The audit trail loses no release of a terminal silently: every tightening event a stream produces
  is accepted by the queue, still deferred, or counted in a loss report.
\<close>

section \<open>Accounting\<close>

text \<open>Tightening events: an audit of a release or revocation, and the announcement of a close.\<close>

definition tight :: "event \<Rightarrow> bool" where
  "tight e =
     (case e of
        Audit a \<Rightarrow> au_action a \<in> {''terminal.release'', ''full.close'', ''expiry'', ''revoke''}
      | ControlState _ _ _ _ _ _ _ open \<Rightarrow> \<not> open
      | FullState _ _ _ _ _ open \<Rightarrow> \<not> open
      | _ \<Rightarrow> False)"

text \<open>What an accepted event accounts for: itself, or the tightening losses it reports.\<close>

definition weight :: "event \<Rightarrow> nat" where
  "weight e = (if tight e then 1 else case e of AuditDropped _ n _ _ \<Rightarrow> unat n | _ \<Rightarrow> 0)"

definition accounted :: "event list \<Rightarrow> nat" where
  "accounted evs = sum_list (map weight evs)"

definition waiting :: "(u64, string \<times> event list) hmap \<Rightarrow> nat" where
  "waiting m = sum_list (map (\<lambda>p. length (snd (snd p))) m)"

definition uncounted :: "deferred \<Rightarrow> nat" where
  "uncounted d = (case df_dropped d of None \<Rightarrow> 0 | Some r \<Rightarrow> unat (dr_lost_tightening r))"

definition audit_total :: "audit_state \<Rightarrow> nat" where
  "audit_total s = accounted (es_log (as_events s)) + waiting (df_pending (as_deferred s)) + uncounted (as_deferred s)"

definition all_tight :: "(u64, string \<times> event list) hmap \<Rightarrow> bool" where
  "all_tight m \<longleftrightarrow> (\<forall>p \<in> set m. list_all tight (snd (snd p)))"

definition audit_inv :: "nat \<Rightarrow> audit_state \<Rightarrow> bool" where
  "audit_inv n s \<longleftrightarrow> audit_total s = n \<and> all_tight (df_pending (as_deferred s))
     \<and> hm_wf (df_pending (as_deferred s)) \<and> length (df_pending (as_deferred s)) \<le> MAX_PENDING"

text \<open>
  Runs: every operation of the audit trail, and between them any step of the event channel by
  another component or by the writer that adds no event of the audit trail. The number counts the
  tightening events the streams have produced.
\<close>

inductive audit_step :: "nat \<Rightarrow> audit_state \<Rightarrow> nat \<Rightarrow> audit_state \<Rightarrow> bool" where
  as_tightened: "audit_step n s (n + length (tightened_events a reason announced t1))
                   (tightened a reason announced t1 t2 s)"
| as_flush: "audit_step n s n (audit_flush s)"
| as_git_read: "audit_step n s n (git_read device peer_id session workspace_id meth t s)"
| as_event_lost: "audit_step n s n (event_lost t s)"
| as_stalled: "audit_step n s n (stalled a phase t1 t2 s)"
| as_rejected: "rejected a t1 t2 rj s = (rj', s') \<Longrightarrow> audit_step n s n s'"
| as_cancelled: "audit_step n s n (cancelled a inp outcome t1 t2 s)"
| as_open_failed: "audit_step n s n (open_failed a reason t1 t2 s)"
| as_admit: "\<not> tight (audit_event_of a action summary t) \<Longrightarrow> admit a action summary t s = (r, s') \<Longrightarrow>
               audit_step n s n s'"
| as_new: "audit_new device peer_id scope session target s = Some (a, s') \<Longrightarrow> audit_step n s n s'"
| as_reserve: "reserve_announcement a s = (r, s') \<Longrightarrow> audit_step n s n s'"
| as_announce: "audit_step n s n (announce a takeover s)"
| as_channel: "es_step (as_events s) es \<Longrightarrow> \<not> es_closed es \<Longrightarrow>
                 list_all (\<lambda>e. weight e = 0) (drop (length (es_log (as_events s))) (es_log es)) \<Longrightarrow>
                 audit_step n s n (set_events es s)"

inductive audit_reach :: "nat \<Rightarrow> audit_state \<Rightarrow> bool" where
  ar_start: "audit_reach 0 \<lparr>as_events = spawn_writer, as_deferred = deferred_default, as_live = [], as_next = 1\<rparr>"
| ar_step: "audit_reach n s \<Longrightarrow> audit_step n s n' s' \<Longrightarrow> audit_reach n' s'"

section \<open>Emitting\<close>

lemma accounted_append [simp]: "accounted (a @ b) = accounted a + accounted b"
  by (simp add: accounted_def)

lemma accounted_Nil [simp]: "accounted [] = 0"
  by (simp add: accounted_def)

lemma accounted_single [simp]: "accounted [e] = weight e"
  by (simp add: accounted_def)

lemma accounted_tight: "list_all tight evs \<Longrightarrow> accounted evs = length evs"
  by (induction evs) (auto simp: accounted_def weight_def)

lemma accounted_zero: "list_all (\<lambda>e. weight e = 0) evs \<Longrightarrow> accounted evs = 0"
  by (induction evs) (auto simp: accounted_def)

lemma try_emit_accounted:
  "try_emit es e = (ok, es') \<Longrightarrow> accounted (es_log es') = accounted (es_log es) + (if ok then weight e else 0)"
  using es.emit_log [of es e ok es'] by auto

lemma emit_front_split:
  "emit_front evs es = (left, es') \<Longrightarrow> \<exists>sent. evs = sent @ left \<and> es_log es' = es_log es @ sent"
proof (induction evs arbitrary: es)
  case (Cons e evs)
  obtain ok es1 where e: "try_emit es e = (ok, es1)" by fastforce
  show ?case
  proof (cases ok)
    case True
    with Cons e obtain sent where "evs = sent @ left" "es_log es' = es_log es1 @ sent" by auto
    with es.emit_log [OF e] True show ?thesis by (intro exI [of _ "e # sent"]) simp
  next
    case False
    with Cons e es.emit_log [OF e] show ?thesis by auto
  qed
qed simp

lemma emit_front_accounted:
  assumes "emit_front evs es = (left, es')" and "list_all tight evs"
  shows "accounted (es_log es') + length left = accounted (es_log es) + length evs" and "list_all tight left"
proof -
  obtain sent where s: "evs = sent @ left" "es_log es' = es_log es @ sent"
    using emit_front_split [OF assms(1)] by auto
  with assms(2) show "list_all tight left" by simp
  from s assms(2) show "accounted (es_log es') + length left = accounted (es_log es) + length evs"
    by (simp add: accounted_tight)
qed

lemma flush_pending_ConsE:
  assumes "flush_pending ((k, dev, evs) # m) es = (m', es')"
  obtains left es1 m2 where "emit_front evs es = (left, es1)" and "flush_pending m es1 = (m2, es')"
    and "m' = (if left = [] then m2 else (k, dev, left) # m2)"
  using assms by (auto split: prod.splits)

lemma flush_pending_keys: "flush_pending m es = (m', es') \<Longrightarrow> fst ` set m' \<subseteq> fst ` set m \<and> length m' \<le> length m"
proof (induction m arbitrary: es m')
  case (Cons p m)
  obtain k dev evs where p: "p = (k, dev, evs)" by (cases p)
  from Cons.prems [unfolded p] show ?case
  proof (rule flush_pending_ConsE)
    fix left es1 m2
    assume "flush_pending m es1 = (m2, es')" and "m' = (if left = [] then m2 else (k, dev, left) # m2)"
    with Cons.IH [of es1 m2] show ?thesis by (auto simp: p)
  qed
qed simp

lemma flush_pending_wf: "flush_pending m es = (m', es') \<Longrightarrow> hm_wf m \<Longrightarrow> hm_wf m'"
proof (induction m arbitrary: es m')
  case (Cons p m)
  obtain k dev evs where p: "p = (k, dev, evs)" by (cases p)
  from Cons.prems(1) [unfolded p] show ?case
  proof (rule flush_pending_ConsE)
    fix left es1 m2
    assume f: "flush_pending m es1 = (m2, es')" and "m' = (if left = [] then m2 else (k, dev, left) # m2)"
    with Cons.IH [OF f] Cons.prems(2) flush_pending_keys [OF f] show ?thesis by (auto simp: p)
  qed
qed simp

lemma flush_pending_accounted:
  "flush_pending m es = (m', es') \<Longrightarrow> all_tight m \<Longrightarrow>
     accounted (es_log es') + waiting m' = accounted (es_log es) + waiting m \<and> all_tight m'"
proof (induction m arbitrary: es m')
  case (Cons p m)
  obtain k dev evs where p: "p = (k, dev, evs)" by (cases p)
  from Cons.prems(1) [unfolded p] show ?case
  proof (rule flush_pending_ConsE)
    fix left es1 m2
    assume e: "emit_front evs es = (left, es1)" and f: "flush_pending m es1 = (m2, es')"
      and m': "m' = (if left = [] then m2 else (k, dev, left) # m2)"
    have t: "list_all tight evs" "all_tight m" using Cons.prems(2) by (auto simp: all_tight_def p)
    from Cons.IH [OF f t(2)] emit_front_accounted [OF e t(1)]
    show ?thesis by (auto simp: m' p waiting_def all_tight_def)
  qed
qed simp

section \<open>Losses\<close>

lemma lost_frame [simp]: "df_pending (lost n t d) = df_pending d" "uncounted (lost n t d) = uncounted d"
  by (auto simp: lost_def counts_def uncounted_def Let_def split: option.splits)

lemma rejected_omitted_frame [simp]:
  "df_pending (rejected_omitted t d) = df_pending d" "uncounted (rejected_omitted t d) = uncounted d"
  by (auto simp: rejected_omitted_def counts_def uncounted_def Let_def split: option.splits)

lemma lost_tightening_frame [simp]: "df_pending (lost_tightening n t d) = df_pending d"
  by (simp add: lost_tightening_def Let_def)

lemma lost_tightening_counts:
  assumes "uncounted d + k < 2 ^ 64"
  shows "uncounted (lost_tightening (of_nat k) t d) = uncounted d + k"
proof -
  have k: "unat (of_nat k :: u64) = k" using assms by (simp add: unat_of_nat take_bit_eq_mod)
  have u: "uncounted (lost_tightening n t d) = unat (saturating_add (dr_lost_tightening (counts t (lost n t d))) n)" for n
    by (simp add: lost_tightening_def uncounted_def Let_def)
  have c: "unat (dr_lost_tightening (counts t (lost n t d))) = uncounted d" for n
    by (auto simp: lost_def counts_def uncounted_def Let_def split: option.splits)
  show ?thesis using assms by (simp add: u unat_saturating_add c k)
qed

lemma waiting_insert_new: "hm_get m k = None \<Longrightarrow> waiting (hm_insert k v m) = waiting m + length (snd v)"
  by (induction m) (auto simp: waiting_def)

lemma waiting_insert_old:
  "hm_get m k = Some u \<Longrightarrow> waiting (hm_insert k v m) + length (snd u) = waiting m + length (snd v)"
  by (induction m) (auto simp: waiting_def split: if_splits)

lemma waiting_get: "hm_get m k = Some u \<Longrightarrow> length (snd u) \<le> waiting m"
  by (induction m) (auto simp: waiting_def split: if_splits)

lemma all_tight_insert:
  "all_tight m \<Longrightarrow> list_all tight (snd v) \<Longrightarrow> all_tight (hm_insert k v m)"
  using set_hm_insert [of k v m] by (auto simp: all_tight_def)

lemma retain_accounted:
  assumes "waiting (df_pending d) + uncounted d + length evs < 2 ^ 64" and "list_all tight evs"
    and "all_tight (df_pending d)" and "hm_wf (df_pending d)" and "length (df_pending d) \<le> MAX_PENDING"
    and d': "d' = deferred_retain key device evs t d"
  shows "waiting (df_pending d') + uncounted d' = waiting (df_pending d) + uncounted d + length evs"
    and "all_tight (df_pending d') \<and> hm_wf (df_pending d') \<and> length (df_pending d') \<le> MAX_PENDING"
proof -
  let ?d1 = "d\<lparr>df_pending := hm_insert key (device, evs) (df_pending d)\<rparr>"
  have u1: "uncounted ?d1 = uncounted d" by (simp add: uncounted_def)
  have "(waiting (df_pending d') + uncounted d' = waiting (df_pending d) + uncounted d + length evs)
    \<and> all_tight (df_pending d') \<and> hm_wf (df_pending d') \<and> length (df_pending d') \<le> MAX_PENDING"
  proof (cases "hm_get (df_pending d) key")
    case (Some u)
    then have "d' = lost_tightening (of_nat (length (snd u))) t ?d1"
      by (cases u) (simp add: d' deferred_retain_def Let_def)
    with Some assms(1-5) u1 waiting_insert_old [OF Some, of "(device, evs)"] waiting_get [OF Some]
      lost_tightening_counts [of ?d1 "length (snd u)" t] show ?thesis
      by (simp add: all_tight_insert length_hm_insert)
  next
    case None
    show ?thesis
    proof (cases "length (df_pending d) < MAX_PENDING")
      case True
      with None have "d' = ?d1" by (simp add: d' deferred_retain_def Let_def)
      with None True assms(1-5) u1 show ?thesis
        by (simp add: all_tight_insert length_hm_insert waiting_insert_new)
    next
      case False
      with None have "d' = lost_tightening (of_nat (length evs)) t d" by (simp add: d' deferred_retain_def)
      with assms(1-5) lost_tightening_counts [of d "length evs" t] show ?thesis by simp
    qed
  qed
  then show "waiting (df_pending d') + uncounted d' = waiting (df_pending d) + uncounted d + length evs"
    and "all_tight (df_pending d') \<and> hm_wf (df_pending d') \<and> length (df_pending d') \<le> MAX_PENDING"
    by auto
qed

section \<open>Every operation keeps the account\<close>

lemma audit_inv_total:
  "audit_inv n s \<Longrightarrow> as_deferred s' = as_deferred s \<Longrightarrow>
     accounted (es_log (as_events s')) = accounted (es_log (as_events s)) \<Longrightarrow> audit_inv n s'"
  by (simp add: audit_inv_def audit_total_def)

lemma audit_inv_deferred:
  assumes "audit_inv n s" and "df_pending (as_deferred s') = df_pending (as_deferred s)"
    and "uncounted (as_deferred s') = uncounted (as_deferred s)"
    and "accounted (es_log (as_events s')) = accounted (es_log (as_events s))"
  shows "audit_inv n s'"
  using assms by (simp add: audit_inv_def audit_total_def)

lemma event_audit_weight:
  "action \<notin> {''terminal.release'', ''full.close'', ''expiry'', ''revoke''} \<Longrightarrow>
     weight (event_audit device peer_id scope action session target summary t) = 0"
  by (simp add: event_audit_def weight_def tight_def)

lemma try_emit_zero: "try_emit es e = (ok, es') \<Longrightarrow> weight e = 0 \<Longrightarrow> accounted (es_log es') = accounted (es_log es)"
  by (auto dest: try_emit_accounted)

lemma set_events_inv:
  "audit_inv n s \<Longrightarrow> accounted (es_log es) = accounted (es_log (as_events s)) \<Longrightarrow> audit_inv n (set_events es s)"
  by (rule audit_inv_total) (simp_all add: set_events_def)

lemma count_lost_inv: "audit_inv n s \<Longrightarrow> audit_inv n (count_lost t s)"
  by (rule audit_inv_deferred) (simp_all add: count_lost_def)

lemma emit_or_lose_inv:
  assumes "audit_inv n s" and "weight e = 0"
  shows "audit_inv n (emit_or_lose e t s)"
proof -
  obtain ok es where e: "try_emit (as_events s) e = (ok, es)" by fastforce
  note s = set_events_inv [OF assms(1) try_emit_zero [OF e assms(2)]]
  show ?thesis using s count_lost_inv [OF s] by (cases ok) (simp_all add: emit_or_lose_def e)
qed

lemma audit_event_weight:
  "action \<notin> {''terminal.release'', ''full.close'', ''expiry'', ''revoke''} \<Longrightarrow>
     weight (audit_event_of a action summary t) = 0"
  by (simp add: audit_event_of_def event_audit_weight)

lemma tightened_events_tight: "list_all tight (tightened_events a reason announced t)"
  by (simp add: tightened_events_def audit_event_of_def event_audit_def tight_def tightened_action_def
      stream_state_def Let_def)

lemma tightened_inv:
  assumes "audit_inv n s" and "n + length (tightened_events a reason announced t1) < 2 ^ 64"
  shows "audit_inv (n + length (tightened_events a reason announced t1)) (tightened a reason announced t1 t2 s)"
proof -
  obtain left es where e: "emit_front (tightened_events a reason announced t1) (as_events s) = (left, es)"
    by fastforce
  note acc = emit_front_accounted [OF e tightened_events_tight]
  let ?d = "as_deferred s" and ?d' = "as_deferred (tightened a reason announced t1 t2 s)"
  have d': "?d' = (if left = [] then ?d else deferred_retain (ad_key a) (ad_device a) left t2 ?d)"
    and es: "as_events (tightened a reason announced t1 t2 s) = es"
    by (simp_all add: tightened_def Let_def e)
  have inv: "all_tight (df_pending ?d)" "hm_wf (df_pending ?d)" "length (df_pending ?d) \<le> MAX_PENDING"
    and tot: "accounted (es_log (as_events s)) + waiting (df_pending ?d) + uncounted ?d = n"
    using assms(1) by (simp_all add: audit_inv_def audit_total_def)
  show ?thesis
  proof (cases "left = []")
    case True
    with acc inv tot show ?thesis by (simp add: audit_inv_def audit_total_def d' es)
  next
    case False
    then have d2: "?d' = deferred_retain (ad_key a) (ad_device a) left t2 ?d" using d' by simp
    have "waiting (df_pending ?d) + uncounted ?d + length left < 2 ^ 64" using acc(1) tot assms(2) by linarith
    from retain_accounted [OF this acc(2) inv d2] acc(1) tot show ?thesis
      by (simp add: audit_inv_def audit_total_def es)
  qed
qed

lemma flush_inv:
  assumes "audit_inv n s"
  shows "audit_inv n (audit_flush s)"
proof -
  obtain m es where f: "flush_pending (df_pending (as_deferred s)) (as_events s) = (m, es)" by fastforce
  have inv: "all_tight (df_pending (as_deferred s))" "hm_wf (df_pending (as_deferred s))"
      "length (df_pending (as_deferred s)) \<le> MAX_PENDING"
    and tot: "accounted (es_log (as_events s)) + waiting (df_pending (as_deferred s)) + uncounted (as_deferred s) = n"
    using assms by (simp_all add: audit_inv_def audit_total_def)
  note acc = flush_pending_accounted [OF f inv(1)] flush_pending_wf [OF f inv(2)] flush_pending_keys [OF f]
  show ?thesis
  proof (cases "df_dropped (as_deferred s)")
    case None
    with acc inv tot show ?thesis
      by (simp add: audit_flush_def deferred_flush_def f audit_inv_def audit_total_def uncounted_def)
  next
    case (Some r)
    obtain ok es2 where e: "try_emit es (AuditDropped (dr_lost r) (dr_lost_tightening r)
        (dr_rejected_omitted r) (dr_since r)) = (ok, es2)" by fastforce
    have w: "weight (AuditDropped (dr_lost r) (dr_lost_tightening r) (dr_rejected_omitted r) (dr_since r))
        = unat (dr_lost_tightening r)" by (simp add: weight_def tight_def)
    from Some acc inv tot try_emit_accounted [OF e] show ?thesis
      by (cases ok) (simp_all add: audit_flush_def deferred_flush_def f e audit_inv_def audit_total_def
          uncounted_def w)
  qed
qed

lemma rejected_inv:
  assumes "audit_inv n s" and "rejected a t1 t2 rj s = (rj', s')"
  shows "audit_inv n s'"
proof -
  let ?s = "s\<lparr>as_deferred := rejected_omitted t1 (as_deferred s)\<rparr>"
  have s: "audit_inv n ?s" by (rule audit_inv_deferred [OF assms(1)]) simp_all
  have w: "weight (audit_event_of a ''write.rejected'' summary t2) = 0" for summary
    by (simp add: audit_event_weight)
  have "s' = ?s \<or> (\<exists>ok es summary. try_emit (as_events ?s) (audit_event_of a ''write.rejected'' summary t2) = (ok, es)
      \<and> s' = set_events es ?s)"
    using assms(2) by (auto simp: rejected_def Let_def split: if_splits prod.splits bool.splits)
  then show ?thesis using s set_events_inv [OF s] try_emit_zero [OF _ w] by blast
qed

lemma reserve_inv:
  assumes "audit_inv n s" and "reserve_announcement a s = (r, s')"
  shows "audit_inv n s'"
proof -
  obtain ok es where e: "reserve Announcement (as_events s) = (ok, es)" by fastforce
  have "es_log es = es_log (as_events s)"
    using e by (auto simp: reserve_def set_pool_def es_log_def split: if_splits)
  with set_events_inv [OF assms(1), of es] assms show ?thesis
    by (auto simp: reserve_announcement_def e split: if_splits)
qed

lemma announce_weight: "weight (stream_state a True takeover) = 0"
  by (simp add: stream_state_def weight_def tight_def Let_def)

lemma es_log_reservation_emit: "es_log (reservation_emit p es e) = es_log es @ [e]"
  by (cases p) (simp_all add: reservation_emit_def set_pool_def es_log_def es_push_def)

lemma announce_inv: "audit_inv n s \<Longrightarrow> audit_inv n (announce a takeover s)"
  by (rule audit_inv_total) (simp_all add: announce_def es_log_reservation_emit announce_weight)

lemma audit_new_inv:
  "audit_inv n s \<Longrightarrow> audit_new device peer_id scope session target s = Some (a, s') \<Longrightarrow> audit_inv n s'"
  by (erule audit_inv_total) (auto simp: audit_new_def split: option.splits)

lemma admit_inv:
  assumes "audit_inv n s" and "\<not> tight (audit_event_of a action summary t)" and "admit a action summary t s = (r, s')"
  shows "audit_inv n s'"
proof -
  obtain ok es where e: "try_emit (as_events s) (audit_event_of a action summary t) = (ok, es)" by fastforce
  have "weight (audit_event_of a action summary t) = 0"
    using assms(2) by (simp add: weight_def audit_event_of_def event_audit_def)
  from set_events_inv [OF assms(1) try_emit_zero [OF e this]] assms(3) show ?thesis by (simp add: admit_def e)
qed

lemma channel_inv:
  assumes "audit_inv n s" and "es_step (as_events s) es" and "\<not> es_closed es"
    and "list_all (\<lambda>e. weight e = 0) (drop (length (es_log (as_events s))) (es_log es))"
  shows "audit_inv n (set_events es s)"
proof -
  from es_step_log [OF assms(2,3)] obtain evs where evs: "es_log es = es_log (as_events s) @ evs"
    by (auto simp: prefix_def)
  with assms(4) have "accounted evs = 0" by (simp add: accounted_zero)
  with evs show ?thesis by (intro set_events_inv [OF assms(1)]) simp
qed

lemma audit_step_inv: "audit_step n s n' s' \<Longrightarrow> audit_inv n s \<Longrightarrow> n' < 2 ^ 64 \<Longrightarrow> audit_inv n' s'"
proof (induction rule: audit_step.induct)
  case as_tightened
  then show ?case by (rule tightened_inv)
next
  case as_flush
  then show ?case by (blast intro: flush_inv)
next
  case as_event_lost
  then show ?case unfolding event_lost_def by (blast intro: count_lost_inv)
next
  case as_rejected
  then show ?case by (blast intro: rejected_inv)
next
  case as_admit
  then show ?case by (blast intro: admit_inv)
next
  case as_new
  then show ?case by (blast intro: audit_new_inv)
next
  case as_reserve
  then show ?case by (blast intro: reserve_inv)
next
  case as_announce
  then show ?case by (blast intro: announce_inv)
next
  case as_channel
  then show ?case by (blast intro: channel_inv)
qed (simp_all only: git_read_def stalled_def cancelled_def open_failed_def,
    (rule emit_or_lose_inv, assumption, simp add: event_audit_weight audit_event_weight)+)

text \<open>
  C16: No release goes unreported. In every run the tightening events produced by the streams (the
  audit of a release, expiry or revocation and the announcement of the close) are all accounted for:
  accepted by the event queue, waiting in the deferred bundles, reported as lost in an accepted
  report, or counted for the next report. The bundles stay within their bound of 64.
\<close>

theorem tightening_accounted:
  assumes "audit_reach n s" and "n < 2 ^ 64"
  shows "accounted (es_log (as_events s)) + waiting (df_pending (as_deferred s)) + uncounted (as_deferred s) = n
     \<and> length (df_pending (as_deferred s)) \<le> 64"
proof -
  from assms have "audit_inv n s"
  proof (induction rule: audit_reach.induct)
    case ar_start
    show ?case by (simp add: audit_inv_def audit_total_def spawn_writer_def es_log_def deferred_default_def
        waiting_def uncounted_def all_tight_def MAX_PENDING_def)
  next
    case (ar_step n s n' s')
    have "n \<le> n'" using ar_step(2) by (cases rule: audit_step.cases) auto
    with ar_step show ?case using audit_step_inv by auto
  qed
  then show ?thesis by (simp add: audit_inv_def audit_total_def MAX_PENDING_def)
qed

definition demo_audit :: audit where
  "demo_audit = \<lparr>ad_device = ''d'', ad_peer_id = 1, ad_session = ''s'', ad_target = None, ad_scope = Full, ad_key = 1\<rparr>"

definition demo_audit_start :: audit_state where
  "demo_audit_start = \<lparr>as_events = spawn_writer, as_deferred = deferred_default, as_live = [], as_next = 1\<rparr>"

theorem tightening_accounted_witness:
  "accounted (es_log (as_events (tightened demo_audit ''session-invalid'' True 5 6 demo_audit_start)))
     + waiting (df_pending (as_deferred (tightened demo_audit ''session-invalid'' True 5 6 demo_audit_start)))
     + uncounted (as_deferred (tightened demo_audit ''session-invalid'' True 5 6 demo_audit_start)) = 2"
proof -
  have "audit_reach (0 + length (tightened_events demo_audit ''session-invalid'' True 5))
      (tightened demo_audit ''session-invalid'' True 5 6 demo_audit_start)"
    unfolding demo_audit_start_def by (rule ar_step [OF ar_start as_tightened])
  moreover have "length (tightened_events demo_audit ''session-invalid'' True 5) = 2"
    by (simp add: tightened_events_def)
  ultimately have "audit_reach 2 (tightened demo_audit ''session-invalid'' True 5 6 demo_audit_start)"
    by (simp only: add_0)
  from tightening_accounted [OF this] show ?thesis by simp
qed

end
