(* ===== verification/Push.thy ===== *)
theory Push
  imports Audit_Trail Session "HOL-Library.List_Lexorder" "HOL-Library.Char_ord"
begin

text \<open>
  \<open>companion/src/push.rs\<close>: web push triggers. The gateway keeps the devices that hold a subscription,
  follows the agent status of every pane of the watched sessions, and asks the desktop to deliver a
  push when an agent becomes blocked or done.

  A \<open>BTreeMap\<close> over strings is a list of pairs in ascending order, a \<open>BTreeSet\<close> a sorted list
  without duplicates. A waiting subscribe is an entry of \<open>pu_acks\<close>; the value its one-shot channel
  received is in \<open>pu_answers\<close>. The snapshots and signals of the Host are arguments: a watcher is
  the sequence of its rounds, and the notices a round raises are returned in order.
\<close>

section \<open>Strings by characters\<close>

definition char_width :: "char \<Rightarrow> nat" where
  "char_width b = (if code b < 128 then 1 else if code b < 224 then 2 else if code b < 240 then 3 else 4)"

text \<open>The characters of a string, each as its bytes.\<close>

function str_chars :: "string \<Rightarrow> string list" where
  "str_chars [] = []"
| "str_chars (b # s) = (b # take (char_width b - 1) s) # str_chars (drop (char_width b - 1) s)"
  by pat_completeness auto

termination by (relation "measure length") auto

definition white :: "string \<Rightarrow> bool" where
  "white w \<longleftrightarrow> list_all is_whitespace (chars w)"

definition str_trim :: "string \<Rightarrow> string" where
  "str_trim s = concat (trim_by white (str_chars s))"

text \<open>\<open>herdr::valid_id\<close>.\<close>

definition valid_id :: "string \<Rightarrow> bool" where
  "valid_id value \<longleftrightarrow> value \<noteq> [] \<and> length value \<le> 128 \<and> str_trim value = value
     \<and> \<not> starts_with value ''-'' \<and> \<not> list_ex is_control (chars value)"

definition btree_set :: "string list \<Rightarrow> string list" where
  "btree_set xs = sort (remdups xs)"

section \<open>State\<close>

record push =
  pu_vapid :: "string option"
  pu_sessions :: "string list"
  pu_devices :: "(string \<times> string list) list"
  pu_active :: bool
  pu_acks :: "(u64, unit) hmap"
  pu_answers :: "(u64, bool) hmap"
  pu_next_request :: u64

definition ENDPOINT_BYTES :: nat where "ENDPOINT_BYTES = 2048"
definition PUSH_MAX_DEVICES :: nat where "PUSH_MAX_DEVICES = 64"
definition MAX_ENDPOINTS :: nat where "MAX_ENDPOINTS = 4"
definition LABEL_CHARS :: nat where "LABEL_CHARS = 128"

definition PUSH_SERVICES :: "string list" where
  "PUSH_SERVICES = [''push.apple.com'', ''fcm.googleapis.com'', ''updates.push.services.mozilla.com'',
     ''notify.windows.com'']"

definition endpoint_id :: "ext \<Rightarrow> string \<Rightarrow> string" where
  "endpoint_id X endpoint = encode X (hash X (str_bytes endpoint))"

fun stored_from :: "ext \<Rightarrow> (string \<times> string list) list \<Rightarrow> push_device list \<Rightarrow> (string \<times> string list) list option" where
  "stored_from X devices [] = Some devices"
| "stored_from X devices (d # ds) =
     (if \<not> (1 \<le> length (pd_endpoints d) \<and> length (pd_endpoints d) \<le> MAX_ENDPOINTS)
         \<or> \<not> list_all (\<lambda>i. decode X 32 i \<noteq> None) (pd_endpoints d)
         \<or> map_of devices (pd_device_id d) \<noteq> None
      then None
      else stored_from X (btree_insert (pd_device_id d) (btree_set (pd_endpoints d)) devices) ds)"

definition stored :: "ext \<Rightarrow> push_device list \<Rightarrow> (string \<times> string list) list option" where
  "stored X ds = (if length ds > PUSH_MAX_DEVICES then None else stored_from X [] ds)"

definition point_ok :: "ext \<Rightarrow> string \<Rightarrow> bool" where
  "point_ok X value = (case decode X 65 value of None \<Rightarrow> False | Some point \<Rightarrow> point ! 0 = 4)"

definition push_sessions :: "string list \<Rightarrow> string list" where
  "push_sessions allowlist = btree_set (filter valid_id allowlist)"

definition push_start :: "string option \<Rightarrow> string list \<Rightarrow> (string \<times> string list) list \<Rightarrow> push" where
  "push_start vapid allowlist devices =
     \<lparr>pu_vapid = vapid, pu_sessions = push_sessions allowlist, pu_devices = devices,
      pu_active = (devices \<noteq> []), pu_acks = [], pu_answers = [], pu_next_request = 1\<rparr>"

definition push_new :: "ext \<Rightarrow> init \<Rightarrow> string + push" where
  "push_new X i =
     (case in_push i of
        None \<Rightarrow> Inr (push_start None (in_session_allowlist i) [])
      | Some p \<Rightarrow>
          (case stored X (pi_devices p) of
             None \<Rightarrow> Inl ''invalid-push''
           | Some st \<Rightarrow>
               if \<not> point_ok X (pi_vapid_public_key p) then Inl ''invalid-push''
               else Inr (push_start (Some (pi_vapid_public_key p)) (in_session_allowlist i)
                      (filter (\<lambda>e. fst e \<in> dv_device_id ` set (in_devices i)) st))))"

section \<open>The subscribed devices\<close>

definition push_available :: "push \<Rightarrow> bool" where
  "push_available p \<longleftrightarrow> pu_vapid p \<noteq> None"

definition push_hello :: "push \<Rightarrow> json" where
  "push_hello p = (case pu_vapid p of None \<Rightarrow> JNull | Some key \<Rightarrow> JObj [(''vapidPublicKey'', JStr key)])"

definition push_replace :: "ext \<Rightarrow> push_device list \<Rightarrow> (string \<Rightarrow> bool) \<Rightarrow> push \<Rightarrow> bool \<times> push" where
  "push_replace X ds known p =
     (case stored X ds of
        None \<Rightarrow> (False, p)
      | Some st \<Rightarrow>
          if pu_vapid p = None then (False, p)
          else (let devices = filter (\<lambda>e. known (fst e)) st
                in (True, p\<lparr>pu_devices := devices, pu_active := (devices \<noteq> [])\<rparr>)))"

definition push_remove :: "string \<Rightarrow> push \<Rightarrow> push" where
  "push_remove device p =
     (if map_of (pu_devices p) device \<noteq> None
      then (let devices = filter (\<lambda>e. fst e \<noteq> device) (pu_devices p)
            in p\<lparr>pu_devices := devices, pu_active := (devices \<noteq> [])\<rparr>)
      else p)"

definition push_ack :: "u64 \<Rightarrow> bool \<Rightarrow> push \<Rightarrow> push" where
  "push_ack request st p =
     (case hm_get (pu_acks p) request of
        None \<Rightarrow> p
      | Some _ \<Rightarrow> p\<lparr>pu_acks := hm_remove request (pu_acks p),
                     pu_answers := hm_insert request st (pu_answers p)\<rparr>)"

section \<open>Requests of a phone\<close>

text \<open>
  \<open>https\<close>, visible ASCII, no fragment or backslash, and a host that is a push service or below one.
\<close>

definition endpoint_host :: "string \<Rightarrow> string" where
  "endpoint_host rest = takeWhile (\<lambda>c. c \<noteq> CHR ''/'' \<and> c \<noteq> CHR ''?'') rest"

definition serves :: "string \<Rightarrow> string \<Rightarrow> bool" where
  "serves host service \<longleftrightarrow> host = service
     \<or> (case strip_suffix service host of None \<Rightarrow> False | Some pre \<Rightarrow> ends_with pre ''.'')"

definition endpoint_ok :: "string \<Rightarrow> bool" where
  "endpoint_ok endpoint =
     (case strip_prefix ''https://'' endpoint of
        None \<Rightarrow> False
      | Some rest \<Rightarrow>
          if length endpoint > ENDPOINT_BYTES
             \<or> \<not> list_all (\<lambda>b. 33 \<le> code b \<and> code b \<le> 126) endpoint
             \<or> CHR ''#'' \<in> set endpoint \<or> CHR 0x5C \<in> set endpoint
          then False
          else valid_rp_id (endpoint_host rest) \<and> list_ex (serves (endpoint_host rest)) PUSH_SERVICES)"

text \<open>
  The derived deserialiser with unknown fields denied, followed by the test that \<open>keys\<close> is an
  object: exactly the fields of the two structs, all strings.
\<close>

definition str_field :: "json \<Rightarrow> string \<Rightarrow> string option" where
  "str_field v k = Option.bind (json_get v k) json_as_str"

definition exact_fields :: "json \<Rightarrow> string set \<Rightarrow> bool" where
  "exact_fields v ks = (case v of JObj kvs \<Rightarrow> set (map fst kvs) = ks | _ \<Rightarrow> False)"

definition subscription_of :: "ext \<Rightarrow> json \<Rightarrow> string + subscription" where
  "subscription_of X params =
     (let keys = json_index params ''keys''
      in if \<not> exact_fields params {''endpoint'', ''keys''} \<or> \<not> exact_fields keys {''p256dh'', ''auth''}
         then Inl ''invalid-params''
         else case (str_field params ''endpoint'', str_field keys ''p256dh'', str_field keys ''auth'') of
           (Some endpoint, Some p256dh, Some auth) \<Rightarrow>
             if \<not> endpoint_ok endpoint \<or> \<not> point_ok X p256dh \<or> decode X 16 auth = None
             then Inl ''invalid-params''
             else Inr \<lparr>sb_endpoint = endpoint, sb_p256dh = p256dh, sb_auth = auth\<rparr>
         | _ \<Rightarrow> Inl ''invalid-params'')"

text \<open>\<open>Ok\<close> is the number of the request whose answer the phone waits for.\<close>

definition push_subscribe ::
  "ext \<Rightarrow> string \<Rightarrow> json \<Rightarrow> push \<Rightarrow> event_sender \<Rightarrow> (string + u64) \<times> push \<times> event_sender" where
  "push_subscribe X device params p es =
     (if pu_vapid p = None then (Inl ''push-unavailable'', p, es)
      else case subscription_of X params of
        Inl e \<Rightarrow> (Inl e, p, es)
      | Inr sub \<Rightarrow>
          (let request = pu_next_request p;
               p1 = p\<lparr>pu_next_request := request + 1, pu_acks := hm_insert request () (pu_acks p)\<rparr>
           in case try_emit es (PushSubscription device (Some sub) None (Some request)) of
                (True, es') \<Rightarrow> (Inr request, p1, es')
              | (False, es') \<Rightarrow> (Inl ''busy'', p1\<lparr>pu_acks := hm_remove request (pu_acks p1)\<rparr>, es')))"

text \<open>The reply, when the channel has a value or the five seconds are over.\<close>

definition push_reply :: "u64 \<Rightarrow> push \<Rightarrow> (string + json) \<times> push" where
  "push_reply request p =
     (let p1 = p\<lparr>pu_acks := hm_remove request (pu_acks p), pu_answers := hm_remove request (pu_answers p)\<rparr>
      in case hm_get (pu_answers p) request of
           Some True \<Rightarrow> (Inr (JObj [(''subscribed'', JBool True)]), p1)
         | Some False \<Rightarrow> (Inl ''push-store-failed'', p1)
         | None \<Rightarrow> (Inl ''push-unconfirmed'', p1))"

definition endpoint_param :: "json \<Rightarrow> string + string" where
  "endpoint_param v =
     (case json_as_str v of
        None \<Rightarrow> Inl ''invalid-params''
      | Some e \<Rightarrow> if length e \<le> ENDPOINT_BYTES then Inr e else Inl ''invalid-params'')"

definition status_endpoint :: "json \<Rightarrow> string + string option" where
  "status_endpoint params =
     (case params of
        JNull \<Rightarrow> Inr None
      | JObj kvs \<Rightarrow>
          if length kvs > of_bool (map_of kvs ''endpoint'' \<noteq> None) then Inl ''invalid-params''
          else (case map_of kvs ''endpoint'' of
                  None \<Rightarrow> Inr None
                | Some JNull \<Rightarrow> Inr None
                | Some v \<Rightarrow> map_sum id Some (endpoint_param v))
      | _ \<Rightarrow> Inl ''invalid-params'')"

definition unsubscribe_endpoint :: "json \<Rightarrow> string + string" where
  "unsubscribe_endpoint params =
     (case params of
        JObj kvs \<Rightarrow>
          if length kvs = 1
          then (case map_of kvs ''endpoint'' of None \<Rightarrow> Inl ''invalid-params'' | Some v \<Rightarrow> endpoint_param v)
          else Inl ''invalid-params''
      | _ \<Rightarrow> Inl ''invalid-params'')"

definition subscribed_here :: "ext \<Rightarrow> string \<Rightarrow> string \<Rightarrow> push \<Rightarrow> bool" where
  "subscribed_here X device endpoint p =
     (case map_of (pu_devices p) device of None \<Rightarrow> False | Some ids \<Rightarrow> endpoint_id X endpoint \<in> set ids)"

definition push_call ::
  "ext \<Rightarrow> string \<Rightarrow> string \<Rightarrow> json \<Rightarrow> push \<Rightarrow> event_sender \<Rightarrow> (string + json) \<times> event_sender" where
  "push_call X device meth params p es =
     (if meth = ''push.status'' then
        (case status_endpoint params of
           Inl e \<Rightarrow> (Inl e, es)
         | Inr endpoint \<Rightarrow>
             (Inr (JObj [(''available'', JBool (pu_vapid p \<noteq> None)),
                (''subscribed'', JBool (case endpoint of None \<Rightarrow> False | Some e \<Rightarrow> subscribed_here X device e p))]), es))
      else if meth = ''push.unsubscribe'' then
        (if pu_vapid p = None then (Inl ''push-unavailable'', es)
         else case unsubscribe_endpoint params of
           Inl e \<Rightarrow> (Inl e, es)
         | Inr endpoint \<Rightarrow>
             (case try_emit es (PushSubscription device None (Some (endpoint_id X endpoint)) None) of
                (True, es') \<Rightarrow> (Inr (JObj [(''subscribed'', JBool False)]), es')
              | (False, es') \<Rightarrow> (Inl ''busy'', es')))
      else (Inl ''unknown-method'', es))"

end
