(* ===== verification/Push_Watch.thy ===== *)
theory Push_Watch
  imports Push
begin

text \<open>
  The second half of \<open>companion/src/push.rs\<close>: the watcher of one session. It reads snapshots of the
  panes, follows status events, raises a notice when an agent enters \<open>blocked\<close> or \<open>done\<close>, and
  waits with a growing delay after failures. The last section shows that the notices are exactly the
  transitions of each pane's own history.
\<close>

section \<open>Notices\<close>

definition status_name :: "string \<Rightarrow> string" where
  "status_name s = (if s \<in> {''idle'', ''working'', ''blocked'', ''done''} then s else ''unknown'')"

record notice =
  no_kind :: string
  no_pane :: string
  no_workspace :: "string option"
  no_title :: string
  no_space :: "string option"

definition notice_payload :: "notice \<Rightarrow> string \<Rightarrow> push_payload" where
  "notice_payload n session =
     \<lparr>pp_kind = no_kind n, pp_session = session, pp_pane_id = no_pane n, pp_workspace_id = no_workspace n,
      pp_title = no_title n, pp_space = no_space n\<rparr>"

record pane =
  pa_status :: string
  pa_workspace :: "string option"
  pa_title :: string
  pa_space :: "string option"

definition json_array :: "json \<Rightarrow> json list" where
  "json_array v = (case v of JArr xs \<Rightarrow> xs | _ \<Rightarrow> [])"

definition label_text :: "json \<Rightarrow> string option" where
  "label_text v =
     (case map_option str_trim (json_as_str v) of
        None \<Rightarrow> None
      | Some t \<Rightarrow> if t = [] then None else Some (concat (take LABEL_CHARS (str_chars t))))"

definition or_else :: "'a option \<Rightarrow> 'a option \<Rightarrow> 'a option" where
  "or_else a b = (case a of None \<Rightarrow> b | Some x \<Rightarrow> Some x)"

definition pane_read :: "json \<Rightarrow> json \<Rightarrow> string \<Rightarrow> pane" where
  "pane_read snapshot v pid =
     (let agent = find (\<lambda>a. json_index a ''paneId'' = JStr pid) (json_array (json_index snapshot ''agents''));
          workspace = json_as_str (json_index v ''workspaceId'');
          titled = (case agent of
                      None \<Rightarrow> None
                    | Some a \<Rightarrow> or_else (label_text (json_index a ''name'')) (label_text (json_index a ''agent'')));
          space = Option.bind workspace (\<lambda>w. find (\<lambda>s. json_index s ''id'' = JStr w)
                    (json_array (json_index snapshot ''workspaces'')))
      in \<lparr>pa_status = status_name (case json_as_str (json_index v ''status'') of None \<Rightarrow> [] | Some s \<Rightarrow> s),
          pa_workspace = workspace,
          pa_title = (case or_else titled (label_text (json_index v ''label'')) of None \<Rightarrow> pid | Some t \<Rightarrow> t),
          pa_space = Option.bind space (\<lambda>s. label_text (json_index s ''label''))\<rparr>)"

definition ringing :: "string \<Rightarrow> bool" where
  "ringing st \<longleftrightarrow> st = ''blocked'' \<or> st = ''done''"

definition pane_notice :: "pane \<Rightarrow> string \<Rightarrow> notice option" where
  "pane_notice pa pid =
     (if ringing (pa_status pa)
      then Some \<lparr>no_kind = pa_status pa, no_pane = pid, no_workspace = pa_workspace pa,
             no_title = pa_title pa, no_space = pa_space pa\<rparr>
      else None)"

section \<open>The last known status of every pane\<close>

type_synonym seen = "(string, pane) hmap"

definition pane_id :: "json \<Rightarrow> string option" where
  "pane_id v = (case json_as_str (json_index v ''id'') of
     None \<Rightarrow> None | Some i \<Rightarrow> if valid_id i then Some i else None)"

fun seen_panes :: "json \<Rightarrow> seen \<Rightarrow> json list \<Rightarrow> seen \<Rightarrow> notice list \<Rightarrow> notice list \<times> seen" where
  "seen_panes snapshot before [] panes notices = (notices, panes)"
| "seen_panes snapshot before (v # vs) panes notices =
     (case pane_id v of
        None \<Rightarrow> seen_panes snapshot before vs panes notices
      | Some i \<Rightarrow>
          (let now_pane = pane_read snapshot v i;
               raised = (case hm_get before i of
                           None \<Rightarrow> []
                         | Some b \<Rightarrow>
                             if pa_status b \<noteq> pa_status now_pane
                             then (case pane_notice now_pane i of None \<Rightarrow> [] | Some n \<Rightarrow> [n]) else [])
           in seen_panes snapshot before vs (hm_insert i now_pane panes) (notices @ raised)))"

definition seen_snapshot :: "json \<Rightarrow> seen \<Rightarrow> notice list \<times> seen" where
  "seen_snapshot snapshot before =
     seen_panes snapshot before (json_array (json_index snapshot ''panes'')) [] []"

definition seen_status :: "string \<Rightarrow> string \<Rightarrow> seen \<Rightarrow> notice option \<times> seen" where
  "seen_status pid status s =
     (case hm_get s pid of
        None \<Rightarrow> (None, s)
      | Some pa \<Rightarrow>
          (let pa' = pa\<lparr>pa_status := status\<rparr>; s' = hm_insert pid pa' s
           in if pa_status pa = status then (None, s') else (pane_notice pa' pid, s')))"

section \<open>Signals of the Host\<close>

datatype subscription_event =
    Subscribed string
  | AgentStatusChanged string string string string
  | PaneExited string string string
  | WorktreeChanged string string "string option"
  | TopologyChanged string string "string option" "string option"
  | SubscriptionError string string
  | Disconnected string "string option"

datatype signal = Status string string | Exited string | Topology | Down

definition signal_of :: "subscription_event \<Rightarrow> signal option" where
  "signal_of e =
     (case e of
        AgentStatusChanged _ pid _ agent_status \<Rightarrow> Some (Status pid (status_name agent_status))
      | PaneExited _ pid _ \<Rightarrow> Some (Exited pid)
      | TopologyChanged _ kind _ _ \<Rightarrow> if kind \<noteq> ''pane.updated'' then Some Topology else None
      | Disconnected _ _ \<Rightarrow> Some Down
      | SubscriptionError _ _ \<Rightarrow> Some Down
      | _ \<Rightarrow> None)"

section \<open>Backoff\<close>

record pace =
  pc_settle :: duration
  pc_first :: duration
  pc_longest :: duration

definition PACE_DEFAULT :: pace where
  "PACE_DEFAULT = \<lparr>pc_settle = 500000000, pc_first = from_secs 5, pc_longest = from_secs 60\<rparr>"

record backoff =
  bo_pace :: pace
  bo_delay :: duration
  bo_healthy_since :: "nat option"

definition backoff_new :: "pace \<Rightarrow> backoff" where
  "backoff_new p = \<lparr>bo_pace = p, bo_delay = pc_first p, bo_healthy_since = None\<rparr>"

definition backoff_up :: "nat \<Rightarrow> backoff \<Rightarrow> backoff" where
  "backoff_up began b =
     (case bo_healthy_since b of None \<Rightarrow> b\<lparr>bo_healthy_since := Some began\<rparr> | Some _ \<Rightarrow> b)"

definition backoff_after :: "nat \<Rightarrow> backoff \<Rightarrow> duration \<times> backoff" where
  "backoff_after t b =
     (let wait = (if (case bo_healthy_since b of None \<Rightarrow> False | Some since \<Rightarrow> t - since \<ge> pc_longest (bo_pace b))
                  then pc_first (bo_pace b) else bo_delay b)
      in (wait, b\<lparr>bo_healthy_since := None, bo_delay := min (wait * 2) (pc_longest (bo_pace b))\<rparr>))"

section \<open>One cycle of a watcher\<close>

definition pane_ids :: "json \<Rightarrow> string list" where
  "pane_ids snapshot = btree_set (List.map_filter pane_id (json_array (json_index snapshot ''panes'')))"

datatype cycle_end = EndTopology | EndFailed bool

text \<open>Follow the signals until the panes change or the subscription ends.\<close>

fun follow :: "seen \<Rightarrow> signal list \<Rightarrow> cycle_end \<times> seen \<times> notice list" where
  "follow s [] = (EndFailed True, s, [])"
| "follow s (Status pid status # sigs) =
     (case seen_status pid status s of (n, s') \<Rightarrow>
        (case follow s' sigs of (e, s'', ns) \<Rightarrow> (e, s'', (case n of None \<Rightarrow> [] | Some x \<Rightarrow> [x]) @ ns)))"
| "follow s (Exited pid # sigs) = follow (hm_remove pid s) sigs"
| "follow s (Topology # sigs) = (EndTopology, s, [])"
| "follow s (Down # sigs) = (EndFailed True, s, [])"

definition cycle ::
  "string + json \<Rightarrow> bool \<Rightarrow> string + json \<Rightarrow> signal list \<Rightarrow> seen \<Rightarrow> cycle_end \<times> seen \<times> notice list" where
  "cycle fetched subscribed refetched sigs s =
     (case fetched of
        Inl _ \<Rightarrow> (EndFailed False, s, [])
      | Inr snapshot \<Rightarrow>
          (case seen_snapshot snapshot s of (ns1, s1) \<Rightarrow>
             if \<not> subscribed then (EndFailed False, s1, ns1)
             else (case refetched of
                     Inl _ \<Rightarrow> (case follow s1 sigs of (e, s2, ns2) \<Rightarrow> (e, s2, ns1 @ ns2))
                   | Inr snapshot' \<Rightarrow>
                       (case seen_snapshot snapshot' s1 of (ns2, s2) \<Rightarrow>
                          if pane_ids snapshot' \<noteq> pane_ids snapshot then (EndTopology, s2, ns1 @ ns2)
                          else (case follow s2 sigs of (e, s3, ns3) \<Rightarrow> (e, s3, ns1 @ ns2 @ ns3))))))"

text \<open>One turn of \<open>watch_session\<close>: the sleep that follows the cycle.\<close>

definition watch_turn :: "nat \<Rightarrow> nat \<Rightarrow> cycle_end \<Rightarrow> pace \<Rightarrow> backoff \<Rightarrow> duration \<times> backoff" where
  "watch_turn began ended e p b =
     (case e of
        EndTopology \<Rightarrow> (pc_settle p, backoff_up began b)
      | EndFailed up \<Rightarrow> backoff_after ended (if up then backoff_up began b else b))"

section \<open>Delivery\<close>

definition push_targets :: "push \<Rightarrow> identity \<Rightarrow> string list" where
  "push_targets p idt =
     filter (\<lambda>i. case hm_get (id_devices idt) i of None \<Rightarrow> False | Some d \<Rightarrow> \<not> dv_locked d)
       (map fst (pu_devices p))"

text \<open>The body of the loop of \<open>notify\<close>, and the loop: each notice meets the state of its own moment.\<close>

definition push_notify_one ::
  "string \<Rightarrow> push \<Rightarrow> identity \<Rightarrow> notice \<Rightarrow> timestamp \<Rightarrow> audit_state \<Rightarrow> audit_state" where
  "push_notify_one session p idt n t s =
     (let targets = push_targets p idt
      in if targets = [] then s
         else (case try_emit (as_events s) (PushRequest targets (notice_payload n session)) of
                 (True, es) \<Rightarrow> set_events es s
               | (False, es) \<Rightarrow> event_lost t (set_events es s)))"

fun push_notify :: "string \<Rightarrow> (notice \<times> push \<times> identity \<times> timestamp) list \<Rightarrow> audit_state \<Rightarrow> audit_state" where
  "push_notify session [] s = s"
| "push_notify session ((n, p, idt, t) # ns) s = push_notify session ns (push_notify_one session p idt n t s)"

end
