(* ===== verification/Push_Props.thy ===== *)
theory Push_Props
  imports Push_Watch
begin

text \<open>
  What a phone is told: the notices of a watcher are exactly the transitions of each pane, and the
  waits between its cycles stay within their pace.
\<close>

section \<open>The history of one pane\<close>

text \<open>
  What a cycle observes, in order: a snapshot, a status event, the end of a pane.
\<close>

datatype observation = Looked json | Changed string string | Gone string

fun observe_signals :: "signal list \<Rightarrow> observation list" where
  "observe_signals [] = []"
| "observe_signals (Status pid st # sigs) = Changed pid st # observe_signals sigs"
| "observe_signals (Exited pid # sigs) = Gone pid # observe_signals sigs"
| "observe_signals (Topology # sigs) = []"
| "observe_signals (Down # sigs) = []"

type_synonym round = "(string + json) \<times> bool \<times> (string + json) \<times> signal list"

definition observe_round :: "round \<Rightarrow> observation list" where
  "observe_round r =
     (case r of (fetched, subscribed, refetched, sigs) \<Rightarrow>
        (case fetched of
           Inl _ \<Rightarrow> []
         | Inr j \<Rightarrow> Looked j #
             (if \<not> subscribed then []
              else (case refetched of
                      Inl _ \<Rightarrow> observe_signals sigs
                    | Inr k \<Rightarrow> Looked k # (if pane_ids k \<noteq> pane_ids j then [] else observe_signals sigs)))))"

text \<open>The status a snapshot gives a pane, and a transition into a ringing status.\<close>

definition status_in :: "json \<Rightarrow> string \<Rightarrow> string option" where
  "status_in j i = map_option (\<lambda>v. pa_status (pane_read j v i))
     (find (\<lambda>v. pane_id v = Some i) (json_array (json_index j ''panes'')))"

definition ring :: "string option \<Rightarrow> string option \<Rightarrow> string list" where
  "ring a0 b0 =
     (case (a0, b0) of
        (Some a, Some b) \<Rightarrow> if a \<noteq> b \<and> ringing b then [b] else []
      | _ \<Rightarrow> [])"

lemma ring_None [simp]: "ring a None = []" "ring None b = []"
  by (simp_all add: ring_def split: option.splits)

fun rings :: "string \<Rightarrow> string option \<Rightarrow> observation list \<Rightarrow> string list" where
  "rings i cur [] = []"
| "rings i cur (Looked j # os) = ring cur (status_in j i) @ rings i (status_in j i) os"
| "rings i cur (Changed p st # os) =
     (if p = i \<and> cur \<noteq> None then ring cur (Some st) @ rings i (Some st) os else rings i cur os)"
| "rings i cur (Gone p # os) = rings i (if p = i then None else cur) os"

definition snapshot_distinct :: "json \<Rightarrow> bool" where
  "snapshot_distinct j \<longleftrightarrow> distinct (List.map_filter pane_id (json_array (json_index j ''panes'')))"

definition observation_ok :: "observation \<Rightarrow> bool" where
  "observation_ok ob = (case ob of Looked j \<Rightarrow> snapshot_distinct j | _ \<Rightarrow> True)"

section \<open>The watcher follows it\<close>

fun observe_run :: "seen \<Rightarrow> observation list \<Rightarrow> notice list \<times> seen" where
  "observe_run s [] = ([], s)"
| "observe_run s (Looked j # os) =
     (case seen_snapshot j s of (ns, s') \<Rightarrow> (case observe_run s' os of (ms, s'') \<Rightarrow> (ns @ ms, s'')))"
| "observe_run s (Changed p st # os) =
     (case seen_status p st s of (n, s') \<Rightarrow>
        (case observe_run s' os of (ms, s'') \<Rightarrow> ((case n of None \<Rightarrow> [] | Some x \<Rightarrow> [x]) @ ms, s'')))"
| "observe_run s (Gone p # os) = observe_run (hm_remove p s) os"

definition kinds_of :: "string \<Rightarrow> notice list \<Rightarrow> string list" where
  "kinds_of i ns = map no_kind (filter (\<lambda>n. no_pane n = i) ns)"

lemma kinds_of_append [simp]: "kinds_of i (a @ b) = kinds_of i a @ kinds_of i b"
  by (simp add: kinds_of_def)

lemma kinds_of_Nil [simp]: "kinds_of i [] = []"
  by (simp add: kinds_of_def)

definition status_before :: "seen \<Rightarrow> string \<Rightarrow> string option" where
  "status_before s i = map_option pa_status (hm_get s i)"

lemma kinds_of_pane_notice:
  "kinds_of i (case pane_notice pa p of None \<Rightarrow> [] | Some n \<Rightarrow> [n])
     = (if p = i \<and> ringing (pa_status pa) then [pa_status pa] else [])"
  by (simp add: pane_notice_def kinds_of_def)

lemma find_None_map_filter: "i \<notin> set (List.map_filter f vs) \<Longrightarrow> find (\<lambda>v. f v = Some i) vs = None"
  by (induction vs) (auto simp: List.map_filter_simps split: option.splits)

lemma seen_panes_spec:
  fixes i :: string
  assumes "distinct (List.map_filter pane_id vs)" and "seen_panes j before vs panes ns = (ns', panes')"
  defines "found \<equiv> find (\<lambda>v. pane_id v = Some i) vs"
  shows "kinds_of i ns' = kinds_of i ns
      @ ring (status_before before i) (map_option (\<lambda>v. pa_status (pane_read j v i)) found)
    \<and> status_before panes' i = (case found of None \<Rightarrow> status_before panes i | Some v \<Rightarrow> Some (pa_status (pane_read j v i)))"
  using assms(1,2) unfolding found_def
proof (induction vs arbitrary: panes ns)
  case Nil
  then show ?case by simp
next
  case (Cons v vs)
  show ?case
  proof (cases "pane_id v")
    case None
    with Cons show ?thesis by (simp add: List.map_filter_simps)
  next
    case (Some p)
    define raised where "raised = (case hm_get before p of None \<Rightarrow> []
      | Some b \<Rightarrow> if pa_status b \<noteq> pa_status (pane_read j v p)
          then (case pane_notice (pane_read j v p) p of None \<Rightarrow> [] | Some n \<Rightarrow> [n]) else [])"
    have d: "distinct (List.map_filter pane_id vs)" "p \<notin> set (List.map_filter pane_id vs)"
      using Cons.prems(1) Some by (simp_all add: List.map_filter_simps)
    have run: "seen_panes j before vs (hm_insert p (pane_read j v p) panes) (ns @ raised) = (ns', panes')"
      using Cons.prems(2) Some by (simp add: raised_def Let_def)
    have raised: "kinds_of i raised = (if p = i then ring (status_before before i) (Some (pa_status (pane_read j v i))) else [])"
      by (auto simp: raised_def ring_def status_before_def kinds_of_pane_notice split: option.splits)
    show ?thesis
    proof (cases "p = i")
      case True
      have "find (\<lambda>w. pane_id w = Some i) vs = None" by (rule find_None_map_filter) (use d(2) True in simp)
      with Cons.IH [OF d(1) run] True Some raised show ?thesis by (simp add: status_before_def)
    next
      case False
      with Cons.IH [OF d(1) run] Some raised show ?thesis
        by (simp add: status_before_def split: option.splits)
    qed
  qed
qed

lemma seen_snapshot_spec:
  assumes "snapshot_distinct j" and "seen_snapshot j s = (ns, s')"
  shows "kinds_of i ns = ring (status_before s i) (status_in j i) \<and> status_before s' i = status_in j i"
  using seen_panes_spec [OF assms(1)[unfolded snapshot_distinct_def] assms(2)[unfolded seen_snapshot_def], of i]
  by (auto simp: status_in_def status_before_def split: option.splits)

lemma seen_status_spec:
  assumes "seen_status p st s = (n, s')"
  shows "kinds_of i (case n of None \<Rightarrow> [] | Some x \<Rightarrow> [x])
      = (if p = i \<and> status_before s i \<noteq> None then ring (status_before s i) (Some st) else [])
    \<and> status_before s' i = (if p = i \<and> status_before s i \<noteq> None then Some st else status_before s i)"
  using assms
  by (auto simp: seen_status_def Let_def status_before_def ring_def pane_notice_def kinds_of_def split: option.splits if_splits)

lemma observe_run_rings:
  "list_all observation_ok os \<Longrightarrow> kinds_of i (fst (observe_run s os)) = rings i (status_before s i) os"
proof (induction os arbitrary: s)
  case (Cons ob os)
  show ?case
  proof (cases ob)
    case (Looked j)
    obtain ns s' where j: "seen_snapshot j s = (ns, s')" by fastforce
    from Cons.prems Looked have d: "snapshot_distinct j" by (simp add: observation_ok_def)
    from seen_snapshot_spec [OF d j, of i] Cons.IH [of s'] Cons.prems Looked j
    show ?thesis by (auto split: prod.splits)
  next
    case (Changed p st)
    obtain n s' where n: "seen_status p st s = (n, s')" by fastforce
    from seen_status_spec [OF n, of i] Cons.IH [of s'] Cons.prems Changed n
    show ?thesis by (auto split: prod.splits)
  next
    case (Gone p)
    with Cons.IH [of "hm_remove p s"] Cons.prems show ?thesis by (simp add: status_before_def)
  qed
qed simp

lemma observe_run_append:
  "observe_run s (a @ b) =
     (case observe_run s a of (ns, s') \<Rightarrow> (case observe_run s' b of (ms, s'') \<Rightarrow> (ns @ ms, s'')))"
proof (induction a arbitrary: s)
  case (Cons ob a)
  then show ?case by (cases ob) (simp_all split: prod.splits)
qed simp

lemma follow_observed: "follow s sigs = (e, s', ns) \<Longrightarrow> observe_run s (observe_signals sigs) = (ns, s')"
  by (induction s sigs arbitrary: e ns rule: follow.induct) (auto split: prod.splits)

lemma cycle_observed:
  assumes "cycle fetched subscribed refetched sigs s = (e, s', ns)"
  shows "observe_run s (observe_round (fetched, subscribed, refetched, sigs)) = (ns, s')"
  using assms follow_observed
  by (fastforce simp: cycle_def observe_round_def split: sum.splits prod.splits if_splits)

text \<open>The cycles of one watcher, each on what it observed.\<close>

fun watch_cycles :: "seen \<Rightarrow> round list \<Rightarrow> notice list \<times> seen" where
  "watch_cycles s [] = ([], s)"
| "watch_cycles s ((fetched, subscribed, refetched, sigs) # rs) =
     (case cycle fetched subscribed refetched sigs s of (e, s', ns) \<Rightarrow>
        (case watch_cycles s' rs of (ms, s'') \<Rightarrow> (ns @ ms, s'')))"

lemma watch_cycles_observed: "watch_cycles s rs = observe_run s (concat (map observe_round rs))"
proof (induction rs arbitrary: s)
  case (Cons r rs)
  obtain fetched subscribed refetched sigs where r: "r = (fetched, subscribed, refetched, sigs)" by (cases r)
  obtain e s' ns where c: "cycle fetched subscribed refetched sigs s = (e, s', ns)" by (metis prod_cases3)
  from Cons.IH [of s'] c cycle_observed [OF c] show ?case by (simp add: r observe_run_append)
qed simp

text \<open>
  C19: A phone rings exactly for transitions. Over any number of cycles of a new watcher, with their
  failures, resubscriptions and signals, the notices about a pane are, in order, the moments in
  which the pane was known with one status and is then seen with another that is \<open>blocked\<close> or
  \<open>done\<close>: a pane seen for the first time, or again after it was gone, never rings, and no
  transition rings twice. (Pane ids are distinct within a snapshot.)
\<close>

theorem push_notices_are_transitions:
  assumes "list_all observation_ok (concat (map observe_round rounds))"
  shows "map no_kind (filter (\<lambda>n. no_pane n = i) (fst (watch_cycles [] rounds)))
     = rings i None (concat (map observe_round rounds))"
  using observe_run_rings [OF assms, of i "[]"] by (simp add: watch_cycles_observed kinds_of_def status_before_def)

definition demo_snapshot :: "string \<Rightarrow> json" where
  "demo_snapshot st = JObj [(''panes'', JArr [JObj [(''id'', JStr ''p''), (''status'', JStr st)]])]"

definition demo_rounds :: "round list" where
  "demo_rounds =
     [(Inr (demo_snapshot ''working''), True, Inr (demo_snapshot ''working''),
        [Status ''p'' ''blocked'', Status ''p'' ''blocked'', Down]),
      (Inr (demo_snapshot ''done''), False, Inl [], [])]"

lemma demo_panes: "json_array (json_index (demo_snapshot st) ''panes'') = [JObj [(''id'', JStr ''p''), (''status'', JStr st)]]"
  by (simp add: demo_snapshot_def json_index_def json_get_def json_array_def)

lemma demo_valid_id: "valid_id ''p''"
  by code_simp

lemma demo_pane_id: "pane_id (JObj [(''id'', JStr ''p''), (''status'', JStr st)]) = Some ''p''"
  using demo_valid_id by (simp add: pane_id_def json_index_def json_get_def json_as_str_def)

lemma demo_status_in: "status_in (demo_snapshot st) ''p'' = Some (status_name st)"
  unfolding status_in_def demo_panes
  by (simp add: demo_pane_id pane_read_def Let_def) (simp add: json_index_def json_get_def json_as_str_def)

lemma demo_ids: "pane_ids (demo_snapshot st) = [''p'']"
  by (simp add: pane_ids_def demo_panes demo_pane_id List.map_filter_simps btree_set_def)

theorem push_notices_are_transitions_witness:
  "map no_kind (filter (\<lambda>n. no_pane n = ''p'') (fst (watch_cycles [] demo_rounds))) = [''blocked'', ''done'']"
proof -
  have obs: "concat (map observe_round demo_rounds) =
     [Looked (demo_snapshot ''working''), Looked (demo_snapshot ''working''), Changed ''p'' ''blocked'',
      Changed ''p'' ''blocked'', Looked (demo_snapshot ''done'')]"
    by (simp add: demo_rounds_def observe_round_def demo_ids)
  have "list_all observation_ok (concat (map observe_round demo_rounds))"
    by (simp add: obs observation_ok_def snapshot_distinct_def demo_panes demo_pane_id List.map_filter_simps)
  from push_notices_are_transitions [OF this, of "''p''"]
  show ?thesis by (simp add: obs demo_status_in ring_def ringing_def status_name_def)
qed

section \<open>The pace of retries\<close>

definition pace_ok :: "pace \<Rightarrow> bool" where
  "pace_ok p \<longleftrightarrow> 0 < pc_first p \<and> pc_first p \<le> pc_longest p"

lemma backoff_after_bounds:
  assumes "pace_ok (bo_pace b)" and "pc_first (bo_pace b) \<le> bo_delay b \<and> bo_delay b \<le> pc_longest (bo_pace b)"
    and "backoff_after t b = (wait, b')"
  shows "pc_first (bo_pace b) \<le> wait \<and> wait \<le> pc_longest (bo_pace b)
    \<and> bo_pace b' = bo_pace b
    \<and> pc_first (bo_pace b) \<le> bo_delay b' \<and> bo_delay b' \<le> pc_longest (bo_pace b)"
  using assms by (auto simp: backoff_after_def pace_ok_def Let_def split: option.splits)

text \<open>Failures in a row double the wait up to the longest one.\<close>

fun failures :: "nat \<Rightarrow> nat \<Rightarrow> backoff \<Rightarrow> duration \<times> backoff" where
  "failures t 0 b = backoff_after t b"
| "failures t (Suc k) b = failures t k (snd (backoff_after t b))"

lemma failures_double:
  assumes "bo_healthy_since b = None" and "bo_delay b \<le> pc_longest (bo_pace b)"
  shows "fst (failures t k b) = min (bo_delay b * 2 ^ k) (pc_longest (bo_pace b))"
  using assms
proof (induction k arbitrary: b)
  case 0
  then show ?case by (simp add: backoff_after_def Let_def)
next
  case (Suc k)
  let ?b = "snd (backoff_after t b)"
  have "bo_healthy_since ?b = None" "bo_delay ?b = min (bo_delay b * 2) (pc_longest (bo_pace b))" "bo_pace ?b = bo_pace b"
    using Suc.prems(1) by (simp_all add: backoff_after_def Let_def)
  then have "fst (failures t (Suc k) b) = min (min (bo_delay b * 2) (pc_longest (bo_pace b)) * 2 ^ k) (pc_longest (bo_pace b))"
    using Suc.IH [of ?b] by simp
  also have "\<dots> = min (bo_delay b * 2 * 2 ^ k) (pc_longest (bo_pace b))"
  proof (cases "bo_delay b * 2 \<le> pc_longest (bo_pace b)")
    case False
    have "pc_longest (bo_pace b) * 1 \<le> pc_longest (bo_pace b) * 2 ^ k" by (rule mult_le_mono2) simp
    moreover have "bo_delay b * 2 * 1 \<le> bo_delay b * 2 * 2 ^ k" by (rule mult_le_mono2) simp
    ultimately show ?thesis using False by linarith
  qed simp
  finally show ?case by simp
qed

end
