(* ===== verification/Git_Bridge.thy ===== *)
theory Git_Bridge
  imports Push Clock
begin

text \<open>
  \<open>companion/src/git_bridge.rs\<close>: read-only Git for the Spaces the desktop mapped to a folder. The
  mapping, the short tokens that stand for Host cursors, the parsing of a phone's request, the
  classification of Host errors, the read with its one retry, and the audit window.

  Git itself and the trust store are the Host's: they are the fields of \<open>host_git\<close>, functions on a
  state \<open>'w\<close> that includes the disk. A panic (an index of a missing map key) is \<open>None\<close>.
\<close>

definition MAX_ROOTS :: nat where "MAX_ROOTS = 512"
definition ID_BYTES :: nat where "ID_BYTES = 256"
definition ROOT_BYTES :: nat where "ROOT_BYTES = 4096"
definition PATH_BYTES :: nat where "PATH_BYTES = 4096"
definition DEFAULT_LOG_LIMIT :: nat where "DEFAULT_LOG_LIMIT = 50"
definition MAX_LOG_LIMIT :: nat where "MAX_LOG_LIMIT = 100"
definition AUDIT_WINDOW :: duration where "AUDIT_WINDOW = from_secs 60"
definition CURSORS :: nat where "CURSORS = 512"
definition CURSOR_TTL :: duration where "CURSOR_TTL = from_secs (30 * 60)"
definition CURSOR_INVALID :: string where "CURSOR_INVALID = ''git-cursor-invalid''"

definition STALE :: "string list" where
  "STALE = [''git-repository-not-open'', ''git-repository-identity-mismatch'', ''git-repository-replaced'']"

definition is_git :: "string \<Rightarrow> bool" where
  "is_git meth \<longleftrightarrow> meth \<in> {''git.status'', ''git.branches'', ''git.log'', ''git.commit'', ''git.diff''}"

definition id_ok :: "string \<Rightarrow> bool" where
  "id_ok value \<longleftrightarrow> 1 \<le> length value \<and> length value \<le> ID_BYTES"

definition path_ok :: "string \<Rightarrow> bool" where
  "path_ok value \<longleftrightarrow> 1 \<le> length value \<and> length value \<le> PATH_BYTES \<and> CHR 0x00 \<notin> set value"

text \<open>\<open>Path::is_absolute\<close> on Unix.\<close>

definition is_absolute :: "string \<Rightarrow> bool" where
  "is_absolute p \<longleftrightarrow> starts_with p ''/''"

fun roots_from :: "(string \<times> string) list \<Rightarrow> space_root list \<Rightarrow> bool" where
  "roots_from seen [] = True"
| "roots_from seen (e # es) =
     (id_ok (sr_session e) \<and> id_ok (sr_workspace_id e)
      \<and> 1 \<le> length (sr_root e) \<and> length (sr_root e) \<le> ROOT_BYTES
      \<and> is_absolute (sr_root e)
      \<and> (sr_session e, sr_workspace_id e) \<notin> set seen
      \<and> roots_from ((sr_session e, sr_workspace_id e) # seen) es)"

definition roots_ok :: "space_root list \<Rightarrow> bool" where
  "roots_ok roots \<longleftrightarrow> length roots \<le> MAX_ROOTS \<and> roots_from [] roots"

section \<open>The mapping\<close>

record space =
  sp_root :: string
  sp_generation :: string

record spaces =
  ss_trust_store :: string
  ss_allowlist :: "string list"
  ss_spaces :: "(string \<times> string, space) hmap"
  ss_salt :: string
  ss_generations :: u64

fun replace_from ::
  "spaces \<Rightarrow> space_root list \<Rightarrow> u64 \<Rightarrow> (string \<times> string, space) hmap \<Rightarrow> u64 \<times> (string \<times> string, space) hmap" where
  "replace_from sp [] g next_map = (g, next_map)"
| "replace_from sp (e # es) g next_map =
     (let key = (sr_session e, sr_workspace_id e);
          fresh = \<lparr>sp_root = sr_root e, sp_generation = ss_salt sp @ nat_str (unat g)\<rparr>
      in case hm_get (ss_spaces sp) key of
           Some s \<Rightarrow>
             if sp_root s = sr_root e then replace_from sp es g (hm_insert key s next_map)
             else replace_from sp es (g + 1) (hm_insert key fresh next_map)
         | None \<Rightarrow> replace_from sp es (g + 1) (hm_insert key fresh next_map))"

definition spaces_replace :: "space_root list \<Rightarrow> spaces \<Rightarrow> bool \<times> spaces" where
  "spaces_replace roots sp =
     (if \<not> roots_ok roots then (False, sp)
      else (case replace_from sp (filter (\<lambda>e. sr_session e \<in> set (ss_allowlist sp)) roots) (ss_generations sp) [] of
              (g, m) \<Rightarrow> (True, sp\<lparr>ss_spaces := m, ss_generations := g\<rparr>)))"

definition spaces_new ::
  "ext \<Rightarrow> string \<Rightarrow> string list \<Rightarrow> space_root list \<Rightarrow> bytes option \<Rightarrow> string + spaces" where
  "spaces_new X trust_store allowlist roots random =
     (if \<not> is_absolute trust_store then Inl ''invalid-trust-store''
      else (case random of
              None \<Rightarrow> Inl ''entropy-unavailable''
            | Some r \<Rightarrow>
                (case spaces_replace roots \<lparr>ss_trust_store = trust_store, ss_allowlist = allowlist,
                    ss_spaces = [], ss_salt = encode X r, ss_generations = 1\<rparr> of
                   (ok, sp) \<Rightarrow> if ok then Inr sp else Inl ''invalid-space-roots'')))"

definition spaces_get :: "spaces \<Rightarrow> string \<Rightarrow> string \<Rightarrow> string + space" where
  "spaces_get sp session workspace_id =
     (if \<not> valid_id session \<or> session \<notin> set (ss_allowlist sp) then Inl ''session-not-allowed''
      else (case hm_get (ss_spaces sp) (session, workspace_id) of
              None \<Rightarrow> Inl ''git-unavailable''
            | Some s \<Rightarrow> Inr s))"

text \<open>
  Assigning to a member: null becomes an object. Any other value would panic; a normalised snapshot
  has objects only, and a log page is one.
\<close>

definition json_put :: "string \<Rightarrow> json \<Rightarrow> json \<Rightarrow> json" where
  "json_put k x v = (case v of JObj kvs \<Rightarrow> JObj (hm_insert k x kvs) | JNull \<Rightarrow> JObj [(k, x)] | _ \<Rightarrow> v)"

definition mark_workspace :: "spaces \<Rightarrow> string \<Rightarrow> json \<Rightarrow> json" where
  "mark_workspace sp session w =
     (let s = Option.bind (json_as_str (json_index w ''id'')) (\<lambda>i. hm_get (ss_spaces sp) (session, i))
      in (case s of
            None \<Rightarrow> json_put ''git'' (JBool False) w
          | Some s \<Rightarrow> json_put ''gitGeneration'' (JStr (sp_generation s)) (json_put ''git'' (JBool True) w)))"

definition spaces_mark :: "spaces \<Rightarrow> string \<Rightarrow> json \<Rightarrow> json" where
  "spaces_mark sp session snapshot =
     (case json_index snapshot ''workspaces'' of
        JArr ws \<Rightarrow> json_put ''workspaces'' (JArr (map (mark_workspace sp session) ws)) snapshot
      | _ \<Rightarrow> snapshot)"

section \<open>Cursor tokens\<close>

record cursor =
  cu_device :: string
  cu_session :: string
  cu_workspace_id :: string
  cu_host :: string
  cu_expires :: timestamp

record cursors =
  cs_by_token :: "(string, cursor) hmap"
  cs_order :: "string list"

definition cursors_default :: cursors where
  "cursors_default = \<lparr>cs_by_token = [], cs_order = []\<rparr>"

definition cursor_open ::
  "cursors \<Rightarrow> string \<Rightarrow> timestamp \<Rightarrow> string \<Rightarrow> string \<Rightarrow> string \<Rightarrow> string option" where
  "cursor_open cs device t session workspace_id token =
     (case hm_get (cs_by_token cs) token of
        None \<Rightarrow> None
      | Some c \<Rightarrow>
          if cu_device c = device \<and> cu_session c = session \<and> cu_workspace_id c = workspace_id
             \<and> t < cu_expires c
          then Some (cu_host c) else None)"

fun drop_old ::
  "timestamp \<Rightarrow> (string, cursor) hmap \<Rightarrow> string list \<Rightarrow> ((string, cursor) hmap \<times> string list) option" where
  "drop_old t m [] = Some (m, [])"
| "drop_old t m (oldest # order) =
     (case hm_get m oldest of
        None \<Rightarrow> None
      | Some c \<Rightarrow>
          if \<not> cu_expires c \<le> t \<and> length (oldest # order) < CURSORS then Some (m, oldest # order)
          else drop_old t (hm_remove oldest m) order)"

definition cursor_issue ::
  "ext \<Rightarrow> string \<Rightarrow> timestamp \<Rightarrow> string \<Rightarrow> string \<Rightarrow> string \<Rightarrow> bytes option \<Rightarrow> cursors
     \<Rightarrow> ((string + string) \<times> cursors) option" where
  "cursor_issue X device t session workspace_id host random cs =
     (case random of
        None \<Rightarrow> Some (Inl ''git-failed'', cs)
      | Some r \<Rightarrow>
          (let token = encode X r
           in case drop_old t (cs_by_token cs) (cs_order cs) of
                None \<Rightarrow> None
              | Some (m, order) \<Rightarrow>
                  Some (Inr token,
                    \<lparr>cs_by_token = hm_insert token \<lparr>cu_device = device, cu_session = session,
                        cu_workspace_id = workspace_id, cu_host = host, cu_expires = after t CURSOR_TTL\<rparr> m,
                     cs_order = order @ [token]\<rparr>)))"

section \<open>Requests\<close>

datatype git_diff =
    Worktree string bool
  | Staged string "string option"
  | CommitDiff string string "string option"

datatype git_call =
    GitStatus
  | GitBranches
  | GitLog "string option" nat
  | GitCommit string
  | GitDiff git_diff

record git_request =
  gr_session :: string
  gr_workspace_id :: string
  gr_call :: git_call

text \<open>
  A struct with a derived \<open>Deserialize\<close> and unknown fields denied reads an object with known keys
  only, none of them twice, or an array with one element per field. An \<open>Option\<close> field may be absent or null.
\<close>

definition struct_fields :: "string list \<Rightarrow> json \<Rightarrow> (string \<Rightarrow> json option) option" where
  "struct_fields names v =
     (case v of
        JObj kvs \<Rightarrow> if distinct (map fst kvs) \<and> set (map fst kvs) \<subseteq> set names then Some (map_of kvs) else None
      | JArr xs \<Rightarrow> if length xs = length names then Some (map_of (zip names xs)) else None
      | _ \<Rightarrow> None)"

definition req_field :: "(json \<Rightarrow> 'a option) \<Rightarrow> (string \<Rightarrow> json option) \<Rightarrow> string \<Rightarrow> 'a option" where
  "req_field rd fs k = Option.bind (fs k) rd"

definition opt_field :: "(json \<Rightarrow> 'a option) \<Rightarrow> (string \<Rightarrow> json option) \<Rightarrow> string \<Rightarrow> 'a option option" where
  "opt_field rd fs k =
     (case fs k of
        None \<Rightarrow> Some None
      | Some JNull \<Rightarrow> Some None
      | Some v \<Rightarrow> map_option Some (rd v))"

definition json_u32 :: "json \<Rightarrow> nat option" where
  "json_u32 v = (case v of JNum n \<Rightarrow> if 0 \<le> n \<and> n < 2 ^ 32 then Some (nat n) else None | _ \<Rightarrow> None)"

definition json_bool :: "json \<Rightarrow> bool option" where
  "json_bool v = (case v of JBool b \<Rightarrow> Some b | _ \<Rightarrow> None)"

datatype diff_kind = KindWorktree | KindStaged | KindCommit

definition kind_name :: "string \<Rightarrow> diff_kind option" where
  "kind_name s =
     (if s = ''worktree'' then Some KindWorktree
      else if s = ''staged'' then Some KindStaged
      else if s = ''commit'' then Some KindCommit
      else None)"

text \<open>A unit variant: its name, or an object of the name with null.\<close>

definition json_kind :: "json \<Rightarrow> diff_kind option" where
  "json_kind v =
     (case v of
        JStr s \<Rightarrow> kind_name s
      | JObj [(s, JNull)] \<Rightarrow> kind_name s
      | _ \<Rightarrow> None)"

definition space_params :: "json \<Rightarrow> (string \<times> string) option" where
  "space_params v =
     (case struct_fields [''session'', ''workspaceId''] v of
        None \<Rightarrow> None
      | Some fs \<Rightarrow>
          (case (req_field json_as_str fs ''session'', req_field json_as_str fs ''workspaceId'') of
             (Some s, Some w) \<Rightarrow> Some (s, w)
           | _ \<Rightarrow> None))"

definition log_params :: "json \<Rightarrow> (string \<times> string \<times> string option \<times> nat option) option" where
  "log_params v =
     (case struct_fields [''session'', ''workspaceId'', ''cursor'', ''limit''] v of
        None \<Rightarrow> None
      | Some fs \<Rightarrow>
          (case (req_field json_as_str fs ''session'', req_field json_as_str fs ''workspaceId'',
                 opt_field json_as_str fs ''cursor'', opt_field json_u32 fs ''limit'') of
             (Some s, Some w, Some c, Some l) \<Rightarrow> Some (s, w, c, l)
           | _ \<Rightarrow> None))"

definition commit_params :: "json \<Rightarrow> (string \<times> string \<times> string) option" where
  "commit_params v =
     (case struct_fields [''session'', ''workspaceId'', ''hash''] v of
        None \<Rightarrow> None
      | Some fs \<Rightarrow>
          (case (req_field json_as_str fs ''session'', req_field json_as_str fs ''workspaceId'',
                 req_field json_as_str fs ''hash'') of
             (Some s, Some w, Some h) \<Rightarrow> Some (s, w, h)
           | _ \<Rightarrow> None))"

record diff_params =
  dp_session :: string
  dp_workspace_id :: string
  dp_kind :: diff_kind
  dp_path :: string
  dp_orig_path :: "string option"
  dp_commit :: "string option"
  dp_untracked :: "bool option"

definition diff_params_of :: "json \<Rightarrow> diff_params option" where
  "diff_params_of v =
     (case struct_fields [''session'', ''workspaceId'', ''kind'', ''path'', ''origPath'', ''commit'', ''untracked''] v of
        None \<Rightarrow> None
      | Some fs \<Rightarrow>
          (case (req_field json_as_str fs ''session'', req_field json_as_str fs ''workspaceId'',
                 req_field json_kind fs ''kind'', req_field json_as_str fs ''path'',
                 opt_field json_as_str fs ''origPath'', opt_field json_as_str fs ''commit'',
                 opt_field json_bool fs ''untracked'') of
             (Some s, Some w, Some k, Some p, Some orig, Some c, Some u) \<Rightarrow>
               Some \<lparr>dp_session = s, dp_workspace_id = w, dp_kind = k, dp_path = p, dp_orig_path = orig,
                 dp_commit = c, dp_untracked = u\<rparr>
           | _ \<Rightarrow> None))"

definition is_full_oid :: "string \<Rightarrow> bool" where
  "is_full_oid value \<longleftrightarrow> (length value = 40 \<or> length value = 64) \<and> list_all is_ascii_hexdigit value"

definition full_oid :: "string \<Rightarrow> string option" where
  "full_oid value = (if is_full_oid value then Some (map to_ascii_lowercase value) else None)"

definition diff_of :: "diff_params \<Rightarrow> git_diff option" where
  "diff_of p =
     (case dp_kind p of
        KindWorktree \<Rightarrow> Some (Worktree (dp_path p) (case dp_untracked p of None \<Rightarrow> False | Some u \<Rightarrow> u))
      | KindStaged \<Rightarrow> Some (Staged (dp_path p) (dp_orig_path p))
      | KindCommit \<Rightarrow>
          (case Option.bind (dp_commit p) full_oid of
             None \<Rightarrow> None
           | Some h \<Rightarrow> Some (CommitDiff h (dp_path p) (dp_orig_path p))))"

definition parse_call :: "string \<Rightarrow> json \<Rightarrow> (string \<times> string \<times> git_call) option" where
  "parse_call meth v =
     (if meth = ''git.status'' \<or> meth = ''git.branches'' then
        (case space_params v of
           None \<Rightarrow> None
         | Some (s, w) \<Rightarrow> Some (s, w, if meth = ''git.status'' then GitStatus else GitBranches))
      else if meth = ''git.log'' then
        (case log_params v of
           None \<Rightarrow> None
         | Some (s, w, c, l) \<Rightarrow>
             (let limit = (case l of None \<Rightarrow> DEFAULT_LOG_LIMIT | Some l \<Rightarrow> l)
              in if 1 \<le> limit \<and> limit \<le> MAX_LOG_LIMIT then Some (s, w, GitLog c limit) else None))
      else if meth = ''git.commit'' then
        (case commit_params v of
           None \<Rightarrow> None
         | Some (s, w, h) \<Rightarrow> (case full_oid h of None \<Rightarrow> None | Some h \<Rightarrow> Some (s, w, GitCommit h)))
      else if meth = ''git.diff'' then
        (case diff_params_of v of
           None \<Rightarrow> None
         | Some p \<Rightarrow>
             if \<not> path_ok (dp_path p) \<or> (case dp_orig_path p of None \<Rightarrow> False | Some o' \<Rightarrow> \<not> path_ok o') then None
             else (case diff_of p of None \<Rightarrow> None | Some d \<Rightarrow> Some (dp_session p, dp_workspace_id p, GitDiff d)))
      else None)"

definition git_parse :: "string \<Rightarrow> json \<Rightarrow> string + git_request" where
  "git_parse meth v =
     (case parse_call meth v of
        None \<Rightarrow> Inl ''invalid-params''
      | Some (s, w, c) \<Rightarrow>
          if \<not> id_ok s \<or> \<not> id_ok w then Inl ''invalid-params''
          else Inr \<lparr>gr_session = s, gr_workspace_id = w, gr_call = c\<rparr>)"

section \<open>Reads\<close>

text \<open>\<open>J\<close> is the JSON parser of the error text.\<close>

definition classify :: "(string \<Rightarrow> json option) \<Rightarrow> string \<Rightarrow> string" where
  "classify J error =
     (if error = CURSOR_INVALID then CURSOR_INVALID
      else if error = ''git-diff-not-untracked'' \<or> error = ''git-diff-git-path'' then ''invalid-params''
      else (case Option.bind (J error) (\<lambda>v. json_as_str (json_index v ''error'')) of
              None \<Rightarrow> ''git-failed''
            | Some c \<Rightarrow>
                if c \<in> {''untrustedWorkspace'', ''identityMismatch'', ''storeCorrupt'', ''storeLocked''}
                then ''git-untrusted'' else ''git-failed''))"

record 'w host_git =
  hg_require_trusted :: "string \<Rightarrow> 'w \<Rightarrow> string option \<times> 'w"
  hg_detect :: "string \<Rightarrow> 'w \<Rightarrow> (string + json) \<times> 'w"
  hg_read_root :: "string \<Rightarrow> git_call \<Rightarrow> string option \<Rightarrow> 'w \<Rightarrow> (string + json) \<times> 'w"

definition space_detect :: "(string \<Rightarrow> json option) \<Rightarrow> 'w host_git \<Rightarrow> space \<Rightarrow> 'w \<Rightarrow> (string + string) \<times> 'w" where
  "space_detect J H sp w =
     (case hg_detect H (sp_root sp) w of
        (Inl error, w') \<Rightarrow> (Inl (classify J error), w')
      | (Inr environment, w') \<Rightarrow>
          (case json_as_str (json_index environment ''status'') of
             None \<Rightarrow> (Inl ''git-failed'', w')
           | Some st \<Rightarrow>
               if st = ''ready'' then
                 (case json_as_str (json_index environment ''root'') of
                    None \<Rightarrow> (Inl ''git-failed'', w')
                  | Some root \<Rightarrow> (Inr root, w'))
               else if st = ''notARepo'' then (Inl ''git-not-repository'', w')
               else (Inl ''git-failed'', w')))"

text \<open>The loop of \<open>Space::read\<close>: the number says how often it may still retry.\<close>

fun read_attempts ::
  "nat \<Rightarrow> (string \<Rightarrow> json option) \<Rightarrow> 'w host_git \<Rightarrow> space \<Rightarrow> git_call \<Rightarrow> string option \<Rightarrow> string option \<Rightarrow> 'w
     \<Rightarrow> (string + json) \<times> string option \<times> 'w" where
  "read_attempts retries J H sp call cur detected w =
     (case (case detected of Some root \<Rightarrow> (Inr root, w) | None \<Rightarrow> space_detect J H sp w) of
        (Inl e, w1) \<Rightarrow> (Inl e, None, w1)
      | (Inr root, w1) \<Rightarrow>
          (case hg_read_root H root call cur w1 of
             (Inr v, w2) \<Rightarrow> (Inr v, Some root, w2)
           | (Inl error, w2) \<Rightarrow>
               (case retries of
                  Suc r \<Rightarrow>
                    if error \<in> set STALE \<or> classify J error = ''git-untrusted''
                    then read_attempts r J H sp call cur None w2
                    else (Inl (classify J error), Some root, w2)
                | 0 \<Rightarrow> (Inl (classify J error), Some root, w2))))"

definition space_read ::
  "(string \<Rightarrow> json option) \<Rightarrow> 'w host_git \<Rightarrow> space \<Rightarrow> git_call \<Rightarrow> string option \<Rightarrow> string option \<Rightarrow> 'w
     \<Rightarrow> (string + json) \<times> string option \<times> 'w" where
  "space_read J H sp call cur detected w =
     (case detected of
        None \<Rightarrow> read_attempts 1 J H sp call cur None w
      | Some root \<Rightarrow>
          (case hg_require_trusted H (sp_root sp) w of
             (Some error, w1) \<Rightarrow> (Inl (classify J error), None, w1)
           | (None, w1) \<Rightarrow> read_attempts 1 J H sp call cur (Some root) w1))"

text \<open>\<open>Request::run\<close>: a log page goes out with a token in place of the Host's cursor.\<close>

definition log_host ::
  "string \<Rightarrow> timestamp \<Rightarrow> git_request \<Rightarrow> cursors \<Rightarrow> string + string option" where
  "log_host device t req cs =
     (case gr_call req of
        GitLog (Some token) limit \<Rightarrow>
          (case cursor_open cs device t (gr_session req) (gr_workspace_id req) token of
             None \<Rightarrow> Inl CURSOR_INVALID
           | Some host \<Rightarrow> Inr (Some host))
      | _ \<Rightarrow> Inr None)"

definition is_log :: "git_call \<Rightarrow> bool" where
  "is_log c = (case c of GitLog _ _ \<Rightarrow> True | _ \<Rightarrow> False)"

definition request_run ::
  "ext \<Rightarrow> (string \<Rightarrow> json option) \<Rightarrow> 'w host_git \<Rightarrow> space \<Rightarrow> string \<Rightarrow> timestamp \<Rightarrow> git_request \<Rightarrow> bytes option
     \<Rightarrow> cursors \<Rightarrow> string option \<Rightarrow> 'w \<Rightarrow> ((string + json) \<times> cursors \<times> string option \<times> 'w) option" where
  "request_run X J H sp device t req random cs detected w =
     (case log_host device t req cs of
        Inl e \<Rightarrow> Some (Inl e, cs, detected, w)
      | Inr host \<Rightarrow>
          (case space_read J H sp (gr_call req) host detected w of
             (Inl e, d, w1) \<Rightarrow> Some (Inl e, cs, d, w1)
           | (Inr page, d, w1) \<Rightarrow>
               if \<not> is_log (gr_call req) then Some (Inr page, cs, d, w1)
               else (case json_as_str (json_index page ''nextCursor'') of
                       None \<Rightarrow> Some (Inr page, cs, d, w1)
                     | Some next_cursor \<Rightarrow>
                         (case cursor_issue X device t (gr_session req) (gr_workspace_id req) next_cursor random cs of
                            None \<Rightarrow> None
                          | Some (Inl e, cs1) \<Rightarrow> Some (Inl e, cs1, d, w1)
                          | Some (Inr token, cs1) \<Rightarrow>
                              Some (Inr (json_put ''nextCursor'' (JStr token) page), cs1, d, w1)))))"

section \<open>The audit window\<close>

definition window_due ::
  "string \<Rightarrow> string \<Rightarrow> timestamp \<Rightarrow> (string \<times> string, timestamp) hmap
     \<Rightarrow> bool \<times> (string \<times> string, timestamp) hmap" where
  "window_due session workspace_id t m =
     (let m1 = hm_retain (\<lambda>k end_at. t < end_at) m
      in if hm_get m1 (session, workspace_id) \<noteq> None then (False, m1)
         else (True, hm_insert (session, workspace_id) (after t AUDIT_WINDOW) m1))"

end
