(* ===== verification/Git_Bridge_Props.thy ===== *)
theory Git_Bridge_Props
  imports Git_Bridge
begin

text \<open>
  Cursor tokens are capabilities: a token opens a Host cursor only for the device, session and
  workspace it was issued to and only within its half hour, the table stays within 512 entries, and
  the code that drops old tokens never hits the panic on a missing entry.
\<close>

record issue =
  is_device :: string
  is_now :: timestamp
  is_session :: string
  is_workspace_id :: string
  is_host :: string
  is_random :: bytes

definition issue_token :: "ext \<Rightarrow> issue \<Rightarrow> string" where
  "issue_token X i = encode X (is_random i)"

definition issue_one :: "ext \<Rightarrow> issue \<Rightarrow> cursors \<Rightarrow> ((string + string) \<times> cursors) option" where
  "issue_one X i cs = cursor_issue X (is_device i) (is_now i) (is_session i) (is_workspace_id i) (is_host i)
     (Some (is_random i)) cs"

text \<open>A sequence of issued tokens; \<open>None\<close> is a panic on the way.\<close>

fun issue_all :: "ext \<Rightarrow> issue list \<Rightarrow> cursors \<Rightarrow> cursors option" where
  "issue_all X [] cs = Some cs"
| "issue_all X (i # is) cs =
     (case issue_one X i cs of None \<Rightarrow> None | Some (r, cs') \<Rightarrow> issue_all X is cs')"

definition issued_as :: "ext \<Rightarrow> issue \<Rightarrow> string \<Rightarrow> cursor \<Rightarrow> bool" where
  "issued_as X i token c \<longleftrightarrow> token = issue_token X i \<and> cu_device c = is_device i \<and> cu_session c = is_session i
     \<and> cu_workspace_id c = is_workspace_id i \<and> cu_host c = is_host i \<and> cu_expires c = after (is_now i) CURSOR_TTL"

definition cursors_inv :: "ext \<Rightarrow> issue list \<Rightarrow> cursors \<Rightarrow> bool" where
  "cursors_inv X done_ops cs \<longleftrightarrow>
     distinct (cs_order cs) \<and> length (cs_order cs) \<le> CURSORS
     \<and> (\<forall>k. k \<in> set (cs_order cs) \<longleftrightarrow> hm_get (cs_by_token cs) k \<noteq> None)
     \<and> (\<forall>k c. hm_get (cs_by_token cs) k = Some c \<longrightarrow> (\<exists>i \<in> set done_ops. issued_as X i k c))"

lemma drop_old_ok:
  assumes "distinct order" and "\<forall>k. k \<in> set order \<longleftrightarrow> hm_get m k \<noteq> None"
  shows "\<exists>m' order'. drop_old t m order = Some (m', order') \<and> distinct order'
     \<and> (\<forall>k. k \<in> set order' \<longleftrightarrow> hm_get m' k \<noteq> None)
     \<and> (\<forall>k c. hm_get m' k = Some c \<longrightarrow> hm_get m k = Some c)
     \<and> (order' = [] \<or> length order' < CURSORS) \<and> set order' \<subseteq> set order"
  using assms
proof (induction order arbitrary: m)
  case (Cons k order)
  then have "hm_get m k \<noteq> None" by (metis list.set_intros(1))
  then obtain c where c: "hm_get m k = Some c" by blast
  show ?case
  proof (cases "\<not> cu_expires c \<le> t \<and> length (k # order) < CURSORS")
    case True
    then have "drop_old t m (k # order) = Some (m, k # order)"
      unfolding drop_old.simps c option.case by (rule if_P)
    moreover from True have "length (k # order) < CURSORS" ..
    ultimately show ?thesis using Cons.prems by blast
  next
    case False
    have "\<forall>x. x \<in> set order \<longleftrightarrow> hm_get (hm_remove k m) x \<noteq> None"
      using Cons.prems by (metis distinct.simps(2) hm_get_remove list.set_intros(2) set_ConsD)
    from Cons.IH [OF _ this] Cons.prems(1) obtain m' order' where d:
      "drop_old t (hm_remove k m) order = Some (m', order')" "distinct order'"
      "\<forall>x. x \<in> set order' \<longleftrightarrow> hm_get m' x \<noteq> None"
      "\<forall>x c. hm_get m' x = Some c \<longrightarrow> hm_get (hm_remove k m) x = Some c"
      "order' = [] \<or> length order' < CURSORS" "set order' \<subseteq> set order" by auto
    have "drop_old t m (k # order) = Some (m', order')"
      unfolding drop_old.simps c option.case if_not_P [OF False] by (rule d(1))
    moreover have "\<forall>x c. hm_get m' x = Some c \<longrightarrow> hm_get m x = Some c"
      using d(4) by (metis hm_get_remove option.distinct(1))
    moreover have "set order' \<subseteq> set (k # order)" using d(6) by auto
    ultimately show ?thesis using d(2,3,5) by blast
  qed
qed simp

lemma issue_one_ok:
  assumes "cursors_inv X ops cs" and "issue_token X i \<notin> issue_token X ` set ops"
  obtains cs' where "issue_one X i cs = Some (Inr (issue_token X i), cs')" and "cursors_inv X (i # ops) cs'"
    and "hm_get (cs_by_token cs') (issue_token X i) = Some \<lparr>cu_device = is_device i, cu_session = is_session i,
          cu_workspace_id = is_workspace_id i, cu_host = is_host i, cu_expires = after (is_now i) CURSOR_TTL\<rparr>"
proof -
  let ?k = "issue_token X i"
  from assms(1) have inv: "distinct (cs_order cs)" "\<forall>k. k \<in> set (cs_order cs) \<longleftrightarrow> hm_get (cs_by_token cs) k \<noteq> None"
    and prov: "\<forall>k c. hm_get (cs_by_token cs) k = Some c \<longrightarrow> (\<exists>i \<in> set ops. issued_as X i k c)"
    by (auto simp: cursors_inv_def)
  from drop_old_ok [OF inv, of "is_now i"] obtain m order where
    d: "drop_old (is_now i) (cs_by_token cs) (cs_order cs) = Some (m, order)" "distinct order"
      "\<forall>k. k \<in> set order \<longleftrightarrow> hm_get m k \<noteq> None" "\<forall>k c. hm_get m k = Some c \<longrightarrow> hm_get (cs_by_token cs) k = Some c"
      "order = [] \<or> length order < CURSORS" by blast
  have new: "?k \<notin> set order"
  proof
    assume "?k \<in> set order"
    then obtain c where "hm_get m ?k = Some c" using d(3) by blast
    then obtain j where "j \<in> set ops" "issued_as X j ?k c" using d(4) prov by blast
    with assms(2) show False by (auto simp: issued_as_def)
  qed
  let ?cs = "\<lparr>cs_by_token = hm_insert ?k \<lparr>cu_device = is_device i, cu_session = is_session i,
      cu_workspace_id = is_workspace_id i, cu_host = is_host i, cu_expires = after (is_now i) CURSOR_TTL\<rparr> m,
      cs_order = order @ [?k]\<rparr>"
  have "issue_one X i cs = Some (Inr ?k, ?cs)"
    by (simp add: issue_one_def cursor_issue_def d(1) issue_token_def Let_def)
  moreover have "cursors_inv X (i # ops) ?cs"
    unfolding cursors_inv_def
  proof (intro conjI allI impI)
    show "\<exists>j \<in> set (i # ops). issued_as X j k c" if "hm_get (cs_by_token ?cs) k = Some c" for k c
    proof (cases "k = ?k")
      case True
      with that show ?thesis by (auto simp: issued_as_def)
    next
      case False
      with that d(4) prov show ?thesis by auto
    qed
  qed (use d new in \<open>auto simp: CURSORS_def\<close>)
  ultimately show thesis using that by simp
qed

lemma issue_all_ok:
  assumes "cursors_inv X ops cs" and "distinct (map (issue_token X) is)"
    and "issue_token X ` set is \<inter> issue_token X ` set ops = {}"
  shows "\<exists>cs'. issue_all X is cs = Some cs' \<and> cursors_inv X (rev is @ ops) cs'
     \<and> (is \<noteq> [] \<longrightarrow> hm_get (cs_by_token cs') (issue_token X (last is)) = Some \<lparr>cu_device = is_device (last is),
          cu_session = is_session (last is), cu_workspace_id = is_workspace_id (last is), cu_host = is_host (last is),
          cu_expires = after (is_now (last is)) CURSOR_TTL\<rparr>)"
  using assms
proof (induction "is" arbitrary: ops cs)
  case (Cons i "is")
  have "issue_token X i \<notin> issue_token X ` set ops" using Cons.prems(3) by auto
  from issue_one_ok [OF Cons.prems(1) this] obtain cs1 where
    c: "issue_one X i cs = Some (Inr (issue_token X i), cs1)" "cursors_inv X (i # ops) cs1"
      "hm_get (cs_by_token cs1) (issue_token X i) = Some \<lparr>cu_device = is_device i, cu_session = is_session i,
          cu_workspace_id = is_workspace_id i, cu_host = is_host i, cu_expires = after (is_now i) CURSOR_TTL\<rparr>" .
  have "issue_token X ` set is \<inter> issue_token X ` set (i # ops) = {}" using Cons.prems by auto
  from Cons.IH [OF c(2) _ this] Cons.prems(2) c show ?case by (cases "is") auto
qed simp

lemma cursors_inv_start: "cursors_inv X [] cursors_default"
  by (simp add: cursors_inv_def cursors_default_def)

text \<open>
  C17: Cursor tokens are capabilities. After any number of issued tokens (their random parts
  distinct) the table holds at most 512 and no panic has occurred; a token that opens a Host cursor
  was issued for it to the same device, session and workspace less than half an hour before; and
  the token issued last opens its cursor for that half hour.
\<close>

theorem cursor_capability:
  assumes "distinct (map (issue_token X) is)"
  shows "\<exists>cs. issue_all X is cursors_default = Some cs \<and> length (cs_order cs) \<le> 512
    \<and> (\<forall>device t session workspace_id token host.
          cursor_open cs device t session workspace_id token = Some host \<longrightarrow>
            (\<exists>i \<in> set is. token = issue_token X i \<and> device = is_device i \<and> session = is_session i
               \<and> workspace_id = is_workspace_id i \<and> host = is_host i \<and> t < after (is_now i) CURSOR_TTL))
    \<and> (\<forall>t. is \<noteq> [] \<and> t < after (is_now (last is)) CURSOR_TTL \<longrightarrow>
          cursor_open cs (is_device (last is)) t (is_session (last is)) (is_workspace_id (last is))
            (issue_token X (last is)) = Some (is_host (last is)))"
proof -
  from issue_all_ok [OF cursors_inv_start assms] obtain cs where
    cs: "issue_all X is cursors_default = Some cs" "cursors_inv X (rev is) cs"
      "is \<noteq> [] \<longrightarrow> hm_get (cs_by_token cs) (issue_token X (last is)) = Some \<lparr>cu_device = is_device (last is),
          cu_session = is_session (last is), cu_workspace_id = is_workspace_id (last is), cu_host = is_host (last is),
          cu_expires = after (is_now (last is)) CURSOR_TTL\<rparr>" by auto
  show ?thesis
  proof (intro exI conjI allI impI)
    show "issue_all X is cursors_default = Some cs" by (rule cs(1))
    show "length (cs_order cs) \<le> 512" using cs(2) by (simp add: cursors_inv_def CURSORS_def)
    fix device t session workspace_id token host
    assume o: "cursor_open cs device t session workspace_id token = Some host"
    then obtain c where c: "hm_get (cs_by_token cs) token = Some c"
      by (auto simp: cursor_open_def split: option.splits)
    then obtain i where "i \<in> set is" "issued_as X i token c"
      using cs(2) unfolding cursors_inv_def set_rev by blast
    with o c show "\<exists>i \<in> set is. token = issue_token X i \<and> device = is_device i \<and> session = is_session i
        \<and> workspace_id = is_workspace_id i \<and> host = is_host i \<and> t < after (is_now i) CURSOR_TTL"
      by (auto simp: cursor_open_def issued_as_def split: if_splits)
  next
    fix t
    assume "is \<noteq> [] \<and> t < after (is_now (last is)) CURSOR_TTL"
    with cs(3) show "cursor_open cs (is_device (last is)) t (is_session (last is)) (is_workspace_id (last is))
        (issue_token X (last is)) = Some (is_host (last is))" by (simp add: cursor_open_def)
  qed
qed

theorem cursor_capability_witness:
  "\<exists>cs. issue_all demo_ext
      [\<lparr>is_device = ''d'', is_now = 0, is_session = ''s'', is_workspace_id = ''w'', is_host = ''h'', is_random = [1]\<rparr>]
      cursors_default = Some cs \<and> cursor_open cs ''d'' 5 ''s'' ''w'' (demo_encode [1]) = Some ''h''"
  using cursor_capability [of demo_ext
      "[\<lparr>is_device = ''d'', is_now = 0, is_session = ''s'', is_workspace_id = ''w'', is_host = ''h'', is_random = [1]\<rparr>]"]
  by (fastforce simp: issue_token_def encode_def demo_ext_def after_def CURSOR_TTL_def from_secs_def)

section \<open>The mapping of Spaces\<close>

text \<open>A refused list of roots changes nothing.\<close>

lemma spaces_replace_refused: "spaces_replace roots sp = (False, sp') \<Longrightarrow> sp' = sp"
  by (auto simp: spaces_replace_def split: if_splits prod.splits)

end
