(* ===== verification/Gateway.thy ===== *)
theory Gateway
  imports Guard Pairing Webauthn Session Audit_Trail Push Git_Bridge
begin

text \<open>
  \<open>companion/src/gateway.rs\<close> and \<open>gateway_auth.rs\<close>: the gateway as one state, composed of the
  components of the other theories. Its handlers run the components in the order of the source: a
  handler that fails in the middle keeps what the components before the failure have changed.

  A handler reads the clock several times: \<open>nows k\<close> is its \<open>k\<close>-th reading in source order. Drawn
  secrets and challenges are arguments. The locks are taken one handler at a time here; the lock
  order the source documents (pairing, identity, ceremonies) is the order of the calls. Of the
  fields that belong to components outside the model, the Herdr port and job pools do not occur.
\<close>

section \<open>State\<close>

record gateway =
  gw_policy :: policy
  gw_pairings :: pairings
  gw_identity :: identity
  gw_rp_id :: string
  gw_rp :: relying_party
  gw_ceremonies :: ceremonies
  gw_audit :: audit_state
  gw_spaces :: spaces
  gw_push :: push

definition gw_events :: "gateway \<Rightarrow> event_sender" where
  "gw_events g = as_events (gw_audit g)"

definition set_gw_events :: "event_sender \<Rightarrow> gateway \<Rightarrow> gateway" where
  "set_gw_events es g = g\<lparr>gw_audit := set_events es (gw_audit g)\<rparr>"

text \<open>\<open>Gateway::new\<close>: the fields in the order of the struct, the first error ends it.\<close>

definition gateway_new ::
  "ext \<Rightarrow> webauthn_lib \<Rightarrow> (string \<Rightarrow> authority option) \<Rightarrow> init \<Rightarrow> nat \<Rightarrow> event_sender \<Rightarrow> (nat \<Rightarrow> timestamp)
     \<Rightarrow> bytes option \<Rightarrow> string + gateway" where
  "gateway_new X W A i instant es nows salt =
     (case guard_new X A (in_loopback i) instant instant of
        Inl e \<Rightarrow> Inl e
      | Inr _ \<Rightarrow>
          if \<not> is_absolute (in_herdr_binary i) then Inl ''invalid-herdr-binary''
          else if \<not> policy_valid (in_policy i) then Inl ''invalid-policy''
          else if po_enable_until (in_policy i) \<le> nows 0 then Inl ''policy-expired''
          else case identity_new X (in_devices i) (in_policy i) of
            Inl e \<Rightarrow> Inl e
          | Inr idt \<Rightarrow>
              (case relying_party_new W (lb_public_host (in_loopback i)) of
                 Inl e \<Rightarrow> Inl e
               | Inr rp \<Rightarrow>
                   (case spaces_new X (in_trust_store i) (in_session_allowlist i) (in_space_roots i) salt of
                      Inl e \<Rightarrow> Inl e
                    | Inr sp \<Rightarrow>
                        (case push_new X i of
                           Inl e \<Rightarrow> Inl e
                         | Inr pu \<Rightarrow>
                             Inr \<lparr>gw_policy = in_policy i,
                               gw_pairings = pairings_new (lb_public_host (in_loopback i))
                                 (lb_required_tailscale_login (in_loopback i)),
                               gw_identity = idt,
                               gw_rp_id = hd (split_on (CHR '':'') (lb_public_host (in_loopback i))),
                               gw_rp = rp,
                               gw_ceremonies = ceremonies_new (po_max_devices (in_policy i)),
                               gw_audit = \<lparr>as_events = es, as_deferred = deferred_default, as_live = [], as_next = 1\<rparr>,
                               gw_spaces = sp, gw_push = pu\<rparr>))))"

section \<open>Commands of the desktop\<close>

definition POLICY_EXPIRED :: failure where "POLICY_EXPIRED = (FORBIDDEN, ''Policy expired'')"

definition pairing_refused :: "pairing_command \<Rightarrow> identity \<Rightarrow> failure option" where
  "pairing_refused command idt =
     (case command of
        PairingCreate _ (Some did) \<Rightarrow>
          (case registration_target did idt of Inl f \<Rightarrow> Some f | Inr _ \<Rightarrow> None)
      | _ \<Rightarrow> None)"

definition run_pairing ::
  "ext \<Rightarrow> (string \<Rightarrow> timestamp) \<Rightarrow> timestamp \<Rightarrow> bytes option \<Rightarrow> bytes option \<Rightarrow> pairing_command \<Rightarrow> gateway
     \<Rightarrow> (failure + admin_result) \<times> gateway" where
  "run_pairing X mnows now rid rsecret command g =
     (case pairing_refused command (gw_identity g) of
        Some f \<Rightarrow> (Inl f, g)
      | None \<Rightarrow>
          (case pairings_command X mnows now rid rsecret command (gw_pairings g) (gw_events g) of
             (r, ps, es) \<Rightarrow> (r, set_gw_events es (g\<lparr>gw_pairings := ps\<rparr>))))"

definition revoked_device :: "device_command \<Rightarrow> string option" where
  "revoked_device command = (case command of DeviceRevoke did \<Rightarrow> Some did | _ \<Rightarrow> None)"

definition run_device :: "ext \<Rightarrow> device_command \<Rightarrow> gateway \<Rightarrow> (failure + admin_result) \<times> gateway" where
  "run_device X command g =
     (case device_command_run X command (gw_identity g) (gw_events g) of
        (r, idt, es) \<Rightarrow>
          (let g1 = set_gw_events es (g\<lparr>gw_identity := idt\<rparr>)
           in case r of
                Inl f \<Rightarrow> (Inl f, g1)
              | Inr result \<Rightarrow>
                  (case revoked_device command of
                     None \<Rightarrow> (Inr result, g1)
                   | Some did \<Rightarrow> (Inr result, g1\<lparr>gw_push := push_remove did (gw_push g1)\<rparr>))))"

definition known_device :: "identity \<Rightarrow> string \<Rightarrow> bool" where
  "known_device idt did \<longleftrightarrow> hm_get (id_devices idt) did \<noteq> None"

definition gateway_command ::
  "ext \<Rightarrow> timestamp \<Rightarrow> (string \<Rightarrow> timestamp) \<Rightarrow> timestamp \<Rightarrow> bytes option \<Rightarrow> bytes option \<Rightarrow> command_body \<Rightarrow> gateway
     \<Rightarrow> (failure + admin_result) \<times> gateway" where
  "gateway_command X start mnows now rid rsecret command g =
     (if po_enable_until (gw_policy g) \<le> start then (Inl POLICY_EXPIRED, g)
      else case command of
        Pairing c \<Rightarrow> run_pairing X mnows now rid rsecret c g
      | DeviceCmd c \<Rightarrow> run_device X c g
      | Spaces roots \<Rightarrow>
          (case spaces_replace roots (gw_spaces g) of
             (ok, sp) \<Rightarrow>
               (if ok then Inr Applied else Inl (BAD_REQUEST, ''Invalid spaces''), g\<lparr>gw_spaces := sp\<rparr>))
      | PushDevices ds \<Rightarrow>
          (case push_replace X ds (known_device (gw_identity g)) (gw_push g) of
             (ok, pu) \<Rightarrow>
               (if ok then Inr Applied else Inl (BAD_REQUEST, ''Invalid push devices''), g\<lparr>gw_push := pu\<rparr>))
      | PushAck request st \<Rightarrow> (Inr Applied, g\<lparr>gw_push := push_ack request st (gw_push g)\<rparr>)
      | PeersList request \<Rightarrow>
          (Inr (Peers request (peer_list (gw_identity g)) (live_list (gw_audit g))), g)
      | _ \<Rightarrow> (Inl (BAD_REQUEST, ''Invalid admin command''), g))"

definition gateway_maintenance ::
  "(string \<Rightarrow> timestamp) \<Rightarrow> timestamp \<Rightarrow> timestamp \<Rightarrow> gateway \<Rightarrow> gateway" where
  "gateway_maintenance mnows t1 t2 g =
     (let g1 = g\<lparr>gw_audit := audit_flush (gw_audit g)\<rparr>
      in case pairings_maintenance mnows (gw_pairings g1) (gw_events g1) of
           (ps, es) \<Rightarrow>
             (let g2 = set_gw_events es (g1\<lparr>gw_pairings := ps\<rparr>);
                  g3 = g2\<lparr>gw_ceremonies := ceremonies_purge t1 (gw_ceremonies g2)\<rparr>
              in case identity_maintenance t2 (gw_identity g3) (gw_events g3) of
                   (idt, es') \<Rightarrow> set_gw_events es' (g3\<lparr>gw_identity := idt\<rparr>)))"

section \<open>Authorization\<close>

definition gateway_authenticate :: "ext \<Rightarrow> headers \<Rightarrow> timestamp \<Rightarrow> gateway \<Rightarrow> auth_context option \<times> gateway" where
  "gateway_authenticate X hs now g =
     (case authenticate X hs (gw_rp_id g) now (gw_identity g) of
        (r, idt) \<Rightarrow> (r, g\<lparr>gw_identity := idt\<rparr>))"

definition DENIED :: failure where "DENIED = (UNAUTHORIZED, ''Authentication required'')"
definition ELEVATION_REQUIRED :: failure where "ELEVATION_REQUIRED = (FORBIDDEN, ''Elevation required'')"

text \<open>\<open>with_authorized\<close>: the write runs under the identity lock, on the identity table and \<open>'s\<close>.\<close>

definition with_authorized ::
  "string \<Rightarrow> auth_context \<Rightarrow> scope \<Rightarrow> (nat \<Rightarrow> timestamp) \<Rightarrow> (identity \<Rightarrow> 's \<Rightarrow> 'a \<times> identity \<times> 's) \<Rightarrow> identity \<Rightarrow> 's
     \<Rightarrow> (failure + 'a) \<times> identity \<times> 's" where
  "with_authorized rp ctx scope nows write idt s =
     (if cx_rp_id ctx \<noteq> rp then (Inl DENIED, idt, s)
      else case revalidate ctx View (nows 0) idt of
        (False, idt) \<Rightarrow> (Inl DENIED, idt, s)
      | (True, idt) \<Rightarrow>
          if scope \<noteq> View \<and> \<not> can_elevate ctx scope (nows 1) idt then (Inl SCOPE_NOT_GRANTED, idt, s)
          else (case revalidate ctx scope (nows 2) idt of
                  (False, idt) \<Rightarrow> (Inl ELEVATION_REQUIRED, idt, s)
                | (True, idt) \<Rightarrow> (case write idt s of (x, idt, s) \<Rightarrow> (Inr x, idt, s))))"

definition gateway_logout :: "auth_context \<Rightarrow> (nat \<Rightarrow> timestamp) \<Rightarrow> gateway \<Rightarrow> (failure + unit) \<times> gateway" where
  "gateway_logout ctx nows g =
     (case with_authorized (gw_rp_id g) ctx View nows
             (\<lambda>idt s. ((), session_logout (cx_session_id ctx) idt, s)) (gw_identity g) () of
        (r, idt, _) \<Rightarrow> (r, g\<lparr>gw_identity := idt\<rparr>))"

section \<open>Ceremonies\<close>

text \<open>The informational outcome: a full queue drops it.\<close>

definition outcome :: "string \<Rightarrow> bool \<Rightarrow> string option \<Rightarrow> gateway \<Rightarrow> gateway" where
  "outcome kind success device g =
     set_gw_events (snd (try_emit (gw_events g)
       (AuthOutcome kind (if success then ''succeeded'' else ''rejected'') device))) g"

definition is_ok :: "'e + 'a \<Rightarrow> bool" where
  "is_ok r = (case r of Inl _ \<Rightarrow> False | Inr _ \<Rightarrow> True)"

definition ok_value :: "'e + 'a \<Rightarrow> 'a option" where
  "ok_value r = (case r of Inl _ \<Rightarrow> None | Inr x \<Rightarrow> Some x)"

definition registration_identity ::
  "ext \<Rightarrow> registration \<Rightarrow> bytes option \<Rightarrow> identity \<Rightarrow> failure + string \<times> credential list" where
  "registration_identity X pairing random idt =
     (case rg_add_to_device pairing of
        Some target \<Rightarrow>
          (case registration_target target idt of Inl f \<Rightarrow> Inl f | Inr d \<Rightarrow> Inr (target, dv_credentials d))
      | None \<Rightarrow> (case random of None \<Rightarrow> Inl UNAVAILABLE | Some r \<Rightarrow> Inr (encode X r, [])))"

definition registration_begin ::
  "ext \<Rightarrow> webauthn_lib \<Rightarrow> registration \<Rightarrow> bytes option \<Rightarrow> challenge \<Rightarrow> timestamp \<Rightarrow> gateway
     \<Rightarrow> (failure + json) \<times> ceremonies" where
  "registration_begin X W pairing random ch now g =
     (case registration_identity X pairing random (gw_identity g) of
        Inl f \<Rightarrow> (Inl f, gw_ceremonies g)
      | Inr (did, existing) \<Rightarrow>
          (case rp_registration X W (gw_rp g) did (rg_device_label pairing) existing
                  (rg_add_to_device pairing = None) ch of
             Inl f \<Rightarrow> (Inl f, gw_ceremonies g)
           | Inr (state, options) \<Rightarrow>
               (case ceremonies_insert \<lparr>cm_until = rg_deadline pairing,
                       cm_kind = CRegistration pairing did state\<rparr> now (gw_ceremonies g) of
                  (Inl f, ce) \<Rightarrow> (Inl f, ce)
                | (Inr _, ce) \<Rightarrow> (Inr options, ce))))"

definition gateway_registration_options ::
  "ext \<Rightarrow> webauthn_lib \<Rightarrow> registration_options \<Rightarrow> (nat \<Rightarrow> timestamp) \<Rightarrow> bytes option \<Rightarrow> challenge \<Rightarrow> gateway
     \<Rightarrow> (failure + json) \<times> gateway" where
  "gateway_registration_options X W req nows random ch g =
     (case consume_ticket X (go_pairing_id req) (go_registration_ticket req) (nows 0) (nows 1) (nows 2)
             (gw_pairings g) (gw_events g) of
        (Inl f, ps, es) \<Rightarrow> (Inl f, set_gw_events es (g\<lparr>gw_pairings := ps\<rparr>))
      | (Inr pairing, ps, es) \<Rightarrow>
          (let g1 = set_gw_events es (g\<lparr>gw_pairings := ps\<rparr>)
           in case registration_begin X W pairing random ch (nows 3) g1 of
                (Inr options, ce) \<Rightarrow> (Inr options, g1\<lparr>gw_ceremonies := ce\<rparr>)
              | (Inl f, ce) \<Rightarrow>
                  (let g2 = g1\<lparr>gw_ceremonies := ce\<rparr>
                   in case retry_registration pairing (nows 4) (gw_pairings g2) (gw_events g2) of
                        (Inl f2, ps, es) \<Rightarrow> (Inl f2, set_gw_events es (g2\<lparr>gw_pairings := ps\<rparr>))
                      | (Inr _, ps, es) \<Rightarrow> (Inl f, set_gw_events es (g2\<lparr>gw_pairings := ps\<rparr>)))))"

text \<open>The commit of \<open>Pairings::finish\<close>: the identity table and the event queue.\<close>

definition registration_commit ::
  "ext \<Rightarrow> registration \<Rightarrow> verified_registration \<Rightarrow> (nat \<Rightarrow> timestamp) \<Rightarrow> identity \<times> event_sender
     \<Rightarrow> (failure + string) \<times> identity \<times> event_sender" where
  "registration_commit X pairing verified nows t =
     (case register_verified X pairing verified (nows 2) (nows 3) (nows 4) (fst t) (snd t) of
        (r, idt, es) \<Rightarrow> (r, idt, es))"

definition registration_run ::
  "ext \<Rightarrow> webauthn_lib \<Rightarrow> registration_finish \<Rightarrow> (nat \<Rightarrow> timestamp) \<Rightarrow> gateway \<Rightarrow> (failure + string) \<times> gateway" where
  "registration_run X W req nows g =
     (case take_registration W (gf_pairing_id req) (gf_credential req) (nows 0) (gw_ceremonies g) of
        (Inl f, ce) \<Rightarrow> (Inl f, g\<lparr>gw_ceremonies := ce\<rparr>)
      | (Inr c, ce) \<Rightarrow>
          (let g1 = g\<lparr>gw_ceremonies := ce\<rparr>
           in case cm_kind c of
                CRegistration pairing did state \<Rightarrow>
                  (case verify_registration X W (gw_rp g1) state (gf_credential req) (po_passkey_binding (gw_policy g1)) of
                     Inl f \<Rightarrow> (Inl f, g1)
                   | Inr verified \<Rightarrow>
                       (case finish pairing (nows 1) (registration_commit X pairing verified nows) (gw_pairings g1)
                               (gw_identity g1, gw_events g1) of
                          (r, ps, idt, es) \<Rightarrow> (r, set_gw_events es (g1\<lparr>gw_pairings := ps, gw_identity := idt\<rparr>))))
              | _ \<Rightarrow> (Inl REJECTED, g1)))"

definition gateway_registration_finish ::
  "ext \<Rightarrow> webauthn_lib \<Rightarrow> registration_finish \<Rightarrow> (nat \<Rightarrow> timestamp) \<Rightarrow> gateway \<Rightarrow> (failure + string) \<times> gateway" where
  "gateway_registration_finish X W req nows g =
     (case registration_run X W req nows g of
        (r, g1) \<Rightarrow> (r, outcome ''registration'' (is_ok r) (ok_value r) g1))"

definition CEREMONY_TTL :: duration where "CEREMONY_TTL = from_secs 120"

definition login_options ::
  "webauthn_lib \<Rightarrow> (nat \<Rightarrow> timestamp) \<Rightarrow> challenge \<Rightarrow> gateway \<Rightarrow> (failure + json) \<times> gateway" where
  "login_options W nows ch g =
     (case rp_login W (gw_rp g) ch of
        Inl f \<Rightarrow> (Inl f, g)
      | Inr (state, options) \<Rightarrow>
          (case ceremonies_insert \<lparr>cm_until = min (after (nows 0) CEREMONY_TTL) (po_enable_until (gw_policy g)),
                  cm_kind = CLogin state\<rparr> (nows 1) (gw_ceremonies g) of
             (Inl f, ce) \<Rightarrow> (Inl f, g\<lparr>gw_ceremonies := ce\<rparr>)
           | (Inr _, ce) \<Rightarrow> (Inr options, g\<lparr>gw_ceremonies := ce\<rparr>)))"

definition login_run ::
  "ext \<Rightarrow> webauthn_lib \<Rightarrow> json \<Rightarrow> (nat \<Rightarrow> timestamp) \<Rightarrow> bytes option \<Rightarrow> bytes option \<Rightarrow> gateway
     \<Rightarrow> (failure + assertion_result) \<times> gateway" where
  "login_run X W credential nows rbinding rid g =
     (case take_assertion W credential None (nows 0) (gw_ceremonies g) of
        (r, ce) \<Rightarrow>
          (let g1 = g\<lparr>gw_ceremonies := ce\<rparr>
           in case r of
                Inl _ \<Rightarrow> (Inl REJECTED, g1)
              | Inr c \<Rightarrow>
                  (case cm_kind c of
                     CLogin state \<Rightarrow>
                       (case finish_assertion X W (gw_rp g1) (LoginState state) credential None (nows 1) (nows 2) (nows 3)
                               (nows 4) rbinding rid (gw_identity g1) (gw_events g1) of
                          (r, idt, es) \<Rightarrow> (r, set_gw_events es (g1\<lparr>gw_identity := idt\<rparr>)))
                   | _ \<Rightarrow> (Inl REJECTED, g1))))"

definition logged_in_device :: "failure + assertion_result \<Rightarrow> string option" where
  "logged_in_device r = (case r of Inr (LoggedIn _ _ did) \<Rightarrow> Some did | _ \<Rightarrow> None)"

definition login_finish ::
  "ext \<Rightarrow> webauthn_lib \<Rightarrow> json \<Rightarrow> (nat \<Rightarrow> timestamp) \<Rightarrow> bytes option \<Rightarrow> bytes option \<Rightarrow> gateway
     \<Rightarrow> (failure + assertion_result) \<times> gateway" where
  "login_finish X W credential nows rbinding rid g =
     (case login_run X W credential nows rbinding rid g of
        (r, g1) \<Rightarrow> (r, outcome ''login'' (is_ok r) (logged_in_device r) g1))"

definition elevation_options ::
  "ext \<Rightarrow> webauthn_lib \<Rightarrow> auth_context \<Rightarrow> scope \<Rightarrow> (nat \<Rightarrow> timestamp) \<Rightarrow> challenge \<Rightarrow> gateway
     \<Rightarrow> (failure + json) \<times> gateway" where
  "elevation_options X W ctx scope nows ch g =
     (if cx_rp_id ctx \<noteq> gw_rp_id g then (Inl DENIED, g)
      else case revalidate ctx View (nows 0) (gw_identity g) of
        (False, idt) \<Rightarrow> (Inl DENIED, g\<lparr>gw_identity := idt\<rparr>)
      | (True, idt) \<Rightarrow>
          if \<not> can_elevate ctx scope (nows 1) idt then (Inl SCOPE_NOT_GRANTED, g\<lparr>gw_identity := idt\<rparr>)
          else (case hm_get (id_devices idt) (cx_device_id ctx) of
                  None \<Rightarrow> (Inl REJECTED, g\<lparr>gw_identity := idt\<rparr>)
                | Some d \<Rightarrow>
                    (case rp_elevation X W (gw_rp g) (dv_credentials d) (po_passkey_binding (gw_policy g)) scope ch of
                       Inl f \<Rightarrow> (Inl f, g\<lparr>gw_identity := idt\<rparr>)
                     | Inr (state, options) \<Rightarrow>
                         (case active_session_ids (nows 2) idt of
                            (active_ids, idt2) \<Rightarrow>
                              (case ceremonies_insert
                                  \<lparr>cm_until = min (after (nows 3) CEREMONY_TTL) (po_enable_until (gw_policy g)),
                                   cm_kind = CElevation (cx_session_id ctx) scope state\<rparr> (nows 4)
                                  (retain_sessions active_ids (gw_ceremonies g)) of
                                 (Inl f, ce) \<Rightarrow> (Inl f, g\<lparr>gw_identity := idt2, gw_ceremonies := ce\<rparr>)
                               | (Inr _, ce) \<Rightarrow> (Inr options, g\<lparr>gw_identity := idt2, gw_ceremonies := ce\<rparr>))))))"

text \<open>The closure \<open>elevation_finish\<close> runs under the authorization.\<close>

definition elevation_write ::
  "ext \<Rightarrow> webauthn_lib \<Rightarrow> relying_party \<Rightarrow> auth_context \<Rightarrow> scope \<Rightarrow> json \<Rightarrow> failure + ceremony \<Rightarrow> (nat \<Rightarrow> timestamp)
     \<Rightarrow> bytes option \<Rightarrow> bytes option \<Rightarrow> identity \<Rightarrow> event_sender \<Rightarrow> (failure + timestamp) \<times> identity \<times> event_sender" where
  "elevation_write X W rp ctx scope credential taken nows rbinding rid idt es =
     (if \<not> can_elevate ctx scope (nows 4) idt then (Inl SCOPE_NOT_GRANTED, idt, es)
      else case map_option cm_kind (ok_value taken) of
        Some (CElevation _ _ state) \<Rightarrow>
          (case finish_assertion X W rp (ElevationState state) credential (Some (ctx, scope)) (nows 5) (nows 6) (nows 7)
                  (nows 8) rbinding rid idt es of
             (Inr (Elevated until), idt, es) \<Rightarrow> (Inr until, idt, es)
           | (Inr _, idt, es) \<Rightarrow> (Inl REJECTED, idt, es)
           | (Inl f, idt, es) \<Rightarrow> (Inl f, idt, es))
      | _ \<Rightarrow> (Inl REJECTED, idt, es))"

definition flatten_result :: "failure + (failure + 'a) \<Rightarrow> failure + 'a" where
  "flatten_result r = (case r of Inl f \<Rightarrow> Inl f | Inr x \<Rightarrow> x)"

definition elevation_run ::
  "ext \<Rightarrow> webauthn_lib \<Rightarrow> auth_context \<Rightarrow> scope \<Rightarrow> json \<Rightarrow> (nat \<Rightarrow> timestamp) \<Rightarrow> bytes option \<Rightarrow> bytes option \<Rightarrow> gateway
     \<Rightarrow> (failure + timestamp) \<times> gateway" where
  "elevation_run X W ctx scope credential nows rbinding rid g =
     (case take_assertion W credential (Some (cx_session_id ctx, scope)) (nows 0) (gw_ceremonies g) of
        (taken, ce) \<Rightarrow>
          (case with_authorized (gw_rp_id g) ctx View (\<lambda>k. nows (k + 1))
                  (elevation_write X W (gw_rp g) ctx scope credential taken nows rbinding rid)
                  (gw_identity g) (gw_events g) of
             (r, idt, es) \<Rightarrow>
               (flatten_result r, set_gw_events es (g\<lparr>gw_ceremonies := ce, gw_identity := idt\<rparr>))))"

definition elevation_finish ::
  "ext \<Rightarrow> webauthn_lib \<Rightarrow> auth_context \<Rightarrow> scope \<Rightarrow> json \<Rightarrow> (nat \<Rightarrow> timestamp) \<Rightarrow> bytes option \<Rightarrow> bytes option \<Rightarrow> gateway
     \<Rightarrow> (failure + timestamp) \<times> gateway" where
  "elevation_finish X W ctx scope credential nows rbinding rid g =
     (case elevation_run X W ctx scope credential nows rbinding rid g of
        (r, g1) \<Rightarrow> (r, outcome ''elevation'' (is_ok r) (if is_ok r then Some (cx_device_id ctx) else None) g1))"

end
