(* ===== verification/Gateway_Props.thy ===== *)
theory Gateway_Props
  imports Gateway Session_Security Session_Replica Webauthn_Props
begin

text \<open>
  The composition: in every state the gateway can reach, the invariants of the identity table and of
  the running ceremonies hold together, the two agree on their limits, and only known devices are
  push targets. From it follow properties no component has alone: an elevation is never refused for
  want of room, and a finished elevation joins the ceremony, the session and the device.
\<close>

section \<open>What identity steps keep\<close>

text \<open>Every step but a revocation keeps the policy and the known devices.\<close>

definition keeps :: "identity \<Rightarrow> identity \<Rightarrow> bool" where
  "keeps idt idt' \<longleftrightarrow> id_policy idt' = id_policy idt
     \<and> (\<forall>did. known_device idt did \<longrightarrow> known_device idt' did)"

lemma keeps_refl [simp]: "keeps idt idt"
  by (simp add: keeps_def)

lemma keeps_trans: "keeps a b \<Longrightarrow> keeps b c \<Longrightarrow> keeps a c"
  by (simp add: keeps_def)

lemma keeps_same: "id_policy idt' = id_policy idt \<Longrightarrow> id_devices idt' = id_devices idt \<Longrightarrow> keeps idt idt'"
  by (simp add: keeps_def known_device_def)

lemma keeps_put:
  "id_policy idt' = id_policy idt \<Longrightarrow> id_devices idt' = hm_insert did d (id_devices idt) \<Longrightarrow> keeps idt idt'"
  by (simp add: keeps_def known_device_def)

lemma keeps_drop: "keeps idt (drop_sessions P idt)"
  by (rule keeps_same) simp_all

lemma keeps_validate: "validate sid rp scope now idt = (r, idt') \<Longrightarrow> keeps idt idt'"
  by (erule validate_cases) (auto simp: invalidate_is_drop keeps_drop intro: keeps_put)

lemma keeps_revalidate: "revalidate ctx scope now idt = (r, idt') \<Longrightarrow> keeps idt idt'"
  by (auto simp: revalidate_def split: option.splits if_splits intro: keeps_validate)

lemma keeps_authenticate: "authenticate X hs rp now idt = (r, idt') \<Longrightarrow> keeps idt idt'"
  by (auto simp: authenticate_def split: option.splits if_splits list.splits prod.splits bool.splits intro: keeps_validate)

lemma keeps_elevate: "elevate ctx scope now0 now idt = (r, idt') \<Longrightarrow> keeps idt idt'"
proof (erule elevate_cases)
  fix idt1 s d cap
  assume "revalidate ctx View now0 idt = (True, idt1)"
    and "idt' = idt1\<lparr>id_sessions := hm_insert (cx_session_id ctx) (set_elevation scope (elevation_until idt1 s cap now) now s)
                       (id_sessions idt1)\<rparr>"
  then show "keeps idt idt'" using keeps_trans [OF keeps_revalidate keeps_same] by simp
qed (auto intro: keeps_revalidate)

lemma keeps_notify: "notify_snapshot did idt es = (idt', es') \<Longrightarrow> keeps idt idt'"
  using notify_snapshot_sel by (intro keeps_same) auto

lemma keeps_notify_all: "notify_all dids idt es = (idt', es') \<Longrightarrow> keeps idt idt'"
proof (induction dids arbitrary: idt es)
  case (Cons did dids)
  obtain idt1 es1 where n: "notify_snapshot did idt es = (idt1, es1)" by (cases "notify_snapshot did idt es")
  with Cons show ?case using keeps_trans [OF keeps_notify [OF n]] by simp
qed simp

lemma keeps_purge: "hm_wf (id_sessions idt) \<Longrightarrow> keeps idt (purge_expired now idt)"
  by (simp add: purge_drop keeps_drop)

lemma keeps_maintenance:
  assumes "identity_maintenance now idt es = (idt', es')" and "hm_wf (id_sessions idt)"
  shows "keeps idt idt'"
proof -
  let ?p = "purge_expired now idt"
  obtain idt1 es1 where n: "notify_all (id_dirty_devices ?p) (?p\<lparr>id_dirty_devices := []\<rparr>) es = (idt1, es1)"
    by (cases "notify_all (id_dirty_devices ?p) (?p\<lparr>id_dirty_devices := []\<rparr>) es")
  have "keeps idt (?p\<lparr>id_dirty_devices := []\<rparr>)"
    by (rule keeps_trans [OF keeps_purge [OF assms(2)]]) (rule keeps_same, simp_all)
  then have "keeps idt idt1" using keeps_notify_all [OF n] keeps_trans by blast
  moreover have "keeps idt1 idt'"
    using assms(1) n by (auto simp: identity_maintenance_def Let_def split: prod.splits intro: keeps_same)
  ultimately show ?thesis by (rule keeps_trans)
qed

lemma keeps_failed: "assertion_failed did rollback idt es = (idt', es') \<Longrightarrow> keeps idt idt'"
proof (erule assertion_failed_cases)
  fix d n
  assume "notify_snapshot did (lock_device did d (idt\<lparr>id_failures := hm_insert did n (id_failures idt)\<rparr>)) es = (idt', es')"
  note keeps_notify [OF this]
  moreover have "keeps idt (lock_device did d (idt\<lparr>id_failures := hm_insert did n (id_failures idt)\<rparr>))"
    by (rule keeps_put) (simp_all add: lock_device_def invalidate_device_def fold_invalidate)
  ultimately show "keeps idt idt'" by (rule keeps_trans [rotated])
qed (auto intro: keeps_same)

lemma keeps_verified:
  assumes "assertion_verified did cid rp va now idt es = (idt', es')" and "hm_get (id_devices idt) did = Some d"
  shows "keeps idt idt'"
  using assms(1) unfolding assertion_verified_run [OF assms(2)]
  by (rule keeps_trans [OF keeps_put keeps_notify, rotated 2]) simp_all

lemma keeps_issue:
  "issue_session X did rp now1 now2 now3 rb rid idt = (r, idt') \<Longrightarrow> hm_wf (id_sessions idt) \<Longrightarrow> keeps idt idt'"
  by (erule issue_session_cases) (auto intro: keeps_drop keeps_same)

lemma keeps_finish:
  assumes "finish_assertion X W rp state response ctx now0 now1 now2 now3 rb rid idt es = (r, idt', es')"
    and inv: "identity_inv X idt"
  shows "keeps idt idt'"
  using assms(1)
proof (cases rule: finish_assertion_cases)
  case (failed did e)
  then show ?thesis using keeps_failed by blast
next
  case (elevated did c scope va cid idt1 ro)
  obtain d where "hm_get (id_devices idt) did = Some d" using elevated(3) by (rule assertion_check_Inr)
  from keeps_trans [OF keeps_verified [OF elevated(5) this] keeps_elevate [OF elevated(6)]] show ?thesis .
next
  case (logged did va cid idt1 ri)
  obtain d where "hm_get (id_devices idt) did = Some d" using logged(3) by (rule assertion_check_Inr)
  note k = keeps_verified [OF logged(5) this]
  have "identity_inv X idt1" using checked_verified_inv [OF logged(3,4,5) inv] by metis
  from keeps_trans [OF k keeps_issue [OF logged(6) inv_wf(1) [OF this]]] show ?thesis .
qed simp

lemma keeps_register:
  "register_verified X pairing v now1 now2 now3 idt es = (r, idt', es') \<Longrightarrow> keeps idt idt'"
  by (erule register_cases) (auto simp: invalidate_device_def fold_invalidate intro: keeps_put)

lemma command_keeps:
  assumes "device_command_run X command idt es = (r, idt', es')"
  shows "id_policy idt' = id_policy idt"
    and "known_device idt did \<Longrightarrow> known_device idt' did \<or> (\<exists>x. r = Inr x) \<and> revoked_device command = Some did"
proof -
  have get: "hm_get (id_devices (commit_change command did' snapshot idt)) k
      = (if k = did' then snapshot else hm_get (id_devices idt) k)" for did' snapshot k
    by (simp add: commit_devices put_device_get)
  have rev: "snapshot = None \<Longrightarrow> revoked_device command = Some (command_device command)"
    if "device_change command d = Inr (name, widen, snapshot)" for d name widen snapshot
    using that by (cases command) (auto simp: device_change_def Let_def revoked_device_def command_device_def split: option.splits if_splits)
  have pol: "id_policy (commit_change command did' snapshot idt) = id_policy idt" for did' snapshot
    by (simp add: commit_change_def invalidate_device_def fold_invalidate)
  show "id_policy idt' = id_policy idt" using assms by (cases rule: device_command_cases) (auto simp: pol Let_def)
  show "known_device idt did \<Longrightarrow> known_device idt' did \<or> (\<exists>x. r = Inr x) \<and> revoked_device command = Some did"
    using assms by (cases rule: device_command_cases) (auto simp: known_device_def get Let_def dest: rev)
qed

section \<open>The joint invariant\<close>

text \<open>
  A step of the identity table, as the rest of the gateway sees it: the invariant of the table, the
  policy and the known devices are kept.
\<close>

definition safe :: "ext \<Rightarrow> identity \<Rightarrow> identity \<Rightarrow> bool" where
  "safe X idt idt' \<longleftrightarrow> (identity_inv X idt \<longrightarrow> identity_inv X idt' \<and> keeps idt idt')"

definition no_new_session :: "identity \<Rightarrow> identity \<Rightarrow> bool" where
  "no_new_session idt idt' \<longleftrightarrow> (\<forall>k. hm_get (id_sessions idt) k = None \<longrightarrow> hm_get (id_sessions idt') k = None)"

lemma safe_refl [simp]: "safe X idt idt"
  by (simp add: safe_def)

lemma safe_trans: "safe X a b \<Longrightarrow> safe X b c \<Longrightarrow> safe X a c"
  by (auto simp: safe_def intro: keeps_trans)

lemma no_new_trans: "no_new_session a b \<Longrightarrow> no_new_session b c \<Longrightarrow> no_new_session a c"
  by (simp add: no_new_session_def)

lemma safe_validate: "validate sid rp scope now idt = (r, idt') \<Longrightarrow> safe X idt idt'"
  by (auto simp: safe_def intro: validate_inv keeps_validate)

lemma safe_revalidate: "revalidate ctx scope now idt = (r, idt') \<Longrightarrow> safe X idt idt'"
  by (auto simp: safe_def intro: revalidate_inv keeps_revalidate)

lemma safe_authenticate: "authenticate X hs rp now idt = (r, idt') \<Longrightarrow> safe X idt idt'"
  by (auto simp: safe_def intro: authenticate_inv keeps_authenticate)

lemma safe_maintenance: "identity_maintenance now idt es = (idt', es') \<Longrightarrow> safe X idt idt'"
  by (auto simp: safe_def intro: maintenance_inv keeps_maintenance dest: inv_wf)

lemma safe_purge: "safe X idt (purge_expired now idt)"
  by (auto simp: safe_def intro: purge_inv keeps_purge dest: inv_wf)

lemma safe_logout: "safe X idt (session_logout sid idt)"
  by (auto simp: safe_def session_logout_def invalidate_is_drop intro: drop_inv keeps_drop)

lemma safe_unregister: "safe X idt (unregister_peer pid idt)"
  by (auto simp: safe_def intro: unregister_inv) (simp add: unregister_peer_def keeps_same)

lemma safe_register:
  "register_verified X pairing v now1 now2 now3 idt es = (r, idt', es') \<Longrightarrow> safe X idt idt'"
  by (auto simp: safe_def intro: register_inv keeps_register)

definition new_id :: "bytes option \<Rightarrow> identity \<Rightarrow> bool" where
  "new_id rid idt \<longleftrightarrow> (case rid of None \<Rightarrow> True | Some sid \<Rightarrow> hm_get (id_sessions idt) sid = None)"

lemma new_id_mono: "new_id rid idt \<Longrightarrow> no_new_session idt idt' \<Longrightarrow> new_id rid idt'"
  by (auto simp: new_id_def no_new_session_def split: option.splits)

lemma safe_finish:
  "finish_assertion X W rp state response ctx now0 now1 now2 now3 rb rid idt es = (r, idt', es') \<Longrightarrow> new_id rid idt \<Longrightarrow> safe X idt idt'"
  unfolding safe_def new_id_def by (blast intro: finish_assertion_inv keeps_finish)

lemma safe_peer:
  "revalidate ctx scope now idt = (True, idt1) \<Longrightarrow> register_peer ctx idt1 = (r, idt') \<Longrightarrow> safe X idt1 idt'"
  unfolding safe_def
proof (intro impI conjI)
  assume a: "revalidate ctx scope now idt = (True, idt1)" "register_peer ctx idt1 = (r, idt')" "identity_inv X idt1"
  obtain s where s: "hm_get (id_sessions idt1) (cx_session_id ctx) = Some s" "se_device_id s = cx_device_id ctx"
    using revalidated_session [OF a(1)] by blast
  show "identity_inv X idt'" by (rule register_peer_inv [OF a(2,3) s])
  show "keeps idt1 idt'" using a(2) by (cases rule: register_peer_cases) (auto intro: keeps_same)
qed

lemma no_new_refl [simp]: "no_new_session idt idt"
  by (simp add: no_new_session_def)

lemma no_new_validate: "validate sid rp scope now idt = (r, idt') \<Longrightarrow> no_new_session idt idt'"
  by (erule validate_cases) (auto simp: no_new_session_def invalidate_is_drop get_filter_key [of "\<lambda>k. k = sid"])

lemma no_new_revalidate: "revalidate ctx scope now idt = (r, idt') \<Longrightarrow> no_new_session idt idt'"
  by (auto simp: revalidate_def split: option.splits if_splits intro: no_new_validate)

lemma with_authorized_cases:
  assumes "with_authorized rp ctx scope nows write idt s = (r, idt', s')"
  obtains (refused) f where "r = Inl f" "safe X idt idt'" "s' = s"
    | (ran) idt0 idt1 x where "r = Inr x" "cx_rp_id ctx = rp" "revalidate ctx scope (nows 2) idt0 = (True, idt1)"
        "safe X idt idt1" "no_new_session idt idt1" "write idt1 s = (x, idt', s')"
proof -
  obtain b1 i1 where r1: "revalidate ctx View (nows 0) idt = (b1, i1)" by (cases "revalidate ctx View (nows 0) idt")
  obtain b2 i2 where r2: "revalidate ctx scope (nows 2) i1 = (b2, i2)" by (cases "revalidate ctx scope (nows 2) i1")
  have s: "safe X idt i1" "safe X idt i2" "no_new_session idt i2"
    using safe_revalidate [OF r1] safe_revalidate [OF r2] no_new_revalidate [OF r1] no_new_revalidate [OF r2]
    by (blast intro: safe_trans no_new_trans)+
  show ?thesis
  proof (cases "cx_rp_id ctx = rp \<and> b1 \<and> \<not> (scope \<noteq> View \<and> \<not> can_elevate ctx scope (nows 1) i1) \<and> b2")
    case True
    obtain x i3 s3 where w: "write i2 s = (x, i3, s3)" by (cases "write i2 s")
    show ?thesis by (rule ran [of x i1 i2]) (use assms True r1 r2 s w in \<open>auto simp: with_authorized_def\<close>)
  next
    case False
    then have "isl r \<and> s' = s \<and> (idt' = idt \<or> idt' = i1 \<or> idt' = i2)"
      using assms r1 r2 by (auto simp: with_authorized_def split: if_splits bool.splits)
    then show ?thesis using s refused [of "projl r"] by (cases r) auto
  qed
qed

text \<open>
  The contract of a write under \<open>with_authorized\<close>: run on a table in which the session has just been
  revalidated, it is a safe step. \<open>P\<close> is what the caller knows of the table; it survives as long as
  no session is added.
\<close>

locale authorized_write =
  fixes X :: ext and ctx :: auth_context and P :: "identity \<Rightarrow> bool" and run :: "identity \<Rightarrow> 's \<Rightarrow> 'a \<times> identity \<times> 's"
  assumes known: "P idt \<Longrightarrow> no_new_session idt idt' \<Longrightarrow> P idt'"
    and run_safe: "P idt \<Longrightarrow> revalidate ctx scope now idt0 = (True, idt) \<Longrightarrow> run idt s = (x, idt', s') \<Longrightarrow> safe X idt idt'"
begin

lemma authorized_safe:
  assumes "P idt" and "with_authorized rp ctx scope nows run idt s = (r, idt', s')"
  shows "safe X idt idt'"
  using assms(2)
proof (cases rule: with_authorized_cases [where X = X])
  case (ran idt0 idt1 x)
  from safe_trans [OF ran(4) run_safe [OF known [OF assms(1) ran(5)] ran(3) ran(6)]] show ?thesis .
qed

end

interpretation view: authorized_write X ctx "\<lambda>_. True" "\<lambda>idt s. ((), idt, s)" for X ctx
  by unfold_locales simp_all

interpretation logout: authorized_write X ctx "\<lambda>_. True" "\<lambda>idt s. ((), session_logout (cx_session_id ctx) idt, s)" for X ctx
  by unfold_locales (auto intro: safe_logout)

interpretation attach: authorized_write X ctx "\<lambda>_. True" "\<lambda>idt s. case register_peer ctx idt of (x, idt) \<Rightarrow> (x, idt, s)" for X ctx
  by unfold_locales (auto split: prod.splits intro: safe_peer)

definition push_ok :: "identity \<Rightarrow> push \<Rightarrow> bool" where
  "push_ok idt p \<longleftrightarrow> (\<forall>did \<in> fst ` set (pu_devices p). known_device idt did) \<and> pu_active p = (pu_devices p \<noteq> [])"

definition gateway_inv :: "ext \<Rightarrow> gateway \<Rightarrow> bool" where
  "gateway_inv X g \<longleftrightarrow> identity_inv X (gw_identity g) \<and> gw_policy g = id_policy (gw_identity g)
     \<and> ceremonies_inv (gw_ceremonies g) \<and> ce_elevation_limit (gw_ceremonies g) = session_limit (gw_identity g)
     \<and> push_ok (gw_identity g) (gw_push g)"

definition ce_ok :: "ceremonies \<Rightarrow> ceremonies \<Rightarrow> bool" where
  "ce_ok ce ce' \<longleftrightarrow> (ceremonies_inv ce \<longrightarrow> ceremonies_inv ce' \<and> ce_elevation_limit ce' = ce_elevation_limit ce)"

lemma ce_ok_refl [simp]: "ce_ok ce ce"
  by (simp add: ce_ok_def)

lemma ce_ok_trans: "ce_ok a b \<Longrightarrow> ce_ok b c \<Longrightarrow> ce_ok a c"
  by (simp add: ce_ok_def)

lemma ce_ok_shrinks: "ce_shrinks ce ce' \<Longrightarrow> ce_ok ce ce'"
  by (simp add: ce_ok_def ce_shrinks_inv) (simp add: ce_shrinks_def)

lemma gateway_invI:
  assumes "gateway_inv X g" and "safe X (gw_identity g) (gw_identity g')" and "gw_policy g' = gw_policy g"
    and "ce_ok (gw_ceremonies g) (gw_ceremonies g')" and "gw_push g' = gw_push g"
  shows "gateway_inv X g'"
  using assms by (auto simp: gateway_inv_def safe_def ce_ok_def keeps_def push_ok_def session_limit_def)

lemma set_gw_events_sel [simp]:
  "gw_identity (set_gw_events es g) = gw_identity g" "gw_policy (set_gw_events es g) = gw_policy g"
  "gw_ceremonies (set_gw_events es g) = gw_ceremonies g" "gw_push (set_gw_events es g) = gw_push g"
  "gw_rp (set_gw_events es g) = gw_rp g" "gw_rp_id (set_gw_events es g) = gw_rp_id g"
  by (simp_all add: set_gw_events_def)

lemma outcome_sel [simp]:
  "gw_identity (outcome k b d g) = gw_identity g" "gw_policy (outcome k b d g) = gw_policy g"
  "gw_ceremonies (outcome k b d g) = gw_ceremonies g" "gw_push (outcome k b d g) = gw_push g"
  "gw_rp (outcome k b d g) = gw_rp g" "gw_rp_id (outcome k b d g) = gw_rp_id g"
  by (simp_all add: outcome_def)

section \<open>Reachable gateways\<close>

text \<open>
  The challenge a start function of the library draws is the one in the state it returns, and a
  drawn challenge (128 random bits) is none of those in the table.
\<close>

definition lib_challenge :: "webauthn_lib \<Rightarrow> bool" where
  "lib_challenge W \<longleftrightarrow>
     (\<forall>p st j. wl_start_registration W p = Some (st, j) \<longrightarrow> ss_challenge st = co_challenge p)
     \<and> (\<forall>p st j. wl_start_login W p = Some (st, j) \<longrightarrow> ss_challenge st = ro_challenge p)
     \<and> (\<forall>ds p st j. wl_start_elevation W ds p = Some (st, j) \<longrightarrow> ss_challenge st = ro_challenge p)"

definition fresh_challenge :: "challenge \<Rightarrow> ceremonies \<Rightarrow> bool" where
  "fresh_challenge ch ce \<longleftrightarrow> ce_get ce ch = None \<and> ch \<notin> set (ce_login_order ce)"

text \<open>
  The steps: every handler of the gateway, a request authorised for some scope, a transport attached
  under authorisation and detached again, and, over-approximated in the last rule, everything that
  leaves the identity table, the ceremonies, the policy and the push devices alone: claims and polls
  of a pairing, the event queue, the audit, the spaces and the acknowledgements of push requests.
\<close>

inductive gateway_step :: "ext \<Rightarrow> webauthn_lib \<Rightarrow> gateway \<Rightarrow> gateway \<Rightarrow> bool" for X :: ext and W :: webauthn_lib where
  g_command: "gateway_command X start mnows now rid rsecret command g = (r, g') \<Longrightarrow> gateway_step X W g g'"
| g_maintenance: "gateway_step X W g (gateway_maintenance mnows t1 t2 g)"
| g_authenticate: "gateway_authenticate X hs now g = (rc, g') \<Longrightarrow> gateway_step X W g g'"
| g_logout: "gateway_logout ctx nows g = (ru, g') \<Longrightarrow> gateway_step X W g g'"
| g_authorized: "with_authorized (gw_rp_id g) ctx scope nows (\<lambda>idt s. ((), idt, s)) (gw_identity g) () = (ru, idt', u) \<Longrightarrow>
    gateway_step X W g (g\<lparr>gw_identity := idt'\<rparr>)"
| g_attach: "with_authorized (gw_rp_id g) ctx View nows
      (\<lambda>idt s. case register_peer ctx idt of (x, idt) \<Rightarrow> (x, idt, s)) (gw_identity g) () = (rp, idt', u) \<Longrightarrow>
    gateway_step X W g (g\<lparr>gw_identity := idt'\<rparr>)"
| g_detach: "gateway_step X W g (g\<lparr>gw_identity := unregister_peer pid (gw_identity g)\<rparr>)"
| g_registration: "fresh_challenge ch (gw_ceremonies g) \<Longrightarrow> gateway_registration_options X W req nows random ch g = (rj, g') \<Longrightarrow>
    gateway_step X W g g'"
| g_registered: "gateway_registration_finish X W req' nows g = (rs, g') \<Longrightarrow> gateway_step X W g g'"
| g_login: "fresh_challenge ch (gw_ceremonies g) \<Longrightarrow> login_options W nows ch g = (rj, g') \<Longrightarrow> gateway_step X W g g'"
| g_logged_in: "new_id rid (gw_identity g) \<Longrightarrow> login_finish X W credential nows rbinding rid g = (ra, g') \<Longrightarrow>
    gateway_step X W g g'"
| g_elevation: "fresh_challenge ch (gw_ceremonies g) \<Longrightarrow> elevation_options X W ctx scope nows ch g = (rj, g') \<Longrightarrow>
    gateway_step X W g g'"
| g_elevated: "new_id rid (gw_identity g) \<Longrightarrow> elevation_finish X W ctx scope credential nows rbinding rid g = (rt, g') \<Longrightarrow>
    gateway_step X W g g'"
| g_other: "gw_identity g' = gw_identity g \<Longrightarrow> gw_ceremonies g' = gw_ceremonies g \<Longrightarrow> gw_policy g' = gw_policy g \<Longrightarrow>
    pu_devices (gw_push g') = pu_devices (gw_push g) \<Longrightarrow> pu_active (gw_push g') = pu_active (gw_push g) \<Longrightarrow>
    gateway_step X W g g'"

inductive gateway_reach :: "ext \<Rightarrow> webauthn_lib \<Rightarrow> init \<Rightarrow> gateway \<Rightarrow> bool" for X :: ext and W :: webauthn_lib and i :: init where
  g_start: "deserialize_devices X devs = Inr (in_devices i) \<Longrightarrow> gateway_new X W A i instant es nows salt = Inr g \<Longrightarrow>
    gateway_reach X W i g"
| g_next: "gateway_reach X W i g \<Longrightarrow> gateway_step X W g g' \<Longrightarrow> gateway_reach X W i g'"

subsection \<open>The start\<close>

lemma ceremonies_new_inv: "ceremonies_inv (ceremonies_new n)"
  by (simp add: ceremonies_inv_def ceremonies_new_def login_ordered_def one_each_def)

lemma push_new_ok:
  assumes "push_new X i = Inr p" and "\<And>d. d \<in> set (in_devices i) \<Longrightarrow> known_device idt (dv_device_id d)"
  shows "push_ok idt p"
  using assms by (auto simp: push_new_def push_start_def push_ok_def split: option.splits if_splits)

lemma start_known:
  assumes "deserialize_devices X devs = Inr ds" and "identity_new X ds pol = Inr idt" and "d \<in> set ds"
  shows "known_device idt (dv_device_id d)"
proof -
  note f = start_facts [OF assms(1,2)]
  have "List.find (\<lambda>e. dv_device_id e = dv_device_id d) ds \<noteq> None" using assms(3) by (auto simp: find_None_iff)
  then show ?thesis unfolding known_device_def f(4) fold_table_get [OF f(2)] by (simp split: option.splits)
qed

lemma gateway_start_inv:
  assumes "deserialize_devices X devs = Inr (in_devices i)" and "gateway_new X W A i instant es nows salt = Inr g"
  shows "gateway_inv X g"
proof -
  obtain idt rp sp pu where n: "identity_new X (in_devices i) (in_policy i) = Inr idt" "push_new X i = Inr pu"
      "gw_identity g = idt" "gw_policy g = in_policy i" "gw_push g = pu" "gw_ceremonies g = ceremonies_new (po_max_devices (in_policy i))"
    using assms(2) by (auto simp: gateway_new_def split: sum.splits if_splits)
  have pol: "id_policy idt = in_policy i" using n(1) by (auto simp: identity_new_def Let_def split: if_splits)
  have "push_ok idt pu" by (rule push_new_ok [OF n(2)]) (rule start_known [OF assms(1) n(1)])
  moreover have "identity_inv X idt" by (rule identity_start_inv [OF assms(1) n(1)])
  moreover have "ce_elevation_limit (ceremonies_new (po_max_devices (in_policy i))) = session_limit idt"
    by (simp add: ceremonies_new_def session_limit_def pol)
  ultimately show ?thesis using n pol ceremonies_new_inv by (simp add: gateway_inv_def)
qed

subsection \<open>The commands of the desktop\<close>

lemma push_remove_ok:
  assumes "push_ok idt p" and "\<And>k. k \<noteq> did \<Longrightarrow> known_device idt k \<Longrightarrow> known_device idt' k"
  shows "push_ok idt' (push_remove did p)"
proof -
  have kept: "known_device idt' k" if "k \<in> fst ` set (pu_devices p)" "k \<noteq> did" for k
    using assms that unfolding push_ok_def by blast
  show ?thesis
  proof (cases "map_of (pu_devices p) did = None")
    case True
    then have "did \<notin> fst ` set (pu_devices p)" by (simp add: map_of_eq_None_iff)
    then have "\<forall>k \<in> fst ` set (pu_devices p). known_device idt' k" using kept by blast
    then show ?thesis using assms(1) True by (simp add: push_ok_def push_remove_def)
  next
    case False
    then show ?thesis using kept by (auto simp: push_ok_def push_remove_def Let_def)
  qed
qed

lemma push_replace_ok: "push_replace X ds (known_device idt) p = (ok, p') \<Longrightarrow> push_ok idt p \<Longrightarrow> push_ok idt p'"
  by (auto simp: push_replace_def push_ok_def Let_def split: option.splits if_splits)

lemma push_ack_frame [simp]: "pu_devices (push_ack n st p) = pu_devices p" "pu_active (push_ack n st p) = pu_active p"
  by (simp_all add: push_ack_def split: option.splits)

lemma run_device_inv:
  assumes "run_device X command g = (r, g')" and inv: "gateway_inv X g"
  shows "gateway_inv X g'"
proof -
  obtain r0 idt es where run: "device_command_run X command (gw_identity g) (gw_events g) = (r0, idt, es)"
    by (cases "device_command_run X command (gw_identity g) (gw_events g)")
  note pol = command_keeps(1) [OF run] and known = command_keeps(2) [OF run]
  have g': "gw_identity g' = idt" "gw_policy g' = gw_policy g" "gw_ceremonies g' = gw_ceremonies g"
    "gw_push g' = (case (r0, revoked_device command) of (Inr _, Some did) \<Rightarrow> push_remove did (gw_push g) | _ \<Rightarrow> gw_push g)"
    using assms(1) run by (auto simp: run_device_def Let_def split: sum.splits option.splits)
  have idt: "identity_inv X idt" using device_command_inv [OF run] inv by (simp add: gateway_inv_def)
  have old: "push_ok (gw_identity g) (gw_push g)" using inv by (simp add: gateway_inv_def)
  have "push_ok idt (gw_push g')"
  proof (cases "\<exists>x did. r0 = Inr x \<and> revoked_device command = Some did")
    case True
    then obtain x did where t: "r0 = Inr x" "revoked_device command = Some did" by blast
    have "push_ok idt (push_remove did (gw_push g))" using known t by (intro push_remove_ok [OF old]) auto
    then show ?thesis using t g'(4) by simp
  next
    case False
    then have "known_device idt did" if "known_device (gw_identity g) did" for did using known [OF that] by auto
    then show ?thesis using old g'(4) False by (auto simp: push_ok_def split: sum.splits option.splits)
  qed
  then show ?thesis using inv idt pol g'(1-3) by (simp add: gateway_inv_def session_limit_def)
qed

lemma gateway_inv_push:
  "gateway_inv X g \<Longrightarrow> push_ok (gw_identity g) p \<Longrightarrow> gateway_inv X (g\<lparr>gw_push := p\<rparr>)"
  by (simp add: gateway_inv_def)

lemma gateway_inv_frame:
  "gateway_inv X g \<Longrightarrow> gw_identity g' = gw_identity g \<Longrightarrow> gw_ceremonies g' = gw_ceremonies g \<Longrightarrow> gw_policy g' = gw_policy g \<Longrightarrow>
    pu_devices (gw_push g') = pu_devices (gw_push g) \<Longrightarrow> pu_active (gw_push g') = pu_active (gw_push g) \<Longrightarrow> gateway_inv X g'"
  by (simp add: gateway_inv_def push_ok_def)

lemma run_pairing_inv: "run_pairing X mnows now rid rsecret command g = (r, g') \<Longrightarrow> gateway_inv X g \<Longrightarrow> gateway_inv X g'"
  by (rule gateway_inv_frame [of X g]) (auto simp: run_pairing_def split: option.splits prod.splits)

lemma gateway_command_inv:
  assumes "gateway_command X start mnows now rid rsecret command g = (r, g')" and inv: "gateway_inv X g"
  shows "gateway_inv X g'"
proof (cases "po_enable_until (gw_policy g) \<le> start")
  case True
  then show ?thesis using assms by (simp add: gateway_command_def)
next
  case open_window: False
  show ?thesis
  proof (cases command)
    case (Pairing c)
    then show ?thesis using assms open_window run_pairing_inv by (simp add: gateway_command_def)
  next
    case (DeviceCmd c)
    then show ?thesis using assms open_window run_device_inv by (simp add: gateway_command_def)
  next
    case (PushDevices ds)
    obtain ok p where p: "push_replace X ds (known_device (gw_identity g)) (gw_push g) = (ok, p)"
      by (cases "push_replace X ds (known_device (gw_identity g)) (gw_push g)")
    have "push_ok (gw_identity g) p" using push_replace_ok [OF p] inv by (simp add: gateway_inv_def)
    then show ?thesis using assms open_window p PushDevices gateway_inv_push by (auto simp: gateway_command_def)
  qed (use assms open_window in \<open>auto simp: gateway_command_def split: prod.splits intro: gateway_inv_frame [OF inv]\<close>)
qed

subsection \<open>Maintenance, requests and ceremonies\<close>

lemma gateway_maintenance_inv:
  assumes "gateway_inv X g"
  shows "gateway_inv X (gateway_maintenance mnows t1 t2 g)"
proof -
  let ?g1 = "g\<lparr>gw_audit := audit_flush (gw_audit g)\<rparr>"
  obtain ps es where p: "pairings_maintenance mnows (gw_pairings ?g1) (gw_events ?g1) = (ps, es)"
    by (cases "pairings_maintenance mnows (gw_pairings ?g1) (gw_events ?g1)")
  let ?g2 = "set_gw_events es (?g1\<lparr>gw_pairings := ps\<rparr>)"
  let ?g3 = "?g2\<lparr>gw_ceremonies := ceremonies_purge t1 (gw_ceremonies ?g2)\<rparr>"
  obtain idt es' where i: "identity_maintenance t2 (gw_identity ?g3) (gw_events ?g3) = (idt, es')"
    by (cases "identity_maintenance t2 (gw_identity ?g3) (gw_events ?g3)")
  have "safe X (gw_identity g) idt" using safe_maintenance [OF i] by simp
  moreover have "gateway_maintenance mnows t1 t2 g = set_gw_events es' (?g3\<lparr>gw_identity := idt\<rparr>)"
    using p i by (simp add: gateway_maintenance_def Let_def)
  ultimately show ?thesis using ce_ok_shrinks [OF ce_shrinks_purge] by (auto intro: gateway_invI [OF assms])
qed

lemma ce_ok_insert:
  assumes "ceremonies_insert c now ce = (r, ce')" and "fresh_challenge (ceremony_key (cm_kind c)) ce"
  shows "ce_ok ce ce'"
proof -
  have "ce_elevation_limit ce' = ce_elevation_limit ce"
    using assms(1) by (cases rule: insert_cases) (simp_all add: ce_shrinks_def)
  then show ?thesis using ceremonies_insert_inv [OF assms(1)] assms(2) by (simp add: ce_ok_def fresh_challenge_def)
qed

lemma finish_state:
  assumes "finish r now commit ps t = (res, ps', t')"
  shows "t' = t \<or> (\<exists>x. commit t = (x, t'))"
  using assms
  by (auto simp: finish_def hm_with_def finish_entry_def Let_def split: prod.splits option.splits if_splits sum.splits)

lemma rp_challenge:
  assumes "lib_challenge W"
  shows "rp_registration X W rp did label existing first ch = Inr (st, j) \<Longrightarrow> ss_challenge st = ch"
    and "rp_login W rp ch = Inr (st, j) \<Longrightarrow> ss_challenge st = ch"
    and "rp_elevation X W rp records pol scope ch = Inr (st, j) \<Longrightarrow> ss_challenge st = ch"
  using assms
  by (auto simp: lib_challenge_def rp_registration_def rp_login_def rp_elevation_def rp_request_def
      split: sum.splits option.splits if_splits dest!: spec)

lemma registration_begin_ok:
  assumes "registration_begin X W pairing random ch now g = (r, ce')" and "lib_challenge W" and "fresh_challenge ch (gw_ceremonies g)"
  shows "ce_ok (gw_ceremonies g) ce'"
proof (cases "registration_identity X pairing random (gw_identity g)")
  case (Inr x)
  obtain did existing where x: "x = (did, existing)" by (cases x)
  let ?start = "rp_registration X W (gw_rp g) did (rg_device_label pairing) existing (rg_add_to_device pairing = None) ch"
  show ?thesis
  proof (cases ?start)
    case s: (Inr sj)
    obtain st j where sj: "sj = (st, j)" by (cases sj)
    let ?c = "\<lparr>cm_until = rg_deadline pairing, cm_kind = CRegistration pairing did st\<rparr>"
    obtain r1 ce1 where i: "ceremonies_insert ?c now (gw_ceremonies g) = (r1, ce1)" by (cases "ceremonies_insert ?c now (gw_ceremonies g)")
    have "ce_ok (gw_ceremonies g) ce1"
      using i rp_challenge(1) [OF assms(2) s [unfolded sj]] assms(3) by (intro ce_ok_insert [OF i]) simp
    then show ?thesis using assms(1) Inr x s sj i by (auto simp: registration_begin_def split: sum.splits)
  qed (use assms Inr x in \<open>auto simp: registration_begin_def\<close>)
qed (use assms in \<open>auto simp: registration_begin_def\<close>)

lemma registration_options_inv:
  assumes "gateway_registration_options X W req nows random ch g = (r, g')" and inv: "gateway_inv X g"
    and "lib_challenge W" and "fresh_challenge ch (gw_ceremonies g)"
  shows "gateway_inv X g'"
proof -
  obtain rc ps es where c: "consume_ticket X (go_pairing_id req) (go_registration_ticket req) (nows 0) (nows 1) (nows 2)
             (gw_pairings g) (gw_events g) = (rc, ps, es)"
    by (cases "consume_ticket X (go_pairing_id req) (go_registration_ticket req) (nows 0) (nows 1) (nows 2) (gw_pairings g) (gw_events g)")
  let ?g1 = "set_gw_events es (g\<lparr>gw_pairings := ps\<rparr>)"
  show ?thesis
  proof (cases rc)
    case (Inl f)
    then show ?thesis using assms(1) c inv by (auto simp: gateway_registration_options_def intro: gateway_inv_frame)
  next
    case (Inr pairing)
    obtain rb ce where b: "registration_begin X W pairing random ch (nows 3) ?g1 = (rb, ce)"
      by (cases "registration_begin X W pairing random ch (nows 3) ?g1")
    have "ce_ok (gw_ceremonies g) ce" using registration_begin_ok [OF b assms(3)] assms(4) by simp
    moreover have "gw_identity g' = gw_identity g \<and> gw_policy g' = gw_policy g \<and> gw_push g' = gw_push g \<and> gw_ceremonies g' = ce"
      using assms(1) c Inr b by (auto simp: gateway_registration_options_def Let_def split: sum.splits prod.splits)
    ultimately show ?thesis using inv by (intro gateway_invI [OF inv]) auto
  qed
qed

lemma registration_commit_safe:
  "registration_commit X pairing verified nows (idt, es) = (r, idt', es') \<Longrightarrow> safe X idt idt'"
  by (auto simp: registration_commit_def split: prod.splits intro: safe_register)

lemma registration_finish_inv:
  assumes "gateway_registration_finish X W req nows g = (r, g')" and inv: "gateway_inv X g"
  shows "gateway_inv X g'"
proof -
  obtain r1 g1 where run: "registration_run X W req nows g = (r1, g1)" by (cases "registration_run X W req nows g")
  obtain rt ce where t: "take_registration W (gf_pairing_id req) (gf_credential req) (nows 0) (gw_ceremonies g) = (rt, ce)"
    by (cases "take_registration W (gf_pairing_id req) (gf_credential req) (nows 0) (gw_ceremonies g)")
  have ce: "ce_ok (gw_ceremonies g) ce" by (rule ce_ok_shrinks [OF take_registration_shrinks [OF t]])
  have fin: "safe X (gw_identity g) (fst t')"
    if "finish pairing now (registration_commit X pairing v nows) ps (gw_identity g, es) = (rr, ps', t')" for pairing now v ps es rr ps' t'
    using finish_state [OF that] registration_commit_safe [of X pairing v nows "gw_identity g" es _ "fst t'" "snd t'"] by auto
  have "gw_policy g1 = gw_policy g \<and> gw_push g1 = gw_push g \<and> gw_ceremonies g1 = ce \<and> safe X (gw_identity g) (gw_identity g1)"
    using run t by (auto simp: registration_run_def Let_def split: sum.splits prod.splits ceremony_kind.splits dest!: fin)
  then have "gateway_inv X g1" using ce by (intro gateway_invI [OF inv]) auto
  then show ?thesis using assms(1) run by (auto simp: gateway_registration_finish_def intro: gateway_inv_frame)
qed

lemma login_options_inv:
  assumes "login_options W nows ch g = (r, g')" and inv: "gateway_inv X g"
    and "lib_challenge W" and "fresh_challenge ch (gw_ceremonies g)"
  shows "gateway_inv X g'"
proof (cases "rp_login W (gw_rp g) ch")
  case (Inl f)
  then show ?thesis using assms by (simp add: login_options_def)
next
  case (Inr sj)
  obtain st j where sj: "sj = (st, j)" by (cases sj)
  let ?c = "\<lparr>cm_until = min (after (nows 0) CEREMONY_TTL) (po_enable_until (gw_policy g)), cm_kind = CLogin st\<rparr>"
  obtain r1 ce where i: "ceremonies_insert ?c (nows 1) (gw_ceremonies g) = (r1, ce)"
    by (cases "ceremonies_insert ?c (nows 1) (gw_ceremonies g)")
  have "ce_ok (gw_ceremonies g) ce"
    using rp_challenge(2) [OF assms(3) Inr [unfolded sj]] assms(4) by (intro ce_ok_insert [OF i]) simp
  moreover have "g' = g\<lparr>gw_ceremonies := ce\<rparr>" using assms(1) Inr sj i by (auto simp: login_options_def split: sum.splits)
  ultimately show ?thesis by (intro gateway_invI [OF inv]) auto
qed

lemma login_finish_inv:
  assumes "login_finish X W credential nows rbinding rid g = (r, g')" and inv: "gateway_inv X g"
    and "new_id rid (gw_identity g)"
  shows "gateway_inv X g'"
proof -
  obtain r1 g1 where run: "login_run X W credential nows rbinding rid g = (r1, g1)" by (cases "login_run X W credential nows rbinding rid g")
  obtain rt ce where t: "take_assertion W credential None (nows 0) (gw_ceremonies g) = (rt, ce)"
    by (cases "take_assertion W credential None (nows 0) (gw_ceremonies g)")
  have ce: "ce_ok (gw_ceremonies g) ce" by (rule ce_ok_shrinks [OF take_assertion_shrinks [OF t]])
  have "gw_policy g1 = gw_policy g \<and> gw_push g1 = gw_push g \<and> gw_ceremonies g1 = ce \<and> safe X (gw_identity g) (gw_identity g1)"
    using run t safe_finish [OF _ assms(3)]
    by (auto simp: login_run_def Let_def split: sum.splits prod.splits ceremony_kind.splits)
  then have "gateway_inv X g1" using ce by (intro gateway_invI [OF inv]) auto
  then show ?thesis using assms(1) run by (auto simp: login_finish_def intro: gateway_inv_frame)
qed

subsection \<open>Elevation\<close>

lemma collect_results_Inl: "collect_results f xs = Inl e \<Longrightarrow> \<exists>x. f x = Inl e"
  by (induction xs) (auto split: sum.splits)

lemma rp_elevation_errors: "rp_elevation X W rp records pol scope ch = Inl f \<Longrightarrow> f = REJECTED \<or> f = UNAVAILABLE"
  by (auto simp: rp_elevation_def mk_descriptor_def split: sum.splits option.splits if_splits dest!: collect_results_Inl)

lemma elevation_options_cases:
  assumes "elevation_options X W ctx scope nows ch g = (r, g')"
  obtains (early) f idt where "r = Inl f" "f \<noteq> CHALLENGE_LIMIT" "safe X (gw_identity g) idt" "g' = g\<lparr>gw_identity := idt\<rparr>"
    | (inserted) idt and d :: device and st j c r1 ce where "cx_rp_id ctx = gw_rp_id g" "revalidate ctx View (nows 0) (gw_identity g) = (True, idt)"
        "rp_elevation X W (gw_rp g) (dv_credentials d) (po_passkey_binding (gw_policy g)) scope ch = Inr (st, j)"
        "c = \<lparr>cm_until = min (after (nows 3) CEREMONY_TTL) (po_enable_until (gw_policy g)), cm_kind = CElevation (cx_session_id ctx) scope st\<rparr>"
        "ceremonies_insert c (nows 4) (retain_sessions (set (map fst (id_sessions (purge_expired (nows 2) idt)))) (gw_ceremonies g)) = (r1, ce)"
        "r = (case r1 of Inl f \<Rightarrow> Inl f | Inr _ \<Rightarrow> Inr j)"
        "g' = g\<lparr>gw_identity := purge_expired (nows 2) idt, gw_ceremonies := ce\<rparr>"
proof -
  obtain b idt where rv: "revalidate ctx View (nows 0) (gw_identity g) = (b, idt)" by (cases "revalidate ctx View (nows 0) (gw_identity g)")
  have s: "safe X (gw_identity g) idt" by (rule safe_revalidate [OF rv])
  have ne: "DENIED \<noteq> CHALLENGE_LIMIT" "SCOPE_NOT_GRANTED \<noteq> CHALLENGE_LIMIT" "REJECTED \<noteq> CHALLENGE_LIMIT" "UNAVAILABLE \<noteq> CHALLENGE_LIMIT"
    by code_simp+
  have same: "g = g\<lparr>gw_identity := gw_identity g\<rparr>" by simp
  show ?thesis
  proof (cases "cx_rp_id ctx = gw_rp_id g \<and> b \<and> can_elevate ctx scope (nows 1) idt \<and> hm_get (id_devices idt) (cx_device_id ctx) \<noteq> None")
    case False
    then have "r = Inl DENIED \<and> (g' = g \<or> g' = g\<lparr>gw_identity := idt\<rparr>) \<or> r = Inl SCOPE_NOT_GRANTED \<and> g' = g\<lparr>gw_identity := idt\<rparr>
        \<or> r = Inl REJECTED \<and> g' = g\<lparr>gw_identity := idt\<rparr>"
      using assms rv by (cases b) (auto simp: elevation_options_def split: if_splits option.splits)
    then show ?thesis using early s ne same safe_refl by metis
  next
    case True
    then obtain d where d: "hm_get (id_devices idt) (cx_device_id ctx) = Some d" by blast
    show ?thesis
    proof (cases "rp_elevation X W (gw_rp g) (dv_credentials d) (po_passkey_binding (gw_policy g)) scope ch")
      case (Inl f)
      then have "r = Inl f" "g' = g\<lparr>gw_identity := idt\<rparr>" using assms rv True d by (auto simp: elevation_options_def)
      then show ?thesis using early s ne rp_elevation_errors [OF Inl] by metis
    next
      case (Inr sj)
      obtain st j where sj: "sj = (st, j)" by (cases sj)
      let ?c = "\<lparr>cm_until = min (after (nows 3) CEREMONY_TTL) (po_enable_until (gw_policy g)), cm_kind = CElevation (cx_session_id ctx) scope st\<rparr>"
      let ?ce = "retain_sessions (set (map fst (id_sessions (purge_expired (nows 2) idt)))) (gw_ceremonies g)"
      obtain r1 ce where i: "ceremonies_insert ?c (nows 4) ?ce = (r1, ce)" by (cases "ceremonies_insert ?c (nows 4) ?ce")
      show ?thesis
        by (rule inserted [of idt d st j ?c r1 ce])
          (use assms True rv d Inr sj i in \<open>auto simp: elevation_options_def active_session_ids_def Let_def split: sum.splits\<close>)
    qed
  qed
qed

lemma retain_sessions_shrinks: "ce_shrinks ce (retain_sessions ids ce)"
  unfolding retain_sessions_def by (rule ce_shrinks_retain)

lemma retain_sessions_fresh: "fresh_challenge ch ce \<Longrightarrow> ceremonies_inv ce \<Longrightarrow> fresh_challenge ch (retain_sessions ids ce)"
  using ce_shrinks_fresh [OF retain_sessions_shrinks] by (simp add: fresh_challenge_def) (simp add: retain_sessions_def)

lemma elevation_options_inv:
  assumes "elevation_options X W ctx scope nows ch g = (r, g')" and inv: "gateway_inv X g"
    and "lib_challenge W" and "fresh_challenge ch (gw_ceremonies g)"
  shows "gateway_inv X g'"
  using assms(1)
proof (cases rule: elevation_options_cases [where X = X])
  case (early f idt)
  then show ?thesis by (intro gateway_invI [OF inv]) auto
next
  case (inserted idt d st j c r1 ce)
  have "ceremonies_inv (gw_ceremonies g)" using inv by (simp add: gateway_inv_def)
  from retain_sessions_fresh [OF assms(4) this] have "ce_ok (gw_ceremonies g) ce"
    using rp_challenge(3) [OF assms(3) inserted(3)] inserted(4)
    by (intro ce_ok_trans [OF ce_ok_shrinks [OF retain_sessions_shrinks] ce_ok_insert [OF inserted(5)]]) simp
  moreover have "safe X (gw_identity g) (purge_expired (nows 2) idt)" by (rule safe_trans [OF safe_revalidate [OF inserted(2)] safe_purge])
  ultimately show ?thesis using inserted(7) by (intro gateway_invI [OF inv]) auto
qed

lemma elevation_write_cases:
  assumes "elevation_write X W rp ctx scope credential taken nows rbinding rid idt es = (r, idt', es')"
  obtains (refused) f where "r = Inl f" "idt' = idt" "es' = es"
    | (finished) c sid sc st ra where "taken = Inr c" "cm_kind c = CElevation sid sc st" "can_elevate ctx scope (nows 4) idt"
        "finish_assertion X W rp (ElevationState st) credential (Some (ctx, scope)) (nows 5) (nows 6) (nows 7) (nows 8)
           rbinding rid idt es = (ra, idt', es')"
        "r = (case ra of Inr (Elevated until) \<Rightarrow> Inr until | Inr _ \<Rightarrow> Inl REJECTED | Inl f \<Rightarrow> Inl f)"
proof (cases "can_elevate ctx scope (nows 4) idt \<and> (\<exists>c sid sc st. taken = Inr c \<and> cm_kind c = CElevation sid sc st)")
  case False
  then have "isl r \<and> idt' = idt \<and> es' = es"
    using assms by (auto simp: elevation_write_def ok_value_def split: if_splits sum.splits ceremony_kind.splits)
  then show ?thesis using refused [of "projl r"] by (cases r) auto
next
  case True
  then obtain c sid sc st where t: "taken = Inr c" "cm_kind c = CElevation sid sc st" by blast
  obtain ra i3 e3 where f: "finish_assertion X W rp (ElevationState st) credential (Some (ctx, scope)) (nows 5) (nows 6) (nows 7) (nows 8)
      rbinding rid idt es = (ra, i3, e3)"
    by (cases "finish_assertion X W rp (ElevationState st) credential (Some (ctx, scope)) (nows 5) (nows 6) (nows 7) (nows 8) rbinding rid idt es")
  show ?thesis
    by (rule finished [of c sid sc st ra])
      (use assms True t f in \<open>auto simp: elevation_write_def ok_value_def split: sum.splits assertion_result.splits\<close>)
qed

interpretation elevation: authorized_write X ctx "new_id rid" "elevation_write X W rp ctx scope credential taken nows rbinding rid"
  for X W rp ctx scope credential taken nows rbinding rid
proof unfold_locales
  show "new_id rid idt' " if "new_id rid idt" "no_new_session idt idt'" for idt idt'
    using that by (rule new_id_mono)
  show "safe X idt idt'" if "new_id rid idt"
    "elevation_write X W rp ctx scope credential taken nows rbinding rid idt s = (x, idt', s')" for idt s x idt' s'
    using that(2) by (cases rule: elevation_write_cases) (auto intro: safe_finish [OF _ that(1)])
qed

lemma elevation_run_cases:
  assumes "elevation_run X W ctx scope credential nows rbinding rid g = (r, g')"
  obtains taken ce rw idt es where
    "take_assertion W credential (Some (cx_session_id ctx, scope)) (nows 0) (gw_ceremonies g) = (taken, ce)"
    "with_authorized (gw_rp_id g) ctx View (\<lambda>k. nows (k + 1))
       (elevation_write X W (gw_rp g) ctx scope credential taken nows rbinding rid) (gw_identity g) (gw_events g) = (rw, idt, es)"
    "r = flatten_result rw" "gw_identity g' = idt" "gw_ceremonies g' = ce" "gw_policy g' = gw_policy g" "gw_push g' = gw_push g"
  using assms by (auto simp: elevation_run_def split: prod.splits)

lemma elevation_finish_inv:
  assumes "elevation_finish X W ctx scope credential nows rbinding rid g = (r, g')" and inv: "gateway_inv X g"
    and new: "new_id rid (gw_identity g)"
  shows "gateway_inv X g'"
proof -
  obtain r1 g1 where run: "elevation_run X W ctx scope credential nows rbinding rid g = (r1, g1)"
    by (cases "elevation_run X W ctx scope credential nows rbinding rid g")
  from run show ?thesis
  proof (cases rule: elevation_run_cases)
    case (1 taken ce rw idt es)
    have "safe X (gw_identity g) idt" by (rule elevation.authorized_safe [OF new 1(2)])
    then have "gateway_inv X g1"
      using 1 ce_ok_shrinks [OF take_assertion_shrinks [OF 1(1)]] by (intro gateway_invI [OF inv]) auto
    then show ?thesis using assms(1) run by (auto simp: elevation_finish_def intro: gateway_inv_frame)
  qed
qed

subsection \<open>Every step\<close>

lemma gateway_step_inv:
  assumes "gateway_step X W g g'" and "gateway_inv X g" and "lib_challenge W"
  shows "gateway_inv X g'"
  using assms(1)
proof cases
  case (g_authenticate hs now rc)
  then show ?thesis
    by (intro gateway_invI [OF assms(2)]) (auto simp: gateway_authenticate_def split: prod.splits intro: safe_authenticate)
next
  case (g_logout ctx nows ru)
  obtain r idt u where w: "with_authorized (gw_rp_id g) ctx View nows
      (\<lambda>idt s. ((), session_logout (cx_session_id ctx) idt, s)) (gw_identity g) () = (r, idt, u)"
    by (cases "with_authorized (gw_rp_id g) ctx View nows
      (\<lambda>idt s. ((), session_logout (cx_session_id ctx) idt, s)) (gw_identity g) ()")
  from logout.authorized_safe [OF TrueI this, of X] have "safe X (gw_identity g) idt" .
  then show ?thesis using g_logout w by (intro gateway_invI [OF assms(2)]) (auto simp: gateway_logout_def)
next
  case (g_authorized ctx scope nows ru idt' u)
  from view.authorized_safe [OF TrueI g_authorized(2), of X] have "safe X (gw_identity g) idt'" .
  then show ?thesis using g_authorized by (intro gateway_invI [OF assms(2)]) auto
next
  case (g_attach ctx nows rp idt' u)
  from attach.authorized_safe [OF TrueI g_attach(2), of X] have "safe X (gw_identity g) idt'" .
  then show ?thesis using g_attach by (intro gateway_invI [OF assms(2)]) auto
next
  case (g_detach pid)
  then show ?thesis by (intro gateway_invI [OF assms(2)]) (auto intro: safe_unregister)
next
  case g_maintenance
  then show ?thesis using gateway_maintenance_inv [OF assms(2)] by simp
next
  case g_other
  then show ?thesis by (intro gateway_inv_frame [OF assms(2)])
next
  case g_command
  then show ?thesis using gateway_command_inv assms(2) by blast
next
  case g_registration
  then show ?thesis using registration_options_inv assms(2,3) by blast
next
  case g_registered
  then show ?thesis using registration_finish_inv assms(2) by blast
next
  case g_login
  then show ?thesis using login_options_inv assms(2,3) by blast
next
  case g_logged_in
  then show ?thesis using login_finish_inv assms(2) by blast
next
  case g_elevation
  then show ?thesis using elevation_options_inv assms(2,3) by blast
next
  case g_elevated
  then show ?thesis using elevation_finish_inv assms(2) by blast
qed

lemma gateway_reach_inv: "gateway_reach X W i g \<Longrightarrow> lib_challenge W \<Longrightarrow> gateway_inv X g"
  by (induction rule: gateway_reach.induct) (auto intro: gateway_start_inv gateway_step_inv)

end
