(* ===== verification/Gateway_Demo.thy ===== *)
theory Gateway_Demo
  imports Gateway_Props Guard_Props "HOL-Library.Code_Target_Nat"
begin

text \<open>
  A run of the whole gateway on concrete inputs: it starts with one device, the device logs in with
  its passkey and elevates the new session. Every state of the run is reachable; the properties of
  the composition are witnessed on it.
\<close>

definition desk_authority :: "string \<Rightarrow> authority option" where
  "desk_authority s = Some \<lparr>at_str = s, at_host = ''desk.ts.net'', at_port = None\<rparr>"

definition desk_init :: init where
  "desk_init = \<lparr>in_herdr_binary = ''/herdr'', in_session_allowlist = [], in_web_root = ''/web'',
     in_loopback = \<lparr>lb_port = 0, lb_public_host = ''desk.ts.net'', lb_required_tailscale_login = ''u@e.com'',
       lb_proxy_secret = replicate 43 (CHR ''A'')\<rparr>,
     in_lan = False,
     in_devices = [demo_device], in_policy = demo_policy, in_trust_store = ''/trust'', in_space_roots = [], in_push = None\<rparr>"

definition desk_new :: "string + gateway" where
  "desk_new = gateway_new demo_ext demo_wl desk_authority desk_init 0 spawn_writer (\<lambda>_. 1) (Some (replicate 16 3))"

definition desk_start :: gateway where "desk_start = projr desk_new"

definition desk_answer :: "int \<Rightarrow> json" where
  "desk_answer n = JObj [(''rawId'', JStr ''cred''), (''response'', JObj [(''userHandle'', JStr demo_did)]), (''c'', JNum n)]"

definition desk_login :: "(failure + json) \<times> gateway" where
  "desk_login = login_options demo_wl (\<lambda>k. 100 + k) 7 desk_start"

definition desk_logged :: "(failure + assertion_result) \<times> gateway" where
  "desk_logged = login_finish demo_ext demo_wl (desk_answer 7) (\<lambda>k. 110 + k) (Some demo_binding) (Some demo_sid) (snd desk_login)"

definition desk_elevation :: "(failure + json) \<times> gateway" where
  "desk_elevation = elevation_options demo_ext demo_wl demo_ctx Control (\<lambda>k. 200 + k) 8 (snd desk_logged)"

definition desk_elevated :: "(failure + timestamp) \<times> gateway" where
  "desk_elevated = elevation_finish demo_ext demo_wl demo_ctx Control (desk_answer 8) (\<lambda>k. 300 + k) None None (snd desk_elevation)"

text \<open>A gateway whose table is \<open>demo_idt\<close>: the phone of \<open>Session_Security\<close> has a session.\<close>

definition demo_gateway :: gateway where
  "demo_gateway = \<lparr>gw_policy = demo_policy,
     gw_pairings = \<lparr>ps_entries = [], ps_polls = 8, ps_origin = ''https://desk.ts.net'', ps_login = ''u@e.com''\<rparr>,
     gw_identity = demo_idt, gw_rp_id = ''desk.ts.net'',
     gw_rp = \<lparr>rp_host = ''desk.ts.net'', rp_origin = ''https://desk.ts.net''\<rparr>,
     gw_ceremonies = \<lparr>ce_entries = [], ce_elevation_limit = 16, ce_login_order = []\<rparr>,
     gw_audit = \<lparr>as_events = spawn_writer, as_deferred = deferred_default, as_live = [], as_next = 1\<rparr>,
     gw_spaces = \<lparr>ss_trust_store = ''/trust'', ss_allowlist = [], ss_spaces = [], ss_salt = ''salt'', ss_generations = 1\<rparr>,
     gw_push = \<lparr>pu_vapid = None, pu_sessions = [], pu_devices = [], pu_active = False, pu_acks = [], pu_answers = [],
       pu_next_request = 1\<rparr>\<rparr>"

text \<open>The run is evaluated once; its facts are read off.\<close>

lemma desk_run:
  "let start = desk_new; g = projr start;
       l = login_options demo_wl (\<lambda>k. 100 + k) 7 g;
       r = login_finish demo_ext demo_wl (desk_answer 7) (\<lambda>k. 110 + k) (Some demo_binding) (Some demo_sid) (snd l);
       e = elevation_options demo_ext demo_wl demo_ctx Control (\<lambda>k. 200 + k) 8 (snd r);
       f = elevation_finish demo_ext demo_wl demo_ctx Control (desk_answer 8) (\<lambda>k. 300 + k) None None (snd e)
   in \<not> isl start \<and> fresh_challenge 7 (gw_ceremonies g) \<and> new_id (Some demo_sid) (gw_identity g)
      \<and> new_id (Some demo_sid) (gw_identity (snd l)) \<and> fresh_challenge 8 (gw_ceremonies (snd r))
      \<and> fst e = Inr JNull \<and> fst f = Inr 5000"
  by code_simp

lemmas desk_facts = desk_run [unfolded Let_def, folded desk_start_def, folded desk_login_def, folded desk_logged_def,
  folded desk_elevation_def, folded desk_elevated_def]

lemma desk_started: "desk_new = Inr desk_start"
  using desk_facts unfolding desk_start_def by (cases desk_new) auto

lemma desk_elevated_ok: "fst desk_elevated = Inr 5000" using desk_facts by simp

lemma demo_lib_challenge: "lib_challenge demo_wl"
  by (auto simp: lib_challenge_def demo_wl_def)

lemma desk_reach_start: "gateway_reach demo_ext demo_wl desk_init desk_start"
proof (rule g_start)
  show "deserialize_devices demo_ext [demo_device] = Inr (in_devices desk_init)"
    using demo_device_valid by (simp add: deserialize_devices_def desk_init_def) (simp add: demo_device_def)
  show "gateway_new demo_ext demo_wl desk_authority desk_init 0 spawn_writer (\<lambda>_. 1) (Some (replicate 16 3)) = Inr desk_start"
    using desk_started unfolding desk_new_def .
qed

lemma desk_reach_logged: "gateway_reach demo_ext demo_wl desk_init (snd desk_logged)"
proof -
  have "fresh_challenge 7 (gw_ceremonies desk_start)" using desk_facts by simp
  moreover have "login_options demo_wl (\<lambda>k. 100 + k) 7 desk_start = (fst desk_login, snd desk_login)" by (simp add: desk_login_def)
  ultimately have "gateway_reach demo_ext demo_wl desk_init (snd desk_login)"
    by (rule g_next [OF desk_reach_start g_login])
  moreover have "new_id (Some demo_sid) (gw_identity (snd desk_login))" using desk_facts by simp
  moreover have "login_finish demo_ext demo_wl (desk_answer 7) (\<lambda>k. 110 + k) (Some demo_binding) (Some demo_sid) (snd desk_login)
      = (fst desk_logged, snd desk_logged)" by (simp add: desk_logged_def)
  ultimately show ?thesis by (rule g_next [OF _ g_logged_in])
qed

lemma desk_options: "elevation_options demo_ext demo_wl demo_ctx Control (\<lambda>k. 200 + k) 8 (snd desk_logged) = (Inr JNull, snd desk_elevation)"
proof -
  have "fst desk_elevation = Inr JNull" using desk_facts by simp
  then show ?thesis by (cases desk_elevation) (simp add: desk_elevation_def)
qed

lemma desk_reach_elevation: "gateway_reach demo_ext demo_wl desk_init (snd desk_elevation)"
proof -
  have "fresh_challenge 8 (gw_ceremonies (snd desk_logged))" using desk_facts by simp
  then show ?thesis using desk_options by (rule g_next [OF desk_reach_logged g_elevation])
qed

end
