(* ===== verification/Gateway_Security.thy ===== *)
theory Gateway_Security
  imports Gateway_Demo
begin

text \<open>
  What the gateway promises across its components: the joint invariant in every reachable state, an
  elevation that is never starved of room in the ceremony table, and an elevation that ends in the
  session, the device and the scope it was begun for.
\<close>

section \<open>The invariant\<close>

text \<open>
  C1: in every state the gateway can reach, its components agree. Every session belongs to a known
  device that is not locked, and there are at most four per admitted device; at most 48 logins, 16
  registrations and four elevations per admitted device are running; the identity table works under
  the policy the gateway was started with; push notices go to known devices only (a revoked device
  is no target from the moment of its revocation), and the watcher runs exactly while there is one.
\<close>

theorem gateway_invariant:
  assumes "gateway_reach X W i g" and "lib_challenge W"
  shows "(\<forall>sid s. hm_get (id_sessions (gw_identity g)) sid = Some s \<longrightarrow>
        (\<exists>d. hm_get (id_devices (gw_identity g)) (se_device_id s) = Some d \<and> \<not> dv_locked d))
    \<and> length (id_sessions (gw_identity g)) \<le> po_max_devices (gw_policy g) * 4
    \<and> hm_count (\<lambda>c. login_kind (cm_kind c)) (ce_entries (gw_ceremonies g)) \<le> 48
    \<and> hm_count (\<lambda>c. registration_of (cm_kind c) \<noteq> None) (ce_entries (gw_ceremonies g)) \<le> 16
    \<and> hm_count (\<lambda>c. elevation_of (cm_kind c) \<noteq> None) (ce_entries (gw_ceremonies g)) \<le> po_max_devices (gw_policy g) * 4
    \<and> id_policy (gw_identity g) = gw_policy g
    \<and> (\<forall>did \<in> fst ` set (pu_devices (gw_push g)). hm_get (id_devices (gw_identity g)) did \<noteq> None)
    \<and> (pu_active (gw_push g) \<longleftrightarrow> pu_devices (gw_push g) \<noteq> [])"
proof -
  have inv: "identity_inv X (gw_identity g)" "gw_policy g = id_policy (gw_identity g)" "ceremonies_inv (gw_ceremonies g)"
      "ce_elevation_limit (gw_ceremonies g) = session_limit (gw_identity g)" "push_ok (gw_identity g) (gw_push g)"
    using gateway_reach_inv [OF assms] by (simp_all add: gateway_inv_def)
  have i: "sessions_ok (gw_identity g)" using inv(1) by (simp add: identity_inv_def)
  have c: "hm_count is_registration (ce_entries (gw_ceremonies g)) \<le> 16"
      "hm_count is_elevation (ce_entries (gw_ceremonies g)) \<le> po_max_devices (gw_policy g) * 4"
    using inv(2-4) by (simp_all add: ceremonies_inv_def REGISTRATION_LIMIT_def session_limit_def)
  have l: "hm_count is_login (ce_entries (gw_ceremonies g)) \<le> 48" using login_count [OF inv(3)] by (simp add: LOGIN_LIMIT_def)
  have p: "\<forall>did \<in> fst ` set (pu_devices (gw_push g)). hm_get (id_devices (gw_identity g)) did \<noteq> None"
      "pu_active (gw_push g) \<longleftrightarrow> pu_devices (gw_push g) \<noteq> []"
    using inv(5) by (auto simp: push_ok_def known_device_def)
  show ?thesis using i c l p inv(2) unfolding sessions_ok_def backed_def session_limit_def by simp
qed

section \<open>Room for an elevation\<close>

text \<open>Elevation ceremonies of different keys belong to different sessions.\<close>

lemma elevations_le:
  assumes "hm_wf (ce_entries ce)" and "one_each elevation_of ce" and "finite S"
    and "\<And>k c s. ce_get ce k = Some c \<Longrightarrow> elevation_of (cm_kind c) = Some s \<Longrightarrow> s \<in> S"
  shows "hm_count is_elevation (ce_entries ce) \<le> card S"
proof -
  let ?K = "{k. \<exists>v. ce_get ce k = Some v \<and> is_elevation v}"
  let ?f = "\<lambda>k. the (elevation_of (cm_kind (the (ce_get ce k))))"
  have "inj_on ?f ?K" using assms(2) unfolding one_each_def by (intro inj_onI) fastforce
  moreover have "?f ` ?K \<subseteq> S" using assms(4) by auto
  ultimately have "card ?K \<le> card S" using assms(3) by (intro card_inj_on_le)
  then show ?thesis by (simp add: hm_count_keys [OF assms(1)])
qed

lemma get_filter_Some:
  assumes "hm_wf m" and "hm_get (hm_retain P m) k = Some c"
  shows "hm_get m k = Some c \<and> P k c"
  using assms by (auto simp: hm_get_retain split: option.splits if_splits)

text \<open>
  After the sweep, an elevation of another session than \<open>sid\<close> belongs to one of the sessions
  that are left; with \<open>sid\<close> itself not among them, or not counted, there is room for one more.
\<close>

lemma elevation_room:
  assumes inv: "ceremonies_inv ce" and keys: "ids \<subseteq> K" "sid \<in> K" "finite K" "card K \<le> ce_elevation_limit ce"
    and "ceremonies_insert c now (retain_sessions ids ce) = (r, ce')" and kind: "cm_kind c = CElevation sid scope st"
  shows "r = Inr ()"
proof -
  let ?p = "ceremonies_purge now (retain_sessions ids ce)"
  let ?ce1 = "?p\<lparr>ce_entries := hm_retain (\<lambda>_ c. elevation_of (cm_kind c) \<noteq> Some sid) (ce_entries ?p)\<rparr>"
  have rinv: "ceremonies_inv (retain_sessions ids ce)" by (rule ce_shrinks_inv [OF retain_sessions_shrinks inv])
  have pinv: "ceremonies_inv ?p" by (rule ce_shrinks_inv [OF ce_shrinks_purge rinv])
  have inv1: "ceremonies_inv ?ce1" by (rule ce_shrinks_inv [OF ce_shrinks_retain pinv])
  have wf: "hm_wf (ce_entries ce)" "hm_wf (ce_entries (retain_sessions ids ce))" "hm_wf (ce_entries ?p)" "hm_wf (ce_entries ?ce1)"
    using inv rinv pinv inv1 by (simp_all add: ceremonies_inv_def)
  have mem: "s \<in> ids - {sid}" if "ce_get ?ce1 k = Some v" "elevation_of (cm_kind v) = Some s" for k v s
  proof -
    have 1: "ce_get ?p k = Some v" "s \<noteq> sid" using get_filter_Some [OF wf(3)] that by auto
    then have "ce_get (retain_sessions ids ce) k = Some v"
      using get_filter_Some [OF wf(2)] by (auto simp: ceremonies_purge_def Let_def)
    then have "s \<in> ids" using get_filter_Some [OF wf(1)] that(2) unfolding retain_sessions_def by fastforce
    with 1 show ?thesis by simp
  qed
  have "finite (ids - {sid})" using keys finite_subset by blast
  with inv1 wf(4) mem have "hm_count is_elevation (ce_entries ?ce1) \<le> card (ids - {sid})"
    by (intro elevations_le) (auto simp: ceremonies_inv_def)
  also have "\<dots> < card K" using keys by (intro psubset_card_mono) auto
  finally have "hm_count is_elevation (ce_entries ?ce1) < ce_elevation_limit ce" using keys(4) by simp
  moreover have "ce_elevation_limit ?ce1 = ce_elevation_limit ce" by (simp add: ceremonies_purge_def Let_def retain_sessions_def)
  ultimately have "fst (admit_elevation sid ?p) = Inr ()" by (simp add: admit_elevation_def Let_def not_le)
  then show ?thesis using assms(6) kind
    by (cases "admit_elevation sid ?p") (auto simp: ceremonies_insert_def Let_def split: sum.splits)
qed

lemma card_keys: "hm_wf m \<Longrightarrow> card (set (map fst m)) = length m"
  unfolding hm_wf_def by (metis distinct_card length_map)

lemma purge_keys:
  assumes "hm_wf (id_sessions idt)"
  shows "set (map fst (id_sessions (purge_expired now idt))) \<subseteq> set (map fst (id_sessions idt))"
  using assms by (auto simp: purge_drop)

lemma revalidated:
  assumes "revalidate ctx scope now idt = (True, idt')"
  obtains s where "hm_get (id_sessions idt) (cx_session_id ctx) = Some s" "se_device_id s = cx_device_id ctx"
    "hm_get (id_sessions idt') (cx_session_id ctx) = Some (s\<lparr>se_last_seen := now\<rparr>)"
    "\<And>k. k \<noteq> cx_session_id ctx \<Longrightarrow> hm_get (id_sessions idt') k = hm_get (id_sessions idt) k"
    "\<And>k. map_option strip (hm_get (id_devices idt') k) = map_option strip (hm_get (id_devices idt) k)"
    "id_policy idt' = id_policy idt"
proof -
  obtain s where s: "hm_get (id_sessions idt) (cx_session_id ctx) = Some s" "se_device_id s = cx_device_id ctx"
      "validate (cx_session_id ctx) (cx_rp_id ctx) scope now idt = (True, idt')"
    using assms by (auto simp: revalidate_def split: option.splits if_splits)
  from s(3) show ?thesis
  proof (cases rule: validate_cases)
    case (accepted s1 d)
    then show ?thesis using s(1,2) by (intro that [of s]) (auto simp: strip_last_seen)
  qed simp
qed

lemma session_key: "hm_get m k = Some v \<Longrightarrow> k \<in> set (map fst m)"
  by (force dest: hm_get_in)

text \<open>
  C30: an elevation is never refused for want of room. In every reachable state, whatever other
  sessions have left running, \<open>elevation_options\<close> is refused only because the request is not
  authorised, the scope is not granted or the library cannot start the ceremony, and never with the
  challenge limit. When it succeeds, the new ceremony is the only one of its session, is for the
  scope that was asked for, and runs out within two minutes and with the companion's window.
\<close>

theorem elevation_never_starved:
  assumes "gateway_reach X W i g" and "lib_challenge W"
    and "elevation_options X W ctx scope nows ch g = (r, g')"
  shows "r \<noteq> Inl CHALLENGE_LIMIT
    \<and> (\<forall>j. r = Inr j \<longrightarrow> (\<exists>c st. hm_get (ce_entries (gw_ceremonies g')) ch = Some c
        \<and> cm_kind c = CElevation (cx_session_id ctx) scope st
        \<and> cm_until c \<le> after (nows 3) (from_secs 120) \<and> cm_until c \<le> po_enable_until (gw_policy g)
        \<and> (\<forall>k c'. hm_get (ce_entries (gw_ceremonies g')) k = Some c' \<longrightarrow>
              elevation_of (cm_kind c') = Some (cx_session_id ctx) \<longrightarrow> k = ch)))"
  using assms(3)
proof (cases rule: elevation_options_cases [where X = X])
  case (early f idt)
  then show ?thesis by simp
next
  case (inserted idt d st j c r1 ce)
  have inv: "identity_inv X (gw_identity g)" "ceremonies_inv (gw_ceremonies g)"
      "ce_elevation_limit (gw_ceremonies g) = session_limit (gw_identity g)"
    using gateway_reach_inv [OF assms(1,2)] by (simp_all add: gateway_inv_def)
  have idt: "identity_inv X idt" by (rule revalidate_inv [OF inserted(2) inv(1)])
  obtain s' where s': "hm_get (id_sessions idt) (cx_session_id ctx) = Some s'" "id_policy idt = id_policy (gw_identity g)"
    using revalidated [OF inserted(2)] by metis
  let ?K = "set (map fst (id_sessions idt))"
  have wf: "hm_wf (id_sessions idt)" by (rule inv_wf(1) [OF idt])
  have lim: "card ?K \<le> ce_elevation_limit (gw_ceremonies g)"
    using idt inv(3) s'(2) card_keys [OF wf] by (simp add: identity_inv_def sessions_ok_def session_limit_def)
  have kind: "cm_kind c = CElevation (cx_session_id ctx) scope st" using inserted(4) by simp
  have r1: "r1 = Inr ()"
    by (rule elevation_room [OF inv(2) purge_keys [OF wf] session_key [OF s'(1)] _ lim inserted(5) kind]) simp
  have key: "ceremony_key (cm_kind c) = ch" using rp_challenge(3) [OF assms(2) inserted(3)] kind by simp
  have rinv: "ceremonies_inv (retain_sessions (set (map fst (id_sessions (purge_expired (nows 2) idt)))) (gw_ceremonies g))"
    by (rule ce_shrinks_inv [OF retain_sessions_shrinks inv(2)])
  from inserted(5) show ?thesis
  proof (cases rule: insert_cases)
    case (inserted ce1)
    have elev: "elevation_of (cm_kind c) = Some (cx_session_id ctx)" using kind by simp
    have wf1: "hm_wf (ce_entries (ceremonies_purge (nows 4)
        (retain_sessions (set (map fst (id_sessions (purge_expired (nows 2) idt)))) (gw_ceremonies g))))"
      using ce_shrinks_inv [OF ce_shrinks_purge rinv] by (simp add: ceremonies_inv_def)
    have none: "elevation_of (cm_kind c') \<noteq> Some (cx_session_id ctx)" if "ce_get ce1 k = Some c'" for k c'
      using that inserted(5) [OF elev] get_filter_Some [OF wf1] by fastforce
    have "ce_get ce k = (if ch = k then Some c else ce_get ce1 k)" for k using inserted(6) key by simp
    then have "ce_get ce ch = Some c \<and> (\<forall>k c'. ce_get ce k = Some c' \<longrightarrow> elevation_of (cm_kind c') = Some (cx_session_id ctx) \<longrightarrow> k = ch)"
      using none by auto
    then show ?thesis using r1 kind \<open>c = _\<close> \<open>r = _\<close> \<open>g' = _\<close> by (simp add: CEREMONY_TTL_def)
  qed (use r1 in simp)
qed

section \<open>A finished elevation\<close>

lemma with_authorized_Inr:
  assumes "with_authorized rp ctx View nows write idt s = (Inr x, idt', s')"
  obtains i1 i2 where "cx_rp_id ctx = rp" "revalidate ctx View (nows 0) idt = (True, i1)"
    "revalidate ctx View (nows 2) i1 = (True, i2)" "write i2 s = (x, idt', s')"
  using assms that by (auto simp: with_authorized_def split: if_splits prod.splits bool.splits)

lemma strip_Some:
  assumes "map_option strip a = map_option strip b" and "a = Some d"
  obtains e where "b = Some e" "dv_credentials e = dv_credentials d" "dv_locked e = dv_locked d"
proof -
  obtain e where e: "b = Some e" "strip d = strip e" using assms by (cases b) auto
  have "dv_credentials (strip d) = dv_credentials (strip e)" "dv_locked (strip d) = dv_locked (strip e)" using e(2) by simp_all
  then show ?thesis using that e(1) by (simp add: strip_def)
qed

lemma elevate_Some:
  assumes "elevate ctx scope now0 now idt = (Some until, idt')"
  obtains s where "hm_get (id_sessions idt') (cx_session_id ctx) = Some s" "se_device_id s = cx_device_id ctx"
    "scope \<noteq> View" "scope_until s scope = Some until" "now < until" "until \<le> po_enable_until (id_policy idt)"
    "\<And>k. k \<noteq> cx_session_id ctx \<Longrightarrow> hm_get (id_sessions idt') k = hm_get (id_sessions idt) k"
  using assms
proof (cases rule: elevate_cases)
  case (raised idt1 s d cap)
  have u: "until = elevation_until idt1 s cap now" using raised(1) by simp
  have sc: "scope \<noteq> View" using raised(6) by (auto simp: elevation_cap_def)
  obtain s0 where s0: "hm_get (id_sessions idt1) (cx_session_id ctx) = Some (s0\<lparr>se_last_seen := now0\<rparr>)" "se_device_id s0 = cx_device_id ctx"
      "id_policy idt1 = id_policy idt" "\<And>k. k \<noteq> cx_session_id ctx \<Longrightarrow> hm_get (id_sessions idt1) k = hm_get (id_sessions idt) k"
    using revalidated [OF raised(2)] by metis
  have s: "s = s0\<lparr>se_last_seen := now0\<rparr>" using raised(3) s0(1) by simp
  have "until \<le> po_enable_until (id_policy idt)" unfolding u elevation_until_def s0(3) by linarith
  moreover have "scope_until (set_elevation scope until now s) scope = Some until"
    using sc by (cases scope) (simp_all add: set_elevation_def scope_until_def)
  ultimately show ?thesis
    using that [of "set_elevation scope until now s"] raised(7,8) s0 s u sc by simp
qed simp

lemma taken_elevation:
  assumes "hm_wf (ce_entries ce)" and "take_assertion W response (Some (sid, scope)) now ce = (Inr c, ce')"
  obtains key st where "assertion_key W True response = Some key" "ce_get ce key = Some c" "now < cm_until c"
    "cm_kind c = CElevation sid scope st" "ce_get ce' key = None"
proof -
  obtain key where key: "assertion_key W True response = Some key" "ce_get (ceremonies_purge now ce) key = Some c"
      "assertion_bound (cm_kind c) (Some (sid, scope))" "ce_get ce' key = None"
    using assms(2) by (auto simp: take_assertion_def Let_def split: option.splits if_splits)
  obtain st where "cm_kind c = CElevation sid scope st"
    using key(3) by (auto simp: assertion_bound_def split: ceremony_kind.splits)
  moreover have "ce_get ce key = Some c" "now < cm_until c"
    using key(2) get_filter_Some [OF assms(1)] by (auto simp: ceremonies_purge_def Let_def)
  ultimately show ?thesis using that key by blast
qed

text \<open>
  C2: an elevation ends where it began. When \<open>elevation_finish\<close> succeeds, the request is authorised
  for viewing, and the response answers a ceremony that was running, had not expired, and was begun by
  this very session for this very scope; that ceremony is gone. The library verified the response with
  a credential of the session's own device, which is not locked, under the policy in force. The
  session then holds the scope until a moment no later than the end of the companion's window; no
  other session has changed.
\<close>

theorem elevation_finish_sound:
  assumes "gateway_reach X W i g" and "lib_challenge W"
    and "elevation_finish X W ctx scope credential nows rbinding rid g = (Inr until, g')"
  shows "\<exists>key c st d k va s. assertion_key W True credential = Some key
    \<and> hm_get (ce_entries (gw_ceremonies g)) key = Some c \<and> cm_kind c = CElevation (cx_session_id ctx) scope st
    \<and> nows 0 < cm_until c \<and> hm_get (ce_entries (gw_ceremonies g')) key = None
    \<and> cx_rp_id ctx = gw_rp_id g
    \<and> hm_get (id_devices (gw_identity g)) (cx_device_id ctx) = Some d \<and> \<not> dv_locked d
    \<and> k \<in> set (dv_credentials d) \<and> raw_id credential = Some (cr_id k)
    \<and> verify_assertion X W (gw_rp g) (ElevationState st) credential (cx_device_id ctx) k
        (po_passkey_binding (gw_policy g)) scope = Inr va
    \<and> hm_get (id_sessions (gw_identity g')) (cx_session_id ctx) = Some s \<and> se_device_id s = cx_device_id ctx
    \<and> scope_until s scope = Some until \<and> until \<le> po_enable_until (gw_policy g)
    \<and> (\<forall>sid. sid \<noteq> cx_session_id ctx \<longrightarrow>
          hm_get (id_sessions (gw_identity g')) sid = hm_get (id_sessions (gw_identity g)) sid)"
proof -
  have inv: "identity_inv X (gw_identity g)" "ceremonies_inv (gw_ceremonies g)" "gw_policy g = id_policy (gw_identity g)"
    using gateway_reach_inv [OF assms(1,2)] by (simp_all add: gateway_inv_def)
  obtain g1 where run: "elevation_run X W ctx scope credential nows rbinding rid g = (Inr until, g1)"
      and g': "gw_identity g' = gw_identity g1" "gw_ceremonies g' = gw_ceremonies g1"
    using assms(3) by (auto simp: elevation_finish_def split: prod.splits)
  from run obtain taken ce rw idt es where r:
      "take_assertion W credential (Some (cx_session_id ctx, scope)) (nows 0) (gw_ceremonies g) = (taken, ce)"
      "with_authorized (gw_rp_id g) ctx View (\<lambda>k. nows (k + 1))
         (elevation_write X W (gw_rp g) ctx scope credential taken nows rbinding rid) (gw_identity g) (gw_events g) = (rw, idt, es)"
      "Inr until = flatten_result rw" "gw_identity g1 = idt" "gw_ceremonies g1 = ce"
    by (rule elevation_run_cases)
  have rw: "rw = Inr (Inr until)" using r(3) by (auto simp: flatten_result_def split: sum.splits)
  obtain i1 i2 where a: "cx_rp_id ctx = gw_rp_id g" "revalidate ctx View (nows 1) (gw_identity g) = (True, i1)"
      "revalidate ctx View (nows 3) i1 = (True, i2)"
      "elevation_write X W (gw_rp g) ctx scope credential taken nows rbinding rid i2 (gw_events g) = (Inr until, idt, es)"
    using with_authorized_Inr [OF r(2) [unfolded rw]] by (simp add: numeral_3_eq_3) blast
  obtain c sid sc st where f: "taken = Inr c" "cm_kind c = CElevation sid sc st"
      "finish_assertion X W (gw_rp g) (ElevationState st) credential (Some (ctx, scope)) (nows 5) (nows 6) (nows 7) (nows 8)
         rbinding rid i2 (gw_events g) = (Inr (Elevated until), idt, es)"
    using a(4) by (cases rule: elevation_write_cases) (auto split: sum.splits assertion_result.splits)
  have i2: "identity_inv X i2" by (rule revalidate_inv [OF a(3) revalidate_inv [OF a(2) inv(1)]])
  obtain key where key: "assertion_key W True credential = Some key" "ce_get (gw_ceremonies g) key = Some c" "nows 0 < cm_until c"
      "cm_kind c = CElevation (cx_session_id ctx) scope st" "ce_get ce key = None"
    using taken_elevation [OF _ r(1) [unfolded f(1)]] inv(2) f(2) by (auto simp: ceremonies_inv_def)
  from a(2) obtain s1 where v1: "id_policy i1 = id_policy (gw_identity g)"
      "\<And>k. k \<noteq> cx_session_id ctx \<Longrightarrow> hm_get (id_sessions i1) k = hm_get (id_sessions (gw_identity g)) k"
      "\<And>k. map_option strip (hm_get (id_devices i1) k) = map_option strip (hm_get (id_devices (gw_identity g)) k)"
    by (rule revalidated) blast
  from a(3) obtain s2 where v2: "id_policy i2 = id_policy i1"
      "\<And>k. k \<noteq> cx_session_id ctx \<Longrightarrow> hm_get (id_sessions i2) k = hm_get (id_sessions i1) k"
      "\<And>k. map_option strip (hm_get (id_devices i2) k) = map_option strip (hm_get (id_devices i1) k)"
    by (rule revalidated) blast
  from f(3) show ?thesis
  proof (cases rule: finish_assertion_cases)
    case (elevated did c' scope' va cid idt1 ro)
    have e: "c' = ctx" "scope' = scope" "did = cx_device_id ctx" "ro = Some until" using elevated(1,2,7) by (auto split: option.splits)
    obtain d2 k where d2: "hm_get (id_devices i2) (cx_device_id ctx) = Some d2" "\<not> dv_locked d2"
        "List.find (\<lambda>c. cr_rp_id c = rp_host (gw_rp g) \<and> Some (cr_id c) = raw_id credential) (dv_credentials d2) = Some k"
        "verify_assertion X W (gw_rp g) (ElevationState st) credential (cx_device_id ctx) k (po_passkey_binding (id_policy i2)) scope = Inr va"
      using elevated(3) unfolding e by (rule assertion_check_Inr)
    have "map_option strip (hm_get (id_devices i2) (cx_device_id ctx)) = map_option strip (hm_get (id_devices (gw_identity g)) (cx_device_id ctx))"
      using v1(3) v2(3) by simp
    then obtain d where d: "hm_get (id_devices (gw_identity g)) (cx_device_id ctx) = Some d" "dv_credentials d = dv_credentials d2"
        "dv_locked d = dv_locked d2" using d2(1) by (rule strip_Some)
    have k: "k \<in> set (dv_credentials d)" "raw_id credential = Some (cr_id k)" using d2(3) d(2) by (auto simp: find_Some_iff)
    obtain d1 where d1: "id_sessions idt1 = id_sessions i2" "id_policy idt1 = id_policy i2"
      using checked_verified_inv [OF elevated(3-5) i2] by metis
    obtain s where s: "hm_get (id_sessions idt) (cx_session_id ctx) = Some s" "se_device_id s = cx_device_id ctx"
        "scope_until s scope = Some until" "until \<le> po_enable_until (id_policy idt1)"
        "\<And>k. k \<noteq> cx_session_id ctx \<Longrightarrow> hm_get (id_sessions idt) k = hm_get (id_sessions idt1) k"
      using elevated(6) unfolding e by (rule elevate_Some) blast
    have pol: "id_policy i2 = gw_policy g" using v1(1) v2(1) inv(3) by simp
    have "hm_get (id_sessions idt) sid = hm_get (id_sessions (gw_identity g)) sid" if "sid \<noteq> cx_session_id ctx" for sid
      using that s(5) d1(1) v1(2) v2(2) by simp
    then show ?thesis
      using key a(1) d d2(2,4) k s g' r(4,5) pol d1(2)
      by (intro exI [of _ key] exI [of _ c] exI [of _ st] exI [of _ d] exI [of _ k] exI [of _ va] exI [of _ s]) simp
  qed (auto split: option.splits sum.splits)
qed

section \<open>Witnesses\<close>

theorem gateway_invariant_witness: "hm_count (\<lambda>c. elevation_of (cm_kind c) \<noteq> None) (ce_entries (gw_ceremonies (snd desk_elevation)))
    \<le> po_max_devices (gw_policy (snd desk_elevation)) * 4"
  using gateway_invariant [OF desk_reach_elevation demo_lib_challenge] by blast

theorem elevation_never_starved_witness:
  "\<exists>c st. hm_get (ce_entries (gw_ceremonies (snd desk_elevation))) 8 = Some c \<and> cm_kind c = CElevation demo_sid Control st"
  using elevation_never_starved [OF desk_reach_logged demo_lib_challenge desk_options] by (auto simp: demo_ctx_def)

theorem elevation_finish_sound_witness: "\<exists>s. hm_get (id_sessions (gw_identity (snd desk_elevated))) demo_sid = Some s
    \<and> scope_until s Control = Some 5000"
proof -
  have "elevation_finish demo_ext demo_wl demo_ctx Control (desk_answer 8) (\<lambda>k. 300 + k) None None (snd desk_elevation)
      = (Inr 5000, snd desk_elevated)"
    using desk_elevated_ok by (cases desk_elevated) (simp add: desk_elevated_def)
  from elevation_finish_sound [OF desk_reach_elevation demo_lib_challenge this] show ?thesis by (auto simp: demo_ctx_def)
qed

end
