(* ===== verification/Herdr.thy ===== *)
theory Herdr
  imports Push_Watch Git_Bridge
begin

text \<open>
  \<open>companion/src/herdr.rs\<close>: the closed boundary to the local terminal multiplexer. The port trait,
  its local implementation over the Host's manager, the reads restricted to the allowed sessions, and
  the projection of a Host snapshot to what a phone may see; with the resolution of a session name in
  \<open>host/src/herdr_service.rs\<close> that the check of \<open>running\<close> has to agree with.

  The manager and every implementation of the port are functions on a state \<open>'w\<close> of the Host. A
  callback is named by the stream it feeds. \<open>S\<close> is the JSON writer.
\<close>

section \<open>Data of the Host\<close>

record named_session =
  ns_name :: string
  ns_default :: bool
  ns_running :: bool
  ns_session_dir :: string
  ns_socket_path :: string
  ns_connection_error :: "string option"

datatype terminal_event =
    TermFrame string u64 bool string u32 u32 string
  | TermClosed string "string option"
  | TermResync string "u64 option" "u64 option" string
  | TermError string string string

datatype scroll_direction = ScrollUp | ScrollDown

definition session_from_inventory :: "named_session list \<Rightarrow> string option \<Rightarrow> string + named_session" where
  "session_from_inventory sessions session_name =
     (if sessions = [] then Inl ''no herdr named sessions found''
      else let requested = (case map_option str_trim session_name of
                              None \<Rightarrow> None | Some s \<Rightarrow> if s = [] then None else Some s);
               default_entry = (case find ns_default sessions of
                                  Some d \<Rightarrow> Inr d
                                | None \<Rightarrow> Inr (hd sessions))
           in (case requested of
                 None \<Rightarrow> default_entry
               | Some name \<Rightarrow>
                   if name = ''live'' then default_entry
                   else (case find (\<lambda>s. ns_name s = name) sessions of
                           None \<Rightarrow> Inl (''herdr session not found: '' @ name)
                         | Some s \<Rightarrow> Inr s)))"

section \<open>The port\<close>

definition SNAPSHOT_BYTES :: nat where "SNAPSHOT_BYTES = 2 * 1024 * 1024"

definition METHOD_MAPPING :: "(string \<times> string list \<times> string) list" where
  "METHOD_MAPPING =
     [(''hello'', [], ''gateway''),
      (''session.ping'', [], ''gateway''),
      (''sessions.list'', [], ''session list --json''),
      (''snapshot.get'', [''ping'', ''session.snapshot''], ''API''),
      (''events.subscribe'', [''ping'', ''events.subscribe''], ''API subscription''),
      (''terminal.observe'', [''ping'', ''session.snapshot''], ''terminal session observe''),
      (''stream.close'', [], ''release connector/subscription''),
      (''terminal.control'', [''ping'', ''session.snapshot''], ''terminal session control''),
      (''terminal.input'', [], ''connector terminal.input''),
      (''terminal.scroll'', [], ''connector terminal.scroll''),
      (''terminal.release'', [], ''release connector''),
      (''agent.prompt'', [''ping'', ''session.snapshot'', ''agent.prompt''], ''API''),
      (''pane.sendKeys'', [''ping'', ''session.snapshot'', ''agent.send_keys''], ''API; agent panes only''),
      (''full.open'', [''ping''], ''official client PTY''),
      (''full.input'', [], ''official client PTY input''),
      (''full.resize'', [], ''official client PTY resize''),
      (''full.close'', [], ''release official client'')]"

datatype resource = Observe string | Events string

definition resource_id :: "resource \<Rightarrow> string" where
  "resource_id r = (case r of Observe i \<Rightarrow> i | Events i \<Rightarrow> i)"

record 'w herdr_port =
  hp_sessions :: "'w \<Rightarrow> (string + named_session list) \<times> 'w"
  hp_snapshot :: "string \<Rightarrow> 'w \<Rightarrow> (string + json) \<times> 'w"
  hp_observe :: "string \<Rightarrow> string \<Rightarrow> nat \<times> nat \<Rightarrow> u32 \<Rightarrow> 'w \<Rightarrow> (string + string) \<times> 'w"
  hp_subscribe :: "string \<Rightarrow> string list \<Rightarrow> u32 \<Rightarrow> 'w \<Rightarrow> (string + string) \<times> 'w"
  hp_release :: "resource \<Rightarrow> 'w \<Rightarrow> 'w"
  hp_control :: "string \<Rightarrow> string \<Rightarrow> nat \<times> nat \<Rightarrow> bool \<Rightarrow> u32 \<Rightarrow> 'w \<Rightarrow> (string + string) \<times> 'w"
  hp_full :: "string \<Rightarrow> nat \<times> nat \<Rightarrow> u32 \<Rightarrow> 'w \<Rightarrow> (string + string) \<times> 'w"
  hp_input :: "string \<Rightarrow> bytes \<Rightarrow> 'w \<Rightarrow> (string + unit) \<times> 'w"
  hp_scroll :: "string \<Rightarrow> scroll_direction \<Rightarrow> nat \<Rightarrow> 'w \<Rightarrow> (string + unit) \<times> 'w"
  hp_resize :: "string \<Rightarrow> nat \<times> nat \<Rightarrow> 'w \<Rightarrow> (string + unit) \<times> 'w"
  hp_prompt :: "string \<Rightarrow> string \<Rightarrow> string \<Rightarrow> 'w \<Rightarrow> (string + unit) \<times> 'w"
  hp_keys :: "string \<Rightarrow> string \<Rightarrow> string list \<Rightarrow> 'w \<Rightarrow> (string + unit) \<times> 'w"

section \<open>The local port\<close>

text \<open>The Host's manager as the local port uses it, with the names of the environment variables.\<close>

record 'w herdr_manager =
  mg_vars :: "'w \<Rightarrow> string list"
  mg_list_sessions :: "'w \<Rightarrow> (string + named_session list) \<times> 'w"
  mg_snapshot :: "string \<Rightarrow> 'w \<Rightarrow> (string + json) \<times> 'w"
  mg_open_terminal :: "string \<Rightarrow> bool \<Rightarrow> bool \<Rightarrow> nat \<times> nat \<Rightarrow> string \<Rightarrow> u32 \<Rightarrow> 'w \<Rightarrow> (string + string) \<times> 'w"
  mg_events_subscribe :: "string \<Rightarrow> string list \<Rightarrow> u32 \<Rightarrow> 'w \<Rightarrow> (string + string) \<times> 'w"
  mg_open_native_client :: "string \<Rightarrow> nat \<times> nat \<Rightarrow> u32 \<Rightarrow> 'w \<Rightarrow> (string + string) \<times> 'w"
  mg_terminal_input :: "string \<Rightarrow> string \<Rightarrow> 'w \<Rightarrow> (string + unit) \<times> 'w"
  mg_terminal_scroll :: "string \<Rightarrow> scroll_direction \<Rightarrow> nat \<Rightarrow> 'w \<Rightarrow> (string + unit) \<times> 'w"
  mg_terminal_resize :: "string \<Rightarrow> nat \<times> nat \<Rightarrow> 'w \<Rightarrow> (string + unit) \<times> 'w"
  mg_agent_prompt :: "string \<Rightarrow> string \<Rightarrow> string \<Rightarrow> 'w \<Rightarrow> (string + unit) \<times> 'w"
  mg_agent_send_keys :: "string \<Rightarrow> string \<Rightarrow> string list \<Rightarrow> 'w \<Rightarrow> (string + unit) \<times> 'w"
  mg_terminal_release :: "string \<Rightarrow> 'w \<Rightarrow> 'w"
  mg_events_release :: "string \<Rightarrow> 'w \<Rightarrow> 'w"

definition to_ascii_uppercase :: "char \<Rightarrow> char" where
  "to_ascii_uppercase c = (if is_ascii_lowercase c then char_of (code c - 32) else c)"

definition clean_environment :: "string list \<Rightarrow> bool" where
  "clean_environment names \<longleftrightarrow> \<not> list_ex (\<lambda>n. starts_with (map to_ascii_uppercase n) ''HERDR_'') names"

definition host_error :: "string \<Rightarrow> string" where
  "host_error error =
     (if starts_with error ''tooLarge:'' then ''payload-too-large''
      else if starts_with error ''agent_blocked:'' then ''agent-blocked''
      else if starts_with error ''ioTimeout:'' then ''stream-stalled''
      else ''herdr-unavailable'')"

text \<open>Every method but \<open>release\<close>: first the environment, then the call, with its error mapped.\<close>

definition local_call ::
  "'w herdr_manager \<Rightarrow> ('w \<Rightarrow> (string + 'a) \<times> 'w) \<Rightarrow> 'w \<Rightarrow> (string + 'a) \<times> 'w" where
  "local_call M call w =
     (if \<not> clean_environment (mg_vars M w) then (Inl ''herdr-environment'', w)
      else (case call w of (r, w') \<Rightarrow> (map_sum host_error id r, w')))"

text \<open>\<open>E\<close> is the standard base64 encoder.\<close>

definition local_herdr :: "(bytes \<Rightarrow> string) \<Rightarrow> 'w herdr_manager \<Rightarrow> 'w herdr_port" where
  "local_herdr E M =
     \<lparr>hp_sessions = local_call M (mg_list_sessions M),
      hp_snapshot = (\<lambda>session. local_call M (mg_snapshot M session)),
      hp_observe = (\<lambda>session target size sink. local_call M (mg_open_terminal M target False False size session sink)),
      hp_subscribe = (\<lambda>session panes sink. local_call M (mg_events_subscribe M session panes sink)),
      hp_release = (\<lambda>r. case r of Observe i \<Rightarrow> mg_terminal_release M i | Events i \<Rightarrow> mg_events_release M i),
      hp_control = (\<lambda>session target size takeover sink.
         local_call M (mg_open_terminal M target True takeover size session sink)),
      hp_full = (\<lambda>session size sink. local_call M (mg_open_native_client M session size sink)),
      hp_input = (\<lambda>res bs. local_call M (mg_terminal_input M res (E bs))),
      hp_scroll = (\<lambda>res d n. local_call M (mg_terminal_scroll M res d n)),
      hp_resize = (\<lambda>res size. local_call M (mg_terminal_resize M res size)),
      hp_prompt = (\<lambda>session target text. local_call M (mg_agent_prompt M session target text)),
      hp_keys = (\<lambda>session target keys. local_call M (mg_agent_send_keys M session target keys))\<rparr>"

section \<open>Snapshots\<close>

definition json_text :: "json \<Rightarrow> string \<Rightarrow> string option" where
  "json_text v k = json_as_str (json_index v k)"

definition json_opt :: "('a \<Rightarrow> json) \<Rightarrow> 'a option \<Rightarrow> json" where
  "json_opt f x = (case x of None \<Rightarrow> JNull | Some y \<Rightarrow> f y)"

definition status_of :: "json \<Rightarrow> string" where
  "status_of v = (case json_as_str v of None \<Rightarrow> ''unknown'' | Some s \<Rightarrow> status_name s)"

definition json_items :: "json \<Rightarrow> string \<Rightarrow> json list" where
  "json_items v k = json_array (json_index v k)"

definition json_u16 :: "json \<Rightarrow> nat option" where
  "json_u16 v = (case v of JNum n \<Rightarrow> if 0 \<le> n \<and> n < 2 ^ 16 then Some (nat n) else None | _ \<Rightarrow> None)"

definition rect_size :: "json \<Rightarrow> (nat \<times> nat) option" where
  "rect_size p =
     (case json_u16 (json_index (json_index p ''rect'') ''width'') of
        None \<Rightarrow> None
      | Some w \<Rightarrow> map_option (Pair w) (json_u16 (json_index (json_index p ''rect'') ''height'')))"

definition rect_max :: "nat \<times> nat \<Rightarrow> nat \<times> nat \<Rightarrow> nat \<times> nat" where
  "rect_max a b = (max (fst a) (fst b), max (snd a) (snd b))"

definition rect_list :: "json \<Rightarrow> string \<Rightarrow> (nat \<times> nat) list" where
  "rect_list snapshot p =
     List.map_filter rect_size
       (filter (\<lambda>v. json_index v ''pane_id'' = JStr p)
         (concat (map (\<lambda>layout. json_items layout ''panes'') (json_items snapshot ''layouts''))))"

definition rect_for :: "json \<Rightarrow> string \<Rightarrow> (nat \<times> nat) option" where
  "rect_for snapshot p =
     (case rect_list snapshot p of [] \<Rightarrow> None | r # rs \<Rightarrow> Some (foldl rect_max r rs))"

definition host_pane_ids :: "json \<Rightarrow> string list" where
  "host_pane_ids snapshot =
     filter valid_id (List.map_filter (\<lambda>p. json_text p ''pane_id'') (json_items snapshot ''panes''))"

definition is_target :: "string \<Rightarrow> json \<Rightarrow> bool" where
  "is_target target p \<longleftrightarrow>
     json_index p ''pane_id'' = JStr target \<or> json_index p ''terminal_id'' = JStr target"

definition target_pane :: "json \<Rightarrow> string \<Rightarrow> string + string" where
  "target_pane snapshot target =
     (case find (is_target target) (json_items snapshot ''panes'') of
        None \<Rightarrow> Inl ''target-not-found''
      | Some p \<Rightarrow>
          (case json_text p ''pane_id'' of
             None \<Rightarrow> Inl ''target-not-found''
           | Some i \<Rightarrow> if valid_id i then Inr i else Inl ''target-not-found''))"

definition observe_geometry :: "json \<Rightarrow> string \<Rightarrow> string + string \<times> nat \<times> nat" where
  "observe_geometry snapshot target =
     (case target_pane snapshot target of
        Inl e \<Rightarrow> Inl e
      | Inr i \<Rightarrow>
          (case rect_for snapshot i of
             None \<Rightarrow> Inl ''geometry-unavailable''
           | Some (c, r) \<Rightarrow> if c > 0 \<and> r > 0 then Inr (i, c, r) else Inl ''geometry-unavailable''))"

definition text_json :: "json \<Rightarrow> string \<Rightarrow> json" where
  "text_json v k = json_opt JStr (json_text v k)"

definition status_json :: "json \<Rightarrow> json" where
  "status_json v = JStr (status_of (json_index v ''agent_status''))"

definition normal_workspace :: "json \<Rightarrow> json" where
  "normal_workspace w =
     JObj [(''id'', text_json w ''workspace_id''), (''label'', text_json w ''label''), (''status'', status_json w)]"

definition normal_tab :: "json \<Rightarrow> json" where
  "normal_tab t =
     JObj [(''id'', text_json t ''tab_id''), (''workspaceId'', text_json t ''workspace_id''),
           (''label'', text_json t ''label'')]"

definition size_json :: "nat \<times> nat \<Rightarrow> json" where
  "size_json s = JObj [(''cols'', JNum (int (fst s))), (''rows'', JNum (int (snd s)))]"

definition normal_pane :: "json \<Rightarrow> json \<Rightarrow> json" where
  "normal_pane raw p =
     JObj [(''id'', text_json p ''pane_id''), (''tabId'', text_json p ''tab_id''),
           (''workspaceId'', text_json p ''workspace_id''), (''status'', status_json p),
           (''label'', text_json p ''label''),
           (''layout'', json_opt size_json (Option.bind (json_text p ''pane_id'') (rect_for raw)))]"

definition normal_agent :: "json \<Rightarrow> json" where
  "normal_agent a =
     JObj [(''paneId'', text_json a ''pane_id''), (''name'', text_json a ''name''),
           (''agent'', json_opt JStr (or_else (json_text a ''display_agent'') (json_text a ''agent''))),
           (''status'', status_json a)]"

definition project_snapshot :: "string \<Rightarrow> json \<Rightarrow> json" where
  "project_snapshot session raw =
     JObj [(''session'', JStr session),
           (''workspaces'', JArr (map normal_workspace (json_items raw ''workspaces''))),
           (''tabs'', JArr (map normal_tab (json_items raw ''tabs''))),
           (''panes'', JArr (map (normal_pane raw) (json_items raw ''panes''))),
           (''agents'', JArr (map normal_agent (json_items raw ''agents'')))]"

definition normalize_snapshot :: "(json \<Rightarrow> string) \<Rightarrow> string \<Rightarrow> json \<Rightarrow> string + json" where
  "normalize_snapshot S session raw =
     (if length (S (project_snapshot session raw)) > SNAPSHOT_BYTES then Inl ''payload-too-large''
      else Inr (project_snapshot session raw))"

definition closed_reason :: "string option \<Rightarrow> string" where
  "closed_reason reason =
     (case reason of
        None \<Rightarrow> ''stream-closed''
      | Some s \<Rightarrow>
          if s = ''terminal attach taken over'' then ''taken-over''
          else if s = ''server is shutting down'' then ''session-stopped''
          else if starts_with s ''terminal attach failed: ''
               \<and> ends_with s '' already has an attached client; retry with --takeover''
          then ''owned-elsewhere''
          else ''stream-closed'')"

section \<open>Reads\<close>

record 'w herdr_reads =
  hr_port :: "'w herdr_port"
  hr_allowlist :: "string list"

definition session_json :: "named_session \<Rightarrow> json" where
  "session_json s = JObj [(''name'', JStr (ns_name s)), (''default'', JBool (ns_default s))]"

definition reads_sessions :: "'w herdr_reads \<Rightarrow> 'w \<Rightarrow> (string + json) \<times> 'w" where
  "reads_sessions R w =
     (if hr_allowlist R = [] then (Inr (JObj [(''sessions'', JArr [])]), w)
      else (case hp_sessions (hr_port R) w of
              (Inl e, w') \<Rightarrow> (Inl e, w')
            | (Inr ss, w') \<Rightarrow>
                (Inr (JObj [(''sessions'', JArr (map session_json
                   (filter (\<lambda>s. ns_running s \<and> valid_id (ns_name s) \<and> ns_name s \<in> set (hr_allowlist R)) ss)))]), w')))"

definition session_check :: "string \<Rightarrow> named_session list \<Rightarrow> string + unit" where
  "session_check session sessions =
     (case find (\<lambda>s. ns_name s = session) sessions of
        None \<Rightarrow> Inl ''session-stopped''
      | Some named \<Rightarrow>
          if \<not> ns_running named then Inl ''session-stopped''
          else if session = ''live''
               \<and> (case find ns_default sessions of
                    Some d \<Rightarrow> ns_name d \<noteq> session
                  | None \<Rightarrow> (case sessions of [] \<Rightarrow> True | s # _ \<Rightarrow> ns_name s \<noteq> session))
          then Inl ''session-not-allowed''
          else Inr ())"

definition reads_running :: "'w herdr_reads \<Rightarrow> string \<Rightarrow> 'w \<Rightarrow> (string + unit) \<times> 'w" where
  "reads_running R session w =
     (if \<not> valid_id session \<or> session \<notin> set (hr_allowlist R) then (Inl ''session-not-allowed'', w)
      else (case hp_sessions (hr_port R) w of
              (Inl e, w') \<Rightarrow> (Inl e, w')
            | (Inr ss, w') \<Rightarrow> (session_check session ss, w')))"

definition after_error :: "'w herdr_reads \<Rightarrow> string \<Rightarrow> string \<Rightarrow> 'w \<Rightarrow> string \<times> 'w" where
  "after_error R session error w =
     (case reads_running R session w of
        (Inl e, w') \<Rightarrow> (if e = ''session-stopped'' then ''session-stopped'' else error, w')
      | (Inr _, w') \<Rightarrow> (error, w'))"

text \<open>A port call whose error is explained by a stopped session where there is one.\<close>

definition explained ::
  "'w herdr_reads \<Rightarrow> string \<Rightarrow> ('w \<Rightarrow> (string + 'a) \<times> 'w) \<Rightarrow> 'w \<Rightarrow> (string + 'a) \<times> 'w" where
  "explained R session call w =
     (case call w of
        (Inl e, w') \<Rightarrow> (case after_error R session e w' of (e', w'') \<Rightarrow> (Inl e', w''))
      | (Inr x, w') \<Rightarrow> (Inr x, w'))"

definition reads_snapshot :: "(json \<Rightarrow> string) \<Rightarrow> 'w herdr_reads \<Rightarrow> string \<Rightarrow> 'w \<Rightarrow> (string + json) \<times> 'w" where
  "reads_snapshot S R session w =
     (case reads_running R session w of
        (Inl e, w') \<Rightarrow> (Inl e, w')
      | (Inr _, w') \<Rightarrow>
          (case explained R session (hp_snapshot (hr_port R) session) w' of
             (Inl e, w'') \<Rightarrow> (Inl e, w'')
           | (Inr raw, w'') \<Rightarrow> (normalize_snapshot S session raw, w'')))"

end
