(* ===== verification/Herdr_Props.thy ===== *)
theory Herdr_Props
  imports Herdr
begin

text \<open>
  Correctness of \<open>Herdr\<close>: the type of what a phone receives as a snapshot, the fields of the Host's
  snapshot it can depend on, the agreement of the session check with the Host's own resolution of a
  name, the geometry of an observed pane, and the failures of the local port.
\<close>

section \<open>Shapes of JSON values\<close>

datatype shape =
    ShStr
  | ShEnum "string list"
  | ShNat nat
  | ShOpt shape
  | ShList shape
  | ShRec "(string \<times> shape) list"

inductive has_shape :: "json \<Rightarrow> shape \<Rightarrow> bool" where
  shape_str: "has_shape (JStr s) ShStr"
| shape_enum: "s \<in> set ss \<Longrightarrow> has_shape (JStr s) (ShEnum ss)"
| shape_nat: "0 \<le> n \<Longrightarrow> n < 2 ^ b \<Longrightarrow> has_shape (JNum n) (ShNat b)"
| shape_none: "has_shape JNull (ShOpt t)"
| shape_some: "has_shape v t \<Longrightarrow> has_shape v (ShOpt t)"
| shape_list: "list_all (\<lambda>v. has_shape v t) vs \<Longrightarrow> has_shape (JArr vs) (ShList t)"
| shape_rec: "map fst kvs = map fst ts \<Longrightarrow> list_all2 has_shape (map snd kvs) (map snd ts) \<Longrightarrow>
    has_shape (JObj kvs) (ShRec ts)"

inductive_cases shape_recE: "has_shape v (ShRec ts)"
inductive_cases shape_listE: "has_shape v (ShList t)"
inductive_cases shape_strE: "has_shape v ShStr"

definition STATUS_SHAPE :: shape where
  "STATUS_SHAPE = ShEnum [''idle'', ''working'', ''blocked'', ''done'', ''unknown'']"

definition SNAPSHOT_SHAPE :: shape where
  "SNAPSHOT_SHAPE = ShRec
     [(''session'', ShStr),
      (''workspaces'', ShList (ShRec
         [(''id'', ShOpt ShStr), (''label'', ShOpt ShStr), (''status'', STATUS_SHAPE)])),
      (''tabs'', ShList (ShRec
         [(''id'', ShOpt ShStr), (''workspaceId'', ShOpt ShStr), (''label'', ShOpt ShStr)])),
      (''panes'', ShList (ShRec
         [(''id'', ShOpt ShStr), (''tabId'', ShOpt ShStr), (''workspaceId'', ShOpt ShStr),
          (''status'', STATUS_SHAPE), (''label'', ShOpt ShStr),
          (''layout'', ShOpt (ShRec [(''cols'', ShNat 16), (''rows'', ShNat 16)]))])),
      (''agents'', ShList (ShRec
         [(''paneId'', ShOpt ShStr), (''name'', ShOpt ShStr), (''agent'', ShOpt ShStr), (''status'', STATUS_SHAPE)]))]"

lemma shape_opt_str: "has_shape (json_opt JStr x) (ShOpt ShStr)"
  by (cases x) (auto simp: json_opt_def intro: has_shape.intros)

lemma shape_text: "has_shape (text_json v k) (ShOpt ShStr)"
  by (simp add: text_json_def shape_opt_str)

lemma shape_status: "has_shape (status_json v) STATUS_SHAPE"
  by (auto simp: status_json_def status_of_def status_name_def STATUS_SHAPE_def split: option.splits
      intro: has_shape.intros)

lemma rect_list_bound:
  assumes "r \<in> set (rect_list raw p)"
  shows "fst r < 2 ^ 16 \<and> snd r < 2 ^ 16"
proof -
  obtain v where "rect_size v = Some r"
    using assms by (auto simp: rect_list_def List.map_filter_def)
  then show ?thesis
    by (auto simp: rect_size_def json_u16_def split: option.splits json.splits if_splits)
qed

lemma Max_insert_max: "finite A \<Longrightarrow> Max (insert (max a b) A) = Max (insert a (insert b A))"
  for a :: nat
  by (cases "A = {}") (auto simp: max.assoc)

lemma foldl_rect_max:
  "foldl rect_max r rs = (Max (insert (fst r) (fst ` set rs)), Max (insert (snd r) (snd ` set rs)))"
  by (induction rs arbitrary: r) (simp_all add: rect_max_def Max_insert_max del: Max_insert)

lemma rect_for_Some:
  "rect_for raw p = Some (c, r) \<longleftrightarrow>
     rect_list raw p \<noteq> [] \<and> c = Max (fst ` set (rect_list raw p)) \<and> r = Max (snd ` set (rect_list raw p))"
  by (auto simp: rect_for_def foldl_rect_max split: list.splits)

lemma rect_for_bound:
  assumes "rect_for raw p = Some (c, r)"
  shows "c < 2 ^ 16 \<and> r < 2 ^ 16"
proof -
  let ?l = "rect_list raw p"
  have ne: "?l \<noteq> []" and c: "c = Max (fst ` set ?l)" and r: "r = Max (snd ` set ?l)"
    using assms by (simp_all add: rect_for_Some)
  have "c \<in> fst ` set ?l" and "r \<in> snd ` set ?l" using ne c r by (auto intro!: Max_in)
  then show ?thesis using rect_list_bound by fastforce
qed

lemma shape_layout:
  "has_shape (json_opt size_json (Option.bind x (rect_for raw)))
     (ShOpt (ShRec [(''cols'', ShNat 16), (''rows'', ShNat 16)]))"
proof (cases "Option.bind x (rect_for raw)")
  case None
  then show ?thesis by (simp add: json_opt_def shape_none)
next
  case (Some s)
  then obtain p where "rect_for raw p = Some (fst s, snd s)" by (auto simp: bind_eq_Some_conv)
  then have "fst s < 2 ^ 16" and "snd s < 2 ^ 16" using rect_for_bound by blast+
  then have "int (fst s) < 2 ^ 16" and "int (snd s) < 2 ^ 16" by (simp_all flip: of_nat_less_iff)
  then show ?thesis using Some
    by (auto simp: json_opt_def size_json_def intro!: shape_some shape_rec shape_nat)
qed

lemmas shape_fields = shape_text shape_status shape_opt_str shape_layout

lemma shape_map: "(\<And>v. has_shape (f v) t) \<Longrightarrow> has_shape (JArr (map f vs)) (ShList t)"
  by (rule shape_list) (simp add: list_all_iff)

lemma project_typed: "has_shape (project_snapshot session raw) SNAPSHOT_SHAPE"
  unfolding project_snapshot_def SNAPSHOT_SHAPE_def
  by (rule shape_rec)
    (auto simp: normal_workspace_def normal_tab_def normal_pane_def normal_agent_def
      intro!: shape_map shape_rec shape_str shape_fields)

text \<open>
  C28: what leaves the gateway as a snapshot has the fixed type of the protocol, whatever value the
  Host sent: exactly the listed fields, every text a string or null, every status one of the five
  names, every size a 16-bit number. No other field, nesting or number of the Host can pass.
\<close>

theorem snapshot_typed:
  assumes "reads_snapshot S R session w = (Inr v, w')"
  shows "has_shape v SNAPSHOT_SHAPE"
  using assms project_typed
  by (auto simp: reads_snapshot_def normalize_snapshot_def split: sum.splits prod.splits if_splits)

section \<open>What a snapshot depends on\<close>

definition keep_fields :: "string list \<Rightarrow> json \<Rightarrow> json" where
  "keep_fields ks v = JObj (map (\<lambda>k. (k, json_index v k)) ks)"

definition keep_items :: "(json \<Rightarrow> json) \<Rightarrow> json \<Rightarrow> string \<Rightarrow> json" where
  "keep_items f v k = JArr (map f (json_items v k))"

text \<open>The Host's snapshot with everything erased that the projection may not read.\<close>

definition scrub_rect :: "json \<Rightarrow> json" where
  "scrub_rect p = JObj [(''pane_id'', json_index p ''pane_id''),
     (''rect'', keep_fields [''width'', ''height''] (json_index p ''rect''))]"

definition scrub_layout :: "json \<Rightarrow> json" where
  "scrub_layout l = JObj [(''panes'', keep_items scrub_rect l ''panes'')]"

definition scrub :: "json \<Rightarrow> json" where
  "scrub raw =
     JObj [(''workspaces'', keep_items (keep_fields [''workspace_id'', ''label'', ''agent_status'']) raw ''workspaces''),
       (''tabs'', keep_items (keep_fields [''tab_id'', ''workspace_id'', ''label'']) raw ''tabs''),
       (''panes'', keep_items (keep_fields [''pane_id'', ''tab_id'', ''workspace_id'', ''agent_status'', ''label'']) raw ''panes''),
       (''agents'', keep_items (keep_fields [''pane_id'', ''name'', ''display_agent'', ''agent'', ''agent_status'']) raw ''agents''),
       (''layouts'', keep_items scrub_layout raw ''layouts'')]"

lemma json_index_obj [simp]: "json_index (JObj kvs) k = (case map_of kvs k of None \<Rightarrow> JNull | Some v \<Rightarrow> v)"
  by (simp add: json_index_def json_get_def)

lemma keep_fields_index [simp]: "json_index (keep_fields ks v) k = (if k \<in> set ks then json_index v k else JNull)"
  by (induction ks) (auto simp: keep_fields_def)

lemma json_items_keep [simp]: "json_array (keep_items f v k) = map f (json_items v k)"
  by (simp add: keep_items_def json_array_def)

lemma scrub_items:
  "json_items (scrub raw) ''workspaces'' = map (keep_fields [''workspace_id'', ''label'', ''agent_status'']) (json_items raw ''workspaces'')"
  "json_items (scrub raw) ''tabs'' = map (keep_fields [''tab_id'', ''workspace_id'', ''label'']) (json_items raw ''tabs'')"
  "json_items (scrub raw) ''panes'' = map (keep_fields [''pane_id'', ''tab_id'', ''workspace_id'', ''agent_status'', ''label'']) (json_items raw ''panes'')"
  "json_items (scrub raw) ''agents'' = map (keep_fields [''pane_id'', ''name'', ''display_agent'', ''agent'', ''agent_status'']) (json_items raw ''agents'')"
  by (simp_all add: scrub_def json_items_def [of "JObj kvs" for kvs])

lemma scrub_layouts: "json_items (scrub raw) ''layouts'' = map scrub_layout (json_items raw ''layouts'')"
  by (simp add: scrub_def json_items_def [of "JObj kvs" for kvs])

lemma scrub_layout_items: "json_items (scrub_layout l) ''panes'' = map scrub_rect (json_items l ''panes'')"
  by (simp add: scrub_layout_def json_items_def [of "JObj kvs" for kvs])

lemma scrub_rect_index [simp]:
  "json_index (scrub_rect p) ''pane_id'' = json_index p ''pane_id''" "rect_size (scrub_rect p) = rect_size p"
  by (simp_all add: scrub_rect_def rect_size_def cong: option.case_cong)

lemma rect_list_scrub: "rect_list (scrub raw) p = rect_list raw p"
proof -
  have "concat (map (\<lambda>l. json_items l ''panes'') (json_items (scrub raw) ''layouts''))
      = map scrub_rect (concat (map (\<lambda>l. json_items l ''panes'') (json_items raw ''layouts'')))"
    by (simp add: scrub_layouts scrub_layout_items comp_def map_concat)
  then show ?thesis by (simp add: rect_list_def filter_map comp_def List.map_filter_def)
qed

lemma rect_for_scrub [simp]: "rect_for (scrub raw) = rect_for raw"
  by (simp add: rect_for_def rect_list_scrub fun_eq_iff)

lemma project_scrub: "project_snapshot session (scrub raw) = project_snapshot session raw"
  by (simp add: project_snapshot_def scrub_items comp_def normal_workspace_def normal_tab_def normal_pane_def
      normal_agent_def text_json_def json_text_def status_json_def)

text \<open>
  C9: a snapshot depends on nothing but the listed fields: erasing everything else from the Host's
  value (paths, commands, titles, state labels, tokens, unknown fields, at every level) changes
  neither the snapshot nor the decision that it is too large.
\<close>

theorem snapshot_reveals_only:
  "normalize_snapshot S session (scrub raw) = normalize_snapshot S session raw"
  by (simp add: normalize_snapshot_def project_scrub)

section \<open>The session check and the Host\<close>

lemma session_check_ok:
  assumes "session_check session ss = Inr ()"
  obtains named where "find (\<lambda>s. ns_name s = session) ss = Some named" and "ns_running named"
    and "session = ''live'' \<Longrightarrow> ns_name (case find ns_default ss of Some d \<Rightarrow> d | None \<Rightarrow> hd ss) = session"
  using assms by (auto simp: session_check_def split: option.splits if_splits list.splits)

lemma find_in: "find P xs = Some x \<Longrightarrow> x \<in> set xs \<and> P x"
  by (auto simp: find_Some_iff)

lemma inventory_default:
  assumes "ss \<noteq> []"
  shows "session_from_inventory ss (Some ''live'') = Inr (case find ns_default ss of Some d \<Rightarrow> d | None \<Rightarrow> hd ss)"
proof -
  have "str_trim ''live'' = ''live''" by code_simp
  then show ?thesis using assms by (simp add: session_from_inventory_def split: option.split)
qed

lemma inventory_named:
  assumes "find (\<lambda>s. ns_name s = n) ss = Some x" and "str_trim n = n" and "n \<noteq> []" and "n \<noteq> ''live''"
  shows "session_from_inventory ss (Some n) = Inr x"
  using assms by (auto simp: session_from_inventory_def)

lemma running_ok:
  assumes "reads_running R session w = (Inr (), w')"
  obtains ss where "hp_sessions (hr_port R) w = (Inr ss, w')" and "session_check session ss = Inr ()"
    and "session \<in> set (hr_allowlist R)" and "valid_id session"
  using assms by (auto simp: reads_running_def split: if_splits prod.splits sum.splits)

text \<open>
  A session that passes the check is one the desktop allowed, and the Host means the same
  session by its name: the Host's own resolution of that name, on the inventory the check saw, gives
  an entry of exactly this name (also for the name \<open>live\<close>, which the Host treats as an alias of the
  default session), and a running one unless the inventory lists two sessions of one name.
\<close>

theorem running_agrees:
  assumes "reads_running R session w = (Inr (), w')"
  shows "session \<in> set (hr_allowlist R)
    \<and> (\<exists>ss named. hp_sessions (hr_port R) w = (Inr ss, w')
         \<and> session_from_inventory ss (Some session) = Inr named
         \<and> ns_name named = session
         \<and> (distinct (map ns_name ss) \<longrightarrow> ns_running named))"
proof -
  obtain ss where ss: "hp_sessions (hr_port R) w = (Inr ss, w')" and ok: "session_check session ss = Inr ()"
    and allowed: "session \<in> set (hr_allowlist R)" and valid: "valid_id session"
    by (rule running_ok [OF assms])
  obtain x where x: "find (\<lambda>s. ns_name s = session) ss = Some x" and run: "ns_running x"
    and live: "session = ''live'' \<Longrightarrow> ns_name (case find ns_default ss of Some d \<Rightarrow> d | None \<Rightarrow> hd ss) = session"
    by (rule session_check_ok [OF ok]) blast
  have x_in: "x \<in> set ss" and x_name: "ns_name x = session" using find_in [OF x] by auto
  have trim: "str_trim session = session" and ne: "session \<noteq> []" using valid by (auto simp: valid_id_def)
  have "\<exists>named. session_from_inventory ss (Some session) = Inr named \<and> ns_name named = session
      \<and> (distinct (map ns_name ss) \<longrightarrow> ns_running named)"
  proof (cases "session = ''live''")
    case False
    then show ?thesis using inventory_named [OF x trim ne] run x_name by auto
  next
    case True
    let ?d = "case find ns_default ss of Some d \<Rightarrow> d | None \<Rightarrow> hd ss"
    have "ss \<noteq> []" using x_in by auto
    then have d: "session_from_inventory ss (Some session) = Inr ?d" using inventory_default True by simp
    have d_in: "?d \<in> set ss" using \<open>ss \<noteq> []\<close> find_in [of ns_default ss] by (auto split: option.split)
    have "?d = x" if "distinct (map ns_name ss)"
      using that d_in x_in live [OF True] x_name by (auto simp: distinct_map inj_on_def)
    then show ?thesis using d live [OF True] run by auto
  qed
  then show ?thesis using ss allowed by blast
qed

section \<open>Geometry\<close>

text \<open>
  A terminal is observed at a positive 16-bit size, the least one that covers every layout
  rectangle of its pane, and the pane is one of the snapshot's valid panes that the target names.
\<close>

theorem observe_geometry_sound:
  assumes "observe_geometry snapshot target = Inr (p, c, r)"
  shows "p \<in> set (host_pane_ids snapshot) \<and> 0 < c \<and> c < 2 ^ 16 \<and> 0 < r \<and> r < 2 ^ 16
    \<and> (\<forall>(c', r') \<in> set (rect_list snapshot p). c' \<le> c \<and> r' \<le> r)
    \<and> c \<in> fst ` set (rect_list snapshot p) \<and> r \<in> snd ` set (rect_list snapshot p)"
proof -
  let ?l = "rect_list snapshot p"
  obtain v where v: "find (is_target target) (json_items snapshot ''panes'') = Some v"
    and i: "json_text v ''pane_id'' = Some p" "valid_id p"
    and rect: "rect_for snapshot p = Some (c, r)" and pos: "0 < c" "0 < r"
    using assms by (auto simp: observe_geometry_def target_pane_def split: sum.splits option.splits if_splits)
  have "p \<in> set (host_pane_ids snapshot)"
    using find_in [OF v] i by (force simp: host_pane_ids_def List.map_filter_def)
  moreover have "?l \<noteq> []" and c: "c = Max (fst ` set ?l)" and r: "r = Max (snd ` set ?l)"
    using rect by (simp_all add: rect_for_Some)
  moreover have "c' \<le> c \<and> r' \<le> r" if "(c', r') \<in> set ?l" for c' r'
    unfolding c r using that by (force intro!: Max_ge)
  moreover have "c \<in> fst ` set ?l" and "r \<in> snd ` set ?l"
    unfolding c r using \<open>?l \<noteq> []\<close> by (auto intro!: Max_in)
  ultimately show ?thesis using pos rect_for_bound [OF rect] by blast
qed

section \<open>The local port\<close>

definition PORT_ERRORS :: "string set" where
  "PORT_ERRORS = {''herdr-environment'', ''payload-too-large'', ''agent-blocked'', ''stream-stalled'', ''herdr-unavailable''}"

lemma host_error_closed: "host_error e \<in> PORT_ERRORS"
  by (simp add: host_error_def PORT_ERRORS_def)

lemma local_call_error: "local_call M call w = (Inl e, w') \<Longrightarrow> e \<in> PORT_ERRORS"
  by (auto simp: local_call_def map_sum_def host_error_def PORT_ERRORS_def split: if_splits prod.splits sum.splits)

lemma local_call_dirty: "\<not> clean_environment (mg_vars M w) \<Longrightarrow> local_call M call w = (Inl ''herdr-environment'', w)"
  by (simp add: local_call_def)

lemmas local_port_simps = local_herdr_def herdr_port.simps

text \<open>
  The local port fails closed: as soon as one environment variable whose name starts with
  \<open>HERDR_\<close>, in any case, is set, no operation reaches the Host, and each reports it.
\<close>

theorem local_port_fails_closed:
  assumes "\<exists>n \<in> set (mg_vars M w). starts_with (map to_ascii_uppercase n) ''HERDR_''"
  shows "hp_sessions (local_herdr E M) w = (Inl ''herdr-environment'', w)
    \<and> hp_snapshot (local_herdr E M) session w = (Inl ''herdr-environment'', w)
    \<and> hp_observe (local_herdr E M) session target dims sink w = (Inl ''herdr-environment'', w)
    \<and> hp_subscribe (local_herdr E M) session panes sink w = (Inl ''herdr-environment'', w)
    \<and> hp_control (local_herdr E M) session target dims takeover sink w = (Inl ''herdr-environment'', w)
    \<and> hp_full (local_herdr E M) session dims sink w = (Inl ''herdr-environment'', w)
    \<and> hp_input (local_herdr E M) res bs w = (Inl ''herdr-environment'', w)
    \<and> hp_scroll (local_herdr E M) res d n w = (Inl ''herdr-environment'', w)
    \<and> hp_resize (local_herdr E M) res dims w = (Inl ''herdr-environment'', w)
    \<and> hp_prompt (local_herdr E M) session target text w = (Inl ''herdr-environment'', w)
    \<and> hp_keys (local_herdr E M) session target keys w = (Inl ''herdr-environment'', w)"
proof -
  have "\<not> clean_environment (mg_vars M w)" using assms by (auto simp: clean_environment_def list_ex_iff)
  then show ?thesis by (simp add: local_port_simps local_call_dirty)
qed

section \<open>Witnesses\<close>

definition demo_named :: "string \<Rightarrow> bool \<Rightarrow> named_session" where
  "demo_named n d = \<lparr>ns_name = n, ns_default = d, ns_running = True, ns_session_dir = ''/s'',
     ns_socket_path = ''/s/sock'', ns_connection_error = None\<rparr>"

definition demo_raw :: json where
  "demo_raw = JObj
     [(''panes'', JArr [JObj [(''pane_id'', JStr ''p1''), (''cwd'', JStr ''/secret''), (''agent_status'', JStr ''odd'')]]),
      (''layouts'', JArr [JObj [(''panes'', JArr
         [JObj [(''pane_id'', JStr ''p1''), (''rect'', JObj [(''width'', JNum 80), (''height'', JNum 24)])],
          JObj [(''pane_id'', JStr ''p1''), (''rect'', JObj [(''width'', JNum 40), (''height'', JNum 50)])]])]])]"

definition demo_port :: "unit herdr_port" where
  "demo_port =
     \<lparr>hp_sessions = (\<lambda>w. (Inr [demo_named ''main'' False, demo_named ''live'' True], w)),
      hp_snapshot = (\<lambda>session w. (Inr demo_raw, w)),
      hp_observe = (\<lambda>session target size sink w. (Inr ''t1'', w)),
      hp_subscribe = (\<lambda>session panes sink w. (Inr ''e1'', w)),
      hp_release = (\<lambda>r w. w),
      hp_control = (\<lambda>session target size takeover sink w. (Inr ''t2'', w)),
      hp_full = (\<lambda>session size sink w. (Inr ''t3'', w)),
      hp_input = (\<lambda>res bs w. (Inr (), w)),
      hp_scroll = (\<lambda>res d n w. (Inr (), w)),
      hp_resize = (\<lambda>res size w. (Inr (), w)),
      hp_prompt = (\<lambda>session target text w. (Inr (), w)),
      hp_keys = (\<lambda>session target keys w. (Inr (), w))\<rparr>"

definition demo_reads :: "unit herdr_reads" where
  "demo_reads = \<lparr>hr_port = demo_port, hr_allowlist = [''live'']\<rparr>"

lemma demo_running: "reads_running demo_reads ''live'' () = (Inr (), ())"
  by code_simp

lemma demo_snapshot_ok:
  "reads_snapshot (\<lambda>_. []) demo_reads ''live'' () = (Inr (project_snapshot ''live'' demo_raw), ())"
proof -
  have "explained demo_reads ''live'' (hp_snapshot (hr_port demo_reads) ''live'') () = (Inr demo_raw, ())"
    by (simp add: explained_def demo_reads_def demo_port_def)
  then show ?thesis by (simp add: reads_snapshot_def demo_running normalize_snapshot_def)
qed

theorem snapshot_typed_witness: "has_shape (project_snapshot ''live'' demo_raw) SNAPSHOT_SHAPE"
  by (rule snapshot_typed [OF demo_snapshot_ok])

theorem running_agrees_witness:
  "\<exists>ss named. hp_sessions demo_port () = (Inr ss, ()) \<and> session_from_inventory ss (Some ''live'') = Inr named
     \<and> ns_name named = ''live'' \<and> (distinct (map ns_name ss) \<longrightarrow> ns_running named)"
  using running_agrees [OF demo_running] by (simp add: demo_reads_def)

lemma demo_geometry: "observe_geometry demo_raw ''p1'' = Inr (''p1'', 80, 50)"
  by code_simp

theorem observe_geometry_sound_witness:
  "''p1'' \<in> set (host_pane_ids demo_raw) \<and> (\<forall>(c', r') \<in> set (rect_list demo_raw ''p1''). c' \<le> 80 \<and> r' \<le> 50)"
  using observe_geometry_sound [OF demo_geometry] by blast

definition demo_manager :: "unit herdr_manager" where
  "demo_manager =
     \<lparr>mg_vars = (\<lambda>w. [''PATH'', ''Herdr_socket'']),
      mg_list_sessions = (\<lambda>w. (Inr [], w)),
      mg_snapshot = (\<lambda>session w. (Inr JNull, w)),
      mg_open_terminal = (\<lambda>target control takeover size session sink w. (Inr ''t'', w)),
      mg_events_subscribe = (\<lambda>session panes sink w. (Inr ''e'', w)),
      mg_open_native_client = (\<lambda>session size sink w. (Inr ''t'', w)),
      mg_terminal_input = (\<lambda>res b w. (Inr (), w)),
      mg_terminal_scroll = (\<lambda>res d n w. (Inr (), w)),
      mg_terminal_resize = (\<lambda>res size w. (Inr (), w)),
      mg_agent_prompt = (\<lambda>session target text w. (Inr (), w)),
      mg_agent_send_keys = (\<lambda>session target keys w. (Inr (), w)),
      mg_terminal_release = (\<lambda>i w. w),
      mg_events_release = (\<lambda>i w. w)\<rparr>"

theorem local_port_fails_closed_witness:
  "hp_prompt (local_herdr (\<lambda>_. []) demo_manager) ''s'' ''t'' ''rm'' () = (Inl ''herdr-environment'', ())"
proof -
  have "\<exists>n \<in> set (mg_vars demo_manager ()). starts_with (map to_ascii_uppercase n) ''HERDR_''"
    by code_simp
  from local_port_fails_closed [OF this] show ?thesis by blast
qed

end
