(* ===== verification/Outbound.thy ===== *)
theory Outbound
  imports Herdr
begin

text \<open>
  The outbound side of a phone's connection, \<open>Outbound\<close> of \<open>companion/src/bridge.rs\<close> and
  \<open>snapshot_replies\<close> of \<open>read_bridge.rs\<close>: a bounded queue of messages that share two pools of
  bytes, replies queued as a whole or not at all, and large snapshots cut into chunks.

  A semaphore is the number of its free permits. A queued message keeps its bytes until the writer
  has written it: \<open>ob_flight\<close> is the message being written. The permit of a chunked batch is shared by
  the messages of the batch and returns when the last of them is dropped. A panic is \<open>None\<close>. \<open>S\<close> is
  the JSON writer and \<open>E\<close> the standard base64 encoder.
\<close>

section \<open>State\<close>

definition MESSAGE_BYTES :: nat where "MESSAGE_BYTES = 64 * 1024"
definition OUTBOUND_BYTES :: nat where "OUTBOUND_BYTES = 4 * 1024 * 1024"
definition WRITE_BUFFER_BYTES :: nat where "WRITE_BUFFER_BYTES = MESSAGE_BYTES + 1024"
definition REPLY_HEADROOM :: nat where "REPLY_HEADROOM = 128 * 1024"
definition OUT_CAPACITY :: nat where "OUT_CAPACITY = 256"

datatype message = MText string | MBinary bytes | MPing bytes

definition message_len :: "message \<Rightarrow> nat" where
  "message_len m = (case m of MText t \<Rightarrow> length t | MBinary b \<Rightarrow> length b | MPing b \<Rightarrow> length b)"

type_synonym close = "nat \<times> string"

definition SLOW :: close where "SLOW = (1013, ''slow-consumer'')"

record out_message =
  om_message :: message
  om_bytes :: nat
  om_reply :: bool
  om_batch :: bool

record outbound =
  ob_queue :: "out_message list"
  ob_flight :: "out_message option"
  ob_bytes :: nat
  ob_reply_bytes :: nat
  ob_chunked :: nat

definition outbound_new :: outbound where
  "outbound_new = \<lparr>ob_queue = [], ob_flight = None,
     ob_bytes = OUTBOUND_BYTES - WRITE_BUFFER_BYTES - REPLY_HEADROOM,
     ob_reply_bytes = REPLY_HEADROOM, ob_chunked = 1\<rparr>"

section \<open>Permits\<close>

definition as_u32 :: "nat \<Rightarrow> nat" where
  "as_u32 n = n mod 2 ^ 32"

definition acquire_bytes :: "nat \<Rightarrow> outbound \<Rightarrow> outbound option" where
  "acquire_bytes n ob =
     (if as_u32 n \<le> ob_bytes ob then Some (ob\<lparr>ob_bytes := ob_bytes ob - as_u32 n\<rparr>) else None)"

definition acquire_reply :: "nat \<Rightarrow> outbound \<Rightarrow> outbound option" where
  "acquire_reply n ob =
     (if as_u32 n \<le> ob_reply_bytes ob then Some (ob\<lparr>ob_reply_bytes := ob_reply_bytes ob - as_u32 n\<rparr>) else None)"

definition put_bytes :: "bool \<Rightarrow> nat \<Rightarrow> outbound \<Rightarrow> outbound" where
  "put_bytes reply n ob =
     (if reply then ob\<lparr>ob_reply_bytes := ob_reply_bytes ob + n\<rparr> else ob\<lparr>ob_bytes := ob_bytes ob + n\<rparr>)"

text \<open>The pool the permit came from, and the state after it.\<close>

definition reply_permit :: "nat \<Rightarrow> outbound \<Rightarrow> (string + bool) \<times> outbound" where
  "reply_permit n ob =
     (case acquire_reply n ob of
        Some ob' \<Rightarrow> (Inr True, ob')
      | None \<Rightarrow>
          (case acquire_bytes n ob of
             Some ob' \<Rightarrow> (Inr False, ob')
           | None \<Rightarrow> (Inl ''busy'', ob)))"

definition out_messages :: "outbound \<Rightarrow> out_message list" where
  "out_messages ob = (case ob_flight ob of None \<Rightarrow> ob_queue ob | Some q \<Rightarrow> q # ob_queue ob)"

text \<open>The end of a batch share: the last one gives the permit back.\<close>

definition end_batch :: "outbound \<Rightarrow> outbound" where
  "end_batch ob = (if list_ex om_batch (out_messages ob) then ob else ob\<lparr>ob_chunked := ob_chunked ob + 1\<rparr>)"

definition drop_message :: "out_message \<Rightarrow> outbound \<Rightarrow> outbound" where
  "drop_message q ob =
     (let ob' = put_bytes (om_reply q) (om_bytes q) ob in if om_batch q then end_batch ob' else ob')"

section \<open>Sending\<close>

definition try_send :: "out_message \<Rightarrow> outbound \<Rightarrow> outbound option" where
  "try_send q ob =
     (if length (ob_queue ob) < OUT_CAPACITY then Some (ob\<lparr>ob_queue := ob_queue ob @ [q]\<rparr>) else None)"

definition out_send :: "message \<Rightarrow> outbound \<Rightarrow> (close + unit) \<times> outbound" where
  "out_send m ob =
     (let n = message_len m
      in if n > MESSAGE_BYTES then (Inl (1009, ''payload-too-large''), ob)
         else case reply_permit (n + 16) ob of
           (Inl _, ob1) \<Rightarrow> (Inl SLOW, ob1)
         | (Inr pool, ob1) \<Rightarrow>
             (let q = \<lparr>om_message = m, om_bytes = as_u32 (n + 16), om_reply = pool, om_batch = False\<rparr>
              in case try_send q ob1 of
                   Some ob2 \<Rightarrow> (Inr (), ob2)
                 | None \<Rightarrow> (Inl SLOW, drop_message q ob1)))"

text \<open>The loop of \<open>batch\<close>: \<open>permits\<close> is what is left of the reserved bytes.\<close>

fun send_all :: "bool \<Rightarrow> bool \<Rightarrow> nat \<Rightarrow> message list \<Rightarrow> outbound \<Rightarrow> ((string + unit) \<times> outbound) option" where
  "send_all pool chunked permits [] ob = Some (Inr (), put_bytes pool permits ob)"
| "send_all pool chunked permits (m # ms) ob =
     (if permits < message_len m + 16 then None
      else (let q = \<lparr>om_message = m, om_bytes = message_len m + 16, om_reply = pool, om_batch = chunked\<rparr>
            in case try_send q ob of
                 Some ob' \<Rightarrow> send_all pool chunked (permits - (message_len m + 16)) ms ob'
               | None \<Rightarrow>
                   (let ob' = put_bytes pool permits ob
                    in Some (Inl ''busy'', if chunked then end_batch ob' else ob'))))"

definition batch_chunked :: "json list \<Rightarrow> bool" where
  "batch_chunked replies = (json_index (json_index (hd replies) ''result'') ''chunked'' = JBool True)"

definition batch_bytes :: "message list \<Rightarrow> nat" where
  "batch_bytes ms = sum_list (map (\<lambda>m. message_len m + 16) ms)"

text \<open>What follows the chunk permit: its error returns give that permit back.\<close>

definition batch_send :: "bool \<Rightarrow> message list \<Rightarrow> outbound \<Rightarrow> ((string + unit) \<times> outbound) option" where
  "batch_send chunked ms ob =
     (let back = (\<lambda>ob. if chunked then end_batch ob else ob)
      in if list_ex (\<lambda>m. message_len m > MESSAGE_BYTES) ms then Some (Inl ''payload-too-large'', back ob)
         else if OUT_CAPACITY - length (ob_queue ob) < length ms then Some (Inl ''busy'', back ob)
         else if chunked then
           (case acquire_bytes (batch_bytes ms) ob of
              None \<Rightarrow> Some (Inl ''busy'', back ob)
            | Some ob' \<Rightarrow> send_all False True (as_u32 (batch_bytes ms)) ms ob')
         else
           (case reply_permit (batch_bytes ms) ob of
              (Inl e, ob') \<Rightarrow> Some (Inl e, ob')
            | (Inr pool, ob') \<Rightarrow> send_all pool False (as_u32 (batch_bytes ms)) ms ob'))"

definition out_batch :: "(json \<Rightarrow> string) \<Rightarrow> json list \<Rightarrow> outbound \<Rightarrow> ((string + unit) \<times> outbound) option" where
  "out_batch S replies ob =
     (if replies = [] then Some (Inr (), ob)
      else if batch_chunked replies then
        (if ob_chunked ob = 0 then Some (Inl ''busy'', ob)
         else batch_send True (map (\<lambda>v. MText (S v)) replies) (ob\<lparr>ob_chunked := ob_chunked ob - 1\<rparr>))
      else batch_send False (map (\<lambda>v. MText (S v)) replies) ob)"

definition rpc_error :: "json \<Rightarrow> string \<Rightarrow> string \<Rightarrow> json" where
  "rpc_error i code' message =
     JObj [(''id'', i), (''error'', JObj [(''code'', JStr code'), (''message'', JStr message)])]"

definition REPLY_QUEUE_FULL :: close where "REPLY_QUEUE_FULL = (1008, ''reply-queue-full'')"

definition out_replies :: "(json \<Rightarrow> string) \<Rightarrow> json list \<Rightarrow> outbound \<Rightarrow> ((close + unit) \<times> outbound) option" where
  "out_replies S replies ob =
     (let i = (case replies of [] \<Rightarrow> JNull | v # _ \<Rightarrow> json_index v ''id'')
      in case out_batch S replies ob of
           None \<Rightarrow> None
         | Some (Inr _, ob1) \<Rightarrow> Some (Inr (), ob1)
         | Some (Inl code', ob1) \<Rightarrow>
             (case out_batch S [rpc_error i code' code'] ob1 of
                None \<Rightarrow> None
              | Some (Inr _, ob2) \<Rightarrow> Some (Inr (), ob2)
              | Some (Inl _, ob2) \<Rightarrow> Some (Inl REPLY_QUEUE_FULL, ob2)))"

definition out_event :: "(json \<Rightarrow> string) \<Rightarrow> string \<Rightarrow> json \<Rightarrow> outbound \<Rightarrow> (close + unit) \<times> outbound" where
  "out_event S event data ob = out_send (MText (S (JObj [(''event'', JStr event), (''data'', data)]))) ob"

section \<open>The writer\<close>

text \<open>\<open>pending.recv()\<close>: the message leaves the queue and is in flight until its write ends.\<close>

definition out_recv :: "outbound \<Rightarrow> message option \<times> outbound" where
  "out_recv ob =
     (case (ob_flight ob, ob_queue ob) of
        (None, q # qs) \<Rightarrow> (Some (om_message q), ob\<lparr>ob_queue := qs, ob_flight := Some q\<rparr>)
      | _ \<Rightarrow> (None, ob))"

definition out_written :: "outbound \<Rightarrow> outbound" where
  "out_written ob = (case ob_flight ob of None \<Rightarrow> ob | Some q \<Rightarrow> drop_message q (ob\<lparr>ob_flight := None\<rparr>))"

section \<open>Chunked snapshots\<close>

definition CHUNK_BYTES :: nat where "CHUNK_BYTES = 36 * 1024"
definition INLINE_BYTES :: nat where "INLINE_BYTES = 48 * 1024"

definition read_error :: "json \<Rightarrow> string \<Rightarrow> json" where
  "read_error i code' = JObj [(''id'', i), (''error'', JObj [(''code'', JStr code'), (''message'', JStr code')])]"

definition read_reply :: "json \<Rightarrow> json \<Rightarrow> json" where
  "read_reply i v = JObj [(''id'', i), (''result'', v)]"

text \<open>\<open>slice::chunks\<close>; the source calls it with a positive constant.\<close>

function chunks_of :: "nat \<Rightarrow> 'a list \<Rightarrow> 'a list list" where
  "chunks_of n xs = (if xs = [] \<or> n = 0 then [] else take n xs # chunks_of n (drop n xs))"
  by pat_completeness auto

termination by (relation "measure (\<lambda>(n, xs). length xs)") auto

declare chunks_of.simps [simp del]

definition chunk_header :: "json \<Rightarrow> nat \<Rightarrow> json" where
  "chunk_header i n =
     read_reply i (JObj [(''chunked'', JBool True), (''encoding'', JStr ''base64-json-v1''),
       (''bytes'', JNum (int n)), (''chunks'', JNum (int (div_ceil n CHUNK_BYTES)))])"

definition chunk_event :: "(bytes \<Rightarrow> string) \<Rightarrow> json \<Rightarrow> nat \<times> bytes \<Rightarrow> json" where
  "chunk_event E i c =
     JObj [(''event'', JStr ''snapshot.chunk''),
       (''data'', JObj [(''id'', i), (''index'', JNum (int (fst c))), (''data'', JStr (E (snd c)))])]"

definition snapshot_replies :: "(json \<Rightarrow> string) \<Rightarrow> (bytes \<Rightarrow> string) \<Rightarrow> json \<Rightarrow> json \<Rightarrow> json list" where
  "snapshot_replies S E i v =
     (let bs = str_bytes (S v)
      in if length bs > SNAPSHOT_BYTES then [read_error i ''payload-too-large'']
         else if length bs \<le> INLINE_BYTES then [read_reply i v]
         else chunk_header i (length bs) # map (chunk_event E i) (enumerate 0 (chunks_of CHUNK_BYTES bs)))"

end
