(* ===== verification/Outbound_Props.thy ===== *)
theory Outbound_Props
  imports Outbound
begin

text \<open>
  Correctness of \<open>Outbound\<close>: the accounting of its permits, batches that are queued as a whole or not
  at all, and chunked snapshots that fit the connection's message size and reassemble to the value.
\<close>

section \<open>Pools of permits\<close>

text \<open>What a client of a semaphore relies on: taking and giving back permits change one number.\<close>

locale permit_pool =
  fixes free :: "'s \<Rightarrow> nat"
    and acquire :: "nat \<Rightarrow> 's \<Rightarrow> 's option"
    and release :: "nat \<Rightarrow> 's \<Rightarrow> 's"
  assumes acquire_free: "acquire n s = Some s' \<Longrightarrow> free s' + as_u32 n = free s"
    and acquire_None: "acquire n s = None \<longleftrightarrow> free s < as_u32 n"
    and release_free: "free (release n s) = free s + n"
begin

lemma acquire_le: "acquire n s = Some s' \<Longrightarrow> as_u32 n \<le> free s"
  using acquire_free by fastforce

lemma round_trip: "acquire n s = Some s' \<Longrightarrow> free (release (as_u32 n) s') = free s"
  using acquire_free by (simp add: release_free)

end

interpretation shared: permit_pool ob_bytes acquire_bytes "put_bytes False"
  by unfold_locales (auto simp: acquire_bytes_def put_bytes_def split: if_splits)

interpretation headroom: permit_pool ob_reply_bytes acquire_reply "put_bytes True"
  by unfold_locales (auto simp: acquire_reply_def put_bytes_def split: if_splits)

lemma as_u32_le: "as_u32 n \<le> n"
  by (simp add: as_u32_def)

lemma as_u32_small: "n < 2 ^ 32 \<Longrightarrow> as_u32 n = n"
  by (simp add: as_u32_def)

section \<open>The accounting\<close>

definition SHARED_BYTES :: nat where
  "SHARED_BYTES = OUTBOUND_BYTES - WRITE_BUFFER_BYTES - REPLY_HEADROOM"

definition out_held :: "bool \<Rightarrow> outbound \<Rightarrow> nat" where
  "out_held pool ob = sum_list (map om_bytes (filter (\<lambda>q. om_reply q = pool) (out_messages ob)))"

definition out_message_ok :: "out_message \<Rightarrow> bool" where
  "out_message_ok q \<longleftrightarrow> om_bytes q = message_len (om_message q) + 16 \<and> message_len (om_message q) \<le> MESSAGE_BYTES"

text \<open>\<open>frames\<close> is what the frames of the streams hold of the shared bytes.\<close>

definition ob_inv :: "nat \<Rightarrow> outbound \<Rightarrow> bool" where
  "ob_inv frames ob \<longleftrightarrow>
     ob_bytes ob + out_held False ob + frames = SHARED_BYTES
     \<and> ob_reply_bytes ob + out_held True ob = REPLY_HEADROOM
     \<and> length (ob_queue ob) \<le> OUT_CAPACITY
     \<and> list_all out_message_ok (out_messages ob)
     \<and> ob_chunked ob = (if list_ex om_batch (out_messages ob) then 0 else 1)"

lemma ob_inv_new: "ob_inv 0 outbound_new"
  by (simp add: ob_inv_def outbound_new_def SHARED_BYTES_def out_held_def out_messages_def)

lemma out_messages_queue:
  "out_messages (ob\<lparr>ob_queue := ob_queue ob @ qs\<rparr>) = out_messages ob @ qs"
  by (simp add: out_messages_def split: option.split)

lemma out_messages_pools [simp]:
  "out_messages (ob\<lparr>ob_bytes := a\<rparr>) = out_messages ob"
  "out_messages (ob\<lparr>ob_reply_bytes := a\<rparr>) = out_messages ob"
  "out_messages (ob\<lparr>ob_chunked := a\<rparr>) = out_messages ob"
  by (simp_all add: out_messages_def split: option.split)

lemma put_bytes_0 [simp]: "put_bytes pool 0 ob = ob"
  by (simp add: put_bytes_def)

lemma message_small: "message_len m \<le> MESSAGE_BYTES \<Longrightarrow> as_u32 (message_len m + 16) = message_len m + 16"
  by (rule as_u32_small) (simp add: MESSAGE_BYTES_def)

lemma batch_bytes_small:
  assumes "\<not> list_ex (\<lambda>m. message_len m > MESSAGE_BYTES) ms" and "length ms \<le> OUT_CAPACITY"
  shows "as_u32 (batch_bytes ms) = batch_bytes ms"
proof (rule as_u32_small)
  have "batch_bytes ms \<le> sum_list (map (\<lambda>_. MESSAGE_BYTES + 16) ms)"
    unfolding batch_bytes_def using assms(1) by (intro sum_list_mono) (auto simp: list_ex_iff not_less)
  also have "\<dots> = length ms * (MESSAGE_BYTES + 16)" by (simp add: sum_list_triv)
  also have "\<dots> \<le> OUT_CAPACITY * (MESSAGE_BYTES + 16)" using assms(2) by (rule mult_le_mono1)
  also have "\<dots> < 2 ^ 32" by (simp add: OUT_CAPACITY_def MESSAGE_BYTES_def)
  finally show "batch_bytes ms < 2 ^ 32" .
qed

section \<open>Batches\<close>

definition as_queued :: "bool \<Rightarrow> bool \<Rightarrow> message \<Rightarrow> out_message" where
  "as_queued pool chunked m =
     \<lparr>om_message = m, om_bytes = message_len m + 16, om_reply = pool, om_batch = chunked\<rparr>"

lemma send_all_fits:
  assumes "permits = batch_bytes ms" and "length (ob_queue ob) + length ms \<le> OUT_CAPACITY"
  shows "send_all pool chunked permits ms ob =
    Some (Inr (), ob\<lparr>ob_queue := ob_queue ob @ map (as_queued pool chunked) ms\<rparr>)"
  using assms
proof (induction ms arbitrary: permits ob)
  case Nil
  then show ?case by (simp add: batch_bytes_def)
next
  case (Cons m ms)
  have "permits - (message_len m + 16) = batch_bytes ms" and "\<not> permits < message_len m + 16"
    using Cons.prems(1) by (simp_all add: batch_bytes_def)
  moreover have "try_send (as_queued pool chunked m) ob = Some (ob\<lparr>ob_queue := ob_queue ob @ [as_queued pool chunked m]\<rparr>)"
    using Cons.prems(2) by (simp add: try_send_def)
  ultimately show ?case
    using Cons.prems(2) by (simp add: as_queued_def [symmetric] Cons.IH Let_def)
qed

definition took :: "bool \<Rightarrow> nat \<Rightarrow> outbound \<Rightarrow> outbound" where
  "took pool n ob =
     (if pool then ob\<lparr>ob_reply_bytes := ob_reply_bytes ob - n\<rparr> else ob\<lparr>ob_bytes := ob_bytes ob - n\<rparr>)"

definition has_bytes :: "bool \<Rightarrow> nat \<Rightarrow> outbound \<Rightarrow> bool" where
  "has_bytes pool n ob \<longleftrightarrow> n \<le> (if pool then ob_reply_bytes ob else ob_bytes ob)"

lemma reply_permit_cases:
  assumes "as_u32 n = n"
  obtains (ok) pool where "reply_permit n ob = (Inr pool, took pool n ob)" and "has_bytes pool n ob"
  | (busy) "reply_permit n ob = (Inl ''busy'', ob)" and "ob_bytes ob < n" and "ob_reply_bytes ob < n"
proof -
  consider "n \<le> ob_reply_bytes ob" | "ob_reply_bytes ob < n" "n \<le> ob_bytes ob" | "ob_reply_bytes ob < n" "ob_bytes ob < n"
    by linarith
  then show ?thesis
  proof cases
    case 1
    then show ?thesis using assms by (intro ok [of True]) (simp_all add: reply_permit_def acquire_reply_def took_def has_bytes_def)
  next
    case 2
    then show ?thesis using assms
      by (intro ok [of False]) (simp_all add: reply_permit_def acquire_reply_def acquire_bytes_def took_def has_bytes_def)
  next
    case 3
    then show ?thesis using assms by (intro busy) (simp_all add: reply_permit_def acquire_reply_def acquire_bytes_def)
  qed
qed

lemma took_chunked: "took pool n (ob\<lparr>ob_chunked := c\<rparr>) = (took pool n ob)\<lparr>ob_chunked := c\<rparr>"
  by (simp add: took_def)

lemma took_queue [simp]: "ob_queue (took pool n ob) = ob_queue ob"
  by (simp add: took_def)

text \<open>A batch either leaves the state as it was, or all its messages are queued.\<close>

definition batched :: "bool \<Rightarrow> bool \<Rightarrow> message list \<Rightarrow> outbound \<Rightarrow> outbound" where
  "batched pool chunked ms ob =
     (let ob' = took pool (batch_bytes ms) ob
      in ob'\<lparr>ob_queue := ob_queue ob @ map (as_queued pool chunked) ms,
             ob_chunked := (if chunked then ob_chunked ob - 1 else ob_chunked ob)\<rparr>)"

definition batch_fits :: "bool \<Rightarrow> message list \<Rightarrow> outbound \<Rightarrow> bool" where
  "batch_fits pool ms ob \<longleftrightarrow>
     list_all (\<lambda>m. message_len m \<le> MESSAGE_BYTES) ms \<and> length (ob_queue ob) + length ms \<le> OUT_CAPACITY
     \<and> has_bytes pool (batch_bytes ms) ob"

lemma end_batch_back:
  "ob_chunked ob \<noteq> 0 \<Longrightarrow> \<not> list_ex om_batch (out_messages ob) \<Longrightarrow>
     end_batch (ob\<lparr>ob_chunked := ob_chunked ob - 1\<rparr>) = ob"
  by (simp add: end_batch_def)

lemma batch_send_plain:
  assumes "length (ob_queue ob) \<le> OUT_CAPACITY"
  obtains (ok) pool where "batch_send False ms ob = Some (Inr (), batched pool False ms ob)" and "batch_fits pool ms ob"
  | (refused) e where "batch_send False ms ob = Some (Inl e, ob)"
proof (cases "list_ex (\<lambda>m. message_len m > MESSAGE_BYTES) ms \<or> OUT_CAPACITY - length (ob_queue ob) < length ms")
  case True
  then have "\<exists>e. batch_send False ms ob = Some (Inl e, ob)" by (auto simp: batch_send_def Let_def)
  then show ?thesis using refused by blast
next
  case False
  then have small: "as_u32 (batch_bytes ms) = batch_bytes ms" by (intro batch_bytes_small) auto
  have len: "length (ob_queue ob) + length ms \<le> OUT_CAPACITY" using False assms by auto
  from small show ?thesis
  proof (cases rule: reply_permit_cases [where ob = ob])
    case (ok pool)
    have "batch_send False ms ob = Some (Inr (), batched pool False ms ob)"
      using False ok(1) len
      by (simp add: batch_send_def small send_all_fits batched_def Let_def) (simp add: took_def)
    moreover have "batch_fits pool ms ob"
      using False ok(2) len by (auto simp: batch_fits_def list_ex_iff list_all_iff not_less)
    ultimately show ?thesis by (rule that(1))
  next
    case busy
    then show ?thesis using False by (intro refused) (auto simp: batch_send_def)
  qed
qed

lemma batch_send_chunked:
  assumes "length (ob_queue ob) \<le> OUT_CAPACITY" and "ob_chunked ob \<noteq> 0" and "\<not> list_ex om_batch (out_messages ob)"
  obtains (ok) "batch_send True ms (ob\<lparr>ob_chunked := ob_chunked ob - 1\<rparr>) = Some (Inr (), batched False True ms ob)"
      and "batch_fits False ms ob"
  | (refused) e where "batch_send True ms (ob\<lparr>ob_chunked := ob_chunked ob - 1\<rparr>) = Some (Inl e, ob)"
proof (cases "list_ex (\<lambda>m. message_len m > MESSAGE_BYTES) ms \<or> OUT_CAPACITY - length (ob_queue ob) < length ms
    \<or> ob_bytes ob < as_u32 (batch_bytes ms)")
  case True
  then have "\<exists>e. batch_send True ms (ob\<lparr>ob_chunked := ob_chunked ob - 1\<rparr>) = Some (Inl e, ob)"
    using end_batch_back [OF assms(2,3)] by (auto simp: batch_send_def acquire_bytes_def Let_def)
  then show ?thesis using refused by blast
next
  case False
  then have small: "as_u32 (batch_bytes ms) = batch_bytes ms" by (intro batch_bytes_small) auto
  have len: "length (ob_queue ob) + length ms \<le> OUT_CAPACITY" using False assms by auto
  have "batch_send True ms (ob\<lparr>ob_chunked := ob_chunked ob - 1\<rparr>) = Some (Inr (), batched False True ms ob)"
    using False len
    by (simp add: batch_send_def acquire_bytes_def small send_all_fits batched_def took_def Let_def)
  moreover have "batch_fits False ms ob"
    using False len by (auto simp: batch_fits_def has_bytes_def small list_ex_iff list_all_iff not_less)
  ultimately show ?thesis by (rule that(1))
qed

lemma out_held_append:
  "out_messages ob' = out_messages ob @ qs \<Longrightarrow>
     out_held pool ob' = out_held pool ob + sum_list (map om_bytes (filter (\<lambda>q. om_reply q = pool) qs))"
  by (simp add: out_held_def)

lemma batched_messages: "out_messages (batched pool chunked ms ob) = out_messages ob @ map (as_queued pool chunked) ms"
  by (auto simp: batched_def out_messages_def took_def Let_def split: option.split)

lemma batched_held:
  "out_held p (batched pool chunked ms ob) = out_held p ob + (if p = pool then batch_bytes ms else 0)"
  by (auto simp: out_held_append [OF batched_messages] filter_map comp_def as_queued_def batch_bytes_def)

lemma batched_inv:
  assumes "ob_inv n ob" and "batch_fits pool ms ob" and "ms \<noteq> []"
    and "chunked \<Longrightarrow> ob_chunked ob \<noteq> 0 \<and> \<not> pool"
  shows "ob_inv n (batched pool chunked ms ob)"
proof -
  have "list_all out_message_ok (map (as_queued pool chunked) ms)"
    using assms(2) by (auto simp: batch_fits_def list_all_iff out_message_ok_def as_queued_def)
  moreover have "list_ex om_batch (map (as_queued pool chunked) ms) = chunked"
    using assms(3) by (cases ms) (auto simp: as_queued_def list_ex_iff)
  ultimately show ?thesis
    using assms
    by (auto simp: ob_inv_def batched_messages batched_held batch_fits_def has_bytes_def)
      (auto simp: batched_def took_def Let_def split: if_splits)
qed

lemma out_batch_cases:
  assumes "ob_inv n ob"
  obtains (empty) "replies = []" and "out_batch S replies ob = Some (Inr (), ob)"
  | (ok) pool chunked where "replies \<noteq> []"
      and "out_batch S replies ob = Some (Inr (), batched pool chunked (map (\<lambda>v. MText (S v)) replies) ob)"
      and "ob_inv n (batched pool chunked (map (\<lambda>v. MText (S v)) replies) ob)"
  | (refused) e where "replies \<noteq> []" and "out_batch S replies ob = Some (Inl e, ob)"
proof (cases "replies = []")
  case True
  then show ?thesis by (intro empty) (simp_all add: out_batch_def)
next
  case False
  let ?ms = "map (\<lambda>v. MText (S v)) replies"
  have len: "length (ob_queue ob) \<le> OUT_CAPACITY" using assms by (simp add: ob_inv_def)
  show ?thesis
  proof (cases "batch_chunked replies")
    case plain: False
    then have eq: "out_batch S replies ob = batch_send False ?ms ob" using False by (simp add: out_batch_def)
    from len show ?thesis
    proof (cases rule: batch_send_plain [where ms = ?ms])
      case (ok pool)
      then show ?thesis using False batched_inv [OF assms ok(2), of False] by (intro that(2)) (simp_all add: eq)
    next
      case (refused e)
      then show ?thesis using False by (intro that(3)) (simp_all add: eq)
    qed
  next
    case chunked: True
    show ?thesis
    proof (cases "ob_chunked ob = 0")
      case True
      then show ?thesis using False chunked by (intro that(3)) (simp_all add: out_batch_def)
    next
      case free: False
      then have none: "\<not> list_ex om_batch (out_messages ob)" using assms by (auto simp: ob_inv_def split: if_splits)
      have eq: "out_batch S replies ob = batch_send True ?ms (ob\<lparr>ob_chunked := ob_chunked ob - 1\<rparr>)"
        using False chunked free by (simp add: out_batch_def)
      from len free none show ?thesis
      proof (cases rule: batch_send_chunked [where ms = ?ms])
        case ok
        then show ?thesis using False free batched_inv [OF assms ok(2), of True] by (intro that(2)) (simp_all add: eq)
      next
        case (refused e)
        then show ?thesis using False by (intro that(3)) (simp_all add: eq)
      qed
    qed
  qed
qed

text \<open>
  C21: a batch of replies is queued as a whole, in order and behind what is queued already, or it
  changes nothing: no message of it, no permit and no share of the chunk permit stays behind. It
  never panics on the division of its permits.
\<close>

theorem batch_all_or_nothing:
  assumes "ob_inv n ob"
  shows "\<exists>r ob'. out_batch S replies ob = Some (r, ob')
    \<and> (case r of
         Inl e \<Rightarrow> ob' = ob
       | Inr _ \<Rightarrow> map om_message (ob_queue ob') = map om_message (ob_queue ob) @ map (\<lambda>v. MText (S v)) replies
             \<and> ob_flight ob' = ob_flight ob)"
  using assms
proof (cases rule: out_batch_cases [where S = S and replies = replies])
  case (ok pool chunked)
  then show ?thesis by (simp add: batched_def Let_def took_def as_queued_def comp_def)
qed auto

section \<open>Every operation keeps the accounting\<close>

lemma ob_inv_send:
  assumes "ob_inv n ob"
  shows "ob_inv n (snd (out_send m ob))"
proof (cases "message_len m > MESSAGE_BYTES")
  case True
  then show ?thesis using assms by (simp add: out_send_def)
next
  case False
  then have small: "as_u32 (message_len m + 16) = message_len m + 16" by (simp add: message_small)
  then show ?thesis
  proof (cases rule: reply_permit_cases [where ob = ob])
    case (ok pool)
    let ?q = "as_queued pool False m" and ?t = "took pool (message_len m + 16) ob"
    show ?thesis
    proof (cases "length (ob_queue ob) < OUT_CAPACITY")
      case True
      then have "snd (out_send m ob) = batched pool False [m] ob"
        using False ok(1) small
        by (simp add: out_send_def try_send_def as_queued_def batched_def batch_bytes_def Let_def)
          (simp add: took_def)
      moreover have "batch_fits pool [m] ob"
        using False True ok(2) by (simp add: batch_fits_def batch_bytes_def)
      ultimately show ?thesis using batched_inv [OF assms, of pool "[m]" False] by simp
    next
      case full: False
      then have "snd (out_send m ob) = put_bytes pool (message_len m + 16) ?t"
        using False ok(1) small by (simp add: out_send_def try_send_def drop_message_def Let_def)
      also have "\<dots> = ob" using ok(2) by (auto simp: put_bytes_def took_def has_bytes_def)
      finally show ?thesis using assms by simp
    qed
  next
    case busy
    then show ?thesis using False assms by (simp add: out_send_def)
  qed
qed

lemma ob_inv_batch: "ob_inv n ob \<Longrightarrow> out_batch S replies ob = Some (r, ob') \<Longrightarrow> ob_inv n ob'"
  by (frule out_batch_cases [where S = S and replies = replies]) auto

lemma out_batch_total:
  assumes "ob_inv n ob"
  obtains r ob' where "out_batch S replies ob = Some (r, ob')" and "ob_inv n ob'"
  using assms by (cases rule: out_batch_cases [where S = S and replies = replies]) (use assms in auto)

lemma ob_inv_event: "ob_inv n ob \<Longrightarrow> ob_inv n (snd (out_event S e d ob))"
  by (simp add: out_event_def ob_inv_send)

lemma out_replies_total:
  assumes "ob_inv n ob"
  obtains r ob' where "out_replies S replies ob = Some (r, ob')" and "ob_inv n ob'"
proof -
  obtain r ob1 where one_batch: "out_batch S replies ob = Some (r, ob1)" "ob_inv n ob1" using out_batch_total [OF assms] .
  show ?thesis
  proof (cases r)
    case (Inr u)
    then show ?thesis using one_batch by (intro that [of "Inr ()" ob1]) (simp_all add: out_replies_def)
  next
    case (Inl e)
    obtain r2 ob2 where two: "out_batch S [rpc_error (case replies of [] \<Rightarrow> JNull | v # _ \<Rightarrow> json_index v ''id'') e e] ob1
        = Some (r2, ob2)" "ob_inv n ob2" using out_batch_total [OF one_batch(2)] .
    show ?thesis
      using one_batch(1) two Inl
      by (intro that [of "case r2 of Inl _ \<Rightarrow> Inl REPLY_QUEUE_FULL | Inr _ \<Rightarrow> Inr ()" ob2])
        (auto simp: out_replies_def split: sum.splits)
  qed
qed

lemma ob_inv_replies: "ob_inv n ob \<Longrightarrow> out_replies S replies ob = Some (r, ob') \<Longrightarrow> ob_inv n ob'"
  by (frule out_replies_total [where S = S and replies = replies]) auto

lemma ob_inv_recv: "ob_inv n ob \<Longrightarrow> ob_inv n (snd (out_recv ob))"
  by (auto simp: out_recv_def ob_inv_def out_messages_def out_held_def split: option.splits list.splits)

lemma drop_message_keeps [simp]: "out_messages (drop_message q ob) = out_messages ob" "ob_queue (drop_message q ob) = ob_queue ob"
  by (simp_all add: drop_message_def end_batch_def put_bytes_def Let_def)

lemma drop_message_counts:
  "ob_bytes (drop_message q ob) = ob_bytes ob + (if om_reply q then 0 else om_bytes q)"
  "ob_reply_bytes (drop_message q ob) = ob_reply_bytes ob + (if om_reply q then om_bytes q else 0)"
  "ob_chunked (drop_message q ob) =
     ob_chunked ob + (if om_batch q \<and> \<not> list_ex om_batch (out_messages ob) then 1 else 0)"
  by (simp_all add: drop_message_def end_batch_def put_bytes_def Let_def)

lemma ob_inv_drop:
  assumes "ob_inv n ob" and "out_messages ob = q # out_messages ob0"
    and "ob_bytes ob0 = ob_bytes ob" and "ob_reply_bytes ob0 = ob_reply_bytes ob" and "ob_chunked ob0 = ob_chunked ob"
    and "ob_queue ob0 = ob_queue ob"
  shows "ob_inv n (drop_message q ob0)"
proof -
  have held: "out_held p ob = (if om_reply q = p then om_bytes q else 0) + out_held p ob0" for p
    using assms(2) by (simp add: out_held_def)
  have same: "out_held p (drop_message q ob0) = out_held p ob0" for p by (simp add: out_held_def)
  have "ob_chunked ob = (if om_batch q \<or> list_ex om_batch (out_messages ob0) then 0 else 1)"
    using assms(1,2) by (simp add: ob_inv_def)
  then show ?thesis
    using assms(1,2) held [of True] held [of False]
    by (simp add: ob_inv_def drop_message_counts same assms(3-6) split: if_splits)
qed

lemma ob_inv_written:
  assumes "ob_inv n ob"
  shows "ob_inv n (out_written ob)"
proof (cases "ob_flight ob")
  case None
  then show ?thesis using assms by (simp add: out_written_def)
next
  case (Some q)
  then have "out_messages ob = q # out_messages (ob\<lparr>ob_flight := None\<rparr>)" by (simp add: out_messages_def)
  from ob_inv_drop [OF assms this] show ?thesis using Some by (simp add: out_written_def)
qed

lemma ob_inv_bound:
  assumes "ob_inv n ob"
  shows "sum_list (map om_bytes (out_messages ob)) + n + WRITE_BUFFER_BYTES \<le> OUTBOUND_BYTES"
proof -
  have "sum_list (map om_bytes xs) = sum_list (map om_bytes (filter (\<lambda>q. om_reply q = True) xs))
      + sum_list (map om_bytes (filter (\<lambda>q. om_reply q = False) xs))" for xs
    by (induction xs) auto
  then have "sum_list (map om_bytes (out_messages ob)) = out_held True ob + out_held False ob"
    by (simp only: out_held_def)
  then show ?thesis
    using assms
    by (simp add: ob_inv_def SHARED_BYTES_def OUTBOUND_BYTES_def WRITE_BUFFER_BYTES_def REPLY_HEADROOM_def MESSAGE_BYTES_def)
qed

section \<open>Refused batches\<close>

definition reply_id :: "json list \<Rightarrow> json" where
  "reply_id replies = (case replies of [] \<Rightarrow> JNull | v # _ \<Rightarrow> json_index v ''id'')"

definition error_text :: "(json \<Rightarrow> string) \<Rightarrow> json list \<Rightarrow> string \<Rightarrow> string" where
  "error_text S replies e = S (rpc_error (reply_id replies) e e)"

lemma rpc_error_plain: "\<not> batch_chunked [rpc_error i e m]"
  by (simp add: batch_chunked_def rpc_error_def json_index_def json_get_def)

lemma single_refused:
  assumes "ob_inv n ob" and "out_batch S [rpc_error i e e] ob = Some (Inl x, ob')"
  shows "MESSAGE_BYTES < length (S (rpc_error i e e)) \<or> length (ob_queue ob) = OUT_CAPACITY
    \<or> ob_reply_bytes ob < length (S (rpc_error i e e)) + 16"
proof (rule ccontr)
  let ?t = "S (rpc_error i e e)"
  assume "\<not> ?thesis"
  then have t: "length ?t \<le> MESSAGE_BYTES" and room: "length (ob_queue ob) < OUT_CAPACITY"
    and bytes: "length ?t + 16 \<le> ob_reply_bytes ob"
    using assms(1) by (auto simp: ob_inv_def)
  have "reply_permit (batch_bytes [MText ?t]) ob = (Inr True, took True (batch_bytes [MText ?t]) ob)"
    using bytes as_u32_le [of "length ?t + 16"] message_small [of "MText ?t"] t
    by (simp add: reply_permit_def acquire_reply_def batch_bytes_def message_len_def took_def)
  then have "out_batch S [rpc_error i e e] ob = send_all True False (as_u32 (batch_bytes [MText ?t])) [MText ?t]
      (took True (batch_bytes [MText ?t]) ob)"
    using t room by (simp add: out_batch_def rpc_error_plain batch_send_def message_len_def)
  also have "as_u32 (batch_bytes [MText ?t]) = batch_bytes [MText ?t]"
    using message_small [of "MText ?t"] t by (simp add: batch_bytes_def message_len_def)
  finally have "out_batch S [rpc_error i e e] ob \<noteq> Some (Inl x, ob')"
    using room send_all_fits [of "batch_bytes [MText ?t]" "[MText ?t]" "took True (batch_bytes [MText ?t]) ob" True False]
    by (simp del: send_all.simps)
  then show False using assms(2) by simp
qed

text \<open>
  A request whose replies do not fit is answered all the same: the replies are queued, or an
  error reply with the request's id in their place; the connection is given up only when not even
  that small reply fits, and then nothing has been queued.
\<close>

theorem refused_batch_answered:
  assumes "ob_inv n ob"
  shows "\<exists>r ob'. out_replies S replies ob = Some (r, ob') \<and>
    (case r of
       Inr _ \<Rightarrow>
         map om_message (ob_queue ob') = map om_message (ob_queue ob) @ map (\<lambda>v. MText (S v)) replies
         \<or> (\<exists>e. map om_message (ob_queue ob') = map om_message (ob_queue ob) @ [MText (error_text S replies e)])
     | Inl c \<Rightarrow> c = REPLY_QUEUE_FULL \<and> ob' = ob
         \<and> (\<exists>e. MESSAGE_BYTES < length (error_text S replies e) \<or> length (ob_queue ob) = OUT_CAPACITY
              \<or> ob_reply_bytes ob < length (error_text S replies e) + 16))"
  using assms
proof (cases rule: out_batch_cases [where S = S and replies = replies])
  case empty
  then show ?thesis by (simp add: out_replies_def)
next
  case (ok pool chunked)
  then show ?thesis by (simp add: out_replies_def batched_def Let_def took_def as_queued_def comp_def)
next
  case (refused e)
  from assms show ?thesis
  proof (cases rule: out_batch_cases [where S = S and replies = "[rpc_error (reply_id replies) e e]"])
    case empty
    then show ?thesis by simp
  next
    case (ok pool chunked)
    then show ?thesis using refused
      by (auto simp: out_replies_def reply_id_def error_text_def batched_def Let_def took_def as_queued_def)
  next
    case again: (refused x)
    then show ?thesis using refused single_refused [OF assms again(2)]
      by (auto simp: out_replies_def reply_id_def error_text_def)
  qed
qed


section \<open>Chunks\<close>

lemma chunks_of_Nil [simp]: "chunks_of n [] = []"
  by (simp add: chunks_of.simps)

lemma chunks_of_step: "xs \<noteq> [] \<Longrightarrow> 0 < n \<Longrightarrow> chunks_of n xs = take n xs # chunks_of n (drop n xs)"
  by (subst chunks_of.simps) simp

lemma concat_chunks: "0 < n \<Longrightarrow> concat (chunks_of n xs) = xs"
proof (induction n xs rule: chunks_of.induct)
  case (1 n xs)
  then show ?case by (cases "xs = []") (simp_all add: chunks_of_step)
qed

lemma div_ceil_step: "0 < n \<Longrightarrow> n < m \<Longrightarrow> div_ceil m n = Suc (div_ceil (m - n) n)"
  using div_add_self2 [of n "m - n + n - 1"] by (simp add: div_ceil_def)

lemma div_ceil_one: "0 < m \<Longrightarrow> m \<le> n \<Longrightarrow> div_ceil m n = 1"
  by (auto simp: div_ceil_def intro!: div_nat_eqI)

lemma length_chunks: "0 < n \<Longrightarrow> length (chunks_of n xs) = div_ceil (length xs) n"
proof (induction n xs rule: chunks_of.induct)
  case (1 n xs)
  show ?case
  proof (cases "length xs \<le> n")
    case True
    then show ?thesis using 1(2) by (cases "xs = []") (simp_all add: chunks_of_step div_ceil_one, simp add: div_ceil_def)
  next
    case False
    then have "xs \<noteq> []" by auto
    then have "length (chunks_of n xs) = Suc (length (chunks_of n (drop n xs)))" using 1(2) by (simp add: chunks_of_step)
    also have "length (chunks_of n (drop n xs)) = div_ceil (length xs - n) n" using 1 \<open>xs \<noteq> []\<close> by simp
    finally show ?thesis using False 1(2) by (simp add: div_ceil_step)
  qed
qed

lemma chunk_length: "c \<in> set (chunks_of n xs) \<Longrightarrow> length c \<le> n"
proof (induction n xs rule: chunks_of.induct)
  case (1 n xs)
  then show ?case by (cases "xs = [] \<or> n = 0") (auto simp: chunks_of_step chunks_of.simps [of 0])
qed

text \<open>How a phone puts the value together: the decoded data of the events, in the order of arrival.\<close>

definition event_bytes :: "(string \<Rightarrow> bytes option) \<Rightarrow> json \<Rightarrow> bytes option" where
  "event_bytes D ev = Option.bind (json_as_str (json_index (json_index ev ''data'') ''data'')) D"

fun reassemble :: "(string \<Rightarrow> bytes option) \<Rightarrow> json list \<Rightarrow> bytes option" where
  "reassemble D [] = Some []"
| "reassemble D (ev # evs) =
     (case (event_bytes D ev, reassemble D evs) of (Some a, Some b) \<Rightarrow> Some (a @ b) | _ \<Rightarrow> None)"

text \<open>Standard base64 as documented: four characters for three bytes, padded, none needing an escape.\<close>

definition plain_char :: "char \<Rightarrow> bool" where
  "plain_char c \<longleftrightarrow> 32 \<le> code c \<and> code c \<le> 126 \<and> c \<noteq> CHR ''\"'' \<and> c \<noteq> CHR 0x5C"

definition std_base64 :: "(bytes \<Rightarrow> string) \<Rightarrow> (string \<Rightarrow> bytes option) \<Rightarrow> bool" where
  "std_base64 E D \<longleftrightarrow>
     (\<forall>bs. length (E bs) = 4 * div_ceil (length bs) 3 \<and> list_all plain_char (E bs) \<and> D (E bs) = Some bs)"

lemma event_bytes_chunk: "std_base64 E D \<Longrightarrow> event_bytes D (chunk_event E i c) = Some (snd c)"
  by (simp add: event_bytes_def chunk_event_def json_index_def json_get_def json_as_str_def std_base64_def)

lemma event_index: "json_index (json_index (chunk_event E i c) ''data'') ''index'' = JNum (int (fst c))"
  by (simp add: chunk_event_def json_index_def json_get_def)

lemma reassemble_chunks:
  "std_base64 E D \<Longrightarrow> reassemble D (map (chunk_event E i) cs) = Some (concat (map snd cs))"
  by (induction cs) (simp_all add: event_bytes_chunk)

text \<open>
  C36: a snapshot that is too large for one message arrives whole: the first reply announces exactly
  the number of chunks that follow and of bytes they hold, and a phone that appends the decoded
  chunks in their order gets the written value back, byte for byte.
\<close>

theorem chunks_round_trip:
  assumes "std_base64 E D" and "INLINE_BYTES < length (S v)" and "length (S v) \<le> SNAPSHOT_BYTES"
  shows "\<exists>evs. snapshot_replies S E i v = chunk_header i (length (S v)) # evs
    \<and> json_index (json_index (chunk_header i (length (S v))) ''result'') ''chunks'' = JNum (int (length evs))
    \<and> reassemble D evs = Some (str_bytes (S v))
    \<and> map (\<lambda>ev. json_index (json_index ev ''data'') ''index'') evs = map (\<lambda>k. JNum (int k)) [0..<length evs]"
proof -
  let ?cs = "chunks_of CHUNK_BYTES (str_bytes (S v))"
  let ?evs = "map (chunk_event E i) (enumerate 0 ?cs)"
  have pos: "0 < CHUNK_BYTES" by (simp add: CHUNK_BYTES_def)
  have "snapshot_replies S E i v = chunk_header i (length (S v)) # ?evs"
    using assms(2,3) by (simp add: snapshot_replies_def Let_def)
  moreover have "reassemble D ?evs = Some (str_bytes (S v))"
    using reassemble_chunks [OF assms(1)] by (simp add: concat_chunks [OF pos])
  moreover have "length ?evs = div_ceil (length (S v)) CHUNK_BYTES"
    by (simp add: length_chunks [OF pos])
  moreover have "map (\<lambda>ev. json_index (json_index ev ''data'') ''index'') ?evs = map (\<lambda>k. JNum (int k)) [0..<length ?evs]"
  proof -
    have "map (\<lambda>c. JNum (int (fst c))) (enumerate 0 ?cs) = map (\<lambda>k. JNum (int k)) (map fst (enumerate 0 ?cs))"
      by (simp only: map_map comp_def)
    then show ?thesis by (simp add: event_index comp_def)
  qed
  ultimately show ?thesis
    by (auto simp: chunk_header_def read_reply_def json_index_def json_get_def)
qed

section \<open>Messages fit the connection\<close>

text \<open>
  The sizes of compact JSON as documented: an object is its fields with quotes, colons and commas, a
  string of plain characters is itself between quotes, a natural number its digits.
\<close>

definition json_sizes :: "(json \<Rightarrow> string) \<Rightarrow> bool" where
  "json_sizes S \<longleftrightarrow>
     (\<forall>kvs. length (S (JObj kvs)) \<le> 2 + sum_list (map (\<lambda>(k, v). length (S (JStr k)) + length (S v) + 2) kvs))
     \<and> (\<forall>s. list_all plain_char s \<longrightarrow> length (S (JStr s)) = length s + 2)
     \<and> (\<forall>n. length (S (JNum (int n))) = length (nat_str n))
     \<and> (\<forall>b. length (S (JBool b)) \<le> 5)"

lemma size_obj:
  "json_sizes S \<Longrightarrow> length (S (JObj kvs)) \<le> 2 + sum_list (map (\<lambda>(k, v). length (S (JStr k)) + length (S v) + 2) kvs)"
  by (simp add: json_sizes_def)

lemma size_str: "json_sizes S \<Longrightarrow> list_all plain_char s \<Longrightarrow> length (S (JStr s)) = length s + 2"
  by (simp add: json_sizes_def)

lemma size_num: "json_sizes S \<Longrightarrow> length (S (JNum (int n))) = length (nat_str n)"
  by (simp add: json_sizes_def)

lemma size_bool: "json_sizes S \<Longrightarrow> length (S (JBool b)) \<le> 5"
  by (simp add: json_sizes_def)

lemma nat_str_length: "n < 10 ^ Suc d \<Longrightarrow> length (nat_str n) \<le> Suc d"
proof (induction d arbitrary: n)
  case 0
  then show ?case by (simp add: nat_str.simps)
next
  case (Suc d)
  have "n div 10 < 10 ^ Suc d" using Suc.prems by (simp add: less_mult_imp_div_less mult.commute)
  then have "length (nat_str (n div 10)) \<le> Suc d" by (rule Suc.IH)
  then show ?case by (subst nat_str.simps) simp
qed

lemma plain_keys:
  "list_all plain_char ''id''" "list_all plain_char ''result''" "list_all plain_char ''error''"
  "list_all plain_char ''code''" "list_all plain_char ''message''" "list_all plain_char ''event''"
  "list_all plain_char ''data''" "list_all plain_char ''index''" "list_all plain_char ''chunked''"
  "list_all plain_char ''encoding''" "list_all plain_char ''bytes''" "list_all plain_char ''chunks''"
  "list_all plain_char ''snapshot.chunk''" "list_all plain_char ''base64-json-v1''" "list_all plain_char ''payload-too-large''"
  by code_simp+

lemmas key_sizes = plain_keys [THEN [2] size_str]

lemma size_chunk_event:
  assumes "json_sizes S" and "std_base64 E D" and "length c \<le> CHUNK_BYTES" and "k < 100"
  shows "length (S (chunk_event E i (k, c))) \<le> length (S i) + 49152 + 70"
proof -
  have "div_ceil (length c) 3 \<le> div_ceil CHUNK_BYTES 3" using assms(3) by (simp add: div_ceil_def div_le_mono)
  then have e: "length (E c) \<le> 49152" using assms(2) by (simp add: std_base64_def div_ceil_def CHUNK_BYTES_def)
  have p: "list_all plain_char (E c)" using assms(2) by (simp add: std_base64_def)
  have k: "length (nat_str k) \<le> 2" using nat_str_length [of k 1] assms(4) by simp
  let ?d = "JObj [(''id'', i), (''index'', JNum (int k)), (''data'', JStr (E c))]"
  have "length (S ?d) \<le> length (S i) + length (E c) + 34"
    using size_obj [OF assms(1), of "[(''id'', i), (''index'', JNum (int k)), (''data'', JStr (E c))]"] k
    by (simp add: key_sizes [OF assms(1)] size_num [OF assms(1)] size_str [OF assms(1) p])
  then show ?thesis
    using size_obj [OF assms(1), of "[(''event'', JStr ''snapshot.chunk''), (''data'', ?d)]"] e
    by (simp add: chunk_event_def key_sizes [OF assms(1)])
qed

lemma size_read_reply:
  assumes "json_sizes S"
  shows "length (S (read_reply i v)) \<le> length (S i) + length (S v) + 20"
  using size_obj [OF assms, of "[(''id'', i), (''result'', v)]"]
  by (simp add: read_reply_def key_sizes [OF assms])

lemma size_read_error:
  assumes "json_sizes S" and "list_all plain_char e"
  shows "length (S (read_error i e)) \<le> length (S i) + 2 * length e + 60"
proof -
  have "length (S (JObj [(''code'', JStr e), (''message'', JStr e)])) \<le> 2 * length e + 30"
    using size_obj [OF assms(1), of "[(''code'', JStr e), (''message'', JStr e)]"]
    by (simp add: key_sizes [OF assms(1)] size_str [OF assms])
  then show ?thesis
    using size_obj [OF assms(1), of "[(''id'', i), (''error'', JObj [(''code'', JStr e), (''message'', JStr e)])]"]
    by (simp add: read_error_def key_sizes [OF assms(1)])
qed

lemma chunk_count: "n \<le> SNAPSHOT_BYTES \<Longrightarrow> div_ceil n CHUNK_BYTES \<le> 57"
proof -
  assume "n \<le> SNAPSHOT_BYTES"
  then have "div_ceil n CHUNK_BYTES \<le> div_ceil SNAPSHOT_BYTES CHUNK_BYTES" by (simp add: div_ceil_def div_le_mono)
  then show ?thesis by (simp add: div_ceil_def CHUNK_BYTES_def SNAPSHOT_BYTES_def)
qed

lemma size_chunk_header:
  assumes "json_sizes S" and "n \<le> SNAPSHOT_BYTES"
  shows "length (S (chunk_header i n)) \<le> length (S i) + 150"
proof -
  let ?c = "div_ceil n CHUNK_BYTES"
  have n: "length (nat_str n) \<le> 7" using nat_str_length [of n 6] assms(2) by (simp add: SNAPSHOT_BYTES_def)
  have c: "length (nat_str ?c) \<le> 2" using nat_str_length [of ?c 1] chunk_count [OF assms(2)] by simp
  let ?v = "[(''chunked'', JBool True), (''encoding'', JStr ''base64-json-v1''), (''bytes'', JNum (int n)), (''chunks'', JNum (int ?c))]"
  have "length (S (JObj ?v)) \<le> 110"
    using size_obj [OF assms(1), of ?v] n c size_bool [OF assms(1), of True]
    by (simp add: key_sizes [OF assms(1)] size_num [OF assms(1)])
  then show ?thesis using size_read_reply [OF assms(1), of i "JObj ?v"] by (simp add: chunk_header_def)
qed

lemma snapshot_reply_sizes:
  assumes "json_sizes S" and "std_base64 E D" and "length (S i) \<le> 1024" and "r \<in> set (snapshot_replies S E i v)"
  shows "length (S r) \<le> 50500"
proof -
  let ?n = "length (S v)" and ?cs = "chunks_of CHUNK_BYTES (str_bytes (S v))"
  consider "SNAPSHOT_BYTES < ?n" "r = read_error i ''payload-too-large''"
    | "?n \<le> INLINE_BYTES" "r = read_reply i v"
    | "?n \<le> SNAPSHOT_BYTES" "r = chunk_header i ?n"
    | k c where "?n \<le> SNAPSHOT_BYTES" "(k, c) \<in> set (enumerate 0 ?cs)" "r = chunk_event E i (k, c)"
    using assms(4) by (auto simp: snapshot_replies_def Let_def split: if_splits)
  then show ?thesis
  proof cases
    case 1
    then show ?thesis using size_read_error [OF assms(1) plain_keys(15), of i] assms(3) by simp
  next
    case 2
    then show ?thesis using size_read_reply [OF assms(1), of i v] assms(3) by (simp add: INLINE_BYTES_def)
  next
    case 3
    then show ?thesis using size_chunk_header [OF assms(1), of ?n i] assms(3) by simp
  next
    case 4
    have pos: "0 < CHUNK_BYTES" by (simp add: CHUNK_BYTES_def)
    have "k < length ?cs" and "c \<in> set ?cs" using 4(2) by (auto simp: enumerate_eq_zip in_set_zip)
    then have "k < 100" and "length c \<le> CHUNK_BYTES"
      using chunk_count [OF 4(1)] chunk_length by (auto simp: length_chunks [OF pos])
    then show ?thesis using size_chunk_event [OF assms(1,2), of c k i] 4(3) assms(3) by simp
  qed
qed

lemma snapshot_reply_count: "length (snapshot_replies S E i v) \<le> 58"
proof -
  have pos: "0 < CHUNK_BYTES" by (simp add: CHUNK_BYTES_def)
  show ?thesis using chunk_count [of "length (S v)"] by (simp add: snapshot_replies_def Let_def length_chunks [OF pos])
qed

text \<open>
  The answer to a snapshot request fits an idle connection, whatever the Host sent: the value is
  at most 2 MiB, so it becomes at most 58 messages, each below the 64 KiB a frame may hold, and the
  whole batch is accepted by a queue nothing else occupies.
\<close>

theorem snapshot_fits_idle:
  assumes "json_sizes S" and "std_base64 E D" and "length (S i) \<le> 1024"
  shows "length (snapshot_replies S E i v) \<le> 58
    \<and> (\<forall>r \<in> set (snapshot_replies S E i v). length (S r) \<le> MESSAGE_BYTES)
    \<and> (\<exists>ob'. out_batch S (snapshot_replies S E i v) outbound_new = Some (Inr (), ob'))"
proof -
  let ?rs = "snapshot_replies S E i v"
  let ?ms = "map (\<lambda>r. MText (S r)) ?rs"
  have sizes: "length (S r) \<le> 50500" if "r \<in> set ?rs" for r using snapshot_reply_sizes [OF assms that] .
  have fits: "\<not> list_ex (\<lambda>m. message_len m > MESSAGE_BYTES) ?ms"
    using sizes by (fastforce simp: list_ex_iff message_len_def MESSAGE_BYTES_def)
  have "batch_bytes ?ms \<le> sum_list (map (\<lambda>_. 50516) ?rs)"
    unfolding batch_bytes_def map_map comp_def using sizes by (intro sum_list_mono) (simp add: message_len_def)
  also have "\<dots> \<le> 58 * 50516" using snapshot_reply_count [of S E i v] by (simp add: sum_list_triv)
  finally have bytes: "batch_bytes ?ms \<le> 2929928" by simp
  then have u32: "as_u32 (batch_bytes ?ms) = batch_bytes ?ms" by (intro as_u32_small) simp
  have room: "\<not> OUT_CAPACITY - length (ob_queue outbound_new) < length ?ms"
    using snapshot_reply_count [of S E i v] by (simp add: outbound_new_def OUT_CAPACITY_def)
  have some: "\<exists>ob'. batch_send ch ?ms ob = Some (Inr (), ob')"
    if "ob = outbound_new\<lparr>ob_chunked := c\<rparr>" for ch c ob
  proof -
    have free: "batch_bytes ?ms \<le> ob_bytes ob"
      using bytes that by (simp add: outbound_new_def OUTBOUND_BYTES_def WRITE_BUFFER_BYTES_def MESSAGE_BYTES_def REPLY_HEADROOM_def)
    have q: "ob_queue ob = []" using that by (simp add: outbound_new_def)
    have all: "send_all p ch (batch_bytes ?ms) ?ms (took p n ob) = Some (Inr (), (took p n ob)\<lparr>ob_queue := map (as_queued p ch) ?ms\<rparr>)" for p n
      using send_all_fits [of "batch_bytes ?ms" ?ms "took p n ob" p ch] room q by (simp add: outbound_new_def)
    obtain p where "reply_permit (batch_bytes ?ms) ob = (Inr p, took p (batch_bytes ?ms) ob)"
      using reply_permit_cases [OF u32, of ob] free by (metis not_le)
    moreover have "acquire_bytes (batch_bytes ?ms) ob = Some (took False (batch_bytes ?ms) ob)"
      using free by (simp add: acquire_bytes_def u32 took_def)
    ultimately have "ch \<longrightarrow> ?thesis" and "\<not> ch \<longrightarrow> ?thesis"
      using fits room all q by (auto simp: batch_send_def u32 outbound_new_def simp del: send_all.simps)
    then show ?thesis by blast
  qed
  have "\<exists>ob'. out_batch S ?rs outbound_new = Some (Inr (), ob')"
    using some [of "outbound_new\<lparr>ob_chunked := 0\<rparr>" 0 True] some [of "outbound_new\<lparr>ob_chunked := 1\<rparr>" 1 False]
    by (simp add: out_batch_def) (simp add: outbound_new_def)
  moreover have "\<forall>r \<in> set ?rs. length (S r) \<le> MESSAGE_BYTES" using sizes by (fastforce simp: MESSAGE_BYTES_def)
  ultimately show ?thesis using snapshot_reply_count by blast
qed

section \<open>Witnesses\<close>

text \<open>
  A concrete writer, which does not escape, and the standard base64 encoding with its decoder.
\<close>

fun demo_json :: "json \<Rightarrow> string" and demo_fields :: "(string \<times> json) list \<Rightarrow> string" and demo_elems :: "json list \<Rightarrow> string" where
  "demo_json JNull = ''null''"
| "demo_json (JBool b) = (if b then ''true'' else ''false'')"
| "demo_json (JNum n) = (if n < 0 then ''-'' @ nat_str (nat (- n)) else nat_str (nat n))"
| "demo_json (JStr s) = [CHR 0x22] @ s @ [CHR 0x22]"
| "demo_json (JArr vs) = ''['' @ demo_elems vs @ '']''"
| "demo_json (JObj kvs) = ''{'' @ demo_fields kvs @ ''}''"
| "demo_fields [] = []"
| "demo_fields ((k, v) # kvs) = [CHR 0x22] @ k @ [CHR 0x22] @ '':'' @ demo_json v @ (if kvs = [] then [] else '','') @ demo_fields kvs"
| "demo_elems [] = []"
| "demo_elems (v # vs) = demo_json v @ (if vs = [] then [] else '','') @ demo_elems vs"

lemma demo_fields_length:
  "length (demo_fields kvs) \<le> sum_list (map (\<lambda>(k, v). length (demo_json (JStr k)) + length (demo_json v) + 2) kvs)"
  by (induction kvs) auto

lemma demo_json_sizes: "json_sizes demo_json"
  using demo_fields_length by (simp add: json_sizes_def)

definition b64_alphabet :: string where
  "b64_alphabet = ''ABCDEFGHIJKLMNOPQRSTUVWXYZabcdefghijklmnopqrstuvwxyz0123456789+/''"

definition b64_digit :: "nat \<Rightarrow> char" where
  "b64_digit n = b64_alphabet ! n"

definition b64_value :: "char \<Rightarrow> nat" where
  "b64_value c = length (takeWhile (\<lambda>x. x \<noteq> c) b64_alphabet)"

fun b64_enc :: "nat list \<Rightarrow> string" where
  "b64_enc [] = []"
| "b64_enc [a] = [b64_digit (a div 4), b64_digit (a mod 4 * 16), CHR ''='', CHR ''='']"
| "b64_enc [a, b] = [b64_digit (a div 4), b64_digit (a mod 4 * 16 + b div 16), b64_digit (b mod 16 * 4), CHR ''='']"
| "b64_enc (a # b # c # bs) =
     [b64_digit (a div 4), b64_digit (a mod 4 * 16 + b div 16), b64_digit (b mod 16 * 4 + c div 64),
      b64_digit (c mod 64)] @ b64_enc bs"

fun b64_dec :: "string \<Rightarrow> nat list" where
  "b64_dec (p # q # r # s # cs) =
     (let x = b64_value p; y = b64_value q; z = b64_value r; w = b64_value s
      in if r = CHR ''='' then [x * 4 + y div 16]
         else if s = CHR ''='' then [x * 4 + y div 16, y mod 16 * 16 + z div 4]
         else [x * 4 + y div 16, y mod 16 * 16 + z div 4, z mod 4 * 64 + w] @ b64_dec cs)"
| "b64_dec _ = []"

definition demo_b64 :: "bytes \<Rightarrow> string" where
  "demo_b64 bs = b64_enc (map unat bs)"

definition demo_unb64 :: "string \<Rightarrow> bytes option" where
  "demo_unb64 s = Some (map of_nat (b64_dec s))"

lemma b64_alphabet_facts:
  "length b64_alphabet = 64" "distinct b64_alphabet" "CHR ''='' \<notin> set b64_alphabet" "list_all plain_char b64_alphabet"
  by code_simp+

lemma takeWhile_nth: "distinct xs \<Longrightarrow> n < length xs \<Longrightarrow> length (takeWhile (\<lambda>x. x \<noteq> xs ! n) xs) = n"
proof (induction xs arbitrary: n)
  case (Cons x xs)
  then show ?case by (cases n) auto
qed simp

lemma b64_digit_ok:
  assumes "n < 64"
  shows "b64_value (b64_digit n) = n \<and> b64_digit n \<noteq> CHR ''='' \<and> plain_char (b64_digit n)"
proof -
  have "b64_digit n \<in> set b64_alphabet" using assms by (simp add: b64_digit_def b64_alphabet_facts(1))
  then show ?thesis
    using assms b64_alphabet_facts takeWhile_nth [of b64_alphabet n]
    by (metis b64_value_def b64_digit_def list_all_iff)
qed

lemma b64_small:
  assumes "a < (256::nat)" and "b < (256::nat)" and "c < (256::nat)"
  shows "a div 4 < 64" "b div 16 < 16" "c div 64 < 4"
  using assms by (simp_all add: div_less_iff_less_mult)

lemma b64_parts:
  assumes "a < (256::nat)" and "b < (256::nat)" and "c < (256::nat)"
  shows "a div 4 < 64" "a mod 4 * 16 < 64" "a mod 4 * 16 + b div 16 < 64" "b mod 16 * 4 < 64"
    "b mod 16 * 4 + c div 64 < 64" "c mod 64 < 64"
proof -
  note small = b64_small [OF assms]
  have m: "a mod 4 < 4" "b mod 16 < 16" by simp_all
  show "a div 4 < 64" by (rule small)
  show "a mod 4 * 16 < 64" using m by linarith
  show "a mod 4 * 16 + b div 16 < 64" using m small by linarith
  show "b mod 16 * 4 < 64" using m by linarith
  show "b mod 16 * 4 + c div 64 < 64" using m small by linarith
qed simp

lemma b64_join:
  assumes "b < (256::nat)" and "c < (256::nat)"
  shows "a div 4 * 4 + (a mod 4 * 16 + b div 16) div 16 = a"
    "(a mod 4 * 16 + b div 16) mod 16 * 16 + (b mod 16 * 4 + c div 64) div 4 = b"
    "(b mod 16 * 4 + c div 64) mod 4 * 64 + c mod 64 = c"
proof -
  have s: "b div 16 < 16" "c div 64 < 4" using assms by (simp_all add: div_less_iff_less_mult)
  have d: "(x * n + y) div n = x" "(x * n + y) mod n = y" if "y < n" for x y n :: nat
    using that by simp_all
  show "a div 4 * 4 + (a mod 4 * 16 + b div 16) div 16 = a" using d(1) [OF s(1)] by simp
  show "(a mod 4 * 16 + b div 16) mod 16 * 16 + (b mod 16 * 4 + c div 64) div 4 = b"
    by (simp only: d(2) [OF s(1)] d(1) [OF s(2)] div_mult_mod_eq)
  show "(b mod 16 * 4 + c div 64) mod 4 * 64 + c mod 64 = c"
    by (simp only: d(2) [OF s(2)] div_mult_mod_eq)
qed

lemma b64_dec_enc: "list_all (\<lambda>b. b < 256) bs \<Longrightarrow> b64_dec (b64_enc bs) = bs"
proof (induction bs rule: b64_enc.induct)
  case (2 a)
  then show ?case using b64_parts [of a 0 0] b64_join [of 0 0] by (simp add: b64_digit_ok Let_def)
next
  case (3 a b)
  then show ?case using b64_parts [of a b 0] b64_join [of b 0] by (simp add: b64_digit_ok Let_def)
next
  case (4 a b c bs)
  then have "b div 16 mod 16 = b div 16" and "c div 64 mod 4 = c div 64" using b64_small [of a b c] by simp_all
  with 4 show ?case using b64_parts [of a b c] b64_join [of b c] by (simp add: b64_digit_ok Let_def)
qed simp

lemma b64_enc_plain: "list_all (\<lambda>b. b < 256) bs \<Longrightarrow> list_all plain_char (b64_enc bs)"
proof (induction bs rule: b64_enc.induct)
  case (2 a)
  then show ?case using b64_parts [of a 0 0] by (simp add: b64_digit_ok) (simp add: plain_char_def)
next
  case (3 a b)
  then show ?case using b64_parts [of a b 0] by (simp add: b64_digit_ok) (simp add: plain_char_def)
next
  case (4 a b c bs)
  then show ?case using b64_parts [of a b c] by (simp add: b64_digit_ok)
qed simp

lemma b64_enc_length: "length (b64_enc bs) = 4 * div_ceil (length bs) 3"
proof (induction bs rule: b64_enc.induct)
  case (4 a b c bs)
  have "(5 + length bs) div 3 = Suc (Suc (Suc (length bs)) div 3)" by simp
  with 4 show ?case by (simp add: div_ceil_def)
qed (simp_all add: div_ceil_def)

lemma demo_base64: "std_base64 demo_b64 demo_unb64"
proof -
  have "unat b < 256" for b :: byte
  proof -
    have "unat b < 2 ^ LENGTH(8)" by (rule unsigned_less)
    then show ?thesis by simp
  qed
  then have "list_all (\<lambda>b. b < 256) (map unat bs)" for bs :: bytes by (simp add: list_all_iff)
  then show ?thesis
    by (simp add: std_base64_def demo_b64_def demo_unb64_def b64_enc_length b64_enc_plain b64_dec_enc comp_def)
qed

definition demo_busy :: outbound where
  "demo_busy = outbound_new\<lparr>ob_queue := replicate 256 (as_queued True False (MPing [])), ob_reply_bytes := 126976\<rparr>"

lemma demo_busy_inv: "ob_inv 0 demo_busy"
  by (simp add: ob_inv_def demo_busy_def outbound_new_def SHARED_BYTES_def out_held_def out_messages_def as_queued_def
      sum_list_replicate message_len_def REPLY_HEADROOM_def OUT_CAPACITY_def out_message_ok_def MESSAGE_BYTES_def
      list_all_iff list_ex_iff)

theorem batch_all_or_nothing_witness:
  "\<exists>r ob'. out_batch demo_json [JNull] demo_busy = Some (r, ob')
    \<and> (case r of
         Inl e \<Rightarrow> ob' = demo_busy
       | Inr _ \<Rightarrow> map om_message (ob_queue ob') = map om_message (ob_queue demo_busy) @ map (\<lambda>v. MText (demo_json v)) [JNull]
             \<and> ob_flight ob' = ob_flight demo_busy)"
  by (rule batch_all_or_nothing [OF demo_busy_inv])

theorem refused_batch_answered_witness:
  "\<exists>r ob'. out_replies demo_json [JNull] demo_busy = Some (r, ob') \<and>
    (case r of
       Inr _ \<Rightarrow>
         map om_message (ob_queue ob') = map om_message (ob_queue demo_busy) @ map (\<lambda>v. MText (demo_json v)) [JNull]
         \<or> (\<exists>e. map om_message (ob_queue ob') = map om_message (ob_queue demo_busy) @ [MText (error_text demo_json [JNull] e)])
     | Inl c \<Rightarrow> c = REPLY_QUEUE_FULL \<and> ob' = demo_busy
         \<and> (\<exists>e. MESSAGE_BYTES < length (error_text demo_json [JNull] e) \<or> length (ob_queue demo_busy) = OUT_CAPACITY
              \<or> ob_reply_bytes demo_busy < length (error_text demo_json [JNull] e) + 16))"
  by (rule refused_batch_answered [OF demo_busy_inv])

lemma demo_big_length: "length (demo_json (JStr (replicate 50000 (CHR ''a'')))) = 50002"
  by simp

theorem chunks_round_trip_witness:
  "\<exists>evs. snapshot_replies demo_json demo_b64 JNull (JStr (replicate 50000 (CHR ''a''))) = chunk_header JNull 50002 # evs
     \<and> reassemble demo_unb64 evs = Some (str_bytes (demo_json (JStr (replicate 50000 (CHR ''a'')))))"
  using chunks_round_trip [OF demo_base64, of demo_json "JStr (replicate 50000 (CHR ''a''))" JNull]
  unfolding demo_big_length INLINE_BYTES_def SNAPSHOT_BYTES_def by auto

theorem snapshot_fits_idle_witness:
  "\<exists>ob'. out_batch demo_json (snapshot_replies demo_json demo_b64 JNull JNull) outbound_new = Some (Inr (), ob')"
  using snapshot_fits_idle [OF demo_json_sizes demo_base64, of JNull JNull] by simp

end
