(* ===== verification/Streams.thy ===== *)
theory Streams
  imports Outbound_Props
begin

text \<open>
  The streams of a phone's connection, \<open>companion/src/read_bridge.rs\<close> (\<open>Life\<close>, \<open>StreamState\<close>,
  \<open>Sink\<close>, \<open>Frames\<close>) and the writer of \<open>bridge.rs\<close>. Callbacks of the Host put frames into one queue,
  at most 256 frames and 384 KiB per stream, out of the same bytes as the replies; the writer sends
  replies first and then the frames of streams that are open, ready and not past their deadline.

  Stream states are shared by the callbacks, the frames and the table of streams: they live in one
  store, by stream number, which no two streams of a connection share. \<open>nows k\<close> is the \<open>k\<close>-th reading
  of the clock. \<open>D\<close> is the standard base64 decoder and \<open>S\<close> the JSON writer.
\<close>

section \<open>State\<close>

definition MAX_STREAMS :: nat where "MAX_STREAMS = 8"
definition STREAM_FRAMES :: nat where "STREAM_FRAMES = 256"
definition STREAM_BYTES :: nat where "STREAM_BYTES = 384 * 1024"

record stream_cell =
  sm_closed :: "string option"
  sm_ready :: bool
  sm_slots :: nat
  sm_bytes :: nat
  sm_deadline :: "timestamp option"

record stream_frame =
  sf_message :: message
  sf_stream :: u32
  sf_bytes :: nat

record chan =
  cn_out :: outbound
  cn_alive :: bool
  cn_invalidated :: bool
  cn_stop :: nat
  cn_states :: "(u32, stream_cell) hmap"
  cn_frames :: "stream_frame list"
  cn_held :: "stream_frame option"
  cn_writing :: "stream_frame option"

definition chan_new :: chan where
  "chan_new = \<lparr>cn_out = outbound_new, cn_alive = True, cn_invalidated = False, cn_stop = 0,
     cn_states = [], cn_frames = [], cn_held = None, cn_writing = None\<rparr>"

definition stream_cell_new :: "timestamp option \<Rightarrow> stream_cell" where
  "stream_cell_new deadline = \<lparr>sm_closed = None, sm_ready = False, sm_slots = STREAM_FRAMES,
     sm_bytes = STREAM_BYTES, sm_deadline = deadline\<rparr>"

definition life_active :: "chan \<Rightarrow> bool" where
  "life_active c \<longleftrightarrow> cn_alive c \<and> \<not> cn_invalidated c \<and> cn_stop c = 0"

definition state_open :: "timestamp \<Rightarrow> stream_cell \<Rightarrow> bool" where
  "state_open now s \<longleftrightarrow> sm_closed s = None \<and> (case sm_deadline s of None \<Rightarrow> True | Some until \<Rightarrow> now < until)"

definition stream_active :: "timestamp \<Rightarrow> u32 \<Rightarrow> chan \<Rightarrow> bool" where
  "stream_active now i c \<longleftrightarrow>
     life_active c \<and> (case hm_get (cn_states c) i of None \<Rightarrow> False | Some s \<Rightarrow> state_open now s)"

definition update_state :: "u32 \<Rightarrow> (stream_cell \<Rightarrow> stream_cell) \<Rightarrow> chan \<Rightarrow> chan" where
  "update_state i f c =
     (case hm_get (cn_states c) i of
        None \<Rightarrow> c
      | Some s \<Rightarrow> c\<lparr>cn_states := hm_insert i (f s) (cn_states c)\<rparr>)"

text \<open>\<open>get_or_insert\<close>: the first reason stays.\<close>

definition stream_close :: "string \<Rightarrow> u32 \<Rightarrow> chan \<Rightarrow> chan" where
  "stream_close reason i =
     update_state i (\<lambda>s. s\<lparr>sm_closed := (case sm_closed s of None \<Rightarrow> Some reason | Some r \<Rightarrow> Some r)\<rparr>)"

definition stream_open :: "u32 \<Rightarrow> timestamp option \<Rightarrow> chan \<Rightarrow> chan" where
  "stream_open i deadline c = c\<lparr>cn_states := hm_insert i (stream_cell_new deadline) (cn_states c)\<rparr>"

definition stream_ready :: "u32 \<Rightarrow> chan \<Rightarrow> chan" where
  "stream_ready i = update_state i (\<lambda>s. s\<lparr>sm_ready := True\<rparr>)"

section \<open>Frames\<close>

definition set_out :: "outbound \<Rightarrow> chan \<Rightarrow> chan" where
  "set_out ob c = c\<lparr>cn_out := ob\<rparr>"

text \<open>Dropping a frame returns its slot and its bytes to the stream and to the connection.\<close>

definition drop_frame :: "stream_frame \<Rightarrow> chan \<Rightarrow> chan" where
  "drop_frame f c =
     update_state (sf_stream f) (\<lambda>s. s\<lparr>sm_slots := sm_slots s + 1, sm_bytes := sm_bytes s + sf_bytes f\<rparr>)
       (set_out (put_bytes False (sf_bytes f) (cn_out c)) c)"

text \<open>All three permits, or none.\<close>

definition take_permits :: "u32 \<Rightarrow> nat \<Rightarrow> chan \<Rightarrow> chan option" where
  "take_permits i n c =
     (case (hm_get (cn_states c) i, acquire_bytes n (cn_out c)) of
        (Some s, Some ob) \<Rightarrow>
          if 1 \<le> sm_slots s \<and> as_u32 n \<le> sm_bytes s
          then Some (update_state i (\<lambda>s. s\<lparr>sm_slots := sm_slots s - 1, sm_bytes := sm_bytes s - as_u32 n\<rparr>) (set_out ob c))
          else None
      | _ \<Rightarrow> None)"

definition sink_send :: "timestamp \<Rightarrow> u32 \<Rightarrow> message \<Rightarrow> chan \<Rightarrow> (string + unit) \<times> chan" where
  "sink_send now i m c =
     (if \<not> stream_active now i c then (Inl ''stream-closed'', c)
      else if message_len m > MESSAGE_BYTES
      then (Inl ''payload-too-large'', stream_close ''payload-too-large'' i c)
      else case take_permits i (message_len m + 16) c of
        None \<Rightarrow> (Inl ''slow-consumer'', stream_close ''slow-consumer'' i c)
      | Some c1 \<Rightarrow>
          (let f = \<lparr>sf_message = m, sf_stream = i, sf_bytes = as_u32 (message_len m + 16)\<rparr>
           in if length (cn_frames c1) < MAX_STREAMS * STREAM_FRAMES
              then (Inr (), c1\<lparr>cn_frames := cn_frames c1 @ [f]\<rparr>)
              else (Inl ''slow-consumer'', stream_close ''slow-consumer'' i (drop_frame f c1))))"

definition to_be_bytes :: "u32 \<Rightarrow> bytes" where
  "to_be_bytes i = [ucast (drop_bit 24 i), ucast (drop_bit 16 i), ucast (drop_bit 8 i), ucast i]"

definition sink_fail :: "string \<Rightarrow> u32 \<Rightarrow> chan \<Rightarrow> (string + unit) \<times> chan" where
  "sink_fail reason i c = (Inl reason, stream_close reason i c)"

definition sink_terminal ::
  "(string \<Rightarrow> bytes option) \<Rightarrow> timestamp \<Rightarrow> u32 \<Rightarrow> terminal_event \<Rightarrow> chan \<Rightarrow> (string + unit) \<times> chan" where
  "sink_terminal D now i e c =
     (case e of
        TermFrame _ _ _ encoding _ _ data \<Rightarrow>
          if encoding \<noteq> ''ansi'' then sink_fail ''stream-closed'' i c
          else if length data > div_ceil (MESSAGE_BYTES - 4) 3 * 4 then sink_fail ''payload-too-large'' i c
          else (case D data of
                  None \<Rightarrow> sink_fail ''stream-closed'' i c
                | Some bs \<Rightarrow> sink_send now i (MBinary (to_be_bytes i @ bs)) c)
      | TermClosed _ reason \<Rightarrow> (Inr (), stream_close (closed_reason reason) i c)
      | TermError _ code' _ \<Rightarrow>
          if code' = ''tooLarge'' then sink_fail ''payload-too-large'' i c else sink_fail ''stream-closed'' i c
      | TermResync _ _ _ message \<Rightarrow>
          if starts_with message ''ioTimeout:'' then (Inr (), c) else sink_fail ''stream-closed'' i c)"

definition stream_event :: "(json \<Rightarrow> string) \<Rightarrow> string \<Rightarrow> json \<Rightarrow> u32 \<Rightarrow> message" where
  "stream_event S event data i =
     MText (S (JObj [(''event'', JStr event), (''data'', data), (''stream'', JNum (uint i))]))"

definition sink_stale ::
  "(json \<Rightarrow> string) \<Rightarrow> timestamp \<Rightarrow> string \<Rightarrow> u32 \<Rightarrow> chan \<Rightarrow> (string + unit) \<times> chan" where
  "sink_stale S now session i =
     sink_send now i (stream_event S ''snapshot.stale'' (JObj [(''session'', JStr session)]) i)"

definition sink_event ::
  "(json \<Rightarrow> string) \<Rightarrow> timestamp \<Rightarrow> string \<Rightarrow> u32 \<Rightarrow> subscription_event \<Rightarrow> chan \<Rightarrow> (string + unit) \<times> chan" where
  "sink_event S now session i e c =
     (case e of
        AgentStatusChanged _ pid workspace agent_status \<Rightarrow>
          sink_send now i (stream_event S ''agent.status''
            (JObj [(''session'', JStr session), (''pane'', JStr pid), (''workspaceId'', JStr workspace),
              (''status'', JStr (status_name agent_status))]) i) c
      | PaneExited _ pid workspace \<Rightarrow>
          sink_send now i (stream_event S ''pane.exited''
            (JObj [(''session'', JStr session), (''pane'', JStr pid), (''workspaceId'', JStr workspace)]) i) c
      | TopologyChanged _ kind _ _ \<Rightarrow>
          if kind \<noteq> ''pane.updated'' then sink_stale S now session i c else (Inr (), c)
      | Disconnected _ _ \<Rightarrow> (Inr (), stream_close ''stream-closed'' i c)
      | SubscriptionError _ _ \<Rightarrow> (Inr (), stream_close ''stream-closed'' i c)
      | _ \<Rightarrow> (Inr (), c))"

section \<open>The writer\<close>

text \<open>
  \<open>Frames::next\<close> until it returns a frame or has to wait: frames of closed streams are dropped, and
  the frame of a stream that is not ready yet stays held.
\<close>

definition frame_ready :: "stream_frame \<Rightarrow> chan \<Rightarrow> bool" where
  "frame_ready f c = (case hm_get (cn_states c) (sf_stream f) of None \<Rightarrow> False | Some s \<Rightarrow> sm_ready s)"

function frames_next :: "(nat \<Rightarrow> timestamp) \<Rightarrow> chan \<Rightarrow> stream_frame option \<times> chan" where
  "frames_next nows c =
     (case cn_held c of
        None \<Rightarrow>
          (case cn_frames c of
             [] \<Rightarrow> (None, c)
           | f # fs \<Rightarrow> frames_next nows (c\<lparr>cn_held := Some f, cn_frames := fs\<rparr>))
      | Some f \<Rightarrow>
          if \<not> stream_active (nows 0) (sf_stream f) c
          then frames_next (\<lambda>k. nows (k + 1)) (drop_frame f (c\<lparr>cn_held := None\<rparr>))
          else if \<not> frame_ready f c then (None, c)
          else (Some f, c\<lparr>cn_held := None\<rparr>))"
  by pat_completeness auto

termination
  by (relation "measure (\<lambda>(nows, c). 2 * length (cn_frames c) + (if cn_held c = None then 0 else 1))")
    (auto simp: drop_frame_def update_state_def set_out_def split: option.splits)

declare frames_next.simps [simp del]

definition CLOSE_INVALID :: close where "CLOSE_INVALID = (4401, ''session-invalid'')"
definition SHUTDOWN :: close where "SHUTDOWN = (1001, ''shutdown'')"
definition TRANSPORT :: close where "TRANSPORT = (1001, ''transport-closed'')"

definition stop_reason :: "nat \<Rightarrow> close" where
  "stop_reason stop = (if stop = 4401 then CLOSE_INVALID else SHUTDOWN)"

datatype write_action = Waiting | WriteMessage message | EndWith close

text \<open>
  One iteration of \<open>writing\<close> up to the write: replies first, then frames; a frame that is no longer
  active is dropped. The invalidation and the stop are checked once more before the write.
\<close>

definition writer_take :: "timestamp \<Rightarrow> (nat \<Rightarrow> timestamp) \<Rightarrow> chan \<Rightarrow> message option \<times> chan" where
  "writer_take now nows c =
     (case out_recv (cn_out c) of
        (Some m, ob) \<Rightarrow> (Some m, set_out ob c)
      | (None, _) \<Rightarrow>
          (case frames_next nows c of
             (None, c1) \<Rightarrow> (None, c1)
           | (Some f, c1) \<Rightarrow>
               if stream_active now (sf_stream f) c1 then (Some (sf_message f), c1\<lparr>cn_writing := Some f\<rparr>)
               else (None, drop_frame f c1)))"

definition writer_step :: "timestamp \<Rightarrow> (nat \<Rightarrow> timestamp) \<Rightarrow> chan \<Rightarrow> write_action \<times> chan" where
  "writer_step now nows c =
     (case writer_take now nows c of
        (None, c1) \<Rightarrow> (Waiting, c1)
      | (Some m, c1) \<Rightarrow>
          if cn_invalidated c1 then (EndWith CLOSE_INVALID, c1)
          else if cn_stop c1 \<noteq> 0 then (EndWith (stop_reason (cn_stop c1)), c1)
          else (WriteMessage m, c1))"

text \<open>The write has ended: the permits of the message or frame return.\<close>

definition write_ended :: "chan \<Rightarrow> chan" where
  "write_ended c =
     (let c1 = set_out (out_written (cn_out c)) c
      in case cn_writing c1 of None \<Rightarrow> c1 | Some f \<Rightarrow> drop_frame f (c1\<lparr>cn_writing := None\<rparr>))"

end
