(* ===== verification/Streams_Props.thy ===== *)
theory Streams_Props
  imports Streams "HOL-Library.Code_Target_Nat"
begin

text \<open>
  Correctness of \<open>Streams\<close>: the permits of a connection are conserved by every step of the callbacks,
  the reading and the writing side, so the bytes of a connection are bounded; and stream data is
  written only while its stream is live.
\<close>

section \<open>Accounting\<close>

definition frames_held :: "u32 \<Rightarrow> stream_frame list \<Rightarrow> nat" where
  "frames_held i fs = length (filter (\<lambda>f. sf_stream f = i) fs)"

definition bytes_held :: "u32 \<Rightarrow> stream_frame list \<Rightarrow> nat" where
  "bytes_held i fs = sum_list (map sf_bytes (filter (\<lambda>f. sf_stream f = i) fs))"

definition frame_bytes :: "stream_frame list \<Rightarrow> nat" where
  "frame_bytes fs = sum_list (map sf_bytes fs)"

definition frame_ok :: "chan \<Rightarrow> stream_frame \<Rightarrow> bool" where
  "frame_ok c f \<longleftrightarrow> hm_get (cn_states c) (sf_stream f) \<noteq> None
     \<and> sf_bytes f = message_len (sf_message f) + 16 \<and> message_len (sf_message f) \<le> MESSAGE_BYTES"

text \<open>\<open>fs\<close> are the frames that exist, wherever they are.\<close>

definition chan_acc :: "stream_frame list \<Rightarrow> chan \<Rightarrow> bool" where
  "chan_acc fs c \<longleftrightarrow>
     ob_inv (frame_bytes fs) (cn_out c)
     \<and> (\<forall>i s. hm_get (cn_states c) i = Some s \<longrightarrow>
          sm_slots s + frames_held i fs = STREAM_FRAMES \<and> sm_bytes s + bytes_held i fs = STREAM_BYTES)
     \<and> (\<forall>f \<in> set fs. frame_ok c f)"

definition all_frames :: "chan \<Rightarrow> stream_frame list" where
  "all_frames c = (case cn_writing c of None \<Rightarrow> [] | Some f \<Rightarrow> [f])
     @ (case cn_held c of None \<Rightarrow> [] | Some f \<Rightarrow> [f]) @ cn_frames c"

definition chan_inv :: "chan \<Rightarrow> bool" where
  "chan_inv c \<longleftrightarrow> chan_acc (all_frames c) c \<and> length (cn_frames c) \<le> MAX_STREAMS * STREAM_FRAMES"

lemma held_simps [simp]:
  "frames_held i [] = 0" "bytes_held i [] = 0" "frame_bytes [] = 0"
  "frames_held i (f # fs) = of_bool (sf_stream f = i) + frames_held i fs"
  "bytes_held i (f # fs) = (if sf_stream f = i then sf_bytes f else 0) + bytes_held i fs"
  "frame_bytes (f # fs) = sf_bytes f + frame_bytes fs"
  "frames_held i (fs @ gs) = frames_held i fs + frames_held i gs"
  "bytes_held i (fs @ gs) = bytes_held i fs + bytes_held i gs"
  "frame_bytes (fs @ gs) = frame_bytes fs + frame_bytes gs"
  by (simp_all add: frames_held_def bytes_held_def frame_bytes_def)

lemma chan_inv_new: "chan_inv chan_new"
  by (simp add: chan_inv_def chan_acc_def all_frames_def chan_new_def ob_inv_new)

subsection \<open>Updates of a state\<close>

lemma update_state_fields [simp]:
  "cn_out (update_state i f c) = cn_out c" "cn_frames (update_state i f c) = cn_frames c"
  "cn_held (update_state i f c) = cn_held c" "cn_writing (update_state i f c) = cn_writing c"
  "cn_alive (update_state i f c) = cn_alive c" "cn_invalidated (update_state i f c) = cn_invalidated c"
  "cn_stop (update_state i f c) = cn_stop c" "all_frames (update_state i f c) = all_frames c"
  by (simp_all add: update_state_def all_frames_def split: option.split)

lemma update_state_get:
  "hm_get (cn_states (update_state i f c)) j =
     (if i = j then map_option f (hm_get (cn_states c) i) else hm_get (cn_states c) j)"
  by (auto simp: update_state_def split: option.split)

lemma frame_ok_cong: "(\<And>i. (hm_get (cn_states c') i = None) = (hm_get (cn_states c) i = None)) \<Longrightarrow> frame_ok c' f = frame_ok c f"
  by (simp add: frame_ok_def)

lemma frame_ok_update [simp]: "frame_ok (update_state i g c) f = frame_ok c f"
  by (rule frame_ok_cong) (simp add: update_state_get)

lemma chan_acc_update:
  assumes "chan_acc fs c"
    and "\<And>s. hm_get (cn_states c) i = Some s \<Longrightarrow> sm_slots (f s) = sm_slots s \<and> sm_bytes (f s) = sm_bytes s"
  shows "chan_acc fs (update_state i f c)"
  using assms by (auto simp: chan_acc_def update_state_get split: if_splits)

lemma chan_inv_update:
  assumes "chan_inv c" and "\<And>s. sm_slots (f s) = sm_slots s \<and> sm_bytes (f s) = sm_bytes s"
  shows "chan_inv (update_state i f c)"
  using assms chan_acc_update [of "all_frames c" c i f] by (simp add: chan_inv_def)

lemma chan_inv_close: "chan_inv c \<Longrightarrow> chan_inv (stream_close reason i c)"
  unfolding stream_close_def by (rule chan_inv_update) simp_all

lemma chan_inv_ready: "chan_inv c \<Longrightarrow> chan_inv (stream_ready i c)"
  unfolding stream_ready_def by (rule chan_inv_update) simp_all

lemma held_none:
  assumes "\<forall>f \<in> set fs. frame_ok c f" and "hm_get (cn_states c) i = None"
  shows "frames_held i fs = 0 \<and> bytes_held i fs = 0"
proof -
  have "filter (\<lambda>f. sf_stream f = i) fs = []" using assms by (auto simp: filter_empty_conv frame_ok_def)
  then show ?thesis by (simp add: frames_held_def bytes_held_def)
qed

lemma chan_inv_open:
  assumes "chan_inv c" and "hm_get (cn_states c) i = None"
  shows "chan_inv (stream_open i deadline c)"
proof -
  have "frames_held i (all_frames c) = 0 \<and> bytes_held i (all_frames c) = 0"
    using assms held_none by (auto simp: chan_inv_def chan_acc_def)
  moreover have "all_frames (stream_open i deadline c) = all_frames c"
    by (simp add: stream_open_def all_frames_def)
  moreover have "frame_ok (stream_open i deadline c) f" if "frame_ok c f" for f
    using that by (simp add: frame_ok_def stream_open_def)
  ultimately show ?thesis using assms
    by (auto simp: chan_inv_def chan_acc_def stream_open_def stream_cell_new_def split: if_splits)
qed

lemma chan_inv_out:
  assumes "chan_inv c" and "\<And>n. ob_inv n (cn_out c) \<Longrightarrow> ob_inv n ob"
  shows "chan_inv (set_out ob c)"
proof -
  have "all_frames (set_out ob c) = all_frames c" by (simp add: set_out_def all_frames_def)
  moreover have "frame_ok (set_out ob c) = frame_ok c" by (simp add: set_out_def frame_ok_def fun_eq_iff)
  ultimately show ?thesis using assms by (simp add: chan_inv_def chan_acc_def) (simp add: set_out_def)
qed

subsection \<open>Frames\<close>

lemma ob_inv_give: "ob_inv (n + m) ob \<Longrightarrow> ob_inv m (put_bytes False n ob)"
  by (simp add: ob_inv_def put_bytes_def out_held_def)

lemma ob_inv_take: "ob_inv m ob \<Longrightarrow> n \<le> ob_bytes ob \<Longrightarrow> ob_inv (n + m) (ob\<lparr>ob_bytes := ob_bytes ob - n\<rparr>)"
  by (simp add: ob_inv_def out_held_def)

lemma drop_frame_fields [simp]:
  "cn_frames (drop_frame f c) = cn_frames c" "cn_held (drop_frame f c) = cn_held c"
  "cn_writing (drop_frame f c) = cn_writing c" "all_frames (drop_frame f c) = all_frames c"
  "cn_alive (drop_frame f c) = cn_alive c" "cn_invalidated (drop_frame f c) = cn_invalidated c"
  "cn_stop (drop_frame f c) = cn_stop c" "cn_out (drop_frame f c) = put_bytes False (sf_bytes f) (cn_out c)"
  by (simp_all add: drop_frame_def set_out_def all_frames_def)

lemma drop_frame_get:
  "hm_get (cn_states (drop_frame f c)) i =
     (if sf_stream f = i
      then map_option (\<lambda>s. s\<lparr>sm_slots := sm_slots s + 1, sm_bytes := sm_bytes s + sf_bytes f\<rparr>) (hm_get (cn_states c) i)
      else hm_get (cn_states c) i)"
  by (simp add: drop_frame_def update_state_get set_out_def)

lemma frame_ok_drop [simp]: "frame_ok (drop_frame f c) g = frame_ok c g"
  by (rule frame_ok_cong) (simp add: drop_frame_get)

lemma chan_acc_drop:
  assumes "chan_acc (f # fs) c"
  shows "chan_acc fs (drop_frame f c)"
proof -
  have "ob_inv (frame_bytes fs) (cn_out (drop_frame f c))"
    using assms ob_inv_give by (simp add: chan_acc_def)
  moreover have "sm_slots s + frames_held i fs = STREAM_FRAMES \<and> sm_bytes s + bytes_held i fs = STREAM_BYTES"
    if "hm_get (cn_states (drop_frame f c)) i = Some s" for i s
  proof -
    obtain t where t: "hm_get (cn_states c) i = Some t"
      and s: "s = (if sf_stream f = i then t\<lparr>sm_slots := sm_slots t + 1, sm_bytes := sm_bytes t + sf_bytes f\<rparr> else t)"
      using \<open>hm_get (cn_states (drop_frame f c)) i = Some s\<close> by (auto simp: drop_frame_get split: if_splits)
    have "sm_slots t + frames_held i (f # fs) = STREAM_FRAMES \<and> sm_bytes t + bytes_held i (f # fs) = STREAM_BYTES"
      using assms t by (simp add: chan_acc_def)
    then show ?thesis by (cases "sf_stream f = i") (simp_all add: s)
  qed
  ultimately show ?thesis using assms by (simp add: chan_acc_def)
qed

lemma take_permits_Some:
  assumes "take_permits i (message_len m + 16) c = Some c1" and "message_len m \<le> MESSAGE_BYTES"
  shows "\<exists>s. hm_get (cn_states c) i = Some s \<and> 1 \<le> sm_slots s \<and> message_len m + 16 \<le> sm_bytes s
    \<and> message_len m + 16 \<le> ob_bytes (cn_out c)
    \<and> c1 = update_state i (\<lambda>s. s\<lparr>sm_slots := sm_slots s - 1, sm_bytes := sm_bytes s - (message_len m + 16)\<rparr>)
        (set_out ((cn_out c)\<lparr>ob_bytes := ob_bytes (cn_out c) - (message_len m + 16)\<rparr>) c)"
  using assms message_small [OF assms(2)]
  by (auto simp: take_permits_def acquire_bytes_def split: option.splits if_splits)

lemma take_permits_acc:
  assumes "chan_acc fs c" and "take_permits i (message_len m + 16) c = Some c1" and "message_len m \<le> MESSAGE_BYTES"
  shows "chan_acc (fs @ [\<lparr>sf_message = m, sf_stream = i, sf_bytes = message_len m + 16\<rparr>]) c1"
    (is "chan_acc (fs @ [?f]) c1")
proof -
  obtain s where s: "hm_get (cn_states c) i = Some s" "1 \<le> sm_slots s" "message_len m + 16 \<le> sm_bytes s"
    "message_len m + 16 \<le> ob_bytes (cn_out c)"
    and c1: "c1 = update_state i (\<lambda>s. s\<lparr>sm_slots := sm_slots s - 1, sm_bytes := sm_bytes s - (message_len m + 16)\<rparr>)
        (set_out ((cn_out c)\<lparr>ob_bytes := ob_bytes (cn_out c) - (message_len m + 16)\<rparr>) c)"
    using take_permits_Some [OF assms(2,3)] by blast
  have "ob_inv (message_len m + 16 + frame_bytes fs) ((cn_out c)\<lparr>ob_bytes := ob_bytes (cn_out c) - (message_len m + 16)\<rparr>)"
    using assms(1) s(4) by (intro ob_inv_take) (simp_all add: chan_acc_def)
  then have "ob_inv (frame_bytes (fs @ [?f])) (cn_out c1)" by (simp add: c1 set_out_def add.commute)
  moreover have "frame_ok c1 f" if "frame_ok c f" for f
    using that by (simp add: c1) (simp add: frame_ok_def set_out_def)
  moreover have "frame_ok c1 ?f" using s(1) assms(3) by (simp add: c1) (simp add: frame_ok_def set_out_def)
  moreover have "sm_slots u + frames_held j (fs @ [?f]) = STREAM_FRAMES \<and> sm_bytes u + bytes_held j (fs @ [?f]) = STREAM_BYTES"
    if "hm_get (cn_states c1) j = Some u" for j u
  proof -
    obtain t where t: "hm_get (cn_states c) j = Some t"
      and u: "u = (if i = j then t\<lparr>sm_slots := sm_slots t - 1, sm_bytes := sm_bytes t - (message_len m + 16)\<rparr> else t)"
      using \<open>hm_get (cn_states c1) j = Some u\<close> by (auto simp: c1 update_state_get set_out_def split: if_splits)
    have "sm_slots t + frames_held j fs = STREAM_FRAMES \<and> sm_bytes t + bytes_held j fs = STREAM_BYTES"
      using assms(1) t by (simp add: chan_acc_def)
    then show ?thesis using s t by (auto simp: u)
  qed
  ultimately show ?thesis using assms(1) by (simp add: chan_acc_def)
qed

lemma take_permits_frames:
  assumes "take_permits i n c = Some c1"
  shows "cn_frames c1 = cn_frames c \<and> cn_held c1 = cn_held c \<and> cn_writing c1 = cn_writing c"
  using assms by (auto simp: take_permits_def set_out_def split: option.splits if_splits)

lemma chan_acc_rotate: "chan_acc (fs @ [f]) c \<Longrightarrow> chan_acc (f # fs) c"
  by (simp add: chan_acc_def add.commute)

lemma chan_inv_send:
  assumes "chan_inv c"
  shows "chan_inv (snd (sink_send now i m c))"
proof (cases "stream_active now i c \<and> message_len m \<le> MESSAGE_BYTES")
  case False
  then show ?thesis using assms chan_inv_close by (auto simp: sink_send_def)
next
  case True
  then have small: "as_u32 (message_len m + 16) = message_len m + 16" by (simp add: message_small)
  show ?thesis
  proof (cases "take_permits i (message_len m + 16) c")
    case None
    then show ?thesis using assms True chan_inv_close by (simp add: sink_send_def)
  next
    case (Some c1)
    let ?f = "\<lparr>sf_message = m, sf_stream = i, sf_bytes = message_len m + 16\<rparr>"
    have frames: "cn_frames c1 = cn_frames c" "cn_held c1 = cn_held c" "cn_writing c1 = cn_writing c"
      using take_permits_frames [OF Some] by auto
    have acc: "chan_acc (all_frames c @ [?f]) c1"
      using take_permits_acc [OF _ Some] assms True by (simp add: chan_inv_def)
    show ?thesis
    proof (cases "length (cn_frames c) < MAX_STREAMS * STREAM_FRAMES")
      case room: True
      then have "snd (sink_send now i m c) = c1\<lparr>cn_frames := cn_frames c1 @ [?f]\<rparr>"
        using True Some small frames by (simp add: sink_send_def Let_def)
      moreover have "all_frames (c1\<lparr>cn_frames := cn_frames c1 @ [?f]\<rparr>) = all_frames c @ [?f]"
        by (simp add: all_frames_def frames)
      moreover have "chan_acc fs (c1\<lparr>cn_frames := gs\<rparr>) = chan_acc fs c1" for fs gs
        by (simp add: chan_acc_def frame_ok_def)
      ultimately show ?thesis using acc room by (simp add: chan_inv_def frames)
    next
      case full: False
      then have "snd (sink_send now i m c) = stream_close ''slow-consumer'' i (drop_frame ?f c1)"
        using True Some small frames by (simp add: sink_send_def Let_def)
      moreover have "chan_inv (drop_frame ?f c1)"
      proof -
        have "all_frames (drop_frame ?f c1) = all_frames c" by (simp add: all_frames_def frames)
        then show ?thesis
          using chan_acc_drop [OF chan_acc_rotate [OF acc]] assms by (simp add: chan_inv_def frames)
      qed
      ultimately show ?thesis using chan_inv_close by simp
    qed
  qed
qed

lemma chan_inv_fail: "chan_inv c \<Longrightarrow> chan_inv (snd (sink_fail reason i c))"
  by (simp add: sink_fail_def chan_inv_close)

lemmas sink_invs = chan_inv_send chan_inv_fail chan_inv_close

lemma chan_inv_terminal: "chan_inv c \<Longrightarrow> chan_inv (snd (sink_terminal D now i e c))"
  by (auto simp: sink_terminal_def sink_invs split: terminal_event.split option.split)

lemma chan_inv_event: "chan_inv c \<Longrightarrow> chan_inv (snd (sink_event S now session i e c))"
  by (auto simp: sink_event_def sink_stale_def sink_invs split: subscription_event.split)

subsection \<open>The writer\<close>

lemma frames_next_inv:
  assumes "chan_inv c" and "cn_writing c = None"
  shows "case frames_next nows c of (r, c') \<Rightarrow>
    cn_writing c' = None \<and> length (cn_frames c') \<le> MAX_STREAMS * STREAM_FRAMES
    \<and> (case r of None \<Rightarrow> chan_inv c' | Some f \<Rightarrow> cn_held c' = None \<and> chan_acc (f # cn_frames c') c')"
  using assms
proof (induction nows c rule: frames_next.induct)
  case (1 nows c)
  have held: "chan_acc fs (c\<lparr>cn_held := h, cn_frames := gs\<rparr>) = chan_acc fs c" "chan_acc fs (c\<lparr>cn_held := h\<rparr>) = chan_acc fs c" for fs h gs
    by (simp_all add: chan_acc_def frame_ok_def)
  show ?case
  proof (cases "cn_held c")
    case None
    show ?thesis
    proof (cases "cn_frames c")
      case Nil
      then show ?thesis using None 1(3,4) by (subst frames_next.simps) (simp add: chan_inv_def)
    next
      case (Cons f fs)
      let ?c = "c\<lparr>cn_held := Some f, cn_frames := fs\<rparr>"
      have "chan_inv ?c" using 1(3,4) None Cons by (simp add: chan_inv_def all_frames_def held)
      then have "case frames_next nows ?c of (r, c') \<Rightarrow>
          cn_writing c' = None \<and> length (cn_frames c') \<le> MAX_STREAMS * STREAM_FRAMES
          \<and> (case r of None \<Rightarrow> chan_inv c' | Some f \<Rightarrow> cn_held c' = None \<and> chan_acc (f # cn_frames c') c')"
        using 1(1) None Cons 1(4) by simp
      moreover have "frames_next nows c = frames_next nows ?c" using None Cons by (subst frames_next.simps) simp
      ultimately show ?thesis by simp
    qed
  next
    case (Some f)
    let ?c = "c\<lparr>cn_held := None\<rparr>"
    have acc: "chan_acc (f # cn_frames c) ?c" using 1(3,4) Some by (simp add: chan_inv_def all_frames_def held)
    show ?thesis
    proof (cases "stream_active (nows 0) (sf_stream f) c")
      case False
      have "chan_inv (drop_frame f ?c)"
        using chan_acc_drop [OF acc] 1(3,4) by (simp add: chan_inv_def all_frames_def)
      then have "case frames_next (\<lambda>k. nows (k + 1)) (drop_frame f ?c) of (r, c') \<Rightarrow>
          cn_writing c' = None \<and> length (cn_frames c') \<le> MAX_STREAMS * STREAM_FRAMES
          \<and> (case r of None \<Rightarrow> chan_inv c' | Some f \<Rightarrow> cn_held c' = None \<and> chan_acc (f # cn_frames c') c')"
        using 1(2) Some False 1(4) by simp
      moreover have "frames_next nows c = frames_next (\<lambda>k. nows (k + 1)) (drop_frame f ?c)"
        using Some False by (subst frames_next.simps) simp
      ultimately show ?thesis by simp
    next
      case True
      then have "frames_next nows c = (if frame_ready f c then (Some f, ?c) else (None, c))"
        using Some by (subst frames_next.simps) simp
      then show ?thesis using 1(3,4) acc by (simp add: chan_inv_def)
    qed
  qed
qed

definition writer_idle :: "chan \<Rightarrow> bool" where
  "writer_idle c \<longleftrightarrow> ob_flight (cn_out c) = None \<and> cn_writing c = None"

lemma writer_take_inv:
  assumes "chan_inv c" and "writer_idle c"
  shows "chan_inv (snd (writer_take now nows c))"
proof (cases "out_recv (cn_out c)")
  case (Pair r ob)
  have ob: "ob_inv n (cn_out c) \<Longrightarrow> ob_inv n ob" for n using ob_inv_recv [of n "cn_out c"] Pair by simp
  show ?thesis
  proof (cases r)
    case (Some m)
    then show ?thesis using Pair chan_inv_out [OF assms(1) ob] by (simp add: writer_take_def)
  next
    case None
    obtain f c1 where n: "frames_next nows c = (f, c1)" by (cases "frames_next nows c")
    have inv: "cn_writing c1 = None" "length (cn_frames c1) \<le> MAX_STREAMS * STREAM_FRAMES"
      "case f of None \<Rightarrow> chan_inv c1 | Some f \<Rightarrow> cn_held c1 = None \<and> chan_acc (f # cn_frames c1) c1"
      using frames_next_inv [OF assms(1), of nows] assms(2) n by (auto simp: writer_idle_def)
    show ?thesis
    proof (cases f)
      case None
      then show ?thesis using Pair \<open>r = None\<close> n inv by (simp add: writer_take_def)
    next
      case (Some f)
      have "chan_acc fs (c1\<lparr>cn_writing := Some f\<rparr>) = chan_acc fs c1" for fs
        by (simp add: chan_acc_def frame_ok_def)
      then have "chan_inv (c1\<lparr>cn_writing := Some f\<rparr>)"
        using inv Some by (simp add: chan_inv_def all_frames_def)
      moreover have "chan_inv (drop_frame f c1)"
        using inv Some chan_acc_drop [of f "cn_frames c1" c1] by (simp add: chan_inv_def all_frames_def)
      ultimately show ?thesis using Pair \<open>r = None\<close> n Some by (simp add: writer_take_def)
    qed
  qed
qed

lemma writer_step_take: "snd (writer_step now nows c) = snd (writer_take now nows c)"
  by (simp add: writer_step_def split: prod.split option.split)

lemma chan_inv_ended:
  assumes "chan_inv c"
  shows "chan_inv (write_ended c)"
proof -
  let ?c = "set_out (out_written (cn_out c)) c"
  have inv: "chan_inv ?c" using chan_inv_out [OF assms] ob_inv_written by blast
  show ?thesis
  proof (cases "cn_writing c")
    case None
    then show ?thesis using inv by (simp add: write_ended_def set_out_def Let_def)
  next
    case (Some f)
    let ?d = "?c\<lparr>cn_writing := None\<rparr>"
    have "all_frames ?c = f # all_frames ?d" using Some by (simp add: all_frames_def set_out_def)
    moreover have "chan_acc fs ?d = chan_acc fs ?c" for fs by (simp add: chan_acc_def frame_ok_def)
    ultimately have "chan_acc (f # all_frames ?d) ?d" using inv by (simp add: chan_inv_def)
    then show ?thesis
      using Some chan_acc_drop inv by (simp add: write_ended_def Let_def chan_inv_def) (simp add: set_out_def)
  qed
qed

section \<open>Reachable states of a connection\<close>

text \<open>
  The steps of the reading side (replies and pings, opening, readiness and end of streams), of the
  callbacks of the Host, of the writer, and of the gateway (invalidation and stop), in any order.
\<close>

inductive chan_step :: "chan \<Rightarrow> chan \<Rightarrow> bool" where
  step_send: "out_send m (cn_out c) = (r, ob) \<Longrightarrow> chan_step c (set_out ob c)"
| step_replies: "out_replies S replies (cn_out c) = Some (r, ob) \<Longrightarrow> chan_step c (set_out ob c)"
| step_open: "hm_get (cn_states c) i = None \<Longrightarrow> chan_step c (stream_open i deadline c)"
| step_ready: "chan_step c (stream_ready i c)"
| step_close: "chan_step c (stream_close reason i c)"
| step_terminal: "sink_terminal D now i e c = (r', c') \<Longrightarrow> chan_step c c'"
| step_event: "sink_event S now session i ev c = (r', c') \<Longrightarrow> chan_step c c'"
| step_stale: "sink_stale S now session i c = (r', c') \<Longrightarrow> chan_step c c'"
| step_write: "writer_idle c \<Longrightarrow> writer_step now nows c = (a, c') \<Longrightarrow> chan_step c c'"
| step_written: "chan_step c (write_ended c)"
| step_invalidate: "chan_step c (c\<lparr>cn_invalidated := True\<rparr>)"
| step_stop: "chan_step c (c\<lparr>cn_stop := reason'\<rparr>)"
| step_end: "chan_step c (c\<lparr>cn_alive := False\<rparr>)"

inductive chan_reach :: "chan \<Rightarrow> bool" where
  chan_start: "chan_reach chan_new"
| chan_more: "chan_reach c \<Longrightarrow> chan_step c c' \<Longrightarrow> chan_reach c'"

lemma chan_inv_flags:
  "chan_inv (c\<lparr>cn_invalidated := b\<rparr>) = chan_inv c" "chan_inv (c\<lparr>cn_stop := n\<rparr>) = chan_inv c"
  "chan_inv (c\<lparr>cn_alive := b\<rparr>) = chan_inv c"
  by (simp_all add: chan_inv_def chan_acc_def all_frames_def frame_ok_def)

lemma chan_step_inv:
  assumes "chan_step c c'" and "chan_inv c"
  shows "chan_inv c'"
  using assms
proof cases
  case (step_send m r ob)
  show ?thesis unfolding step_send(1)
    by (rule chan_inv_out [OF assms(2)]) (metis ob_inv_send step_send(2) snd_conv)
next
  case (step_replies S replies r ob)
  show ?thesis unfolding step_replies(1)
    by (rule chan_inv_out [OF assms(2)]) (rule ob_inv_replies [OF _ step_replies(2)])
next
  case (step_open i deadline)
  then show ?thesis using chan_inv_open assms(2) by simp
next
  case (step_ready i)
  then show ?thesis using chan_inv_ready assms(2) by simp
next
  case (step_close reason i)
  then show ?thesis using chan_inv_close assms(2) by simp
next
  case (step_terminal D now i e r')
  then show ?thesis using chan_inv_terminal [OF assms(2), of D now i e] by simp
next
  case (step_event S now session i ev r')
  then show ?thesis using chan_inv_event [OF assms(2), of S now session i ev] by simp
next
  case (step_stale S now session i r')
  then show ?thesis using chan_inv_send [OF assms(2)] by (metis sink_stale_def snd_conv)
next
  case (step_write now nows a)
  then show ?thesis using writer_take_inv [OF assms(2)] writer_step_take by (metis snd_conv)
next
  case step_written
  then show ?thesis using chan_inv_ended assms(2) by simp
qed (use assms(2) in \<open>simp_all add: chan_inv_flags\<close>)

lemma chan_reach_inv: "chan_reach c \<Longrightarrow> chan_inv c"
  by (induction rule: chan_reach.induct) (simp_all add: chan_inv_new chan_step_inv)

definition connection_bytes :: "chan \<Rightarrow> nat" where
  "connection_bytes c = sum_list (map om_bytes (out_messages (cn_out c))) + frame_bytes (all_frames c)"

text \<open>
  C15: whatever the Host sends and however slowly the phone reads, a connection never holds more than
  its 4 MiB: the queued and in-flight replies and frames, each with its overhead, and the buffer of
  the socket together. A stream holds at most 256 frames and 384 KiB of them, and no message is
  longer than 64 KiB.
\<close>

theorem connection_bounded:
  assumes "chan_reach c"
  shows "connection_bytes c + WRITE_BUFFER_BYTES \<le> OUTBOUND_BYTES
    \<and> length (ob_queue (cn_out c)) \<le> OUT_CAPACITY
    \<and> frames_held i (all_frames c) \<le> STREAM_FRAMES \<and> bytes_held i (all_frames c) \<le> STREAM_BYTES
    \<and> (\<forall>m \<in> om_message ` set (out_messages (cn_out c)) \<union> sf_message ` set (all_frames c).
          message_len m \<le> MESSAGE_BYTES)"
proof -
  have acc: "chan_acc (all_frames c) c" using chan_reach_inv [OF assms] by (simp add: chan_inv_def)
  then have ob: "ob_inv (frame_bytes (all_frames c)) (cn_out c)" by (simp add: chan_acc_def)
  have "frames_held i (all_frames c) \<le> STREAM_FRAMES \<and> bytes_held i (all_frames c) \<le> STREAM_BYTES"
  proof (cases "hm_get (cn_states c) i")
    case None
    then show ?thesis using acc held_none [of "all_frames c" c i] by (simp add: chan_acc_def)
  next
    case (Some s)
    then have "sm_slots s + frames_held i (all_frames c) = STREAM_FRAMES \<and> sm_bytes s + bytes_held i (all_frames c) = STREAM_BYTES"
      using acc by (simp add: chan_acc_def)
    then show ?thesis by linarith
  qed
  moreover have "message_len (om_message q) \<le> MESSAGE_BYTES" if "q \<in> set (out_messages (cn_out c))" for q
    using ob that by (auto simp: ob_inv_def list_all_iff out_message_ok_def)
  moreover have "message_len (sf_message f) \<le> MESSAGE_BYTES" if "f \<in> set (all_frames c)" for f
    using acc that by (auto simp: chan_acc_def frame_ok_def)
  ultimately show ?thesis using ob_inv_bound [OF ob] ob by (auto simp: connection_bytes_def ob_inv_def)
qed

section \<open>What the writer sends\<close>

lemma frames_next_live:
  "frames_next nows c = (Some f, c') \<Longrightarrow>
     frame_ready f c'"
proof (induction nows c arbitrary: f c' rule: frames_next.induct)
  case (1 nows c)
  show ?case
  proof (cases "cn_held c")
    case None
    then show ?thesis using 1(1) [OF None] 1(3)
      by (subst (asm) frames_next.simps) (auto split: list.splits)
  next
    case (Some g)
    show ?thesis
    proof (cases "stream_active (nows 0) (sf_stream g) c")
      case False
      then show ?thesis using 1(2) [OF Some False] 1(3) Some
        by (subst (asm) (2) frames_next.simps) (auto split: if_splits)
    next
      case True
      then show ?thesis using 1(3) Some
        by (subst (asm) frames_next.simps) (auto simp: frame_ready_def split: if_splits)
    qed
  qed
qed

lemma out_recv_queue: "out_recv ob = (Some m, ob') \<Longrightarrow> \<exists>q. hd (ob_queue ob) = q \<and> om_message q = m \<and> ob_queue ob \<noteq> []"
  by (auto simp: out_recv_def split: option.splits list.splits)

text \<open>
  C29: the writer sends a stream's data only while the stream is live. What it sends is the next
  queued reply, if there is one, and otherwise a frame of a stream whose open reply has been queued,
  which is not closed and not past its deadline, on a connection that is neither invalidated nor
  stopping; after an invalidation or a stop nothing is sent any more.
\<close>

theorem writer_sends_live:
  assumes "writer_step now nows c = (WriteMessage m, c')" and "writer_idle c"
  shows "\<not> cn_invalidated c' \<and> cn_stop c' = 0
    \<and> (if ob_queue (cn_out c) \<noteq> [] then m = om_message (hd (ob_queue (cn_out c)))
       else \<exists>f. cn_writing c' = Some f \<and> sf_message f = m \<and> frame_ready f c'
              \<and> stream_active now (sf_stream f) c')"
proof (cases "ob_queue (cn_out c)")
  case Nil
  then have "fst (out_recv (cn_out c)) = None" by (simp add: out_recv_def split: option.splits)
  then obtain ob where recv: "out_recv (cn_out c) = (None, ob)" by (cases "out_recv (cn_out c)") auto
  have ok: "writer_take now nows c = (Some m, c')" "\<not> cn_invalidated c'" "cn_stop c' = 0"
    using assms(1) by (auto simp: writer_step_def split: prod.splits option.splits if_splits)
  obtain f c1 where n: "frames_next nows c = (Some f, c1)" "stream_active now (sf_stream f) c1"
    and m: "m = sf_message f" "c' = c1\<lparr>cn_writing := Some f\<rparr>"
    using ok(1) recv by (auto simp: writer_take_def split: prod.splits option.splits if_splits)
  have "frame_ready f c'" using frames_next_live [OF n(1)] m(2) by (simp add: frame_ready_def)
  moreover have "stream_active now (sf_stream f) c'"
    using n(2) m(2) by (simp add: stream_active_def life_active_def)
  ultimately show ?thesis using ok Nil m by simp
next
  case (Cons q qs)
  then have "out_recv (cn_out c) = (Some (om_message q), (cn_out c)\<lparr>ob_queue := qs, ob_flight := Some q\<rparr>)"
    using assms(2) by (simp add: out_recv_def writer_idle_def)
  then show ?thesis using assms(1) Cons
    by (auto simp: writer_step_def writer_take_def split: if_splits)
qed

section \<open>Witnesses\<close>

definition demo_chan :: chan where
  "demo_chan = stream_ready 1 (snd (sink_terminal demo_unb64 0 1
     (TermFrame ''t'' 0 True ''ansi'' 80 24 ''aGk='') (stream_open 1 None chan_new)))"

definition demo_written :: chan where
  "demo_written = snd (writer_step 0 (\<lambda>_. 0) demo_chan)"

lemma demo_chan_reach: "chan_reach demo_chan"
  unfolding demo_chan_def
  by (intro chan_more [OF _ step_ready] chan_more [OF _ step_terminal [OF surjective_pairing]]
      chan_more [OF _ step_open] chan_start)
    (simp add: chan_new_def)

theorem connection_bounded_witness:
  "connection_bytes demo_chan + WRITE_BUFFER_BYTES \<le> OUTBOUND_BYTES \<and> frames_held 1 (all_frames demo_chan) \<le> STREAM_FRAMES"
  using connection_bounded [OF demo_chan_reach] by blast

lemma demo_chan_idle: "writer_idle demo_chan"
  by code_simp

lemma demo_writes: "writer_step 0 (\<lambda>_. 0) demo_chan = (WriteMessage (MBinary [0, 0, 0, 1, 104, 105]), demo_written)"
proof -
  have "fst (writer_step 0 (\<lambda>_. 0) demo_chan) = WriteMessage (MBinary [0, 0, 0, 1, 104, 105])"
    by code_simp
  then show ?thesis by (simp add: demo_written_def prod_eq_iff)
qed

theorem writer_sends_live_witness:
  "\<not> cn_invalidated demo_written \<and> cn_stop demo_written = 0 \<and> ob_queue (cn_out demo_chan) = []"
proof -
  have "ob_queue (cn_out demo_chan) = []" by code_simp
  with writer_sends_live [OF demo_writes demo_chan_idle] show ?thesis by blast
qed

end
