(* ===== verification/Jobs.thy ===== *)
theory Jobs
  imports Outbound_Props
begin

text \<open>
  \<open>companion/src/herdr_jobs.rs\<close>: the bounded executor of the Host's blocking calls and the leases of
  Host resources; with \<open>full_devices\<close> of \<open>gateway.rs\<close>, the one full session a device may hold, whose
  permit travels with its lease.

  A semaphore is the number of its free permits. The map of a device's semaphores holds weak
  references: only the permits of running jobs keep one alive, so a semaphore is dead exactly when
  all its permits are free. Tasks are lists: the calls that run, the releases that wait for a cleanup
  slot, and the releases that run. The resource permits of leases that are still held are outside.
\<close>

definition MAX_CALLS :: nat where "MAX_CALLS = 4"
definition WRITE_CALLS :: nat where "WRITE_CALLS = 2"
definition CLEANUP_CALLS :: nat where "CLEANUP_CALLS = 2"
definition MAX_RESOURCES :: nat where "MAX_RESOURCES = MAX_PEERS * 8"

record job =
  jo_device :: string
  jo_write :: bool

text \<open>A release: its resource and, for a full session, the device whose permit it holds.\<close>

record cleanup =
  cl_resource :: resource
  cl_full :: "string option"

record jobs =
  jb_slots :: nat
  jb_write_slots :: nat
  jb_cleanup_slots :: nat
  jb_devices :: "(string \<times> bool, nat) hmap"
  jb_resources :: nat
  jb_full :: "(string, nat) hmap"
  jb_running :: "job list"
  jb_waiting :: "cleanup list"
  jb_releasing :: "cleanup list"

definition jobs_new :: jobs where
  "jobs_new = \<lparr>jb_slots = MAX_CALLS, jb_write_slots = WRITE_CALLS, jb_cleanup_slots = CLEANUP_CALLS,
     jb_devices = [], jb_resources = MAX_RESOURCES, jb_full = [], jb_running = [], jb_waiting = [], jb_releasing = []\<rparr>"

section \<open>Calls\<close>

definition device_slots :: "bool \<Rightarrow> nat" where
  "device_slots w = (if w then 1 else 2)"

text \<open>\<open>retain\<close>, \<open>get\<close> and \<open>upgrade\<close>: the live semaphore of the device, or a new one.\<close>

definition live_devices :: "(string \<times> bool, nat) hmap \<Rightarrow> (string \<times> bool, nat) hmap" where
  "live_devices m = hm_retain (\<lambda>k n. n < device_slots (snd k)) m"

definition device_free :: "string \<times> bool \<Rightarrow> (string \<times> bool, nat) hmap \<Rightarrow> nat" where
  "device_free k m = (case hm_get m k of None \<Rightarrow> device_slots (snd k) | Some n \<Rightarrow> n)"

definition class_slots :: "bool \<Rightarrow> jobs \<Rightarrow> nat" where
  "class_slots w j = (if w then jb_write_slots j else jb_slots j)"

definition set_class_slots :: "bool \<Rightarrow> nat \<Rightarrow> jobs \<Rightarrow> jobs" where
  "set_class_slots w n j = (if w then j\<lparr>jb_write_slots := n\<rparr> else j\<lparr>jb_slots := n\<rparr>)"

definition submit_device :: "string \<Rightarrow> bool \<Rightarrow> jobs \<Rightarrow> (string + job) \<times> jobs" where
  "submit_device device w j =
     (let k = (device, w);
          m = live_devices (jb_devices j);
          free = device_free k m;
          m1 = hm_insert k free m
      in if free = 0 then (Inl ''busy'', j\<lparr>jb_devices := m1\<rparr>)
         else if class_slots w j = 0 then (Inl ''busy'', j\<lparr>jb_devices := m1\<rparr>)
         else (let job = \<lparr>jo_device = device, jo_write = w\<rparr>
               in (Inr job, set_class_slots w (class_slots w j - 1)
                     (j\<lparr>jb_devices := hm_insert k (free - 1) m1, jb_running := job # jb_running j\<rparr>))))"

text \<open>The end of the call: both permits return, before its result is delivered.\<close>

definition job_done :: "job \<Rightarrow> jobs \<Rightarrow> jobs" where
  "job_done job j =
     (let k = (jo_device job, jo_write job)
      in if job \<notin> set (jb_running j) then j
         else set_class_slots (jo_write job) (class_slots (jo_write job) j + 1)
                (j\<lparr>jb_devices := hm_insert k (device_free k (jb_devices j) + 1) (jb_devices j),
                   jb_running := remove1 job (jb_running j)\<rparr>))"

section \<open>Resources\<close>

definition jobs_reserve :: "jobs \<Rightarrow> (string + unit) \<times> jobs" where
  "jobs_reserve j =
     (if jb_resources j = 0 then (Inl ''busy'', j) else (Inr (), j\<lparr>jb_resources := jb_resources j - 1\<rparr>))"

text \<open>A permit dropped without a lease.\<close>

definition unreserve :: "jobs \<Rightarrow> jobs" where
  "unreserve j = j\<lparr>jb_resources := jb_resources j + 1\<rparr>"

text \<open>The full permit of a device: the live semaphore of the device, or a new one of one permit.\<close>

definition full_free :: "string \<Rightarrow> (string, nat) hmap \<Rightarrow> nat" where
  "full_free device m = (case hm_get m device of None \<Rightarrow> 1 | Some n \<Rightarrow> n)"

definition live_full :: "(string, nat) hmap \<Rightarrow> (string, nat) hmap" where
  "live_full m = hm_retain (\<lambda>_ n. n < 1) m"

definition acquire_full :: "string \<Rightarrow> jobs \<Rightarrow> (string + unit) \<times> jobs" where
  "acquire_full device j =
     (let m = live_full (jb_full j);
          free = full_free device m;
          m1 = hm_insert device free m
      in if free = 0 then (Inl ''full-limit'', j\<lparr>jb_full := m1\<rparr>)
         else (Inr (), j\<lparr>jb_full := hm_insert device (free - 1) m1\<rparr>))"

definition release_full :: "string option \<Rightarrow> jobs \<Rightarrow> jobs" where
  "release_full device j =
     (case device of None \<Rightarrow> j | Some d \<Rightarrow> j\<lparr>jb_full := hm_insert d (full_free d (jb_full j) + 1) (jb_full j)\<rparr>)"

section \<open>Leases\<close>

record lease =
  le_resource :: resource
  le_full :: "string option"

definition lease_id :: "lease \<Rightarrow> string" where
  "lease_id l = resource_id (le_resource l)"

text \<open>Dropping a lease schedules its release; the permits stay with the scheduled task.\<close>

definition lease_drop :: "lease \<Rightarrow> jobs \<Rightarrow> jobs" where
  "lease_drop l j = j\<lparr>jb_waiting := jb_waiting j @ [\<lparr>cl_resource = le_resource l, cl_full = le_full l\<rparr>]\<rparr>"

text \<open>\<open>release_now\<close>, on the executor: the Host releases at once, then the permits return.\<close>

definition release_now :: "'w herdr_port \<Rightarrow> lease \<Rightarrow> jobs \<Rightarrow> 'w \<Rightarrow> jobs \<times> 'w" where
  "release_now P l j w = (unreserve (release_full (le_full l) j), hp_release P (le_resource l) w)"

definition cleanup_start :: "cleanup \<Rightarrow> jobs \<Rightarrow> jobs option" where
  "cleanup_start c j =
     (if c \<in> set (jb_waiting j) \<and> jb_cleanup_slots j > 0
      then Some (j\<lparr>jb_cleanup_slots := jb_cleanup_slots j - 1, jb_waiting := remove1 c (jb_waiting j),
                   jb_releasing := c # jb_releasing j\<rparr>)
      else None)"

definition cleanup_done :: "'w herdr_port \<Rightarrow> cleanup \<Rightarrow> jobs \<Rightarrow> 'w \<Rightarrow> (jobs \<times> 'w) option" where
  "cleanup_done P c j w =
     (if c \<in> set (jb_releasing j)
      then Some (unreserve (release_full (cl_full c)
             (j\<lparr>jb_cleanup_slots := jb_cleanup_slots j + 1, jb_releasing := remove1 c (jb_releasing j)\<rparr>)),
             hp_release P (cl_resource c) w)
      else None)"

text \<open>
  What \<open>drain\<close> polls for: no task is left, neither a job nor a release. The tasks that were scheduled
  get there by themselves, and \<open>drain\<close> only reaps and sleeps; the function \<open>drain\<close> here runs the release
  tasks, in one order the runtime may choose, to the state that the poll waits for, when the Host
  returns from each of its calls.
\<close>

definition drained :: "jobs \<Rightarrow> bool" where
  "drained j \<longleftrightarrow> jb_running j = [] \<and> jb_waiting j = [] \<and> jb_releasing j = []"

function drain :: "'w herdr_port \<Rightarrow> jobs \<Rightarrow> 'w \<Rightarrow> jobs \<times> 'w" where
  "drain P j w =
     (case jb_releasing j of
        c # _ \<Rightarrow> (case cleanup_done P c j w of None \<Rightarrow> (j, w) | Some (j', w') \<Rightarrow> drain P j' w')
      | [] \<Rightarrow>
          (case jb_waiting j of
             [] \<Rightarrow> (j, w)
           | c # _ \<Rightarrow> (case cleanup_start c j of None \<Rightarrow> (j, w) | Some j' \<Rightarrow> drain P j' w)))"
  by pat_completeness auto

termination
  by (relation "measure (\<lambda>(P, j, w). 2 * length (jb_waiting j) + length (jb_releasing j))")
    (auto simp: cleanup_done_def cleanup_start_def unreserve_def release_full_def length_remove1
      split: if_splits option.splits dest: length_pos_if_in_set)

declare drain.simps [simp del]

end
