(* ===== verification/Jobs_Props.thy ===== *)
theory Jobs_Props
  imports Jobs "HOL-Library.Multiset"
begin

text \<open>
  Correctness of \<open>Jobs\<close>: the permits are conserved whatever runs, ends and is released, so the bounds
  on calls, resources and full sessions hold; and every lease that is dropped is released once.
\<close>

definition job_key :: "job \<Rightarrow> string \<times> bool" where
  "job_key job = (jo_device job, jo_write job)"

definition running_of :: "string \<times> bool \<Rightarrow> jobs \<Rightarrow> nat" where
  "running_of k j = length (filter (\<lambda>job. job_key job = k) (jb_running j))"

definition running_class :: "bool \<Rightarrow> jobs \<Rightarrow> nat" where
  "running_class w j = length (filter (\<lambda>job. jo_write job = w) (jb_running j))"

definition cleanups :: "jobs \<Rightarrow> cleanup list" where
  "cleanups j = jb_waiting j @ jb_releasing j"

definition full_cleanups :: "string \<Rightarrow> jobs \<Rightarrow> nat" where
  "full_cleanups d j = length (filter (\<lambda>c. cl_full c = Some d) (cleanups j))"

definition class_size :: "bool \<Rightarrow> nat" where
  "class_size w = (if w then WRITE_CALLS else MAX_CALLS)"

text \<open>
  The permits outside the pool: \<open>R\<close> resource permits, reserved or held by leases, and \<open>F d\<close> full
  permits of the device \<open>d\<close>.
\<close>

definition jobs_inv :: "nat \<Rightarrow> (string \<Rightarrow> nat) \<Rightarrow> jobs \<Rightarrow> bool" where
  "jobs_inv R F j \<longleftrightarrow>
     (\<forall>w. class_slots w j + running_class w j = class_size w)
     \<and> hm_wf (jb_devices j) \<and> (\<forall>k. device_free k (jb_devices j) + running_of k j = device_slots (snd k))
     \<and> jb_cleanup_slots j + length (jb_releasing j) = CLEANUP_CALLS
     \<and> jb_resources j + R + length (cleanups j) = MAX_RESOURCES
     \<and> hm_wf (jb_full j) \<and> (\<forall>d. full_free d (jb_full j) + F d + full_cleanups d j = 1)"

lemma jobs_inv_new: "jobs_inv 0 (\<lambda>_. 0) jobs_new"
  by (simp add: jobs_inv_def jobs_new_def class_slots_def running_class_def class_size_def device_free_def
      running_of_def cleanups_def full_free_def full_cleanups_def)

lemma jobs_inv_device: "jobs_inv R F j \<Longrightarrow> device_free k (jb_devices j) + running_of k j = device_slots (snd k)"
  unfolding jobs_inv_def by blast

lemma jobs_inv_class: "jobs_inv R F j \<Longrightarrow> class_slots w j + running_class w j = class_size w"
  unfolding jobs_inv_def by blast

lemma jobs_inv_full: "jobs_inv R F j \<Longrightarrow> full_free d (jb_full j) + F d + full_cleanups d j = 1"
  unfolding jobs_inv_def by blast

section \<open>Calls\<close>

lemma set_class_slots_fields [simp]:
  "jb_running (set_class_slots w n j) = jb_running j" "jb_devices (set_class_slots w n j) = jb_devices j"
  "jb_cleanup_slots (set_class_slots w n j) = jb_cleanup_slots j" "jb_releasing (set_class_slots w n j) = jb_releasing j"
  "jb_waiting (set_class_slots w n j) = jb_waiting j" "jb_resources (set_class_slots w n j) = jb_resources j"
  "jb_full (set_class_slots w n j) = jb_full j"
  "class_slots v (set_class_slots w n j) = (if v = w then n else class_slots v j)"
  by (simp_all add: set_class_slots_def class_slots_def)

lemma class_slots_update [simp]:
  "class_slots w (j\<lparr>jb_devices := m\<rparr>) = class_slots w j" "class_slots w (j\<lparr>jb_running := r\<rparr>) = class_slots w j"
  "class_slots w (j\<lparr>jb_waiting := c\<rparr>) = class_slots w j" "class_slots w (j\<lparr>jb_releasing := c\<rparr>) = class_slots w j"
  "class_slots w (j\<lparr>jb_cleanup_slots := n\<rparr>) = class_slots w j" "class_slots w (j\<lparr>jb_resources := n\<rparr>) = class_slots w j"
  "class_slots w (j\<lparr>jb_full := f\<rparr>) = class_slots w j"
  by (simp_all add: class_slots_def)

lemma jobs_counts_cong:
  "jb_running j' = jb_running j \<Longrightarrow> running_of k j' = running_of k j"
  "jb_running j' = jb_running j \<Longrightarrow> running_class w j' = running_class w j"
  "jb_waiting j' = jb_waiting j \<Longrightarrow> jb_releasing j' = jb_releasing j \<Longrightarrow> cleanups j' = cleanups j"
  "jb_waiting j' = jb_waiting j \<Longrightarrow> jb_releasing j' = jb_releasing j \<Longrightarrow> full_cleanups d j' = full_cleanups d j"
  by (simp_all add: running_of_def running_class_def cleanups_def full_cleanups_def)

lemma live_devices_free:
  assumes "hm_wf m"
    and "\<And>k. device_free k m \<le> device_slots (snd k)"
  shows "device_free k (live_devices m) = device_free k m"
  using assms(2) [of k] hm_get_retain [OF assms(1), of "\<lambda>k n. n < device_slots (snd k)" k]
  by (auto simp: live_devices_def device_free_def split: option.splits if_splits)

lemma device_free_insert: "device_free k (hm_insert k' n m) = (if k = k' then n else device_free k m)"
  by (simp add: device_free_def)

lemma submit_cases:
  assumes "jobs_inv R F j"
  obtains (refused) m where "submit_device device w j = (Inl ''busy'', j\<lparr>jb_devices := m\<rparr>)"
      and "hm_wf m" and "\<And>k. device_free k m = device_free k (jb_devices j)"
  | (ok) m where "submit_device device w j = (Inr \<lparr>jo_device = device, jo_write = w\<rparr>,
        set_class_slots w (class_slots w j - 1) (j\<lparr>jb_devices := m, jb_running := \<lparr>jo_device = device, jo_write = w\<rparr> # jb_running j\<rparr>))"
      and "hm_wf m" and "0 < class_slots w j" and "0 < device_free (device, w) (jb_devices j)"
      and "\<And>k. device_free k m = (if k = (device, w) then device_free k (jb_devices j) - 1 else device_free k (jb_devices j))"
proof -
  let ?k = "(device, w)"
  let ?m = "live_devices (jb_devices j)"
  have wf: "hm_wf (jb_devices j)" using assms by (simp add: jobs_inv_def)
  have le: "device_free k (jb_devices j) \<le> device_slots (snd k)" for k
  proof -
    have "device_free k (jb_devices j) + running_of k j = device_slots (snd k)" using assms by (rule jobs_inv_device)
    then show ?thesis by linarith
  qed
  have same: "device_free k ?m = device_free k (jb_devices j)" for k
    using live_devices_free [OF wf le] .
  have wf': "hm_wf (hm_insert ?k n (hm_insert ?k n' ?m))" "hm_wf (hm_insert ?k n' ?m)" for n n'
    using wf by (auto simp: live_devices_def)
  show ?thesis
  proof (cases "device_free ?k (jb_devices j) = 0 \<or> class_slots w j = 0")
    case True
    then show ?thesis
      by (intro refused [of "hm_insert ?k (device_free ?k (jb_devices j)) ?m"])
        (auto simp: submit_device_def Let_def same device_free_insert wf')
  next
    case False
    then show ?thesis
      by (intro ok [of "hm_insert ?k (device_free ?k (jb_devices j) - 1) (hm_insert ?k (device_free ?k (jb_devices j)) ?m)"])
        (auto simp: submit_device_def Let_def same device_free_insert wf')
  qed
qed

lemma jobs_inv_submit:
  assumes "jobs_inv R F j"
  shows "jobs_inv R F (snd (submit_device device w j))"
  using assms
proof (cases rule: submit_cases [where device = device and w = w])
  case (refused m)
  then show ?thesis using assms by (simp add: jobs_inv_def) (simp add: running_of_def running_class_def cleanups_def full_cleanups_def)
next
  case (ok m)
  let ?job = "\<lparr>jo_device = device, jo_write = w\<rparr>"
  let ?j = "snd (submit_device device w j)"
  have run: "running_of k ?j = of_bool (k = (device, w)) + running_of k j"
    "running_class v ?j = of_bool (v = w) + running_class v j" for k v
    by (auto simp: ok(1) running_of_def running_class_def job_key_def)
  have same: "cleanups ?j = cleanups j" "full_cleanups d ?j = full_cleanups d j" for d
    by (simp_all add: ok(1) cleanups_def full_cleanups_def)
  have dev: "device_free k m + running_of k ?j = device_slots (snd k)" for k
  proof -
    have "device_free k (jb_devices j) + running_of k j = device_slots (snd k)" using assms by (rule jobs_inv_device)
    then show ?thesis using ok(4) by (auto simp: run ok(5))
  qed
  have cls: "class_slots v ?j + running_class v ?j = class_size v" for v
  proof -
    have "class_slots v j + running_class v j = class_size v" using assms by (rule jobs_inv_class)
    then show ?thesis using ok(3) unfolding run by (auto simp: ok(1))
  qed
  show ?thesis using assms ok(2) dev cls same by (simp add: jobs_inv_def) (simp add: ok(1))
qed

lemma length_filter_remove1:
  "x \<in> set xs \<Longrightarrow> length (filter P (remove1 x xs)) + of_bool (P x) = length (filter P xs)"
  by (induction xs) auto

lemma jobs_inv_done:
  assumes "jobs_inv R F j"
  shows "jobs_inv R F (job_done job j)"
proof (cases "job \<in> set (jb_running j)")
  case False
  then show ?thesis using assms by (simp add: job_done_def)
next
  case True
  let ?j = "job_done job j" and ?k = "(jo_device job, jo_write job)"
  have run: "running_of k ?j + of_bool (k = ?k) = running_of k j"
    "running_class v ?j + of_bool (v = jo_write job) = running_class v j" for k v
    using length_filter_remove1 [OF True, of "\<lambda>x. job_key x = k"] length_filter_remove1 [OF True, of "\<lambda>x. jo_write x = v"] True
    by (auto simp: job_done_def Let_def running_of_def running_class_def job_key_def)
  have same: "cleanups ?j = cleanups j" "full_cleanups d ?j = full_cleanups d j" for d
    using True by (simp_all add: job_done_def Let_def cleanups_def full_cleanups_def)
  have dev: "device_free k (jb_devices ?j) + running_of k ?j = device_slots (snd k)" for k
  proof -
    have "device_free k (jb_devices j) + running_of k j = device_slots (snd k)" using assms by (rule jobs_inv_device)
    then show ?thesis using run(1) [of k] True by (auto simp: job_done_def Let_def device_free_insert)
  qed
  have cls: "class_slots v ?j + running_class v ?j = class_size v" for v
  proof -
    have "class_slots v j + running_class v j = class_size v" using assms by (rule jobs_inv_class)
    then show ?thesis using run(2) [of v] True by (auto simp: job_done_def Let_def)
  qed
  show ?thesis using assms dev cls same True by (simp add: jobs_inv_def) (simp add: job_done_def Let_def)
qed

section \<open>Resources and releases\<close>

lemma full_free_insert: "full_free d (hm_insert d' n m) = (if d = d' then n else full_free d m)"
  by (simp add: full_free_def)

lemma jobs_inv_reserve: "jobs_inv R F j \<Longrightarrow> jobs_reserve j = (Inr (), j') \<Longrightarrow> jobs_inv (R + 1) F j'"
  by (auto simp: jobs_reserve_def jobs_inv_def running_of_def running_class_def cleanups_def full_cleanups_def split: if_splits)

lemma jobs_inv_unreserve: "jobs_inv (R + 1) F j \<Longrightarrow> jobs_inv R F (unreserve j)"
  by (simp add: unreserve_def jobs_inv_def running_of_def running_class_def cleanups_def full_cleanups_def)

lemma jobs_inv_acquire_full:
  assumes "jobs_inv R F j" and "acquire_full d j = (r, j')"
  shows "jobs_inv R (if r = Inr () then F(d := F d + 1) else F) j'"
proof -
  let ?m = "live_full (jb_full j)"
  have wf: "hm_wf (jb_full j)" using assms(1) by (simp add: jobs_inv_def)
  have one: "full_free e (jb_full j) + F e + full_cleanups e j = 1" for e using assms(1) by (rule jobs_inv_full)
  have same: "full_free e ?m = full_free e (jb_full j)" for e
    using one [of e] hm_get_retain [OF wf, of "\<lambda>_ n. n < 1" e] by (auto simp: full_free_def live_full_def split: option.splits if_splits)
  have wf_m: "hm_wf ?m" using wf by (simp add: live_full_def hm_wf_retain)
  have counts: "running_of k j' = running_of k j" "running_class w j' = running_class w j" "cleanups j' = cleanups j"
    "full_cleanups e j' = full_cleanups e j" "class_slots w j' = class_slots w j" "jb_cleanup_slots j' = jb_cleanup_slots j"
    "jb_releasing j' = jb_releasing j" "jb_resources j' = jb_resources j" "jb_devices j' = jb_devices j" for k w e
    using assms(2) by (auto simp: acquire_full_def Let_def running_of_def running_class_def cleanups_def full_cleanups_def split: if_splits)
  have full: "full_free e (jb_full j') + (if r = Inr () then F(d := F d + 1) else F) e + full_cleanups e j' = 1 \<and> hm_wf (jb_full j')" for e
    unfolding counts using assms(2) one [of e] wf_m
    by (auto simp: acquire_full_def Let_def same full_free_insert split: if_splits)
  show ?thesis using assms(1) full by (simp add: jobs_inv_def counts)
qed

lemma jobs_inv_release_full:
  assumes "jobs_inv R F j" and "\<And>d. dev = Some d \<Longrightarrow> 0 < F d"
  shows "jobs_inv R (case dev of None \<Rightarrow> F | Some d \<Rightarrow> F(d := F d - 1)) (release_full dev j)"
proof (cases dev)
  case None
  then show ?thesis using assms by (simp add: release_full_def)
next
  case (Some d)
  have one: "full_free e (jb_full j) + F e + full_cleanups e j = 1" for e using assms(1) by (rule jobs_inv_full)
  have "full_free e (jb_full (release_full dev j)) + (F(d := F d - 1)) e + full_cleanups e (release_full dev j) = 1" for e
    using one [of e] assms(2) [OF Some] Some by (auto simp: release_full_def full_free_insert full_cleanups_def cleanups_def)
  then show ?thesis using assms Some
    by (simp add: jobs_inv_def)
      (simp add: release_full_def running_of_def running_class_def cleanups_def hm_wf_insert)
qed

lemma jobs_inv_lease_drop:
  assumes "jobs_inv (R + 1) F j" and "\<And>d. le_full l = Some d \<Longrightarrow> 0 < F d"
  shows "jobs_inv R (case le_full l of None \<Rightarrow> F | Some d \<Rightarrow> F(d := F d - 1)) (lease_drop l j)"
proof -
  let ?F = "case le_full l of None \<Rightarrow> F | Some d \<Rightarrow> F(d := F d - 1)"
  have "full_free d (jb_full (lease_drop l j)) + ?F d + full_cleanups d (lease_drop l j) = 1" for d
  proof (cases "le_full l = Some d")
    case True
    then have "full_cleanups d (lease_drop l j) = Suc (full_cleanups d j)"
      by (simp add: lease_drop_def full_cleanups_def cleanups_def)
    moreover have "jb_full (lease_drop l j) = jb_full j" by (simp add: lease_drop_def)
    ultimately show ?thesis using jobs_inv_full [OF assms(1), of d] assms(2) [OF True] True by simp
  next
    case False
    then have "full_cleanups d (lease_drop l j) = full_cleanups d j"
      by (simp add: lease_drop_def full_cleanups_def cleanups_def)
    moreover have "jb_full (lease_drop l j) = jb_full j" by (simp add: lease_drop_def)
    ultimately show ?thesis using jobs_inv_full [OF assms(1), of d] False by (simp split: option.split)
  qed
  then show ?thesis using assms(1)
    by (simp add: jobs_inv_def) (simp add: lease_drop_def running_of_def running_class_def cleanups_def)
qed

lemma jobs_inv_start:
  assumes "jobs_inv R F j" and "cleanup_start c j = Some j'"
  shows "jobs_inv R F j'"
proof -
  have c: "c \<in> set (jb_waiting j)" and j': "j' = j\<lparr>jb_cleanup_slots := jb_cleanup_slots j - 1,
      jb_waiting := remove1 c (jb_waiting j), jb_releasing := c # jb_releasing j\<rparr>" and slots: "0 < jb_cleanup_slots j"
    using assms(2) by (auto simp: cleanup_start_def split: if_splits)
  have len: "length (jb_waiting j) = Suc (length (remove1 c (jb_waiting j)))"
    using c by (simp add: length_remove1) (metis Suc_pred length_pos_if_in_set)
  have "full_cleanups d j' = full_cleanups d j" for d
    using length_filter_remove1 [OF c, of "\<lambda>c. cl_full c = Some d"] by (auto simp: j' full_cleanups_def cleanups_def)
  then show ?thesis using assms(1) slots len
    by (simp add: jobs_inv_def) (auto simp: j' running_of_def running_class_def cleanups_def)
qed

lemma jobs_inv_cleaned:
  assumes "jobs_inv R F j" and "cleanup_done P c j w = Some (j', w')"
  shows "jobs_inv R F j'"
proof -
  let ?j = "j\<lparr>jb_cleanup_slots := jb_cleanup_slots j + 1, jb_releasing := remove1 c (jb_releasing j)\<rparr>"
  have c: "c \<in> set (jb_releasing j)" and j': "j' = unreserve (release_full (cl_full c) ?j)"
    using assms(2) by (auto simp: cleanup_done_def split: if_splits)
  have len: "length (jb_releasing j) = Suc (length (remove1 c (jb_releasing j)))"
    using c by (simp add: length_remove1) (metis Suc_pred length_pos_if_in_set)
  let ?F = "\<lambda>d. F d + of_bool (cl_full c = Some d)"
  have "full_free d (jb_full ?j) + ?F d + full_cleanups d ?j = 1" for d
  proof -
    have "full_cleanups d ?j + of_bool (cl_full c = Some d) = full_cleanups d j"
      using length_filter_remove1 [OF c, of "\<lambda>c. cl_full c = Some d"] by (simp add: full_cleanups_def cleanups_def)
    then show ?thesis using jobs_inv_full [OF assms(1), of d] by (simp del: of_bool_eq_0_iff)
  qed
  then have "jobs_inv (R + 1) ?F ?j"
    using assms(1) len by (simp add: jobs_inv_def) (simp add: running_of_def running_class_def cleanups_def)
  then have "jobs_inv (R + 1) (case cl_full c of None \<Rightarrow> ?F | Some d \<Rightarrow> ?F(d := ?F d - 1)) (release_full (cl_full c) ?j)"
    by (rule jobs_inv_release_full) simp
  moreover have "(case cl_full c of None \<Rightarrow> ?F | Some d \<Rightarrow> ?F(d := ?F d - 1)) = F"
    by (auto simp: fun_eq_iff split: option.split)
  ultimately show ?thesis unfolding j' using jobs_inv_unreserve by metis
qed

section \<open>Reachable states\<close>

type_synonym job_state = "nat \<times> (string \<Rightarrow> nat) \<times> jobs"

inductive jobs_step :: "job_state \<Rightarrow> job_state \<Rightarrow> bool" where
  jobs_submit: "jobs_step (R, F, j) (R, F, snd (submit_device device w j))"
| jobs_done: "jobs_step (R, F, j) (R, F, job_done job j)"
| jobs_take: "jobs_reserve j = (Inr (), j') \<Longrightarrow> jobs_step (R, F, j) (R + 1, F, j')"
| jobs_give: "jobs_step (R + 1, F, j) (R, F, unreserve j)"
| jobs_full: "acquire_full d j = (r, j') \<Longrightarrow> jobs_step (R, F, j) (R, if r = Inr () then F(d := F d + 1) else F, j')"
| jobs_full_back: "0 < F d \<Longrightarrow> jobs_step (R, F, j) (R, F(d := F d - 1), release_full (Some d) j)"
| jobs_drop: "(\<And>d. le_full l = Some d \<Longrightarrow> 0 < F d) \<Longrightarrow>
    jobs_step (R + 1, F, j) (R, case le_full l of None \<Rightarrow> F | Some d \<Rightarrow> F(d := F d - 1), lease_drop l j)"
| jobs_start: "cleanup_start c j = Some j' \<Longrightarrow> jobs_step (R, F, j) (R, F, j')"
| jobs_cleaned: "cleanup_done (P :: unit herdr_port) c j w = Some (j', w') \<Longrightarrow> jobs_step (R, F, j) (R, F, j')"

inductive jobs_reach :: "job_state \<Rightarrow> bool" where
  jobs_first: "jobs_reach (0, \<lambda>_. 0, jobs_new)"
| jobs_more: "jobs_reach s \<Longrightarrow> jobs_step s s' \<Longrightarrow> jobs_reach s'"

definition job_state_inv :: "job_state \<Rightarrow> bool" where
  "job_state_inv s = (case s of (R, F, j) \<Rightarrow> jobs_inv R F j)"

lemma jobs_step_inv: "jobs_step s s' \<Longrightarrow> job_state_inv s \<Longrightarrow> job_state_inv s'"
proof (induction rule: jobs_step.induct)
  case (jobs_submit R F j device w)
  then show ?case unfolding job_state_inv_def prod.case by (rule jobs_inv_submit)
next
  case (jobs_done R F j job)
  then show ?case unfolding job_state_inv_def prod.case by (rule jobs_inv_done)
next
  case (jobs_take j j' R F)
  then show ?case unfolding job_state_inv_def prod.case by (rule jobs_inv_reserve [rotated])
next
  case (jobs_give R F j)
  then show ?case unfolding job_state_inv_def prod.case by (rule jobs_inv_unreserve)
next
  case (jobs_full d j r j' R F)
  from jobs_inv_acquire_full [OF _ this(1)] this(2) show ?case unfolding job_state_inv_def prod.case by blast
next
  case (jobs_full_back F d R j)
  then show ?case using jobs_inv_release_full [of R F j "Some d"] by (simp add: job_state_inv_def)
next
  case (jobs_drop l F R j)
  then show ?case unfolding job_state_inv_def prod.case by (rule jobs_inv_lease_drop [rotated])
next
  case (jobs_start c j j' R F)
  then show ?case unfolding job_state_inv_def prod.case by (rule jobs_inv_start [rotated])
next
  case (jobs_cleaned P c j w j' w' R F)
  then show ?case unfolding job_state_inv_def prod.case by (rule jobs_inv_cleaned [rotated])
qed

lemma jobs_reach_inv: "jobs_reach (R, F, j) \<Longrightarrow> jobs_inv R F j"
proof -
  have "jobs_reach s \<Longrightarrow> job_state_inv s" for s
    by (induction rule: jobs_reach.induct) (simp_all add: jobs_step_inv, simp add: job_state_inv_def jobs_inv_new)
  then show "jobs_reach (R, F, j) \<Longrightarrow> jobs_inv R F j" by (fastforce simp: job_state_inv_def)
qed

text \<open>
  C22: the executor keeps its bounds in every state: at most four reads and two writes of all phones
  run at once, at most two reads and one write of one phone, at most two releases, at most 128 Host
  resources are reserved, open or being released, and a phone holds at most one full session, where
  one that is still being released counts.
\<close>

theorem jobs_bounded:
  assumes "jobs_reach (R, F, j)"
  shows "running_class False j \<le> 4 \<and> running_class True j \<le> 2
    \<and> running_of (device, False) j \<le> 2 \<and> running_of (device, True) j \<le> 1
    \<and> length (jb_releasing j) \<le> 2 \<and> R + length (cleanups j) \<le> 128
    \<and> F device + full_cleanups device j \<le> 1"
proof -
  note inv = jobs_reach_inv [OF assms]
  have "length (jb_releasing j) \<le> 2" and "R + length (cleanups j) \<le> 128"
    using inv by (simp_all add: jobs_inv_def CLEANUP_CALLS_def MAX_RESOURCES_def MAX_PEERS_def)
  then show ?thesis
    using jobs_inv_class [OF inv, of False] jobs_inv_class [OF inv, of True] jobs_inv_full [OF inv, of device]
      jobs_inv_device [OF inv, of "(device, False)"] jobs_inv_device [OF inv, of "(device, True)"]
    by (simp add: class_size_def MAX_CALLS_def WRITE_CALLS_def device_slots_def)
qed

section \<open>Every release happens\<close>

lemma cleanup_done_ok:
  "c \<in> set (jb_releasing j) \<Longrightarrow> \<exists>j'. cleanup_done P c j w = Some (j', hp_release P (cl_resource c) w)
     \<and> jb_waiting j' = jb_waiting j \<and> jb_releasing j' = remove1 c (jb_releasing j)"
  by (auto simp: cleanup_done_def unreserve_def release_full_def split: option.split)

lemma cleanup_start_ok:
  "c \<in> set (jb_waiting j) \<Longrightarrow> 0 < jb_cleanup_slots j \<Longrightarrow> \<exists>j'. cleanup_start c j = Some j'
     \<and> jb_waiting j' = remove1 c (jb_waiting j) \<and> jb_releasing j' = c # jb_releasing j"
  by (simp add: cleanup_start_def)

lemma drain_all:
  assumes "jobs_inv R F j" and "drain P j w = (j', w')"
  shows "jobs_inv R F j' \<and> cleanups j' = []
    \<and> (\<exists>rs. mset rs = mset (map cl_resource (cleanups j)) \<and> w' = fold (hp_release P) rs w)"
  using assms
proof (induction P j w arbitrary: j' w' rule: drain.induct)
  case (1 P j w)
  show ?case
  proof (cases "jb_releasing j")
    case (Cons c cs)
    obtain j1 where d: "cleanup_done P c j w = Some (j1, hp_release P (cl_resource c) w)"
      and w1: "jb_waiting j1 = jb_waiting j" and r1: "jb_releasing j1 = cs"
      using cleanup_done_ok [of c j P w] Cons by auto
    have "drain P j1 (hp_release P (cl_resource c) w) = (j', w')"
      using 1(4) Cons d by (subst (asm) drain.simps) simp
    from 1(2) [OF Cons d refl jobs_inv_cleaned [OF 1(3) d] this]
    obtain rs where "jobs_inv R F j'" "cleanups j' = []" and rs: "mset rs = mset (map cl_resource (cleanups j1))"
      "w' = fold (hp_release P) rs (hp_release P (cl_resource c) w)" by blast
    moreover have "mset (cl_resource c # rs) = mset (map cl_resource (cleanups j))"
      using rs(1) w1 r1 Cons by (simp add: cleanups_def)
    moreover have "w' = fold (hp_release P) (cl_resource c # rs) w" using rs(2) by simp
    ultimately show ?thesis by blast
  next
    case Nil
    show ?thesis
    proof (cases "jb_waiting j")
      case waiting: Nil
      then have "j' = j \<and> w' = w" using 1(4) Nil by (subst (asm) drain.simps) simp
      then show ?thesis using 1(3) Nil waiting by (simp add: cleanups_def)
    next
      case (Cons c cs)
      have "0 < jb_cleanup_slots j" using 1(3) Nil by (simp add: jobs_inv_def CLEANUP_CALLS_def)
      then obtain j1 where s: "cleanup_start c j = Some j1" and w1: "jb_waiting j1 = cs" and r1: "jb_releasing j1 = [c]"
        using cleanup_start_ok [of c j] Cons Nil by auto
      have "drain P j1 w = (j', w')" using 1(4) Nil Cons s by (subst (asm) drain.simps) simp
      from 1(1) [OF Nil Cons s jobs_inv_start [OF 1(3) s] this] show ?thesis
        using w1 r1 Cons Nil by (simp add: cleanups_def)
    qed
  qed
qed

text \<open>
  The order is the runtime's, but it cannot get stuck before the poll of \<open>drain\<close> ends: while a release
  is left, one of the release tasks can go on; and where no job runs, the run ends in a drained state.
\<close>

lemma cleanup_progress:
  assumes "jobs_inv R F j" "cleanups j \<noteq> []"
  shows "(\<exists>c j'. cleanup_start c j = Some j') \<or> (\<exists>c r. cleanup_done P c j w = Some r)"
proof (cases "jb_releasing j")
  case Nil
  then obtain c where "c \<in> set (jb_waiting j)" using assms(2) by (cases "jb_waiting j") (auto simp: cleanups_def)
  moreover have "0 < jb_cleanup_slots j" using assms(1) Nil by (simp add: jobs_inv_def CLEANUP_CALLS_def)
  ultimately show ?thesis using cleanup_start_ok by blast
next
  case (Cons c cs)
  then show ?thesis using cleanup_done_ok [of c j P w] by auto
qed

lemma cleanup_running:
  "cleanup_start c j = Some j' \<Longrightarrow> jb_running j' = jb_running j"
  "cleanup_done P c j w = Some (j', w') \<Longrightarrow> jb_running j' = jb_running j"
  by (auto simp: cleanup_start_def cleanup_done_def unreserve_def release_full_def split: if_splits option.splits)

lemma drain_running: "drain P j w = (j', w') \<Longrightarrow> jb_running j' = jb_running j"
proof (induction P j w arbitrary: j' w' rule: drain.induct)
  case (1 P j w)
  show ?case
  proof (cases "jb_releasing j")
    case (Cons c cs)
    show ?thesis
    proof (cases "cleanup_done P c j w")
      case None
      then show ?thesis using 1(3) Cons by (subst (asm) drain.simps) simp
    next
      case (Some r)
      obtain j1 w1 where r: "r = (j1, w1)" by (cases r)
      have "drain P j1 w1 = (j', w')" using 1(3) Cons Some r by (subst (asm) drain.simps) simp
      from 1(2) [OF Cons Some r [symmetric] this] show ?thesis using cleanup_running(2) Some r by metis
    qed
  next
    case Nil
    show ?thesis
    proof (cases "jb_waiting j")
      case waiting: Nil
      then show ?thesis using 1(3) Nil by (subst (asm) drain.simps) simp
    next
      case (Cons c cs)
      show ?thesis
      proof (cases "cleanup_start c j")
        case None
        then show ?thesis using 1(3) Nil Cons by (subst (asm) drain.simps) simp
      next
        case (Some j1)
        have "drain P j1 w = (j', w')" using 1(3) Nil Cons Some by (subst (asm) drain.simps) simp
        from 1(1) [OF Nil Cons Some this] show ?thesis using cleanup_running(1) [OF Some] by simp
      qed
    qed
  qed
qed

lemma drain_drained:
  "jobs_inv R F j \<Longrightarrow> jb_running j = [] \<Longrightarrow> drain P j w = (j', w') \<Longrightarrow> drained j'"
  using drain_all [of R F j P w j' w'] drain_running [of P j w j' w'] by (simp add: drained_def cleanups_def)

text \<open>
  C37: no dropped lease is forgotten and none is released twice: once the Host returns from its calls,
  the pending releases all finish, the Host has released exactly their resources, once each, and
  every permit they held, the full sessions' too, is free again.
\<close>

theorem drain_releases_all:
  assumes "jobs_reach (R, F, j)" and "drain P j w = (j', w')"
  shows "cleanups j' = [] \<and> jb_cleanup_slots j' = CLEANUP_CALLS \<and> jb_resources j' + R = MAX_RESOURCES
    \<and> full_free d (jb_full j') + F d = 1
    \<and> (\<exists>rs. mset rs = mset (map cl_resource (cleanups j)) \<and> w' = fold (hp_release P) rs w)"
proof -
  have inv: "jobs_inv R F j'" and none: "cleanups j' = []"
    and rs: "\<exists>rs. mset rs = mset (map cl_resource (cleanups j)) \<and> w' = fold (hp_release P) rs w"
    using drain_all [OF jobs_reach_inv [OF assms(1)] assms(2)] by blast+
  have "jb_cleanup_slots j' = CLEANUP_CALLS" and "jb_resources j' + R = MAX_RESOURCES"
    using inv none by (auto simp: jobs_inv_def cleanups_def)
  moreover have "full_cleanups d j' = 0" using none by (simp add: full_cleanups_def)
  ultimately show ?thesis using none rs jobs_inv_full [OF inv, of d] by simp
qed

section \<open>Witnesses\<close>

definition demo_lease :: lease where
  "demo_lease = \<lparr>le_resource = Observe ''t1'', le_full = None\<rparr>"

definition demo_jobs :: jobs where
  "demo_jobs = lease_drop demo_lease (snd (jobs_reserve jobs_new))"

lemma demo_jobs_reach: "jobs_reach (0, \<lambda>_. 0, demo_jobs)"
proof -
  have "jobs_reserve jobs_new = (Inr (), snd (jobs_reserve jobs_new))"
    by (simp add: jobs_reserve_def jobs_new_def MAX_RESOURCES_def MAX_PEERS_def)
  then have "jobs_reach (0 + 1, \<lambda>_. 0, snd (jobs_reserve jobs_new))"
    by (rule jobs_more [OF jobs_first jobs_take])
  from jobs_more [OF this jobs_drop [of demo_lease]] show ?thesis
    by (simp add: demo_lease_def demo_jobs_def)
qed

theorem jobs_bounded_witness: "running_class False demo_jobs \<le> 4 \<and> 0 + length (cleanups demo_jobs) \<le> 128"
  using jobs_bounded [OF demo_jobs_reach] by blast

text \<open>A Host that records what it released.\<close>

definition log_port :: "resource list herdr_port" where
  "log_port =
     \<lparr>hp_sessions = (\<lambda>w. (Inr [], w)), hp_snapshot = (\<lambda>session w. (Inr JNull, w)),
      hp_observe = (\<lambda>session target size sink w. (Inr ''t1'', w)), hp_subscribe = (\<lambda>session panes sink w. (Inr ''e1'', w)),
      hp_release = (\<lambda>r w. w @ [r]), hp_control = (\<lambda>session target size takeover sink w. (Inr ''t2'', w)),
      hp_full = (\<lambda>session size sink w. (Inr ''t3'', w)), hp_input = (\<lambda>res bs w. (Inr (), w)),
      hp_scroll = (\<lambda>res d n w. (Inr (), w)), hp_resize = (\<lambda>res size w. (Inr (), w)),
      hp_prompt = (\<lambda>session target text w. (Inr (), w)), hp_keys = (\<lambda>session target keys w. (Inr (), w))\<rparr>"

theorem drain_releases_all_witness:
  "\<exists>j'. drain log_port demo_jobs [] = (j', [Observe ''t1'']) \<and> cleanups j' = []"
proof -
  obtain j' w' where d: "drain log_port demo_jobs [] = (j', w')" by (cases "drain log_port demo_jobs []")
  have "map cl_resource (cleanups demo_jobs) = [Observe ''t1'']"
    by (simp add: demo_jobs_def demo_lease_def lease_drop_def cleanups_def jobs_reserve_def jobs_new_def MAX_RESOURCES_def MAX_PEERS_def)
  then obtain rs where "mset rs = mset [Observe ''t1'']" and w': "w' = fold (hp_release log_port) rs []" and "cleanups j' = []"
    using drain_releases_all [OF demo_jobs_reach d] by auto
  moreover from this have "rs = [Observe ''t1'']" by (cases rs) auto
  ultimately show ?thesis using d by (simp add: log_port_def)
qed

end
