(* ===== verification/Calls.thy ===== *)
theory Calls
  imports Gateway Streams Jobs
begin

text \<open>
  The calls of a connection: the frames and the method table of \<open>companion/src/bridge.rs\<close>, \<open>rpc\<close>, which
  answers what the gateway answers itself and checks the scope of every other method, and the
  parameters of the write methods in \<open>write_bridge.rs\<close>.

  \<open>J\<close> is the JSON parser: the outermost object keeps its members as they are, also repeated ones, an object
  inside has each member once, as a \<open>Value\<close> has. \<open>T\<close> is the writer of a timestamp, \<open>D\<close> the standard base64 decoder. A handler
  reads the clock at \<open>nows k\<close>; \<open>later n nows\<close> is what is left after \<open>n\<close> readings.
\<close>

definition later :: "nat \<Rightarrow> (nat \<Rightarrow> timestamp) \<Rightarrow> nat \<Rightarrow> timestamp" where
  "later n nows k = nows (n + k)"

section \<open>Structs\<close>

text \<open>
  A struct whose last fields have a default: \<open>required\<close> are the others. An array may leave out the
  fields with a default at its end.
\<close>

definition struct_with :: "string list \<Rightarrow> string list \<Rightarrow> json \<Rightarrow> (string \<Rightarrow> json option) option" where
  "struct_with required defaulted v =
     (case v of
        JObj kvs \<Rightarrow>
          if distinct (map fst kvs) \<and> set (map fst kvs) \<subseteq> set (required @ defaulted) then Some (map_of kvs) else None
      | JArr xs \<Rightarrow>
          if length required \<le> length xs \<and> length xs \<le> length (required @ defaulted)
          then Some (map_of (zip (required @ defaulted) xs)) else None
      | _ \<Rightarrow> None)"

definition default_field :: "(json \<Rightarrow> 'a option) \<Rightarrow> 'a \<Rightarrow> (string \<Rightarrow> json option) \<Rightarrow> string \<Rightarrow> 'a option" where
  "default_field rd d fs k = (case fs k of None \<Rightarrow> Some d | Some v \<Rightarrow> rd v)"

definition flag :: "(string \<Rightarrow> json option) \<Rightarrow> string \<Rightarrow> bool option" where
  "flag = default_field json_bool False"

section \<open>Frames of a phone\<close>

record call =
  ca_id :: json
  ca_method :: string
  ca_params :: json

definition call_of :: "json \<Rightarrow> call option" where
  "call_of v =
     (case struct_with [''id'', ''method''] [''params''] v of
        None \<Rightarrow> None
      | Some fs \<Rightarrow>
          (case (fs ''id'', req_field json_as_str fs ''method'', default_field Some JNull fs ''params'') of
             (Some i, Some m, Some p) \<Rightarrow> Some \<lparr>ca_id = i, ca_method = m, ca_params = p\<rparr>
           | _ \<Rightarrow> None))"

definition parse_json :: "(string \<Rightarrow> json option) \<Rightarrow> (json \<Rightarrow> 'a option) \<Rightarrow> string \<Rightarrow> 'a option" where
  "parse_json J rd text = Option.bind (J text) rd"

definition from_object :: "(string \<Rightarrow> json option) \<Rightarrow> (json \<Rightarrow> 'a option) \<Rightarrow> string \<Rightarrow> 'a option" where
  "from_object J rd text =
     (case dropWhile white (str_chars text) of
        c # _ \<Rightarrow> if c = ''{'' then parse_json J rd text else None
      | [] \<Rightarrow> None)"

record auth_frame =
  af_kind :: string
  af_binding :: string

definition auth_frame_of :: "json \<Rightarrow> auth_frame option" where
  "auth_frame_of v =
     (case struct_fields [''type'', ''binding''] v of
        None \<Rightarrow> None
      | Some fs \<Rightarrow>
          (case (req_field json_as_str fs ''type'', req_field json_as_str fs ''binding'') of
             (Some k, Some b) \<Rightarrow> Some \<lparr>af_kind = k, af_binding = b\<rparr>
           | _ \<Rightarrow> None))"

text \<open>The characters an HTTP header value may have: visible ones, the space and the tab, and bytes from 128 on.\<close>

definition header_char :: "char \<Rightarrow> bool" where
  "header_char c \<longleftrightarrow> (32 \<le> code c \<and> code c \<noteq> 127) \<or> code c = 9"

definition authenticate_frame ::
  "ext \<Rightarrow> (string \<Rightarrow> json option) \<Rightarrow> headers \<Rightarrow> message \<Rightarrow> timestamp \<Rightarrow> gateway \<Rightarrow> auth_context option \<times> gateway" where
  "authenticate_frame X J hs m now g =
     (case m of
        MText text \<Rightarrow>
          (case from_object J auth_frame_of text of
             None \<Rightarrow> (None, g)
           | Some f \<Rightarrow>
               if af_kind f \<noteq> ''auth'' then (None, g)
               else if \<not> list_all header_char (af_binding f) then (None, g)
               else gateway_authenticate X
                      (filter (\<lambda>h. fst h \<noteq> ''x-yzc-binding'') hs @ [(''x-yzc-binding'', af_binding f)]) now g)
      | _ \<Rightarrow> (None, g))"

section \<open>The method table\<close>

record rpc_method =
  me_name :: string
  me_scope :: scope

definition METHODS :: "rpc_method list" where
  "METHODS =
     map (\<lambda>n. \<lparr>me_name = n, me_scope = View\<rparr>)
       [''hello'', ''session.ping'', ''sessions.list'', ''snapshot.get'', ''events.subscribe'', ''terminal.observe'',
        ''stream.close'', ''push.subscribe'', ''push.unsubscribe'', ''push.status'', ''git.status'', ''git.branches'',
        ''git.log'', ''git.commit'', ''git.diff'']
     @ map (\<lambda>n. \<lparr>me_name = n, me_scope = Control\<rparr>)
       [''terminal.control'', ''terminal.input'', ''terminal.scroll'', ''terminal.release'', ''agent.prompt'',
        ''pane.sendKeys'']
     @ map (\<lambda>n. \<lparr>me_name = n, me_scope = Full\<rparr>)
       [''full.open'', ''full.input'', ''full.resize'', ''full.close'']"

definition method_find :: "string \<Rightarrow> rpc_method option" where
  "method_find name = find (\<lambda>m. me_name m = name) METHODS"

definition is_read :: "string \<Rightarrow> bool" where
  "is_read m \<longleftrightarrow>
     m \<in> {''sessions.list'', ''snapshot.get'', ''events.subscribe'', ''terminal.observe'', ''stream.close'',
          ''push.subscribe''} \<or> is_git m"

definition is_write :: "string \<Rightarrow> bool" where
  "is_write m \<longleftrightarrow>
     m \<in> {''terminal.control'', ''terminal.input'', ''terminal.scroll'', ''terminal.release'', ''agent.prompt'',
          ''pane.sendKeys'', ''full.open'', ''full.input'', ''full.resize'', ''full.close''}"

definition method_scope :: "string \<Rightarrow> scope" where
  "method_scope m = (if starts_with m ''full.'' then Full else Control)"

definition method_names :: "string list" where
  "method_names = map fst METHOD_MAPPING"

definition jnum :: "nat \<Rightarrow> json" where
  "jnum n = JNum (int n)"

definition capabilities :: json where
  "capabilities =
     JObj [(''methods'', JArr (map JStr method_names)),
       (''limits'', JObj
          [(''messageBytes'', jnum MESSAGE_BYTES), (''snapshotBytes'', jnum SNAPSHOT_BYTES),
           (''snapshotChunkBytes'', jnum CHUNK_BYTES), (''streams'', jnum MAX_STREAMS),
           (''streamFrames'', jnum STREAM_FRAMES), (''streamBytes'', jnum STREAM_BYTES),
           (''outboundBytes'', jnum OUTBOUND_BYTES), (''pendingCalls'', jnum 2),
           (''globalHerdrReadCalls'', jnum MAX_CALLS), (''globalHerdrWriteCalls'', jnum 2),
           (''globalHerdrCleanupCalls'', jnum 2), (''deviceReadCalls'', jnum 2), (''deviceWriteCalls'', jnum 1),
           (''writeQueue'', jnum 16)]),
       (''snapshotChunks'', JStr ''base64-json-v1''), (''observeSize'', JStr ''layout-rect-not-pty''),
       (''controlSize'', JStr ''confirmation-required''),
       (''fullSize'', JObj [(''minCols'', jnum 20), (''maxCols'', jnum 400), (''minRows'', jnum 8), (''maxRows'', jnum 200)])]"

section \<open>The answers of the gateway\<close>

definition call_id_ok :: "json \<Rightarrow> bool" where
  "call_id_ok i =
     (case i of JNum n \<Rightarrow> 0 \<le> n \<and> n < 2 ^ 64 | JStr s \<Rightarrow> length s \<le> 128 | _ \<Rightarrow> False)"

definition call_params_ok :: "json \<Rightarrow> bool" where
  "call_params_ok p = (case p of JNull \<Rightarrow> True | JObj _ \<Rightarrow> True | _ \<Rightarrow> False)"

definition call_ok :: "call \<Rightarrow> bool" where
  "call_ok c \<longleftrightarrow> call_id_ok (ca_id c) \<and> call_params_ok (ca_params c)"

definition parse_frame :: "(string \<Rightarrow> json option) \<Rightarrow> string \<Rightarrow> call option" where
  "parse_frame J text =
     (case from_object J call_of text of
        Some c \<Rightarrow> if call_ok c then Some c else None
      | None \<Rightarrow> None)"

text \<open>\<open>with_authorized\<close> on the gateway: the closure works on the part of it that is not the identity.\<close>

definition authorized ::
  "auth_context \<Rightarrow> scope \<Rightarrow> (nat \<Rightarrow> timestamp) \<Rightarrow> (gateway \<Rightarrow> 'a \<times> gateway) \<Rightarrow> gateway \<Rightarrow> (failure + 'a) \<times> gateway" where
  "authorized ctx scope nows act g =
     (case with_authorized (gw_rp_id g) ctx scope nows
             (\<lambda>idt g. case act (g\<lparr>gw_identity := idt\<rparr>) of (x, g') \<Rightarrow> (x, gw_identity g', g')) (gw_identity g) g of
        (r, idt, g') \<Rightarrow> (r, g'\<lparr>gw_identity := idt\<rparr>))"

definition touch :: "auth_context \<Rightarrow> scope \<Rightarrow> (nat \<Rightarrow> timestamp) \<Rightarrow> gateway \<Rightarrow> (failure + unit) \<times> gateway" where
  "touch ctx scope nows = authorized ctx scope nows (\<lambda>g. ((), g))"

definition rpc_decision ::
  "ext \<Rightarrow> (timestamp \<Rightarrow> json) \<Rightarrow> string \<Rightarrow> timestamp \<Rightarrow> call \<Rightarrow> gateway \<Rightarrow> json \<times> gateway" where
  "rpc_decision X T device now c g =
     (let name = map_option me_name (method_find (ca_method c))
      in if name = None then (rpc_error (ca_id c) ''unknown-method'' ''Unknown method'', g)
         else if name = Some ''hello''
         then (read_reply (ca_id c) (JObj [(''protocolVersion'', JNum 1), (''serverTime'', T now)]), g)
         else if name = Some ''session.ping''
         then (read_reply (ca_id c) (JObj [(''serverTime'', T now)]), g)
         else if name = Some ''push.unsubscribe'' \<or> name = Some ''push.status''
         then (case push_call X device (ca_method c) (ca_params c) (gw_push g) (gw_events g) of
                 (Inr v, es) \<Rightarrow> (read_reply (ca_id c) v, set_gw_events es g)
               | (Inl code', es) \<Rightarrow> (rpc_error (ca_id c) code' code', set_gw_events es g))
         else (rpc_error (ca_id c) ''not-implemented'' ''Not implemented'', g))"

definition scope_name :: "scope \<Rightarrow> string" where
  "scope_name s = (case s of View \<Rightarrow> ''view'' | Control \<Rightarrow> ''control'' | Full \<Rightarrow> ''full'')"

text \<open>The scopes that \<open>hello\<close> reports: a scope that is refused is left out, a lost session ends the connection.\<close>

fun granted_scopes ::
  "auth_context \<Rightarrow> (nat \<Rightarrow> timestamp) \<Rightarrow> scope list \<Rightarrow> gateway \<Rightarrow> (close + scope list) \<times> gateway" where
  "granted_scopes ctx nows [] g = (Inr [], g)"
| "granted_scopes ctx nows (s # ss) g =
     (case touch ctx s nows g of
        (Inr _, g1) \<Rightarrow>
          (case granted_scopes ctx (later 3 nows) ss g1 of
             (Inr l, g2) \<Rightarrow> (Inr (s # l), g2)
           | (Inl e, g2) \<Rightarrow> (Inl e, g2))
      | (Inl f, g1) \<Rightarrow>
          if fst f = FORBIDDEN then granted_scopes ctx (later 3 nows) ss g1 else (Inl CLOSE_INVALID, g1))"

definition put_result :: "string \<Rightarrow> json \<Rightarrow> json \<Rightarrow> json" where
  "put_result k v reply = json_put ''result'' (json_put k v (json_index reply ''result'')) reply"

definition hello ::
  "auth_context \<Rightarrow> (nat \<Rightarrow> timestamp) \<Rightarrow> json \<Rightarrow> gateway \<Rightarrow> (close + json) \<times> gateway" where
  "hello ctx nows reply g =
     (case granted_scopes ctx nows [View, Control, Full] g of
        (Inl e, g1) \<Rightarrow> (Inl e, g1)
      | (Inr ss, g1) \<Rightarrow>
          (Inr (put_result ''push'' (push_hello (gw_push g1))
             (put_result ''capabilities'' capabilities
               (put_result ''scopes'' (JArr (map (\<lambda>s. JStr (scope_name s)) ss)) reply))), g1))"

definition rpc ::
  "ext \<Rightarrow> (string \<Rightarrow> json option) \<Rightarrow> (timestamp \<Rightarrow> json) \<Rightarrow> auth_context \<Rightarrow> (nat \<Rightarrow> timestamp) \<Rightarrow> string \<Rightarrow> gateway
     \<Rightarrow> (close + json) \<times> gateway" where
  "rpc X J T ctx nows text g =
     (case parse_frame J text of
        None \<Rightarrow>
          (case touch ctx View nows g of
             (Inl _, g1) \<Rightarrow> (Inl CLOSE_INVALID, g1)
           | (Inr _, g1) \<Rightarrow> (Inr (rpc_error JNull ''invalid-request'' ''Invalid request''), g1))
      | Some c \<Rightarrow>
          (case authorized ctx (case method_find (ca_method c) of None \<Rightarrow> View | Some m \<Rightarrow> me_scope m) nows
                  (rpc_decision X T (cx_device_id ctx) (nows 3) c) g of
             (Inr reply, g1) \<Rightarrow>
               if ca_method c = ''hello'' then hello ctx (later 4 nows) reply g1 else (Inr reply, g1)
           | (Inl f, g1) \<Rightarrow>
               if f = SCOPE_NOT_GRANTED
               then (Inr (rpc_error (ca_id c) ''scope-not-granted'' ''Scope not granted''), g1)
               else if fst f = FORBIDDEN
               then (Inr (rpc_error (ca_id c) ''elevation-required'' ''Elevation required''), g1)
               else (Inl CLOSE_INVALID, g1)))"

section \<open>The message rate\<close>

text \<open>
  \<open>messages\<close> of \<open>drive\<close>, instants in milliseconds: the instants older than a second leave the window,
  the fifty-first message within one closes the connection.
\<close>

definition MESSAGE_RATE :: close where "MESSAGE_RATE = (1008, ''message-rate'')"

definition rate_admit :: "nat \<Rightarrow> nat list \<Rightarrow> (close + unit) \<times> nat list" where
  "rate_admit now messages =
     (let ms = dropWhile (\<lambda>t. 1000 \<le> now - t) messages
      in if 50 \<le> length ms then (Inl MESSAGE_RATE, ms) else (Inr (), ms @ [now]))"

section \<open>Parameters of writes\<close>

definition INPUT_BYTES :: nat where "INPUT_BYTES = 4096"
definition PROMPT_BYTES :: nat where "PROMPT_BYTES = 16 * 1024"
definition WRITE_QUEUE :: nat where "WRITE_QUEUE = 16"

record control_params =
  cp_session :: string
  cp_target :: string
  cp_takeover :: bool
  cp_confirm_resize :: bool

definition control_params_of :: "json \<Rightarrow> control_params option" where
  "control_params_of v =
     (case struct_with [''session'', ''target''] [''takeover'', ''confirmResize'', ''cols'', ''rows''] v of
        None \<Rightarrow> None
      | Some fs \<Rightarrow>
          (case (req_field json_as_str fs ''session'', req_field json_as_str fs ''target'',
                 flag fs ''takeover'', flag fs ''confirmResize'') of
             (Some s, Some t, Some k, Some r) \<Rightarrow>
               Some \<lparr>cp_session = s, cp_target = t, cp_takeover = k, cp_confirm_resize = r\<rparr>
           | _ \<Rightarrow> None))"

record full_params =
  fp_session :: string
  fp_cols :: nat
  fp_rows :: nat
  fp_confirm_resize :: bool

definition full_params_of :: "json \<Rightarrow> full_params option" where
  "full_params_of v =
     (case struct_with [''session'', ''cols'', ''rows''] [''confirmResize''] v of
        None \<Rightarrow> None
      | Some fs \<Rightarrow>
          (case (req_field json_as_str fs ''session'', req_field json_u16 fs ''cols'', req_field json_u16 fs ''rows'',
                 flag fs ''confirmResize'') of
             (Some s, Some c, Some r, Some k) \<Rightarrow>
               Some \<lparr>fp_session = s, fp_cols = c, fp_rows = r, fp_confirm_resize = k\<rparr>
           | _ \<Rightarrow> None))"

record input_params =
  ip_stream :: u32
  ip_text :: "string option"
  ip_bytes_b64 :: "string option"

definition stream_field :: "(string \<Rightarrow> json option) \<Rightarrow> u32 option" where
  "stream_field fs = map_option of_nat (req_field json_u32 fs ''stream'')"

definition input_params_of :: "json \<Rightarrow> input_params option" where
  "input_params_of v =
     (case struct_fields [''stream'', ''text'', ''bytesB64''] v of
        None \<Rightarrow> None
      | Some fs \<Rightarrow>
          (case (stream_field fs, opt_field json_as_str fs ''text'', opt_field json_as_str fs ''bytesB64'') of
             (Some i, Some t, Some b) \<Rightarrow> Some \<lparr>ip_stream = i, ip_text = t, ip_bytes_b64 = b\<rparr>
           | _ \<Rightarrow> None))"

record resize_params =
  zp_stream :: u32
  zp_cols :: nat
  zp_rows :: nat
  zp_confirm_resize :: bool

definition resize_params_of :: "json \<Rightarrow> resize_params option" where
  "resize_params_of v =
     (case struct_with [''stream'', ''cols'', ''rows''] [''confirmResize''] v of
        None \<Rightarrow> None
      | Some fs \<Rightarrow>
          (case (stream_field fs, req_field json_u16 fs ''cols'', req_field json_u16 fs ''rows'',
                 flag fs ''confirmResize'') of
             (Some i, Some c, Some r, Some k) \<Rightarrow>
               Some \<lparr>zp_stream = i, zp_cols = c, zp_rows = r, zp_confirm_resize = k\<rparr>
           | _ \<Rightarrow> None))"

text \<open>A unit variant: its name, or an object of the name with null.\<close>

definition direction_name :: "string \<Rightarrow> scroll_direction option" where
  "direction_name s = (if s = ''up'' then Some ScrollUp else if s = ''down'' then Some ScrollDown else None)"

definition json_direction :: "json \<Rightarrow> scroll_direction option" where
  "json_direction v =
     (case v of
        JStr s \<Rightarrow> direction_name s
      | JObj [(s, JNull)] \<Rightarrow> direction_name s
      | _ \<Rightarrow> None)"

record scroll_params =
  lp_stream :: u32
  lp_direction :: scroll_direction
  lp_lines :: nat

definition scroll_params_of :: "json \<Rightarrow> scroll_params option" where
  "scroll_params_of v =
     (case struct_fields [''stream'', ''direction'', ''lines''] v of
        None \<Rightarrow> None
      | Some fs \<Rightarrow>
          (case (stream_field fs, req_field json_direction fs ''direction'', req_field json_u32 fs ''lines'') of
             (Some i, Some d, Some n) \<Rightarrow> Some \<lparr>lp_stream = i, lp_direction = d, lp_lines = n\<rparr>
           | _ \<Rightarrow> None))"

definition prompt_params_of :: "json \<Rightarrow> (string \<times> string \<times> string) option" where
  "prompt_params_of v =
     (case struct_fields [''session'', ''target'', ''text''] v of
        None \<Rightarrow> None
      | Some fs \<Rightarrow>
          (case (req_field json_as_str fs ''session'', req_field json_as_str fs ''target'',
                 req_field json_as_str fs ''text'') of
             (Some s, Some t, Some x) \<Rightarrow> Some (s, t, x)
           | _ \<Rightarrow> None))"

fun all_some :: "('a \<Rightarrow> 'b option) \<Rightarrow> 'a list \<Rightarrow> 'b list option" where
  "all_some f [] = Some []"
| "all_some f (x # xs) =
     (case f x of None \<Rightarrow> None | Some y \<Rightarrow> map_option (Cons y) (all_some f xs))"

definition json_strings :: "json \<Rightarrow> string list option" where
  "json_strings v = (case v of JArr xs \<Rightarrow> all_some json_as_str xs | _ \<Rightarrow> None)"

definition keys_params_of :: "json \<Rightarrow> (string \<times> string \<times> string list) option" where
  "keys_params_of v =
     (case struct_fields [''session'', ''target'', ''keys''] v of
        None \<Rightarrow> None
      | Some fs \<Rightarrow>
          (case (req_field json_as_str fs ''session'', req_field json_as_str fs ''target'',
                 req_field json_strings fs ''keys'') of
             (Some s, Some t, Some k) \<Rightarrow> Some (s, t, k)
           | _ \<Rightarrow> None))"

definition close_params_of :: "json \<Rightarrow> u32 option" where
  "close_params_of v = Option.bind (struct_fields [''stream''] v) stream_field"

definition parse_params :: "(json \<Rightarrow> 'a option) \<Rightarrow> json \<Rightarrow> string + 'a" where
  "parse_params rd v = (case rd v of None \<Rightarrow> Inl ''invalid-params'' | Some x \<Rightarrow> Inr x)"

definition full_size :: "nat \<Rightarrow> nat \<Rightarrow> bool \<Rightarrow> string + nat \<times> nat" where
  "full_size cols rows confirmed =
     (if \<not> (20 \<le> cols \<and> cols \<le> 400) \<or> \<not> (8 \<le> rows \<and> rows \<le> 200) then Inl ''invalid-params''
      else if \<not> confirmed then Inl ''size-confirmation-required''
      else Inr (cols, rows))"

definition input_bytes :: "(string \<Rightarrow> bytes option) \<Rightarrow> input_params \<Rightarrow> string + u32 \<times> bytes" where
  "input_bytes D p =
     (case (case (ip_text p, ip_bytes_b64 p) of
              (Some text, None) \<Rightarrow> Inr (str_bytes text)
            | (None, Some b64) \<Rightarrow>
                if length b64 \<le> div_ceil INPUT_BYTES 3 * 4
                then (case D b64 of None \<Rightarrow> Inl ''invalid-params'' | Some bs \<Rightarrow> Inr bs)
                else Inl ''payload-too-large''
            | _ \<Rightarrow> Inl ''invalid-params'') of
        Inl e \<Rightarrow> Inl e
      | Inr bs \<Rightarrow> if length bs > INPUT_BYTES then Inl ''payload-too-large'' else Inr (ip_stream p, bs))"

definition KEY_NAMES :: "(string \<times> string) list" where
  "KEY_NAMES =
     [(''Enter'', ''enter''), (''Escape'', ''esc''), (''Tab'', ''tab''), (''BackTab'', ''shift+tab''),
      (''ArrowUp'', ''up''), (''ArrowDown'', ''down''), (''ArrowLeft'', ''left''), (''ArrowRight'', ''right''),
      (''Ctrl-C'', ''ctrl+c''), (''Ctrl-D'', ''ctrl+d'')]"

definition mapped_keys :: "string list \<Rightarrow> string + string list" where
  "mapped_keys keys =
     (if keys = [] \<or> length keys > 32 then Inl ''invalid-params''
      else (case all_some (map_of KEY_NAMES) keys of
              None \<Rightarrow> Inl ''key-not-allowed''
            | Some ks \<Rightarrow> Inr ks))"

definition agent_target :: "json \<Rightarrow> string \<Rightarrow> string + string" where
  "agent_target snapshot target =
     (case target_pane snapshot target of
        Inl e \<Rightarrow> Inl e
      | Inr i \<Rightarrow>
          if list_ex (\<lambda>a. json_index a ''pane_id'' = JStr i) (json_items snapshot ''agents'')
          then Inr i else Inl ''no-agent'')"


end
