(* ===== verification/Write_Race.thy ===== *)
theory Write_Race
  imports Prelude
begin

text \<open>
  The life of one write, \<open>Validity\<close>, \<open>PendingWrite\<close> and the queue of \<open>companion/src/write_bridge.rs\<close>. A write
  runs on a thread of the executor while the task of its connection may cancel it; the two share the
  atomics \<open>started\<close> and \<open>cancelled\<close>, which are only used with \<open>SeqCst\<close>, so their accesses interleave.

  The thread of the job is a list of actions, each of them one access or one call; so is the
  cancellation. The task of the connection submits the write or is refused, observes its result, sees
  its watchdog pass, discards it from the queue or hangs up; each operation is the code's, on the part
  of the state that concerns this one write, and nothing else stops a second answer or a second call.
  What the world decides is left open: whether the connection is alive, the deadline ahead and the
  stream open at the moment of a check, and how the calls of the job end.
\<close>

datatype action = LoadCancelled | LoadValid | Prepare | StoreStarted | HostCall
datatype cancel_action = StoreCancelled | LoadStarted

definition check_program :: "action list" where
  "check_program = [LoadCancelled, LoadValid]"

definition start_program :: "action list" where
  "start_program = StoreStarted # check_program"

text \<open>
  A write to a stream, a prompt or keys: \<open>Prepare\<close> stands for the reads of the session and the audit.
  An open checks once more before the start, and the connection and the deadline after the call.
\<close>

definition write_program :: "action list" where
  "write_program = check_program @ [Prepare] @ start_program @ [HostCall]"

definition open_program :: "action list" where
  "open_program = check_program @ [Prepare] @ check_program @ [Prepare] @ start_program @ [HostCall, LoadValid]"

definition cancel_program :: "cancel_action list" where
  "cancel_program = [StoreCancelled, LoadStarted]"

definition outcome_code :: "bool \<Rightarrow> bool \<Rightarrow> string" where
  "outcome_code inp unknown =
     (case (inp, unknown) of
        (True, True) \<Rightarrow> ''input-outcome-unknown''
      | (True, False) \<Rightarrow> ''input-dropped''
      | (False, True) \<Rightarrow> ''write-outcome-unknown''
      | (False, False) \<Rightarrow> ''write-dropped'')"

text \<open>
  What the closure of the executor makes of the job's error: an \<open>input-dropped\<close> is told by whether the
  job had started, which only the job itself stores.
\<close>

definition report :: "bool \<Rightarrow> bool \<Rightarrow> string + unit \<Rightarrow> string + unit" where
  "report inp started r =
     (case r of Inl e \<Rightarrow> Inl (if e = ''input-dropped'' then outcome_code inp started else e) | Inr u \<Rightarrow> Inr u)"

text \<open>The codes of the other errors of a job: the reads, the port and the audit have none of these four.\<close>

definition plain_code :: "string \<Rightarrow> bool" where
  "plain_code e \<longleftrightarrow>
     e \<notin> {''input-outcome-unknown'', ''input-dropped'', ''write-outcome-unknown'', ''write-dropped''}"

text \<open>
  One write and what its connection keeps of it: whether it waits in the queue, its atomics, what is
  left of its job and the result; then the slot of the executor's queue as far as it is this write's,
  \<open>active\<close>, \<open>watchdog\<close>, \<open>active_write\<close> and \<open>stalled\<close>, and its \<open>Completion\<close>; a \<open>cancelled\<close> that runs, whether
  the connection lives and whether its loop is over; the replies sent, and the calls of the Host.
\<close>

record race =
  ra_input :: bool
  ra_started :: bool
  ra_cancelled :: bool
  ra_queued :: bool
  ra_submitted :: bool
  ra_todo :: "action list"
  ra_result :: "(string + unit) option"
  ra_active :: bool
  ra_watchdog :: bool
  ra_pending :: bool
  ra_stalled :: bool
  ra_completion :: bool
  ra_cancelling :: "cancel_action list"
  ra_alive :: bool
  ra_over :: bool
  ra_answers :: "(string + unit) list"
  ra_host :: nat

definition race_new :: "bool \<Rightarrow> action list \<Rightarrow> race" where
  "race_new inp prog = \<lparr>ra_input = inp, ra_started = False, ra_cancelled = False, ra_queued = True,
     ra_submitted = False, ra_todo = prog, ra_result = None, ra_active = False, ra_watchdog = False,
     ra_pending = False, ra_stalled = False, ra_completion = False, ra_cancelling = [], ra_alive = True,
     ra_over = False, ra_answers = [], ra_host = 0\<rparr>"

section \<open>The thread of the job and the cancellation\<close>

definition ra_fail :: "string \<Rightarrow> race \<Rightarrow> race" where
  "ra_fail e s = s\<lparr>ra_result := Some (report (ra_input s) (ra_started s) (Inl e))\<rparr>"

text \<open>One action of the job; \<open>ok\<close> is how the world decides it, \<open>e\<close> the error of a call that fails.\<close>

definition job_action :: "bool \<Rightarrow> string \<Rightarrow> action \<Rightarrow> race \<Rightarrow> race" where
  "job_action ok e a s =
     (case a of
        LoadCancelled \<Rightarrow> if ra_cancelled s then ra_fail ''input-dropped'' s else s
      | LoadValid \<Rightarrow> if ra_alive s \<and> ok then s else ra_fail ''input-dropped'' s
      | Prepare \<Rightarrow> if ok then s else ra_fail e s
      | StoreStarted \<Rightarrow> s\<lparr>ra_started := True\<rparr>
      | HostCall \<Rightarrow>
          (let s1 = s\<lparr>ra_host := ra_host s + 1\<rparr> in if ok then s1 else ra_fail e s1))"

definition answer :: "string + unit \<Rightarrow> race \<Rightarrow> race" where
  "answer r s = s\<lparr>ra_answers := ra_answers s @ [r]\<rparr>"

text \<open>\<open>PendingWrite::cancelled\<close>, whose reply is built from what it loads.\<close>

definition cancel_act :: "cancel_action \<Rightarrow> race \<Rightarrow> race" where
  "cancel_act a s =
     (case a of
        StoreCancelled \<Rightarrow> s\<lparr>ra_cancelled := True\<rparr>
      | LoadStarted \<Rightarrow> answer (Inl (outcome_code (ra_input s) (ra_started s))) s)"

section \<open>The task of the connection\<close>

text \<open>\<open>pump_writes\<close>: the head of the queue goes to the executor, or its reply is that it was refused.\<close>

definition submit_work :: "race \<Rightarrow> race" where
  "submit_work s = s\<lparr>ra_queued := False, ra_submitted := True, ra_active := True, ra_watchdog := True,
     ra_pending := True, ra_completion := True\<rparr>"

definition refuse_work :: "race \<Rightarrow> race" where
  "refuse_work s = answer (Inl ''busy'') (s\<lparr>ra_queued := False\<rparr>)"

text \<open>\<open>Queue::finished\<close>: the slot is free, and it says whether the write had stalled.\<close>

definition finished_slot :: "race \<Rightarrow> bool \<times> race" where
  "finished_slot s =
     (ra_stalled s, s\<lparr>ra_active := False, ra_watchdog := False, ra_pending := False, ra_stalled := False\<rparr>)"

text \<open>
  \<open>Reads::finish\<close> with the completion of the write: a late result of a stalled write and a result of a
  dead connection are dropped. \<open>late\<close> is the error that a success becomes when its stream has closed or
  its value is too large.
\<close>

definition finish_work :: "string option \<Rightarrow> string + unit \<Rightarrow> race \<Rightarrow> race" where
  "finish_work late r s =
     (let (stalled, s1) = finished_slot (s\<lparr>ra_completion := False\<rparr>)
      in if stalled \<or> \<not> ra_alive s1 then s1
         else answer (if isl r then r else case_option r Inl late) s1)"

text \<open>\<open>write_tick\<close> once the watchdog has passed: the pending write is cancelled, else told it stalled.\<close>

definition watchdog_fires :: "race \<Rightarrow> race" where
  "watchdog_fires s =
     (let s1 = s\<lparr>ra_watchdog := False, ra_stalled := True\<rparr>
      in if ra_pending s1 then s1\<lparr>ra_pending := False, ra_cancelling := cancel_program\<rparr>
         else answer (Inl ''stream-stalled'') s1)"

text \<open>\<open>discard_write_stream\<close> takes the write from the queue.\<close>

definition discard_work :: "race \<Rightarrow> race" where
  "discard_work s = s\<lparr>ra_queued := False, ra_cancelling := cancel_program\<rparr>"

text \<open>\<open>cancel_writes\<close>: the active write, and the queue, are cancelled.\<close>

definition hang_up_work :: "race \<Rightarrow> race" where
  "hang_up_work s =
     (let s1 = s\<lparr>ra_alive := False, ra_over := True\<rparr>;
          s2 = (if ra_active s1 \<and> ra_pending s1
                then s1\<lparr>ra_pending := False, ra_cancelling := cancel_program\<rparr> else s1)
      in if ra_queued s2 then discard_work s2 else s2)"

text \<open>
  The interleavings. A step of the connection is atomic for its task, so it waits for a \<open>cancelled\<close> that
  runs; the job's thread, and the connection's end by another hand (\<open>Life::active\<close>), do not.
\<close>

definition task_free :: "race \<Rightarrow> bool" where
  "task_free s \<longleftrightarrow> ra_cancelling s = [] \<and> \<not> ra_over s"

inductive race_step :: "race \<Rightarrow> race \<Rightarrow> bool" where
  pump: "task_free s \<Longrightarrow> \<not> ra_active s \<Longrightarrow> ra_queued s \<Longrightarrow> race_step s (submit_work s)"
| refused: "task_free s \<Longrightarrow> \<not> ra_active s \<Longrightarrow> ra_queued s \<Longrightarrow> race_step s (refuse_work s)"
| job: "ra_submitted s \<Longrightarrow> ra_result s = None \<Longrightarrow> ra_todo s = a # todo \<Longrightarrow> plain_code e \<Longrightarrow>
     race_step s (job_action ok e a (s\<lparr>ra_todo := todo\<rparr>))"
| ended: "ra_submitted s \<Longrightarrow> ra_result s = None \<Longrightarrow> ra_todo s = [] \<Longrightarrow>
     race_step s (s\<lparr>ra_result := Some (Inr ())\<rparr>)"
| lost: "ra_submitted s \<Longrightarrow> ra_result s = None \<Longrightarrow>
     race_step s (s\<lparr>ra_result := Some (Inl ''herdr-unavailable'')\<rparr>)"
| completed: "task_free s \<Longrightarrow> ra_completion s \<Longrightarrow> ra_result s = Some r \<Longrightarrow> pred_option plain_code late \<Longrightarrow>
     race_step s (finish_work late r s)"
| overdue: "task_free s \<Longrightarrow> ra_watchdog s \<Longrightarrow> race_step s (watchdog_fires s)"
| discarded: "task_free s \<Longrightarrow> ra_queued s \<Longrightarrow> race_step s (discard_work s)"
| ends: "race_step s (s\<lparr>ra_alive := False\<rparr>)"
| hangs_up: "task_free s \<Longrightarrow> race_step s (hang_up_work s)"
| cancelling: "ra_cancelling s = a # rest \<Longrightarrow> race_step s (cancel_act a (s\<lparr>ra_cancelling := rest\<rparr>))"

definition race_reach :: "bool \<Rightarrow> action list \<Rightarrow> race \<Rightarrow> bool" where
  "race_reach inp prog s \<longleftrightarrow> race_step\<^sup>*\<^sup>* (race_new inp prog) s"

definition dropped_code :: "string \<Rightarrow> bool" where
  "dropped_code e \<longleftrightarrow> e = ''input-dropped'' \<or> e = ''write-dropped''"

definition dropped_answer :: "race \<Rightarrow> bool" where
  "dropped_answer s \<longleftrightarrow> Inl ''input-dropped'' \<in> set (ra_answers s) \<or> Inl ''write-dropped'' \<in> set (ra_answers s)"

section \<open>The shape of the programs\<close>

text \<open>
  What is left of a program is one of four: the start is ahead, the check after it is ahead, the last
  actions before the call, or nothing that starts or calls.
\<close>

definition quiet :: "action list \<Rightarrow> bool" where
  "quiet as \<longleftrightarrow> HostCall \<notin> set as \<and> StoreStarted \<notin> set as"

definition before_start :: "action list \<Rightarrow> bool" where
  "before_start as \<longleftrightarrow> (\<exists>pre post. as = pre @ start_program @ HostCall # post \<and> quiet pre \<and> quiet post)"

definition before_load :: "action list \<Rightarrow> bool" where
  "before_load as \<longleftrightarrow> (\<exists>post. as = check_program @ HostCall # post \<and> quiet post)"

definition before_host :: "action list \<Rightarrow> bool" where
  "before_host as \<longleftrightarrow> (\<exists>post. (as = LoadValid # HostCall # post \<or> as = HostCall # post) \<and> quiet post)"

lemma programs_before_start: "before_start write_program" "before_start open_program"
proof -
  show "before_start write_program"
    unfolding before_start_def write_program_def
    by (rule exI [of _ "check_program @ [Prepare]"], rule exI [of _ "[]"]) (simp add: quiet_def check_program_def)
  show "before_start open_program"
    unfolding before_start_def open_program_def
    by (rule exI [of _ "check_program @ [Prepare] @ check_program @ [Prepare]"], rule exI [of _ "[LoadValid]"])
      (simp add: quiet_def check_program_def)
qed

lemma before_start_cases:
  assumes "before_start (a # as)"
  obtains (inside) "a \<noteq> StoreStarted" "a \<noteq> HostCall" "before_start as"
    | (start) "a = StoreStarted" "before_load as"
proof -
  obtain pre post where p: "a # as = pre @ start_program @ HostCall # post" "quiet pre" "quiet post"
    using assms unfolding before_start_def by blast
  show thesis
  proof (cases pre)
    case Nil
    then show ?thesis using p that(2) by (auto simp: start_program_def before_load_def)
  next
    case (Cons b pre')
    then have "as = pre' @ start_program @ HostCall # post" "quiet pre'" "a \<noteq> StoreStarted" "a \<noteq> HostCall"
      using p by (auto simp: quiet_def)
    then show ?thesis using that(1) p(3) unfolding before_start_def by blast
  qed
qed

lemma before_load_cases: "before_load (a # as) \<Longrightarrow> a = LoadCancelled \<and> before_host as"
  by (auto simp: before_load_def before_host_def check_program_def)

lemma before_host_cases: "before_host (a # as) \<Longrightarrow> a = LoadValid \<and> before_host as \<or> a = HostCall \<and> quiet as"
  by (auto simp: before_host_def)

lemma quiet_cases: "quiet (a # as) \<Longrightarrow> a \<noteq> HostCall \<and> a \<noteq> StoreStarted \<and> quiet as"
  by (auto simp: quiet_def)

lemma not_ended: "\<not> before_start []" "\<not> before_load []" "\<not> before_host []"
  by (auto simp: before_start_def before_load_def before_host_def check_program_def)

section \<open>The invariant\<close>

definition stage :: "race \<Rightarrow> bool" where
  "stage s \<longleftrightarrow>
     (if \<not> ra_started s then before_start (ra_todo s) \<and> ra_host s = 0
      else before_load (ra_todo s) \<and> ra_host s = 0 \<or> before_host (ra_todo s) \<and> ra_host s = 0
         \<or> quiet (ra_todo s) \<and> ra_host s = 1)"

text \<open>A write that can reach the Host no more.\<close>

definition blocked :: "race \<Rightarrow> bool" where
  "blocked s \<longleftrightarrow> ra_host s = 0 \<and>
     ((\<exists>e. ra_result s = Some (Inl e))
      \<or> ra_cancelled s \<and> (before_start (ra_todo s) \<or> before_load (ra_todo s)))"

definition result_ok :: "race \<Rightarrow> bool" where
  "result_ok s \<longleftrightarrow>
     (\<forall>e. ra_result s = Some (Inl e) \<longrightarrow> plain_code e \<or> e = outcome_code (ra_input s) (ra_started s))
     \<and> (ra_result s = Some (Inr ()) \<or> Inr () \<in> set (ra_answers s) \<longrightarrow> ra_host s = 1)
     \<and> (dropped_answer s \<longrightarrow> blocked s)"

text \<open>
  Who owes the answer: the queue, the slot or a running cancellation, and each of them once; a write
  whose result came to a dead connection is owed none.
\<close>

definition tokens :: "race \<Rightarrow> nat" where
  "tokens s = of_bool (ra_queued s) + of_bool (ra_pending s) + of_bool (ra_cancelling s \<noteq> []) + length (ra_answers s)"

definition owed :: "race \<Rightarrow> bool" where
  "owed s \<longleftrightarrow> tokens s = 1 \<or> tokens s = 0 \<and> \<not> ra_alive s \<and> \<not> ra_completion s"

definition slot_ok :: "race \<Rightarrow> bool" where
  "slot_ok s \<longleftrightarrow>
     (ra_queued s \<longrightarrow> \<not> ra_submitted s)
     \<and> (ra_pending s \<or> ra_watchdog s \<or> ra_stalled s \<longrightarrow> ra_active s)
     \<and> (ra_active s \<longrightarrow> ra_submitted s \<and> ra_completion s)
     \<and> (\<not> ra_over s \<longrightarrow> (ra_completion s \<longrightarrow> ra_pending s \<noteq> ra_stalled s) \<and> (ra_watchdog s \<longrightarrow> ra_pending s))"

definition canceller_ok :: "race \<Rightarrow> bool" where
  "canceller_ok s \<longleftrightarrow>
     ra_cancelling s \<in> {[], cancel_program} \<or> ra_cancelling s = [LoadStarted] \<and> ra_cancelled s"

definition race_inv :: "race \<Rightarrow> bool" where
  "race_inv s \<longleftrightarrow> stage s \<and> result_ok s \<and> owed s \<and> slot_ok s \<and> canceller_ok s"

lemmas task_defs = task_free_def submit_work_def refuse_work_def finished_slot_def finish_work_def
  watchdog_fires_def discard_work_def hang_up_work_def answer_def Let_def

lemma race_inv_new: "before_start prog \<Longrightarrow> race_inv (race_new inp prog)"
  by (simp add: race_inv_def stage_def result_ok_def owed_def slot_ok_def canceller_ok_def tokens_def dropped_answer_def race_new_def)

text \<open>What each part of the invariant depends on.\<close>

lemma core_same:
  assumes "ra_started t = ra_started s" "ra_todo t = ra_todo s" "ra_host t = ra_host s" "ra_result t = ra_result s"
    "ra_cancelled t = ra_cancelled s" "ra_input t = ra_input s"
  shows "stage t = stage s" "blocked t = blocked s" "ra_answers t = ra_answers s \<Longrightarrow> result_ok t = result_ok s"
  using assms by (simp_all add: stage_def blocked_def result_ok_def dropped_answer_def)

lemma owner_same:
  assumes "ra_queued t = ra_queued s" "ra_submitted t = ra_submitted s" "ra_active t = ra_active s"
    "ra_watchdog t = ra_watchdog s" "ra_pending t = ra_pending s" "ra_stalled t = ra_stalled s"
    "ra_completion t = ra_completion s" "ra_alive t = ra_alive s" "ra_over t = ra_over s"
  shows "slot_ok t = slot_ok s"
    "ra_cancelling t = ra_cancelling s \<Longrightarrow> ra_cancelled t = ra_cancelled s \<Longrightarrow> canceller_ok t = canceller_ok s"
    "ra_cancelling t = ra_cancelling s \<Longrightarrow> ra_answers t = ra_answers s \<Longrightarrow> owed t = owed s"
  using assms by (simp_all only: slot_ok_def canceller_ok_def owed_def tokens_def)

lemma core_inv:
  assumes "race_inv s" "ra_started t = ra_started s" "ra_todo t = ra_todo s" "ra_host t = ra_host s"
    "ra_result t = ra_result s" "ra_cancelled t = ra_cancelled s" "ra_input t = ra_input s"
    "ra_answers t = ra_answers s" "owed t" "slot_ok t" "canceller_ok t"
  shows "race_inv t"
  using assms core_same [of t s] by (simp add: race_inv_def)

lemma invD: "race_inv s \<Longrightarrow> stage s" "race_inv s \<Longrightarrow> result_ok s" "race_inv s \<Longrightarrow> owed s" "race_inv s \<Longrightarrow> slot_ok s"
  "race_inv s \<Longrightarrow> canceller_ok s"
  by (simp_all add: race_inv_def)

lemmas owner_defs = owed_def tokens_def slot_ok_def

text \<open>Where the answer is owed by the queue or by the slot, nothing else owes or gave it.\<close>

lemma queued_owes:
  assumes "race_inv s" "ra_queued s"
  shows "\<not> ra_pending s" "ra_cancelling s = []" "ra_answers s = []" "\<not> ra_submitted s" "\<not> ra_active s"
    "\<not> ra_watchdog s" "\<not> ra_stalled s"
  using invD(3,4) [OF assms(1)] assms(2) by (auto simp: owner_defs)

lemma pending_owes:
  assumes "race_inv s" "ra_pending s"
  shows "\<not> ra_queued s" "ra_cancelling s = []" "ra_answers s = []" "ra_submitted s" "ra_active s" "ra_completion s"
  using invD(3,4) [OF assms(1)] assms(2) by (auto simp: owner_defs)

text \<open>The job's thread.\<close>

lemma action_stage:
  assumes "stage s" "ra_todo s = a # as"
  shows "stage (job_action ok e a (s\<lparr>ra_todo := as\<rparr>))"
  using assms
  by (cases a; cases "ra_started s")
    (auto simp: stage_def job_action_def ra_fail_def Let_def
      elim!: before_start_cases dest!: before_load_cases before_host_cases quiet_cases)

lemma action_simps [simp]:
  "ra_submitted (job_action ok e a s) = ra_submitted s" "ra_cancelling (job_action ok e a s) = ra_cancelling s"
  "ra_cancelled (job_action ok e a s) = ra_cancelled s" "ra_answers (job_action ok e a s) = ra_answers s"
  "ra_input (job_action ok e a s) = ra_input s" "ra_todo (job_action ok e a s) = ra_todo s"
  "ra_queued (job_action ok e a s) = ra_queued s" "ra_active (job_action ok e a s) = ra_active s"
  "ra_watchdog (job_action ok e a s) = ra_watchdog s" "ra_pending (job_action ok e a s) = ra_pending s"
  "ra_stalled (job_action ok e a s) = ra_stalled s" "ra_completion (job_action ok e a s) = ra_completion s"
  "ra_alive (job_action ok e a s) = ra_alive s" "ra_over (job_action ok e a s) = ra_over s"
  by (cases a; simp add: job_action_def ra_fail_def Let_def)+

lemma action_host: "ra_host (job_action ok e a s) = ra_host s + of_bool (a = HostCall)"
  by (cases a) (simp_all add: job_action_def ra_fail_def Let_def)

lemma action_result:
  "ra_result (job_action ok e a s) = ra_result s
   \<or> (\<exists>c. ra_result (job_action ok e a s) = Some (Inl c)
        \<and> (c = e \<or> c = outcome_code (ra_input s) (ra_started (job_action ok e a s))))"
  by (cases a) (auto simp: job_action_def ra_fail_def report_def Let_def)

lemma action_blocked:
  assumes "blocked s" "ra_result s = None" "ra_todo s = a # as"
  shows "blocked (job_action ok e a (s\<lparr>ra_todo := as\<rparr>))"
proof -
  have c: "ra_cancelled s" "ra_host s = 0" "before_start (a # as) \<or> before_load (a # as)"
    using assms by (auto simp: blocked_def)
  from c(3) show ?thesis
  proof
    assume "before_start (a # as)"
    then show ?thesis by (rule before_start_cases) (use c in \<open>auto simp: blocked_def action_host\<close>)
  next
    assume "before_load (a # as)"
    then show ?thesis
      using before_load_cases [of a as] c by (simp add: blocked_def action_host job_action_def ra_fail_def report_def)
  qed
qed

lemma action_inv:
  assumes "race_inv s" "ra_result s = None" "ra_todo s = a # as" "plain_code e"
  shows "race_inv (job_action ok e a (s\<lparr>ra_todo := as\<rparr>))" (is "race_inv ?t")
proof -
  have st: "stage ?t" using action_stage assms by (simp add: race_inv_def)
  then have host: "ra_host s = 1 \<Longrightarrow> ra_host ?t = 1"
    by (auto simp: stage_def action_host split: if_splits)
  have "blocked ?t" if "dropped_answer ?t"
    using that action_blocked assms by (simp add: dropped_answer_def race_inv_def result_ok_def)
  then have "result_ok ?t"
    using action_result [of ok e a "s\<lparr>ra_todo := as\<rparr>"] assms host
    by (auto simp: race_inv_def result_ok_def)
  then show ?thesis
    using st assms(1) owner_same [of ?t s] by (simp add: race_inv_def)
qed

text \<open>A result that says dropped belongs to a job that never started, so nothing was called.\<close>

lemma dropped_code_unstarted: "dropped_code (outcome_code inp started) \<Longrightarrow> \<not> started"
  by (auto simp: dropped_code_def outcome_code_def split: bool.splits)

lemma dropped_not_plain: "plain_code e \<Longrightarrow> \<not> dropped_code e"
  by (auto simp: dropped_code_def plain_code_def)

lemma dropped_answer_code: "dropped_answer s \<longleftrightarrow> (\<exists>e. Inl e \<in> set (ra_answers s) \<and> dropped_code e)"
  by (auto simp: dropped_answer_def dropped_code_def)

lemma result_dropped:
  assumes "race_inv s" "ra_result s = Some (Inl e)" "dropped_code e"
  shows "blocked s"
  using assms dropped_not_plain [of e] dropped_code_unstarted [of "ra_input s" "ra_started s"]
  by (auto simp: race_inv_def result_ok_def stage_def blocked_def)

text \<open>The task of the connection, an operation at a time.\<close>

lemma answer_result_ok:
  assumes "result_ok s" "case r of Inl e \<Rightarrow> dropped_code e \<longrightarrow> blocked s | Inr u \<Rightarrow> ra_host s = 1"
  shows "result_ok (answer r s)"
  using assms
  by (auto simp: result_ok_def answer_def dropped_answer_code blocked_def split: sum.splits)

lemma submit_inv:
  assumes "race_inv s" "ra_queued s"
  shows "race_inv (submit_work s)"
  by (rule core_inv [OF assms(1)])
    (use queued_owes [OF assms] in \<open>simp_all add: submit_work_def owner_defs canceller_ok_def\<close>)

lemma discard_inv:
  assumes "race_inv s" "ra_queued s"
  shows "race_inv (discard_work s)"
proof (rule core_inv [OF assms(1)])
  show "slot_ok (discard_work s)"
    using invD(4) [OF assms(1)] queued_owes [OF assms] by (simp add: discard_work_def slot_ok_def)
qed (use queued_owes [OF assms] in \<open>simp_all add: discard_work_def owed_def tokens_def canceller_ok_def cancel_program_def\<close>)

lemma refuse_inv:
  assumes "race_inv s" "ra_queued s"
  shows "race_inv (refuse_work s)"
proof -
  note q = queued_owes [OF assms]
  have "stage (refuse_work s)"
    using invD(1) [OF assms(1)] core_same(1) [of "refuse_work s" s] by (simp add: refuse_work_def answer_def)
  moreover have "slot_ok (refuse_work s)"
    using invD(4) [OF assms(1)] q by (simp add: refuse_work_def answer_def slot_ok_def)
  moreover have "owed (refuse_work s)" "canceller_ok (refuse_work s)"
    using q by (simp_all add: owner_defs canceller_ok_def refuse_work_def answer_def)
  moreover have "result_ok (refuse_work s)"
    unfolding refuse_work_def
    by (rule answer_result_ok)
      (use invD(2) [OF assms(1)] core_same(3) [of "s\<lparr>ra_queued := False\<rparr>" s] in \<open>simp_all add: dropped_code_def\<close>)
  ultimately show ?thesis by (simp add: race_inv_def)
qed

text \<open>The watchdog is only set while the write is pending, so it is never told twice.\<close>

lemma watchdog_inv:
  assumes "race_inv s" "task_free s" "ra_watchdog s"
  shows "race_inv (watchdog_fires s)"
proof -
  have p: "ra_pending s" using invD(4) [OF assms(1)] assms(2,3) by (simp add: slot_ok_def task_free_def)
  note o = pending_owes [OF assms(1) p]
  show ?thesis
  proof (rule core_inv [OF assms(1)])
    show "slot_ok (watchdog_fires s)" using o p by (simp add: watchdog_fires_def slot_ok_def)
  qed (use o p in \<open>simp_all add: watchdog_fires_def owed_def tokens_def canceller_ok_def cancel_program_def\<close>)
qed

lemma hung_up_inv:
  assumes i: "race_inv s" and c: "ra_cancelling s = []"
  shows "race_inv (hang_up_work s)"
proof (rule core_inv [OF i])
  consider (queued) "ra_queued s" | (pending) "ra_pending s" | (neither) "\<not> ra_queued s" "\<not> ra_pending s" by blast
  then show "owed (hang_up_work s)"
  proof cases
    case queued
    then show ?thesis using queued_owes [OF i queued]
      by (simp add: hang_up_work_def discard_work_def owed_def tokens_def cancel_program_def)
  next
    case pending
    then show ?thesis using pending_owes [OF i pending]
      by (simp add: hang_up_work_def owed_def tokens_def cancel_program_def)
  next
    case neither
    then show ?thesis using invD(3) [OF i] c by (auto simp: hang_up_work_def owed_def tokens_def)
  qed
  show "slot_ok (hang_up_work s)"
    using invD(4) [OF i] by (simp add: slot_ok_def hang_up_work_def discard_work_def Let_def)
  show "canceller_ok (hang_up_work s)"
    using c by (simp add: canceller_ok_def hang_up_work_def discard_work_def Let_def)
qed (simp_all add: hang_up_work_def discard_work_def Let_def)

lemma ends_inv:
  assumes "race_inv s"
  shows "race_inv (s\<lparr>ra_alive := False\<rparr>)"
  by (rule core_inv [OF assms]) (use invD(3-5) [OF assms] in \<open>auto simp: owed_def tokens_def slot_ok_def canceller_ok_def\<close>)

lemma result_inv:
  assumes "race_inv s" "ra_result s = None" "\<not> dropped_answer s \<or> (\<exists>e. r = Inl e)"
    "case r of Inl e \<Rightarrow> plain_code e | Inr u \<Rightarrow> ra_host s = 1"
  shows "race_inv (s\<lparr>ra_result := Some r\<rparr>)" (is "race_inv ?t")
proof -
  have "blocked ?t" if "dropped_answer s"
    using that assms(1,3) by (auto simp: race_inv_def result_ok_def blocked_def)
  then have "result_ok ?t"
    using invD(2) [OF assms(1)] assms(4) by (auto simp: result_ok_def dropped_answer_def split: sum.splits)
  moreover have "stage ?t" using invD(1) [OF assms(1)] by (simp add: stage_def del: One_nat_def)
  moreover have "owed ?t" "slot_ok ?t" "canceller_ok ?t"
    using invD(3-5) [OF assms(1)] owner_same [of ?t s] by simp_all
  ultimately show ?thesis by (simp add: race_inv_def)
qed

lemma ended_inv:
  assumes "race_inv s" "ra_result s = None" "ra_todo s = []"
  shows "race_inv (s\<lparr>ra_result := Some (Inr ())\<rparr>)"
proof -
  have "ra_host s = 1" using assms not_ended by (auto simp: race_inv_def stage_def split: if_splits)
  moreover from this have "\<not> dropped_answer s" using assms(1) by (auto simp: race_inv_def result_ok_def blocked_def)
  ultimately show ?thesis using assms by (intro result_inv) simp_all
qed

text \<open>An answer that the task gives, when it is owed.\<close>

lemma late_answer:
  assumes i: "race_inv s" and r: "ra_result s = Some r" "pred_option plain_code late"
  shows "case (if isl r then r else case_option r Inl late) of
           Inl e \<Rightarrow> dropped_code e \<longrightarrow> blocked s | Inr u \<Rightarrow> ra_host s = 1"
proof (cases r)
  case (Inl e)
  then show ?thesis using result_dropped [OF i] r(1) by simp
next
  case (Inr u)
  then have "ra_host s = 1" using invD(2) [OF i] r(1) by (simp add: result_ok_def)
  then show ?thesis using Inr r(2) dropped_not_plain by (cases late) simp_all
qed

lemma completed_inv:
  assumes i: "race_inv s" and f: "task_free s" "ra_completion s" and r: "ra_result s = Some r" "pred_option plain_code late"
  shows "race_inv (finish_work late r s)"
proof -
  define s1 where "s1 = snd (finished_slot (s\<lparr>ra_completion := False\<rparr>))"
  define q where "q = (if isl r then r else case_option r Inl late)"
  have w: "finish_work late r s = (if ra_stalled s \<or> \<not> ra_alive s then s1 else answer q s1)"
    by (simp add: finish_work_def finished_slot_def s1_def q_def Let_def)
  have ok: "stage s1" "result_ok s1" "blocked s1 = blocked s" "ra_host s1 = ra_host s"
    using invD(1,2) [OF i] core_same [of s1 s] by (simp_all add: s1_def finished_slot_def)
  have slot: "slot_ok s1" "canceller_ok s1"
    using invD(4) [OF i] f by (simp_all add: s1_def finished_slot_def slot_ok_def canceller_ok_def task_free_def)
  have one: "\<not> ra_queued s" "ra_cancelling s = []" "ra_pending s \<longleftrightarrow> \<not> ra_stalled s" "tokens s = 1"
    using invD(3,4) [OF i] f by (auto simp: owed_def slot_ok_def task_free_def)
  have "owed (if ra_stalled s \<or> \<not> ra_alive s then s1 else answer q s1)"
    using one by (cases "ra_stalled s") (simp_all add: s1_def owed_def tokens_def finished_slot_def answer_def)
  moreover have "result_ok (answer q s1)"
    using late_answer [OF i r] ok unfolding q_def [symmetric]
    by (intro answer_result_ok) (simp_all split: sum.splits)
  moreover have "stage (answer q s1)" "slot_ok (answer q s1)" "canceller_ok (answer q s1)"
    using ok slot core_same(1) [of "answer q s1" s1] owner_same [of "answer q s1" s1] by (simp_all add: answer_def)
  ultimately show ?thesis using ok slot unfolding w by (simp add: race_inv_def)
qed

lemma cancelling_inv:
  assumes i: "race_inv s" and c: "ra_cancelling s = a # rest"
  shows "race_inv (cancel_act a (s\<lparr>ra_cancelling := rest\<rparr>))"
proof (cases a)
  case StoreCancelled
  let ?u = "s\<lparr>ra_cancelling := rest, ra_cancelled := True\<rparr>"
  have rest: "rest = [LoadStarted]"
    using invD(5) [OF i] c StoreCancelled by (auto simp: canceller_ok_def cancel_program_def)
  have "stage ?u" using invD(1) [OF i] by (simp add: stage_def del: One_nat_def)
  moreover have "result_ok ?u" using invD(2) [OF i] by (auto simp: result_ok_def dropped_answer_def blocked_def)
  moreover have "owed ?u" using invD(3) [OF i] c rest by (simp add: owed_def tokens_def)
  moreover have "slot_ok ?u" "canceller_ok ?u"
    using invD(4) [OF i] owner_same(1) [of ?u s] rest by (simp_all add: canceller_ok_def)
  ultimately show ?thesis by (simp add: race_inv_def StoreCancelled cancel_act_def)
next
  case LoadStarted
  let ?t = "s\<lparr>ra_cancelling := rest\<rparr>"
  have rest: "rest = []" "ra_cancelled s"
    using invD(5) [OF i] c LoadStarted by (auto simp: canceller_ok_def cancel_program_def)
  have "dropped_code (outcome_code (ra_input s) (ra_started s)) \<longrightarrow> blocked ?t"
    using dropped_code_unstarted [of "ra_input s" "ra_started s"] i rest
    by (auto simp: race_inv_def stage_def blocked_def)
  moreover have "result_ok ?t" using i by (simp add: race_inv_def result_ok_def dropped_answer_def blocked_def)
  ultimately have "result_ok (cancel_act a ?t)"
    unfolding LoadStarted cancel_act_def by (simp add: answer_result_ok)
  moreover have "owed (cancel_act a ?t)"
    using invD(3) [OF i] c rest by (simp add: LoadStarted cancel_act_def owed_def tokens_def answer_def)
  ultimately show ?thesis
    using invD(1,4) [OF i] rest core_same(1) [of "cancel_act a ?t" s] owner_same(1) [of "cancel_act a ?t" s]
    by (simp add: LoadStarted cancel_act_def race_inv_def canceller_ok_def answer_def)
qed

lemma race_inv_step: "race_step s s' \<Longrightarrow> race_inv s \<Longrightarrow> race_inv s'"
proof (induction rule: race_step.induct)
  case (lost s)
  then show ?case by (intro result_inv) (simp_all add: plain_code_def)
qed (auto intro: submit_inv refuse_inv action_inv ended_inv completed_inv watchdog_inv discard_inv ends_inv hung_up_inv
    cancelling_inv simp: task_free_def)

lemma race_inv_steps: "race_step\<^sup>*\<^sup>* s s' \<Longrightarrow> race_inv s \<Longrightarrow> race_inv s'"
  by (induction rule: rtranclp_induct) (auto intro: race_inv_step)

lemma race_reach_inv: "before_start prog \<Longrightarrow> race_reach inp prog s \<Longrightarrow> race_inv s"
  unfolding race_reach_def using race_inv_steps race_inv_new by blast

text \<open>The replies only grow.\<close>

lemma answers_step: "race_step s s' \<Longrightarrow> \<exists>xs. ra_answers s' = ra_answers s @ xs"
  by (induction rule: race_step.induct)
    (auto simp: task_defs cancel_act_def split: cancel_action.splits)

lemma answers_steps: "race_step\<^sup>*\<^sup>* s s' \<Longrightarrow> \<exists>xs. ra_answers s' = ra_answers s @ xs"
  by (induction rule: rtranclp_induct) (fastforce dest: answers_step)+

lemma one_answer: "race_inv s \<Longrightarrow> length (ra_answers s) \<le> 1"
  by (auto simp: race_inv_def owed_def tokens_def)

lemma answer_final:
  assumes "race_step\<^sup>*\<^sup>* s s'" "race_inv s" "ra_answers s \<noteq> []"
  shows "ra_answers s' = ra_answers s"
proof -
  obtain xs where "ra_answers s' = ra_answers s @ xs" using answers_steps [OF assms(1)] by blast
  then show ?thesis using one_answer [OF race_inv_steps [OF assms(1,2)]] assms(3) by (cases "ra_answers s") auto
qed

text \<open>
  C5: A write that the phone is told was dropped never reaches the Host: not before the answer and
  not after it, however the executor, the connection's task, its cancellations and the world interleave.
\<close>

theorem dropped_write_never_sent:
  assumes "prog = write_program \<or> prog = open_program" "race_reach inp prog s" "dropped_answer s" "race_step\<^sup>*\<^sup>* s s'"
  shows "ra_host s' = 0"
proof -
  have i: "race_inv s" using assms programs_before_start race_reach_inv by blast
  have "dropped_answer s'"
    using answer_final [OF assms(4) i] assms(3) by (cases "ra_answers s") (auto simp: dropped_answer_def)
  then show ?thesis using race_inv_steps [OF assms(4) i] by (simp add: race_inv_def result_ok_def blocked_def)
qed

text \<open>
  C25: A write reaches the Host at most once and is answered at most once, whether it is refused, runs,
  is cancelled in the queue or on its thread, stalls and then ends, or is hung up on; a write answered
  as sent has reached the Host, and while its connection lives a write that has left the queue, the slot
  and the canceller has been answered.
\<close>

theorem write_sent_exactly:
  assumes "prog = write_program \<or> prog = open_program" "race_reach inp prog s" "race_step\<^sup>*\<^sup>* s s'"
  shows "ra_host s' \<le> 1 \<and> length (ra_answers s') \<le> 1 \<and> (Inr () \<in> set (ra_answers s') \<longrightarrow> ra_host s' = 1)
    \<and> (ra_alive s' \<and> \<not> ra_queued s' \<and> \<not> ra_pending s' \<and> ra_cancelling s' = [] \<longrightarrow> length (ra_answers s') = 1)
    \<and> (ra_answers s \<noteq> [] \<longrightarrow> ra_answers s' = ra_answers s)"
proof -
  have i: "race_inv s" using assms programs_before_start race_reach_inv by blast
  have i': "race_inv s'" using race_inv_steps assms(3) i by blast
  have "ra_host s' \<le> 1" "Inr () \<in> set (ra_answers s') \<longrightarrow> ra_host s' = 1"
    using i' by (auto simp: race_inv_def stage_def result_ok_def split: if_splits)
  moreover have "ra_alive s' \<and> \<not> ra_queued s' \<and> \<not> ra_pending s' \<and> ra_cancelling s' = [] \<longrightarrow> length (ra_answers s') = 1"
    using invD(3) [OF i'] by (auto simp: owed_def tokens_def)
  ultimately show ?thesis using one_answer [OF i'] answer_final [OF assms(3) i] by blast
qed

section \<open>Two writes that stall\<close>

datatype move = Pump | Job | End | Complete | Overdue | Cancel

fun play :: "move \<Rightarrow> race \<Rightarrow> race option" where
  "play Pump s = (if task_free s \<and> \<not> ra_active s \<and> ra_queued s then Some (submit_work s) else None)"
| "play Job s =
     (case ra_todo s of
        a # todo \<Rightarrow>
          if ra_submitted s \<and> Option.is_none (ra_result s) then Some (job_action True [] a (s\<lparr>ra_todo := todo\<rparr>)) else None
      | [] \<Rightarrow> None)"
| "play End s =
     (if ra_submitted s \<and> Option.is_none (ra_result s) \<and> ra_todo s = [] then Some (s\<lparr>ra_result := Some (Inr ())\<rparr>) else None)"
| "play Complete s =
     (case ra_result s of
        Some r \<Rightarrow> if task_free s \<and> ra_completion s then Some (finish_work None r s) else None
      | None \<Rightarrow> None)"
| "play Overdue s = (if task_free s \<and> ra_watchdog s then Some (watchdog_fires s) else None)"
| "play Cancel s =
     (case ra_cancelling s of
        a # rest \<Rightarrow> Some (cancel_act a (s\<lparr>ra_cancelling := rest\<rparr>))
      | [] \<Rightarrow> None)"

fun plays :: "move list \<Rightarrow> race \<Rightarrow> race option" where
  "plays [] s = Some s"
| "plays (m # ms) s = Option.bind (play m s) (plays ms)"

lemma play_step: "play m s = Some s' \<Longrightarrow> race_step s s'"
proof (induction m s rule: play.induct)
  case (2 s)
  then show ?case by (auto simp: plain_code_def Option.is_none_def split: list.splits if_splits intro: race_step.job)
qed (auto simp: Option.is_none_def split: if_splits list.splits option.splits
    intro: race_step.pump race_step.ended race_step.completed race_step.overdue race_step.cancelling)

lemma plays_steps: "plays ms s = Some s' \<Longrightarrow> race_step\<^sup>*\<^sup>* s s'"
  by (induction ms arbitrary: s)
    (auto simp: bind_eq_Some_conv intro: converse_rtranclp_into_rtranclp play_step)

text \<open>
  The first stalls before it has started: the phone is told it was dropped, and the thread that goes on
  then stops at its last check, which finds the cancellation.
\<close>

definition early_moves :: "move list" where
  "early_moves = [Pump, Job, Job, Job, Overdue, Cancel, Cancel]"

definition early_race :: race where
  "early_race = the (plays early_moves (race_new True write_program))"

definition early_end :: race where
  "early_end = the (plays [Job, Job, Complete] early_race)"

lemma early_run:
  "let s = plays early_moves (race_new True write_program); s' = Option.bind s (plays [Job, Job, Complete])
   in s \<noteq> None \<and> s' \<noteq> None \<and> ra_answers (the s) = [Inl ''input-dropped''] \<and> ra_started (the s')"
  by code_simp

text \<open>
  The second stalls after its call: the phone is told that the outcome is unknown, and the success that
  comes later is not told.
\<close>

definition late_moves :: "move list" where
  "late_moves = [Pump, Job, Job, Job, Job, Job, Job, Job, Overdue, Cancel, Cancel]"

definition late_race :: race where
  "late_race = the (plays late_moves (race_new True write_program))"

definition late_end :: race where
  "late_end = the (plays [End, Complete] late_race)"

lemma late_run:
  "let s = plays late_moves (race_new True write_program); s' = Option.bind s (plays [End, Complete])
   in s \<noteq> None \<and> s' \<noteq> None \<and> ra_answers (the s) = [Inl ''input-outcome-unknown'']
     \<and> ra_result (the s') = Some (Inr ()) \<and> \<not> ra_active (the s')"
  by code_simp

lemma run_steps:
  assumes "plays ms (race_new inp prog) \<noteq> None" "Option.bind (plays ms (race_new inp prog)) (plays ms') \<noteq> None"
  shows "race_reach inp prog (the (plays ms (race_new inp prog)))"
    "race_step\<^sup>*\<^sup>* (the (plays ms (race_new inp prog))) (the (plays ms' (the (plays ms (race_new inp prog)))))"
  using assms plays_steps by (auto simp: race_reach_def)

theorem dropped_write_never_sent_witness: "ra_started early_end \<and> ra_host early_end = 0"
proof -
  note r = early_run [unfolded Let_def]
  have "dropped_answer early_race" using r by (simp add: dropped_answer_def early_race_def)
  moreover have "race_reach True write_program early_race" "race_step\<^sup>*\<^sup>* early_race early_end"
    unfolding early_race_def early_end_def by (rule run_steps, use r in blast, use r in blast)+
  moreover have "ra_started early_end" using r by (auto simp: early_end_def early_race_def simp del: plays.simps)
  ultimately show ?thesis using dropped_write_never_sent [of write_program True early_race early_end] by blast
qed

theorem write_sent_exactly_witness:
  "ra_result late_end = Some (Inr ()) \<and> ra_answers late_end = [Inl ''input-outcome-unknown''] \<and> ra_host late_end \<le> 1"
proof -
  note r = late_run [unfolded Let_def]
  have a: "ra_answers late_race = [Inl ''input-outcome-unknown'']" using r by (simp add: late_race_def)
  have "race_reach True write_program late_race" "race_step\<^sup>*\<^sup>* late_race late_end"
    unfolding late_race_def late_end_def by (rule run_steps, use r in blast, use r in blast)+
  moreover have "ra_result late_end = Some (Inr ())" using r by (auto simp: late_end_def late_race_def simp del: plays.simps)
  ultimately show ?thesis using write_sent_exactly [of write_program True late_race late_end] a by simp
qed

end
