(* ===== verification/Peer.thy ===== *)
theory Peer
  imports Calls Write_Race
begin

text \<open>
  \<open>Reads\<close> of \<open>companion/src/read_bridge.rs\<close> with the write queue of \<open>write_bridge.rs\<close>: what one connection
  keeps, and its operations. A read or write is admitted under the identity lock, runs on the
  executor, and its completion is answered by the connection.

  A submitted closure is a value that names what it captured, and running it is a function; a job runs
  here as one step of the connection (\<open>Write_Race\<close> has its interleaving with a cancellation). Values
  that Rust drops are dropped by functions: a stream of the table, the permits of a closure, the
  result nobody takes. The atomics of a write are kept in two lists of write numbers. A panic is \<open>None\<close>.
\<close>

record 'w env =
  en_X :: ext
  en_J :: "string \<Rightarrow> json option"
  en_S :: "json \<Rightarrow> string"
  en_T :: "timestamp \<Rightarrow> json"
  en_E :: "bytes \<Rightarrow> string"
  en_D :: "string \<Rightarrow> bytes option"
  en_reads :: "'w herdr_reads"
  en_git :: "'w host_git"

section \<open>State\<close>

record input_bucket =
  bk_until :: timestamp
  bk_bytes :: nat

record write_stream =
  ws_audit :: audit
  ws_announced :: bool
  ws_leased :: bool
  ws_takeover :: bool
  ws_bucket :: "input_bucket option"

record wire_stream =
  wt_session :: string
  wt_events :: bool
  wt_lease :: "lease option"
  wt_write :: "write_stream option"

record open_work =
  ow_stream :: u32
  ow_session :: string
  ow_target :: "string option"
  ow_size :: "(nat \<times> nat) option"
  ow_takeover :: bool
  ow_full :: "string option"
  ow_fresh_until :: "timestamp option"

datatype write_op = OpInput bytes | OpScroll scroll_direction nat | OpResize "nat \<times> nat"

datatype write_run =
    RunPrompt string string string
  | RunKeys string string "string list"
  | RunOp u32 string write_op
  | RunOpen open_work

record work =
  wk_audit :: audit
  wk_device :: string
  wk_id :: json
  wk_stream :: "u32 option"
  wk_input :: bool
  wk_no :: nat
  wk_until :: timestamp
  wk_action :: string
  wk_run :: write_run

record pending_write =
  pw_id :: json
  pw_stream :: "u32 option"
  pw_input :: bool
  pw_no :: nat
  pw_audit :: audit

record watchdog =
  wd_until :: timestamp
  wd_id :: json
  wd_stream :: "u32 option"
  wd_audit :: audit

datatype read_task =
    ReadSessions
  | ReadSnapshot string
  | ReadObserve string string u32
  | ReadEvents string u32
  | ReadGit git_request space timestamp

datatype task = ReadTask read_task | WriteTask work "lease list"

datatype job_output = OutValue json | OutSnapshot json | OutOpened lease json bool

record completion =
  co_id :: json
  co_stream :: "u32 option"
  co_result :: "string + job_output"
  co_write :: bool

record running =
  ru_job :: job
  ru_task :: task
  ru_id :: json
  ru_stream :: "u32 option"

text \<open>
  The write queue is \<open>rd_queue\<close> to \<open>rd_rejected\<close>. \<open>rd_running\<close> are the submitted calls and \<open>rd_waiting\<close>
  the subscriptions the desktop has not confirmed; each of the reads among them and each waiting
  subscription holds one of the two pending permits. \<open>rd_gone\<close> is the end of the connection.
\<close>

record reads =
  rd_peer_id :: u64
  rd_chan :: chan
  rd_streams :: "(u32, wire_stream) hmap"
  rd_next_id :: u32
  rd_queue :: "work list"
  rd_active :: bool
  rd_stalled :: bool
  rd_watchdog :: "watchdog option"
  rd_stalled_stream :: "u32 option"
  rd_active_write :: "pending_write option"
  rd_rejected :: rejections
  rd_answers :: "json list"
  rd_pending :: nat
  rd_git_reads :: "(string \<times> string, timestamp) hmap"
  rd_next_no :: nat
  rd_started :: "nat list"
  rd_cancelled :: "nat list"
  rd_running :: "running list"
  rd_waiting :: "(json \<times> u64) list"
  rd_gone :: bool

definition reads_new :: "u64 \<Rightarrow> reads" where
  "reads_new peer = \<lparr>rd_peer_id = peer, rd_chan = chan_new, rd_streams = [], rd_next_id = 1, rd_queue = [],
     rd_active = False, rd_stalled = False, rd_watchdog = None, rd_stalled_stream = None, rd_active_write = None,
     rd_rejected = \<lparr>rj_count = 0, rj_next = None\<rparr>, rd_answers = [], rd_pending = 2, rd_git_reads = [],
     rd_next_no = 0, rd_started = [], rd_cancelled = [], rd_running = [], rd_waiting = [], rd_gone = False\<rparr>"

text \<open>A connection with what it shares: the gateway, the executor, the cursors and detected roots of Git.\<close>

record site =
  si_gateway :: gateway
  si_jobs :: jobs
  si_cursors :: cursors
  si_detected :: "(string, string) hmap"
  si_reads :: reads

definition upd_reads :: "(reads \<Rightarrow> reads) \<Rightarrow> site \<Rightarrow> site" where
  "upd_reads f s = s\<lparr>si_reads := f (si_reads s)\<rparr>"

definition upd_chan :: "(chan \<Rightarrow> chan) \<Rightarrow> site \<Rightarrow> site" where
  "upd_chan f = upd_reads (\<lambda>r. r\<lparr>rd_chan := f (rd_chan r)\<rparr>)"

definition upd_jobs :: "(jobs \<Rightarrow> jobs) \<Rightarrow> site \<Rightarrow> site" where
  "upd_jobs f s = s\<lparr>si_jobs := f (si_jobs s)\<rparr>"

definition upd_audit :: "(audit_state \<Rightarrow> audit_state) \<Rightarrow> site \<Rightarrow> site" where
  "upd_audit f s = s\<lparr>si_gateway := (si_gateway s)\<lparr>gw_audit := f (gw_audit (si_gateway s))\<rparr>\<rparr>"

definition si_audit :: "site \<Rightarrow> audit_state" where
  "si_audit s = gw_audit (si_gateway s)"

definition set_audit :: "audit_state \<Rightarrow> site \<Rightarrow> site" where
  "set_audit a = upd_audit (\<lambda>_. a)"

definition set_identity :: "identity \<Rightarrow> site \<Rightarrow> site" where
  "set_identity idt s = s\<lparr>si_gateway := (si_gateway s)\<lparr>gw_identity := idt\<rparr>\<rparr>"

definition get_stream :: "u32 \<Rightarrow> site \<Rightarrow> wire_stream option" where
  "get_stream i s = hm_get (rd_streams (si_reads s)) i"

definition put_stream :: "u32 \<Rightarrow> wire_stream \<Rightarrow> site \<Rightarrow> site" where
  "put_stream i st = upd_reads (\<lambda>r. r\<lparr>rd_streams := hm_insert i st (rd_streams r)\<rparr>)"

definition upd_write :: "u32 \<Rightarrow> (write_stream \<Rightarrow> write_stream) \<Rightarrow> site \<Rightarrow> site" where
  "upd_write i f s =
     (case get_stream i s of
        None \<Rightarrow> s
      | Some st \<Rightarrow> put_stream i (st\<lparr>wt_write := map_option f (wt_write st)\<rparr>) s)"

definition closed_with :: "u32 \<Rightarrow> site \<Rightarrow> string option" where
  "closed_with i s = Option.bind (hm_get (cn_states (rd_chan (si_reads s))) i) sm_closed"

definition write_scope :: "wire_stream \<Rightarrow> scope option" where
  "write_scope st = map_option (\<lambda>w. ad_scope (ws_audit w)) (wt_write st)"

section \<open>What Rust drops\<close>

definition bucket_event :: "audit \<Rightarrow> nat \<Rightarrow> timestamp \<Rightarrow> event" where
  "bucket_event a n t =
     audit_event_of a (if ad_scope a = Full then ''full.input'' else ''terminal.input'') (JObj [(''bytes'', jnum n)]) t"

definition ws_flush :: "bool \<Rightarrow> timestamp \<Rightarrow> timestamp \<Rightarrow> write_stream \<Rightarrow> audit_state \<Rightarrow> write_stream \<times> audit_state" where
  "ws_flush force t1 t2 w a =
     (case ws_bucket w of
        None \<Rightarrow> (w, a)
      | Some b \<Rightarrow>
          if force \<or> bk_until b \<le> t1
          then (w\<lparr>ws_bucket := None\<rparr>,
                set_events (reservation_emit Bucket (as_events a) (bucket_event (ws_audit w) (bk_bytes b) t2)) a)
          else (w, a))"

text \<open>The end of a write stream: its last inputs, then the release, or that it never opened.\<close>

definition end_write :: "(nat \<Rightarrow> timestamp) \<Rightarrow> string \<Rightarrow> write_stream \<Rightarrow> audit_state \<Rightarrow> audit_state" where
  "end_write nows reason w a =
     (case ws_flush True (nows 0) (nows 1) w a of
        (w1, a1) \<Rightarrow>
          if ws_announced w1 \<or> ws_leased w1
          then tightened (ws_audit w1) reason (ws_announced w1) (nows 2) (nows 3) a1
          else open_failed (ws_audit w1) reason (nows 2) (nows 3) a1)"

definition drop_lease :: "lease option \<Rightarrow> site \<Rightarrow> site" where
  "drop_lease l = (case l of None \<Rightarrow> id | Some l \<Rightarrow> upd_jobs (lease_drop l))"

definition end_reason :: "u32 \<Rightarrow> site \<Rightarrow> string" where
  "end_reason i s = (case closed_with i s of None \<Rightarrow> ''peer-closed'' | Some r \<Rightarrow> r)"

definition drop_write :: "(nat \<Rightarrow> timestamp) \<Rightarrow> u32 \<Rightarrow> write_stream option \<Rightarrow> site \<Rightarrow> site" where
  "drop_write nows i w s =
     (case w of
        None \<Rightarrow> s
      | Some w \<Rightarrow>
          (let reason = end_reason i s
           in upd_audit (end_write nows reason w) (upd_chan (stream_close reason i) s)))"

definition drop_stream :: "(nat \<Rightarrow> timestamp) \<Rightarrow> u32 \<Rightarrow> wire_stream \<Rightarrow> site \<Rightarrow> site" where
  "drop_stream nows i st s = drop_write nows i (wt_write st) (drop_lease (wt_lease st) s)"

definition take_stream :: "u32 \<Rightarrow> site \<Rightarrow> site" where
  "take_stream i = upd_reads (\<lambda>r. r\<lparr>rd_streams := hm_remove i (rd_streams r)\<rparr>)"

definition remove_stream :: "(nat \<Rightarrow> timestamp) \<Rightarrow> u32 \<Rightarrow> site \<Rightarrow> site" where
  "remove_stream nows i s =
     (case get_stream i s of None \<Rightarrow> s | Some st \<Rightarrow> drop_stream nows i st (take_stream i s))"

definition drop_run :: "write_run \<Rightarrow> jobs \<Rightarrow> jobs" where
  "drop_run r j = (case r of RunOpen ow \<Rightarrow> unreserve (release_full (ow_full ow) j) | _ \<Rightarrow> j)"

definition drop_announcement :: "bool \<Rightarrow> site \<Rightarrow> site" where
  "drop_announcement held s =
     (if held then upd_audit (\<lambda>a. set_events (reservation_drop Announcement (as_events a)) a) s else s)"

definition drop_output :: "string + job_output \<Rightarrow> site \<Rightarrow> site" where
  "drop_output r s =
     (case r of Inr (OutOpened l v ann) \<Rightarrow> drop_announcement ann (drop_lease (Some l) s) | _ \<Rightarrow> s)"

section \<open>Cancelled writes\<close>

definition write_error :: "json \<Rightarrow> u32 option \<Rightarrow> string \<Rightarrow> json" where
  "write_error i stream code' =
     JObj [(''id'', i), (''stream'', json_opt (\<lambda>n. JNum (uint n)) stream),
       (''error'', JObj [(''code'', JStr code'), (''message'', JStr code')])]"

definition pending_of :: "work \<Rightarrow> pending_write" where
  "pending_of w = \<lparr>pw_id = wk_id w, pw_stream = wk_stream w, pw_input = wk_input w, pw_no = wk_no w,
     pw_audit = wk_audit w\<rparr>"

definition unknown_outcome :: "nat \<Rightarrow> site \<Rightarrow> bool" where
  "unknown_outcome n s \<longleftrightarrow> n \<in> set (rd_started (si_reads s))"

definition cancel_answer :: "pending_write \<Rightarrow> site \<Rightarrow> json" where
  "cancel_answer p s = write_error (pw_id p) (pw_stream p) (outcome_code (pw_input p) (unknown_outcome (pw_no p) s))"

definition cancel_write :: "timestamp \<Rightarrow> timestamp \<Rightarrow> pending_write \<Rightarrow> site \<Rightarrow> json \<times> site" where
  "cancel_write t1 t2 p s =
     (let s1 = upd_reads (\<lambda>r. r\<lparr>rd_cancelled := pw_no p # rd_cancelled r\<rparr>) s
      in (cancel_answer p s1,
          upd_audit (cancelled (pw_audit p) (pw_input p) (if unknown_outcome (pw_no p) s1 then ''unknown'' else ''dropped'') t1 t2) s1))"

text \<open>Queued writes are cancelled in their order; each gives back the permits its closure holds.\<close>

fun cancel_works :: "(nat \<Rightarrow> timestamp) \<Rightarrow> work list \<Rightarrow> site \<Rightarrow> json list \<times> site" where
  "cancel_works nows [] s = ([], s)"
| "cancel_works nows (w # ws) s =
     (case cancel_write (nows 0) (nows 1) (pending_of w) s of
        (v, s1) \<Rightarrow>
          (case cancel_works (later 2 nows) ws (upd_jobs (drop_run (wk_run w)) s1) of
             (vs, s2) \<Rightarrow> (v # vs, s2)))"

text \<open>The writes of the stream leave the queue and are answered later; the others keep their order.\<close>

definition discard_write_stream :: "(nat \<Rightarrow> timestamp) \<Rightarrow> u32 \<Rightarrow> site \<Rightarrow> site" where
  "discard_write_stream nows i s =
     (let q = rd_queue (si_reads s);
          s1 = upd_reads (\<lambda>r. r\<lparr>rd_queue := filter (\<lambda>w. wk_stream w \<noteq> Some i) q\<rparr>) s
      in case cancel_works nows (filter (\<lambda>w. wk_stream w = Some i) q) s1 of
           (vs, s2) \<Rightarrow> upd_reads (\<lambda>r. r\<lparr>rd_answers := rd_answers r @ vs\<rparr>) s2)"

definition cancelled_writes :: "site \<Rightarrow> json list \<times> site" where
  "cancelled_writes s = (rd_answers (si_reads s), upd_reads (\<lambda>r. r\<lparr>rd_answers := []\<rparr>) s)"

definition close_all :: "string \<Rightarrow> site \<Rightarrow> site" where
  "close_all reason s = fold (\<lambda>(i, st). upd_chan (stream_close reason i)) (rd_streams (si_reads s)) s"

text \<open>
  \<open>cancel_writes\<close>, when the connection ends: the streams close, the write that runs and every queued
  one are answered.
\<close>

definition cancel_active :: "(nat \<Rightarrow> timestamp) \<Rightarrow> site \<Rightarrow> json list \<times> site" where
  "cancel_active nows s =
     (if \<not> rd_active (si_reads s) then ([], s)
      else case rd_active_write (si_reads s) of
        None \<Rightarrow> ([], s)
      | Some p \<Rightarrow>
          (case cancel_write (nows 0) (nows 1) p (upd_reads (\<lambda>r. r\<lparr>rd_active_write := None\<rparr>) s) of
             (v, s1) \<Rightarrow> ([v], s1)))"

definition cancel_writes :: "(nat \<Rightarrow> timestamp) \<Rightarrow> string \<Rightarrow> site \<Rightarrow> json list \<times> site" where
  "cancel_writes nows reason s =
     (let s1 = close_all reason (upd_chan (\<lambda>c. c\<lparr>cn_alive := False\<rparr>) s)
      in case cancelled_writes s1 of
           (vs, s2) \<Rightarrow>
             (case cancel_active nows s2 of
                (us, s3) \<Rightarrow>
                  (case cancel_works (later 2 nows) (rd_queue (si_reads s3)) (upd_reads (\<lambda>r. r\<lparr>rd_queue := []\<rparr>) s3) of
                     (ws, s4) \<Rightarrow> (vs @ us @ ws, s4))))"

text \<open>The streams that closed: they leave the table with their queued writes.\<close>

fun close_each :: "(nat \<Rightarrow> timestamp) \<Rightarrow> (u32 \<times> string) list \<Rightarrow> site \<Rightarrow> site" where
  "close_each nows [] s = s"
| "close_each nows ((i, reason) # cs) s =
     close_each (later 100 nows) cs (discard_write_stream (later 4 nows) i (remove_stream nows i s))"

definition stream_closed_event :: "u32 \<times> string \<Rightarrow> json" where
  "stream_closed_event c =
     JObj [(''event'', JStr ''stream.closed''),
       (''data'', JObj [(''stream'', JNum (uint (fst c))), (''reason'', JStr (snd c))])]"

definition closed_streams :: "site \<Rightarrow> (u32 \<times> string) list" where
  "closed_streams s =
     List.map_filter (\<lambda>(i, st). map_option (Pair i) (closed_with i s))
       (filter (\<lambda>(i, st). wt_lease st \<noteq> None) (rd_streams (si_reads s)))"

definition closed :: "(nat \<Rightarrow> timestamp) \<Rightarrow> site \<Rightarrow> json list \<times> site" where
  "closed nows s =
     (let cs = closed_streams s in (map stream_closed_event cs, close_each nows cs s))"


section \<open>Admission of writes\<close>

definition new_audit ::
  "auth_context \<Rightarrow> scope \<Rightarrow> string \<Rightarrow> string option \<Rightarrow> site \<Rightarrow> (audit \<times> site) option" where
  "new_audit ctx scope session target s =
     (case audit_new (cx_device_id ctx) (rd_peer_id (si_reads s)) scope session target (si_audit s) of
        None \<Rightarrow> None
      | Some (a, st) \<Rightarrow> Some (a, set_audit st s))"

definition reject_audit :: "audit \<Rightarrow> timestamp \<Rightarrow> timestamp \<Rightarrow> site \<Rightarrow> site" where
  "reject_audit a t1 t2 s =
     (case rejected a t1 t2 (rd_rejected (si_reads s)) (si_audit s) of
        (rj, st) \<Rightarrow> set_audit st (upd_reads (\<lambda>r. r\<lparr>rd_rejected := rj\<rparr>) s))"

definition send_work :: "work \<Rightarrow> site \<Rightarrow> (string + json option) \<times> site" where
  "send_work w s =
     (if length (rd_queue (si_reads s)) < WRITE_QUEUE
      then (Inr None, upd_reads (\<lambda>r. r\<lparr>rd_queue := rd_queue r @ [w], rd_next_no := rd_next_no r + 1\<rparr>) s)
      else (Inl ''busy'', upd_jobs (drop_run (wk_run w)) s))"

type_synonym admitted = "((string + json option) \<times> site) option"

definition refuse :: "string \<Rightarrow> site \<Rightarrow> admitted" where
  "refuse e s = Some (Inl e, s)"

text \<open>A release or close: it needs its stream, and nothing else.\<close>

definition admit_close :: "(nat \<Rightarrow> timestamp) \<Rightarrow> json \<Rightarrow> string \<Rightarrow> json \<Rightarrow> site \<Rightarrow> admitted" where
  "admit_close nows i meth params s =
     (case parse_params close_params_of params of
        Inl e \<Rightarrow> refuse e s
      | Inr n \<Rightarrow>
          (case get_stream n s of
             None \<Rightarrow> refuse ''stream-not-found'' s
           | Some st \<Rightarrow>
               if write_scope st \<noteq> Some (method_scope meth) then refuse ''invalid-stream-type'' s
               else Some (Inr (Some (read_reply i (JObj [(''stream'', JNum (uint n)), (''closed'', JBool True)]))),
                      discard_write_stream (later 4 nows) n
                        (remove_stream nows n (upd_chan (stream_close ''client-closed'' n) s)))))"

definition json_as_u64 :: "json \<Rightarrow> int option" where
  "json_as_u64 v = (case v of JNum n \<Rightarrow> if 0 \<le> n \<and> n < 2 ^ 64 then Some n else None | _ \<Rightarrow> None)"

definition stalled_code :: "json \<Rightarrow> site \<Rightarrow> string" where
  "stalled_code params s =
     (case json_as_u64 (json_index params ''stream'') of
        None \<Rightarrow> ''busy''
      | Some n \<Rightarrow> if Some (word_of_int n) = rd_stalled_stream (si_reads s) then ''stream-stalled'' else ''busy'')"

definition open_params :: "string \<Rightarrow> json \<Rightarrow> string + string \<times> string option \<times> (nat \<times> nat) option \<times> bool" where
  "open_params meth params =
     (if method_scope meth = Control then
        (case parse_params control_params_of params of
           Inl e \<Rightarrow> Inl e
         | Inr p \<Rightarrow>
             if \<not> valid_id (cp_target p) then Inl ''invalid-params''
             else if \<not> cp_confirm_resize p then Inl ''size-confirmation-required''
             else Inr (cp_session p, Some (cp_target p), None, cp_takeover p))
      else
        (case parse_params full_params_of params of
           Inl e \<Rightarrow> Inl e
         | Inr p \<Rightarrow>
             (case full_size (fp_cols p) (fp_rows p) (fp_confirm_resize p) of
                Inl e \<Rightarrow> Inl e
              | Inr dims \<Rightarrow> Inr (fp_session p, None, Some dims, False))))"

text \<open>The permits of an open: the full session of the device, then the resource.\<close>

definition open_permits :: "string option \<Rightarrow> jobs \<Rightarrow> (string + unit) \<times> jobs" where
  "open_permits full j =
     (case (case full of None \<Rightarrow> (Inr (), j) | Some d \<Rightarrow> acquire_full d j) of
        (Inl e, j1) \<Rightarrow> (Inl e, j1)
      | (Inr _, j1) \<Rightarrow>
          (case jobs_reserve j1 of
             (Inl e, j2) \<Rightarrow> (Inl e, release_full full j2)
           | (Inr _, j2) \<Rightarrow> (Inr (), j2)))"

definition open_stream :: "u32 \<Rightarrow> timestamp \<Rightarrow> wire_stream \<Rightarrow> site \<Rightarrow> site" where
  "open_stream n until st s = put_stream n st (upd_chan (stream_open n (Some until)) s)"

definition admit_open ::
  "auth_context \<Rightarrow> json \<Rightarrow> string \<Rightarrow> json \<Rightarrow> timestamp \<Rightarrow> timestamp option \<Rightarrow> site \<Rightarrow> admitted" where
  "admit_open ctx i meth params until fresh_until s =
     (if pending_for (as_deferred (si_audit s)) (cx_device_id ctx) then refuse ''audit-unavailable'' s
      else if MAX_STREAMS \<le> length (rd_streams (si_reads s)) then refuse ''stream-limit'' s
      else case open_params meth params of
        Inl e \<Rightarrow> refuse e s
      | Inr (session, target, dims, takeover) \<Rightarrow>
          (let full = (if method_scope meth = Full then Some (cx_device_id ctx) else None)
           in case open_permits full (si_jobs s) of
                (Inl e, j) \<Rightarrow> refuse e (s\<lparr>si_jobs := j\<rparr>)
              | (Inr _, j) \<Rightarrow>
                  (let s1 = s\<lparr>si_jobs := j\<rparr>; n = rd_next_id (si_reads s1)
                   in case checked_add n 1 of
                        None \<Rightarrow> refuse ''stream-limit'' (upd_jobs (\<lambda>j. unreserve (release_full full j)) s1)
                      | Some nxt \<Rightarrow>
                          (case new_audit ctx (method_scope meth) session target
                                  (upd_reads (\<lambda>r. r\<lparr>rd_next_id := nxt\<rparr>) s1) of
                             None \<Rightarrow> None
                           | Some (a, s2) \<Rightarrow>
                               (case send_work \<lparr>wk_audit = a, wk_device = cx_device_id ctx, wk_id = i,
                                       wk_stream = Some n, wk_input = False, wk_no = rd_next_no (si_reads s2),
                                       wk_until = until, wk_action = meth,
                                       wk_run = RunOpen \<lparr>ow_stream = n, ow_session = session, ow_target = target,
                                         ow_size = dims, ow_takeover = takeover, ow_full = full,
                                         ow_fresh_until = fresh_until\<rparr>\<rparr> s2 of
                                  (Inl e, s3) \<Rightarrow> refuse e s3
                                | (Inr _, s3) \<Rightarrow>
                                    Some (Inr None,
                                      open_stream n until \<lparr>wt_session = session, wt_events = False, wt_lease = None,
                                        wt_write = Some \<lparr>ws_audit = a, ws_announced = False, ws_leased = False,
                                          ws_takeover = takeover, ws_bucket = None\<rparr>\<rparr> s3))))))"

definition agent_params :: "string \<Rightarrow> json \<Rightarrow> string + string \<times> string \<times> write_run" where
  "agent_params meth params =
     (if meth = ''agent.prompt'' then
        (case parse_params prompt_params_of params of
           Inl e \<Rightarrow> Inl e
         | Inr (session, target, text) \<Rightarrow>
             if length text > PROMPT_BYTES then Inl ''payload-too-large''
             else if \<not> valid_id target then Inl ''invalid-params''
             else Inr (session, target, RunPrompt session target text))
      else
        (case parse_params keys_params_of params of
           Inl e \<Rightarrow> Inl e
         | Inr (session, target, keys) \<Rightarrow>
             (case mapped_keys keys of
                Inl e \<Rightarrow> Inl e
              | Inr ks \<Rightarrow>
                  if \<not> valid_id target then Inl ''invalid-params''
                  else Inr (session, target, RunKeys session target ks))))"

definition admit_agent ::
  "auth_context \<Rightarrow> json \<Rightarrow> string \<Rightarrow> json \<Rightarrow> timestamp \<Rightarrow> site \<Rightarrow> admitted" where
  "admit_agent ctx i meth params until s =
     (case agent_params meth params of
        Inl e \<Rightarrow> refuse e s
      | Inr (session, target, run) \<Rightarrow>
          (case new_audit ctx (method_scope meth) session (Some target) s of
             None \<Rightarrow> None
           | Some (a, s1) \<Rightarrow>
               Some (send_work \<lparr>wk_audit = a, wk_device = cx_device_id ctx, wk_id = i, wk_stream = None,
                 wk_input = False, wk_no = rd_next_no (si_reads s1), wk_until = until, wk_action = meth,
                 wk_run = run\<rparr> s1)))"

definition op_params :: "(string \<Rightarrow> bytes option) \<Rightarrow> string \<Rightarrow> json \<Rightarrow> string + u32 \<times> write_op" where
  "op_params D meth params =
     (if meth = ''terminal.input'' \<or> meth = ''full.input'' then
        (case parse_params input_params_of params of
           Inl e \<Rightarrow> Inl e
         | Inr p \<Rightarrow> map_sum id (map_prod id OpInput) (input_bytes D p))
      else if meth = ''terminal.scroll'' then
        (case parse_params scroll_params_of params of
           Inl e \<Rightarrow> Inl e
         | Inr p \<Rightarrow>
             if lp_lines p = 0 \<or> lp_lines p > 1000 then Inl ''invalid-params''
             else Inr (lp_stream p, OpScroll (lp_direction p) (lp_lines p)))
      else if meth = ''full.resize'' then
        (case parse_params resize_params_of params of
           Inl e \<Rightarrow> Inl e
         | Inr p \<Rightarrow>
             map_sum id (\<lambda>dims. (zp_stream p, OpResize dims)) (full_size (zp_cols p) (zp_rows p) (zp_confirm_resize p)))
      else Inl ''invalid-params'')"

definition is_input :: "write_op \<Rightarrow> bool" where
  "is_input op = (case op of OpInput _ \<Rightarrow> True | _ \<Rightarrow> False)"

definition admit_op ::
  "(string \<Rightarrow> bytes option) \<Rightarrow> auth_context \<Rightarrow> json \<Rightarrow> string \<Rightarrow> json \<Rightarrow> timestamp \<Rightarrow> site
     \<Rightarrow> (string + json option) \<times> site" where
  "admit_op D ctx i meth params until s =
     (case op_params D meth params of
        Inl e \<Rightarrow> (Inl e, s)
      | Inr (n, op) \<Rightarrow>
          (case get_stream n s of
             None \<Rightarrow> (Inl ''stream-not-found'', s)
           | Some st \<Rightarrow>
               (case wt_write st of
                  None \<Rightarrow> (Inl ''invalid-stream-type'', s)
                | Some w \<Rightarrow>
                    if ad_scope (ws_audit w) \<noteq> method_scope meth then (Inl ''invalid-stream-type'', s)
                    else (case wt_lease st of
                            None \<Rightarrow> (Inl ''busy'', s)
                          | Some l \<Rightarrow>
                              send_work \<lparr>wk_audit = ws_audit w, wk_device = cx_device_id ctx, wk_id = i,
                                wk_stream = Some n, wk_input = is_input op, wk_no = rd_next_no (si_reads s),
                                wk_until = until, wk_action = meth, wk_run = RunOp n (lease_id l) op\<rparr> s))))"

definition is_tightening :: "string \<Rightarrow> bool" where
  "is_tightening meth \<longleftrightarrow> meth = ''terminal.release'' \<or> meth = ''full.close''"

definition admit_write ::
  "(string \<Rightarrow> bytes option) \<Rightarrow> (nat \<Rightarrow> timestamp) \<Rightarrow> auth_context \<Rightarrow> json \<Rightarrow> string \<Rightarrow> json \<Rightarrow> timestamp
     \<Rightarrow> timestamp option \<Rightarrow> site \<Rightarrow> admitted" where
  "admit_write D nows ctx i meth params until fresh_until s =
     (if is_tightening meth then admit_close nows i meth params s
      else if rd_stalled (si_reads s) then refuse (stalled_code params s) s
      else if WRITE_QUEUE \<le> length (rd_queue (si_reads s)) then refuse ''busy'' s
      else if meth = ''terminal.control'' \<or> meth = ''full.open''
      then admit_open ctx i meth params until fresh_until s
      else if meth = ''agent.prompt'' \<or> meth = ''pane.sendKeys'' then admit_agent ctx i meth params until s
      else Some (admit_op D ctx i meth params until s))"

definition is_fresh :: "string \<Rightarrow> json \<Rightarrow> bool" where
  "is_fresh meth params \<longleftrightarrow>
     meth = ''full.open'' \<or> meth = ''terminal.control'' \<and> json_index params ''takeover'' = JBool True"

text \<open>\<open>with_authorized\<close> on the whole site.\<close>

definition site_authorized ::
  "auth_context \<Rightarrow> scope \<Rightarrow> (nat \<Rightarrow> timestamp) \<Rightarrow> (site \<Rightarrow> 'a \<times> site) \<Rightarrow> site \<Rightarrow> (failure + 'a) \<times> site" where
  "site_authorized ctx scope nows act s =
     (case with_authorized (gw_rp_id (si_gateway s)) ctx scope nows
             (\<lambda>idt s. case act (set_identity idt s) of (x, s') \<Rightarrow> (x, gw_identity (si_gateway s'), s'))
             (gw_identity (si_gateway s)) s of
        (r, idt, s') \<Rightarrow> (r, set_identity idt s'))"

text \<open>What runs under the lock: the deadline of the write, which a tightening does not need, then its admission.\<close>

definition write_admission ::
  "(string \<Rightarrow> bytes option) \<Rightarrow> (nat \<Rightarrow> timestamp) \<Rightarrow> auth_context \<Rightarrow> json \<Rightarrow> string \<Rightarrow> json \<Rightarrow> site
     \<Rightarrow> (string + json option) option \<times> site" where
  "write_admission D nows ctx i meth params s =
     (let scope = method_scope meth; fresh = is_fresh meth params; idt = gw_identity (si_gateway s)
      in case (if is_tightening meth then Some (nows 0) else write_deadline ctx scope fresh (nows 0) idt) of
           None \<Rightarrow> (Some (Inl ''fresh-elevation-required''), s)
         | Some until \<Rightarrow>
             (case admit_write D (later 1 nows) ctx i meth params until
                     (if fresh then freshness_deadline ctx scope idt else None) s of
                None \<Rightarrow> (None, s)
              | Some (r, s') \<Rightarrow> (Some r, s')))"

definition refusal_message :: "string \<Rightarrow> string" where
  "refusal_message code' =
     (if code' = ''scope-not-granted'' then ''Scope not granted''
      else if code' = ''elevation-required'' then ''Elevation required''
      else code')"

text \<open>A refused write is audited and answered.\<close>

definition refuse_write ::
  "auth_context \<Rightarrow> timestamp \<Rightarrow> timestamp \<Rightarrow> scope \<Rightarrow> json \<Rightarrow> string \<Rightarrow> site \<Rightarrow> ((unit + json option) \<times> site) option" where
  "refuse_write ctx t1 t2 scope i code' s =
     (case new_audit ctx scope [] None s of
        None \<Rightarrow> None
      | Some (a, s1) \<Rightarrow>
          Some (Inr (Some (rpc_error i code' (refusal_message code'))), reject_audit a t1 t2 s1))"

text \<open>\<open>Inl ()\<close> ends the connection.\<close>

definition write_call ::
  "(string \<Rightarrow> bytes option) \<Rightarrow> (nat \<Rightarrow> timestamp) \<Rightarrow> auth_context \<Rightarrow> json \<Rightarrow> string \<Rightarrow> json \<Rightarrow> site
     \<Rightarrow> ((unit + json option) \<times> site) option" where
  "write_call D nows ctx i meth params s =
     (let scope = method_scope meth;
          reject = refuse_write ctx (nows 200) (nows 201) scope i
      in case site_authorized ctx (if is_tightening meth then View else scope) nows
                (write_admission D (later 3 nows) ctx i meth params) s of
           (Inr None, s1) \<Rightarrow> None
         | (Inr (Some (Inr v)), s1) \<Rightarrow> Some (Inr v, s1)
         | (Inr (Some (Inl code')), s1) \<Rightarrow> reject code' s1
         | (Inl f, s1) \<Rightarrow>
             if f = SCOPE_NOT_GRANTED then reject ''scope-not-granted'' s1
             else if fst f = FORBIDDEN then reject ''elevation-required'' s1
             else Some (Inl (), s1))"

text \<open>A binary frame: the number of the stream, then its input.\<close>

definition from_be_bytes :: "bytes \<Rightarrow> u32" where
  "from_be_bytes bs = of_nat (foldl (\<lambda>n b. n * 256 + unat b) 0 bs)"

definition binary_call ::
  "(bytes \<Rightarrow> string) \<Rightarrow> (string \<Rightarrow> bytes option) \<Rightarrow> (nat \<Rightarrow> timestamp) \<Rightarrow> auth_context \<Rightarrow> bytes \<Rightarrow> site
     \<Rightarrow> ((unit + json option) \<times> site) option" where
  "binary_call E D nows ctx bs s =
     (if length bs < 4 then Some (Inl (), s)
      else let n = from_be_bytes (take 4 bs) in
        case get_stream n s of
          None \<Rightarrow>
            if 0 < n \<and> n < rd_next_id (si_reads s)
            then Some (Inr (Some (write_error JNull (Some n) ''stream-closed'')), s) else Some (Inl (), s)
        | Some st \<Rightarrow>
            (case write_scope st of
               None \<Rightarrow> Some (Inl (), s)
             | Some scope \<Rightarrow>
                 map_option (map_prod (map_sum id (map_option (json_put ''stream'' (JNum (uint n))))) id)
                   (write_call D nows ctx JNull (if scope = Full then ''full.input'' else ''terminal.input'')
                     (JObj [(''stream'', JNum (uint n)), (''bytesB64'', JStr (E (drop 4 bs)))]) s)))"


end
