(* ===== verification/Peer_Jobs.thy ===== *)
theory Peer_Jobs
  imports Peer
begin

text \<open>
  The jobs of a connection, \<open>companion/src/read_bridge.rs\<close> and \<open>write_bridge.rs\<close>: what the closures do on
  the executor, how the task submits them, and how a completion is answered.

  A closure is a sequence of calls with early returns: \<open>and_then\<close> is the \<open>?\<close> of the source, on the pair
  of the site and the state \<open>'w\<close> of the Host.
\<close>

section \<open>Sequences with early returns\<close>

type_synonym ('s, 'a) seq = "'s \<Rightarrow> (string + 'a) \<times> 's"

definition and_then :: "('s, 'a) seq \<Rightarrow> ('a \<Rightarrow> ('s, 'b) seq) \<Rightarrow> ('s, 'b) seq" where
  "and_then m f s = (case m s of (Inl e, s') \<Rightarrow> (Inl e, s') | (Inr x, s') \<Rightarrow> f x s')"

definition give :: "'a \<Rightarrow> ('s, 'a) seq" where
  "give x s = (Inr x, s)"

definition need :: "string \<Rightarrow> ('s \<Rightarrow> bool) \<Rightarrow> ('s, unit) seq" where
  "need e ok s = (if ok s then Inr () else Inl e, s)"

definition pass :: "string + 'a \<Rightarrow> ('s, 'a) seq" where
  "pass r s = (r, s)"

definition host :: "('w, 'a) seq \<Rightarrow> (site \<times> 'w, 'a) seq" where
  "host f sw = (case f (snd sw) of (r, w) \<Rightarrow> (r, (fst sw, w)))"

definition desk :: "(site, 'a) seq \<Rightarrow> (site \<times> 'w, 'a) seq" where
  "desk f sw = (case f (fst sw) of (r, s) \<Rightarrow> (r, (s, snd sw)))"

definition change :: "(site \<Rightarrow> site) \<Rightarrow> (site \<times> 'w, unit) seq" where
  "change f sw = (Inr (), (f (fst sw), snd sw))"

text \<open>What is dropped when the rest returns early.\<close>

definition on_error :: "(site \<Rightarrow> site) \<Rightarrow> (site \<times> 'w, 'a) seq \<Rightarrow> (site \<times> 'w, 'a) seq" where
  "on_error f m sw =
     (case m sw of
        (Inl e, (s, w)) \<Rightarrow> (Inl e, (f s, w))
      | (Inr x, sw') \<Rightarrow> (Inr x, sw'))"

section \<open>Writes\<close>

definition work_valid :: "(nat \<Rightarrow> timestamp) \<Rightarrow> work \<Rightarrow> site \<Rightarrow> bool" where
  "work_valid nows w s \<longleftrightarrow>
     wk_no w \<notin> set (rd_cancelled (si_reads s)) \<and> life_active (rd_chan (si_reads s)) \<and> nows 0 < wk_until w
     \<and> (case wk_stream w of None \<Rightarrow> True | Some i \<Rightarrow> stream_active (nows 1) i (rd_chan (si_reads s)))"

definition validity_check :: "(nat \<Rightarrow> timestamp) \<Rightarrow> work \<Rightarrow> (site \<times> 'w, unit) seq" where
  "validity_check nows w = need ''input-dropped'' (\<lambda>sw. work_valid nows w (fst sw))"

definition mark_started :: "work \<Rightarrow> site \<Rightarrow> site" where
  "mark_started w = upd_reads (\<lambda>r. r\<lparr>rd_started := wk_no w # rd_started r\<rparr>)"

definition validity_start :: "(nat \<Rightarrow> timestamp) \<Rightarrow> work \<Rightarrow> (site \<times> 'w, unit) seq" where
  "validity_start nows w = and_then (change (mark_started w)) (\<lambda>_. validity_check nows w)"

definition audit_admit :: "audit \<Rightarrow> string \<Rightarrow> json \<Rightarrow> timestamp \<Rightarrow> (site \<times> 'w, unit) seq" where
  "audit_admit a action' summary t =
     desk (\<lambda>s. case admit a action' summary t (si_audit s) of (r, st) \<Rightarrow> (r, set_audit st s))"

definition prompt_summary :: "string \<Rightarrow> json" where
  "prompt_summary text =
     JObj [(''prefix'', JStr (concat (take 200 (str_chars text)))), (''length'', jnum (length (str_chars text))),
       (''bytes'', jnum (length text))]"

definition keys_summary :: "string list \<Rightarrow> json" where
  "keys_summary keys = JObj [(''keys'', jnum (length keys))]"

definition run_agent ::
  "'w herdr_reads \<Rightarrow> (nat \<Rightarrow> timestamp) \<Rightarrow> work \<Rightarrow> string \<Rightarrow> string \<Rightarrow> json \<Rightarrow> (string \<Rightarrow> ('w, unit) seq)
     \<Rightarrow> (site \<times> 'w, job_output) seq" where
  "run_agent R nows w session target summary send =
     and_then (validity_check nows w) (\<lambda>_.
     and_then (host (reads_running R session)) (\<lambda>_.
     and_then (host (hp_snapshot (hr_port R) session)) (\<lambda>raw.
     and_then (pass (agent_target raw target)) (\<lambda>pane.
     and_then (audit_admit (wk_audit w) (wk_action w) summary (nows 2)) (\<lambda>_.
     and_then (validity_start (later 3 nows) w) (\<lambda>_.
     and_then (host (send pane)) (\<lambda>_.
     give (OutValue (JObj [(''sent'', JBool True)])))))))))"

text \<open>The bucket of the stream counts the input, or the input is audited by itself.\<close>

definition stream_bucket :: "u32 \<Rightarrow> site \<Rightarrow> input_bucket option" where
  "stream_bucket i s = Option.bind (get_stream i s) (\<lambda>st. Option.bind (wt_write st) ws_bucket)"

definition open_bucket :: "timestamp \<Rightarrow> u32 \<Rightarrow> site \<Rightarrow> site" where
  "open_bucket now i s =
     (if stream_bucket i s \<noteq> None then s
      else case reserve Bucket (as_events (si_audit s)) of
        (False, es) \<Rightarrow> upd_audit (set_events es) s
      | (True, es) \<Rightarrow>
          upd_write i (\<lambda>w. w\<lparr>ws_bucket := Some \<lparr>bk_until = after now (from_secs 10), bk_bytes = 0\<rparr>\<rparr>)
            (upd_audit (set_events es) s))"

definition count_input :: "(nat \<Rightarrow> timestamp) \<Rightarrow> work \<Rightarrow> u32 \<Rightarrow> nat \<Rightarrow> (site \<times> 'w, unit) seq" where
  "count_input nows w i n =
     and_then (need ''audit-unavailable'' (\<lambda>sw. es_available (as_events (si_audit (fst sw))))) (\<lambda>_.
     and_then (change (open_bucket (nows 0) i)) (\<lambda>_ sw.
       if stream_bucket i (fst sw) \<noteq> None
       then change (upd_write i (\<lambda>w. w\<lparr>ws_bucket := map_option (\<lambda>b. b\<lparr>bk_bytes := bk_bytes b + n\<rparr>) (ws_bucket w)\<rparr>)) sw
       else audit_admit (wk_audit w) (wk_action w) (JObj [(''bytes'', jnum n)]) (nows 1) sw))"

definition op_call :: "'w herdr_port \<Rightarrow> string \<Rightarrow> write_op \<Rightarrow> ('w, unit) seq" where
  "op_call P resource op =
     (case op of
        OpInput bs \<Rightarrow> hp_input P resource bs
      | OpScroll d n \<Rightarrow> hp_scroll P resource d n
      | OpResize dims \<Rightarrow> hp_resize P resource dims)"

definition op_reply :: "u32 \<Rightarrow> write_op \<Rightarrow> json" where
  "op_reply i op =
     (case op of
        OpInput bs \<Rightarrow> JObj [(''stream'', JNum (uint i)), (''bytes'', jnum (length bs))]
      | _ \<Rightarrow> JObj [(''stream'', JNum (uint i)), (''sent'', JBool True)])"

definition op_audit :: "(nat \<Rightarrow> timestamp) \<Rightarrow> work \<Rightarrow> u32 \<Rightarrow> write_op \<Rightarrow> (site \<times> 'w, unit) seq" where
  "op_audit nows w i op =
     (case op of
        OpInput bs \<Rightarrow> count_input nows w i (length bs)
      | _ \<Rightarrow> audit_admit (wk_audit w) (wk_action w) (JObj [(''accepted'', JBool True)]) (nows 0))"

definition run_op ::
  "'w herdr_port \<Rightarrow> (nat \<Rightarrow> timestamp) \<Rightarrow> work \<Rightarrow> u32 \<Rightarrow> string \<Rightarrow> write_op \<Rightarrow> (site \<times> 'w, job_output) seq" where
  "run_op P nows w i resource op =
     and_then (validity_check nows w) (\<lambda>_.
     and_then (op_audit (later 2 nows) w i op) (\<lambda>_.
     and_then (validity_start (later 4 nows) w) (\<lambda>_.
     and_then (host (op_call P resource op)) (\<lambda>_.
     give (OutValue (op_reply i op))))))"

definition open_geometry ::
  "'w herdr_port \<Rightarrow> open_work \<Rightarrow> (site \<times> 'w, string option \<times> nat \<times> nat) seq" where
  "open_geometry P ow =
     (case (ow_target ow, ow_size ow) of
        (Some target, _) \<Rightarrow>
          and_then (host (hp_snapshot P (ow_session ow))) (\<lambda>raw.
          and_then (pass (observe_geometry raw target)) (\<lambda>(pane, dims). give (Some pane, dims)))
      | (None, Some dims) \<Rightarrow> give (None, dims)
      | (None, None) \<Rightarrow> give (None, 0, 0))"

definition announce_later :: "audit \<Rightarrow> (site \<times> 'w, unit) seq" where
  "announce_later a =
     desk (\<lambda>s. case reserve_announcement a (si_audit s) of (r, st) \<Rightarrow> (r, set_audit st s))"

definition set_leased :: "u32 \<Rightarrow> bool \<Rightarrow> site \<Rightarrow> site" where
  "set_leased i b = upd_write i (\<lambda>w. w\<lparr>ws_leased := b\<rparr>)"

definition open_call ::
  "'w herdr_port \<Rightarrow> open_work \<Rightarrow> string option \<times> nat \<times> nat \<Rightarrow> (site \<times> 'w, string) seq" where
  "open_call P ow td =
     on_error (set_leased (ow_stream ow) False)
       (host (case fst td of
                Some pane \<Rightarrow> hp_control P (ow_session ow) pane (snd td) (ow_takeover ow) (ow_stream ow)
              | None \<Rightarrow> hp_full P (ow_session ow) (snd td) (ow_stream ow)))"

definition open_reply :: "(timestamp \<Rightarrow> json) \<Rightarrow> work \<Rightarrow> open_work \<Rightarrow> string option \<times> nat \<times> nat \<Rightarrow> json" where
  "open_reply T w ow td =
     JObj [(''stream'', JNum (uint (ow_stream ow))), (''cols'', jnum (fst (snd td))), (''rows'', jnum (snd (snd td))),
       (''until'', T (wk_until w)), (''target'', json_opt JStr (fst td))]"

text \<open>The lease takes over both permits; an open that came too late drops it, which releases the resource.\<close>

definition open_lease ::
  "(timestamp \<Rightarrow> json) \<Rightarrow> (nat \<Rightarrow> timestamp) \<Rightarrow> work \<Rightarrow> open_work \<Rightarrow> string option \<times> nat \<times> nat \<Rightarrow> string
     \<Rightarrow> (site \<times> 'w, job_output) seq" where
  "open_lease T nows w ow td resource =
     (let l = \<lparr>le_resource = Observe resource, le_full = ow_full ow\<rparr>
      in on_error (drop_lease (Some l))
           (and_then (need ''input-dropped''
               (\<lambda>sw. life_active (rd_chan (si_reads (fst sw))) \<and> nows 0 < wk_until w)) (\<lambda>_.
            give (OutOpened l (open_reply T w ow td) True))))"

definition open_start ::
  "'w herdr_port \<Rightarrow> (nat \<Rightarrow> timestamp) \<Rightarrow> work \<Rightarrow> open_work \<Rightarrow> audit \<Rightarrow> string option \<times> nat \<times> nat
     \<Rightarrow> (site \<times> 'w, string) seq" where
  "open_start P nows w ow a td =
     and_then (audit_admit a (wk_action w)
       (JObj [(''takeover'', JBool (ow_takeover ow)), (''resizeConfirmed'', JBool True)]) (nows 0)) (\<lambda>_.
     and_then (validity_check (later 1 nows) w) (\<lambda>_.
     and_then (need ''fresh-elevation-required'' (\<lambda>_.
       case ow_fresh_until ow of None \<Rightarrow> True | Some fresh \<Rightarrow> nows 3 \<le> fresh)) (\<lambda>_.
     and_then (validity_start (later 4 nows) w) (\<lambda>_.
     and_then (change (set_leased (ow_stream ow) True)) (\<lambda>_.
     open_call P ow td)))))"

definition run_open ::
  "(timestamp \<Rightarrow> json) \<Rightarrow> 'w herdr_reads \<Rightarrow> (nat \<Rightarrow> timestamp) \<Rightarrow> work \<Rightarrow> open_work \<Rightarrow> (site \<times> 'w, job_output) seq" where
  "run_open T R nows w ow =
     and_then (on_error (upd_jobs (drop_run (RunOpen ow)))
       (and_then (validity_check nows w) (\<lambda>_.
        and_then (host (reads_running R (ow_session ow))) (\<lambda>_.
        and_then (open_geometry (hr_port R) ow) (\<lambda>td.
        let a = (wk_audit w)\<lparr>ad_target := fst td\<rparr>
        in and_then (announce_later a) (\<lambda>_.
           and_then (on_error (drop_announcement True) (open_start (hr_port R) (later 2 nows) w ow a td)) (\<lambda>resource.
           give (td, resource)))))))) (\<lambda>(td, resource).
     on_error (drop_announcement True) (open_lease T (later 20 nows) w ow td resource))"

definition run_write ::
  "'w env \<Rightarrow> (nat \<Rightarrow> timestamp) \<Rightarrow> work \<Rightarrow> (site \<times> 'w, job_output) seq" where
  "run_write V nows w =
     (case wk_run w of
        RunPrompt session target text \<Rightarrow>
          run_agent (en_reads V) nows w session target (prompt_summary text)
            (\<lambda>pane. hp_prompt (hr_port (en_reads V)) session pane text)
      | RunKeys session target keys \<Rightarrow>
          run_agent (en_reads V) nows w session target (keys_summary keys)
            (\<lambda>pane. hp_keys (hr_port (en_reads V)) session pane keys)
      | RunOp i resource op \<Rightarrow> run_op (hr_port (en_reads V)) nows w i resource op
      | RunOpen ow \<Rightarrow> run_open (en_T V) (en_reads V) nows w ow)"

text \<open>The job of a write: the displaced streams are released first, its error is explained and audited.\<close>

fun release_leases :: "'w herdr_port \<Rightarrow> lease list \<Rightarrow> site \<times> 'w \<Rightarrow> site \<times> 'w" where
  "release_leases P [] sw = sw"
| "release_leases P (l # ls) (s, w) =
     (case release_now P l (si_jobs s) w of (j, w') \<Rightarrow> release_leases P ls (s\<lparr>si_jobs := j\<rparr>, w'))"

definition explain_code :: "work \<Rightarrow> site \<Rightarrow> string \<Rightarrow> string" where
  "explain_code w s e =
     (if e = ''input-dropped'' then outcome_code (wk_input w) (unknown_outcome (wk_no w) s) else e)"

definition write_job ::
  "'w env \<Rightarrow> (nat \<Rightarrow> timestamp) \<Rightarrow> work \<Rightarrow> lease list \<Rightarrow> site \<times> 'w \<Rightarrow> (string + job_output) \<times> site \<times> 'w" where
  "write_job V nows w ls sw =
     (case run_write V nows w (release_leases (hr_port (en_reads V)) ls sw) of
        (Inr x, sw') \<Rightarrow> (Inr x, sw')
      | (Inl e, (s, w')) \<Rightarrow>
          (Inl (explain_code w s e), (reject_audit (wk_audit w) (nows 50) (nows 51) s, w')))"

section \<open>Reads\<close>

definition task_active :: "timestamp \<Rightarrow> u32 option \<Rightarrow> (site \<times> 'w, unit) seq" where
  "task_active now i =
     need ''stream-closed'' (\<lambda>sw.
       (case i of
          None \<Rightarrow> life_active (rd_chan (si_reads (fst sw)))
        | Some n \<Rightarrow> stream_active now n (rd_chan (si_reads (fst sw)))))"

text \<open>An attach: its reserved permit returns unless a lease took it; a late attach is released.\<close>

definition attach_lease :: "resource \<Rightarrow> json \<Rightarrow> (site \<times> 'w, job_output) seq" where
  "attach_lease resource v =
     (let l = \<lparr>le_resource = resource, le_full = None\<rparr>
      in on_error (drop_lease (Some l))
           (and_then (need ''stream-closed'' (\<lambda>sw. life_active (rd_chan (si_reads (fst sw))))) (\<lambda>_.
            give (OutOpened l v False))))"

definition run_observe ::
  "'w herdr_reads \<Rightarrow> (nat \<Rightarrow> timestamp) \<Rightarrow> string \<Rightarrow> string \<Rightarrow> u32 \<Rightarrow> (site \<times> 'w, job_output) seq" where
  "run_observe R nows session target i =
     and_then (on_error (upd_jobs unreserve)
       (and_then (task_active (nows 0) (Some i)) (\<lambda>_.
        and_then (host (reads_running R session)) (\<lambda>_.
        and_then (task_active (nows 1) (Some i)) (\<lambda>_.
        and_then (host (explained R session (hp_snapshot (hr_port R) session))) (\<lambda>raw.
        and_then (task_active (nows 2) (Some i)) (\<lambda>_.
        and_then (pass (observe_geometry raw target)) (\<lambda>(pane, dims).
        and_then (host (reads_running R session)) (\<lambda>_.
        and_then (task_active (nows 3) (Some i)) (\<lambda>_.
        and_then (host (explained R session (hp_observe (hr_port R) session pane dims i))) (\<lambda>resource.
        give (resource, dims)))))))))))) (\<lambda>(resource, dims).
     attach_lease (Observe resource)
       (JObj [(''stream'', JNum (uint i)), (''cols'', jnum (fst dims)), (''rows'', jnum (snd dims))]))"

text \<open>A pane that appeared before the subscription is not covered by it: the phone is told once.\<close>

definition stale_hint ::
  "(json \<Rightarrow> string) \<Rightarrow> timestamp \<Rightarrow> 'w herdr_port \<Rightarrow> string \<Rightarrow> string list \<Rightarrow> u32 \<Rightarrow> site \<times> 'w \<Rightarrow> (string + unit) \<times> site \<times> 'w" where
  "stale_hint S now P session panes i sw =
     (case hp_snapshot P session (snd sw) of
        (Inr raw, w) \<Rightarrow>
          (Inr (), (if host_pane_ids raw \<noteq> panes then upd_chan (\<lambda>c. snd (sink_stale S now session i c)) (fst sw)
                    else fst sw, w))
      | (Inl _, w) \<Rightarrow> (Inr (), (fst sw, w)))"

definition run_events ::
  "(json \<Rightarrow> string) \<Rightarrow> 'w herdr_reads \<Rightarrow> (nat \<Rightarrow> timestamp) \<Rightarrow> string \<Rightarrow> u32 \<Rightarrow> (site \<times> 'w, job_output) seq" where
  "run_events S R nows session i =
     and_then (on_error (upd_jobs unreserve)
       (and_then (task_active (nows 0) (Some i)) (\<lambda>_.
        and_then (host (reads_running R session)) (\<lambda>_.
        and_then (task_active (nows 1) (Some i)) (\<lambda>_.
        and_then (host (explained R session (hp_snapshot (hr_port R) session))) (\<lambda>raw.
        and_then (task_active (nows 2) (Some i)) (\<lambda>_.
        and_then (host (explained R session (hp_subscribe (hr_port R) session (host_pane_ids raw) i))) (\<lambda>resource.
        and_then (stale_hint S (nows 3) (hr_port R) session (host_pane_ids raw) i) (\<lambda>_.
        give resource))))))))) (\<lambda>resource.
     attach_lease (Events resource) (JObj [(''stream'', JNum (uint i)), (''subscribed'', JBool True)]))"

definition run_sessions :: "'w herdr_reads \<Rightarrow> (site \<times> 'w, job_output) seq" where
  "run_sessions R =
     and_then (task_active 0 None) (\<lambda>_.
     and_then (host (reads_sessions R)) (\<lambda>v. give (OutValue v)))"

definition run_snapshot :: "(json \<Rightarrow> string) \<Rightarrow> 'w herdr_reads \<Rightarrow> string \<Rightarrow> (site \<times> 'w, job_output) seq" where
  "run_snapshot S R session =
     and_then (task_active 0 None) (\<lambda>_.
     and_then (host (reads_running R session)) (\<lambda>_.
     and_then (task_active 0 None) (\<lambda>_.
     and_then (host (reads_snapshot S R session)) (\<lambda>v sw.
     (Inr (OutSnapshot (spaces_mark (gw_spaces (si_gateway (fst sw))) session v)), sw)))))"

text \<open>A Git read: the detected root belongs to the generation of its Space. A panic is a lost result.\<close>

definition run_git ::
  "'w env \<Rightarrow> bytes option \<Rightarrow> git_request \<Rightarrow> space \<Rightarrow> string \<Rightarrow> timestamp \<Rightarrow> (site \<times> 'w, job_output) seq" where
  "run_git V random req sp device t =
     and_then (host (reads_running (en_reads V) (gr_session req))) (\<lambda>_ (s, w).
       case request_run (en_X V) (en_J V) (en_git V) sp device t req random (si_cursors s)
              (hm_get (si_detected s) (sp_generation sp)) w of
         None \<Rightarrow> (Inl ''herdr-unavailable'', (s, w))
       | Some (r, cs, detected, w') \<Rightarrow>
           (map_sum id OutSnapshot r,
            (s\<lparr>si_cursors := cs,
               si_detected := (case detected of None \<Rightarrow> hm_remove (sp_generation sp) (si_detected s)
                               | Some dir \<Rightarrow> hm_insert (sp_generation sp) dir (si_detected s))\<rparr>, w')))"

definition run_read ::
  "'w env \<Rightarrow> (nat \<Rightarrow> timestamp) \<Rightarrow> bytes option \<Rightarrow> string \<Rightarrow> read_task \<Rightarrow> (site \<times> 'w, job_output) seq" where
  "run_read V nows random device rt =
     (case rt of
        ReadSessions \<Rightarrow> run_sessions (en_reads V)
      | ReadSnapshot session \<Rightarrow> run_snapshot (en_S V) (en_reads V) session
      | ReadObserve session target i \<Rightarrow> run_observe (en_reads V) nows session target i
      | ReadEvents session i \<Rightarrow> run_events (en_S V) (en_reads V) nows session i
      | ReadGit req sp t \<Rightarrow> run_git V random req sp device t)"

section \<open>Admission of reads\<close>

definition drop_pending :: "site \<Rightarrow> site" where
  "drop_pending = upd_reads (\<lambda>r. r\<lparr>rd_pending := rd_pending r + 1\<rparr>)"

text \<open>\<open>submit_device\<close> of a read, which holds a pending permit of the connection.\<close>

definition submit_read ::
  "string \<Rightarrow> json \<Rightarrow> u32 option \<Rightarrow> read_task \<Rightarrow> site \<Rightarrow> (string + unit) \<times> site" where
  "submit_read device i stream rt s =
     (case submit_device device False (si_jobs s) of
        (Inl e, j) \<Rightarrow> (Inl e, drop_pending (s\<lparr>si_jobs := j\<rparr>))
      | (Inr job, j) \<Rightarrow>
          (Inr (), upd_reads (\<lambda>r. r\<lparr>rd_running := rd_running r
             @ [\<lparr>ru_job = job, ru_task = ReadTask rt, ru_id = i, ru_stream = stream\<rparr>]\<rparr>) (s\<lparr>si_jobs := j\<rparr>)))"

definition observe_params_of :: "json \<Rightarrow> (string \<times> string) option" where
  "observe_params_of v =
     (case struct_with [''session'', ''target''] [''cols'', ''rows''] v of
        None \<Rightarrow> None
      | Some fs \<Rightarrow>
          (case (req_field json_as_str fs ''session'', req_field json_as_str fs ''target'') of
             (Some s, Some t) \<Rightarrow> Some (s, t)
           | _ \<Rightarrow> None))"

definition session_params_of :: "json \<Rightarrow> string option" where
  "session_params_of v = Option.bind (struct_fields [''session''] v) (\<lambda>fs. req_field json_as_str fs ''session'')"

definition read_params :: "string \<Rightarrow> json \<Rightarrow> string + string \<times> string option" where
  "read_params meth params =
     (if meth = ''sessions.list'' \<and> (params = JNull \<or> params = JObj []) then Inr ([], None)
      else if meth = ''terminal.observe'' then
        (case observe_params_of params of
           Some (session, target) \<Rightarrow> if valid_id target then Inr (session, Some target) else Inl ''invalid-params''
         | None \<Rightarrow> Inl ''invalid-params'')
      else if meth = ''snapshot.get'' \<or> meth = ''events.subscribe'' then
        (case session_params_of params of Some session \<Rightarrow> Inr (session, None) | None \<Rightarrow> Inl ''invalid-params'')
      else Inl ''invalid-params'')"

definition read_task_of :: "string \<Rightarrow> string \<Rightarrow> string option \<Rightarrow> u32 \<Rightarrow> read_task" where
  "read_task_of meth session target i =
     (if meth = ''sessions.list'' then ReadSessions
      else if meth = ''snapshot.get'' then ReadSnapshot session
      else case target of Some t \<Rightarrow> ReadObserve session t i | None \<Rightarrow> ReadEvents session i)"

definition close_stream :: "(nat \<Rightarrow> timestamp) \<Rightarrow> json \<Rightarrow> json \<Rightarrow> site \<Rightarrow> json option \<times> site" where
  "close_stream nows i params s =
     (case close_params_of params of
        None \<Rightarrow> (Some (read_error i ''invalid-params''), s)
      | Some n \<Rightarrow>
          (case get_stream n s of
             None \<Rightarrow> (Some (read_error i ''stream-not-found''), s)
           | Some st \<Rightarrow>
               if wt_write st \<noteq> None then (Some (read_error i ''invalid-stream-type''), s)
               else (Some (read_reply i (JObj [(''stream'', JNum (uint n)), (''closed'', JBool True)])),
                     remove_stream nows n (upd_chan (stream_close ''client-closed'' n) s))))"

definition subscribed :: "string \<Rightarrow> site \<Rightarrow> (u32 \<times> wire_stream) option" where
  "subscribed session s = find (\<lambda>(n, st). wt_events st \<and> wt_session st = session) (rd_streams (si_reads s))"

definition enqueue_plain ::
  "string \<Rightarrow> json \<Rightarrow> read_task \<Rightarrow> site \<Rightarrow> json option \<times> site" where
  "enqueue_plain device i rt s =
     (case submit_read device i None rt s of
        (Inl e, s') \<Rightarrow> (Some (read_error i e), s')
      | (Inr _, s') \<Rightarrow> (None, s'))"

definition enqueue_opening ::
  "string \<Rightarrow> json \<Rightarrow> string \<Rightarrow> string \<Rightarrow> string option \<Rightarrow> site \<Rightarrow> json option \<times> site" where
  "enqueue_opening device i meth session target s =
     (if MAX_STREAMS \<le> length (rd_streams (si_reads s)) then (Some (read_error i ''stream-limit''), drop_pending s)
      else case jobs_reserve (si_jobs s) of
        (Inl e, j) \<Rightarrow> (Some (read_error i e), drop_pending (s\<lparr>si_jobs := j\<rparr>))
      | (Inr _, j) \<Rightarrow>
          (let n = rd_next_id (si_reads s); s1 = s\<lparr>si_jobs := j\<rparr>
           in case checked_add n 1 of
                None \<Rightarrow> (Some (read_error i ''stream-limit''), drop_pending (upd_jobs unreserve s1))
              | Some nxt \<Rightarrow>
                  (let s2 = put_stream n \<lparr>wt_session = session, wt_events = (meth = ''events.subscribe''),
                              wt_lease = None, wt_write = None\<rparr>
                         (upd_chan (stream_open n None) (upd_reads (\<lambda>r. r\<lparr>rd_next_id := nxt\<rparr>) s1))
                   in case submit_read device i (Some n) (read_task_of meth session target n) s2 of
                        (Inr _, s3) \<Rightarrow> (None, s3)
                      | (Inl e, s3) \<Rightarrow> (Some (read_error i e), upd_jobs unreserve (take_stream n s3)))))"

definition take_pending :: "site \<Rightarrow> site" where
  "take_pending = upd_reads (\<lambda>r. r\<lparr>rd_pending := rd_pending r - 1\<rparr>)"

definition enqueue_read ::
  "string \<Rightarrow> json \<Rightarrow> string \<Rightarrow> json \<Rightarrow> site \<Rightarrow> json option \<times> site" where
  "enqueue_read device i meth params s =
     (case read_params meth params of
        Inl e \<Rightarrow> (Some (read_error i e), s)
      | Inr (session, target) \<Rightarrow>
          (case (if meth = ''events.subscribe'' then subscribed session s else None) of
             Some (n, st) \<Rightarrow>
               if wt_lease st = None then (Some (read_error i ''busy''), s)
               else (Some (read_reply i (JObj [(''stream'', JNum (uint n)), (''subscribed'', JBool True)])), s)
           | None \<Rightarrow>
               if rd_pending (si_reads s) = 0 then (Some (read_error i ''busy''), s)
               else if meth = ''events.subscribe'' \<or> meth = ''terminal.observe''
               then enqueue_opening device i meth session target (take_pending s)
               else enqueue_plain device i (read_task_of meth session target 0) (take_pending s)))"

definition enqueue_push :: "ext \<Rightarrow> string \<Rightarrow> json \<Rightarrow> json \<Rightarrow> site \<Rightarrow> json option \<times> site" where
  "enqueue_push X device i params s =
     (if rd_pending (si_reads s) = 0 then (Some (read_error i ''busy''), s)
      else case push_subscribe X device params (gw_push (si_gateway s)) (gw_events (si_gateway s)) of
        (r, p, es) \<Rightarrow>
          (let s1 = s\<lparr>si_gateway := set_gw_events es ((si_gateway s)\<lparr>gw_push := p\<rparr>)\<rparr>
           in case r of
                Inl e \<Rightarrow> (Some (read_error i e), s1)
              | Inr request \<Rightarrow>
                  (None, upd_reads (\<lambda>r. r\<lparr>rd_waiting := rd_waiting r @ [(i, request)]\<rparr>) (take_pending s1))))"

definition git_window ::
  "(nat \<Rightarrow> timestamp) \<Rightarrow> string \<Rightarrow> string \<Rightarrow> git_request \<Rightarrow> site \<Rightarrow> site" where
  "git_window nows device meth req s =
     (case window_due (gr_session req) (gr_workspace_id req) (nows 0) (rd_git_reads (si_reads s)) of
        (due, m) \<Rightarrow>
          (let s1 = upd_reads (\<lambda>r. r\<lparr>rd_git_reads := m\<rparr>) s
           in if due then upd_audit (git_read device (rd_peer_id (si_reads s)) (gr_session req) (gr_workspace_id req) meth (nows 1)) s1
              else s1))"

definition enqueue_git ::
  "(nat \<Rightarrow> timestamp) \<Rightarrow> string \<Rightarrow> json \<Rightarrow> string \<Rightarrow> json \<Rightarrow> site \<Rightarrow> json option \<times> site" where
  "enqueue_git nows device i meth params s =
     (case git_parse meth params of
        Inl e \<Rightarrow> (Some (read_error i e), s)
      | Inr req \<Rightarrow>
          (case spaces_get (gw_spaces (si_gateway s)) (gr_session req) (gr_workspace_id req) of
             Inl e \<Rightarrow> (Some (read_error i e), s)
           | Inr sp \<Rightarrow>
               if rd_pending (si_reads s) = 0 then (Some (read_error i ''busy''), s)
               else (case submit_read device i None (ReadGit req sp (nows 0)) (take_pending s) of
                       (Inl e, s') \<Rightarrow> (Some (read_error i e), s')
                     | (Inr _, s') \<Rightarrow> (None, git_window (later 1 nows) device meth req s'))))"

definition enqueue ::
  "ext \<Rightarrow> (nat \<Rightarrow> timestamp) \<Rightarrow> string \<Rightarrow> json \<Rightarrow> string \<Rightarrow> json \<Rightarrow> site \<Rightarrow> json option \<times> site" where
  "enqueue X nows device i meth params s =
     (if meth = ''stream.close'' then close_stream nows i params s
      else if meth = ''push.subscribe'' then enqueue_push X device i params s
      else if is_git meth then enqueue_git nows device i meth params s
      else enqueue_read device i meth params s)"

definition read_call ::
  "ext \<Rightarrow> (nat \<Rightarrow> timestamp) \<Rightarrow> auth_context \<Rightarrow> json \<Rightarrow> string \<Rightarrow> json \<Rightarrow> site \<Rightarrow> (unit + json option) \<times> site" where
  "read_call X nows ctx i meth params s =
     (case site_authorized ctx View nows (enqueue X (later 3 nows) (cx_device_id ctx) i meth params) s of
        (Inl _, s') \<Rightarrow> (Inl (), s')
      | (Inr v, s') \<Rightarrow> (Inr v, s'))"

section \<open>Submitting writes\<close>

text \<open>Control streams of the session, when the next write opens a full session there.\<close>

definition opening_full :: "work \<Rightarrow> site \<Rightarrow> wire_stream option" where
  "opening_full w s =
     (case Option.bind (wk_stream w) (\<lambda>i. get_stream i s) of
        None \<Rightarrow> None
      | Some st \<Rightarrow> if wt_lease st = None \<and> write_scope st = Some Full then Some st else None)"

definition displaced :: "work \<Rightarrow> site \<Rightarrow> u32 list" where
  "displaced w s =
     (case opening_full w s of
        None \<Rightarrow> []
      | Some full \<Rightarrow>
          map fst (filter (\<lambda>(i, st). wt_session st = wt_session full \<and> write_scope st = Some Control)
            (rd_streams (si_reads s))))"

definition set_lease :: "u32 \<Rightarrow> lease option \<Rightarrow> site \<Rightarrow> site" where
  "set_lease i l s = (case get_stream i s of None \<Rightarrow> s | Some st \<Rightarrow> put_stream i (st\<lparr>wt_lease := l\<rparr>) s)"

definition taken_leases :: "u32 list \<Rightarrow> site \<Rightarrow> (u32 \<times> lease) list" where
  "taken_leases ids s =
     List.map_filter (\<lambda>i. Option.bind (get_stream i s) (\<lambda>st. map_option (Pair i) (wt_lease st))) ids"

definition take_leases :: "u32 list \<Rightarrow> site \<Rightarrow> site" where
  "take_leases ids = fold (\<lambda>i. set_lease i None) ids"

definition return_leases :: "(u32 \<times> lease) list \<Rightarrow> site \<Rightarrow> site" where
  "return_leases ls = fold (\<lambda>(i, l). set_lease i (Some l)) ls"

fun displace_each :: "(nat \<Rightarrow> timestamp) \<Rightarrow> u32 list \<Rightarrow> site \<Rightarrow> site" where
  "displace_each nows [] s = s"
| "displace_each nows (i # rest) s =
     (let st = get_stream i s;
          s1 = discard_write_stream nows i (upd_chan (stream_close ''full-opened'' i) (take_stream i s));
          s2 = (case st of None \<Rightarrow> s1 | Some st \<Rightarrow> drop_stream (later 96 nows) i st s1)
      in displace_each (later 100 nows) rest s2)"

definition started_write :: "work \<Rightarrow> job \<Rightarrow> lease list \<Rightarrow> timestamp \<Rightarrow> site \<Rightarrow> site" where
  "started_write w job ls until =
     upd_reads (\<lambda>r. r\<lparr>rd_active := True,
       rd_watchdog := Some \<lparr>wd_until = until, wd_id = wk_id w, wd_stream = wk_stream w, wd_audit = wk_audit w\<rparr>,
       rd_active_write := Some (pending_of w),
       rd_running := rd_running r @ [\<lparr>ru_job = job, ru_task = WriteTask w ls, ru_id = wk_id w, ru_stream = wk_stream w\<rparr>]\<rparr>)"

definition unopened :: "(nat \<Rightarrow> timestamp) \<Rightarrow> u32 option \<Rightarrow> site \<Rightarrow> site" where
  "unopened nows i s =
     (case i of
        None \<Rightarrow> s
      | Some n \<Rightarrow>
          (case get_stream n s of
             None \<Rightarrow> s
           | Some st \<Rightarrow> if wt_lease st = None then remove_stream nows n s else s))"

definition pump_work :: "(nat \<Rightarrow> timestamp) \<Rightarrow> work \<Rightarrow> site \<Rightarrow> json list \<times> site" where
  "pump_work nows w s =
     (let ids = displaced w s; ls = taken_leases ids s; s1 = take_leases ids s;
          until = after (nows 0) (from_secs 10)
      in case submit_device (wk_device w) True (si_jobs s1) of
           (Inr job, j) \<Rightarrow>
             (map (\<lambda>i. stream_closed_event (i, ''full-opened'')) ids,
              started_write w job (map snd ls) until (displace_each (later 1 nows) ids (s1\<lparr>si_jobs := j\<rparr>)))
         | (Inl e, j) \<Rightarrow>
             ([write_error (wk_id w) (wk_stream w) e],
              unopened (later 1 nows) (wk_stream w)
                (return_leases ls (upd_jobs (drop_run (wk_run w)) (s1\<lparr>si_jobs := j\<rparr>)))))"

definition pump_writes :: "(nat \<Rightarrow> timestamp) \<Rightarrow> site \<Rightarrow> json list \<times> site" where
  "pump_writes nows s =
     (if rd_active (si_reads s) then ([], s)
      else case rd_queue (si_reads s) of
        [] \<Rightarrow> ([], s)
      | w # q \<Rightarrow> pump_work nows w (upd_reads (\<lambda>r. r\<lparr>rd_queue := q\<rparr>) s))"

section \<open>Completions\<close>

definition finished :: "reads \<Rightarrow> bool \<times> reads" where
  "finished r = (rd_stalled r, r\<lparr>rd_active := False, rd_watchdog := None, rd_active_write := None, rd_stalled := False\<rparr>)"

definition failure_json :: "completion \<Rightarrow> string \<Rightarrow> json" where
  "failure_json c code' =
     (if co_write c then write_error (co_id c) (co_stream c) code' else read_error (co_id c) code')"

text \<open>
  A write stream opens with the announcement its open has reserved; only an open of a write stream
  reserves one.
\<close>

definition announce_open :: "u32 \<Rightarrow> json \<Rightarrow> bool \<Rightarrow> site \<Rightarrow> site" where
  "announce_open i v held s =
     (case Option.bind (get_stream i s) wt_write of
        None \<Rightarrow> drop_announcement held s
      | Some w \<Rightarrow>
          (let a = (ws_audit w)\<lparr>ad_target := json_as_str (json_index v ''target'')\<rparr>
           in upd_write i (\<lambda>w. w\<lparr>ws_audit := a, ws_announced := True\<rparr>)
                (upd_audit (announce a (ws_takeover w)) s)))"

definition finish_opened :: "completion \<Rightarrow> lease \<Rightarrow> json \<Rightarrow> bool \<Rightarrow> site \<Rightarrow> json list \<times> site" where
  "finish_opened c l v held s =
     (case co_stream c of
        None \<Rightarrow> ([failure_json c ''stream-closed''], drop_output (Inr (OutOpened l v held)) s)
      | Some i \<Rightarrow>
          (case get_stream i s of
             None \<Rightarrow> ([failure_json c ''stream-closed''], drop_output (Inr (OutOpened l v held)) s)
           | Some st \<Rightarrow>
               (let s1 = set_lease i (Some l) s
                in case closed_with i s1 of
                     Some reason \<Rightarrow> ([failure_json c reason], drop_announcement held s1)
                   | None \<Rightarrow> ([read_reply (co_id c) v], upd_chan (stream_ready i) (announce_open i v held s1)))))"

definition finish_failed :: "(nat \<Rightarrow> timestamp) \<Rightarrow> completion \<Rightarrow> string \<Rightarrow> site \<Rightarrow> site" where
  "finish_failed nows c code' s =
     (case co_stream c of
        None \<Rightarrow> s
      | Some i \<Rightarrow>
          (case get_stream i s of
             None \<Rightarrow> s
           | Some st \<Rightarrow>
               if \<not> co_write c \<or> wt_lease st = None
               then remove_stream nows i (upd_chan (stream_close code' i) s)
               else if code' = ''stream-stalled'' then upd_chan (stream_close code' i) s
               else s))"

definition finish_result :: "'w env \<Rightarrow> (nat \<Rightarrow> timestamp) \<Rightarrow> completion \<Rightarrow> site \<Rightarrow> json list \<times> site" where
  "finish_result V nows c s =
     (if \<not> life_active (rd_chan (si_reads s)) then ([], drop_output (co_result c) s)
      else case co_result c of
        Inr (OutOpened l v held) \<Rightarrow> finish_opened c l v held s
      | Inr (OutValue v) \<Rightarrow>
          (if length (en_S V v) > INLINE_BYTES then [failure_json c ''payload-too-large''] else [read_reply (co_id c) v], s)
      | Inr (OutSnapshot v) \<Rightarrow> (snapshot_replies (en_S V) (en_E V) (co_id c) v, s)
      | Inl code' \<Rightarrow> ([failure_json c code'], finish_failed nows c code' s))"

definition finish_call :: "'w env \<Rightarrow> (nat \<Rightarrow> timestamp) \<Rightarrow> completion \<Rightarrow> site \<Rightarrow> json list \<times> site" where
  "finish_call V nows c s =
     (if co_write c then
        (case finished (si_reads s) of
           (late, r) \<Rightarrow>
             if late then ([], drop_output (co_result c) (s\<lparr>si_reads := r\<rparr>))
             else finish_result V nows c (s\<lparr>si_reads := r\<rparr>))
      else finish_result V nows c s)"

text \<open>
  A job runs, gives back its permits and delivers its result; a connection that has gone drops it.
  The pending permit of a read returns when its result is taken.
\<close>

definition run_task ::
  "'w env \<Rightarrow> (nat \<Rightarrow> timestamp) \<Rightarrow> bytes option \<Rightarrow> running \<Rightarrow> site \<times> 'w \<Rightarrow> (string + job_output) \<times> site \<times> 'w" where
  "run_task V nows random ru sw =
     (case ru_task ru of
        ReadTask rt \<Rightarrow> run_read V nows random (jo_device (ru_job ru)) rt sw
      | WriteTask w ls \<Rightarrow> write_job V nows w ls sw)"

definition is_write_task :: "task \<Rightarrow> bool" where
  "is_write_task t = (case t of WriteTask _ _ \<Rightarrow> True | _ \<Rightarrow> False)"

definition complete ::
  "'w env \<Rightarrow> (nat \<Rightarrow> timestamp) \<Rightarrow> bytes option \<Rightarrow> running \<Rightarrow> site \<times> 'w \<Rightarrow> json list \<times> site \<times> 'w" where
  "complete V nows random ru sw =
     (let s0 = upd_reads (\<lambda>r. r\<lparr>rd_running := remove1 ru (rd_running r)\<rparr>) (fst sw)
      in case run_task V nows random ru (s0, snd sw) of
           (r, (s1, w)) \<Rightarrow>
             (let s2 = upd_jobs (job_done (ru_job ru)) s1;
                  wr = is_write_task (ru_task ru);
                  s3 = (if wr then s2 else drop_pending s2)
              in if rd_gone (si_reads s3) then ([], (drop_output r s3, w))
                 else (case finish_call V (later 100 nows)
                         \<lparr>co_id = ru_id ru, co_stream = ru_stream ru, co_result = r, co_write = wr\<rparr> s3 of
                         (vs, s4) \<Rightarrow> (vs, (s4, w)))))"

definition confirm :: "'w env \<Rightarrow> (nat \<Rightarrow> timestamp) \<Rightarrow> json \<times> u64 \<Rightarrow> site \<Rightarrow> json list \<times> site" where
  "confirm V nows pw s =
     (case push_reply (snd pw) (gw_push (si_gateway s)) of
        (r, p) \<Rightarrow>
          (let s1 = drop_pending (upd_reads (\<lambda>r. r\<lparr>rd_waiting := remove1 pw (rd_waiting r)\<rparr>)
                      (s\<lparr>si_gateway := (si_gateway s)\<lparr>gw_push := p\<rparr>\<rparr>))
           in finish_call V nows \<lparr>co_id = fst pw, co_stream = None, co_result = map_sum id OutValue r, co_write = False\<rparr> s1))"

section \<open>Time\<close>

text \<open>The write that runs for ten seconds is answered, and its stream closes.\<close>

definition stall_answer :: "(nat \<Rightarrow> timestamp) \<Rightarrow> watchdog \<Rightarrow> site \<Rightarrow> json \<times> site" where
  "stall_answer nows wd s =
     (case rd_active_write (si_reads s) of
        Some p \<Rightarrow> cancel_write (nows 0) (nows 1) p (upd_reads (\<lambda>r. r\<lparr>rd_active_write := None\<rparr>) s)
      | None \<Rightarrow> (write_error (wd_id wd) (wd_stream wd) ''stream-stalled'', s))"

definition stall_stream :: "(nat \<Rightarrow> timestamp) \<Rightarrow> u32 option \<Rightarrow> site \<Rightarrow> site" where
  "stall_stream nows i s =
     (case i of
        None \<Rightarrow> s
      | Some n \<Rightarrow>
          (let s1 = (if get_stream n s = None then s else upd_chan (stream_close ''stream-stalled'' n) s)
           in case get_stream n s1 of
                None \<Rightarrow> s1
              | Some st \<Rightarrow>
                  if wt_lease st = None then discard_write_stream (later 4 nows) n (remove_stream nows n s1) else s1))"

definition stall :: "(nat \<Rightarrow> timestamp) \<Rightarrow> watchdog \<Rightarrow> site \<Rightarrow> site" where
  "stall nows wd s =
     (let s1 = upd_reads (\<lambda>r. r\<lparr>rd_watchdog := None, rd_stalled := True, rd_stalled_stream := wd_stream wd\<rparr>) s;
          s2 = upd_audit (stalled (wd_audit wd) ''write'' (nows 0) (nows 1)) s1;
          s3 = stall_stream (later 2 nows) (wd_stream wd) s2
      in case stall_answer (later 50 nows) wd s3 of
           (v, s4) \<Rightarrow> upd_reads (\<lambda>r. r\<lparr>rd_answers := rd_answers r @ [v]\<rparr>) s4)"

definition stream_deadline :: "u32 \<Rightarrow> site \<Rightarrow> timestamp option" where
  "stream_deadline i s = Option.bind (hm_get (cn_states (rd_chan (si_reads s))) i) sm_deadline"

definition tick_stream :: "(nat \<Rightarrow> timestamp) \<Rightarrow> u32 \<Rightarrow> site \<Rightarrow> site" where
  "tick_stream nows i s =
     (case Option.bind (get_stream i s) wt_write of
        None \<Rightarrow> s
      | Some w \<Rightarrow>
          (let s1 = (case stream_deadline i s of
                       None \<Rightarrow> s
                     | Some until \<Rightarrow> if until \<le> nows 0 then upd_chan (stream_close ''elevation-expired'' i) s else s)
           in case ws_flush False (nows 1) (nows 2) w (si_audit s1) of
                (w', st) \<Rightarrow> set_audit st (upd_write i (\<lambda>_. w') s1)))"

fun tick_each :: "(nat \<Rightarrow> timestamp) \<Rightarrow> u32 list \<Rightarrow> site \<Rightarrow> site" where
  "tick_each nows [] s = s"
| "tick_each nows (i # rest) s = tick_each (later 3 nows) rest (tick_stream nows i s)"

definition write_tick :: "(nat \<Rightarrow> timestamp) \<Rightarrow> site \<Rightarrow> json list \<times> site" where
  "write_tick nows s =
     (let s1 = (case rd_watchdog (si_reads s) of
                  None \<Rightarrow> s
                | Some wd \<Rightarrow> if wd_until wd \<le> nows 0 then stall (later 1 nows) wd s else s)
      in closed (later 200 nows) (tick_each (later 100 nows) (map fst (rd_streams (si_reads s1))) s1))"

definition stream_wakeup :: "u32 \<Rightarrow> wire_stream \<Rightarrow> site \<Rightarrow> timestamp option" where
  "stream_wakeup i st s =
     (case (wt_write st, stream_deadline i s) of
        (Some w, Some ends) \<Rightarrow>
          if closed_with i s = None
          then Some (case ws_bucket w of None \<Rightarrow> ends | Some b \<Rightarrow> min ends (bk_until b)) else None
      | _ \<Rightarrow> None)"

definition next_wakeup :: "timestamp \<Rightarrow> site \<Rightarrow> timestamp" where
  "next_wakeup now s =
     (case List.map_filter (\<lambda>(i, st). stream_wakeup i st s) (rd_streams (si_reads s))
             @ (case rd_watchdog (si_reads s) of None \<Rightarrow> [] | Some wd \<Rightarrow> [wd_until wd]) of
        [] \<Rightarrow> after now (from_secs 3600)
      | t # ts \<Rightarrow> foldl min t ts)"

section \<open>The end\<close>

text \<open>Dropping \<open>Reads\<close>: what is left in the table and the queue is dropped, running jobs are orphaned.\<close>

fun drop_each :: "(nat \<Rightarrow> timestamp) \<Rightarrow> (u32 \<times> wire_stream) list \<Rightarrow> site \<Rightarrow> site" where
  "drop_each nows [] s = s"
| "drop_each nows ((i, st) # m) s = drop_each (later 4 nows) m (drop_stream nows i st s)"

definition drop_reads :: "(nat \<Rightarrow> timestamp) \<Rightarrow> site \<Rightarrow> site" where
  "drop_reads nows s =
     (let s1 = upd_chan (\<lambda>c. c\<lparr>cn_alive := False\<rparr>) s;
          s2 = drop_each nows (rd_streams (si_reads s1)) (upd_reads (\<lambda>r. r\<lparr>rd_streams := []\<rparr>) s1);
          s3 = upd_jobs (fold (\<lambda>w. drop_run (wk_run w)) (rd_queue (si_reads s2))) s2
      in upd_reads (\<lambda>r. r\<lparr>rd_queue := [], rd_gone := True\<rparr>) s3)"

definition hang_up :: "(nat \<Rightarrow> timestamp) \<Rightarrow> string \<Rightarrow> site \<Rightarrow> json list \<times> site" where
  "hang_up nows reason s =
     (case cancel_writes nows reason s of (vs, s1) \<Rightarrow> (vs, drop_reads (later 100 nows) s1))"

section \<open>One text or binary frame\<close>

definition error_code :: "json \<Rightarrow> json" where
  "error_code v = json_index (json_index v ''error'') ''code''"

text \<open>The dispatch of \<open>drive\<close>: \<open>Inl\<close> closes the connection, \<open>Inr (Some v)\<close> is a reply to queue.\<close>

definition route ::
  "'w env \<Rightarrow> (nat \<Rightarrow> timestamp) \<Rightarrow> auth_context \<Rightarrow> json \<Rightarrow> call \<Rightarrow> site \<Rightarrow> ((close + json option) \<times> site) option" where
  "route V nows ctx v c s =
     (if is_read (ca_method c) \<and> error_code v = JStr ''not-implemented''
      then Some (map_prod (map_sum (\<lambda>_. CLOSE_INVALID) id) id
             (read_call (en_X V) nows ctx (ca_id c) (ca_method c) (ca_params c) s))
      else if is_write (ca_method c) \<and> error_code v \<noteq> JStr ''invalid-request''
      then map_option (map_prod (map_sum (\<lambda>_. CLOSE_INVALID) id) id)
             (write_call (en_D V) nows ctx (ca_id c) (ca_method c) (ca_params c) s)
      else Some (Inr (Some v), s))"

definition on_text ::
  "'w env \<Rightarrow> (nat \<Rightarrow> timestamp) \<Rightarrow> auth_context \<Rightarrow> string \<Rightarrow> site \<Rightarrow> ((close + json option) \<times> site) option" where
  "on_text V nows ctx text s =
     (case rpc (en_X V) (en_J V) (en_T V) ctx nows text (si_gateway s) of
        (Inl e, g) \<Rightarrow> Some (Inl e, s\<lparr>si_gateway := g\<rparr>)
      | (Inr v, g) \<Rightarrow>
          (case parse_json (en_J V) call_of text of
             None \<Rightarrow> Some (Inr (Some v), s\<lparr>si_gateway := g\<rparr>)
           | Some c \<Rightarrow> route V (later 20 nows) ctx v c (s\<lparr>si_gateway := g\<rparr>)))"

definition INVALID_INPUT_STREAM :: close where "INVALID_INPUT_STREAM = (1003, ''invalid-input-stream'')"

definition on_frame ::
  "'w env \<Rightarrow> (nat \<Rightarrow> timestamp) \<Rightarrow> auth_context \<Rightarrow> message \<Rightarrow> site \<Rightarrow> ((close + json option) \<times> site) option" where
  "on_frame V nows ctx m s =
     (case m of
        MPing _ \<Rightarrow> Some (Inr None, s)
      | _ \<Rightarrow>
          (case touch ctx View nows (si_gateway s) of
             (Inl _, g) \<Rightarrow> Some (Inl CLOSE_INVALID, s\<lparr>si_gateway := g\<rparr>)
           | (Inr _, g) \<Rightarrow>
               (case m of
                  MText text \<Rightarrow> on_text V (later 3 nows) ctx text (s\<lparr>si_gateway := g\<rparr>)
                | MBinary bs \<Rightarrow>
                    map_option (map_prod (map_sum (\<lambda>_. INVALID_INPUT_STREAM) id) id)
                      (binary_call (en_E V) (en_D V) (later 3 nows) ctx bs (s\<lparr>si_gateway := g\<rparr>))
                | MPing _ \<Rightarrow> Some (Inr None, s))))"

end
