(* ===== verification/Method_Table.thy ===== *)
theory Method_Table
  imports Peer_Jobs Gateway_Demo
begin

text \<open>
  The method table of \<open>companion/src/bridge.rs\<close> against the dispatch of its calls: what
  \<open>rpc_decision\<close> answers itself, what it leaves to \<open>read_call\<close> and \<open>write_call\<close>, and what it does not know.
\<close>

lemma method_find_iff: "method_find n \<noteq> None \<longleftrightarrow> n \<in> set (map me_name METHODS)"
  by (auto simp: method_find_def find_None_iff)

lemma method_find_name: "method_find n = Some m \<Longrightarrow> me_name m = n \<and> m \<in> set METHODS"
  by (auto simp: method_find_def find_Some_iff)

lemma method_names_all: "map me_name METHODS =
    [''hello'', ''session.ping'', ''sessions.list'', ''snapshot.get'', ''events.subscribe'', ''terminal.observe'',
     ''stream.close'', ''push.subscribe'', ''push.unsubscribe'', ''push.status'', ''git.status'', ''git.branches'',
     ''git.log'', ''git.commit'', ''git.diff'', ''terminal.control'', ''terminal.input'', ''terminal.scroll'',
     ''terminal.release'', ''agent.prompt'', ''pane.sendKeys'', ''full.open'', ''full.input'', ''full.resize'', ''full.close'']"
  by (simp add: METHODS_def)

text \<open>The methods that the two bridges take are the table's, less the four that the dispatch answers.\<close>

lemma bridged_iff:
  "is_read n \<or> is_write n \<longleftrightarrow>
   method_find n \<noteq> None \<and> n \<notin> {''hello'', ''session.ping'', ''push.unsubscribe'', ''push.status''}"
proof -
  have "list_all (\<lambda>n. (is_read n \<or> is_write n) \<noteq> (n \<in> {''hello'', ''session.ping'', ''push.unsubscribe'', ''push.status''}))
      (map me_name METHODS)"
    by code_simp
  moreover have "n \<in> set (map me_name METHODS)" if "is_read n \<or> is_write n"
    using that unfolding method_names_all is_read_def is_write_def is_git_def
    by (simp only: list.set insert_iff empty_iff simp_thms disj_ac) argo
  ultimately show ?thesis unfolding method_find_iff list_all_iff by blast
qed

lemma method_scopes: "pred_option (\<lambda>m. me_scope m = (if is_write n then method_scope n else View)) (method_find n)"
proof (cases "method_find n")
  case (Some m)
  have "list_all (\<lambda>m. me_scope m = (if is_write (me_name m) then method_scope (me_name m) else View)) METHODS"
    by code_simp
  then show ?thesis using method_find_name [OF Some] Some by (auto simp: list_all_iff)
qed simp

lemma one_bridge: "\<not> (is_read n \<and> is_write n)"
proof
  assume rw: "is_read n \<and> is_write n"
  have "list_all (\<lambda>n. \<not> (is_read n \<and> is_write n)) (map me_name METHODS)" by code_simp
  then show False using rw bridged_iff [of n] unfolding method_find_iff list_all_iff by blast
qed

text \<open>The codes of \<open>Push::call\<close> are not the dispatch's.\<close>

lemma endpoint_codes:
  "status_endpoint params = Inl e \<Longrightarrow> e = ''invalid-params''" "unsubscribe_endpoint params = Inl e \<Longrightarrow> e = ''invalid-params''"
proof -
  have p: "endpoint_param v = Inl e \<Longrightarrow> e = ''invalid-params''" for v
    by (auto simp: endpoint_param_def split: json.splits option.splits if_splits)
  then have m: "map_sum id Some (endpoint_param v) = Inl e \<Longrightarrow> e = ''invalid-params''" for v
    by (cases "endpoint_param v") simp_all
  show "status_endpoint params = Inl e \<Longrightarrow> e = ''invalid-params''"
    by (auto simp: status_endpoint_def split: json.splits option.splits if_splits dest: m)
  show "unsubscribe_endpoint params = Inl e \<Longrightarrow> e = ''invalid-params''"
    by (auto simp: unsubscribe_endpoint_def split: json.splits option.splits if_splits dest: p)
qed

lemma push_codes:
  assumes "push_call X device n params p es = (Inl e, es')" "n = ''push.unsubscribe'' \<or> n = ''push.status''"
  shows "e \<noteq> ''unknown-method'' \<and> e \<noteq> ''not-implemented''"
proof -
  have "e \<in> {''invalid-params'', ''push-unavailable'', ''busy''}"
    using assms
    by (auto simp: push_call_def split: if_splits sum.splits option.splits bool.splits prod.splits dest: endpoint_codes)
  then show ?thesis by auto
qed

lemma code_error: "error_code (rpc_error i c m) = JStr c"
  by (simp add: error_code_def rpc_error_def json_index_def json_get_def)

lemma code_reply: "error_code (read_reply i v) = JNull"
  by (simp add: error_code_def read_reply_def json_index_def json_get_def)

lemma decision_cases:
  fixes X T device now c g
  defines "r \<equiv> rpc_decision X T device now c g"
  obtains (unknown) "method_find (ca_method c) = None" "error_code (fst r) = JStr ''unknown-method''" "snd r = g"
    | (own) "ca_method c \<in> {''hello'', ''session.ping'', ''push.unsubscribe'', ''push.status''}"
        "method_find (ca_method c) \<noteq> None"
        "error_code (fst r) \<noteq> JStr ''unknown-method''" "error_code (fst r) \<noteq> JStr ''not-implemented''"
    | (left) "ca_method c \<notin> {''hello'', ''session.ping'', ''push.unsubscribe'', ''push.status''}"
        "method_find (ca_method c) \<noteq> None" "error_code (fst r) = JStr ''not-implemented''" "snd r = g"
proof (cases "method_find (ca_method c)")
  case None
  then show ?thesis using unknown by (simp add: r_def rpc_decision_def code_error)
next
  case (Some m)
  then have n: "map_option me_name (method_find (ca_method c)) = Some (ca_method c)"
    using method_find_name by simp
  show ?thesis
  proof (cases "ca_method c \<in> {''push.unsubscribe'', ''push.status''}")
    case True
    obtain v es where p: "push_call X device (ca_method c) (ca_params c) (gw_push g) (gw_events g) = (v, es)" by force
    have r: "r = (case v of Inr v' \<Rightarrow> (read_reply (ca_id c) v', set_gw_events es g)
        | Inl e \<Rightarrow> (rpc_error (ca_id c) e e, set_gw_events es g))"
      using True unfolding r_def rpc_decision_def n Let_def p by auto
    show ?thesis
      by (rule own) (use True Some push_codes [of X device "ca_method c"] p r in
        \<open>auto simp: code_error code_reply split: sum.splits\<close>)
  next
    case False
    then have r: "r = (if ca_method c = ''hello''
        then (read_reply (ca_id c) (JObj [(''protocolVersion'', JNum 1), (''serverTime'', T now)]), g)
        else if ca_method c = ''session.ping'' then (read_reply (ca_id c) (JObj [(''serverTime'', T now)]), g)
        else (rpc_error (ca_id c) ''not-implemented'' ''Not implemented'', g))"
      unfolding r_def rpc_decision_def n Let_def by simp
    show ?thesis
    proof (cases "ca_method c \<in> {''hello'', ''session.ping''}")
      case True
      show ?thesis by (rule own) (use True Some r in \<open>auto simp: code_reply\<close>)
    next
      case h: False
      show ?thesis by (rule left) (use h False Some r in \<open>auto simp: code_error\<close>)
    qed
  qed
qed

text \<open>
  C27: The method table and the dispatch agree, for every call on every gateway: the dispatch calls a
  method unknown exactly when the table has no such entry, and leaves it to the bridges exactly when one
  of them takes it, and never to both; neither answer changes the gateway. An entry of a write has the
  scope that the handler of the write asks for, every other entry that of viewing; and the capabilities
  report the methods of the table in its order, without those of push and Git.
\<close>

theorem method_table_agrees:
  "(error_code (fst (rpc_decision X T device now c g)) = JStr ''unknown-method'') = (method_find (ca_method c) = None)
   \<and> (error_code (fst (rpc_decision X T device now c g)) = JStr ''not-implemented'')
       = (is_read (ca_method c) \<or> is_write (ca_method c))
   \<and> \<not> (is_read (ca_method c) \<and> is_write (ca_method c))
   \<and> (method_find (ca_method c) = None \<or> is_read (ca_method c) \<or> is_write (ca_method c) \<longrightarrow>
        snd (rpc_decision X T device now c g) = g)
   \<and> pred_option (\<lambda>m. me_scope m = (if is_write (ca_method c) then method_scope (ca_method c) else View))
       (method_find (ca_method c))
   \<and> method_names = filter (\<lambda>n. \<not> starts_with n ''push.'' \<and> \<not> starts_with n ''git.'') (map me_name METHODS)"
proof -
  have names: "method_names = filter (\<lambda>n. \<not> starts_with n ''push.'' \<and> \<not> starts_with n ''git.'') (map me_name METHODS)"
    by code_simp
  show ?thesis
    by (cases rule: decision_cases [of c X T device now g])
      (use names method_scopes [of "ca_method c"] one_bridge [of "ca_method c"] bridged_iff [of "ca_method c"] in auto)
qed

text \<open>A status of a repository is left to the bridge of the reads, a ping is answered, another name is unknown.\<close>

definition desk_call :: "string \<Rightarrow> call" where
  "desk_call n = \<lparr>ca_id = JNum 1, ca_method = n, ca_params = JNull\<rparr>"

theorem method_table_agrees_witness:
  "rpc_decision demo_ext JNum ''d'' 7 (desk_call ''git.status'') desk_start
     = (rpc_error (JNum 1) ''not-implemented'' ''Not implemented'', desk_start)
   \<and> error_code (fst (rpc_decision demo_ext JNum ''d'' 7 (desk_call ''session.ping'') desk_start)) = JNull
   \<and> error_code (fst (rpc_decision demo_ext JNum ''d'' 7 (desk_call ''session.pong'') desk_start)) = JStr ''unknown-method''"
proof -
  have git: "is_read ''git.status''" "\<not> is_read ''session.pong''" "\<not> is_write ''session.pong''"
    "method_find ''session.pong'' = None" by code_simp+
  have "snd (rpc_decision demo_ext JNum ''d'' 7 (desk_call ''git.status'') desk_start) = desk_start"
    using method_table_agrees [of demo_ext JNum "''d''" 7 "desk_call ''git.status''" desk_start] git(1)
    by (simp add: desk_call_def)
  moreover have "fst (rpc_decision demo_ext JNum ''d'' 7 (desk_call ''git.status'') desk_start)
      = rpc_error (JNum 1) ''not-implemented'' ''Not implemented''"
    by (simp add: rpc_decision_def desk_call_def method_find_def METHODS_def Let_def)
  moreover have "error_code (fst (rpc_decision demo_ext JNum ''d'' 7 (desk_call ''session.ping'') desk_start)) = JNull"
    by (simp add: rpc_decision_def desk_call_def method_find_def METHODS_def Let_def code_reply)
  moreover have "error_code (fst (rpc_decision demo_ext JNum ''d'' 7 (desk_call ''session.pong'') desk_start)) = JStr ''unknown-method''"
    using method_table_agrees [of demo_ext JNum "''d''" 7 "desk_call ''session.pong''" desk_start] git(4)
    by (simp add: desk_call_def)
  ultimately show ?thesis by (simp add: prod_eq_iff)
qed

end
