(* ===== verification/Peer_Props.thy ===== *)
theory Peer_Props
  imports Peer_Jobs Streams_Props Jobs_Props Gateway_Props "HOL-Library.Sublist"
begin

text \<open>
  Correctness of the connection of a phone, \<open>Peer\<close> and \<open>Peer_Jobs\<close>: the table of its streams, its write
  queue and its pending reads stay within their bounds in every state the operations reach, and the
  channel underneath only takes steps of \<open>Streams\<close>.
\<close>

section \<open>Selectors\<close>

lemma reads_simps [simp]:
  "si_reads (upd_reads f s) = f (si_reads s)"
  "si_reads (upd_chan g s) = (si_reads s)\<lparr>rd_chan := g (rd_chan (si_reads s))\<rparr>"
  "si_reads (upd_jobs h s) = si_reads s" "si_reads (upd_audit k s) = si_reads s" "si_reads (set_audit a s) = si_reads s"
  "si_reads (set_identity idt s) = si_reads s"
  by (simp_all add: upd_reads_def upd_chan_def upd_jobs_def upd_audit_def set_audit_def set_identity_def)

lemma gateway_simps [simp]:
  "si_gateway (upd_reads f s) = si_gateway s" "si_gateway (upd_chan g s) = si_gateway s"
  "si_gateway (upd_jobs h s) = si_gateway s"
  "si_gateway (upd_audit k s) = (si_gateway s)\<lparr>gw_audit := k (gw_audit (si_gateway s))\<rparr>"
  by (simp_all add: upd_reads_def upd_chan_def upd_jobs_def upd_audit_def)

lemma jobs_simps [simp]:
  "si_jobs (upd_reads f s) = si_jobs s" "si_jobs (upd_chan g s) = si_jobs s" "si_jobs (upd_audit k s) = si_jobs s"
  "si_jobs (upd_jobs h s) = h (si_jobs s)" "si_jobs (set_audit a s) = si_jobs s" "si_jobs (set_identity idt s) = si_jobs s"
  by (simp_all add: upd_reads_def upd_chan_def upd_jobs_def upd_audit_def set_audit_def set_identity_def)

lemma hm_keys_update: "hm_get m k \<noteq> None \<Longrightarrow> map fst (hm_insert k v m) = map fst m"
  by (induction m) auto

lemma hm_keys_insert: "map fst (hm_insert k v m) = (if hm_get m k = None then map fst m @ [k] else map fst m)"
  by (induction m) auto

lemma hm_keys_remove: "map fst (hm_remove k m) = filter (\<lambda>j. j \<noteq> k) (map fst m)"
  by (simp add: hm_remove_def filter_map comp_def)

lemma state_keys [simp]:
  "map fst (cn_states (update_state i f c)) = map fst (cn_states c)"
  "map fst (cn_states (stream_close reason i c)) = map fst (cn_states c)"
  "map fst (cn_states (stream_ready i c)) = map fst (cn_states c)"
  by (simp_all add: update_state_def stream_close_def stream_ready_def hm_keys_update split: option.splits)

section \<open>Changes that only lose streams and writes\<close>

definition stream_keys :: "site \<Rightarrow> u32 list" where
  "stream_keys s = map fst (rd_streams (si_reads s))"

definition cell_keys :: "site \<Rightarrow> u32 list" where
  "cell_keys s = map fst (cn_states (rd_chan (si_reads s)))"

abbreviation chan_steps :: "chan \<Rightarrow> chan \<Rightarrow> bool" where
  "chan_steps \<equiv> chan_step\<^sup>*\<^sup>*"

text \<open>The parts of a connection that such a change keeps.\<close>

definition kept :: "reads \<Rightarrow> reads \<Rightarrow> bool" where
  "kept r r' \<longleftrightarrow>
     rd_next_id r' = rd_next_id r \<and> rd_pending r' = rd_pending r \<and> rd_running r' = rd_running r
     \<and> rd_waiting r' = rd_waiting r \<and> rd_active r' = rd_active r \<and> rd_gone r' = rd_gone r
     \<and> (rd_active_write r' \<noteq> None \<longrightarrow> rd_active_write r \<noteq> None)"

definition calm :: "site \<Rightarrow> site \<Rightarrow> bool" where
  "calm s s' \<longleftrightarrow>
     subseq (stream_keys s') (stream_keys s) \<and> subseq (rd_queue (si_reads s')) (rd_queue (si_reads s))
     \<and> kept (si_reads s) (si_reads s') \<and> cell_keys s' = cell_keys s
     \<and> chan_steps (rd_chan (si_reads s)) (rd_chan (si_reads s'))"

named_theorems calms

lemma calm_refl [simp, calms]: "calm s s"
  by (simp add: calm_def kept_def)

lemma calm_trans: "calm s1 s2 \<Longrightarrow> calm s2 s3 \<Longrightarrow> calm s1 s3"
  unfolding calm_def kept_def by (auto intro: subseq_order.trans)

lemma calm_same: "si_reads s' = si_reads s \<Longrightarrow> calm s s'"
  by (simp add: calm_def kept_def stream_keys_def cell_keys_def)

lemma calm_outside [calms]:
  "calm s (upd_jobs h s)" "calm s (upd_audit k s)" "calm s (set_audit a s)" "calm s (set_identity idt s)"
  "calm s (s\<lparr>si_jobs := j\<rparr>)" "calm s (s\<lparr>si_gateway := g\<rparr>)" "calm s (s\<lparr>si_cursors := cs, si_detected := d\<rparr>)"
  by (rule calm_same, simp)+

lemma calm_close [calms]: "calm s (upd_chan (stream_close reason i) s)"
  using chan_step.step_close [of "rd_chan (si_reads s)" reason i]
  by (auto simp: calm_def kept_def stream_keys_def cell_keys_def)

lemma calm_ready [calms]: "calm s (upd_chan (stream_ready i) s)"
  using chan_step.step_ready [of "rd_chan (si_reads s)" i]
  by (auto simp: calm_def kept_def stream_keys_def cell_keys_def)

lemma calm_end [calms]: "calm s (upd_chan (\<lambda>c. c\<lparr>cn_alive := False\<rparr>) s)"
  using chan_step.step_end [of "rd_chan (si_reads s)"]
  by (auto simp: calm_def kept_def stream_keys_def cell_keys_def)

lemma calm_take [calms]: "calm s (take_stream i s)"
  by (auto simp: calm_def kept_def stream_keys_def cell_keys_def take_stream_def hm_keys_remove)

lemma calm_put: "get_stream i s \<noteq> None \<Longrightarrow> calm s (put_stream i st s)"
  by (auto simp: calm_def kept_def stream_keys_def cell_keys_def put_stream_def get_stream_def hm_keys_update)

lemma calm_upd_write [calms]: "calm s (upd_write i f s)"
  by (auto simp: upd_write_def intro: calm_put split: option.splits)

lemma calm_set_lease [calms]: "calm s (set_lease i l s)"
  by (auto simp: set_lease_def intro: calm_put split: option.splits)

lemma calm_fields [calms]:
  "calm s (upd_reads (\<lambda>r. r\<lparr>rd_answers := f r\<rparr>) s)" "calm s (upd_reads (\<lambda>r. r\<lparr>rd_cancelled := g r\<rparr>) s)"
  "calm s (upd_reads (\<lambda>r. r\<lparr>rd_started := g r\<rparr>) s)" "calm s (upd_reads (\<lambda>r. r\<lparr>rd_active_write := None\<rparr>) s)"
  "calm s (upd_reads (\<lambda>r. r\<lparr>rd_rejected := rj\<rparr>) s)" "calm s (upd_reads (\<lambda>r. r\<lparr>rd_git_reads := m\<rparr>) s)"
  "calm s (upd_reads (\<lambda>r. r\<lparr>rd_queue := filter P (rd_queue r)\<rparr>) s)" "calm s (upd_reads (\<lambda>r. r\<lparr>rd_queue := []\<rparr>) s)"
  "calm s (upd_reads (\<lambda>r. r\<lparr>rd_watchdog := None, rd_stalled := b, rd_stalled_stream := i\<rparr>) s)"
  by (simp_all add: calm_def kept_def stream_keys_def cell_keys_def)

section \<open>The helpers are calm\<close>

lemma calm_then: "calm s (f s) \<Longrightarrow> (\<And>t. calm t (g t)) \<Longrightarrow> calm s (g (f s))"
  by (blast intro: calm_trans)

lemma calm_drop_lease [calms]: "calm s (drop_lease l s)"
  by (auto simp: drop_lease_def intro: calms split: option.splits)

lemma calm_drop_write [calms]: "calm s (drop_write nows i w s)"
  by (auto simp: drop_write_def Let_def intro: calms calm_trans [OF calm_close] split: option.splits)

lemma calm_drop_stream [calms]: "calm s (drop_stream nows i st s)"
  unfolding drop_stream_def by (rule calm_trans [OF calm_drop_lease calm_drop_write])

lemma calm_remove_stream [calms]: "calm s (remove_stream nows i s)"
  by (auto simp: remove_stream_def intro: calms calm_trans [OF calm_take calm_drop_stream] split: option.splits)

lemma calm_drop_announcement [calms]: "calm s (drop_announcement held s)"
  by (auto simp: drop_announcement_def intro: calms)

lemma calm_drop_output [calms]: "calm s (drop_output r s)"
  by (auto simp: drop_output_def intro: calms calm_trans [OF calm_drop_lease calm_drop_announcement]
      split: sum.splits job_output.splits)

lemma calm_cancel_write [calms]: "calm s (snd (cancel_write t1 t2 p s))"
  unfolding cancel_write_def Let_def snd_conv by (rule calm_trans [OF calm_fields(2) calm_outside(2)])

lemma calm_cancel_works [calms]: "calm s (snd (cancel_works nows ws s))"
proof (induction ws arbitrary: nows s)
  case (Cons w ws)
  obtain v s1 where c: "cancel_write (nows 0) (nows 1) (pending_of w) s = (v, s1)"
    by (cases "cancel_write (nows 0) (nows 1) (pending_of w) s")
  let ?s2 = "upd_jobs (drop_run (wk_run w)) s1"
  have "calm s s1" using calm_cancel_write [of s "nows 0" "nows 1" "pending_of w"] c by simp
  then have "calm s ?s2" by (rule calm_trans [OF _ calm_outside(1)])
  then have "calm s (snd (cancel_works (later 2 nows) ws ?s2))" by (rule calm_trans [OF _ Cons])
  then show ?case using c by (simp add: case_prod_beta)
qed simp

lemma calm_discard [calms]: "calm s (discard_write_stream nows i s)"
proof -
  let ?q = "rd_queue (si_reads s)"
  let ?s1 = "upd_reads (\<lambda>r. r\<lparr>rd_queue := filter (\<lambda>w. wk_stream w \<noteq> Some i) ?q\<rparr>) s"
  have "calm s ?s1" by (simp add: calm_def kept_def stream_keys_def cell_keys_def)
  moreover have "calm ?s1 (snd (cancel_works nows (filter (\<lambda>w. wk_stream w = Some i) ?q) ?s1))" by (rule calms)
  ultimately have c: "calm s (snd (cancel_works nows (filter (\<lambda>w. wk_stream w = Some i) ?q) ?s1))" by (rule calm_trans)
  show ?thesis unfolding discard_write_stream_def Let_def case_prod_beta by (rule calm_trans [OF c calm_fields(1)])
qed

lemma calm_fold: "(\<And>x s. calm s (f x s)) \<Longrightarrow> calm s (fold f xs s)"
  by (induction xs arbitrary: s) (auto intro: calm_trans)

lemma calm_close_all [calms]: "calm s (close_all reason s)"
  unfolding close_all_def by (rule calm_fold) (auto intro: calms split: prod.splits)

lemma calm_close_each [calms]: "calm s (close_each nows cs s)"
proof (induction nows cs s rule: close_each.induct)
  case (2 nows i reason cs s)
  then show ?case using calm_trans calm_remove_stream calm_discard by (metis close_each.simps(2))
qed simp

lemma calm_closed [calms]: "calm s (snd (closed nows s))"
  by (simp add: closed_def Let_def calms)

section \<open>Jobs are calm\<close>

definition calm_seq :: "(site \<times> 'w, 'a) seq \<Rightarrow> bool" where
  "calm_seq m \<longleftrightarrow> (\<forall>sw. calm (fst sw) (fst (snd (m sw))))"

named_theorems seqs

lemma calm_seqD: "calm_seq m \<Longrightarrow> m (s, w) = (r, (s', w')) \<Longrightarrow> calm s s'"
  unfolding calm_seq_def by (metis fst_conv snd_conv)

lemma calm_and_then [seqs]: "calm_seq m \<Longrightarrow> (\<And>x. calm_seq (f x)) \<Longrightarrow> calm_seq (and_then m f)"
  unfolding calm_seq_def and_then_def by (auto split: prod.splits sum.splits) (metis calm_trans fst_conv snd_conv)+

lemma calm_on_error [seqs]: "(\<And>s. calm s (f s)) \<Longrightarrow> calm_seq m \<Longrightarrow> calm_seq (on_error f m)"
  unfolding calm_seq_def on_error_def by (auto split: prod.splits sum.splits) (metis calm_trans fst_conv snd_conv)+

lemma calm_pure [seqs]: "calm_seq (give x)" "calm_seq (pass r)" "calm_seq (need e ok)" "calm_seq (host f)"
  by (auto simp: calm_seq_def give_def pass_def need_def host_def split: prod.splits)

lemma calm_change [seqs]: "(\<And>s. calm s (f s)) \<Longrightarrow> calm_seq (change f)"
  by (simp add: calm_seq_def change_def)

lemma calm_desk [seqs]: "(\<And>s. calm s (snd (f s))) \<Longrightarrow> calm_seq (desk f)"
  unfolding calm_seq_def desk_def by (simp add: case_prod_beta)

lemma calm_validity [seqs]: "calm_seq (validity_check nows w)" "calm_seq (validity_start nows w)"
  by (auto simp: validity_start_def validity_check_def mark_started_def intro!: seqs calms)

lemma calm_audit [seqs]: "calm_seq (audit_admit a action' summary t)" "calm_seq (announce_later a)"
  by (auto simp: audit_admit_def announce_later_def intro!: seqs split: prod.splits intro: calms)

lemma calm_active [seqs]: "calm_seq (task_active now i)"
  unfolding task_active_def by (rule seqs)

lemma calm_open_bucket [calms]: "calm s (open_bucket now i s)"
  by (auto simp: open_bucket_def intro: calms calm_trans [OF calm_outside(2) calm_upd_write] split: prod.splits bool.splits)

lemma calm_if [seqs]: "calm_seq m \<Longrightarrow> calm_seq m' \<Longrightarrow> calm_seq (\<lambda>sw. if P sw then m sw else m' sw)"
  by (simp add: calm_seq_def)

lemma calm_count_input [seqs]: "calm_seq (count_input nows w i n)"
  unfolding count_input_def by (intro seqs calms)

lemma calm_run_agent [seqs]: "calm_seq (run_agent R nows w session target summary send)"
  unfolding run_agent_def by (intro seqs)

lemma calm_run_op [seqs]: "calm_seq (run_op P nows w i resource op)"
  unfolding run_op_def op_audit_def by (cases op; simp; intro seqs)

lemma calm_drop_permits [calms]: "calm s (upd_jobs (drop_run r) s)" "calm s (upd_jobs unreserve s)"
  by (rule calms)+

lemma calm_set_leased [calms]: "calm s (set_leased i b s)"
  unfolding set_leased_def by (rule calms)

lemma calm_open_geometry [seqs]: "calm_seq (open_geometry P ow)"
  unfolding open_geometry_def by (auto intro!: seqs split: option.splits)

lemma calm_open_call [seqs]: "calm_seq (open_call P ow td)"
  unfolding open_call_def by (intro seqs calms)

lemma calm_open_lease [seqs]: "calm_seq (open_lease T nows w ow td resource)"
  unfolding open_lease_def Let_def by (intro seqs calms)

lemma calm_open_start [seqs]: "calm_seq (open_start P nows w ow a td)"
  unfolding open_start_def by (intro seqs calms)

lemma calm_run_open [seqs]: "calm_seq (run_open T R nows w ow)"
  unfolding run_open_def Let_def by (intro seqs calms calm_and_then) (auto intro!: seqs calms split: prod.splits)

lemma calm_run_write [seqs]: "calm_seq (run_write V nows w)"
  unfolding run_write_def by (cases "wk_run w"; simp; intro seqs)

lemma calm_release_leases: "calm s (fst (release_leases P ls (s, w)))"
proof (induction ls arbitrary: s w)
  case (Cons l ls)
  obtain j w' where r: "release_now P l (si_jobs s) w = (j, w')" by (cases "release_now P l (si_jobs s) w")
  show ?case using calm_trans [OF calm_outside(5) Cons [of "s\<lparr>si_jobs := j\<rparr>" w']] r by simp
qed simp

lemma calm_reject [calms]: "calm s (reject_audit a t1 t2 s)"
  unfolding reject_audit_def
  by (auto intro: calm_trans [OF calm_fields(5) calm_outside(3)] split: prod.splits)

lemma calm_write_job: "write_job V nows w ls (s, v) = (r, (s', v')) \<Longrightarrow> calm s s'"
  unfolding write_job_def
proof (cases "release_leases (hr_port (en_reads V)) ls (s, v)")
  case (Pair s1 v1)
  assume e: "(case run_write V nows w (release_leases (hr_port (en_reads V)) ls (s, v)) of
         (Inr x, sw') \<Rightarrow> (Inr x, sw')
       | (Inl e, (s, w')) \<Rightarrow> (Inl (explain_code w s e), (reject_audit (wk_audit w) (nows 50) (nows 51) s, w'))) = (r, (s', v'))"
  obtain r2 s2 v2 where rw: "run_write V nows w (s1, v1) = (r2, (s2, v2))" by (cases "run_write V nows w (s1, v1)") auto
  have "calm s s1" using calm_release_leases [of s "hr_port (en_reads V)" ls v] Pair by simp
  then have c: "calm s s2" using calm_seqD [OF calm_run_write rw] calm_trans by blast
  show "calm s s'"
    using e Pair rw c calm_trans [OF c calm_reject] by (cases r2) auto
qed

lemma calm_stale [seqs]: "calm_seq (stale_hint S now P session panes i)"
proof -
  have "chan_step c (snd (sink_stale S now session i c))" for c
    by (cases "sink_stale S now session i c") (auto intro: chan_step.step_stale)
  moreover have "map fst (cn_states (snd (sink_stale S now session i c))) = map fst (cn_states c)" for c
    by (auto simp: sink_stale_def sink_send_def take_permits_def drop_frame_def set_out_def Let_def split: option.splits if_splits)
  ultimately have "calm s (upd_chan (\<lambda>c. snd (sink_stale S now session i c)) s)" for s
    by (auto simp: calm_def kept_def stream_keys_def cell_keys_def)
  then show ?thesis by (auto simp: calm_seq_def stale_hint_def split: prod.splits sum.splits)
qed

lemma calm_attach [seqs]: "calm_seq (attach_lease resource v)"
  unfolding attach_lease_def Let_def by (intro seqs calms)

lemma calm_observe [seqs]: "calm_seq (run_observe R nows session target i)"
  unfolding run_observe_def by (intro calm_and_then calm_on_error) (auto intro!: seqs calms split: prod.splits)

lemma calm_events [seqs]: "calm_seq (run_events S R nows session i)"
  unfolding run_events_def by (intro seqs calms)

lemma calm_snapshot [seqs]: "calm_seq (run_snapshot S R session)"
proof -
  have "calm_seq (\<lambda>sw. (Inr (f sw), sw))" for f :: "site \<times> 'a \<Rightarrow> job_output" by (simp add: calm_seq_def)
  then show ?thesis unfolding run_snapshot_def by (intro seqs)
qed

lemma calm_git [seqs]: "calm_seq (run_git V random req sp device t)"
  unfolding run_git_def by (intro seqs) (auto simp: calm_seq_def intro: calms split: option.splits prod.splits)

lemma calm_run_read [seqs]: "calm_seq (run_read V nows random device rt)"
  unfolding run_read_def run_sessions_def by (cases rt; simp only: read_task.case; intro seqs)

lemma calm_run_task: "run_task V nows random ru (s, v) = (r, (s', v')) \<Longrightarrow> calm s s'"
  unfolding run_task_def by (cases "ru_task ru") (auto intro: calm_write_job calm_seqD [OF calm_run_read])


section \<open>The invariant\<close>

definition reads_running_now :: "reads \<Rightarrow> nat" where
  "reads_running_now r = length (filter (\<lambda>ru. \<not> is_write_task (ru_task ru)) (rd_running r))"

definition writes_running :: "reads \<Rightarrow> nat" where
  "writes_running r = length (filter (\<lambda>ru. is_write_task (ru_task ru)) (rd_running r))"

text \<open>The numbers of the streams: distinct, each with its cell, and all below the next number.\<close>

definition table_inv :: "site \<Rightarrow> bool" where
  "table_inv s \<longleftrightarrow>
     distinct (stream_keys s) \<and> length (stream_keys s) \<le> MAX_STREAMS \<and> set (stream_keys s) \<subseteq> set (cell_keys s)
     \<and> (\<forall>i \<in> set (cell_keys s). 0 < i \<and> i < rd_next_id (si_reads s)) \<and> 0 < rd_next_id (si_reads s)
     \<and> chan_reach (rd_chan (si_reads s))"

definition calls_inv :: "reads \<Rightarrow> bool" where
  "calls_inv r \<longleftrightarrow>
     rd_pending r + reads_running_now r + length (rd_waiting r) = 2
     \<and> (\<not> rd_gone r \<longrightarrow> writes_running r = of_bool (rd_active r))
     \<and> (rd_active_write r \<noteq> None \<longrightarrow> rd_active r)"

definition wire_inv :: "site \<Rightarrow> bool" where
  "wire_inv s \<longleftrightarrow> table_inv s \<and> calls_inv (si_reads s) \<and> length (rd_queue (si_reads s)) \<le> WRITE_QUEUE"

lemma chan_reach_steps: "chan_steps c c' \<Longrightarrow> chan_reach c \<Longrightarrow> chan_reach c'"
  by (induction rule: rtranclp_induct) (auto intro: chan_reach.chan_more)

lemma subseq_set: "subseq xs ys \<Longrightarrow> set xs \<subseteq> set ys"
  by (auto elim!: list_emb_set)

lemma subseq_distinct: "subseq xs ys \<Longrightarrow> distinct ys \<Longrightarrow> distinct xs"
  by (induction rule: list_emb.induct) (auto dest: subseq_set)

lemma table_inv_calm: "calm s s' \<Longrightarrow> table_inv s \<Longrightarrow> table_inv s'"
  unfolding table_inv_def calm_def kept_def
  using subseq_set [of "stream_keys s'" "stream_keys s"] list_emb_length [of "(=)" "stream_keys s'" "stream_keys s"]
    subseq_distinct [of "stream_keys s'" "stream_keys s"] chan_reach_steps by auto

lemma calls_inv_kept: "kept r r' \<Longrightarrow> calls_inv r \<Longrightarrow> calls_inv r'"
  by (simp add: calls_inv_def kept_def reads_running_now_def writes_running_def)

lemma wire_inv_calm: "calm s s' \<Longrightarrow> wire_inv s \<Longrightarrow> wire_inv s'"
  using table_inv_calm [of s s'] calls_inv_kept [of "si_reads s" "si_reads s'"]
    list_emb_length [of "(=)" "rd_queue (si_reads s')" "rd_queue (si_reads s)"]
  by (auto simp: wire_inv_def calm_def)

lemma wire_inv_same: "si_reads s' = si_reads s \<Longrightarrow> wire_inv s' = wire_inv s"
  by (simp add: wire_inv_def table_inv_def stream_keys_def cell_keys_def)

lemma wire_inv_new: "si_reads s = reads_new peer \<Longrightarrow> wire_inv s"
  by (simp add: wire_inv_def table_inv_def stream_keys_def cell_keys_def reads_new_def calls_inv_def chan_new_def
      reads_running_now_def writes_running_def chan_reach.chan_start [unfolded chan_new_def])

section \<open>Operations keep it\<close>

text \<open>A new stream takes the next number, which no cell has.\<close>

lemma table_inv_open:
  assumes "table_inv s" "length (stream_keys s) < MAX_STREAMS" "checked_add (rd_next_id (si_reads s)) 1 = Some nxt"
    "si_reads s1 = (si_reads s)\<lparr>rd_next_id := nxt, rd_queue := q, rd_next_no := no\<rparr>"
  shows "table_inv (put_stream (rd_next_id (si_reads s)) st (upd_chan (stream_open (rd_next_id (si_reads s)) d) s1))"
proof -
  let ?n = "rd_next_id (si_reads s)"
  have lt: "?n < nxt"
    using unat_checked_add [OF assms(3)] by (simp add: word_less_nat_alt)
  have new: "?n \<notin> set (cell_keys s)" using assms(1) by (auto simp: table_inv_def)
  then have none: "hm_get (cn_states (rd_chan (si_reads s))) ?n = None"
    by (simp add: hm_get_None_iff cell_keys_def)
  have new': "?n \<notin> set (stream_keys s)" using new assms(1) by (auto simp: table_inv_def)
  then have none': "hm_get (rd_streams (si_reads s)) ?n = None" by (simp add: hm_get_None_iff stream_keys_def)
  have step: "chan_reach (stream_open ?n d (rd_chan (si_reads s)))"
    using chan_reach.chan_more [OF _ chan_step.step_open [OF none]] assms(1) by (simp add: table_inv_def)
  show ?thesis
    using assms new new' none none' step lt
    by (auto simp: table_inv_def stream_keys_def cell_keys_def put_stream_def stream_open_def hm_keys_insert)
qed


lemma table_inv_next:
  assumes "table_inv s" "checked_add (rd_next_id (si_reads s)) 1 = Some nxt"
    "si_reads s1 = (si_reads s)\<lparr>rd_next_id := nxt, rd_queue := q, rd_next_no := no\<rparr>"
  shows "table_inv s1"
proof -
  have "rd_next_id (si_reads s) < nxt" using unat_checked_add [OF assms(2)] by (simp add: word_less_nat_alt)
  then show ?thesis using assms by (auto simp: table_inv_def stream_keys_def cell_keys_def)
qed

lemma send_work_cases:
  assumes "send_work w s = (r, s')"
  obtains (sent) "r = Inr None" "length (rd_queue (si_reads s)) < WRITE_QUEUE"
      "s' = upd_reads (\<lambda>r. r\<lparr>rd_queue := rd_queue r @ [w], rd_next_no := rd_next_no r + 1\<rparr>) s"
    | (full) "r = Inl ''busy''" "s' = upd_jobs (drop_run (wk_run w)) s"
  using assms by (auto simp: send_work_def split: if_splits)

lemma wire_inv_send: "send_work w s = (r, s') \<Longrightarrow> wire_inv s \<Longrightarrow> wire_inv s'"
  by (erule send_work_cases)
    (auto simp: wire_inv_def table_inv_def stream_keys_def cell_keys_def calls_inv_def reads_running_now_def writes_running_def)

lemma new_audit_reads: "new_audit ctx scope session target s = Some (a, s') \<Longrightarrow> si_reads s' = si_reads s"
  by (auto simp: new_audit_def split: option.splits)

lemma admit_close_calm: "admit_close nows i meth params s = Some (r, s') \<Longrightarrow> calm s s'"
  by (auto simp: admit_close_def refuse_def split: sum.splits option.splits if_splits
      intro: calm_trans [OF calm_close calm_trans [OF calm_remove_stream calm_discard]])

lemma admit_open_inv:
  assumes "admit_open ctx i meth params until fresh s = Some (r, s')" "wire_inv s"
  shows "wire_inv s'"
proof -
  have early: ?thesis if "si_reads s' = si_reads s" using wire_inv_same [OF that] assms(2) by simp
  show ?thesis
  proof (cases "pending_for (as_deferred (si_audit s)) (cx_device_id ctx) \<or> MAX_STREAMS \<le> length (rd_streams (si_reads s))")
    case True
    then show ?thesis using assms(1) early by (auto simp: admit_open_def refuse_def split: if_splits)
  next
    case False
    show ?thesis
    proof (cases "open_params meth params")
      case (Inl e)
      then show ?thesis using assms(1) early False by (auto simp: admit_open_def refuse_def)
    next
      case (Inr p)
      obtain session target dims takeover where p: "p = (session, target, dims, takeover)" by (cases p) auto
      define full where "full = (if method_scope meth = Full then Some (cx_device_id ctx) else None)"
      obtain pr j where op: "open_permits full (si_jobs s) = (pr, j)" by (cases "open_permits full (si_jobs s)")
      show ?thesis
      proof (cases "isl pr \<or> checked_add (rd_next_id (si_reads s)) 1 = None")
        case True
        then have "si_reads s' = si_reads s"
          using assms(1) False Inr p op
          by (auto simp: admit_open_def refuse_def full_def [symmetric] Let_def split: sum.splits option.splits)
        then show ?thesis by (rule early)
      next
        case False2: False
        then obtain nxt where nxt: "checked_add (rd_next_id (si_reads s)) 1 = Some nxt" "pr = Inr ()"
          by (cases pr) auto
        let ?s1 = "upd_reads (\<lambda>r. r\<lparr>rd_next_id := nxt\<rparr>) (s\<lparr>si_jobs := j\<rparr>)"
        let ?n = "rd_next_id (si_reads s)"
        obtain a s2 where na: "new_audit ctx (method_scope meth) session target ?s1 = Some (a, s2)"
          using assms(1) False Inr p op nxt
          by (auto simp: admit_open_def full_def [symmetric] Let_def split: option.splits)
        have r2: "si_reads s2 = (si_reads s)\<lparr>rd_next_id := nxt\<rparr>" using new_audit_reads [OF na] by simp
        obtain w sr s3 st where sw: "send_work w s2 = (sr, s3)"
            "s' = (if isl sr then s3 else open_stream ?n until st s3)"
          using assms(1) False Inr p op nxt na
          by (auto simp: admit_open_def refuse_def full_def [symmetric] Let_def split: prod.splits sum.splits)
        from sw(1) show ?thesis
        proof (cases rule: send_work_cases)
          case sent
          have r3: "si_reads s3 = (si_reads s)\<lparr>rd_next_id := nxt, rd_queue := rd_queue (si_reads s) @ [w],
              rd_next_no := rd_next_no (si_reads s) + 1\<rparr>"
            using sent r2 by simp
          have "table_inv s'"
            using table_inv_open [OF _ _ nxt(1) r3] assms(2) False sw(2) sent
            by (simp add: wire_inv_def open_stream_def stream_keys_def)
          moreover have "length (rd_queue (si_reads s')) \<le> WRITE_QUEUE" "calls_inv (si_reads s')"
            using assms(2) sent(1,2) r2 r3 sw(2)
            by (simp_all add: wire_inv_def open_stream_def put_stream_def calls_inv_def reads_running_now_def writes_running_def)
          ultimately show ?thesis by (simp add: wire_inv_def)
        next
          case full
          then have "si_reads s' = (si_reads s)\<lparr>rd_next_id := nxt, rd_queue := rd_queue (si_reads s),
              rd_next_no := rd_next_no (si_reads s)\<rparr>"
            using r2 sw(2) by simp
          with table_inv_next [OF _ nxt(1) this] show ?thesis
            using assms(2) by (auto simp: wire_inv_def calls_inv_def reads_running_now_def writes_running_def)
        qed
      qed
    qed
  qed
qed

lemma admit_agent_inv: "admit_agent ctx i meth params until s = Some (r, s') \<Longrightarrow> wire_inv s \<Longrightarrow> wire_inv s'"
  unfolding admit_agent_def refuse_def
  by (auto split: sum.splits prod.splits option.splits)
    (metis new_audit_reads wire_inv_same wire_inv_send)

lemma admit_op_inv: "admit_op D ctx i meth params until s = (r, s') \<Longrightarrow> wire_inv s \<Longrightarrow> wire_inv s'"
  unfolding admit_op_def
  by (auto split: sum.splits prod.splits option.splits if_splits intro: wire_inv_send)

lemma admit_write_cases:
  assumes "admit_write D nows ctx i meth params until fresh s = Some (r, s')"
  obtains (closing) "is_tightening meth" "admit_close nows i meth params s = Some (r, s')"
    | (refused) e where "r = Inl e" "s' = s"
    | (open_new) "\<not> is_tightening meth" "admit_open ctx i meth params until fresh s = Some (r, s')"
    | (agent) "\<not> is_tightening meth" "admit_agent ctx i meth params until s = Some (r, s')"
    | (op) "\<not> is_tightening meth" "admit_op D ctx i meth params until s = (r, s')"
  using assms unfolding admit_write_def refuse_def by (simp split: if_split_asm) blast+

lemma admit_write_inv:
  assumes "admit_write D nows ctx i meth params until fresh s = Some (r, s')" "wire_inv s"
  shows "wire_inv s'"
  using assms(1)
proof (cases rule: admit_write_cases)
  case closing
  then show ?thesis using wire_inv_calm [OF admit_close_calm] assms(2) by blast
next
  case (refused e)
  then show ?thesis using assms(2) by simp
next
  case open_new
  then show ?thesis using admit_open_inv assms(2) by blast
next
  case agent
  then show ?thesis using admit_agent_inv assms(2) by blast
next
  case op
  then show ?thesis using admit_op_inv assms(2) by blast
qed

lemma site_authorized_cases:
  assumes "site_authorized ctx scope nows act s = (r, s')"
  obtains (refused) f where "r = Inl f" "si_reads s' = si_reads s"
    | (ran) x idt s1 where "r = Inr x" "act (set_identity idt s) = (x, s1)" "si_reads s' = si_reads s1"
proof -
  let ?run = "\<lambda>idt s. case act (set_identity idt s) of (x, s') \<Rightarrow> (x, gw_identity (si_gateway s'), s')"
  obtain r0 idt' s2 where w: "with_authorized (gw_rp_id (si_gateway s)) ctx scope nows ?run (gw_identity (si_gateway s)) s = (r0, idt', s2)"
    by (cases "with_authorized (gw_rp_id (si_gateway s)) ctx scope nows ?run (gw_identity (si_gateway s)) s")
  have eq: "r = r0" "s' = set_identity idt' s2" using assms w by (auto simp: site_authorized_def)
  from w show ?thesis
  proof (cases rule: with_authorized_cases [where X = undefined])
    case (refused f)
    then show ?thesis using eq that(1) by simp
  next
    case (ran idt0 idt1 x)
    then show ?thesis using eq that(2) by (auto split: prod.splits)
  qed
qed

lemma write_admission_inv:
  "write_admission D nows ctx i meth params s = (Some r, s') \<Longrightarrow> wire_inv s \<Longrightarrow> wire_inv s'"
  by (auto simp: write_admission_def Let_def split: option.splits prod.splits if_splits intro: admit_write_inv)

lemma refuse_write_calm: "refuse_write ctx t1 t2 scope i code' s = Some (r, s') \<Longrightarrow> calm s s'"
proof -
  assume "refuse_write ctx t1 t2 scope i code' s = Some (r, s')"
  then obtain a s1 where "new_audit ctx scope [] None s = Some (a, s1)" "s' = reject_audit a t1 t2 s1"
    by (auto simp: refuse_write_def split: option.splits)
  then show ?thesis using calm_trans [OF calm_same calm_reject] new_audit_reads by metis
qed

lemma write_call_inv:
  assumes "write_call D nows ctx i meth params s = Some (r, s')" "wire_inv s"
  shows "wire_inv s'"
proof -
  let ?act = "write_admission D (later 3 nows) ctx i meth params"
  obtain r1 s1 where a: "site_authorized ctx (if is_tightening meth then View else method_scope meth) nows ?act s = (r1, s1)"
    by fastforce
  have inv: "wire_inv s1" if ne: "r1 \<noteq> Inr None"
    using a
  proof (cases rule: site_authorized_cases)
    case (refused f)
    then show ?thesis using assms(2) wire_inv_same by blast
  next
    case (ran x idt s2)
    obtain y where "x = Some y" using ne ran(1) by (cases x) auto
    then show ?thesis
      using write_admission_inv [of D "later 3 nows" ctx i meth params "set_identity idt s" y s2] ran assms(2)
        wire_inv_same [of "set_identity idt s" s] wire_inv_same [of s1 s2] by simp
  qed
  then show ?thesis
    using assms(1) a refuse_write_calm wire_inv_calm
    by (auto simp: write_call_def Let_def split: sum.splits option.splits if_splits) blast+
qed

lemma binary_call_inv: "binary_call E D nows ctx bs s = Some (r, s') \<Longrightarrow> wire_inv s \<Longrightarrow> wire_inv s'"
  by (auto simp: binary_call_def Let_def split: if_splits option.splits dest: write_call_inv)


text \<open>A pending permit is out while a read is being admitted.\<close>

definition owing :: "site \<Rightarrow> bool" where
  "owing s \<longleftrightarrow> wire_inv (drop_pending s)"

lemma owing_take: "rd_pending (si_reads s) \<noteq> 0 \<Longrightarrow> wire_inv s \<Longrightarrow> owing (take_pending s)"
  by (simp add: owing_def drop_pending_def take_pending_def wire_inv_def table_inv_def stream_keys_def cell_keys_def
      calls_inv_def reads_running_now_def writes_running_def)

lemma owing_drop: "owing s \<Longrightarrow> wire_inv (drop_pending s)"
  by (simp add: owing_def)

lemma owing_same: "si_reads s' = si_reads s \<Longrightarrow> owing s' = owing s"
  unfolding owing_def by (rule wire_inv_same) (simp add: drop_pending_def)

lemma table_inv_pending [simp]: "table_inv (drop_pending s) = table_inv s"
  by (simp add: table_inv_def drop_pending_def stream_keys_def cell_keys_def)

lemma owing_iff:
  "owing s \<longleftrightarrow> table_inv s \<and> calls_inv ((si_reads s)\<lparr>rd_pending := rd_pending (si_reads s) + 1\<rparr>)
     \<and> length (rd_queue (si_reads s)) \<le> WRITE_QUEUE"
  unfolding owing_def wire_inv_def by simp (simp add: drop_pending_def)

lemma submit_read_inv: "submit_read device i stream rt s = (r, s') \<Longrightarrow> owing s \<Longrightarrow> wire_inv s'"
proof (cases "submit_device device False (si_jobs s)")
  case (Pair q j)
  assume s: "submit_read device i stream rt s = (r, s')" and o: "owing s"
  show ?thesis
  proof (cases q)
    case (Inl e)
    then have "s' = drop_pending (s\<lparr>si_jobs := j\<rparr>)" using s Pair by (simp add: submit_read_def)
    then show ?thesis using owing_drop o owing_same [of "s\<lparr>si_jobs := j\<rparr>" s] by simp
  next
    case (Inr job)
    then have "si_reads s' = (si_reads s)\<lparr>rd_running := rd_running (si_reads s)
        @ [\<lparr>ru_job = job, ru_task = ReadTask rt, ru_id = i, ru_stream = stream\<rparr>]\<rparr>"
      using s Pair by (auto simp: submit_read_def)
    then show ?thesis
      using o by (simp add: owing_def drop_pending_def wire_inv_def table_inv_def stream_keys_def cell_keys_def
          calls_inv_def reads_running_now_def writes_running_def is_write_task_def)
  qed
qed

lemma enqueue_plain_inv: "enqueue_plain device i rt s = (v, s') \<Longrightarrow> owing s \<Longrightarrow> wire_inv s'"
  by (auto simp: enqueue_plain_def split: prod.splits sum.splits intro: submit_read_inv)

lemma enqueue_opening_inv:
  assumes "enqueue_opening device i meth session target s = (v, s')" "owing s"
  shows "wire_inv s'"
proof (cases "MAX_STREAMS \<le> length (rd_streams (si_reads s))")
  case True
  then show ?thesis using assms owing_drop by (auto simp: enqueue_opening_def)
next
  case False
  obtain jr j where jr: "jobs_reserve (si_jobs s) = (jr, j)" by (cases "jobs_reserve (si_jobs s)")
  have same: "wire_inv (drop_pending t)" if "si_reads t = si_reads s" for t
    using owing_same [OF that] owing_drop assms(2) by simp
  show ?thesis
  proof (cases "isl jr \<or> checked_add (rd_next_id (si_reads s)) 1 = None")
    case True
    then show ?thesis
      using assms(1) False jr same [of "s\<lparr>si_jobs := j\<rparr>"] same [of "upd_jobs unreserve (s\<lparr>si_jobs := j\<rparr>)"]
      by (auto simp: enqueue_opening_def Let_def split: sum.splits option.splits)
  next
    case ok: False
    then obtain nxt where nxt: "checked_add (rd_next_id (si_reads s)) 1 = Some nxt" by auto
    let ?n = "rd_next_id (si_reads s)"
    let ?s1 = "upd_reads (\<lambda>r. r\<lparr>rd_next_id := nxt\<rparr>) (s\<lparr>si_jobs := j\<rparr>)"
    let ?s2 = "put_stream ?n \<lparr>wt_session = session, wt_events = (meth = ''events.subscribe''), wt_lease = None,
        wt_write = None\<rparr> (upd_chan (stream_open ?n None) ?s1)"
    obtain sr s3 where sr: "submit_read device i (Some ?n) (read_task_of meth session target ?n) ?s2 = (sr, s3)"
      by fastforce
    have "table_inv s" using assms(2) by (simp add: owing_def wire_inv_def)
    then have t: "table_inv ?s2"
      using table_inv_open [OF _ _ nxt, where ?s1.0 = ?s1 and q = "rd_queue (si_reads s)" and no = "rd_next_no (si_reads s)"] False
      by (simp add: stream_keys_def)
    moreover have "calls_inv ((si_reads ?s2)\<lparr>rd_pending := rd_pending (si_reads ?s2) + 1\<rparr>)"
        "length (rd_queue (si_reads ?s2)) \<le> WRITE_QUEUE"
      using assms(2) by (simp_all add: owing_iff put_stream_def calls_inv_def reads_running_now_def writes_running_def)
    ultimately have "owing ?s2" by (simp add: owing_iff)
    then have "wire_inv s3" using submit_read_inv [OF sr] by simp
    then show ?thesis
      using assms(1) False jr nxt ok sr wire_inv_calm [OF calm_trans [OF calm_take calm_outside(1)]]
      by (auto simp: enqueue_opening_def Let_def split: sum.splits)
  qed
qed

lemma enqueue_read_inv:
  assumes "enqueue_read device i meth params s = (v, s')" "wire_inv s"
  shows "wire_inv s'"
proof (cases "read_params meth params")
  case (Inl e)
  then show ?thesis using assms by (simp add: enqueue_read_def)
next
  case (Inr p)
  obtain session target where p: "p = (session, target)" by (cases p)
  let ?open = "meth = ''events.subscribe'' \<or> meth = ''terminal.observe''"
  show ?thesis
  proof (cases "(if meth = ''events.subscribe'' then subscribed session s else None) = None \<and> rd_pending (si_reads s) \<noteq> 0")
    case False
    then have "s' = s" using assms(1) Inr p by (auto simp: enqueue_read_def split: option.splits if_split_asm prod.splits)
    then show ?thesis using assms(2) by simp
  next
    case True
    then have "(if ?open then enqueue_opening device i meth session target (take_pending s)
        else enqueue_plain device i (read_task_of meth session target 0) (take_pending s)) = (v, s')"
      using assms(1) Inr p by (simp add: enqueue_read_def)
    moreover have "owing (take_pending s)" by (rule owing_take [OF conjunct2 [OF True] assms(2)])
    ultimately show ?thesis
      using enqueue_opening_inv enqueue_plain_inv by (simp split: if_split_asm)
  qed
qed

lemma enqueue_push_reads:
  assumes "enqueue_push X device i params s = (v, s')"
  shows "si_reads s' = si_reads s \<or> rd_pending (si_reads s) \<noteq> 0 \<and> (\<exists>pw. si_reads s' = (si_reads s)
    \<lparr>rd_pending := rd_pending (si_reads s) - 1, rd_waiting := rd_waiting (si_reads s) @ [pw]\<rparr>)"
proof (cases "rd_pending (si_reads s) = 0")
  case True
  then show ?thesis using assms by (simp add: enqueue_push_def)
next
  case False
  obtain r p es where r: "push_subscribe X device params (gw_push (si_gateway s)) (gw_events (si_gateway s)) = (r, p, es)"
    by (cases "push_subscribe X device params (gw_push (si_gateway s)) (gw_events (si_gateway s))") auto
  show ?thesis
  proof (cases r)
    case (Inl e)
    then show ?thesis using assms False r by (auto simp: enqueue_push_def Let_def)
  next
    case (Inr q)
    then have "si_reads s' = (si_reads s)
        \<lparr>rd_pending := rd_pending (si_reads s) - 1, rd_waiting := rd_waiting (si_reads s) @ [(i, q)]\<rparr>"
      using assms False r by (auto simp: enqueue_push_def Let_def take_pending_def)
    then show ?thesis using False by blast
  qed
qed

lemma enqueue_push_inv: "enqueue_push X device i params s = (v, s') \<Longrightarrow> wire_inv s \<Longrightarrow> wire_inv s'"
  by (drule enqueue_push_reads, elim disjE conjE exE)
    (simp_all add: wire_inv_def table_inv_def stream_keys_def cell_keys_def calls_inv_def reads_running_now_def writes_running_def)

lemma calm_git_window: "calm s (git_window nows device meth req s)"
  unfolding git_window_def Let_def
  by (auto split: prod.splits intro: calms calm_trans [OF calm_fields(6) calm_outside(2)])

lemma enqueue_git_inv: "enqueue_git nows device i meth params s = (v, s') \<Longrightarrow> wire_inv s \<Longrightarrow> wire_inv s'"
  unfolding enqueue_git_def
  by (auto split: sum.splits prod.splits if_split_asm dest: submit_read_inv [OF _ owing_take]
      intro: wire_inv_calm [OF calm_git_window])

lemma close_stream_inv: "close_stream nows i params s = (v, s') \<Longrightarrow> wire_inv s \<Longrightarrow> wire_inv s'"
  unfolding close_stream_def
  by (auto split: option.splits if_split_asm dest: wire_inv_calm [OF calm_trans [OF calm_close calm_remove_stream]])

lemma enqueue_inv: "enqueue X nows device i meth params s = (v, s') \<Longrightarrow> wire_inv s \<Longrightarrow> wire_inv s'"
  unfolding enqueue_def
  by (metis close_stream_inv enqueue_push_inv enqueue_git_inv enqueue_read_inv)

lemma read_call_inv:
  assumes "read_call X nows ctx i meth params s = (r, s')" "wire_inv s"
  shows "wire_inv s'"
proof -
  obtain q where a: "site_authorized ctx View nows (enqueue X (later 3 nows) (cx_device_id ctx) i meth params) s = (q, s')"
    using assms(1) by (auto simp: read_call_def split: prod.splits sum.splits)
  then show ?thesis
  proof (cases rule: site_authorized_cases)
    case (refused f)
    then show ?thesis using assms(2) wire_inv_same by blast
  next
    case (ran x idt s1)
    then show ?thesis
      using enqueue_inv [OF ran(2)] assms(2) wire_inv_same [of "set_identity idt s" s] wire_inv_same [of s' s1] by simp
  qed
qed

section \<open>Submission, completion, time and the end\<close>

lemma calm_take_leases: "calm s (take_leases ids s)"
  unfolding take_leases_def by (rule calm_fold) (rule calms)

lemma calm_return_leases: "calm s (return_leases ls s)"
  unfolding return_leases_def by (rule calm_fold) (auto intro: calms split: prod.splits)

lemma calm_displace: "calm s (displace_each nows ids s)"
proof (induction nows ids s rule: displace_each.induct)
  case (2 nows i rest s)
  let ?s1 = "discard_write_stream nows i (upd_chan (stream_close ''full-opened'' i) (take_stream i s))"
  have c: "calm s ?s1" by (rule calm_trans [OF calm_trans [OF calm_take calm_close] calm_discard])
  then have "calm s (case get_stream i s of None \<Rightarrow> ?s1 | Some st \<Rightarrow> drop_stream (later 96 nows) i st ?s1)"
    using calm_trans [OF c calm_drop_stream] by (simp split: option.split)
  then show ?case using calm_trans [OF _ 2] by (simp add: Let_def)
qed simp

lemma calm_unopened: "calm s (unopened nows i s)"
  by (auto simp: unopened_def intro: calms split: option.splits)

lemma started_write_inv:
  assumes "wire_inv s" "\<not> rd_active (si_reads s)"
  shows "wire_inv (started_write w job ls until s)"
  using assms
  by (auto simp: started_write_def wire_inv_def table_inv_def stream_keys_def cell_keys_def calls_inv_def
      reads_running_now_def writes_running_def is_write_task_def)

lemma pump_work_inv:
  assumes "pump_work nows w s = (vs, s')" "wire_inv s" "\<not> rd_active (si_reads s)"
  shows "wire_inv s'"
proof -
  let ?ids = "displaced w s"
  let ?s1 = "take_leases ?ids s"
  obtain q j where q: "submit_device (wk_device w) True (si_jobs ?s1) = (q, j)"
    by (cases "submit_device (wk_device w) True (si_jobs ?s1)")
  have c: "calm s (?s1\<lparr>si_jobs := j\<rparr>)" by (rule calm_trans [OF calm_take_leases calm_outside(5)])
  show ?thesis
  proof (cases q)
    case (Inl e)
    then have "s' = unopened (later 1 nows) (wk_stream w)
        (return_leases (taken_leases ?ids s) (upd_jobs (drop_run (wk_run w)) (?s1\<lparr>si_jobs := j\<rparr>)))"
      using assms(1) q by (simp add: pump_work_def Let_def)
    then have "calm s s'"
      using calm_trans [OF calm_trans [OF calm_trans [OF c calm_outside(1)] calm_return_leases] calm_unopened] by simp
    then show ?thesis using wire_inv_calm assms(2) by blast
  next
    case (Inr job)
    let ?d = "displace_each (later 1 nows) ?ids (?s1\<lparr>si_jobs := j\<rparr>)"
    have d: "calm s ?d" by (rule calm_trans [OF c calm_displace])
    then have "\<not> rd_active (si_reads ?d)" using assms(3) by (simp add: calm_def kept_def)
    then show ?thesis
      using started_write_inv [OF wire_inv_calm [OF d assms(2)]] assms(1) q Inr by (auto simp: pump_work_def Let_def)
  qed
qed

lemma pump_writes_inv: "pump_writes nows s = (vs, s') \<Longrightarrow> wire_inv s \<Longrightarrow> wire_inv s'"
proof -
  assume p: "pump_writes nows s = (vs, s')" and i: "wire_inv s"
  show ?thesis
  proof (cases "rd_active (si_reads s) \<or> rd_queue (si_reads s) = []")
    case True
    then show ?thesis using p i by (auto simp: pump_writes_def split: list.splits if_splits)
  next
    case False
    then obtain w q where q: "rd_queue (si_reads s) = w # q" by (cases "rd_queue (si_reads s)") auto
    let ?s = "upd_reads (\<lambda>r. r\<lparr>rd_queue := q\<rparr>) s"
    have "subseq q (w # q)" by (rule list_emb_Cons) simp
    then have "calm s ?s" using q by (simp add: calm_def kept_def stream_keys_def cell_keys_def)
    then have "wire_inv ?s" using wire_inv_calm i by blast
    then show ?thesis using pump_work_inv [of nows w ?s vs s'] p q False by (simp add: pump_writes_def)
  qed
qed

lemma calm_announce: "calm s (announce_open i v held s)"
  unfolding announce_open_def Let_def
  by (auto split: option.splits intro: calms calm_trans [OF calm_outside(2) calm_upd_write])

lemma calm_finish_opened: "calm s (snd (finish_opened c l v held s))"
  unfolding finish_opened_def Let_def
  by (auto split: option.splits intro: calms calm_trans [OF calm_set_lease calm_drop_announcement]
      calm_trans [OF calm_set_lease calm_trans [OF calm_announce calm_ready]])

lemma calm_finish_failed: "calm s (finish_failed nows c code' s)"
  unfolding finish_failed_def
  by (auto split: option.splits intro: calms calm_trans [OF calm_close calm_remove_stream])

lemma calm_finish_result: "calm s (snd (finish_result V nows c s))"
  unfolding finish_result_def
  by (auto split: sum.splits job_output.splits intro: calms calm_finish_opened calm_finish_failed)


text \<open>A write has left the running calls and is not yet settled.\<close>

definition unsettled :: "site \<Rightarrow> bool" where
  "unsettled s \<longleftrightarrow> table_inv s \<and> calls_inv (snd (finished (si_reads s))) \<and> length (rd_queue (si_reads s)) \<le> WRITE_QUEUE"

lemma finished_sel [simp]:
  "rd_streams (snd (finished r)) = rd_streams r" "rd_chan (snd (finished r)) = rd_chan r"
  "rd_next_id (snd (finished r)) = rd_next_id r" "rd_queue (snd (finished r)) = rd_queue r"
  "rd_gone (snd (finished r)) = rd_gone r"
  by (simp_all add: finished_def)

lemma unsettled_calm: "calm s s' \<Longrightarrow> unsettled s \<Longrightarrow> unsettled s'"
proof -
  assume c: "calm s s'" and u: "unsettled s"
  have "kept (snd (finished (si_reads s))) (snd (finished (si_reads s')))"
    using c by (simp add: calm_def kept_def finished_def)
  then have "calls_inv (snd (finished (si_reads s')))" using calls_inv_kept u by (simp add: unsettled_def)
  moreover have "length (rd_queue (si_reads s')) \<le> length (rd_queue (si_reads s))"
    using c list_emb_length by (auto simp: calm_def)
  ultimately show ?thesis using table_inv_calm [OF c] u by (simp add: unsettled_def)
qed

lemma unsettled_finished: "unsettled s \<Longrightarrow> wire_inv (s\<lparr>si_reads := snd (finished (si_reads s))\<rparr>)"
  by (simp add: unsettled_def wire_inv_def table_inv_def stream_keys_def cell_keys_def)

lemma unsettled_same: "si_reads s' = si_reads s \<Longrightarrow> unsettled s' = unsettled s"
  by (simp add: unsettled_def table_inv_def stream_keys_def cell_keys_def)

lemma finish_read_inv: "finish_call V nows c s = (vs, s') \<Longrightarrow> \<not> co_write c \<Longrightarrow> wire_inv s \<Longrightarrow> wire_inv s'"
  using wire_inv_calm [OF calm_finish_result [of s V nows c]] by (simp add: finish_call_def)

lemma finish_write_inv:
  assumes "finish_call V nows c s = (vs, s')" "co_write c" "unsettled s"
  shows "wire_inv s'"
proof -
  let ?s = "s\<lparr>si_reads := snd (finished (si_reads s))\<rparr>"
  have i: "wire_inv ?s" by (rule unsettled_finished [OF assms(3)])
  have "s' = drop_output (co_result c) ?s \<or> s' = snd (finish_result V nows c ?s)"
    using assms(1,2) by (auto simp: finish_call_def split: prod.splits if_split_asm)
  then show ?thesis using wire_inv_calm [OF calm_drop_output i] wire_inv_calm [OF calm_finish_result i] by metis
qed

lemma owing_calm: "calm s s' \<Longrightarrow> owing s \<Longrightarrow> owing s'"
proof -
  assume c: "calm s s'" and o: "owing s"
  have "calm (drop_pending s) (drop_pending s')"
    using c by (simp add: calm_def kept_def drop_pending_def stream_keys_def cell_keys_def)
  then show ?thesis using wire_inv_calm o by (simp add: owing_def)
qed

definition without :: "running \<Rightarrow> site \<Rightarrow> site" where
  "without ru = upd_reads (\<lambda>r. r\<lparr>rd_running := remove1 ru (rd_running r)\<rparr>)"

lemma count_remove1: "ru \<in> set rs \<Longrightarrow> length (filter P (remove1 ru rs)) + of_bool (P ru) = length (filter P rs)"
  by (induction rs) auto

lemma without_read:
  assumes "wire_inv s" "ru \<in> set (rd_running (si_reads s))" "\<not> is_write_task (ru_task ru)"
  shows "owing (without ru s)"
proof -
  let ?rs = "rd_running (si_reads s)"
  have "length (filter (\<lambda>ru. \<not> is_write_task (ru_task ru)) (remove1 ru ?rs)) + 1 = length (filter (\<lambda>ru. \<not> is_write_task (ru_task ru)) ?rs)"
    "length (filter (\<lambda>ru. is_write_task (ru_task ru)) (remove1 ru ?rs)) = length (filter (\<lambda>ru. is_write_task (ru_task ru)) ?rs)"
    using count_remove1 [OF assms(2), of "\<lambda>ru. \<not> is_write_task (ru_task ru)"]
      count_remove1 [OF assms(2), of "\<lambda>ru. is_write_task (ru_task ru)"] assms(3) by simp_all
  then show ?thesis
    using assms(1) by (simp add: owing_iff without_def wire_inv_def table_inv_def stream_keys_def cell_keys_def
        calls_inv_def reads_running_now_def writes_running_def)
qed

lemma without_write:
  assumes "wire_inv s" "ru \<in> set (rd_running (si_reads s))" "is_write_task (ru_task ru)"
  shows "if rd_gone (si_reads s) then wire_inv (without ru s) else unsettled (without ru s)"
proof -
  let ?rs = "rd_running (si_reads s)"
  have n: "length (filter (\<lambda>ru. \<not> is_write_task (ru_task ru)) (remove1 ru ?rs)) = length (filter (\<lambda>ru. \<not> is_write_task (ru_task ru)) ?rs)"
    "length (filter (\<lambda>ru. is_write_task (ru_task ru)) (remove1 ru ?rs)) + 1 = length (filter (\<lambda>ru. is_write_task (ru_task ru)) ?rs)"
    using count_remove1 [OF assms(2), of "\<lambda>ru. \<not> is_write_task (ru_task ru)"]
      count_remove1 [OF assms(2), of "\<lambda>ru. is_write_task (ru_task ru)"] assms(3) by simp_all
  show ?thesis
  proof (cases "rd_gone (si_reads s)")
    case True
    then show ?thesis
      using assms(1) n by (simp add: without_def wire_inv_def table_inv_def stream_keys_def cell_keys_def
          calls_inv_def reads_running_now_def writes_running_def)
  next
    case False
    then have "length (filter (\<lambda>ru. is_write_task (ru_task ru)) (remove1 ru ?rs)) = 0"
      using assms(1) n(2) by (simp add: wire_inv_def calls_inv_def writes_running_def of_bool_def split: if_split_asm)
    then show ?thesis
      using False assms(1) n(1)
      by (simp add: unsettled_def without_def wire_inv_def table_inv_def stream_keys_def cell_keys_def
        calls_inv_def reads_running_now_def writes_running_def finished_def)
  qed
qed

lemma complete_inv:
  assumes "complete V nows random ru (s, w) = (vs, (s', w'))" "wire_inv s" "ru \<in> set (rd_running (si_reads s))"
  shows "wire_inv s'"
proof -
  obtain r s1 w1 where r: "run_task V nows random ru (without ru s, w) = (r, (s1, w1))"
    by (cases "run_task V nows random ru (without ru s, w)") auto
  have c: "calm (without ru s) s1" by (rule calm_run_task [OF r])
  then have gone: "rd_gone (si_reads s1) = rd_gone (si_reads s)" by (simp add: calm_def kept_def without_def)
  let ?s2 = "upd_jobs (job_done (ru_job ru)) s1"
  let ?wr = "is_write_task (ru_task ru)"
  let ?c = "\<lparr>co_id = ru_id ru, co_stream = ru_stream ru, co_result = r, co_write = ?wr\<rparr>"
  have c2: "calm (without ru s) ?s2" by (rule calm_trans [OF c calm_outside(1)])
  show ?thesis
  proof (cases ?wr)
    case False
    have "wire_inv (drop_pending ?s2)"
      using owing_drop owing_calm [OF c2 without_read [OF assms(2,3) False]] by blast
    then show ?thesis
      using assms(1) r False wire_inv_calm [OF calm_drop_output] finish_read_inv [of V "later 100 nows" ?c]
      by (auto simp: complete_def without_def Let_def split: if_split_asm prod.splits)
  next
    case True
    note w = without_write [OF assms(2,3) True]
    show ?thesis
    proof (cases "rd_gone (si_reads s)")
      case gone': True
      then have "wire_inv ?s2" using w wire_inv_calm [OF c2] by simp
      then show ?thesis
        using assms(1) r True gone gone' wire_inv_calm [OF calm_drop_output]
        by (auto simp: complete_def without_def Let_def)
    next
      case here: False
      then have "unsettled ?s2" using w unsettled_calm [OF c2] by simp
      then show ?thesis
        using assms(1) r True gone here finish_write_inv [of V "later 100 nows" ?c]
        by (auto simp: complete_def without_def Let_def split: prod.splits)
    qed
  qed
qed

lemma confirm_inv:
  assumes "confirm V nows pw s = (vs, s')" "wire_inv s" "pw \<in> set (rd_waiting (si_reads s))"
  shows "wire_inv s'"
proof -
  let ?s = "upd_reads (\<lambda>r. r\<lparr>rd_waiting := remove1 pw (rd_waiting r)\<rparr>) s"
  have "length (remove1 pw (rd_waiting (si_reads s))) + 1 = length (rd_waiting (si_reads s))"
    using assms(3) length_pos_if_in_set [OF assms(3)] by (simp add: length_remove1)
  then have o: "owing ?s"
    using assms(2) by (simp add: owing_iff wire_inv_def table_inv_def stream_keys_def cell_keys_def calls_inv_def
        reads_running_now_def writes_running_def)
  obtain r p where r: "push_reply (snd pw) (gw_push (si_gateway s)) = (r, p)" by fastforce
  let ?s1 = "drop_pending (upd_reads (\<lambda>r. r\<lparr>rd_waiting := remove1 pw (rd_waiting r)\<rparr>)
      (s\<lparr>si_gateway := (si_gateway s)\<lparr>gw_push := p\<rparr>\<rparr>))"
  have "si_reads ?s1 = si_reads (drop_pending ?s)" by (simp add: drop_pending_def)
  then have "wire_inv ?s1" using wire_inv_same owing_drop [OF o] by blast
  then show ?thesis using assms(1) r finish_read_inv by (fastforce simp: confirm_def Let_def)
qed

lemma get_stream_chan [simp]: "get_stream i (upd_chan f s) = get_stream i s"
  by (simp add: get_stream_def)

lemma calm_stall_stream: "calm s (stall_stream nows i s)"
proof (cases "Option.bind i (\<lambda>n. get_stream n s)")
  case None
  then show ?thesis by (cases i) (simp_all add: stall_stream_def)
next
  case (Some st)
  then obtain n where n: "i = Some n" "get_stream n s = Some st" by (cases i) auto
  have c: "calm s (upd_chan (stream_close ''stream-stalled'' n) s)" by (rule calms)
  show ?thesis
    using c calm_trans [OF c calm_trans [OF calm_remove_stream calm_discard]] n
    by (simp add: stall_stream_def Let_def)
qed

lemma calm_stall_answer: "calm s (snd (stall_answer nows wd s))"
  unfolding stall_answer_def
  using calm_trans [OF calm_fields(4) calm_cancel_write] by (auto split: option.split)

lemma calm_stall: "calm s (stall nows wd s)"
  unfolding stall_def Let_def case_prod_beta
  by (rule calm_trans [OF calm_trans [OF calm_trans [OF calm_trans [OF calm_fields(9) calm_outside(2)] calm_stall_stream]
        calm_stall_answer] calm_fields(1)])

lemma calm_tick_stream: "calm s (tick_stream nows i s)"
proof (cases "Option.bind (get_stream i s) wt_write")
  case (Some w)
  let ?s1 = "case stream_deadline i s of None \<Rightarrow> s
      | Some until \<Rightarrow> if until \<le> nows 0 then upd_chan (stream_close ''elevation-expired'' i) s else s"
  have c: "calm s ?s1" by (auto intro: calms split: option.split)
  show ?thesis
    using calm_trans [OF c calm_trans [OF calm_upd_write calm_outside(3)]]
    by (simp add: tick_stream_def Some Let_def case_prod_beta)
qed (simp add: tick_stream_def)

lemma calm_tick_each: "calm s (tick_each nows ids s)"
  by (induction nows ids s rule: tick_each.induct) (auto intro: calm_trans calm_tick_stream)

lemma calm_write_tick: "calm s (snd (write_tick nows s))"
proof -
  let ?s1 = "case rd_watchdog (si_reads s) of None \<Rightarrow> s
      | Some wd \<Rightarrow> if wd_until wd \<le> nows 0 then stall (later 1 nows) wd s else s"
  have "calm s ?s1" by (auto intro: calm_stall split: option.split)
  from calm_trans [OF this calm_trans [OF calm_tick_each calm_closed]] show ?thesis
    by (simp add: write_tick_def Let_def)
qed

lemma calm_cancel_active: "calm s (snd (cancel_active nows s))"
  unfolding cancel_active_def
  using calm_trans [OF calm_fields(4) calm_cancel_write] by (auto simp: case_prod_beta split: option.split)

lemma calm_cancel_writes: "calm s (snd (cancel_writes nows reason s))"
proof -
  let ?s1 = "close_all reason (upd_chan (\<lambda>c. c\<lparr>cn_alive := False\<rparr>) s)"
  let ?s2 = "snd (cancelled_writes ?s1)"
  let ?s3 = "snd (cancel_active nows ?s2)"
  have "calm s ?s1" by (rule calm_trans [OF calm_end calm_close_all])
  then have "calm s ?s2" unfolding cancelled_writes_def snd_conv by (rule calm_trans [OF _ calm_fields(1)])
  then have "calm s ?s3" by (rule calm_trans [OF _ calm_cancel_active])
  from calm_trans [OF this calm_trans [OF calm_fields(8) calm_cancel_works]] show ?thesis
    by (simp add: cancel_writes_def Let_def case_prod_beta)
qed

lemma calm_drop_each: "calm s (drop_each nows m s)"
  by (induction nows m s rule: drop_each.induct) (auto intro: calm_trans calm_drop_stream)

lemma drop_reads_inv: "wire_inv s \<Longrightarrow> wire_inv (drop_reads nows s)"
proof -
  assume i: "wire_inv s"
  let ?s1 = "upd_chan (\<lambda>c. c\<lparr>cn_alive := False\<rparr>) s"
  let ?t = "upd_reads (\<lambda>r. r\<lparr>rd_streams := []\<rparr>) ?s1"
  let ?s2 = "drop_each nows (rd_streams (si_reads ?s1)) ?t"
  let ?s3 = "upd_jobs (fold (\<lambda>w. drop_run (wk_run w)) (rd_queue (si_reads ?s2))) ?s2"
  have "calm ?s1 ?t" by (simp add: calm_def kept_def stream_keys_def cell_keys_def)
  then have "calm s ?s3"
    by (rule calm_trans [OF calm_trans [OF calm_end] calm_trans [OF calm_drop_each calm_outside(1)]])
  then have "wire_inv ?s3" using wire_inv_calm i by blast
  then show ?thesis
    by (simp add: drop_reads_def Let_def wire_inv_def table_inv_def stream_keys_def cell_keys_def calls_inv_def
        reads_running_now_def writes_running_def)
qed

lemma hang_up_inv: "hang_up nows reason s = (vs, s') \<Longrightarrow> wire_inv s \<Longrightarrow> wire_inv s'"
  using wire_inv_calm [OF calm_cancel_writes, of s nows reason] drop_reads_inv
  by (auto simp: hang_up_def split: prod.splits)

lemma route_inv:
  assumes "route V nows ctx v c s = Some (r, s')" "wire_inv s"
  shows "wire_inv s'"
proof (cases "is_read (ca_method c) \<and> error_code v = JStr ''not-implemented''")
  case True
  obtain y t where y: "read_call (en_X V) nows ctx (ca_id c) (ca_method c) (ca_params c) s = (y, t)" by fastforce
  then have "t = s'" using assms(1) True by (simp add: route_def)
  then show ?thesis using read_call_inv y assms(2) by blast
next
  case not_read: False
  show ?thesis
  proof (cases "is_write (ca_method c) \<and> error_code v \<noteq> JStr ''invalid-request''")
    case True
    then have "map_option (map_prod (map_sum (\<lambda>_. CLOSE_INVALID) id) id)
        (write_call (en_D V) nows ctx (ca_id c) (ca_method c) (ca_params c) s) = Some (r, s')"
      using assms(1) not_read unfolding route_def by presburger
    then obtain y where "write_call (en_D V) nows ctx (ca_id c) (ca_method c) (ca_params c) s = Some (y, s')" by auto
    then show ?thesis using write_call_inv assms(2) by blast
  next
    case False
    then have "Some (Inr (Some v), s) = Some (r, s')" using assms(1) not_read unfolding route_def by presburger
    then show ?thesis using assms(2) by simp
  qed
qed

lemma on_text_inv:
  assumes "on_text V nows ctx text s = Some (r, s')" "wire_inv s"
  shows "wire_inv s'"
proof -
  have g: "wire_inv (s\<lparr>si_gateway := g\<rparr>)" for g using wire_inv_same [of "s\<lparr>si_gateway := g\<rparr>" s] assms(2) by simp
  from assms(1) show ?thesis
    unfolding on_text_def by (auto split: prod.splits sum.splits option.splits intro: g route_inv [OF _ g])
qed

lemma on_frame_inv:
  assumes "on_frame V nows ctx m s = Some (r, s')" "wire_inv s"
  shows "wire_inv s'"
proof -
  have g: "wire_inv (s\<lparr>si_gateway := g\<rparr>)" for g using wire_inv_same [of "s\<lparr>si_gateway := g\<rparr>" s] assms(2) by simp
  obtain q g1 where q: "touch ctx View nows (si_gateway s) = (q, g1)" by fastforce
  show ?thesis
  proof (cases "\<exists>e. q = Inl e \<or> (\<exists>b. m = MPing b)")
    case True
    then have "s' = s \<or> s' = s\<lparr>si_gateway := g1\<rparr>"
      using assms(1) q by (cases m) (auto simp: on_frame_def split: sum.splits)
    then show ?thesis using g assms(2) by blast
  next
    case False
    then obtain u where u: "q = Inr u" by (cases q) auto
    show ?thesis
    proof (cases m)
      case (MText str)
      then show ?thesis using assms(1) q u on_text_inv [OF _ g] by (simp add: on_frame_def) blast
    next
      case (MBinary bs)
      then have "map_option (map_prod (map_sum (\<lambda>_. INVALID_INPUT_STREAM) id) id)
          (binary_call (en_E V) (en_D V) (later 3 nows) ctx bs (s\<lparr>si_gateway := g1\<rparr>)) = Some (r, s')"
        using assms(1) q u by (simp add: on_frame_def)
      then obtain y where "binary_call (en_E V) (en_D V) (later 3 nows) ctx bs (s\<lparr>si_gateway := g1\<rparr>) = Some (y, s')" by auto
      then show ?thesis using binary_call_inv g by blast
    next
      case (MPing b)
      then show ?thesis using False by blast
    qed
  qed
qed

section \<open>Runs of a connection\<close>

text \<open>
  The steps of a connection: a frame of the phone, the operations of its task, a job that ends, the
  callbacks of the Host and the writer on the channel, and whatever the rest of the companion does to
  the state it shares.
\<close>

inductive wire_step :: "'w env \<Rightarrow> site \<times> 'w \<Rightarrow> site \<times> 'w \<Rightarrow> bool" for V where
  w_frame: "on_frame V nows ctx m s = Some (r, s') \<Longrightarrow> wire_step V (s, w) (s', w)"
| w_pump: "pump_writes nows s = (vs, s') \<Longrightarrow> wire_step V (s, w) (s', w)"
| w_complete: "ru \<in> set (rd_running (si_reads s)) \<Longrightarrow> complete V nows random ru (s, w) = (vs, (s', w')) \<Longrightarrow>
     wire_step V (s, w) (s', w')"
| w_confirm: "pw \<in> set (rd_waiting (si_reads s)) \<Longrightarrow> confirm V nows pw s = (vs, s') \<Longrightarrow> wire_step V (s, w) (s', w)"
| w_closed: "closed nows s = (vs, s') \<Longrightarrow> wire_step V (s, w) (s', w)"
| w_tick: "write_tick nows s = (vs, s') \<Longrightarrow> wire_step V (s, w) (s', w)"
| w_answers: "cancelled_writes s = (vs, s') \<Longrightarrow> wire_step V (s, w) (s', w)"
| w_channel: "chan_step (rd_chan (si_reads s)) c \<Longrightarrow> map fst (cn_states c) = cell_keys s \<Longrightarrow>
     wire_step V (s, w) (upd_chan (\<lambda>_. c) s, w)"
| w_shared: "si_reads s' = si_reads s \<Longrightarrow> wire_step V (s, w) (s', w')"
| w_hang_up: "hang_up nows reason s = (vs, s') \<Longrightarrow> wire_step V (s, w) (s', w)"

inductive wire_reach :: "'w env \<Rightarrow> site \<times> 'w \<Rightarrow> bool" for V where
  wire_start: "si_reads s = reads_new peer \<Longrightarrow> wire_reach V (s, w)"
| wire_more: "wire_reach V sw \<Longrightarrow> wire_step V sw sw' \<Longrightarrow> wire_reach V sw'"

lemma wire_step_inv: "wire_step V (s, w) (s', w') \<Longrightarrow> wire_inv s \<Longrightarrow> wire_inv s'"
proof -
  assume "wire_step V (s, w) (s', w')" and i: "wire_inv s"
  note calm_inv = wire_inv_calm [OF _ i]
  from \<open>wire_step V (s, w) (s', w')\<close> show "wire_inv s'"
  proof (cases rule: wire_step.cases)
    case (w_frame nows ctx m r)
    then show ?thesis using on_frame_inv i by blast
  next
    case (w_pump nows vs)
    then show ?thesis using pump_writes_inv i by blast
  next
    case (w_complete ru nows random vs)
    then show ?thesis using complete_inv i by metis
  next
    case (w_confirm pw nows vs)
    then show ?thesis using confirm_inv i by blast
  next
    case (w_closed nows vs)
    then show ?thesis using calm_inv calm_closed by (metis snd_conv)
  next
    case (w_tick nows vs)
    then show ?thesis using calm_inv calm_write_tick by (metis snd_conv)
  next
    case (w_answers vs)
    then show ?thesis using calm_inv calm_fields(1) by (auto simp: cancelled_writes_def)
  next
    case (w_channel c)
    then have "calm s s'" by (auto simp: calm_def kept_def stream_keys_def cell_keys_def)
    then show ?thesis by (rule calm_inv)
  next
    case w_shared
    then show ?thesis using wire_inv_same i by blast
  next
    case (w_hang_up nows reason vs)
    then show ?thesis using hang_up_inv i by blast
  qed
qed

lemma wire_reach_inv: "wire_reach V sw \<Longrightarrow> wire_inv (fst sw)"
proof (induction rule: wire_reach.induct)
  case (wire_start s peer w)
  then show ?case using wire_inv_new by simp
next
  case (wire_more sw sw')
  then show ?case using wire_step_inv by (metis prod.collapse)
qed

text \<open>
  C12: In every state a connection reaches, its table holds at most eight streams, with distinct
  numbers below the next one; at most sixteen writes are queued and at most one runs; and the reads
  and subscriptions under way with the free permits are always two.
\<close>

theorem connection_invariant:
  assumes "wire_reach V (s, w)"
  shows "length (rd_streams (si_reads s)) \<le> 8 \<and> hm_wf (rd_streams (si_reads s))
    \<and> (\<forall>i st. get_stream i s = Some st \<longrightarrow> 0 < i \<and> i < rd_next_id (si_reads s))
    \<and> length (rd_queue (si_reads s)) \<le> 16
    \<and> rd_pending (si_reads s) + reads_running_now (si_reads s) + length (rd_waiting (si_reads s)) = 2
    \<and> (\<not> rd_gone (si_reads s) \<longrightarrow> writes_running (si_reads s) = of_bool (rd_active (si_reads s)))"
proof -
  have i: "wire_inv s" using wire_reach_inv [OF assms] by simp
  have k: "i \<in> set (stream_keys s)" if "get_stream i s = Some st" for i st
    using that hm_get_None_iff [of "rd_streams (si_reads s)" i] by (auto simp: get_stream_def stream_keys_def)
  have "0 < i \<and> i < rd_next_id (si_reads s)" if "get_stream i s = Some st" for i st
    using i k [OF that] by (auto simp: wire_inv_def table_inv_def)
  then show ?thesis
    using i by (simp add: wire_inv_def table_inv_def calls_inv_def stream_keys_def hm_wf_def MAX_STREAMS_def WRITE_QUEUE_def)
qed

text \<open>
  C26: A connection with its table, its queue and its jobs refines the channel of \<open>Streams\<close>: whatever
  its operations do, the channel underneath has only taken steps of its own. A new stream takes a cell
  that did not exist.
\<close>

theorem connection_refines_channel:
  assumes "wire_reach V (s, w)"
  shows "chan_reach (rd_chan (si_reads s))"
  using wire_reach_inv [OF assms] by (simp add: wire_inv_def table_inv_def)


end
