(* ===== verification/Peer_Security.thy ===== *)
theory Peer_Security
  imports Peer_Props Gateway_Demo Herdr_Props
begin

text \<open>
  What the connection of a phone promises: who may queue a write and until when, that a release is
  never refused, and that at the end of a connection every write is answered once and every lease is
  handed over. That a write which reaches the Host has been audited is \<open>Peer_Audit\<close>.
\<close>

section \<open>Authority of a queued write\<close>

lemma revalidate_accepted:
  assumes "revalidate ctx scope now idt = (True, idt')"
  obtains sess d where "hm_get (id_sessions idt) (cx_session_id ctx) = Some sess" "se_device_id sess = cx_device_id ctx"
    "hm_get (id_devices idt) (cx_device_id ctx) = Some d" "\<not> dv_locked d" "granted idt d scope now"
    "scope \<noteq> View \<Longrightarrow> \<exists>until. scope_until sess scope = Some until \<and> now < until"
    "hm_get (id_sessions idt') (cx_session_id ctx) = Some (sess\<lparr>se_last_seen := now\<rparr>)"
    "hm_get (id_devices idt') (cx_device_id ctx) = Some (d\<lparr>dv_last_seen := now\<rparr>)" "id_policy idt' = id_policy idt"
proof -
  obtain s where s: "hm_get (id_sessions idt) (cx_session_id ctx) = Some s" "se_device_id s = cx_device_id ctx"
      "validate (cx_session_id ctx) (cx_rp_id ctx) scope now idt = (True, idt')"
    using assms by (auto simp: revalidate_def split: option.splits if_splits)
  from s(3) show ?thesis by (cases rule: validate_cases) (use s that in auto)
qed

text \<open>The session, the device and the grants of a call that \<open>with_authorized\<close> let through.\<close>

definition write_authority :: "auth_context \<Rightarrow> scope \<Rightarrow> timestamp \<Rightarrow> identity \<Rightarrow> session \<Rightarrow> device \<Rightarrow> bool" where
  "write_authority ctx scope now idt sess d \<longleftrightarrow>
     hm_get (id_sessions idt) (cx_session_id ctx) = Some sess \<and> se_device_id sess = cx_device_id ctx
     \<and> hm_get (id_devices idt) (cx_device_id ctx) = Some d \<and> \<not> dv_locked d \<and> granted idt d scope now
     \<and> (scope \<noteq> View \<longrightarrow> (\<exists>until. scope_until sess scope = Some until \<and> now < until))"

lemma scope_last_seen [simp]:
  "scope_until (sess\<lparr>se_last_seen := t\<rparr>) scope = scope_until sess scope"
  "scope_at (sess\<lparr>se_last_seen := t\<rparr>) scope = scope_at sess scope"
  by (cases scope; simp add: scope_until_def scope_at_def)+

lemma granted_same: "dv_grants d' = dv_grants d \<Longrightarrow> id_policy idt' = id_policy idt \<Longrightarrow> granted idt' d' scope now = granted idt d scope now"
  by (cases scope) (simp_all add: granted_def)

lemma site_authorized_ran:
  assumes "site_authorized ctx scope nows act s = (Inr x, s')"
  obtains idt sess d s1 where "write_authority ctx scope (nows 2) (gw_identity (si_gateway s)) sess d"
    "hm_get (id_sessions idt) (cx_session_id ctx) = Some (sess\<lparr>se_last_seen := nows 2\<rparr>)"
    "act (set_identity idt s) = (x, s1)" "si_reads s' = si_reads s1" "si_jobs s' = si_jobs s1" "gw_audit (si_gateway s') = gw_audit (si_gateway s1)"
proof -
  let ?idt = "gw_identity (si_gateway s)"
  let ?run = "\<lambda>idt s. case act (set_identity idt s) of (x, s') \<Rightarrow> (x, gw_identity (si_gateway s'), s')"
  obtain r0 idt' s2 where w: "with_authorized (gw_rp_id (si_gateway s)) ctx scope nows ?run ?idt s = (r0, idt', s2)"
    by (cases "with_authorized (gw_rp_id (si_gateway s)) ctx scope nows ?run ?idt s")
  then have "r0 = Inr x" "s' = set_identity idt' s2" using assms by (auto simp: site_authorized_def)
  obtain b0 i0 where r0: "revalidate ctx View (nows 0) ?idt = (b0, i0)" by fastforce
  obtain b1 i1 where r1: "revalidate ctx scope (nows 2) i0 = (b1, i1)" by fastforce
  have ok: "b0" "b1" "?run i1 s = (x, idt', s2)"
    using w r0 r1 \<open>r0 = Inr x\<close> by (auto simp: with_authorized_def split: if_splits bool.splits prod.splits)
  have rt: "revalidate ctx View (nows 0) ?idt = (True, i0)" "revalidate ctx scope (nows 2) i0 = (True, i1)"
    using r0 r1 ok by simp_all
  obtain sess d where a:
      "hm_get (id_sessions ?idt) (cx_session_id ctx) = Some sess" "se_device_id sess = cx_device_id ctx"
      "hm_get (id_devices ?idt) (cx_device_id ctx) = Some d" "\<not> dv_locked d"
      "hm_get (id_sessions i0) (cx_session_id ctx) = Some (sess\<lparr>se_last_seen := nows 0\<rparr>)"
      "hm_get (id_devices i0) (cx_device_id ctx) = Some (d\<lparr>dv_last_seen := nows 0\<rparr>)" "id_policy i0 = id_policy ?idt"
    by (rule revalidate_accepted [OF rt(1)]) (rule that)
  obtain sess2 d2 where c: "hm_get (id_sessions i0) (cx_session_id ctx) = Some sess2"
      "hm_get (id_devices i0) (cx_device_id ctx) = Some d2" "granted i0 d2 scope (nows 2)"
      "scope \<noteq> View \<longrightarrow> (\<exists>until. scope_until sess2 scope = Some until \<and> nows 2 < until)"
      "hm_get (id_sessions i1) (cx_session_id ctx) = Some (sess2\<lparr>se_last_seen := nows 2\<rparr>)"
    by (rule revalidate_accepted [OF rt(2)]) (rule that, simp_all)
  have same: "sess2 = sess\<lparr>se_last_seen := nows 0\<rparr>" "d2 = d\<lparr>dv_last_seen := nows 0\<rparr>" using a(5,6) c(1,2) by simp_all
  have b: "granted i0 (d\<lparr>dv_last_seen := nows 0\<rparr>) scope (nows 2)"
      "scope \<noteq> View \<longrightarrow> (\<exists>until. scope_until sess scope = Some until \<and> nows 2 < until)"
      "hm_get (id_sessions i1) (cx_session_id ctx) = Some (sess\<lparr>se_last_seen := nows 2\<rparr>)"
    using c(3-5) unfolding same by simp_all
  have "granted ?idt d scope (nows 2)"
    using b(1) granted_same [of "d\<lparr>dv_last_seen := nows 0\<rparr>" d i0 ?idt scope "nows 2"] a(7) by simp
  then have "write_authority ctx scope (nows 2) ?idt sess d"
    using a(1-4) b(2) by (simp add: write_authority_def)
  moreover obtain y s3 where y: "act (set_identity i1 s) = (y, s3)" by fastforce
  then have "y = x" "s3 = s2" using ok(3) by simp_all
  then have "act (set_identity i1 s) = (x, s2)" using y by simp
  moreover have "si_reads s' = si_reads s2" "si_jobs s' = si_jobs s2" "gw_audit (si_gateway s') = gw_audit (si_gateway s2)"
    using \<open>s' = set_identity idt' s2\<close> by (simp_all add: set_identity_def)
  ultimately show ?thesis using that b(3) by blast
qed

text \<open>What an admission adds to the queue.\<close>

definition queued_by :: "auth_context \<Rightarrow> string \<Rightarrow> timestamp \<Rightarrow> timestamp option \<Rightarrow> work \<Rightarrow> bool" where
  "queued_by ctx meth until fresh w \<longleftrightarrow>
     wk_until w = until \<and> wk_device w = cx_device_id ctx \<and> wk_action w = meth
     \<and> (\<forall>ow. wk_run w = RunOpen ow \<longrightarrow> ow_fresh_until ow = fresh)"

definition grows :: "(work \<Rightarrow> bool) \<Rightarrow> site \<Rightarrow> site \<Rightarrow> bool" where
  "grows P s s' \<longleftrightarrow> (\<forall>w \<in> set (rd_queue (si_reads s')). w \<in> set (rd_queue (si_reads s)) \<or> P w)"

lemma grows_calm: "calm s s' \<Longrightarrow> grows P s s'"
  unfolding grows_def calm_def using subseq_set by blast

lemma grows_same: "si_reads s' = si_reads s \<Longrightarrow> grows P s s'"
  by (simp add: grows_def)

lemma grows_send:
  "send_work w s1 = (r, s') \<Longrightarrow> rd_queue (si_reads s1) = rd_queue (si_reads s) \<Longrightarrow> P w \<Longrightarrow> grows P s s'"
  by (erule send_work_cases) (auto simp: grows_def)

lemma open_stream_queue [simp]: "rd_queue (si_reads (open_stream n until st s)) = rd_queue (si_reads s)"
  by (simp add: open_stream_def put_stream_def)

lemma grows_open:
  assumes "admit_open ctx i meth params until fresh s = Some (r, s')"
  shows "grows (queued_by ctx meth until fresh) s s'"
proof -
  have send: "grows (queued_by ctx meth until fresh) s s4"
    if "new_audit ctx (method_scope meth) ses tgt (upd_reads (\<lambda>r. r\<lparr>rd_next_id := nxt\<rparr>) (s\<lparr>si_jobs := j\<rparr>)) = Some (a, s2)"
      "send_work w s2 = (q, s3)" "queued_by ctx meth until fresh w" "rd_queue (si_reads s4) = rd_queue (si_reads s3)"
    for ses tgt nxt j a s2 w q s3 s4
  proof -
    have "rd_queue (si_reads s2) = rd_queue (si_reads s)" using new_audit_reads [OF that(1)] by simp
    then have "grows (queued_by ctx meth until fresh) s s3" using grows_send [where P = "queued_by ctx meth until fresh"] that(2,3) by blast
    then show ?thesis using that(4) by (simp add: grows_def)
  qed
  show ?thesis
    using assms unfolding admit_open_def refuse_def Let_def
    by (auto split: if_split_asm sum.splits prod.splits option.splits
        intro: grows_same send simp: queued_by_def)
qed

lemma grows_agent:
  assumes "admit_agent ctx i meth params until s = Some (r, s')"
  shows "grows (queued_by ctx meth until fresh) s s'"
proof -
  have send: "grows (queued_by ctx meth until fresh) s s3"
    if "new_audit ctx (method_scope meth) ses tgt s = Some (a, s2)" "send_work w s2 = (q, s3)" "queued_by ctx meth until fresh w"
    for ses tgt a s2 w q s3
    by (rule grows_send [where P = "queued_by ctx meth until fresh", OF that(2) _ that(3)])
      (use new_audit_reads [OF that(1)] in simp)
  have run: "wk \<noteq> RunOpen ow" if "agent_params meth params = Inr (ses, tgt, wk)" for ses tgt wk ow
    using that by (auto simp: agent_params_def split: if_split_asm sum.splits prod.splits)
  show ?thesis
    using assms unfolding admit_agent_def refuse_def
    by (auto split: sum.splits prod.splits option.splits intro: grows_same)
      (erule send, assumption, simp add: queued_by_def, metis run)
qed

lemma grows_op:
  assumes "admit_op D ctx i meth params until s = (r, s')"
  shows "grows (queued_by ctx meth until fresh) s s'"
proof -
  have send: "grows (queued_by ctx meth until fresh) s s3"
    if "send_work w s = (q, s3)" "queued_by ctx meth until fresh w" for w q s3
    by (rule grows_send [where P = "queued_by ctx meth until fresh", OF that(1) refl that(2)])
  show ?thesis
    using assms unfolding admit_op_def
    by (auto split: if_split_asm sum.splits prod.splits option.splits intro: grows_same send simp: queued_by_def)
qed

lemma grows_none: "calm s s' \<Longrightarrow> grows (\<lambda>_. False) s s'"
  by (rule grows_calm)

lemma grows_mono: "grows P s s' \<Longrightarrow> (\<And>w. P w \<Longrightarrow> Q w) \<Longrightarrow> grows Q s s'"
  by (auto simp: grows_def)

lemma grows_admit:
  assumes "admit_write D nows ctx i meth params until fresh s = Some (r, s')"
  shows "grows (\<lambda>w. \<not> is_tightening meth \<and> queued_by ctx meth until fresh w) s s'"
proof (cases "is_tightening meth")
  case True
  then show ?thesis
    using assms admit_close_calm grows_calm unfolding admit_write_def by simp
next
  case False
  have "grows (queued_by ctx meth until fresh) s s'"
    using assms False grows_open grows_agent grows_op grows_same
    by (auto simp: admit_write_def refuse_def split: if_split_asm)
  then show ?thesis using False by simp
qed

text \<open>What the deadline of a write promises of the session it is read from.\<close>

lemma write_deadline_some:
  assumes "write_deadline ctx scope fresh now idt = Some until" "hm_get (id_sessions idt) (cx_session_id ctx) = Some sess"
  obtains start where "scope_at sess scope = Some start" "scope_until sess scope = Some until"
    "fresh \<Longrightarrow> now \<le> after start (from_secs 120)" "freshness_deadline ctx scope idt = Some (after start (from_secs 120))"
  using assms by (auto simp: write_deadline_def freshness_deadline_def split: option.splits if_split_asm)

lemma write_admission_grows:
  assumes "write_admission D nows ctx i meth params s = (r, s')" "hm_get (id_sessions (gw_identity (si_gateway s))) (cx_session_id ctx) = Some sess"
    "r \<noteq> None"
  shows "grows (\<lambda>w. \<not> is_tightening meth \<and> wk_device w = cx_device_id ctx \<and> wk_action w = meth
      \<and> (\<exists>start. scope_at sess (method_scope meth) = Some start \<and> scope_until sess (method_scope meth) = Some (wk_until w)
          \<and> (is_fresh meth params \<longrightarrow> nows 0 \<le> after start (from_secs 120)
              \<and> (\<forall>ow. wk_run w = RunOpen ow \<longrightarrow> ow_fresh_until ow = Some (after start (from_secs 120)))))) s s'"
    (is "grows ?P s s'")
proof (cases "is_tightening meth")
  case True
  then obtain e where "admit_write D (later 1 nows) ctx i meth params (nows 0)
      (if is_fresh meth params then freshness_deadline ctx (method_scope meth) (gw_identity (si_gateway s)) else None) s = Some (e, s')"
    using assms(1,3) by (auto simp: write_admission_def Let_def split: option.splits)
  then show ?thesis using grows_admit True grows_mono by blast
next
  case False
  let ?idt = "gw_identity (si_gateway s)"
  show ?thesis
  proof (cases "write_deadline ctx (method_scope meth) (is_fresh meth params) (nows 0) ?idt")
    case None
    then have "s' = s" using assms(1) False by (simp add: write_admission_def Let_def)
    then show ?thesis by (simp add: grows_same)
  next
    case (Some until)
    let ?fresh = "if is_fresh meth params then freshness_deadline ctx (method_scope meth) ?idt else None"
    obtain e where e: "admit_write D (later 1 nows) ctx i meth params until ?fresh s = Some (e, s')"
      using assms(1,3) False Some by (auto simp: write_admission_def Let_def split: option.splits)
    obtain start where t: "scope_at sess (method_scope meth) = Some start" "scope_until sess (method_scope meth) = Some until"
        "is_fresh meth params \<Longrightarrow> nows 0 \<le> after start (from_secs 120)"
        "freshness_deadline ctx (method_scope meth) ?idt = Some (after start (from_secs 120))"
      using write_deadline_some [OF Some assms(2)] by blast
    show ?thesis by (rule grows_mono [OF grows_admit [OF e]]) (use t in \<open>simp add: queued_by_def\<close>)
  qed
qed

text \<open>
  C3: A write a call adds to the queue of a connection is one its phone may make now: under the
  identity lock the session and the device are live and the device has the grant of the method, the
  write carries the instant the elevation of the session ends, which is still to come, and opening a
  full session or taking a terminal over needs an elevation of the last two minutes.
\<close>

theorem admitted_write_authorized:
  assumes "write_call D nows ctx i meth params s = Some (r, s')"
    "w \<in> set (rd_queue (si_reads s'))" "w \<notin> set (rd_queue (si_reads s))"
  shows "\<exists>sess d start. write_authority ctx (method_scope meth) (nows 2) (gw_identity (si_gateway s)) sess d
    \<and> wk_device w = cx_device_id ctx \<and> wk_action w = meth
    \<and> scope_at sess (method_scope meth) = Some start \<and> scope_until sess (method_scope meth) = Some (wk_until w)
    \<and> nows 2 < wk_until w
    \<and> (is_fresh meth params \<longrightarrow> nows 3 \<le> after start (from_secs 120)
        \<and> (\<forall>ow. wk_run w = RunOpen ow \<longrightarrow> ow_fresh_until ow = Some (after start (from_secs 120))))"
proof -
  let ?act = "write_admission D (later 3 nows) ctx i meth params"
  obtain r1 s1 where a: "site_authorized ctx (if is_tightening meth then View else method_scope meth) nows ?act s = (r1, s1)"
    by fastforce
  have after_call: "grows (\<lambda>_. False) s1 s'" "r1 \<noteq> Inr None"
    using assms(1) a grows_none [OF refuse_write_calm] grows_same
    by (auto simp: write_call_def Let_def split: sum.splits option.splits if_split_asm)
  then have w1: "w \<in> set (rd_queue (si_reads s1))" using assms(2) by (auto simp: grows_def)
  then obtain x where x: "r1 = Inr x" using site_authorized_cases [OF a] assms(3) by metis
  show ?thesis
  proof (rule site_authorized_ran [OF a [unfolded x]])
    fix idt sess d s2
    assume auth: "write_authority ctx (if is_tightening meth then View else method_scope meth) (nows 2) (gw_identity (si_gateway s)) sess d"
      and h: "hm_get (id_sessions idt) (cx_session_id ctx) = Some (sess\<lparr>se_last_seen := nows 2\<rparr>)"
      and act: "?act (set_identity idt s) = (x, s2)" and q: "si_reads s1 = si_reads s2"
    note g = write_admission_grows [OF act, of "sess\<lparr>se_last_seen := nows 2\<rparr>"]
    have "scope \<noteq> View" if "scope_at sess scope = Some start" for scope start
      using that by (auto simp: scope_at_def)
    then show ?thesis
      using g h x after_call(2) w1 q assms(3) auth
      by (auto simp: grows_def set_identity_def later_def write_authority_def split: if_split_asm)
  qed
qed

section \<open>Releases and the end of a connection\<close>

definition answer_id :: "json \<Rightarrow> json" where
  "answer_id v = json_index v ''id''"

definition cleanup_of :: "lease \<Rightarrow> cleanup" where
  "cleanup_of l = \<lparr>cl_resource = le_resource l, cl_full = le_full l\<rparr>"

lemma cancel_answer_id [simp]: "answer_id (cancel_answer p s) = pw_id p"
  by (simp add: answer_id_def cancel_answer_def write_error_def json_index_def json_get_def)

lemma cancel_works_ids: "map answer_id (fst (cancel_works nows ws s)) = map wk_id ws"
proof (induction nows ws s rule: cancel_works.induct)
  case (2 nows w ws s)
  then show ?case by (auto simp: cancel_write_def Let_def pending_of_def split: prod.splits)
qed simp

lemma drop_run_waiting [simp]: "jb_waiting (drop_run r j) = jb_waiting j"
  by (auto simp: drop_run_def unreserve_def release_full_def split: write_run.splits option.splits)

text \<open>What a cancellation leaves alone.\<close>

definition untouched :: "site \<Rightarrow> site \<Rightarrow> bool" where
  "untouched s s' \<longleftrightarrow> rd_queue (si_reads s') = rd_queue (si_reads s) \<and> rd_answers (si_reads s') = rd_answers (si_reads s)
     \<and> rd_streams (si_reads s') = rd_streams (si_reads s) \<and> jb_waiting (si_jobs s') = jb_waiting (si_jobs s)"

lemma untouched_trans: "untouched s1 s2 \<Longrightarrow> untouched s2 s3 \<Longrightarrow> untouched s1 s3"
  by (simp add: untouched_def)

lemma untouched_cancel: "untouched s (snd (cancel_write t1 t2 p s))"
  by (simp add: untouched_def cancel_write_def Let_def upd_audit_def upd_reads_def)

lemma untouched_works: "untouched s (snd (cancel_works nows ws s))"
proof (induction nows ws s rule: cancel_works.induct)
  case (1 nows s)
  then show ?case by (simp add: untouched_def)
next
  case (2 nows w ws s)
  obtain v s1 where v: "cancel_write (nows 0) (nows 1) (pending_of w) s = (v, s1)" by fastforce
  have "untouched s s1" using untouched_cancel [of s "nows 0" "nows 1" "pending_of w"] v by simp
  moreover have "untouched s1 (upd_jobs (drop_run (wk_run w)) s1)" by (simp add: untouched_def upd_jobs_def)
  moreover have "untouched (upd_jobs (drop_run (wk_run w)) s1) (snd (cancel_works (later 2 nows) ws (upd_jobs (drop_run (wk_run w)) s1)))"
    using 2 v by simp
  ultimately have "untouched s (snd (cancel_works (later 2 nows) ws (upd_jobs (drop_run (wk_run w)) s1)))"
    using untouched_trans by blast
  then show ?case using v by (auto split: prod.splits)
qed

lemma drop_stream_facts:
  "rd_queue (si_reads (drop_stream nows i st s)) = rd_queue (si_reads s)"
  "rd_answers (si_reads (drop_stream nows i st s)) = rd_answers (si_reads s)"
  "rd_streams (si_reads (drop_stream nows i st s)) = rd_streams (si_reads s)"
  "jb_waiting (si_jobs (drop_stream nows i st s)) =
     jb_waiting (si_jobs s) @ (case wt_lease st of None \<Rightarrow> [] | Some l \<Rightarrow> [cleanup_of l])"
  by (simp_all add: drop_stream_def drop_write_def drop_lease_def upd_audit_def upd_chan_def upd_reads_def upd_jobs_def
      lease_drop_def cleanup_of_def Let_def split: option.splits)

lemma discard_facts:
  "rd_queue (si_reads (discard_write_stream nows i s)) = filter (\<lambda>w. wk_stream w \<noteq> Some i) (rd_queue (si_reads s))"
  "map answer_id (rd_answers (si_reads (discard_write_stream nows i s))) =
     map answer_id (rd_answers (si_reads s)) @ map wk_id (filter (\<lambda>w. wk_stream w = Some i) (rd_queue (si_reads s)))"
  "rd_streams (si_reads (discard_write_stream nows i s)) = rd_streams (si_reads s)"
  "jb_waiting (si_jobs (discard_write_stream nows i s)) = jb_waiting (si_jobs s)"
proof -
  let ?ws = "filter (\<lambda>w. wk_stream w = Some i) (rd_queue (si_reads s))"
  let ?s1 = "upd_reads (\<lambda>r. r\<lparr>rd_queue := filter (\<lambda>w. wk_stream w \<noteq> Some i) (rd_queue (si_reads s))\<rparr>) s"
  obtain vs s2 where c: "cancel_works nows ?ws ?s1 = (vs, s2)" by fastforce
  have u: "untouched ?s1 s2" using untouched_works [of ?s1 nows ?ws] c by simp
  have v: "map answer_id vs = map wk_id ?ws" using cancel_works_ids [of nows ?ws ?s1] c by simp
  note u [unfolded untouched_def]
  then show "rd_queue (si_reads (discard_write_stream nows i s)) = filter (\<lambda>w. wk_stream w \<noteq> Some i) (rd_queue (si_reads s))"
    "map answer_id (rd_answers (si_reads (discard_write_stream nows i s))) =
       map answer_id (rd_answers (si_reads s)) @ map wk_id ?ws"
    "rd_streams (si_reads (discard_write_stream nows i s)) = rd_streams (si_reads s)"
    "jb_waiting (si_jobs (discard_write_stream nows i s)) = jb_waiting (si_jobs s)"
    using c v by (simp_all add: discard_write_stream_def Let_def upd_reads_def)
qed

lemma site_authorized_view:
  assumes "cx_rp_id ctx = gw_rp_id (si_gateway s)" "revalidate ctx View (nows 0) (gw_identity (si_gateway s)) = (True, i0)"
    "revalidate ctx View (nows 2) i0 = (True, i1)" "act (set_identity i1 s) = (x, s2)"
  shows "site_authorized ctx View nows act s = (Inr x, s2)"
  using assms by (simp add: site_authorized_def with_authorized_def set_identity_def)

text \<open>
  C14: A release or close of a stream the connection has is never refused: it needs neither an
  elevation nor a free place in the queue, and a stalled write does not hold it up. The stream is gone,
  the writes it had queued are answered in order while the others keep their places, and what it
  leased is handed to the executor for its release.
\<close>

theorem release_always_possible:
  assumes "is_tightening meth" "parse_params close_params_of params = Inr n"
    "get_stream n s = Some st" "write_scope st = Some (method_scope meth)"
    "cx_rp_id ctx = gw_rp_id (si_gateway s)" "revalidate ctx View (nows 0) (gw_identity (si_gateway s)) = (True, i0)"
    "revalidate ctx View (nows 2) i0 = (True, i1)"
  shows "\<exists>s'. write_call D nows ctx i meth params s =
      Some (Inr (Some (read_reply i (JObj [(''stream'', JNum (uint n)), (''closed'', JBool True)]))), s')
    \<and> get_stream n s' = None
    \<and> rd_queue (si_reads s') = filter (\<lambda>w. wk_stream w \<noteq> Some n) (rd_queue (si_reads s))
    \<and> map answer_id (rd_answers (si_reads s')) =
        map answer_id (rd_answers (si_reads s)) @ map wk_id (filter (\<lambda>w. wk_stream w = Some n) (rd_queue (si_reads s)))
    \<and> (\<forall>l. wt_lease st = Some l \<longrightarrow> cleanup_of l \<in> set (jb_waiting (si_jobs s')))"
proof -
  let ?reply = "read_reply i (JObj [(''stream'', JNum (uint n)), (''closed'', JBool True)])"
  define s0 where "s0 = upd_chan (stream_close ''client-closed'' n) (set_identity i1 s)"
  define s' where "s' = discard_write_stream (later 4 (later 1 (later 3 nows))) n (remove_stream (later 1 (later 3 nows)) n s0)"
  have st: "get_stream n (set_identity i1 s) = Some st" "get_stream n s0 = Some st"
    using assms(3) by (simp_all add: s0_def get_stream_def set_identity_def upd_chan_def upd_reads_def)
  have same: "rd_queue (si_reads s0) = rd_queue (si_reads s)" "rd_answers (si_reads s0) = rd_answers (si_reads s)"
    by (simp_all add: s0_def set_identity_def upd_chan_def upd_reads_def)
  have "write_admission D (later 3 nows) ctx i meth params (set_identity i1 s) = (Some (Inr (Some ?reply)), s')"
    using assms(1,2,4) st(1)
    by (simp add: write_admission_def admit_write_def admit_close_def Let_def s'_def s0_def refuse_def)
  note site_authorized_view [where act = "write_admission D (later 3 nows) ctx i meth params", OF assms(5-7) this]
  then have "write_call D nows ctx i meth params s = Some (Inr (Some ?reply), s')"
    using assms(1) unfolding write_call_def Let_def by simp
  moreover have "rd_queue (si_reads s') = filter (\<lambda>w. wk_stream w \<noteq> Some n) (rd_queue (si_reads s))"
    "map answer_id (rd_answers (si_reads s')) =
        map answer_id (rd_answers (si_reads s)) @ map wk_id (filter (\<lambda>w. wk_stream w = Some n) (rd_queue (si_reads s)))"
    "\<forall>l. wt_lease st = Some l \<longrightarrow> cleanup_of l \<in> set (jb_waiting (si_jobs s'))"
    using st(2) same
    by (simp_all add: s'_def discard_facts remove_stream_def drop_stream_facts take_stream_def upd_reads_def)
  moreover have "get_stream n s' = None"
    using st(2) by (simp add: s'_def get_stream_def discard_facts remove_stream_def drop_stream_facts take_stream_def upd_reads_def)
  ultimately show ?thesis by blast
qed


definition active_answer :: "reads \<Rightarrow> json list" where
  "active_answer r = (if rd_active r then (case rd_active_write r of None \<Rightarrow> [] | Some p \<Rightarrow> [pw_id p]) else [])"

definition chan_only :: "site \<Rightarrow> site \<Rightarrow> bool" where
  "chan_only s s' \<longleftrightarrow> untouched s s' \<and> rd_active (si_reads s') = rd_active (si_reads s)
     \<and> rd_active_write (si_reads s') = rd_active_write (si_reads s)"

lemma chan_only_upd: "chan_only s (upd_chan f s)"
  by (simp add: chan_only_def untouched_def upd_chan_def upd_reads_def)

lemma chan_only_trans: "chan_only s1 s2 \<Longrightarrow> chan_only s2 s3 \<Longrightarrow> chan_only s1 s3"
  by (simp add: chan_only_def untouched_def)

lemma chan_only_fold: "chan_only s (fold (\<lambda>(i, st). upd_chan (stream_close reason i)) m s)"
proof (induction m arbitrary: s)
  case Nil
  then show ?case by (simp add: chan_only_def untouched_def)
next
  case (Cons x m)
  obtain i st where x: "x = (i, st)" by fastforce
  show ?case unfolding x using chan_only_trans [OF chan_only_upd Cons.IH] by simp
qed

lemma close_all_only: "chan_only s (close_all reason s)"
  by (simp add: close_all_def chan_only_fold)

lemma cancel_write_id: "answer_id (fst (cancel_write t1 t2 p s)) = pw_id p"
  by (simp add: cancel_write_def Let_def)

lemma cancel_active_facts:
  assumes "cancel_active nows s = (us, s')"
  shows "map answer_id us = active_answer (si_reads s) \<and> untouched s s'"
proof (cases "rd_active (si_reads s)")
  case True
  show ?thesis
  proof (cases "rd_active_write (si_reads s)")
    case None
    then show ?thesis using assms True by (simp add: cancel_active_def active_answer_def untouched_def)
  next
    case (Some p)
    let ?s1 = "upd_reads (\<lambda>r. r\<lparr>rd_active_write := None\<rparr>) s"
    obtain v s2 where c: "cancel_write (nows 0) (nows 1) p ?s1 = (v, s2)" by fastforce
    have "untouched s ?s1" by (simp add: untouched_def upd_reads_def)
    moreover have "untouched ?s1 s2" "answer_id v = pw_id p"
      using untouched_cancel [of ?s1 "nows 0" "nows 1" p] cancel_write_id [of "nows 0" "nows 1" p ?s1] c by simp_all
    ultimately show ?thesis
      using untouched_trans [of s ?s1 s2] assms True Some c by (auto simp: cancel_active_def active_answer_def)
  qed
next
  case False
  then show ?thesis using assms by (simp add: cancel_active_def active_answer_def untouched_def)
qed

lemma cancel_writes_facts:
  assumes "cancel_writes nows reason s = (vs, s')"
  shows "map answer_id vs = map answer_id (rd_answers (si_reads s)) @ active_answer (si_reads s) @ map wk_id (rd_queue (si_reads s))"
    "rd_queue (si_reads s') = []" "rd_answers (si_reads s') = []" "rd_streams (si_reads s') = rd_streams (si_reads s)"
    "jb_waiting (si_jobs s') = jb_waiting (si_jobs s)"
proof -
  let ?s0 = "upd_chan (\<lambda>c. c\<lparr>cn_alive := False\<rparr>) s"
  let ?s1 = "close_all reason ?s0"
  let ?s2 = "upd_reads (\<lambda>r. r\<lparr>rd_answers := []\<rparr>) ?s1"
  obtain us s3 where a: "cancel_active nows ?s2 = (us, s3)" by fastforce
  let ?s4 = "upd_reads (\<lambda>r. r\<lparr>rd_queue := []\<rparr>) s3"
  obtain ws s5 where c: "cancel_works (later 2 nows) (rd_queue (si_reads s3)) ?s4 = (ws, s5)" by fastforce
  have eq: "vs = rd_answers (si_reads ?s1) @ us @ ws" "s' = s5"
    using assms a c by (simp_all add: cancel_writes_def cancelled_writes_def Let_def)
  have u1: "untouched s ?s1" "active_answer (si_reads ?s2) = active_answer (si_reads s)"
    using chan_only_trans [OF chan_only_upd [of s "\<lambda>c. c\<lparr>cn_alive := False\<rparr>"] close_all_only [of _ reason]]
    by (simp_all add: chan_only_def active_answer_def upd_reads_def)
  have w: "map answer_id ws = map wk_id (rd_queue (si_reads s3))" "untouched ?s4 s5"
    using cancel_works_ids [of "later 2 nows" "rd_queue (si_reads s3)" ?s4]
      untouched_works [of ?s4 "later 2 nows" "rd_queue (si_reads s3)"] c by simp_all
  note f = conjunct1 [OF cancel_active_facts [OF a]] conjunct2 [OF cancel_active_facts [OF a]]
  show "map answer_id vs = map answer_id (rd_answers (si_reads s)) @ active_answer (si_reads s) @ map wk_id (rd_queue (si_reads s))"
    using eq(1) u1 f w(1) by (simp add: untouched_def upd_reads_def)
  show "rd_queue (si_reads s') = []" "rd_answers (si_reads s') = []" "rd_streams (si_reads s') = rd_streams (si_reads s)"
    "jb_waiting (si_jobs s') = jb_waiting (si_jobs s)"
    using eq(2) u1(1) f(2) w(2) by (simp_all add: untouched_def upd_reads_def)
qed

lemma drop_each_facts:
  "rd_answers (si_reads (drop_each nows m s)) = rd_answers (si_reads s)"
  "rd_queue (si_reads (drop_each nows m s)) = rd_queue (si_reads s)"
  "rd_streams (si_reads (drop_each nows m s)) = rd_streams (si_reads s)"
  "jb_waiting (si_jobs (drop_each nows m s)) =
     jb_waiting (si_jobs s) @ concat (map (\<lambda>(i, st). case wt_lease st of None \<Rightarrow> [] | Some l \<Rightarrow> [cleanup_of l]) m)"
  by (induction nows m s rule: drop_each.induct) (simp_all add: drop_stream_facts)

lemma fold_drop_waiting: "jb_waiting (fold (\<lambda>w. drop_run (wk_run w)) ws j) = jb_waiting j"
  by (induction ws arbitrary: j) simp_all

lemma drop_reads_facts:
  assumes "rd_queue (si_reads s) = []"
  shows "rd_queue (si_reads (drop_reads nows s)) = []" "rd_streams (si_reads (drop_reads nows s)) = []"
    "rd_answers (si_reads (drop_reads nows s)) = rd_answers (si_reads s)" "rd_gone (si_reads (drop_reads nows s))"
    "jb_waiting (si_jobs (drop_reads nows s)) =
       jb_waiting (si_jobs s) @ concat (map (\<lambda>(i, st). case wt_lease st of None \<Rightarrow> [] | Some l \<Rightarrow> [cleanup_of l]) (rd_streams (si_reads s)))"
  using assms
  by (simp_all add: drop_reads_def Let_def upd_jobs_def upd_reads_def upd_chan_def drop_each_facts fold_drop_waiting)

lemma gone_complete:
  assumes "rd_gone (si_reads s)"
  shows "fst (complete V nows random ru (s, v)) = []"
proof -
  obtain r s1 v1 where r: "run_task V nows random ru (without ru s, v) = (r, (s1, v1))"
    by (cases "run_task V nows random ru (without ru s, v)") auto
  have "rd_gone (si_reads s1)"
    using calm_run_task [OF r] assms by (simp add: calm_def kept_def without_def)
  then show ?thesis
    using r by (simp add: complete_def without_def Let_def upd_jobs_def drop_pending_def upd_reads_def)
qed

text \<open>
  C13: When a connection ends, every write it still owes an answer gets exactly one: those already
  answered but not sent, then the one that runs, then the queued ones in their order. Nothing is left:
  no queue, no stream, every lease is handed to the executor for its release, and a job that ends
  later answers nothing.
\<close>

theorem hang_up_answers_all:
  "map answer_id (fst (hang_up nows reason s)) =
       map answer_id (rd_answers (si_reads s)) @ active_answer (si_reads s) @ map wk_id (rd_queue (si_reads s))
   \<and> (let s' = snd (hang_up nows reason s)
      in rd_queue (si_reads s') = [] \<and> rd_streams (si_reads s') = [] \<and> rd_answers (si_reads s') = []
         \<and> jb_waiting (si_jobs s') = jb_waiting (si_jobs s)
             @ concat (map (\<lambda>(i, st). case wt_lease st of None \<Rightarrow> [] | Some l \<Rightarrow> [cleanup_of l]) (rd_streams (si_reads s)))
         \<and> fst (complete V nows' random ru (s', v)) = [])"
proof -
  obtain vs s1 where c: "cancel_writes nows reason s = (vs, s1)" by fastforce
  note f = cancel_writes_facts [OF c]
  note g = drop_reads_facts [OF f(2), of "later 100 nows"]
  show ?thesis
    using c f g gone_complete [OF g(4)] by (simp add: hang_up_def Let_def)
qed


end
