(* ===== verification/Peer_Audit.thy ===== *)
theory Peer_Audit
  imports Peer_Props Gateway_Demo Herdr_Props
begin

text \<open>
  A write job that changes the Host: it was still valid when it started, and the audit trail has
  it. A job is a sequence of calls, most of which leave the Host alone (\<open>inert\<close>); of a job that changed
  the Host every inert call has therefore succeeded.
\<close>

section \<open>Calls that leave the Host alone\<close>

definition inert :: "(site \<times> 'w, 'a) seq \<Rightarrow> bool" where
  "inert m \<longleftrightarrow> (\<forall>sw. snd (snd (m sw)) = snd sw)"

text \<open>The Host's documented contract of its two read calls: they change nothing.\<close>

definition looks_only :: "'w herdr_reads \<Rightarrow> bool" where
  "looks_only R \<longleftrightarrow>
     (\<forall>w. snd (hp_sessions (hr_port R) w) = w) \<and> (\<forall>session w. snd (hp_snapshot (hr_port R) session w) = w)"

named_theorems quiets \<open>calls that leave the Host alone\<close>

lemma quiet_pure [quiets]:
  "inert (give x)" "inert (pass r)" "inert (need e ok)" "inert (change f)" "inert (desk g)"
  by (auto simp: inert_def give_def pass_def need_def change_def desk_def split: prod.splits)

lemma quiet_and_then [quiets]: "inert m \<Longrightarrow> (\<And>x. inert (f x)) \<Longrightarrow> inert (and_then m f)"
  unfolding inert_def and_then_def by (simp split: prod.splits sum.splits) (metis snd_conv)

lemma quiet_host: "(\<And>w. snd (g w) = w) \<Longrightarrow> inert (host g)"
  by (auto simp: inert_def host_def split: prod.splits) (metis snd_conv)

lemma quiet_validity [quiets]: "inert (validity_check nows w)" "inert (validity_start nows w)"
  unfolding validity_start_def validity_check_def by (intro quiets)+

lemma quiet_audit [quiets]: "inert (audit_admit a action' summary t)" "inert (announce_later a)"
  unfolding audit_admit_def announce_later_def by (intro quiets)+

lemma quiet_branch: "inert m \<Longrightarrow> inert m' \<Longrightarrow> inert (\<lambda>sw. if P sw then m sw else m' sw)"
  by (simp add: inert_def)

lemma quiet_count [quiets]: "inert (count_input nows w i n)"
  unfolding count_input_def by (intro quiet_and_then quiet_pure quiet_branch quiet_audit)

lemma quiet_op_audit [quiets]: "inert (op_audit nows w i op)"
  by (cases op) (auto simp: op_audit_def intro: quiets)

lemma running_looks:
  assumes "looks_only R"
  shows "snd (reads_running R session w) = w"
proof -
  have "snd (hp_sessions (hr_port R) w) = w" using assms by (simp add: looks_only_def)
  then show ?thesis unfolding reads_running_def by (cases "hp_sessions (hr_port R) w") (auto split: sum.splits)
qed

lemma quiet_reads [quiets]:
  assumes "looks_only R"
  shows "inert (host (reads_running R session))" "inert (host (hp_snapshot (hr_port R) session))"
  using assms by (auto intro!: quiet_host running_looks simp: looks_only_def)

section \<open>What a job leaves behind\<close>

definition site_log :: "site \<Rightarrow> event list" where
  "site_log s = es_log (as_events (si_audit s))"

text \<open>The changes at the end of a job: they touch neither the validity of the write nor its record.\<close>

definition settled :: "site \<Rightarrow> site \<Rightarrow> bool" where
  "settled s s' \<longleftrightarrow> prefix (site_log s) (site_log s')
     \<and> rd_cancelled (si_reads s') = rd_cancelled (si_reads s) \<and> rd_started (si_reads s') = rd_started (si_reads s)
     \<and> rd_chan (si_reads s') = rd_chan (si_reads s) \<and> (\<forall>i. stream_bucket i s' = stream_bucket i s)"

named_theorems settles \<open>changes at the end of a job\<close>

lemma settled_refl [simp, settles]: "settled s s"
  by (simp add: settled_def)

lemma settled_trans: "settled s1 s2 \<Longrightarrow> settled s2 s3 \<Longrightarrow> settled s1 s3"
  by (auto simp: settled_def intro: prefix_order.trans)

lemma settled_jobs [settles]: "settled s (upd_jobs f s)" "settled s (drop_lease l s)"
  by (simp_all add: settled_def site_log_def si_audit_def upd_jobs_def drop_lease_def stream_bucket_def get_stream_def
      split: option.splits)

lemma log_reservation_drop [simp]: "es_log (reservation_drop p es) = es_log es"
  by (cases p) (auto simp: reservation_drop_def set_pool_def es_log_def)

lemma settled_announcement [settles]: "settled s (drop_announcement held s)"
  by (simp add: settled_def drop_announcement_def site_log_def si_audit_def upd_audit_def set_events_def stream_bucket_def get_stream_def)

lemma bucket_leased: "Option.bind (map_option (ws_leased_update f) w) ws_bucket = Option.bind w ws_bucket"
  by (cases w) simp_all

lemma stream_bucket_leased [simp]: "stream_bucket i (set_leased j b s) = stream_bucket i s"
  by (auto simp: stream_bucket_def set_leased_def upd_write_def get_stream_def put_stream_def upd_reads_def
      bucket_leased split: option.splits)

lemma settled_leased [settles]: "settled s (set_leased i b s)"
  unfolding settled_def stream_bucket_leased
  by (simp add: set_leased_def upd_write_def put_stream_def upd_reads_def site_log_def si_audit_def split: option.splits)

lemma log_try_emit: "try_emit es e = (ok, es') \<Longrightarrow> es_log es' = es_log es @ (if ok then [e] else [])"
  by (auto simp: try_emit_def es_push_def es_log_def split: if_split_asm option.splits)

lemma log_reserve: "reserve p es = (ok, es') \<Longrightarrow> es_log es' = es_log es"
  by (cases p) (auto simp: reserve_def set_pool_def es_log_def split: if_split_asm)

lemma log_rejected: "rejected a t1 t2 rj st = (rj', st') \<Longrightarrow> prefix (es_log (as_events st)) (es_log (as_events st'))"
  by (auto simp: rejected_def Let_def set_events_def dest: log_try_emit split: if_split_asm prod.splits bool.splits)

lemma settled_reject [settles]: "settled s (reject_audit a t1 t2 s)"
  by (auto simp: reject_audit_def settled_def site_log_def si_audit_def set_audit_def upd_audit_def upd_reads_def
      stream_bucket_def get_stream_def dest: log_rejected split: prod.splits)

section \<open>A write that was valid when it started, and is recorded\<close>

definition same_origin :: "audit \<Rightarrow> audit \<Rightarrow> bool" where
  "same_origin a b \<longleftrightarrow> ad_device a = ad_device b \<and> ad_peer_id a = ad_peer_id b \<and> ad_session a = ad_session b
     \<and> ad_scope a = ad_scope b \<and> ad_key a = ad_key b"

text \<open>Recorded as an event of its own, or in the bucket of its stream.\<close>

definition recorded :: "work \<Rightarrow> site \<Rightarrow> site \<Rightarrow> bool" where
  "recorded w s s' \<longleftrightarrow>
     (\<exists>a summary t. same_origin a (wk_audit w)
        \<and> prefix (site_log s @ [audit_event_of a (wk_action w) summary t]) (site_log s'))
     \<or> (\<exists>i resource bs b. wk_run w = RunOp i resource (OpInput bs) \<and> stream_bucket i s' = Some b \<and> length bs \<le> bk_bytes b)"

definition start_reading :: "work \<Rightarrow> nat" where
  "start_reading w = (case wk_run w of RunOp _ _ _ \<Rightarrow> 4 | RunOpen _ \<Rightarrow> 6 | _ \<Rightarrow> 3)"

definition started_valid :: "(nat \<Rightarrow> timestamp) \<Rightarrow> work \<Rightarrow> site \<Rightarrow> bool" where
  "started_valid nows w s \<longleftrightarrow>
     wk_no w \<in> set (rd_started (si_reads s)) \<and> wk_no w \<notin> set (rd_cancelled (si_reads s))
     \<and> life_active (rd_chan (si_reads s)) \<and> nows (start_reading w) < wk_until w
     \<and> (\<forall>ow fresh. wk_run w = RunOpen ow \<longrightarrow> ow_fresh_until ow = Some fresh \<longrightarrow> nows 5 \<le> fresh)"

lemma settled_evidence:
  "settled s1 s' \<Longrightarrow> started_valid nows w s1 \<Longrightarrow> started_valid nows w s'"
  "settled s1 s' \<Longrightarrow> recorded w s s1 \<Longrightarrow> recorded w s s'"
  by (auto simp: started_valid_def recorded_def settled_def intro: prefix_order.trans)

lemma same_origin_refl [simp]: "same_origin a a"
  by (simp add: same_origin_def)

lemma logged_recorded:
  "site_log s1 = site_log s @ [audit_event_of a (wk_action w) summary t] \<Longrightarrow> same_origin a (wk_audit w) \<Longrightarrow> recorded w s s1"
  by (auto simp: recorded_def)

lemma check_passed:
  assumes "validity_check nows w (s, v) = (Inr x, (s1, v1))"
  shows "s1 = s" "work_valid nows w s"
  using assms by (auto simp: validity_check_def need_def split: if_splits)

lemma start_passed:
  assumes "validity_start nows w (s, v) = (Inr x, (s1, v1))"
  shows "s1 = mark_started w s" "work_valid nows w s1"
  using assms by (auto simp: validity_start_def validity_check_def and_then_def change_def need_def split: if_splits)

lemma admit_passed:
  assumes "audit_admit a action' summary t (s, v) = (Inr x, (s1, v1))"
  shows "site_log s1 = site_log s @ [audit_event_of a action' summary t]" "si_reads s1 = si_reads s"
  using assms
  by (auto simp: audit_admit_def desk_def admit_def set_audit_def upd_audit_def site_log_def si_audit_def set_events_def
      dest: log_try_emit split: prod.splits if_split_asm)

lemma mark_started_simps [simp]:
  "site_log (mark_started w s) = site_log s" "stream_bucket i (mark_started w s) = stream_bucket i s"
  by (simp_all add: mark_started_def upd_reads_def site_log_def si_audit_def stream_bucket_def get_stream_def)

lemma marked: "s1 = mark_started w s \<Longrightarrow> wk_no w \<in> set (rd_started (si_reads s1))"
  by (simp add: mark_started_def upd_reads_def)


lemma valid_now: "work_valid nows w s \<Longrightarrow> wk_no w \<notin> set (rd_cancelled (si_reads s)) \<and> life_active (rd_chan (si_reads s)) \<and> nows 0 < wk_until w"
  by (simp add: work_valid_def)

section \<open>Sequences that changed the Host\<close>

text \<open>From a site with \<open>I\<close>, the sequence changes the Host only on the way to a site with \<open>E\<close>.\<close>

definition leads :: "(site \<Rightarrow> bool) \<Rightarrow> (site \<times> 'w, 'a) seq \<Rightarrow> (site \<Rightarrow> bool) \<Rightarrow> bool" where
  "leads I m E \<longleftrightarrow> (\<forall>s v r s' v'. I s \<longrightarrow> m (s, v) = (r, (s', v')) \<longrightarrow> v' \<noteq> v \<longrightarrow> E s')"

definition evidence :: "(nat \<Rightarrow> timestamp) \<Rightarrow> work \<Rightarrow> site \<Rightarrow> site \<Rightarrow> bool" where
  "evidence nows w s0 s \<longleftrightarrow> started_valid nows w s \<and> recorded w s0 s"

lemma evidence_settled: "settled s s' \<Longrightarrow> evidence nows w s0 s \<Longrightarrow> evidence nows w s0 s'"
  by (simp add: evidence_def settled_evidence)

lemma leads_then:
  assumes "inert m" "\<And>s v x s1. I s \<Longrightarrow> m (s, v) = (Inr x, (s1, v)) \<Longrightarrow> J x s1" "\<And>x. leads (J x) (f x) E"
  shows "leads I (and_then m f) E"
  unfolding leads_def
proof (intro allI impI)
  fix s v r s' v'
  assume a: "I s" "and_then m f (s, v) = (r, (s', v'))" "v' \<noteq> v"
  obtain y s1 v1 where m: "m (s, v) = (y, (s1, v1))" by (metis prod.collapse)
  then have "v1 = v" using assms(1) unfolding inert_def by (metis snd_conv)
  moreover obtain x where "y = Inr x" using a m \<open>v1 = v\<close> by (cases y) (auto simp: and_then_def)
  ultimately have "J x s1" "f x (s1, v) = (r, (s', v'))" using m a(1,2) assms(2) by (auto simp: and_then_def)
  then show "E s'" using assms(3) a(3) unfolding leads_def by blast
qed

lemma leads_check: "(\<And>x. leads I (f x) E) \<Longrightarrow> leads I (and_then (validity_check nows w) f) E"
  by (rule leads_then [where J = "\<lambda>_. I", OF quiet_validity(1)]) (auto dest: check_passed(1))

lemma leads_pass: "(\<And>x. leads I (f x) E) \<Longrightarrow> leads I (and_then (pass r) f) E"
  by (rule leads_then [where J = "\<lambda>_. I", OF quiet_pure(2)]) (simp_all add: pass_def)

lemma leads_host: "inert (host g) \<Longrightarrow> (\<And>x. leads I (f x) E) \<Longrightarrow> leads I (and_then (host g) f) E"
  by (rule leads_then [where J = "\<lambda>_. I"]) (auto simp: host_def split: prod.splits)

lemma leads_need: "(\<And>x. Q \<Longrightarrow> leads I (f x) E) \<Longrightarrow> leads I (and_then (need e (\<lambda>_. Q)) f) E"
  by (cases Q) (auto simp: leads_def and_then_def need_def)

lemma leads_admit:
  assumes "same_origin a (wk_audit w)" "\<And>x. leads (recorded w s0) (f x) E"
  shows "leads (\<lambda>s. site_log s = site_log s0) (and_then (audit_admit a (wk_action w) summary t) f) E"
  by (rule leads_then [OF quiet_audit(1) _ assms(2)]) (use assms(1) admit_passed in \<open>fastforce simp: recorded_def\<close>)

lemma leads_start:
  assumes "shifted 0 = nows (start_reading w)"
    "\<And>ow fresh. wk_run w = RunOpen ow \<Longrightarrow> ow_fresh_until ow = Some fresh \<Longrightarrow> nows 5 \<le> fresh"
    "\<And>x. leads (evidence nows w s0) (f x) E"
  shows "leads (recorded w s0) (and_then (validity_start shifted w) f) E"
proof (rule leads_then [OF quiet_validity(2) _ assms(3)])
  fix s v x s1
  assume "recorded w s0 s" and p: "validity_start shifted w (s, v) = (Inr x, (s1, v))"
  note start_passed [OF p]
  moreover have "recorded w s0 s1" using \<open>recorded w s0 s\<close> calculation(1) by (simp add: recorded_def)
  ultimately show "evidence nows w s0 s1"
    using valid_now [of shifted w s1] marked [of s1 w s] assms(1,2) by (simp add: evidence_def started_valid_def)
qed

lemma leads_call: "leads I (host g) I"
  by (auto simp: leads_def host_def split: prod.splits)

lemma leads_tail:
  assumes "leads I m E" "\<And>x. inert (f x)" "\<And>x s v r s' v'. f x (s, v) = (r, (s', v')) \<Longrightarrow> settled s s'"
    "\<And>s s'. settled s s' \<Longrightarrow> E s \<Longrightarrow> E s'"
  shows "leads I (and_then m f) E"
  unfolding leads_def
proof (intro allI impI)
  fix s v r s' v'
  assume a: "I s" "and_then m f (s, v) = (r, (s', v'))" "v' \<noteq> v"
  obtain y s1 v1 where m: "m (s, v) = (y, (s1, v1))" by (metis prod.collapse)
  show "E s'"
  proof (cases y)
    case (Inl e)
    then show ?thesis using a m assms(1) unfolding leads_def by (auto simp: and_then_def)
  next
    case (Inr x)
    then have f: "f x (s1, v1) = (r, (s', v'))" using a m by (simp add: and_then_def)
    then have "v' = v1" using assms(2) unfolding inert_def by (metis snd_conv)
    then have "E s1" using a m assms(1) unfolding leads_def by blast
    then show ?thesis using assms(3) [OF f] assms(4) by blast
  qed
qed

lemma leads_on_error:
  assumes "leads I m E" "\<And>s. settled s (g s)" "\<And>s s'. settled s s' \<Longrightarrow> E s \<Longrightarrow> E s'"
  shows "leads I (on_error g m) E"
  using assms(1) unfolding leads_def on_error_def
  by (auto split: prod.splits sum.splits intro: assms(3) [OF assms(2)])

lemma leads_change:
  assumes "\<And>s. I s \<Longrightarrow> J (g s)" "\<And>x. leads J (f x) E"
  shows "leads I (and_then (change g) f) E"
  by (rule leads_then [OF quiet_pure(4) _ assms(2)]) (use assms(1) in \<open>auto simp: change_def\<close>)

lemma leads_give: "leads I (and_then (host g) (\<lambda>_. give x)) I"
  by (auto simp: leads_def and_then_def host_def give_def split: prod.splits sum.splits)

section \<open>The jobs\<close>

lemma agent_leads:
  assumes "looks_only R" "start_reading w = 3" "\<And>ow. wk_run w \<noteq> RunOpen ow"
  shows "leads (\<lambda>s. site_log s = site_log s0) (run_agent R nows w session target summary send) (evidence nows w s0)"
  unfolding run_agent_def
  by (intro leads_check leads_host [OF quiet_reads(1) [OF assms(1)]] leads_host [OF quiet_reads(2) [OF assms(1)]] leads_pass
      leads_admit leads_start)
    (simp_all add: same_origin_def later_def assms, rule leads_give)

lemma count_passed:
  assumes "count_input nows w i n (s, v) = (Inr x, (s1, v1))" "wk_run w = RunOp i resource (OpInput bs)" "n = length bs"
  shows "recorded w s s1"
proof -
  obtain s2 where r: "(if stream_bucket i s2 \<noteq> None
       then change (upd_write i (\<lambda>w. w\<lparr>ws_bucket := map_option (\<lambda>b. b\<lparr>bk_bytes := bk_bytes b + n\<rparr>) (ws_bucket w)\<rparr>)) (s2, v)
       else audit_admit (wk_audit w) (wk_action w) (JObj [(''bytes'', jnum n)]) (nows 1) (s2, v)) = (Inr x, (s1, v1))"
    and s2: "s2 = open_bucket (nows 0) i s"
    using assms(1) by (auto simp: count_input_def and_then_def need_def change_def split: if_split_asm)
  show ?thesis
  proof (cases "stream_bucket i s2")
    case None
    have "site_log s2 = site_log s"
      unfolding s2 by (auto simp: open_bucket_def upd_write_def put_stream_def upd_reads_def upd_audit_def site_log_def
          si_audit_def set_events_def dest: log_reserve split: prod.splits bool.splits option.splits)
    then show ?thesis using r None admit_passed(1) unfolding recorded_def same_origin_def by fastforce
  next
    case (Some b)
    then obtain st ws where st: "get_stream i s2 = Some st" "wt_write st = Some ws" "ws_bucket ws = Some b"
      by (auto simp: stream_bucket_def bind_eq_Some_conv)
    have "s1 = upd_write i (\<lambda>w. w\<lparr>ws_bucket := map_option (\<lambda>b. b\<lparr>bk_bytes := bk_bytes b + n\<rparr>) (ws_bucket w)\<rparr>) s2"
      using r Some by (simp add: change_def)
    then have "stream_bucket i s1 = Some (b\<lparr>bk_bytes := bk_bytes b + n\<rparr>)"
      using st by (simp add: stream_bucket_def upd_write_def put_stream_def upd_reads_def get_stream_def)
    then show ?thesis using assms(2,3) by (auto simp: recorded_def)
  qed
qed

lemma op_leads:
  assumes "wk_run w = RunOp i resource op"
  shows "leads (\<lambda>s. s = s0) (run_op P nows w i resource op) (evidence nows w s0)"
proof -
  have start: "leads (recorded w s0) (and_then (validity_start (later 4 nows) w) (\<lambda>_.
      and_then (host (op_call P resource op)) (\<lambda>_. give (OutValue (op_reply i op))))) (evidence nows w s0)"
    by (rule leads_start) (simp_all add: assms later_def start_reading_def, rule leads_give)
  have logged: "recorded w s s1" if "op_audit (later 2 nows) w i op (s, v) = (Inr x, (s1, v'))"
    for s x s1 and v v' :: 'a
  proof (cases op)
    case (OpInput bs)
    then have "count_input (later 2 nows) w i (length bs) (s, v) = (Inr x, (s1, v'))" using that by (simp add: op_audit_def)
    then show ?thesis by (rule count_passed) (use assms OpInput in simp_all)
  next
    case (OpScroll d n)
    then have "audit_admit (wk_audit w) (wk_action w) (JObj [(''accepted'', JBool True)]) (nows 2) (s, v) = (Inr x, (s1, v'))"
      using that by (simp add: op_audit_def later_def)
    then show ?thesis by (rule logged_recorded [OF admit_passed(1)]) simp
  next
    case (OpResize dims)
    then have "audit_admit (wk_audit w) (wk_action w) (JObj [(''accepted'', JBool True)]) (nows 2) (s, v) = (Inr x, (s1, v'))"
      using that by (simp add: op_audit_def later_def)
    then show ?thesis by (rule logged_recorded [OF admit_passed(1)]) simp
  qed
  show ?thesis
    unfolding run_op_def
    by (intro leads_check leads_then [where J = "\<lambda>_. recorded w s0", OF quiet_op_audit _ start]) (use logged in blast)
qed

lemma give_settles: "give x (s, v) = (r, (s', v')) \<Longrightarrow> settled s s'"
  by (simp add: give_def)

lemma open_lease_settles: "open_lease T nows w ow td resource (s, v) = (r, (s', v')) \<Longrightarrow> settled s s'"
  by (auto simp: give_def open_lease_def Let_def on_error_def and_then_def need_def intro: settles
      split: prod.splits sum.splits if_split_asm)

lemma quiet_on_error [quiets]: "inert m \<Longrightarrow> inert (on_error f m)"
  by (auto simp: inert_def on_error_def split: prod.splits sum.splits) (metis snd_conv)+

lemma quiet_open_lease [quiets]: "inert (open_lease T nows w ow td resource)"
  unfolding open_lease_def Let_def by (intro quiets)

lemma open_start_leads:
  assumes "wk_run w = RunOpen ow" "same_origin a (wk_audit w)" "ns = later 2 nows"
  shows "leads (\<lambda>s. site_log s = site_log s0) (open_start P ns w ow a td) (evidence nows w s0)"
proof -
  have "leads (evidence nows w s0) (open_call P ow td) (evidence nows w s0)"
    unfolding open_call_def by (intro leads_on_error leads_call settles) (rule evidence_settled)
  then have call: "leads (evidence nows w s0) (and_then (change (set_leased (ow_stream ow) True)) (\<lambda>_. open_call P ow td)) (evidence nows w s0)"
    by (rule leads_change [rotated]) (rule evidence_settled [OF settled_leased])
  show ?thesis
    unfolding open_start_def
    by (intro leads_admit leads_check leads_need leads_start call assms(2))
      (use assms in \<open>auto simp: later_def start_reading_def\<close>, rule call)
qed

lemma leads_geometry:
  assumes "looks_only R" "\<And>x. leads I (f x) E"
  shows "leads I (and_then (open_geometry (hr_port R) ow) f) E"
proof (rule leads_then [where J = "\<lambda>_. I", OF _ _ assms(2)])
  show "inert (open_geometry (hr_port R) ow)"
    unfolding open_geometry_def
    by (auto split: option.splits prod.splits intro!: quiet_and_then quiet_pure quiet_reads(2) [OF assms(1)])
  show "I s1" if "I s" "open_geometry (hr_port R) ow (s, v) = (Inr x, (s1, v))" for s v x s1
  proof -
    have "s1 = s"
      using that(2) by (auto simp: open_geometry_def and_then_def host_def pass_def give_def split: option.splits prod.splits sum.splits)
    then show ?thesis using that(1) by simp
  qed
qed

lemma leads_announce:
  assumes "\<And>x. leads (\<lambda>s. site_log s = l) (f x) E"
  shows "leads (\<lambda>s. site_log s = l) (and_then (announce_later a) f) E"
proof (rule leads_then [where J = "\<lambda>_ s. site_log s = l", OF quiet_audit(2) _ assms])
  show "site_log s1 = l" if "site_log s = l" "announce_later a (s, v) = (Inr x, (s1, v))" for s v x s1
    using that
    by (auto simp: announce_later_def desk_def reserve_announcement_def set_audit_def upd_audit_def site_log_def si_audit_def
        set_events_def dest: log_reserve split: prod.splits if_split_asm bool.splits)
qed

lemma open_leads:
  assumes "looks_only R" "wk_run w = RunOpen ow"
  shows "leads (\<lambda>s. site_log s = site_log s0) (run_open T R nows w ow) (evidence nows w s0)"
proof -
  let ?E = "evidence nows w s0"
  have start: "leads (\<lambda>s. site_log s = site_log s0)
      (and_then (on_error (drop_announcement True) (open_start (hr_port R) (later 2 nows) w ow ((wk_audit w)\<lparr>ad_target := t\<rparr>) td))
        (\<lambda>resource. give (td, resource))) ?E" for t td
  proof (rule leads_tail [OF leads_on_error [OF open_start_leads [OF assms(2) _ refl] settled_announcement] quiet_pure(1)])
    show "settled s s'" if "give (td, resource) (s, v) = (r, (s', v'))" for resource s v r s' v'
      by (rule give_settles [OF that])
  qed (simp_all add: same_origin_def evidence_settled)
  have body: "leads (\<lambda>s. site_log s = site_log s0) (on_error (upd_jobs (drop_run (RunOpen ow)))
       (and_then (validity_check nows w) (\<lambda>_.
        and_then (host (reads_running R (ow_session ow))) (\<lambda>_.
        and_then (open_geometry (hr_port R) ow) (\<lambda>td.
        let a = (wk_audit w)\<lparr>ad_target := fst td\<rparr>
        in and_then (announce_later a) (\<lambda>_.
           and_then (on_error (drop_announcement True) (open_start (hr_port R) (later 2 nows) w ow a td)) (\<lambda>resource.
           give (td, resource)))))))) ?E"
    unfolding Let_def
    by (intro leads_on_error leads_check leads_host [OF quiet_reads(1) [OF assms(1)]] leads_geometry [OF assms(1)]
        leads_announce start settled_jobs) (rule evidence_settled)
  show ?thesis
    unfolding run_open_def
  proof (rule leads_tail [OF body])
    show "inert (case x of (td, resource) \<Rightarrow> on_error (drop_announcement True) (open_lease T (later 20 nows) w ow td resource))" for x
      by (cases x) (simp add: quiets)
    show "settled s s'"
      if "(case x of (td, resource) \<Rightarrow> on_error (drop_announcement True) (open_lease T (later 20 nows) w ow td resource)) (s, v) = (r, (s', v'))"
      for x s v r s' v'
    proof -
      obtain td resource where x: "x = (td, resource)" by fastforce
      obtain q s1 v1 where l: "open_lease T (later 20 nows) w ow td resource (s, v) = (q, (s1, v1))" by (metis prod.collapse)
      then have "s' = s1 \<or> s' = drop_announcement True s1" using that x by (auto simp: on_error_def split: sum.splits)
      then show ?thesis using open_lease_settles [OF l] settled_trans settled_announcement by blast
    qed
  qed (rule evidence_settled)
qed

lemma write_leads:
  assumes "looks_only (en_reads V)"
  shows "leads (\<lambda>s. s = s0) (run_write V nows w) (evidence nows w s0)"
proof -
  have weaker: "leads (\<lambda>s. s = s0) m E" if "leads (\<lambda>s. site_log s = site_log s0) m E"
    for m :: "(site \<times> 'a, job_output) seq" and E
    using that by (simp add: leads_def)
  show ?thesis
  proof (cases "wk_run w")
    case (RunPrompt session target str)
    then show ?thesis by (simp add: run_write_def weaker agent_leads [OF assms] start_reading_def)
  next
    case (RunKeys session target keys)
    then show ?thesis by (simp add: run_write_def weaker agent_leads [OF assms] start_reading_def)
  next
    case (RunOp i resource op)
    then show ?thesis by (simp add: run_write_def op_leads)
  next
    case (RunOpen ow)
    then show ?thesis by (simp add: run_write_def weaker open_leads [OF assms])
  qed
qed

text \<open>What the release of the leases of displaced streams, which a job starts with, does to the Host.\<close>

definition hand_back :: "'w herdr_port \<Rightarrow> lease list \<Rightarrow> 'w \<Rightarrow> 'w" where
  "hand_back P ls v = fold (\<lambda>l. hp_release P (le_resource l)) ls v"

lemma release_leases_host: "snd (release_leases P ls (s, v)) = hand_back P ls v"
  by (induction ls arbitrary: s v) (simp_all add: release_now_def hand_back_def)

lemma settled_release: "settled s (fst (release_leases P ls (s, v)))"
proof (induction ls arbitrary: s v)
  case (Cons l ls)
  obtain j v1 where r: "release_now P l (si_jobs s) v = (j, v1)" by (cases "release_now P l (si_jobs s) v")
  have "settled s (upd_jobs (\<lambda>_. j) s)" by (rule settled_jobs)
  then have "settled s (s\<lparr>si_jobs := j\<rparr>)" by (simp add: upd_jobs_def)
  from settled_trans [OF this Cons.IH [of "s\<lparr>si_jobs := j\<rparr>" v1]] show ?case by (simp add: r)
qed simp

lemma recorded_after: "settled s s1 \<Longrightarrow> site_log s1 = site_log s \<Longrightarrow> recorded w s1 s' \<Longrightarrow> recorded w s s'"
  by (auto simp: recorded_def)

lemma release_log [simp]: "site_log (fst (release_leases P ls (s, v))) = site_log s"
proof (induction ls arbitrary: s v)
  case (Cons l ls)
  obtain j v1 where r: "release_now P l (si_jobs s) v = (j, v1)" by (cases "release_now P l (si_jobs s) v")
  have "site_log (s\<lparr>si_jobs := j\<rparr>) = site_log s" by (simp add: site_log_def si_audit_def)
  then show ?case using Cons.IH [of "s\<lparr>si_jobs := j\<rparr>" v1] by (simp add: r)
qed simp

text \<open>
  C4: A job is handed leases when it opens a full session that displaces control streams, and it
  starts by releasing them on the Host. A job that changed the Host in any other way did so with a
  write that was still valid: it had started and nobody had cancelled it, the connection was up, the
  elevation had not ended at the last reading of the clock before the call, and an open that needs a
  fresh elevation had one. And the audit trail has it, as an event with the device, connection, session
  and scope of the write, or counted by the bucket of its stream. The Host's read calls are taken to
  change nothing.
\<close>

theorem host_write_audited:
  assumes "looks_only (en_reads V)" "write_job V nows w ls (s, v) = (r, (s', v'))"
    and "v' \<noteq> hand_back (hr_port (en_reads V)) ls v"
  shows "started_valid nows w s' \<and> recorded w s s'"
proof -
  let ?sw = "release_leases (hr_port (en_reads V)) ls (s, v)"
  obtain s0 v0 where sw: "?sw = (s0, v0)" by (cases ?sw)
  have s0: "settled s s0" "site_log s0 = site_log s" "v0 = hand_back (hr_port (en_reads V)) ls v"
    using settled_release [of s "hr_port (en_reads V)" ls v] release_log [of "hr_port (en_reads V)" ls s v]
      release_leases_host [of "hr_port (en_reads V)" ls s v] sw by simp_all
  obtain q s1 v1 where run: "run_write V nows w (s0, v0) = (q, (s1, v1))" by (metis prod.collapse)
  then have eq: "v1 = v'" "settled s1 s'"
    using assms(2) sw by (auto simp: write_job_def intro: settles split: sum.splits)
  have "evidence nows w s0 s1"
    using write_leads [OF assms(1), of s0 nows w] run assms(3) eq(1) s0(3) unfolding leads_def by blast
  then show ?thesis using evidence_settled [OF eq(2)] recorded_after [OF s0(1,2)] by (auto simp: evidence_def)
qed

text \<open>Only the open of a full session is handed leases.\<close>

lemma displaced_by_full: "displaced w s \<noteq> [] \<Longrightarrow> \<exists>st. opening_full w s = Some st \<and> write_scope st = Some Full"
  by (auto simp: displaced_def opening_full_def split: option.splits if_splits)

end
