(* ===== verification/Peer_Demo.thy ===== *)
theory Peer_Demo
  imports Peer_Security Peer_Audit
begin

text \<open>
  A run of one connection on concrete inputs: the phone of \<open>Session_Security\<close>, elevated for control until
  4000, opens the control of a terminal, types into it and releases it. The properties of the
  connection are witnessed on its states. The Host counts the writes it
  has received, and ten for a release.
\<close>

definition wire_port :: "nat herdr_port" where
  "wire_port =
     \<lparr>hp_sessions = (\<lambda>w. (Inr [demo_named ''main'' False, demo_named ''live'' True], w)),
      hp_snapshot = (\<lambda>session w. (Inr demo_raw, w)),
      hp_observe = (\<lambda>session target dims sink w. (Inr ''t1'', w)),
      hp_subscribe = (\<lambda>session panes sink w. (Inr ''e1'', w)),
      hp_release = (\<lambda>r w. w + 10),
      hp_control = (\<lambda>session target dims takeover sink w. (Inr ''t2'', w + 1)),
      hp_full = (\<lambda>session dims sink w. (Inr ''t3'', w + 1)),
      hp_input = (\<lambda>res bs w. (Inr (), w + 1)),
      hp_scroll = (\<lambda>res d n w. (Inr (), w + 1)),
      hp_resize = (\<lambda>res dims w. (Inr (), w + 1)),
      hp_prompt = (\<lambda>session target str w. (Inr (), w + 1)),
      hp_keys = (\<lambda>session target keys w. (Inr (), w + 1))\<rparr>"

definition wire_git :: "nat host_git" where
  "wire_git = \<lparr>hg_require_trusted = (\<lambda>root w. (Some ''untrusted'', w)), hg_detect = (\<lambda>root w. (Inl ''untrusted'', w)),
     hg_read_root = (\<lambda>root c dir w. (Inl ''untrusted'', w))\<rparr>"

text \<open>The JSON texts of the run.\<close>

definition call_json :: "int \<Rightarrow> string \<Rightarrow> (string \<times> json) list \<Rightarrow> json" where
  "call_json i meth params = JObj [(''id'', JNum i), (''method'', JStr meth), (''params'', JObj params)]"

definition wire_json :: "string \<Rightarrow> json option" where
  "wire_json s =
     (if s = ''{open}'' then
        Some (call_json 1 ''terminal.control'' [(''session'', JStr ''live''), (''target'', JStr ''p1''), (''confirmResize'', JBool True)])
      else if s = ''{input}'' then
        Some (call_json 2 ''terminal.input'' [(''stream'', JNum 1), (''bytesB64'', JStr ''TWFu'')])
      else if s = ''{release}'' then Some (call_json 3 ''terminal.release'' [(''stream'', JNum 1)])
      else None)"

definition wire_env :: "nat env" where
  "wire_env = \<lparr>en_X = demo_ext, en_J = wire_json, en_S = (\<lambda>_. []), en_T = JNum, en_E = demo_b64, en_D = demo_unb64,
     en_reads = \<lparr>hr_port = wire_port, hr_allowlist = [''live'']\<rparr>, en_git = wire_git\<rparr>"

definition wire_site :: site where
  "wire_site = \<lparr>si_gateway = demo_gateway, si_jobs = jobs_new, si_cursors = cursors_default, si_detected = [],
     si_reads = reads_new 7\<rparr>"

definition wire_frame :: "timestamp \<Rightarrow> string \<Rightarrow> site \<Rightarrow> ((close + json option) \<times> site) option" where
  "wire_frame t str s = on_frame wire_env (\<lambda>k. t + int k) demo_ctx (MText str) s"

definition wire_opening :: site where "wire_opening = snd (the (wire_frame 400 ''{open}'' wire_site))"

definition wire_started :: site where "wire_started = snd (pump_writes (\<lambda>k. 410 + int k) wire_opening)"

definition wire_job :: running where "wire_job = hd (rd_running (si_reads wire_started))"

definition wire_opened :: "site \<times> nat" where
  "wire_opened = snd (complete wire_env (\<lambda>k. 420 + int k) None wire_job (wire_started, 0))"

definition wire_work :: work where "wire_work = hd (rd_queue (si_reads wire_opening))"

definition wire_displaced :: lease where
  "wire_displaced = \<lparr>le_resource = Observe ''t9'', le_full = None\<rparr>"

definition wire_written :: "(string + job_output) \<times> site \<times> nat" where
  "wire_written = write_job wire_env (\<lambda>k. 420 + int k) wire_work [wire_displaced] (wire_opening, 0)"

definition wire_typed :: site where "wire_typed = snd (the (wire_frame 600 ''{input}'' (fst wire_opened)))"

text \<open>The run is evaluated once; its facts are read off.\<close>

lemma wire_run:
  "let r1 = wire_frame 400 ''{open}'' wire_site; s1 = snd (the r1);
       s2 = snd (pump_writes (\<lambda>k. 410 + int k) s1);
       s3 = snd (complete wire_env (\<lambda>k. 420 + int k) None (hd (rd_running (si_reads s2))) (s2, 0));
       r4 = wire_frame 600 ''{input}'' (fst s3)
   in \<not> Option.is_none r1 \<and> fst (the r1) = Inr None \<and> length (rd_queue (si_reads s1)) = 1
      \<and> length (rd_running (si_reads s2)) = 1
      \<and> snd (snd (write_job wire_env (\<lambda>k. 420 + int k) (hd (rd_queue (si_reads s1))) [wire_displaced] (s1, 0))) = 11
      \<and> \<not> Option.is_none r4 \<and> fst (the r4) = Inr None"
  by code_simp

lemmas wire_facts = wire_run [unfolded Let_def, folded wire_opening_def, folded wire_started_def wire_work_def,
  folded wire_job_def wire_written_def, folded wire_opened_def, folded wire_typed_def]

lemma wire_frame_some: "wire_frame 400 ''{open}'' wire_site = Some (Inr None, wire_opening)"
  using wire_facts by (auto simp: wire_opening_def Option.is_none_def)

lemma wire_running: "rd_running (si_reads wire_started) \<noteq> []"
  using wire_facts by auto

lemma wire_typed_some: "wire_frame 600 ''{input}'' (fst wire_opened) = Some (Inr None, wire_typed)"
  using wire_facts by (auto simp: wire_typed_def Option.is_none_def)

lemma wire_reach_opened: "wire_reach wire_env wire_opened"
proof -
  have "wire_reach wire_env (wire_site, 0)" by (rule wire_start [of _ 7]) (simp add: wire_site_def)
  then have "wire_reach wire_env (wire_opening, 0)"
    by (rule wire_more) (rule w_frame [OF wire_frame_some [unfolded wire_frame_def]])
  then have "wire_reach wire_env (wire_started, 0)"
    by (rule wire_more) (rule w_pump, simp add: wire_started_def prod_eq_iff)
  then show ?thesis
  proof (rule wire_more)
    have "wire_job \<in> set (rd_running (si_reads wire_started))" using wire_running by (simp add: wire_job_def)
    moreover have "complete wire_env (\<lambda>k. 420 + int k) None wire_job (wire_started, 0)
        = (fst (complete wire_env (\<lambda>k. 420 + int k) None wire_job (wire_started, 0)), (fst wire_opened, snd wire_opened))"
      by (simp add: wire_opened_def)
    ultimately have "wire_step wire_env (wire_started, 0) (fst wire_opened, snd wire_opened)" by (rule w_complete)
    then show "wire_step wire_env (wire_started, 0) wire_opened" by simp
  qed
qed

lemma wire_reach_typed: "wire_reach wire_env (wire_typed, snd wire_opened)"
proof -
  have "wire_reach wire_env (fst wire_opened, snd wire_opened)" using wire_reach_opened by simp
  then show ?thesis by (rule wire_more) (rule w_frame [OF wire_typed_some [unfolded wire_frame_def]])
qed

section \<open>Witnesses\<close>

theorem connection_invariant_witness:
  "length (rd_queue (si_reads wire_typed)) \<le> 16
   \<and> rd_pending (si_reads wire_typed) + reads_running_now (si_reads wire_typed) + length (rd_waiting (si_reads wire_typed)) = 2"
  using connection_invariant [OF wire_reach_typed] by simp

theorem connection_refines_channel_witness: "chan_reach (rd_chan (si_reads wire_typed))"
  by (rule connection_refines_channel [OF wire_reach_typed])

lemma wire_queue: "rd_queue (si_reads wire_opening) = [wire_work]"
  using wire_facts by (cases "rd_queue (si_reads wire_opening)") (simp_all add: wire_work_def)

lemma wire_done: "snd (snd wire_written) = 11" using wire_facts by simp

theorem host_write_audited_witness:
  "started_valid (\<lambda>k. 420 + int k) wire_work (fst (snd wire_written)) \<and> recorded wire_work wire_opening (fst (snd wire_written))"
proof (rule host_write_audited)
  show "looks_only (en_reads wire_env)" by (simp add: looks_only_def wire_env_def wire_port_def)
  show "write_job wire_env (\<lambda>k. 420 + int k) wire_work [wire_displaced] (wire_opening, 0)
      = (fst wire_written, (fst (snd wire_written), snd (snd wire_written)))" by (simp add: wire_written_def)
  show "snd (snd wire_written) \<noteq> hand_back (hr_port (en_reads wire_env)) [wire_displaced] 0"
    using wire_done by (simp add: hand_back_def wire_env_def wire_port_def)
qed

definition wire_params :: json where
  "wire_params = JObj [(''session'', JStr ''live''), (''target'', JStr ''p1''), (''confirmResize'', JBool True)]"

definition wire_queued :: site where
  "wire_queued = snd (the (write_call demo_unb64 (\<lambda>k. 400 + int k) demo_ctx (JNum 1) ''terminal.control'' wire_params wire_site))"

lemma wire_queued_run:
  "let r = write_call demo_unb64 (\<lambda>k. 400 + int k) demo_ctx (JNum 1) ''terminal.control'' wire_params wire_site;
       s = snd (the r); i = gw_identity (si_gateway s); r0 = revalidate demo_ctx View 400 i; st = get_stream 1 s
   in \<not> Option.is_none r \<and> length (rd_queue (si_reads s)) = 1
      \<and> list_all (\<lambda>w. wk_stream w = Some 1) (rd_queue (si_reads s))
      \<and> fst r0 \<and> fst (revalidate demo_ctx View 402 (snd r0))
      \<and> \<not> Option.is_none st \<and> write_scope (the st) = Some Control
      \<and> cx_rp_id demo_ctx = gw_rp_id (si_gateway s)"
  by code_simp

lemmas wire_queued_facts = wire_queued_run [unfolded Let_def, folded wire_queued_def]

lemma wire_queued_some:
  "write_call demo_unb64 (\<lambda>k. 400 + int k) demo_ctx (JNum 1) ''terminal.control'' wire_params wire_site
     = Some (fst (the (write_call demo_unb64 (\<lambda>k. 400 + int k) demo_ctx (JNum 1) ''terminal.control'' wire_params wire_site)), wire_queued)"
  using wire_queued_facts by (auto simp: wire_queued_def Option.is_none_def)

theorem admitted_write_authorized_witness:
  "\<exists>w sess d. w \<in> set (rd_queue (si_reads wire_queued)) \<and> write_authority demo_ctx Control 402 demo_idt sess d
     \<and> scope_until sess Control = Some (wk_until w) \<and> 402 < wk_until w"
proof -
  have "length (rd_queue (si_reads wire_queued)) = 1" using wire_queued_facts by simp
  then obtain w where w: "w \<in> set (rd_queue (si_reads wire_queued))" by (cases "rd_queue (si_reads wire_queued)") auto
  moreover have "w \<notin> set (rd_queue (si_reads wire_site))" by (simp add: wire_site_def reads_new_def)
  moreover have "method_scope ''terminal.control'' = Control" by code_simp
  ultimately show ?thesis
    using admitted_write_authorized [OF wire_queued_some w] by (auto simp: wire_site_def demo_gateway_def)
qed

definition wire_close :: json where "wire_close = JObj [(''stream'', JNum 1)]"

theorem release_always_possible_witness:
  "\<exists>s'. write_call demo_unb64 (\<lambda>k. 400 + int k) demo_ctx (JNum 3) ''terminal.release'' wire_close wire_queued =
      Some (Inr (Some (read_reply (JNum 3) (JObj [(''stream'', JNum 1), (''closed'', JBool True)]))), s')
    \<and> get_stream 1 s' = None \<and> rd_queue (si_reads s') = []"
proof -
  let ?idt = "gw_identity (si_gateway wire_queued)"
  let ?i0 = "snd (revalidate demo_ctx View 400 ?idt)"
  let ?i1 = "snd (revalidate demo_ctx View 402 ?i0)"
  have ok: "fst (revalidate demo_ctx View 400 ?idt)" "fst (revalidate demo_ctx View 402 ?i0)" using wire_queued_facts by simp_all
  then have r: "revalidate demo_ctx View 400 ?idt = (True, ?i0)" "revalidate demo_ctx View 402 ?i0 = (True, ?i1)"
    by (simp_all add: prod_eq_iff)
  obtain st where st: "get_stream 1 wire_queued = Some st" "write_scope st = Some Control"
    using wire_queued_facts by (auto simp: Option.is_none_def)
  have m: "is_tightening ''terminal.release''" "method_scope ''terminal.release'' = Control"
      "parse_params close_params_of wire_close = Inr 1"
    by code_simp+
  have rp: "cx_rp_id demo_ctx = gw_rp_id (si_gateway wire_queued)" using wire_queued_facts by simp
  have q: "filter (\<lambda>w. wk_stream w \<noteq> Some 1) (rd_queue (si_reads wire_queued)) = []"
  using wire_queued_facts by (auto simp: list_all_iff filter_empty_conv)
  have "write_scope st = Some (method_scope ''terminal.release'')" using st(2) m(2) by simp
  from release_always_possible [OF m(1,3) st(1) this rp, of "\<lambda>k. 400 + int k" ?i0 ?i1 demo_unb64 "JNum 3"]
  show ?thesis using r q by auto
qed

end
