(* ===== verification/Http_Static.thy ===== *)
theory Http_Static
  imports Herdr
begin

text \<open>
  \<open>companion/src/http.rs\<close>, the files of the web application: the replies, which names of a path may be
  served, and how a path becomes a file below the web root.

  The file system is the parameter \<open>web_files\<close>: \<open>canonicalize\<close>, \<open>open\<close>, the metadata and the content of
  an open file. A reply holds the headers the source sets; those that the framework derives from a
  body (the type and length of a plain message) are not part of it. Header names are distinct, since
  the source only inserts.
\<close>

section \<open>Replies\<close>

datatype reply_body = Empty | Message string | Content string

record reply =
  re_status :: status_code
  re_headers :: "(string, string) hmap"
  re_body :: reply_body

definition status_reply :: "status_code \<Rightarrow> reply" where
  "status_reply st = \<lparr>re_status = st, re_headers = [], re_body = Empty\<rparr>"

definition failure_reply :: "failure \<Rightarrow> reply" where
  "failure_reply f = \<lparr>re_status = fst f, re_headers = [], re_body = Message (snd f)\<rparr>"

definition put_header :: "string \<Rightarrow> string \<Rightarrow> reply \<Rightarrow> reply" where
  "put_header k v r = r\<lparr>re_headers := hm_insert k v (re_headers r)\<rparr>"

section \<open>Names\<close>

definition DEVICE_NAMES :: "string list" where
  "DEVICE_NAMES = [''CON'', ''PRN'', ''AUX'', ''NUL'']"

definition device_name :: "string \<Rightarrow> bool" where
  "device_name stem \<longleftrightarrow> stem \<in> set DEVICE_NAMES
     \<or> (length stem = 4 \<and> (starts_with stem ''COM'' \<or> starts_with stem ''LPT'')
        \<and> 49 \<le> code (stem ! 3) \<and> code (stem ! 3) \<le> 57)"

definition valid_static_segment :: "string \<Rightarrow> bool" where
  "valid_static_segment segment =
     (case segment of
        [] \<Rightarrow> False
      | b # bs \<Rightarrow>
          (is_ascii_alphanumeric b \<or> b = CHR ''_'' \<or> b = CHR ''-'')
          \<and> list_all (\<lambda>b. is_ascii_alphanumeric b \<or> b \<in> set ''._-'') bs
          \<and> \<not> ends_with segment ''.''
          \<and> \<not> device_name (map to_ascii_uppercase (hd (split_on (CHR ''.'') segment))))"

definition static_path_ok :: "string \<Rightarrow> bool" where
  "static_path_ok path \<longleftrightarrow>
     find_str ''..'' path = None
     \<and> (path = ''/''
        \<or> (case strip_prefix ''/'' path of
             None \<Rightarrow> False
           | Some relative \<Rightarrow> list_all valid_static_segment (split_on (CHR ''/'') relative)))"

definition static_relative :: "string \<Rightarrow> string option" where
  "static_relative path =
     (if path \<in> {''/'', ''/index.html'', ''/pair''} then Some ''index.html''
      else if path = ''/manifest.webmanifest'' then Some ''manifest.webmanifest''
      else if path = ''/sw.js'' then Some ''sw.js''
      else if starts_with path ''/assets/'' \<or> starts_with path ''/icons/'' then Some (drop 1 path)
      else None)"

section \<open>Paths\<close>

text \<open>\<open>Path::join\<close>, \<open>Path::starts_with\<close> and \<open>Path::extension\<close> on Unix, for paths without dot components.\<close>

definition path_join :: "string \<Rightarrow> string \<Rightarrow> string" where
  "path_join root relative =
     (if starts_with relative ''/'' then relative
      else if root = [] \<or> ends_with root ''/'' then root @ relative
      else root @ ''/'' @ relative)"

definition path_components :: "string \<Rightarrow> string list" where
  "path_components p =
     (if starts_with p ''/'' then [''/''] else [])
       @ filter (\<lambda>s. s \<noteq> [] \<and> s \<noteq> ''.'') (split_on (CHR ''/'') p)"

definition path_starts_with :: "string \<Rightarrow> string \<Rightarrow> bool" where
  "path_starts_with p base \<longleftrightarrow>
     take (length (path_components base)) (path_components p) = path_components base"

definition path_extension :: "string \<Rightarrow> string option" where
  "path_extension p =
     (let name = last (split_on (CHR ''/'') p); ps = split_on (CHR ''.'') name
      in if name = ''..'' \<or> length ps < 2 \<or> (length ps = 2 \<and> hd ps = []) then None
         else Some (last ps))"

section \<open>Files\<close>

definition MAX_STATIC_BYTES :: nat where "MAX_STATIC_BYTES = 16 * 1024 * 1024"

record web_file =
  wf_is_file :: bool
  wf_len :: nat

record 'f web_files =
  fs_canonicalize :: "string \<Rightarrow> string option"
  fs_open :: "string \<Rightarrow> 'f option"
  fs_metadata :: "'f \<Rightarrow> web_file option"
  fs_read :: "'f \<Rightarrow> string"

definition CONTENT_TYPES :: "(string \<times> string) list" where
  "CONTENT_TYPES =
     [(''html'', ''text/html; charset=utf-8''),
      (''js'', ''text/javascript; charset=utf-8''), (''mjs'', ''text/javascript; charset=utf-8''),
      (''css'', ''text/css; charset=utf-8''),
      (''webmanifest'', ''application/manifest+json''),
      (''json'', ''application/json''), (''map'', ''application/json''),
      (''svg'', ''image/svg+xml''),
      (''png'', ''image/png''),
      (''ico'', ''image/x-icon''),
      (''webp'', ''image/webp''),
      (''woff2'', ''font/woff2''),
      (''woff'', ''font/woff''),
      (''jpg'', ''image/jpeg''), (''jpeg'', ''image/jpeg''),
      (''txt'', ''text/plain; charset=utf-8''),
      (''wasm'', ''application/wasm'')]"

definition content_type :: "string \<Rightarrow> string" where
  "content_type relative =
     (case Option.bind (path_extension relative) (map_of CONTENT_TYPES) of
        None \<Rightarrow> ''application/octet-stream''
      | Some t \<Rightarrow> t)"

definition cache_control :: "string \<Rightarrow> string" where
  "cache_control path =
     (if starts_with path ''/assets/'' then ''public, max-age=31536000, immutable'' else ''no-cache'')"

text \<open>What is served for a path: the open file with its length, or nothing.\<close>

definition static_open :: "'f web_files \<Rightarrow> string \<Rightarrow> string \<Rightarrow> ('f \<times> nat) option" where
  "static_open fs root relative =
     (case fs_canonicalize fs (path_join root relative) of
        None \<Rightarrow> None
      | Some canonical \<Rightarrow>
          if \<not> path_starts_with canonical root then None
          else (case fs_open fs canonical of
                  None \<Rightarrow> None
                | Some f \<Rightarrow>
                    (case fs_metadata fs f of
                       None \<Rightarrow> None
                     | Some m \<Rightarrow>
                         if \<not> wf_is_file m \<or> wf_len m > MAX_STATIC_BYTES then None
                         else Some (f, wf_len m))))"

definition file_reply :: "string \<Rightarrow> string \<Rightarrow> string \<Rightarrow> nat \<Rightarrow> reply" where
  "file_reply path relative bytes len =
     put_header ''content-length'' (nat_str len)
       \<lparr>re_status = OK,
        re_headers = [(''content-type'', content_type relative), (''cache-control'', cache_control path)],
        re_body = Content (take len bytes)\<rparr>"

definition static_file :: "'f web_files \<Rightarrow> string \<Rightarrow> string \<Rightarrow> reply" where
  "static_file fs root path =
     (if \<not> static_path_ok path then status_reply NOT_FOUND
      else case static_relative path of
        None \<Rightarrow> status_reply NOT_FOUND
      | Some relative \<Rightarrow>
          (case static_open fs root relative of
             None \<Rightarrow> status_reply NOT_FOUND
           | Some (f, len) \<Rightarrow> file_reply path relative (fs_read fs f) len))"

end
