(* ===== verification/Http_Api.thy ===== *)
theory Http_Api
  imports Calls Http_Static
begin

text \<open>
  \<open>companion/src/http.rs\<close>: the bodies of the API, read and written, and the handlers of its routes.
  A reader is the \<open>Deserialize\<close> of a request struct on what \<open>J\<close>, the JSON parser, reads from the bytes
  of a body; \<open>V\<close> is \<open>serde_json::to_vec\<close>. What a handler draws and reads from the clock are
  the fields of a \<open>draw\<close>: drawn bytes (\<open>None\<close> when the generator fails), a challenge of the WebAuthn
  library, and readings, the \<open>k\<close>-th of the handler at \<open>k\<close>.
\<close>

section \<open>Reading requests\<close>

definition from_slice :: "(string \<Rightarrow> json option) \<Rightarrow> (json \<Rightarrow> 'a option) \<Rightarrow> string \<Rightarrow> 'a option" where
  "from_slice J rd body = Option.bind (J body) rd"

definition claim_request_of :: "json \<Rightarrow> claim_request option" where
  "claim_request_of v =
     (case struct_fields [''pairingId'', ''secret'', ''deviceLabel'', ''deviceNonce''] v of
        None \<Rightarrow> None
      | Some fs \<Rightarrow>
          (case (req_field json_as_str fs ''pairingId'', req_field json_as_str fs ''secret'',
                 req_field json_as_str fs ''deviceLabel'', req_field json_as_str fs ''deviceNonce'') of
             (Some p, Some s, Some l, Some n) \<Rightarrow>
               Some \<lparr>cl_pairing_id = p, cl_secret = s, cl_device_label = l, cl_device_nonce = n\<rparr>
           | _ \<Rightarrow> None))"

definition status_request_of :: "json \<Rightarrow> status_request option" where
  "status_request_of v =
     (case struct_fields [''pairingId'', ''claimToken''] v of
        None \<Rightarrow> None
      | Some fs \<Rightarrow>
          (case (req_field json_as_str fs ''pairingId'', req_field json_as_str fs ''claimToken'') of
             (Some p, Some t) \<Rightarrow> Some \<lparr>sq_pairing_id = p, sq_claim_token = t\<rparr>
           | _ \<Rightarrow> None))"

definition registration_options_of :: "json \<Rightarrow> registration_options option" where
  "registration_options_of v =
     (case struct_fields [''pairingId'', ''registrationTicket''] v of
        None \<Rightarrow> None
      | Some fs \<Rightarrow>
          (case (req_field json_as_str fs ''pairingId'', req_field json_as_str fs ''registrationTicket'') of
             (Some p, Some t) \<Rightarrow> Some \<lparr>go_pairing_id = p, go_registration_ticket = t\<rparr>
           | _ \<Rightarrow> None))"

definition registration_finish_of :: "json \<Rightarrow> registration_finish option" where
  "registration_finish_of v =
     (case struct_fields [''pairingId'', ''credential''] v of
        None \<Rightarrow> None
      | Some fs \<Rightarrow>
          (case (req_field json_as_str fs ''pairingId'', req_field Some fs ''credential'') of
             (Some p, Some c) \<Rightarrow> Some \<lparr>gf_pairing_id = p, gf_credential = c\<rparr>
           | _ \<Rightarrow> None))"

definition login_options_of :: "json \<Rightarrow> unit option" where
  "login_options_of v = map_option (\<lambda>_. ()) (struct_fields [] v)"

definition login_finish_of :: "json \<Rightarrow> json option" where
  "login_finish_of v =
     (case struct_fields [''credential''] v of None \<Rightarrow> None | Some fs \<Rightarrow> req_field Some fs ''credential'')"

text \<open>A unit variant: its name in lower case, or an object of the name with null.\<close>

definition scope_of_name :: "string \<Rightarrow> scope option" where
  "scope_of_name s =
     (if s = ''view'' then Some View
      else if s = ''control'' then Some Control
      else if s = ''full'' then Some Full
      else None)"

definition json_scope :: "json \<Rightarrow> scope option" where
  "json_scope v =
     (case v of
        JStr s \<Rightarrow> scope_of_name s
      | JObj [(s, JNull)] \<Rightarrow> scope_of_name s
      | _ \<Rightarrow> None)"

definition elevation_options_of :: "json \<Rightarrow> scope option" where
  "elevation_options_of v =
     (case struct_fields [''scope''] v of None \<Rightarrow> None | Some fs \<Rightarrow> req_field json_scope fs ''scope'')"

definition elevation_finish_of :: "json \<Rightarrow> (scope \<times> json) option" where
  "elevation_finish_of v =
     (case struct_fields [''scope'', ''credential''] v of
        None \<Rightarrow> None
      | Some fs \<Rightarrow>
          (case (req_field json_scope fs ''scope'', req_field Some fs ''credential'') of
             (Some s, Some c) \<Rightarrow> Some (s, c)
           | _ \<Rightarrow> None))"

section \<open>Writing results\<close>

definition state_name :: "pstate \<Rightarrow> string" where
  "state_name st =
     (case st of Pending \<Rightarrow> ''pending'' | Approved \<Rightarrow> ''approved'' | Rejected \<Rightarrow> ''rejected''
      | Expired \<Rightarrow> ''expired'' | Registering \<Rightarrow> ''registering'' | Registered \<Rightarrow> ''registered'')"

definition claim_json :: "claim_response \<Rightarrow> json" where
  "claim_json r =
     JObj [(''gatewayNonce'', JStr (cp_gateway_nonce r)), (''sas'', JStr (cp_sas r)),
           (''claimToken'', JStr (cp_claim_token r))]"

definition poll_json :: "status_response \<Rightarrow> json" where
  "poll_json r =
     JObj ((''state'', JStr (state_name (sp_state r)))
           # (case sp_registration_ticket r of None \<Rightarrow> [] | Some t \<Rightarrow> [(''registrationTicket'', JStr t)]))"

definition registered_json :: "string \<Rightarrow> json" where
  "registered_json did = JObj [(''deviceId'', JStr did)]"

definition login_json :: "string \<Rightarrow> string \<Rightarrow> json" where
  "login_json binding did =
     JObj [(''binding'', JStr binding), (''deviceId'', JStr did), (''scopes'', JArr [JStr (scope_name View)])]"

definition elevated_json :: "(timestamp \<Rightarrow> json) \<Rightarrow> scope \<Rightarrow> timestamp \<Rightarrow> json" where
  "elevated_json T scope until = JObj [(''scope'', JStr (scope_name scope)), (''until'', T until)]"

definition INVALID_JSON :: failure where "INVALID_JSON = (BAD_REQUEST, ''Invalid API request'')"

definition invalid_json :: reply where
  "invalid_json = failure_reply INVALID_JSON"

definition json_result :: "(json \<Rightarrow> string option) \<Rightarrow> failure + json \<Rightarrow> reply" where
  "json_result V result =
     (case result of
        Inl f \<Rightarrow> failure_reply f
      | Inr value \<Rightarrow>
          (case V value of
             None \<Rightarrow> failure_reply (INTERNAL_SERVER_ERROR, ''Response unavailable'')
           | Some body \<Rightarrow>
               \<lparr>re_status = OK, re_headers = [(''content-type'', ''application/json'')], re_body = Content body\<rparr>))"

section \<open>The handlers\<close>

record draw =
  dr_first :: "bytes option"
  dr_second :: "bytes option"
  dr_challenge :: challenge
  dr_now :: "nat \<Rightarrow> timestamp"

record api =
  ai_ext :: ext
  ai_lib :: webauthn_lib
  ai_json :: "string \<Rightarrow> json option"
  ai_vec :: "json \<Rightarrow> string option"
  ai_time :: "timestamp \<Rightarrow> json"

text \<open>A handler that panics is \<open>None\<close>.\<close>

definition claim_handler :: "api \<Rightarrow> headers \<Rightarrow> string \<Rightarrow> draw \<Rightarrow> gateway \<Rightarrow> (reply \<times> gateway) option" where
  "claim_handler A hs body d g =
     (case from_slice (ai_json A) claim_request_of body of
        None \<Rightarrow> Some (invalid_json, g)
      | Some req \<Rightarrow>
          (case (case get_all hs ''user-agent'' of [] \<Rightarrow> Some '''' | v # _ \<Rightarrow> header_to_str v) of
             None \<Rightarrow> Some (invalid_json, g)
           | Some ua \<Rightarrow>
               (case claim (ai_ext A) req ua (dr_now d 0) (dr_first d) (dr_second d) (gw_pairings g) (gw_events g) of
                  (Inl f, ps, es) \<Rightarrow> Some (json_result (ai_vec A) (Inl f), set_gw_events es (g\<lparr>gw_pairings := ps\<rparr>))
                | (Inr None, _, _) \<Rightarrow> None
                | (Inr (Some r), ps, es) \<Rightarrow>
                    Some (json_result (ai_vec A) (Inr (claim_json r)), set_gw_events es (g\<lparr>gw_pairings := ps\<rparr>)))))"

text \<open>
  The status call: \<open>status_enter\<close> up to its wait, \<open>status_leave\<close> after it. A poll that the deadline
  of the route ends is dropped, and its permits go back as at its end.
\<close>

definition status_enter ::
  "api \<Rightarrow> string \<Rightarrow> draw \<Rightarrow> gateway \<Rightarrow> (reply + status_request) \<times> gateway" where
  "status_enter A body d g =
     (case from_slice (ai_json A) status_request_of body of
        None \<Rightarrow> (Inl invalid_json, g)
      | Some req \<Rightarrow>
          (case status_begin (ai_ext A) req (dr_now d 0) (gw_pairings g) (gw_events g) of
             (r, ps, es) \<Rightarrow>
               (case r of Inl f \<Rightarrow> Inl (json_result (ai_vec A) (Inl f)) | Inr _ \<Rightarrow> Inr req,
                set_gw_events es (g\<lparr>gw_pairings := ps\<rparr>))))"

definition status_leave :: "api \<Rightarrow> status_request \<Rightarrow> draw \<Rightarrow> gateway \<Rightarrow> reply \<times> gateway" where
  "status_leave A req d g =
     (case status_finish (ai_ext A) req (dr_now d 0) (dr_now d 1) (dr_first d) (gw_pairings g) (gw_events g) of
        (r, ps, es) \<Rightarrow>
          (json_result (ai_vec A) (map_sum id poll_json r),
           set_gw_events es (g\<lparr>gw_pairings := status_release (sq_pairing_id req) ps\<rparr>)))"

definition status_abandon :: "status_request \<Rightarrow> gateway \<Rightarrow> reply \<times> gateway" where
  "status_abandon req g =
     (status_reply REQUEST_TIMEOUT, g\<lparr>gw_pairings := status_release (sq_pairing_id req) (gw_pairings g)\<rparr>)"

definition register_options_handler :: "api \<Rightarrow> string \<Rightarrow> draw \<Rightarrow> gateway \<Rightarrow> reply \<times> gateway" where
  "register_options_handler A body d g =
     (case from_slice (ai_json A) registration_options_of body of
        None \<Rightarrow> (invalid_json, g)
      | Some req \<Rightarrow>
          (case gateway_registration_options (ai_ext A) (ai_lib A) req (dr_now d) (dr_first d) (dr_challenge d) g of
             (r, g1) \<Rightarrow> (json_result (ai_vec A) r, g1)))"

definition register_finish_handler :: "api \<Rightarrow> string \<Rightarrow> draw \<Rightarrow> gateway \<Rightarrow> reply \<times> gateway" where
  "register_finish_handler A body d g =
     (case from_slice (ai_json A) registration_finish_of body of
        None \<Rightarrow> (invalid_json, g)
      | Some req \<Rightarrow>
          (case gateway_registration_finish (ai_ext A) (ai_lib A) req (dr_now d) g of
             (r, g1) \<Rightarrow> (json_result (ai_vec A) (map_sum id registered_json r), g1)))"

definition login_options_handler :: "api \<Rightarrow> string \<Rightarrow> draw \<Rightarrow> gateway \<Rightarrow> reply \<times> gateway" where
  "login_options_handler A body d g =
     (case from_slice (ai_json A) login_options_of body of
        None \<Rightarrow> (invalid_json, g)
      | Some _ \<Rightarrow>
          (case login_options (ai_lib A) (dr_now d) (dr_challenge d) g of
             (r, g1) \<Rightarrow> (json_result (ai_vec A) r, g1)))"

definition login_finish_handler :: "api \<Rightarrow> string \<Rightarrow> draw \<Rightarrow> gateway \<Rightarrow> (reply \<times> gateway) option" where
  "login_finish_handler A body d g =
     (case from_slice (ai_json A) login_finish_of body of
        None \<Rightarrow> Some (invalid_json, g)
      | Some credential \<Rightarrow>
          (case login_finish (ai_ext A) (ai_lib A) credential (dr_now d) (dr_first d) (dr_second d) g of
             (Inr (LoggedIn sid binding did), g1) \<Rightarrow>
               if list_all header_char (session_cookie (ai_ext A) sid)
               then Some (put_header ''set-cookie'' (session_cookie (ai_ext A) sid)
                      (json_result (ai_vec A) (Inr (login_json binding did))), g1)
               else None
           | (Inr _, g1) \<Rightarrow> Some (invalid_json, g1)
           | (Inl f, g1) \<Rightarrow> Some (failure_reply f, g1)))"

definition elevate_options_handler :: "api \<Rightarrow> auth_context \<Rightarrow> string \<Rightarrow> draw \<Rightarrow> gateway \<Rightarrow> reply \<times> gateway" where
  "elevate_options_handler A ctx body d g =
     (case from_slice (ai_json A) elevation_options_of body of
        None \<Rightarrow> (invalid_json, g)
      | Some scope \<Rightarrow>
          (case elevation_options (ai_ext A) (ai_lib A) ctx scope (dr_now d) (dr_challenge d) g of
             (r, g1) \<Rightarrow> (json_result (ai_vec A) r, g1)))"

definition elevate_finish_handler :: "api \<Rightarrow> auth_context \<Rightarrow> string \<Rightarrow> draw \<Rightarrow> gateway \<Rightarrow> reply \<times> gateway" where
  "elevate_finish_handler A ctx body d g =
     (case from_slice (ai_json A) elevation_finish_of body of
        None \<Rightarrow> (invalid_json, g)
      | Some (scope, credential) \<Rightarrow>
          (case elevation_finish (ai_ext A) (ai_lib A) ctx scope credential (dr_now d) (dr_first d) (dr_second d) g of
             (r, g1) \<Rightarrow> (json_result (ai_vec A) (map_sum id (elevated_json (ai_time A) scope) r), g1)))"

definition logout_handler :: "auth_context option \<Rightarrow> string \<Rightarrow> draw \<Rightarrow> gateway \<Rightarrow> reply \<times> gateway" where
  "logout_handler auth body d g =
     (if body \<noteq> [] \<and> body \<noteq> ''{}'' then (invalid_json, g)
      else case auth of
        None \<Rightarrow> (failure_reply DENIED, g)
      | Some ctx \<Rightarrow>
          (case gateway_logout ctx (dr_now d) g of
             (Inl f, g1) \<Rightarrow> (failure_reply f, g1)
           | (Inr _, g1) \<Rightarrow>
               (\<lparr>re_status = NO_CONTENT, re_headers = [(''set-cookie'', clear_cookie)], re_body = Empty\<rparr>, g1)))"

end
