(* ===== verification/Http.thy ===== *)
theory Http
  imports Http_Api
begin

text \<open>
  \<open>companion/src/http.rs\<close>: the route table, \<open>dispatch\<close> and \<open>handle\<close>; of \<open>bridge.rs\<close> the queue of
  upgrades that \<open>respond\<close> fills. A request changes the state \<open>app\<close>: the buckets of the guard, the
  gateway and the queue of upgrades.

  Outside the repository, and so fields of \<open>web\<close>: the collector of a body under its limit and deadline
  (\<open>None\<close> when it is late; an error is its chain of sources, true where one is a length limit), the
  check of a WebSocket handshake, the file system, and whether serving a file outlasts its deadline.
  Handlers other than the files and the status poll never wait, so no deadline ends them.
\<close>

section \<open>Routes\<close>

datatype access = Public | Session scope | FirstFrame scope

datatype route_deadline = Standard | LongPoll

definition REQUEST_TIMEOUT_NS :: duration where "REQUEST_TIMEOUT_NS = from_secs 15"
definition BODY_LIMIT :: nat where "BODY_LIMIT = 64 * 1024"

definition deadline_duration :: "route_deadline \<Rightarrow> duration" where
  "deadline_duration d = (case d of Standard \<Rightarrow> REQUEST_TIMEOUT_NS | LongPoll \<Rightarrow> from_secs 26)"

datatype route_handler =
    Static | Upgrade | Claim | PairStatus | Logout | RegisterOptions | RegisterFinish
  | LoginOptions | LoginFinish | ElevateOptions | ElevateFinish

record http_route =
  ro_method :: string
  ro_path :: string
  ro_access :: access
  ro_deadline :: route_deadline
  ro_handler :: route_handler

definition shell :: "string \<Rightarrow> route_handler \<Rightarrow> http_route" where
  "shell path handler =
     \<lparr>ro_method = ''GET'', ro_path = path, ro_access = Public, ro_deadline = Standard, ro_handler = handler\<rparr>"

definition post :: "string \<Rightarrow> access \<Rightarrow> route_deadline \<Rightarrow> route_handler \<Rightarrow> http_route" where
  "post path access deadline handler =
     \<lparr>ro_method = ''POST'', ro_path = path, ro_access = access, ro_deadline = deadline, ro_handler = handler\<rparr>"

definition route_matches :: "http_route \<Rightarrow> string \<Rightarrow> bool" where
  "route_matches r path =
     (case strip_suffix ''*'' (ro_path r) of
        Some start \<Rightarrow> starts_with path start
      | None \<Rightarrow> ro_path r = path)"

definition ROUTES :: "http_route list" where
  "ROUTES =
     [shell ''/'' Static,
      shell ''/index.html'' Static,
      shell ''/pair'' Static,
      shell ''/manifest.webmanifest'' Static,
      shell ''/sw.js'' Static,
      shell ''/assets/*'' Static,
      shell ''/icons/*'' Static,
      \<lparr>ro_method = ''GET'', ro_path = ''/ws'', ro_access = FirstFrame View, ro_deadline = Standard,
       ro_handler = Upgrade\<rparr>,
      post ''/api/pair/claim'' Public Standard Claim,
      post ''/api/pair/status'' Public LongPoll PairStatus,
      post ''/api/pair/webauthn/options'' Public Standard RegisterOptions,
      post ''/api/pair/webauthn/finish'' Public Standard RegisterFinish,
      post ''/api/auth/options'' Public Standard LoginOptions,
      post ''/api/auth/finish'' Public Standard LoginFinish,
      post ''/api/auth/elevate/options'' (Session View) Standard ElevateOptions,
      post ''/api/auth/elevate/finish'' (Session View) Standard ElevateFinish,
      post ''/api/auth/logout'' (Session View) Standard Logout]"

definition route_of :: "string \<Rightarrow> string \<Rightarrow> http_route option" where
  "route_of meth path = find (\<lambda>r. route_matches r path \<and> ro_method r = meth) ROUTES"

section \<open>Upgrades\<close>

text \<open>The channel of pending upgrades, whether its receiver has closed it, and the free permits.\<close>

record upgrades =
  up_pending :: "headers list"
  up_closed :: bool
  up_permits :: nat

definition upgrades_new :: upgrades where
  "upgrades_new = \<lparr>up_pending = [], up_closed = False, up_permits = MAX_PEERS\<rparr>"

text \<open>A job that cannot be sent is dropped with its permit. Only the cookies go with it.\<close>

definition respond ::
  "ext \<Rightarrow> bool \<Rightarrow> headers \<Rightarrow> gateway \<Rightarrow> upgrades \<Rightarrow> reply \<times> upgrades" where
  "respond X handshake hs g u =
     (if \<not> handshake then (failure_reply (BAD_REQUEST, ''Invalid WebSocket upgrade''), u)
      else if \<not> has_session_cookie X hs (gw_identity g)
      then (failure_reply (UNAUTHORIZED, ''Authentication required''), u)
      else if up_permits u = 0 then (failure_reply (SERVICE_UNAVAILABLE, ''WebSocket limit reached''), u)
      else if up_closed u \<or> length (up_pending u) \<ge> MAX_PEERS then (status_reply SERVICE_UNAVAILABLE, u)
      else (status_reply SWITCHING_PROTOCOLS,
            u\<lparr>up_permits := up_permits u - 1,
              up_pending := up_pending u @ [filter (\<lambda>h. fst h = ''cookie'') hs]\<rparr>))"

section \<open>Requests\<close>

record 'b http_request =
  hq_method :: string
  hq_uri :: uri
  hq_query :: "string option"
  hq_headers :: headers
  hq_body :: 'b

record ('b, 'f) web =
  wb_collect :: "nat \<Rightarrow> 'b \<Rightarrow> (bool list + string) option"
  wb_handshake :: "string \<Rightarrow> uri \<Rightarrow> headers \<Rightarrow> bool"
  wb_files :: "'f web_files"
  wb_root :: string
  wb_late :: bool

record app =
  ap_guard :: guard
  ap_gateway :: gateway
  ap_upgrades :: upgrades

definition is_api :: "string \<Rightarrow> bool" where
  "is_api path \<longleftrightarrow> starts_with path ''/api/'' \<or> path = ''/ws''"

text \<open>\<open>str::parse::<u64>\<close>: decimal digits after an optional plus sign, within the range.\<close>

definition parse_u64 :: "string \<Rightarrow> nat option" where
  "parse_u64 s =
     (let digits = (case s of c # cs \<Rightarrow> if c = CHR ''+'' then cs else s | [] \<Rightarrow> [])
      in if digits = [] \<or> \<not> list_all is_ascii_digit digits then None
         else if dec_value digits 0 < 2 ^ 64 then Some (dec_value digits 0) else None)"

definition declared_length :: "headers \<Rightarrow> nat option" where
  "declared_length hs =
     (case get_all hs ''content-length'' of
        [] \<Rightarrow> None
      | v # _ \<Rightarrow> Option.bind (header_to_str v) parse_u64)"

definition TOO_LARGE :: failure where "TOO_LARGE = (PAYLOAD_TOO_LARGE, ''Request body too large'')"

definition body_error :: "bool list \<Rightarrow> failure" where
  "body_error chain = (if list_ex id chain then TOO_LARGE else (BAD_REQUEST, ''Invalid request body''))"

definition no_route :: "string \<Rightarrow> reply" where
  "no_route meth = status_reply (if meth = ''GET'' then NOT_FOUND else METHOD_NOT_ALLOWED)"

text \<open>What is checked before a route is looked up: a reply, or the body.\<close>

definition admit_request ::
  "('b, 'f) web \<Rightarrow> timestamp \<Rightarrow> timestamp \<Rightarrow> 'b http_request \<Rightarrow> reply + string" where
  "admit_request w now until rq =
     (if until \<le> now then Inl (failure_reply POLICY_EXPIRED)
      else if is_api (uri_path (hq_uri rq)) \<and> hq_query rq \<noteq> None then Inl invalid_json
      else if (case declared_length (hq_headers rq) of None \<Rightarrow> False | Some len \<Rightarrow> len > BODY_LIMIT)
      then Inl (failure_reply TOO_LARGE)
      else case wb_collect w BODY_LIMIT (hq_body rq) of
        None \<Rightarrow> Inl (status_reply REQUEST_TIMEOUT)
      | Some (Inl chain) \<Rightarrow> Inl (failure_reply (body_error chain))
      | Some (Inr body) \<Rightarrow> Inr body)"

text \<open>The session of a route that wants one; every failure is a reply.\<close>

definition authenticate_route ::
  "ext \<Rightarrow> access \<Rightarrow> headers \<Rightarrow> (nat \<Rightarrow> timestamp) \<Rightarrow> gateway \<Rightarrow> (reply + auth_context option) \<times> gateway" where
  "authenticate_route X access hs nows g =
     (case access of
        Session scope \<Rightarrow>
          (case authenticate X hs (gw_rp_id g) (nows 0) (gw_identity g) of
             (None, idt) \<Rightarrow> (Inl (failure_reply DENIED), g\<lparr>gw_identity := idt\<rparr>)
           | (Some ctx, idt) \<Rightarrow>
               (case touch ctx scope (later 1 nows) (g\<lparr>gw_identity := idt\<rparr>) of
                  (Inl f, g1) \<Rightarrow> (Inl (failure_reply f), g1)
                | (Inr _, g1) \<Rightarrow> (Inr (Some ctx), g1)))
      | _ \<Rightarrow> (Inr None, g))"

definition serve_static :: "('b, 'f) web \<Rightarrow> string \<Rightarrow> reply" where
  "serve_static w path =
     (if wb_late w then status_reply REQUEST_TIMEOUT else static_file (wb_files w) (wb_root w) path)"

text \<open>
  The handler of a route. \<open>Inr\<close> is a status poll at its wait; its end is \<open>status_leave\<close> or
  \<open>status_abandon\<close>. A branch that panics in the source is \<open>None\<close>.
\<close>

definition run_handler ::
  "api \<Rightarrow> ('b, 'f) web \<Rightarrow> 'b http_request \<Rightarrow> string \<Rightarrow> auth_context option \<Rightarrow> draw \<Rightarrow> route_handler \<Rightarrow> gateway
     \<Rightarrow> ((reply + status_request) \<times> gateway) option" where
  "run_handler A w rq body auth d handler g =
     (let done = (\<lambda>(r, g). Some (Inl r, g))
      in case handler of
           Static \<Rightarrow> done (serve_static w (uri_path (hq_uri rq)), g)
         | Upgrade \<Rightarrow> None
         | Claim \<Rightarrow> Option.bind (claim_handler A (hq_headers rq) body d g) done
         | PairStatus \<Rightarrow> Some (status_enter A body d g)
         | RegisterOptions \<Rightarrow> done (register_options_handler A body d g)
         | RegisterFinish \<Rightarrow> done (register_finish_handler A body d g)
         | LoginOptions \<Rightarrow> done (login_options_handler A body d g)
         | LoginFinish \<Rightarrow> Option.bind (login_finish_handler A body d g) done
         | ElevateOptions \<Rightarrow>
             (case from_slice (ai_json A) elevation_options_of body of
                None \<Rightarrow> Some (Inl invalid_json, g)
              | Some _ \<Rightarrow>
                  (case auth of None \<Rightarrow> None | Some ctx \<Rightarrow> done (elevate_options_handler A ctx body d g)))
         | ElevateFinish \<Rightarrow>
             (case from_slice (ai_json A) elevation_finish_of body of
                None \<Rightarrow> Some (Inl invalid_json, g)
              | Some _ \<Rightarrow>
                  (case auth of None \<Rightarrow> None | Some ctx \<Rightarrow> done (elevate_finish_handler A ctx body d g)))
         | Logout \<Rightarrow> done (logout_handler auth body d g))"

text \<open>\<open>dispatch\<close>: \<open>t\<close> is the instant the guard reads; \<open>nows\<close> are the readings before the handler.\<close>

definition dispatch_route ::
  "api \<Rightarrow> ('b, 'f) web \<Rightarrow> (nat \<Rightarrow> timestamp) \<Rightarrow> draw \<Rightarrow> 'b http_request \<Rightarrow> string \<Rightarrow> app
     \<Rightarrow> ((reply + status_request) \<times> app) option" where
  "dispatch_route A w nows d rq body a =
     (case route_of (hq_method rq) (uri_path (hq_uri rq)) of
        None \<Rightarrow> Some (Inl (no_route (hq_method rq)), a)
      | Some route \<Rightarrow>
          (case ro_access route of
             FirstFrame _ \<Rightarrow>
               (case respond (ai_ext A) (wb_handshake w (hq_method rq) (hq_uri rq) (hq_headers rq)) (hq_headers rq)
                       (ap_gateway a) (ap_upgrades a) of
                  (r, u) \<Rightarrow> Some (Inl r, a\<lparr>ap_upgrades := u\<rparr>))
           | access \<Rightarrow>
               (case authenticate_route (ai_ext A) access (hq_headers rq) nows (ap_gateway a) of
                  (Inl r, g) \<Rightarrow> Some (Inl r, a\<lparr>ap_gateway := g\<rparr>)
                | (Inr auth, g) \<Rightarrow>
                    (case run_handler A w rq body auth d (ro_handler route) g of
                       None \<Rightarrow> None
                     | Some (r, g) \<Rightarrow> Some (r, a\<lparr>ap_gateway := g\<rparr>)))))"

definition dispatch ::
  "api \<Rightarrow> ('b, 'f) web \<Rightarrow> (real \<Rightarrow> real) \<Rightarrow> nat \<Rightarrow> (nat \<Rightarrow> timestamp) \<Rightarrow> draw \<Rightarrow> 'b http_request \<Rightarrow> app
     \<Rightarrow> ((reply + status_request) \<times> app) option" where
  "dispatch A w fl t nows d rq a =
     (case check (ai_ext A) fl (hq_method rq) (hq_uri rq) (hq_headers rq) t (ap_guard a) of
        (Inl st, gd) \<Rightarrow> Some (Inl (status_reply st), a\<lparr>ap_guard := gd\<rparr>)
      | (Inr _, gd) \<Rightarrow>
          (let a1 = a\<lparr>ap_guard := gd\<rparr>
           in case admit_request w (nows 0) (po_enable_until (gw_policy (ap_gateway a1))) rq of
                Inl r \<Rightarrow> Some (Inl r, a1)
              | Inr body \<Rightarrow> dispatch_route A w (later 1 nows) d rq body a1))"

section \<open>Hardening\<close>

definition CSP :: string where
  "CSP = ''default-src 'self'; script-src 'self'; style-src 'self' 'unsafe-inline'; img-src 'self' data: blob:; connect-src 'self'; worker-src 'self'; manifest-src 'self'; frame-ancestors 'none'; base-uri 'none'; form-action 'none'' @ [CHR 0x27]"

definition SECURITY_HEADERS :: "(string \<times> string) list" where
  "SECURITY_HEADERS =
     [(''content-security-policy'', CSP),
      (''x-content-type-options'', ''nosniff''),
      (''referrer-policy'', ''no-referrer''),
      (''cross-origin-opener-policy'', ''same-origin''),
      (''cross-origin-resource-policy'', ''same-origin''),
      (''permissions-policy'', ''camera=(), microphone=(), geolocation=()''),
      (''strict-transport-security'', ''max-age=31536000'')]"

definition is_success :: "status_code \<Rightarrow> bool" where
  "is_success st \<longleftrightarrow> st = OK \<or> st = NO_CONTENT"

definition harden :: "bool \<Rightarrow> reply \<Rightarrow> reply" where
  "harden api r =
     (let r1 = fold (\<lambda>(k, v). put_header k v) SECURITY_HEADERS r
      in if api \<or> \<not> is_success (re_status r1) then put_header ''cache-control'' ''no-store'' r1 else r1)"

definition handle ::
  "api \<Rightarrow> ('b, 'f) web \<Rightarrow> (real \<Rightarrow> real) \<Rightarrow> nat \<Rightarrow> (nat \<Rightarrow> timestamp) \<Rightarrow> draw \<Rightarrow> 'b http_request \<Rightarrow> app
     \<Rightarrow> ((reply + status_request) \<times> app) option" where
  "handle A w fl t nows d rq a =
     map_option (\<lambda>(r, a). (map_sum (harden (is_api (uri_path (hq_uri rq)))) id r, a))
       (dispatch A w fl t nows d rq a)"

text \<open>The end of a status poll: its decision or the deadline of the route, hardened like every reply.\<close>

definition handle_status :: "api \<Rightarrow> bool \<Rightarrow> status_request \<Rightarrow> draw \<Rightarrow> app \<Rightarrow> reply \<times> app" where
  "handle_status A late req d a =
     (case (if late then status_abandon req (ap_gateway a) else status_leave A req d (ap_gateway a)) of
        (r, g) \<Rightarrow> (harden True r, a\<lparr>ap_gateway := g\<rparr>))"

end
