(* ===== verification/Server.thy ===== *)
theory Server
  imports Http
begin

text \<open>
  The server of the companion: \<open>Server\<close> of \<open>companion/src/http.rs\<close> with its connections, polls and
  upgrades, and \<open>run\<close> of \<open>bridge.rs\<close> around the serving of a WebSocket: its first frame, the registration
  of the peer and the end of it.

  A task of the server is an entry of a list: a connection is idle or waits in a status poll; a
  socket is upgrading, authenticated or serving. What a serving socket does to the gateway is the
  subject of the theories on a connection.
\<close>

section \<open>Sockets\<close>

definition PEER_LIMIT :: close where "PEER_LIMIT = (1008, ''peer-limit'')"

datatype first_frame = Stopping nat | FirstMessage message | NoFrame

definition socket_auth ::
  "ext \<Rightarrow> (string \<Rightarrow> json option) \<Rightarrow> headers \<Rightarrow> first_frame \<Rightarrow> timestamp \<Rightarrow> gateway \<Rightarrow> (close + auth_context) \<times> gateway" where
  "socket_auth X J hs frame now g =
     (case frame of
        Stopping stop \<Rightarrow> (Inl (stop_reason stop), g)
      | NoFrame \<Rightarrow> (Inl CLOSE_INVALID, g)
      | FirstMessage m \<Rightarrow>
          (case authenticate_frame X J hs m now g of
             (Some ctx, g1) \<Rightarrow> (Inr ctx, g1)
           | (None, g1) \<Rightarrow> (Inl CLOSE_INVALID, g1)))"

definition socket_register ::
  "auth_context \<Rightarrow> (nat \<Rightarrow> timestamp) \<Rightarrow> gateway \<Rightarrow> (close + u64) \<times> gateway" where
  "socket_register ctx nows g =
     (case with_authorized (gw_rp_id g) ctx View nows
             (\<lambda>idt s. case register_peer ctx idt of (x, idt) \<Rightarrow> (x, idt, s)) (gw_identity g) () of
        (Inl _, idt, _) \<Rightarrow> (Inl CLOSE_INVALID, g\<lparr>gw_identity := idt\<rparr>)
      | (Inr None, idt, _) \<Rightarrow> (Inl PEER_LIMIT, g\<lparr>gw_identity := idt\<rparr>)
      | (Inr (Some pid), idt, _) \<Rightarrow>
          (Inr pid, set_gw_events (snd (try_emit (gw_events g) (SessionOpened pid (cx_device_id ctx))))
                      (g\<lparr>gw_identity := idt\<rparr>)))"

text \<open>\<open>Drop for Peer\<close>: also when its task is aborted.\<close>

definition peer_drop :: "u64 \<Rightarrow> string \<Rightarrow> string \<Rightarrow> gateway \<Rightarrow> gateway" where
  "peer_drop pid device reason g =
     set_gw_events (snd (try_emit (gw_events g) (SessionClosed pid device reason)))
       (g\<lparr>gw_identity := unregister_peer pid (gw_identity g)\<rparr>)"

section \<open>The server\<close>

definition MAX_CONNECTIONS :: nat where "MAX_CONNECTIONS = 64"

datatype peer_task = Upgrading headers | Authed auth_context | Serving u64 string

record server =
  sv_app :: app
  sv_connections :: "status_request option list"
  sv_peers :: "peer_task list"
  sv_stop :: nat

definition set_app :: "app \<Rightarrow> server \<Rightarrow> server" where
  "set_app a sv = sv\<lparr>sv_app := a\<rparr>"

definition sv_gateway :: "server \<Rightarrow> gateway" where
  "sv_gateway sv = ap_gateway (sv_app sv)"

definition set_gateway :: "gateway \<Rightarrow> server \<Rightarrow> server" where
  "set_gateway g sv = set_app ((sv_app sv)\<lparr>ap_gateway := g\<rparr>) sv"

text \<open>\<open>Server::bind\<close>; \<open>canonicalize\<close> gives the web root and whether it is a directory, \<open>listen\<close> the port or whether it is in use.\<close>

definition server_bind ::
  "ext \<Rightarrow> (string \<Rightarrow> authority option) \<Rightarrow> (string \<Rightarrow> (string \<times> bool) option) \<Rightarrow> (nat \<Rightarrow> bool + nat)
     \<Rightarrow> loopback \<Rightarrow> string \<Rightarrow> nat \<Rightarrow> nat \<Rightarrow> gateway \<Rightarrow> string + (string \<times> nat \<times> server)" where
  "server_bind X A canonicalize listen config web_root now1 now2 g =
     (case guard_new X A config now1 now2 of
        Inl e \<Rightarrow> Inl e
      | Inr gd \<Rightarrow>
          (case canonicalize web_root of
             None \<Rightarrow> Inl ''invalid-web-root''
           | Some (dir, is_dir) \<Rightarrow>
               if \<not> is_dir then Inl ''invalid-web-root''
               else (case listen (lb_port config) of
                       Inl in_use \<Rightarrow> Inl (if in_use then ''port-in-use'' else ''listen-failed'')
                     | Inr port \<Rightarrow>
                         Inr (dir, port,
                           \<lparr>sv_app = \<lparr>ap_guard = gd, ap_gateway = g, ap_upgrades = upgrades_new\<rparr>,
                            sv_connections = [], sv_peers = [], sv_stop = 0\<rparr>))))"

datatype error_kind = ConnectionAborted | ConnectionReset | Interrupted | WouldBlock | OtherKind

definition accept_retry_delay :: "error_kind \<Rightarrow> duration option" where
  "accept_retry_delay e =
     (case e of
        ConnectionAborted \<Rightarrow> None | ConnectionReset \<Rightarrow> None | Interrupted \<Rightarrow> None | WouldBlock \<Rightarrow> None
      | OtherKind \<Rightarrow> Some 50000000)"

text \<open>An accepted connection without a permit is dropped.\<close>

definition server_accept :: "server \<Rightarrow> server" where
  "server_accept sv =
     (if length (sv_connections sv) < MAX_CONNECTIONS
      then sv\<lparr>sv_connections := sv_connections sv @ [None]\<rparr> else sv)"

text \<open>The first pending upgrade becomes a task; its permit stays with it.\<close>

definition server_upgrade :: "server \<Rightarrow> server" where
  "server_upgrade sv =
     (let u = ap_upgrades (sv_app sv)
      in case up_pending u of
           [] \<Rightarrow> sv
         | hs # rest \<Rightarrow>
             (set_app ((sv_app sv)\<lparr>ap_upgrades := u\<lparr>up_pending := rest\<rparr>\<rparr>) sv)
               \<lparr>sv_peers := sv_peers sv @ [Upgrading hs]\<rparr>)"

definition release_permit :: "server \<Rightarrow> server" where
  "release_permit sv =
     (let u = ap_upgrades (sv_app sv)
      in set_app ((sv_app sv)\<lparr>ap_upgrades := u\<lparr>up_permits := up_permits u + 1\<rparr>\<rparr>) sv)"

text \<open>The end of a connection: a poll that still waits in it is dropped, its permits return.\<close>

definition connection_end :: "status_request option \<Rightarrow> server \<Rightarrow> server" where
  "connection_end c sv =
     (case c of
        None \<Rightarrow> sv
      | Some req \<Rightarrow>
          set_gateway ((sv_gateway sv)\<lparr>gw_pairings := status_release (sq_pairing_id req) (gw_pairings (sv_gateway sv))\<rparr>) sv)"

definition peer_end :: "peer_task \<Rightarrow> string \<Rightarrow> server \<Rightarrow> server" where
  "peer_end p reason sv =
     release_permit
       (case p of Serving pid device \<Rightarrow> set_gateway (peer_drop pid device reason (sv_gateway sv)) sv | _ \<Rightarrow> sv)"

text \<open>
  The end of \<open>run\<close>: the channel of upgrades closes and what is still in it is dropped with its permits;
  after an expiry maintenance closes the sessions; then every task is told the code.
\<close>

definition server_stop ::
  "bool \<Rightarrow> (string \<Rightarrow> timestamp) \<Rightarrow> timestamp \<Rightarrow> timestamp \<Rightarrow> server \<Rightarrow> server" where
  "server_stop expired mnows t1 t2 sv =
     (let u = ap_upgrades (sv_app sv);
          u1 = u\<lparr>up_closed := True, up_pending := [], up_permits := up_permits u + length (up_pending u)\<rparr>;
          sv1 = set_app ((sv_app sv)\<lparr>ap_upgrades := u1\<rparr>) sv;
          sv2 = (if expired then set_gateway (gateway_maintenance mnows t1 t2 (sv_gateway sv1)) sv1 else sv1)
      in sv2\<lparr>sv_stop := (if expired then 4401 else 1001)\<rparr>)"

end
