(* ===== verification/Http_Props.thy ===== *)
theory Http_Props
  imports Http Gateway_Security
begin

text \<open>
  Correctness of the routes of \<open>Http\<close>: the route table, what a static path may reach, that every
  reply is hardened and which may set a cookie, and what a request without a session can change.
\<close>

section \<open>The route table\<close>

text \<open>What a route's pattern is: a path, or everything below a prefix.\<close>

definition route_key :: "http_route \<Rightarrow> string \<times> string \<times> bool" where
  "route_key r =
     (case strip_suffix ''*'' (ro_path r) of
        Some start \<Rightarrow> (ro_method r, start, True)
      | None \<Rightarrow> (ro_method r, ro_path r, False))"

definition overlap :: "http_route \<Rightarrow> http_route \<Rightarrow> bool" where
  "overlap r r' \<longleftrightarrow>
     (case (route_key r, route_key r') of
        ((m, p, star), (m', p', star')) \<Rightarrow>
          m = m' \<and> (if star \<and> star' then starts_with p p' \<or> starts_with p' p
                     else if star then starts_with p' p else if star' then starts_with p p' else p = p'))"

lemma prefixes_overlap:
  assumes "starts_with s p" and "starts_with s q"
  shows "starts_with p q \<or> starts_with q p"
proof -
  have p: "take (length p) s = p" and q: "take (length q) s = q" using assms by (simp_all add: starts_with_def)
  show ?thesis
  proof (cases "length q \<le> length p")
    case True
    have "take (length q) p = take (length q) (take (length p) s)" by (simp only: p)
    with True q show ?thesis by (simp add: starts_with_def min_def)
  next
    case False
    have "take (length p) q = take (length p) (take (length q) s)" by (simp only: q)
    with False p show ?thesis by (simp add: starts_with_def min_def)
  qed
qed

lemma matches_overlap:
  assumes "route_matches r path" and "route_matches r' path" and "ro_method r = ro_method r'"
  shows "overlap r r'"
  using assms prefixes_overlap [of path]
  by (cases "strip_suffix ''*'' (ro_path r)"; cases "strip_suffix ''*'' (ro_path r')")
    (simp_all add: overlap_def route_key_def route_matches_def)

lemma routes_disjoint: "sorted_wrt (\<lambda>r r'. \<not> overlap r r') ROUTES"
  by code_simp

lemma find_only:
  assumes "sorted_wrt (\<lambda>x y. \<not> (P x \<and> P y)) xs" and "x \<in> set xs" and "P x"
  shows "find P xs = Some x"
  using assms by (induction xs) auto

text \<open>
  The routes do not depend on their order: the route that matches a request is the only one, so
  the search finds it.
\<close>

lemma route_of_iff:
  "route_of meth path = Some r \<longleftrightarrow> r \<in> set ROUTES \<and> route_matches r path \<and> ro_method r = meth"
proof
  assume "route_of meth path = Some r"
  then show "r \<in> set ROUTES \<and> route_matches r path \<and> ro_method r = meth"
    by (auto simp: route_of_def find_Some_iff in_set_conv_nth)
next
  assume r: "r \<in> set ROUTES \<and> route_matches r path \<and> ro_method r = meth"
  have "sorted_wrt (\<lambda>x y. \<not> ((route_matches x path \<and> ro_method x = meth) \<and> (route_matches y path \<and> ro_method y = meth))) ROUTES"
    by (rule sorted_wrt_mono_rel [OF _ routes_disjoint]) (use matches_overlap in metis)
  then show "route_of meth path = Some r" unfolding route_of_def using r by (intro find_only) auto
qed

lemma session_routes:
  assumes "r \<in> set ROUTES"
  shows "ro_handler r = Upgrade \<longleftrightarrow> ro_access r = FirstFrame View"
    and "ro_handler r \<in> {ElevateOptions, ElevateFinish, Logout} \<longleftrightarrow> ro_access r = Session View"
    and "ro_access r \<in> {Public, Session View, FirstFrame View}"
    and "ro_handler r = Static \<longleftrightarrow> ro_method r = ''GET'' \<and> ro_path r \<noteq> ''/ws''"
proof -
  have "list_all (\<lambda>r. (ro_handler r = Upgrade \<longleftrightarrow> ro_access r = FirstFrame View)
      \<and> (ro_handler r \<in> {ElevateOptions, ElevateFinish, Logout} \<longleftrightarrow> ro_access r = Session View)
      \<and> ro_access r \<in> {Public, Session View, FirstFrame View}
      \<and> (ro_handler r = Static \<longleftrightarrow> ro_method r = ''GET'' \<and> ro_path r \<noteq> ''/ws'')) ROUTES" by code_simp
  with assms show "ro_handler r = Upgrade \<longleftrightarrow> ro_access r = FirstFrame View"
    and "ro_handler r \<in> {ElevateOptions, ElevateFinish, Logout} \<longleftrightarrow> ro_access r = Session View"
    and "ro_access r \<in> {Public, Session View, FirstFrame View}"
    and "ro_handler r = Static \<longleftrightarrow> ro_method r = ''GET'' \<and> ro_path r \<noteq> ''/ws''"
    by (simp_all add: list_all_iff)
qed

section \<open>Static files\<close>

lemma ends_with_iff: "ends_with s suf \<longleftrightarrow> (\<exists>t. s = t @ suf)"
proof
  assume "ends_with s suf"
  then have "rev s = rev suf @ drop (length suf) (rev s)" unfolding ends_with_def by (metis append_take_drop_id)
  then have "s = rev (drop (length suf) (rev s)) @ suf" by (metis rev_append rev_rev_ident)
  then show "\<exists>t. s = t @ suf" ..
qed (auto simp: ends_with_def)

lemma valid_segment_chars:
  assumes "valid_static_segment s"
  shows "s \<noteq> [] \<and> hd s \<noteq> CHR ''.'' \<and> list_all (\<lambda>b. is_ascii_alphanumeric b \<or> b \<in> set ''._-'') s"
proof (cases s)
  case (Cons b bs)
  then have "is_ascii_alphanumeric b \<or> b = CHR ''_'' \<or> b = CHR ''-''"
    and "list_all (\<lambda>b. is_ascii_alphanumeric b \<or> b \<in> set ''._-'') bs"
    using assms by (simp_all add: valid_static_segment_def)
  moreover have "\<not> is_ascii_alphanumeric (CHR ''.'')" by code_simp
  ultimately show ?thesis using Cons by auto
qed (use assms in \<open>simp add: valid_static_segment_def\<close>)

lemma split_on_join: "split_on c (xs @ c # ys) = split_on c xs @ split_on c ys"
  by (induction xs) (auto split: list.splits)

lemma filter_all: "(\<And>x. x \<in> set xs \<Longrightarrow> P x) \<Longrightarrow> filter P xs = xs"
  by (induction xs) auto

lemma components_join:
  assumes "starts_with dir ''/''" and "list_all valid_static_segment (split_on (CHR ''/'') relative)"
  shows "path_components (path_join dir relative) = path_components dir @ split_on (CHR ''/'') relative"
proof -
  let ?P = "\<lambda>s :: string. s \<noteq> [] \<and> s \<noteq> ''.''"
  have seg: "s \<noteq> [] \<and> hd s \<noteq> CHR ''.''" if "s \<in> set (split_on (CHR ''/'') relative)" for s
    using assms(2) valid_segment_chars that by (auto simp: list_all_iff)
  have all: "filter ?P (split_on (CHR ''/'') relative) = split_on (CHR ''/'') relative"
    by (rule filter_all) (use seg in force)
  have rel: "\<not> starts_with relative ''/''"
  proof
    assume "starts_with relative ''/''"
    then obtain r where "relative = CHR ''/'' # r" by (cases relative) (auto simp: starts_with_def)
    then show False using seg [of "[]"] by simp
  qed
  obtain r where r: "dir = CHR ''/'' # r" using assms(1) by (cases dir) (auto simp: starts_with_def)
  show ?thesis
  proof (cases "ends_with dir ''/''")
    case True
    then obtain q where q: "dir = q @ [CHR ''/'']" by (auto simp: ends_with_iff)
    then have "path_join dir relative = q @ CHR ''/'' # relative" using True rel r by (simp add: path_join_def)
    moreover have "starts_with (q @ CHR ''/'' # relative) ''/''" using q r by (cases q) (auto simp: starts_with_def)
    ultimately show ?thesis using assms(1) all q by (simp add: path_components_def split_on_join)
  next
    case False
    then have "path_join dir relative = dir @ CHR ''/'' # relative" using rel r by (simp add: path_join_def)
    moreover have "starts_with (dir @ CHR ''/'' # relative) ''/''" using r by (simp add: starts_with_def)
    ultimately show ?thesis using assms(1) all by (simp add: path_components_def split_on_join)
  qed
qed

lemma relative_segments:
  assumes "static_path_ok path" and "static_relative path = Some relative"
  shows "list_all valid_static_segment (split_on (CHR ''/'') relative)"
proof -
  have "valid_static_segment ''index.html''" "valid_static_segment ''manifest.webmanifest''" "valid_static_segment ''sw.js''"
    by code_simp+
  moreover have "split_on (CHR ''/'') ''index.html'' = [''index.html'']"
    "split_on (CHR ''/'') ''manifest.webmanifest'' = [''manifest.webmanifest'']" "split_on (CHR ''/'') ''sw.js'' = [''sw.js'']"
    by code_simp+
  moreover have "list_all valid_static_segment (split_on (CHR ''/'') (drop 1 path))"
    if "starts_with path ''/assets/'' \<or> starts_with path ''/icons/''"
  proof -
    have "path \<noteq> ''/''" using that by (auto simp: starts_with_def)
    then obtain rest where "strip_prefix ''/'' path = Some rest" "list_all valid_static_segment (split_on (CHR ''/'') rest)"
      using assms(1) by (auto simp: static_path_ok_def split: option.splits)
    then show ?thesis by (simp add: strip_prefix_Some)
  qed
  ultimately show ?thesis using assms(2) unfolding static_relative_def by (auto split: if_splits)
qed


text \<open>
  C23: what a static path can reach. A path answered with a file consists of plain names (letters,
  digits, dot, underscore and hyphen, none starting with a dot), so it names a file below the web root
  without leaving it; the file that is opened has its canonical path, links resolved, below the web
  root too, it is a regular file of at most 16 MiB, and the reply is the content it had when it was opened.
\<close>

theorem static_confined:
  assumes "starts_with dir ''/''" and "re_status (static_file fs dir path) = OK"
  shows "\<exists>relative canonical f m.
    static_relative path = Some relative
    \<and> list_all (\<lambda>s. s \<noteq> [] \<and> hd s \<noteq> CHR ''.'' \<and> list_all (\<lambda>b. is_ascii_alphanumeric b \<or> b \<in> set ''._-'') s)
        (split_on (CHR ''/'') relative)
    \<and> path_components (path_join dir relative) = path_components dir @ split_on (CHR ''/'') relative
    \<and> fs_canonicalize fs (path_join dir relative) = Some canonical \<and> path_starts_with canonical dir
    \<and> fs_open fs canonical = Some f \<and> fs_metadata fs f = Some m
    \<and> wf_is_file m \<and> wf_len m \<le> 16 * 1024 * 1024
    \<and> re_body (static_file fs dir path) = Content (take (wf_len m) (fs_read fs f))"
proof -
  obtain relative where ok: "static_path_ok path" and rel: "static_relative path = Some relative"
    using assms(2) by (auto simp: static_file_def status_reply_def split: if_splits option.splits)
  obtain canonical f m where f: "fs_canonicalize fs (path_join dir relative) = Some canonical"
      "path_starts_with canonical dir" "fs_open fs canonical = Some f" "fs_metadata fs f = Some m"
      "wf_is_file m" "wf_len m \<le> MAX_STATIC_BYTES"
    using assms(2) ok rel
    by (auto simp: static_file_def static_open_def status_reply_def split: if_splits option.splits)
  have seg: "list_all valid_static_segment (split_on (CHR ''/'') relative)" using relative_segments [OF ok rel] .
  have "re_body (static_file fs dir path) = Content (take (wf_len m) (fs_read fs f))"
    using ok rel f by (simp add: static_file_def static_open_def file_reply_def put_header_def)
  then show ?thesis
    using rel f components_join [OF assms(1) seg] seg valid_segment_chars
    by (auto simp: MAX_STATIC_BYTES_def list_all_iff)
qed

definition demo_files :: "string web_files" where
  "demo_files = \<lparr>fs_canonicalize = \<lambda>p. if p = ''/web/assets/app.js'' then Some p else None,
     fs_open = Some, fs_metadata = \<lambda>_. Some \<lparr>wf_is_file = True, wf_len = 3\<rparr>, fs_read = \<lambda>_. ''abc''\<rparr>"

theorem static_confined_witness:
  "re_body (static_file demo_files ''/web'' ''/assets/app.js'') = Content ''abc''
    \<and> re_status (static_file demo_files ''/web'' ''/assets/../app.js'') = NOT_FOUND"
proof -
  have "starts_with ''/web'' ''/''" "re_status (static_file demo_files ''/web'' ''/assets/app.js'') = OK" by code_simp+
  from static_confined [OF this] obtain m f where "fs_metadata demo_files f = Some m"
      "re_body (static_file demo_files ''/web'' ''/assets/app.js'') = Content (take (wf_len m) (fs_read demo_files f))" by blast
  moreover have "re_status (static_file demo_files ''/web'' ''/assets/../app.js'') = NOT_FOUND" by code_simp
  ultimately show ?thesis by (auto simp: demo_files_def)
qed

section \<open>Hardening\<close>

lemma put_header_get [simp]: "hm_get (re_headers (put_header k v r)) l = (if k = l then Some v else hm_get (re_headers r) l)"
  by (simp add: put_header_def)

lemma put_header_other [simp]: "re_status (put_header k v r) = re_status r" "re_body (put_header k v r) = re_body r"
  by (simp_all add: put_header_def)

lemma put_headers_get:
  "distinct (map fst kvs) \<Longrightarrow>
     hm_get (re_headers (fold (\<lambda>(k, v). put_header k v) kvs r)) l
       = (case map_of kvs l of Some v \<Rightarrow> Some v | None \<Rightarrow> hm_get (re_headers r) l)"
proof (induction kvs arbitrary: r)
  case (Cons kv kvs)
  obtain k v where kv: "kv = (k, v)" by (cases kv)
  have "map_of kvs k = None" using Cons.prems kv by (simp add: map_of_eq_None_iff)
  with Cons kv show ?case by (auto split: option.splits)
qed simp

lemma put_headers_other:
  "re_status (fold (\<lambda>(k, v). put_header k v) kvs r) = re_status r"
  "re_body (fold (\<lambda>(k, v). put_header k v) kvs r) = re_body r"
  by (induction kvs arbitrary: r) (simp_all add: case_prod_beta)

lemma security_names: "distinct (map fst SECURITY_HEADERS)" "''cache-control'' \<notin> fst ` set SECURITY_HEADERS"
proof -
  have "distinct (map fst SECURITY_HEADERS) \<and> \<not> list_ex (\<lambda>h. fst h = ''cache-control'') SECURITY_HEADERS" by code_simp
  then show "distinct (map fst SECURITY_HEADERS)" "''cache-control'' \<notin> fst ` set SECURITY_HEADERS"
    by (auto simp: list_ex_iff)
qed

text \<open>What hardening promises of a reply.\<close>

definition hardened :: "bool \<Rightarrow> reply \<Rightarrow> bool" where
  "hardened api r \<longleftrightarrow>
     list_all (\<lambda>(k, v). hm_get (re_headers r) k = Some v) SECURITY_HEADERS
     \<and> (api \<or> \<not> is_success (re_status r) \<longrightarrow> hm_get (re_headers r) ''cache-control'' = Some ''no-store'')"

lemma harden_status [simp]: "re_status (harden api r) = re_status r" "re_body (harden api r) = re_body r"
  by (simp_all add: harden_def Let_def put_headers_other)

lemma harden_hardened: "hardened api (harden api r)"
proof -
  let ?r = "fold (\<lambda>(k, v). put_header k v) SECURITY_HEADERS r"
  have get: "hm_get (re_headers ?r) k = Some v" if "(k, v) \<in> set SECURITY_HEADERS" for k v
    using that security_names(1) by (simp add: put_headers_get)
  have "k \<noteq> ''cache-control''" if "(k, v) \<in> set SECURITY_HEADERS" for k v
    using that security_names(2) by force
  then have "(''cache-control'', v) \<notin> set SECURITY_HEADERS" for v by blast
  with get show ?thesis by (auto simp: hardened_def harden_def Let_def list_all_iff put_headers_other)
qed


section \<open>The branches of a request\<close>

lemma check_guard: "check X fl m u hs t gd = (r, gd') \<Longrightarrow> (case r of Inl st \<Rightarrow> True | Inr _ \<Rightarrow> guard_refuses X gd m u hs = None)"
  by (auto simp: check_def split: option.splits sum.splits)

definition refusals :: "status_code set" where
  "refusals = {REQUEST_HEADER_FIELDS_TOO_LARGE, MISDIRECTED_REQUEST, FORBIDDEN}"

lemma refused_status: "guard_refuses X gd m u hs = Some st \<Longrightarrow> st \<in> refusals"
  unfolding guard_refuses_def
  by (simp only: split: if_split_asm option.split_asm) (simp_all add: refusals_def)

lemma check_status: "check X fl m u hs t gd = (Inl st, gd') \<Longrightarrow> \<not> is_success st"
proof (cases "guard_refuses X gd m u hs")
  case (Some e)
  assume "check X fl m u hs t gd = (Inl st, gd')"
  with Some refused_status [OF Some] show ?thesis by (auto simp: check_def refusals_def is_success_def)
qed (auto simp: check_def take_token_def Let_def is_success_def split: prod.splits if_splits)

lemma dispatch_cases:
  assumes "dispatch A w fl t nows d rq a = Some (r, a')"
  obtains (refused) st gd where "r = Inl (status_reply st)" "a' = a\<lparr>ap_guard := gd\<rparr>" "\<not> is_success st"
  | (rejected) reply gd where "r = Inl reply" "a' = a\<lparr>ap_guard := gd\<rparr>"
      "admit_request w (nows 0) (po_enable_until (gw_policy (ap_gateway a))) rq = Inl reply"
  | (routed) body gd where
      "guard_refuses (ai_ext A) (ap_guard a) (hq_method rq) (hq_uri rq) (hq_headers rq) = None"
      "admit_request w (nows 0) (po_enable_until (gw_policy (ap_gateway a))) rq = Inr body"
      "dispatch_route A w (later 1 nows) d rq body (a\<lparr>ap_guard := gd\<rparr>) = Some (r, a')"
proof -
  obtain rc gd where c: "check (ai_ext A) fl (hq_method rq) (hq_uri rq) (hq_headers rq) t (ap_guard a) = (rc, gd)"
    by (cases "check (ai_ext A) fl (hq_method rq) (hq_uri rq) (hq_headers rq) t (ap_guard a)")
  show thesis
  proof (cases rc)
    case (Inl st)
    then show ?thesis using assms c refused check_status by (auto simp: dispatch_def)
  next
    case (Inr u)
    then have g: "guard_refuses (ai_ext A) (ap_guard a) (hq_method rq) (hq_uri rq) (hq_headers rq) = None"
      using check_guard [OF c] by simp
    show ?thesis
    proof (cases "admit_request w (nows 0) (po_enable_until (gw_policy (ap_gateway a))) rq")
      case (Inl reply)
      with assms c Inr rejected show ?thesis by (auto simp: dispatch_def)
    next
      case (Inr body)
      with assms c \<open>rc = Inr u\<close> g routed show ?thesis by (auto simp: dispatch_def)
    qed
  qed
qed

lemma dispatch_route_cases:
  assumes "dispatch_route A w nows d rq body a = Some (r, a')"
  obtains (missing) "route_of (hq_method rq) (uri_path (hq_uri rq)) = None" "r = Inl (no_route (hq_method rq))" "a' = a"
  | (upgrade) ro scope reply u where "route_of (hq_method rq) (uri_path (hq_uri rq)) = Some ro" "ro_access ro = FirstFrame scope"
      "respond (ai_ext A) (wb_handshake w (hq_method rq) (hq_uri rq) (hq_headers rq)) (hq_headers rq) (ap_gateway a) (ap_upgrades a)
         = (reply, u)" "r = Inl reply" "a' = a\<lparr>ap_upgrades := u\<rparr>"
  | (denied) ro reply g where "route_of (hq_method rq) (uri_path (hq_uri rq)) = Some ro"
      "authenticate_route (ai_ext A) (ro_access ro) (hq_headers rq) nows (ap_gateway a) = (Inl reply, g)"
      "r = Inl reply" "a' = a\<lparr>ap_gateway := g\<rparr>"
  | (run) ro auth g g' where "route_of (hq_method rq) (uri_path (hq_uri rq)) = Some ro"
      "authenticate_route (ai_ext A) (ro_access ro) (hq_headers rq) nows (ap_gateway a) = (Inr auth, g)"
      "run_handler A w rq body auth d (ro_handler ro) g = Some (r, g')" "a' = a\<lparr>ap_gateway := g'\<rparr>"
proof (cases "route_of (hq_method rq) (uri_path (hq_uri rq))")
  case None
  then show ?thesis using assms missing by (simp add: dispatch_route_def)
next
  case (Some ro)
  show ?thesis
  proof (cases "ro_access ro")
    case (FirstFrame scope)
    obtain reply u where "respond (ai_ext A) (wb_handshake w (hq_method rq) (hq_uri rq) (hq_headers rq)) (hq_headers rq)
        (ap_gateway a) (ap_upgrades a) = (reply, u)"
      by (cases "respond (ai_ext A) (wb_handshake w (hq_method rq) (hq_uri rq) (hq_headers rq)) (hq_headers rq)
        (ap_gateway a) (ap_upgrades a)")
    then show ?thesis using assms Some FirstFrame upgrade by (auto simp: dispatch_route_def)
  qed (use assms Some denied run in \<open>auto simp: dispatch_route_def split: prod.splits sum.splits option.splits\<close>)
qed

lemma handler_defined:
  assumes "ro \<in> set ROUTES" and "authenticate_route X (ro_access ro) hs nows g = (Inr auth, g1)" and "ro_access ro \<noteq> FirstFrame View"
    and "ro_handler ro \<notin> {Claim, LoginFinish}"
  shows "run_handler A w rq body auth d (ro_handler ro) g1 \<noteq> None"
proof -
  have "auth \<noteq> None" if "ro_access ro = Session View"
    using assms(2) that by (auto simp: authenticate_route_def split: prod.splits option.splits sum.splits)
  then show ?thesis using session_routes [OF assms(1)] assms(3,4)
    by (cases "ro_handler ro") (auto simp: run_handler_def Let_def split: prod.splits option.splits)
qed

text \<open>
  The panics that the handlers themselves can reach: a claim whose authentication string is not found,
  and a login whose cookie is no header value.
\<close>

lemma dispatch_defined:
  assumes "\<And>ro. route_of (hq_method rq) (uri_path (hq_uri rq)) = Some ro \<Longrightarrow> ro_handler ro \<notin> {Claim, LoginFinish}"
  shows "dispatch A w fl t nows d rq a \<noteq> None"
proof -
  have "dispatch_route A w nows d rq body a \<noteq> None" for nows body a
  proof (cases "route_of (hq_method rq) (uri_path (hq_uri rq))")
    case (Some ro)
    then have ro: "ro \<in> set ROUTES" by (simp add: route_of_iff)
    show ?thesis
    proof (cases "ro_access ro = FirstFrame View")
      case False
      obtain ra g where "authenticate_route (ai_ext A) (ro_access ro) (hq_headers rq) nows (ap_gateway a) = (ra, g)"
        by (cases "authenticate_route (ai_ext A) (ro_access ro) (hq_headers rq) nows (ap_gateway a)")
      note e = this
      have "run_handler A w rq body auth d (ro_handler ro) g \<noteq> None" if "ra = Inr auth" for auth
        using handler_defined [OF ro _ False assms [OF Some]] e that by blast
      then show ?thesis using Some e session_routes(3) [OF ro] False
        by (cases ra) (auto simp: dispatch_route_def split: access.splits option.splits)
    qed (use Some in \<open>auto simp: dispatch_route_def split: prod.splits\<close>)
  qed (simp add: dispatch_route_def)
  then show ?thesis by (auto simp: dispatch_def Let_def split: prod.splits sum.splits)
qed

section \<open>Cookies\<close>

abbreviation set_cookie :: "reply \<Rightarrow> string option" where
  "set_cookie r \<equiv> hm_get (re_headers r) ''set-cookie''"

lemma plain_replies [simp]:
  "set_cookie (status_reply st) = None" "set_cookie (failure_reply f) = None" "set_cookie invalid_json = None"
  "set_cookie (json_result V x) = None" "set_cookie (no_route meth) = None" "set_cookie (file_reply path relative bytes n) = None"
  by (simp_all add: status_reply_def failure_reply_def invalid_json_def json_result_def no_route_def file_reply_def
      split: sum.splits option.splits)

lemma static_plain [simp]: "set_cookie (serve_static w path) = None"
  by (simp add: serve_static_def static_file_def split: option.splits)

lemma harden_cookie [simp]: "set_cookie (harden api r) = set_cookie r"
proof -
  have "\<not> list_ex (\<lambda>h. fst h = ''set-cookie'') SECURITY_HEADERS" by code_simp
  then have "map_of SECURITY_HEADERS ''set-cookie'' = None" by (auto simp: list_ex_iff map_of_eq_None_iff)
  then show ?thesis using security_names(1) by (simp add: harden_def Let_def put_headers_get)
qed

text \<open>A login puts its session into the table, under the drawn identifier and with the drawn binding.\<close>

lemma issued_session:
  assumes "issue_session X did rp now1 now2 now3 rb rid idt = (Inr (sid, binding), idt')"
  shows "rid = Some sid \<and> (\<exists>b. rb = Some b \<and> binding = encode X b
    \<and> hm_get (id_sessions idt') sid = Some (new_session X did rp b now3))"
  using assms by (auto simp: issue_session_def Let_def split: if_splits option.splits)

lemma login_issues:
  assumes "login_finish X W credential nows rb rid g = (Inr (LoggedIn sid binding did), g')"
  shows "rid = Some sid \<and> (\<exists>b s. rb = Some b \<and> hm_get (id_sessions (gw_identity g')) sid = Some s
    \<and> se_device_id s = did \<and> se_binding_hash s = hash X b)"
proof -
  obtain r1 g1 where run: "login_run X W credential nows rb rid g = (r1, g1)" by (cases "login_run X W credential nows rb rid g")
  then have r1: "r1 = Inr (LoggedIn sid binding did)" "gw_identity g' = gw_identity g1" using assms by (auto simp: login_finish_def)
  obtain ce c st where "take_assertion W credential None (nows 0) (gw_ceremonies g) = (Inr c, ce)" "cm_kind c = CLogin st"
    using run r1(1) by (auto simp: login_run_def Let_def split: prod.splits sum.splits ceremony_kind.splits)
  with run r1(1) obtain idt es where f: "finish_assertion X W (gw_rp g) (LoginState st) credential None (nows 1) (nows 2) (nows 3) (nows 4)
      rb rid (gw_identity g) (gw_events (g\<lparr>gw_ceremonies := ce\<rparr>)) = (Inr (LoggedIn sid binding did), idt, es)" "gw_identity g1 = idt"
    by (auto simp: login_run_def Let_def split: prod.splits)
  from f(1) show ?thesis
  proof (cases rule: finish_assertion_cases)
    case (logged did' va cid idt1 ri)
    then have "issue_session X did (rp_host (gw_rp g)) (nows 2) (nows 3) (nows 4) rb rid idt1 = (Inr (sid, binding), idt)"
      by (auto split: sum.splits prod.splits)
    from issued_session [OF this] show ?thesis using f(2) r1(2) by (auto simp: new_session_def)
  qed (auto split: option.splits)
qed

text \<open>What a handler may set: the cleared cookie, or that of the session it has issued.\<close>

definition cookie_ok :: "ext \<Rightarrow> draw \<Rightarrow> route_handler \<Rightarrow> gateway \<Rightarrow> reply \<Rightarrow> bool" where
  "cookie_ok X d handler g r \<longleftrightarrow>
     (\<forall>c. set_cookie r = Some c \<longrightarrow>
        handler = Logout \<and> c = clear_cookie
        \<or> handler = LoginFinish
          \<and> (\<exists>sid b s. c = session_cookie X sid \<and> dr_second d = Some sid \<and> dr_first d = Some b
              \<and> hm_get (id_sessions (gw_identity g)) sid = Some s \<and> se_binding_hash s = hash X b))"

lemma cookieless: "set_cookie r = None \<Longrightarrow> cookie_ok X d handler g r"
  by (simp add: cookie_ok_def)

lemma handler_cookie:
  assumes "run_handler A w rq body auth d handler g = Some (Inl reply, g')"
  shows "cookie_ok (ai_ext A) d handler g' reply"
proof (cases handler)
  case LoginFinish
  then have "login_finish_handler A body d g = Some (reply, g')"
    using assms by (auto simp: run_handler_def bind_eq_Some_conv)
  then show ?thesis using LoginFinish
    by (auto simp: login_finish_handler_def cookie_ok_def dest!: login_issues
        split: option.splits prod.splits sum.splits assertion_result.splits if_splits)
next
  case Claim
  then have "claim_handler A (hq_headers rq) body d g = Some (reply, g')"
    using assms by (auto simp: run_handler_def bind_eq_Some_conv)
  then show ?thesis by (auto simp: claim_handler_def split: option.splits prod.splits sum.splits intro: cookieless)
next
  case PairStatus
  then have "status_enter A body d g = (Inl reply, g')" using assms by (simp add: run_handler_def)
  then show ?thesis by (auto simp: status_enter_def split: option.splits prod.splits sum.splits intro: cookieless)
next
  case Logout
  then show ?thesis using assms
    by (auto simp: run_handler_def logout_handler_def cookie_ok_def split: prod.splits if_splits option.splits sum.splits)
qed (use assms in \<open>auto simp: run_handler_def register_options_handler_def register_finish_handler_def
      login_options_handler_def elevate_options_handler_def elevate_finish_handler_def
      split: prod.splits option.splits intro: cookieless\<close>)

lemma denied_plain: "authenticate_route X acc hs nows g = (Inl reply, g') \<Longrightarrow> set_cookie reply = None"
  by (auto simp: authenticate_route_def split: access.splits prod.splits option.splits sum.splits)

lemma respond_plain: "respond X hand hs g u = (reply, u') \<Longrightarrow> set_cookie reply = None"
  by (auto simp: respond_def split: if_splits)

lemma rejected_plain: "admit_request w now until rq = Inl reply \<Longrightarrow> set_cookie reply = None"
  by (auto simp: admit_request_def split: if_splits option.splits sum.splits)

text \<open>
  C24: every reply is hardened, and cookies are set with care. The reply to a request, or the one a
  status poll ends with, carries every security header with its value, and an answer of the API or one
  that is not a success is never stored by a cache. A reply sets a cookie only at the end of a logout,
  which clears it, or of a login: then it names the session that the login has put into the
  table, under the identifier drawn for it and with the digest of the binding drawn for it.
\<close>

theorem replies_hardened:
  assumes "handle A w fl t nows d rq a = Some (r, a')"
  shows "case r of
      Inl reply \<Rightarrow>
        hardened (is_api (uri_path (hq_uri rq))) reply
        \<and> (\<forall>c. set_cookie reply = Some c \<longrightarrow>
             (\<exists>ro. route_of (hq_method rq) (uri_path (hq_uri rq)) = Some ro
               \<and> (ro_handler ro = Logout \<and> c = clear_cookie
                  \<or> ro_handler ro = LoginFinish
                    \<and> (\<exists>sid b s. c = session_cookie (ai_ext A) sid \<and> dr_second d = Some sid \<and> dr_first d = Some b
                        \<and> hm_get (id_sessions (gw_identity (ap_gateway a'))) sid = Some s
                        \<and> se_binding_hash s = hash (ai_ext A) b))))
    | Inr req \<Rightarrow>
        hardened True (fst (handle_status A late req d' a')) \<and> set_cookie (fst (handle_status A late req d' a')) = None"
proof -
  obtain r0 where h: "dispatch A w fl t nows d rq a = Some (r0, a')"
      and r: "r = map_sum (harden (is_api (uri_path (hq_uri rq)))) id r0"
    using assms by (auto simp: handle_def)
  have poll: "hardened True (fst (handle_status A late req d' a')) \<and> set_cookie (fst (handle_status A late req d' a')) = None" for req
    by (auto simp: handle_status_def harden_hardened status_abandon_def status_leave_def split: prod.splits if_splits)
  have cookie: "\<exists>ro. route_of (hq_method rq) (uri_path (hq_uri rq)) = Some ro \<and> cookie_ok (ai_ext A) d (ro_handler ro) (ap_gateway a') reply"
    if "r0 = Inl reply" "set_cookie reply \<noteq> None" for reply
    using h
  proof (cases rule: dispatch_cases)
    case (routed body gd)
    from routed(3) show ?thesis
    proof (cases rule: dispatch_route_cases)
      case (run ro auth g g')
      then show ?thesis using handler_cookie that(1) by auto
    qed (use that respond_plain denied_plain in auto)
  next
    case (rejected reply' gd)
    then show ?thesis using that rejected_plain [OF rejected(3)] by simp
  qed (use that in auto)
  show ?thesis
  proof (cases r0)
    case (Inl reply)
    then show ?thesis using r cookie [OF Inl] harden_hardened by (fastforce simp: cookie_ok_def)
  qed (use r poll in simp)
qed


section \<open>Sessions\<close>

lemma authorized_denied:
  "with_authorized rp ctx scope nows act idt s = (Inl f, idt', s') \<Longrightarrow> f \<in> {DENIED, SCOPE_NOT_GRANTED, ELEVATION_REQUIRED} \<and> s' = s"
  unfolding with_authorized_def
  by (simp split: if_split_asm prod.split_asm bool.split_asm)

lemma authorized_acts:
  "with_authorized rp ctx scope nows act idt s = (Inr x, idt', s') \<Longrightarrow> \<exists>i. act i s = (x, idt', s')"
  unfolding with_authorized_def
  by (simp split: if_split_asm prod.split_asm bool.split_asm) blast+

lemma touch_cases:
  assumes "touch ctx scope nows g = (r, g')"
  obtains idt where "g' = g\<lparr>gw_identity := idt\<rparr>" "\<And>f. r = Inl f \<Longrightarrow> f \<in> {DENIED, SCOPE_NOT_GRANTED, ELEVATION_REQUIRED}"
proof -
  let ?act = "\<lambda>idt (g :: gateway). case ((), g\<lparr>gw_identity := idt\<rparr>) of (x, g') \<Rightarrow> (x, gw_identity g', g')"
  obtain r1 idt g1 where w: "with_authorized (gw_rp_id g) ctx scope nows ?act (gw_identity g) g = (r1, idt, g1)"
    by (cases "with_authorized (gw_rp_id g) ctx scope nows ?act (gw_identity g) g")
  have "\<exists>i. g1 = g\<lparr>gw_identity := i\<rparr>"
  proof (cases r1)
    case (Inl f)
    have "g1 = g" using authorized_denied [OF w [unfolded Inl]] by simp
    then show ?thesis by (intro exI [of _ "gw_identity g"]) simp
  next
    case (Inr u)
    from authorized_acts [OF w [unfolded Inr]] show ?thesis by auto
  qed
  then have "g' = g\<lparr>gw_identity := idt\<rparr>" "r = r1" using assms w by (auto simp: touch_def authorized_def)
  moreover have "f \<in> {DENIED, SCOPE_NOT_GRANTED, ELEVATION_REQUIRED}" if "r1 = Inl f" for f
    using authorized_denied [OF w [unfolded that]] by simp
  ultimately show thesis using that by blast
qed

lemma denied_status: "f \<in> {DENIED, SCOPE_NOT_GRANTED, ELEVATION_REQUIRED} \<Longrightarrow> \<not> is_success (fst f)"
  by (auto simp: DENIED_def SCOPE_NOT_GRANTED_def ELEVATION_REQUIRED_def is_success_def)

lemma authenticate_route_denied:
  assumes "authenticate_route X acc hs nows g = (Inl reply, g')"
  shows "(\<exists>idt. g' = g\<lparr>gw_identity := idt\<rparr>) \<and> \<not> is_success (re_status reply)"
proof -
  obtain scope where acc: "acc = Session scope" using assms by (cases acc) (auto simp: authenticate_route_def)
  obtain c idt where au: "authenticate X hs (gw_rp_id g) (nows 0) (gw_identity g) = (c, idt)"
    by (cases "authenticate X hs (gw_rp_id g) (nows 0) (gw_identity g)")
  show ?thesis
  proof (cases c)
    case None
    then show ?thesis using assms acc au denied_status [of DENIED] by (auto simp: authenticate_route_def failure_reply_def)
  next
    case (Some ctx)
    obtain r g1 where t: "touch ctx scope (later 1 nows) (g\<lparr>gw_identity := idt\<rparr>) = (r, g1)"
      by (cases "touch ctx scope (later 1 nows) (g\<lparr>gw_identity := idt\<rparr>)")
    from t obtain i where g1: "g1 = g\<lparr>gw_identity := idt, gw_identity := i\<rparr>"
      and f: "\<And>f. r = Inl f \<Longrightarrow> f \<in> {DENIED, SCOPE_NOT_GRANTED, ELEVATION_REQUIRED}" by (cases rule: touch_cases) blast
    obtain f where "r = Inl f" "reply = failure_reply f" "g' = g1"
      using assms acc au Some t by (auto simp: authenticate_route_def split: sum.splits)
    then show ?thesis using g1 f denied_status by (auto simp: failure_reply_def)
  qed
qed

lemma authenticate_route_session:
  assumes "authenticate_route X (Session scope) hs nows g = (Inr auth, g')"
  obtains ctx idt where "auth = Some ctx" "authenticate X hs (gw_rp_id g) (nows 0) (gw_identity g) = (Some ctx, idt)"
    "touch ctx scope (later 1 nows) (g\<lparr>gw_identity := idt\<rparr>) = (Inr (), g')"
  using assms that by (auto simp: authenticate_route_def split: prod.splits option.splits sum.splits)

lemma admitted_open: "admit_request w now until rq = Inr body \<Longrightarrow> now < until"
  by (auto simp: admit_request_def split: if_splits)

lemma admit_refused: "admit_request w now until rq = Inl reply \<Longrightarrow> \<not> is_success (re_status reply)"
  by (auto simp: admit_request_def failure_reply_def status_reply_def invalid_json_def INVALID_JSON_def POLICY_EXPIRED_def
      TOO_LARGE_def body_error_def is_success_def split: if_splits option.splits sum.splits)

text \<open>
  C11: what a route for sessions does, it does for a session. When such a request succeeds, or when
  it changes anything of the gateway but the identity table (a ceremony, an event for the desktop, a
  pairing, the push devices), then the guard let it through, the companion's window was open,
  and the request carried a session's cookie and, in the other header, the binding of that session.
\<close>

theorem session_route_authorized:
  assumes "handle A w fl t nows d rq a = Some (r, a')"
    and "route_of (hq_method rq) (uri_path (hq_uri rq)) = Some ro" and "ro_access ro = Session scope"
    and "(\<exists>reply. r = Inl reply \<and> is_success (re_status reply))
      \<or> gw_ceremonies (ap_gateway a') \<noteq> gw_ceremonies (ap_gateway a) \<or> gw_audit (ap_gateway a') \<noteq> gw_audit (ap_gateway a)
      \<or> gw_pairings (ap_gateway a') \<noteq> gw_pairings (ap_gateway a) \<or> gw_push (ap_gateway a') \<noteq> gw_push (ap_gateway a)"
  shows "guard_refuses (ai_ext A) (ap_guard a) (hq_method rq) (hq_uri rq) (hq_headers rq) = None
    \<and> nows 0 < po_enable_until (gw_policy (ap_gateway a))
    \<and> (\<exists>sid s token hv. cookie_id (ai_ext A) (hq_headers rq) = Some sid
        \<and> get_all (hq_headers rq) ''x-yzc-binding'' = [hv] \<and> decode (ai_ext A) 32 hv = Some token
        \<and> hm_get (id_sessions (gw_identity (ap_gateway a))) sid = Some s
        \<and> se_binding_hash s = hash (ai_ext A) token \<and> se_rp_id s = gw_rp_id (ap_gateway a))"
proof -
  obtain r0 where h: "dispatch A w fl t nows d rq a = Some (r0, a')"
      and r: "r = map_sum (harden (is_api (uri_path (hq_uri rq)))) id r0"
    using assms(1) by (auto simp: handle_def)
  have ok: "(\<exists>reply. r0 = Inl reply \<and> is_success (re_status reply))" if "\<exists>reply. r = Inl reply \<and> is_success (re_status reply)"
    using that r by (cases r0) auto
  show ?thesis using h
  proof (cases rule: dispatch_cases)
    case (refused st gd)
    then show ?thesis using assms(4) ok refused by (auto simp: status_reply_def)
  next
    case (rejected reply gd)
    then show ?thesis using assms(4) ok admit_refused [OF rejected(3)] by auto
  next
    case (routed body gd)
    note win = admitted_open [OF routed(2)]
    from routed(3) show ?thesis
    proof (cases rule: dispatch_route_cases)
      case missing
      then show ?thesis using assms(2) by simp
    next
      case (upgrade ro scope reply u)
      then show ?thesis using assms(2,3) by simp
    next
      case (denied ro' reply g)
      note n = authenticate_route_denied [OF denied(2)]
      then obtain i where "ap_gateway a' = (ap_gateway a)\<lparr>gw_identity := i\<rparr>" using denied(4) by auto
      then show ?thesis using assms(4) ok n denied(3) by simp
    next
      case (run ro' auth g g')
      then have "ro' = ro" using assms(2) by simp
      with run(2) assms(3) obtain ctx idt where
          "authenticate (ai_ext A) (hq_headers rq) (gw_rp_id (ap_gateway a)) (nows 1) (gw_identity (ap_gateway a)) = (Some ctx, idt)"
        by (auto elim: authenticate_route_session simp: later_def)
      then obtain s token hv where s: "cookie_id (ai_ext A) (hq_headers rq) = Some (cx_session_id ctx)"
          "get_all (hq_headers rq) ''x-yzc-binding'' = [hv]" "decode (ai_ext A) 32 hv = Some token"
          "hm_get (id_sessions (gw_identity (ap_gateway a))) (cx_session_id ctx) = Some s"
          "se_binding_hash s = hash (ai_ext A) token"
          and v: "validate (cx_session_id ctx) (gw_rp_id (ap_gateway a)) View (nows 1) (gw_identity (ap_gateway a)) = (True, idt)"
        using authenticate_sound by blast
      have "se_rp_id s = gw_rp_id (ap_gateway a)"
        using v s(4) by (auto simp: validate_def split: if_splits)
      with s routed(1) win show ?thesis by blast
    qed
  qed
qed

end
