(* ===== verification/Server_Props.thy ===== *)
theory Server_Props
  imports Server Http_Props "HOL-Library.Multiset"
begin

text \<open>
  Correctness of \<open>Server\<close>: its reachable states, in which requests, polls, sockets, commands of the desktop
  and maintenance interleave; what every request does to the gateway; and that the permits of upgrades,
  the polls of a pairing and the registered peers are accounted for by the tasks that hold them.
\<close>

section \<open>Reachable servers\<close>

text \<open>
  Drawn identifiers and challenges are new when they are used: they are random, 128 bits and more.
\<close>

definition fresh_draw :: "draw \<Rightarrow> gateway \<Rightarrow> bool" where
  "fresh_draw d g \<longleftrightarrow> fresh_challenge (dr_challenge d) (gw_ceremonies g) \<and> new_id (dr_second d) (gw_identity g)"

definition poll_id :: "status_request option \<Rightarrow> string list" where
  "poll_id c = (case c of None \<Rightarrow> [] | Some req \<Rightarrow> [sq_pairing_id req])"

definition polls :: "server \<Rightarrow> string list" where
  "polls sv = concat (map poll_id (sv_connections sv))"

text \<open>What the registered peers are, without the sessions they belong to.\<close>

definition peer_keys :: "identity \<Rightarrow> (u64 \<times> string) list" where
  "peer_keys idt = map (\<lambda>(pid, p). (pid, pc_device p)) (id_peers idt)"

text \<open>
  The steps. \<open>s_elsewhere\<close> is everything the serving sockets and the writer of the events do: it leaves
  the pairings and the set of registered peers alone.
\<close>

inductive server_step ::
  "api \<Rightarrow> ('b, 'f) web \<Rightarrow> server \<Rightarrow> server \<Rightarrow> bool" for A :: api and w :: "('b, 'f) web" where
  s_accept: "sv_stop sv = 0 \<Longrightarrow> server_step A w sv (server_accept sv)"
| s_close: "sv_connections sv = xs @ c # ys \<Longrightarrow>
    server_step A w sv (connection_end c (sv\<lparr>sv_connections := xs @ ys\<rparr>))"
| s_request: "sv_stop sv = 0 \<Longrightarrow> sv_connections sv = xs @ None # ys \<Longrightarrow> fresh_draw d (sv_gateway sv) \<Longrightarrow>
    handle A (w\<lparr>wb_files := fs, wb_late := late\<rparr>) fl t nows d rq (sv_app sv) = Some (r, a) \<Longrightarrow>
    server_step A w sv (set_app a (sv\<lparr>sv_connections := xs @ (case r of Inl _ \<Rightarrow> None | Inr req \<Rightarrow> Some req) # ys\<rparr>))"
| s_poll_end: "sv_stop sv = 0 \<Longrightarrow> sv_connections sv = xs @ Some req # ys \<Longrightarrow>
    handle_status A late req d (sv_app sv) = (reply, a) \<Longrightarrow>
    server_step A w sv (set_app a (sv\<lparr>sv_connections := xs @ None # ys\<rparr>))"
| s_upgrade: "sv_stop sv = 0 \<Longrightarrow> server_step A w sv (server_upgrade sv)"
| s_auth: "sv_peers sv = xs @ Upgrading hs # ys \<Longrightarrow>
    socket_auth (ai_ext A) (ai_json A) hs frame now (sv_gateway sv) = (Inr ctx, g) \<Longrightarrow>
    server_step A w sv (set_gateway g (sv\<lparr>sv_peers := xs @ Authed ctx # ys\<rparr>))"
| s_auth_failed: "sv_peers sv = xs @ Upgrading hs # ys \<Longrightarrow>
    socket_auth (ai_ext A) (ai_json A) hs frame now (sv_gateway sv) = (Inl cl, g) \<Longrightarrow>
    server_step A w sv (release_permit (set_gateway g (sv\<lparr>sv_peers := xs @ ys\<rparr>)))"
| s_register: "sv_peers sv = xs @ Authed ctx # ys \<Longrightarrow> socket_register ctx nows (sv_gateway sv) = (Inr pid, g) \<Longrightarrow>
    server_step A w sv (set_gateway g (sv\<lparr>sv_peers := xs @ Serving pid (cx_device_id ctx) # ys\<rparr>))"
| s_register_failed: "sv_peers sv = xs @ Authed ctx # ys \<Longrightarrow> socket_register ctx nows (sv_gateway sv) = (Inl cl, g) \<Longrightarrow>
    server_step A w sv (release_permit (set_gateway g (sv\<lparr>sv_peers := xs @ ys\<rparr>)))"
| s_peer_end: "sv_peers sv = xs @ p # ys \<Longrightarrow> server_step A w sv (peer_end p reason (sv\<lparr>sv_peers := xs @ ys\<rparr>))"
| s_maintenance: "server_step A w sv (set_gateway (gateway_maintenance mnows t1 t2 (sv_gateway sv)) sv)"
| s_command: "gateway_command (ai_ext A) start mnows now rid rsecret command (sv_gateway sv) = (r, g) \<Longrightarrow>
    fresh_id (ai_ext A) rid (gw_pairings (sv_gateway sv)) (polls sv) \<Longrightarrow>
    server_step A w sv (set_gateway g sv)"
| s_elsewhere: "gateway_step (ai_ext A) (ai_lib A) (sv_gateway sv) g \<Longrightarrow> gw_pairings g = gw_pairings (sv_gateway sv) \<Longrightarrow>
    peer_keys (gw_identity g) = peer_keys (gw_identity (sv_gateway sv)) \<Longrightarrow>
    server_step A w sv (set_gateway g sv)"
| s_stop: "sv_stop sv = 0 \<Longrightarrow> server_step A w sv (server_stop expired mnows t1 t2 sv)"


inductive server_reach :: "api \<Rightarrow> ('b, 'f) web \<Rightarrow> init \<Rightarrow> server \<Rightarrow> bool" for A :: api and w :: "('b, 'f) web" and i :: init where
  s_start: "deserialize_devices (ai_ext A) devs = Inr (in_devices i) \<Longrightarrow>
    gateway_new (ai_ext A) (ai_lib A) AU i instant es nows salt = Inr g \<Longrightarrow>
    server_bind (ai_ext A) AU canonicalize listen (in_loopback i) (in_web_root i) now1 now2 g = Inr (dir, port, sv) \<Longrightarrow>
    server_reach A w i sv"
| s_next: "server_reach A w i sv \<Longrightarrow> server_step A w sv sv' \<Longrightarrow> server_reach A w i sv'"


section \<open>Registered peers\<close>

definition same_peers :: "identity \<Rightarrow> identity \<Rightarrow> bool" where
  "same_peers idt idt' \<longleftrightarrow> peer_keys idt' = peer_keys idt"

lemma same_peers_refl [simp]: "same_peers idt idt"
  by (simp add: same_peers_def)

lemma same_peers_trans: "same_peers a b \<Longrightarrow> same_peers b c \<Longrightarrow> same_peers a c"
  by (simp add: same_peers_def)

lemma same_peersI: "id_peers idt' = id_peers idt \<Longrightarrow> same_peers idt idt'"
  by (simp add: same_peers_def peer_keys_def)

lemma same_peers_drop: "same_peers idt (drop_sessions P idt)"
  by (simp add: same_peers_def peer_keys_def drop_sessions_def case_prod_beta comp_def if_distrib cong: if_cong)

lemma same_peers_invalidate: "same_peers idt (invalidate_session sid idt)"
  by (simp add: invalidate_is_drop same_peers_drop)

lemma same_peers_device: "same_peers idt (invalidate_device did idt)"
  by (simp add: invalidate_device_def fold_invalidate same_peers_drop)

lemma same_peers_purge: "same_peers idt (purge_expired now idt)"
  by (simp add: purge_expired_def fold_invalidate same_peers_drop)

lemma same_peers_validate: "validate sid rp scope now idt = (r, idt') \<Longrightarrow> same_peers idt idt'"
  by (erule validate_cases) (auto intro: same_peersI same_peers_invalidate)

lemma same_peers_revalidate: "revalidate ctx scope now idt = (r, idt') \<Longrightarrow> same_peers idt idt'"
  by (auto simp: revalidate_def split: option.splits if_splits intro: same_peers_validate)

lemma same_peers_authenticate: "authenticate X hs rp now idt = (r, idt') \<Longrightarrow> same_peers idt idt'"
  by (auto simp: authenticate_def split: option.splits if_splits list.splits prod.splits bool.splits intro: same_peers_validate)

lemma same_peers_elevate: "elevate ctx scope now0 now idt = (r, idt') \<Longrightarrow> same_peers idt idt'"
proof (erule elevate_cases)
  fix idt1 s d cap
  assume "revalidate ctx View now0 idt = (True, idt1)"
    and "idt' = idt1\<lparr>id_sessions := hm_insert (cx_session_id ctx) (set_elevation scope (elevation_until idt1 s cap now) now s)
                       (id_sessions idt1)\<rparr>"
  then show "same_peers idt idt'" using same_peers_trans [OF same_peers_revalidate same_peersI] by simp
qed (auto intro: same_peers_revalidate)

lemma same_peers_notify: "notify_snapshot did idt es = (idt', es') \<Longrightarrow> same_peers idt idt'"
  by (auto simp: notify_snapshot_def Let_def split: option.splits prod.splits bool.splits intro: same_peersI)

lemma same_peers_notify_all: "notify_all dids idt es = (idt', es') \<Longrightarrow> same_peers idt idt'"
proof (induction dids arbitrary: idt es)
  case (Cons did dids)
  obtain idt1 es1 where n: "notify_snapshot did idt es = (idt1, es1)" by (cases "notify_snapshot did idt es")
  with Cons show ?case using same_peers_trans [OF same_peers_notify [OF n]] by simp
qed simp

lemma same_peers_maintenance:
  assumes "identity_maintenance now idt es = (idt', es')"
  shows "same_peers idt idt'"
proof -
  let ?p = "purge_expired now idt"
  obtain idt1 es1 where n: "notify_all (id_dirty_devices ?p) (?p\<lparr>id_dirty_devices := []\<rparr>) es = (idt1, es1)"
    by (cases "notify_all (id_dirty_devices ?p) (?p\<lparr>id_dirty_devices := []\<rparr>) es")
  have "same_peers idt (?p\<lparr>id_dirty_devices := []\<rparr>)"
    by (rule same_peers_trans [OF same_peers_purge]) (rule same_peersI, simp)
  then have "same_peers idt idt1" using same_peers_notify_all [OF n] same_peers_trans by blast
  moreover have "same_peers idt1 idt'"
    using assms n by (auto simp: identity_maintenance_def Let_def split: prod.splits intro: same_peersI)
  ultimately show ?thesis by (rule same_peers_trans)
qed

lemma same_peers_failed: "assertion_failed did rollback idt es = (idt', es') \<Longrightarrow> same_peers idt idt'"
proof (erule assertion_failed_cases)
  fix d n
  assume "notify_snapshot did (lock_device did d (idt\<lparr>id_failures := hm_insert did n (id_failures idt)\<rparr>)) es = (idt', es')"
  note same_peers_notify [OF this]
  moreover have "same_peers idt (lock_device did d (idt\<lparr>id_failures := hm_insert did n (id_failures idt)\<rparr>))"
    unfolding lock_device_def by (rule same_peers_trans [OF same_peersI same_peers_device]) simp
  ultimately show "same_peers idt idt'" by (rule same_peers_trans [rotated])
qed (auto intro: same_peersI)

lemma same_peers_verified: "assertion_verified did cid rp va now idt es = (idt', es') \<Longrightarrow> same_peers idt idt'"
  unfolding assertion_verified_def
  by (auto split: option.splits dest!: same_peers_notify simp: same_peers_def peer_keys_def Let_def)

lemma same_peers_issue: "issue_session X did rp now1 now2 now3 rb rid idt = (r, idt') \<Longrightarrow> same_peers idt idt'"
proof -
  have e: "same_peers idt (evict_session did (purge_expired now1 idt))"
    by (rule same_peers_trans [OF same_peers_purge])
      (auto simp: evict_session_def split: option.splits intro: same_peers_invalidate)
  assume "issue_session X did rp now1 now2 now3 rb rid idt = (r, idt')"
  then show ?thesis using e same_peers_purge [of idt now1]
    by (auto simp: issue_session_def Let_def split: option.splits if_splits)
      (simp_all add: same_peers_def peer_keys_def)
qed

lemma same_peers_finish:
  "finish_assertion X W rp state response ctx now0 now1 now2 now3 rb rid idt es = (r, idt', es') \<Longrightarrow> same_peers idt idt'"
proof (erule finish_assertion_cases)
  fix did e
  assume "assertion_failed did (e = AssertionRollback) idt es = (idt', es')"
  then show "same_peers idt idt'" by (rule same_peers_failed)
qed (auto intro: same_peers_trans same_peers_verified same_peers_elevate same_peers_issue)

lemma same_peers_register:
  "register_verified X pairing v now1 now2 now3 idt es = (r, idt', es') \<Longrightarrow> same_peers idt idt'"
  by (erule register_cases) (auto intro: same_peers_trans [OF same_peersI same_peers_device])

lemma same_peers_command: "device_command_run X command idt es = (r, idt', es') \<Longrightarrow> same_peers idt idt'"
proof -
  have c: "same_peers idt (commit_change command did snapshot idt)" for did snapshot
    unfolding commit_change_def by (rule same_peers_trans [OF same_peersI same_peers_device]) simp
  assume "device_command_run X command idt es = (r, idt', es')"
  then show ?thesis
    by (cases rule: device_command_cases) (use c in \<open>auto simp: Let_def same_peers_def peer_keys_def\<close>)
qed


section \<open>What a handler does to the gateway\<close>

lemma set_gw_events_pairings [simp]: "gw_pairings (set_gw_events es g) = gw_pairings g"
  by (simp add: set_gw_events_def)

lemma outcome_pairings [simp]: "gw_pairings (outcome k b d g) = gw_pairings g"
  by (simp add: outcome_def)

lemma same_peers_authorized:
  assumes "with_authorized rp ctx scope nows act idt s = (r, idt', s')"
    and "\<And>i x i' t. act i s = (x, i', t) \<Longrightarrow> same_peers i i'"
  shows "same_peers idt idt'"
proof -
  obtain b1 i1 where r1: "revalidate ctx View (nows 0) idt = (b1, i1)" by (cases "revalidate ctx View (nows 0) idt")
  obtain b2 i2 where r2: "revalidate ctx scope (nows 2) i1 = (b2, i2)" by (cases "revalidate ctx scope (nows 2) i1")
  obtain x i3 t where a: "act i2 s = (x, i3, t)" by (cases "act i2 s")
  note k1 = same_peers_revalidate [OF r1] and k2 = same_peers_trans [OF same_peers_revalidate [OF r1] same_peers_revalidate [OF r2]]
  note k3 = same_peers_trans [OF k2 assms(2) [OF a]]
  from assms(1) have "idt' = idt \<or> idt' = i1 \<or> idt' = i2 \<or> idt' = i3"
    unfolding with_authorized_def r1 by (auto simp: r2 a split: if_split_asm bool.split_asm)
  then show ?thesis using k1 k2 k3 by auto
qed

text \<open>
  A move of the gateway: steps of the gateway that keep the registered peers and, with the polls before
  and after it, the invariant of the pairing table.
\<close>

definition moves :: "ext \<Rightarrow> webauthn_lib \<Rightarrow> string list \<Rightarrow> string list \<Rightarrow> gateway \<Rightarrow> gateway \<Rightarrow> bool" where
  "moves X W ps ps' g g' \<longleftrightarrow>
     (gateway_step X W)\<^sup>*\<^sup>* g g' \<and> same_peers (gw_identity g) (gw_identity g')
     \<and> (pairings_inv (gw_pairings g) ps \<longrightarrow> pairings_inv (gw_pairings g') ps')"

lemma moves_refl [simp]: "moves X W ps ps g g"
  by (simp add: moves_def)

lemma moves_trans: "moves X W a b g1 g2 \<Longrightarrow> moves X W b c g2 g3 \<Longrightarrow> moves X W a c g1 g3"
  by (auto simp: moves_def intro: same_peers_trans rtranclp_trans)

lemma moves_step:
  "gateway_step X W g g' \<Longrightarrow> same_peers (gw_identity g) (gw_identity g') \<Longrightarrow>
    (pairings_inv (gw_pairings g) ps \<Longrightarrow> pairings_inv (gw_pairings g') ps') \<Longrightarrow> moves X W ps ps' g g'"
  by (simp add: moves_def)

text \<open>A handler of the pairing table.\<close>

lemma moves_pairing:
  "(pairings_inv (gw_pairings g) ps \<Longrightarrow> pairings_inv qs ps') \<Longrightarrow> moves X W ps ps' g (set_gw_events es (g\<lparr>gw_pairings := qs\<rparr>))"
  by (rule moves_step [OF g_other]) simp_all

lemma moves_authenticate:
  assumes "authenticate X hs (gw_rp_id g) now (gw_identity g) = (r, idt)"
  shows "moves X W ps ps g (g\<lparr>gw_identity := idt\<rparr>)"
proof (rule moves_step [OF g_authenticate])
  show "gateway_authenticate X hs now g = (r, g\<lparr>gw_identity := idt\<rparr>)" using assms by (simp add: gateway_authenticate_def)
  show "same_peers (gw_identity g) (gw_identity (g\<lparr>gw_identity := idt\<rparr>))" using same_peers_authenticate [OF assms] by simp
qed simp

lemma touch_run:
  assumes "touch ctx scope nows g = (r, g')"
  obtains idt where "with_authorized (gw_rp_id g) ctx scope nows (\<lambda>idt s. ((), idt, s)) (gw_identity g) () = (r, idt, ())"
    "g' = g\<lparr>gw_identity := idt\<rparr>"
proof -
  obtain b1 i1 where r1: "revalidate ctx View (nows 0) (gw_identity g) = (b1, i1)" by (cases "revalidate ctx View (nows 0) (gw_identity g)")
  obtain b2 i2 where r2: "revalidate ctx scope (nows 2) i1 = (b2, i2)" by (cases "revalidate ctx scope (nows 2) i1")
  have r2v: "scope = View \<Longrightarrow> revalidate ctx View (nows 2) i1 = (b2, i2)" using r2 by simp
  have "\<exists>idt. with_authorized (gw_rp_id g) ctx scope nows (\<lambda>idt s. ((), idt, s)) (gw_identity g) () = (r, idt, ())
      \<and> g' = g\<lparr>gw_identity := idt\<rparr>"
    using assms unfolding touch_def authorized_def with_authorized_def r1
    by (cases "cx_rp_id ctx = gw_rp_id g"; cases b1; cases "scope \<noteq> View \<and> \<not> can_elevate ctx scope (nows 1) i1"; cases b2)
      (auto simp: r2 r2v)
  then show thesis using that by blast
qed

lemma moves_touch: "touch ctx scope nows g = (r, g') \<Longrightarrow> moves X W ps ps g g'"
proof (erule touch_run)
  fix idt
  assume w: "with_authorized (gw_rp_id g) ctx scope nows (\<lambda>idt s. ((), idt, s)) (gw_identity g) () = (r, idt, ())"
    and g': "g' = g\<lparr>gw_identity := idt\<rparr>"
  show ?thesis unfolding g'
    by (rule moves_step [OF g_authorized [OF w]]) (use same_peers_authorized [OF w] in simp_all)
qed

lemma moves_route:
  assumes "authenticate_route X acc hs nows g = (r, g')"
  shows "moves X W ps ps g g'"
proof (cases acc)
  case (Session scope)
  obtain c idt where au: "authenticate X hs (gw_rp_id g) (nows 0) (gw_identity g) = (c, idt)"
    by (cases "authenticate X hs (gw_rp_id g) (nows 0) (gw_identity g)")
  note m = moves_authenticate [OF au, of W ps]
  show ?thesis
  proof (cases c)
    case (Some ctx)
    obtain rt g1 where t: "touch ctx scope (later 1 nows) (g\<lparr>gw_identity := idt\<rparr>) = (rt, g1)"
      by (cases "touch ctx scope (later 1 nows) (g\<lparr>gw_identity := idt\<rparr>)")
    have "g' = g1" using assms Session au Some t by (auto simp: authenticate_route_def split: sum.splits)
    then show ?thesis using moves_trans [OF m moves_touch [OF t]] by simp
  qed (use assms Session au m in \<open>auto simp: authenticate_route_def\<close>)
qed (use assms in \<open>auto simp: authenticate_route_def\<close>)

lemma moves_claim: "claim_handler A hs body d g = Some (r, g') \<Longrightarrow> moves X W ps ps g g'"
  by (auto simp: claim_handler_def split: option.splits prod.splits sum.splits intro!: moves_pairing intro: table_step_inv [OF _ claim_table])

lemma moves_status_enter:
  assumes "status_enter A body d g = (r, g')"
  shows "moves X W ps (case r of Inl _ \<Rightarrow> ps | Inr req \<Rightarrow> sq_pairing_id req # ps) g g'"
proof (cases "from_slice (ai_json A) status_request_of body")
  case (Some req)
  obtain rb qs es where b: "status_begin (ai_ext A) req (dr_now d 0) (gw_pairings g) (gw_events g) = (rb, qs, es)"
    by (cases "status_begin (ai_ext A) req (dr_now d 0) (gw_pairings g) (gw_events g)")
  show ?thesis
  proof (cases rb)
    case (Inl f)
    then show ?thesis using assms Some b table_step_inv [OF _ status_begin_Inl_table [OF b [unfolded Inl]]]
      by (auto simp: status_enter_def intro!: moves_pairing)
  next
    case (Inr h)
    then show ?thesis using assms Some b status_begin_inv [OF _ b [unfolded Inr]]
      by (auto simp: status_enter_def intro!: moves_pairing)
  qed
qed (use assms in \<open>auto simp: status_enter_def\<close>)

lemma moves_status_leave:
  assumes "status_leave A req d g = (r, g')" and "sq_pairing_id req \<in> set ps"
  shows "moves X W ps (remove1 (sq_pairing_id req) ps) g g'"
  using assms
  by (auto simp: status_leave_def split: prod.splits intro!: moves_pairing
      intro: release_inv table_step_inv [OF _ status_finish.with_entry_table [folded status_finish_def]])

lemma moves_release:
  assumes "sq_pairing_id req \<in> set ps"
  shows "moves X W ps (remove1 (sq_pairing_id req) ps) g
    (g\<lparr>gw_pairings := status_release (sq_pairing_id req) (gw_pairings g)\<rparr>)"
  by (rule moves_step [OF g_other]) (use release_inv [OF _ assms] in simp_all)

lemma moves_registration_options:
  assumes "gateway_registration_options X W req nows random ch g = (r, g')" and "fresh_challenge ch (gw_ceremonies g)"
  shows "moves X W ps ps g g'"
proof (rule moves_step [OF g_registration [OF assms(2,1)]])
  show "same_peers (gw_identity g) (gw_identity g')"
    using assms(1) by (auto simp: gateway_registration_options_def Let_def split: prod.splits sum.splits)
  show "pairings_inv (gw_pairings g') ps" if "pairings_inv (gw_pairings g) ps"
    using assms(1) that
    by (auto simp: gateway_registration_options_def Let_def split: prod.splits sum.splits
        dest!: consume_table retry.with_entry_table [folded retry_registration_def] intro: table_step_inv)
qed

lemma finish_inv:
  assumes "finish rg now commit ps t = (r, ps', t')" and "pairings_inv ps qs"
  shows "pairings_inv ps' qs"
proof -
  have "finish_entry rg now (\<lambda>s. (fst (commit t), s)) p spawn_writer = (fst (finish_entry rg now commit p t), fst (snd (finish_entry rg now commit p t)), spawn_writer)" for p
    by (auto simp: finish_entry_def Let_def split: option.splits prod.splits sum.splits)
  then have "finish rg now (\<lambda>s. (fst (commit t), s)) ps spawn_writer = (r, ps', spawn_writer)"
    using assms(1) by (auto simp: finish_def hm_with_def split: option.splits prod.splits)
  from finish_table [OF this] show ?thesis using table_step_inv [OF assms(2)] by simp
qed

lemma moves_registration_finish:
  assumes "gateway_registration_finish X W req nows g = (r, g')"
  shows "moves X W ps ps g g'"
proof (rule moves_step [OF g_registered [OF assms]])
  obtain r1 g1 where run: "registration_run X W req nows g = (r1, g1)" by (cases "registration_run X W req nows g")
  then have g': "g' = outcome ''registration'' (is_ok r1) (ok_value r1) g1" using assms by (auto simp: gateway_registration_finish_def)
  have fin: "same_peers (gw_identity g) (fst t')"
    if "finish pairing now (registration_commit X pairing v nows) qs (gw_identity g, es) = (rr, ps', t')" for pairing now v qs es rr ps' t'
    using finish_state [OF that]
    by (cases t') (auto simp: registration_commit_def split: prod.splits dest: same_peers_register)
  show "same_peers (gw_identity g) (gw_identity g')" using run unfolding g'
    by (auto simp: registration_run_def Let_def split: sum.splits prod.splits ceremony_kind.splits dest!: fin)
  show "pairings_inv (gw_pairings g') ps" if "pairings_inv (gw_pairings g) ps" using run that unfolding g'
    by (auto simp: registration_run_def Let_def split: sum.splits prod.splits ceremony_kind.splits intro: finish_inv)
qed


lemma moves_login_options:
  assumes "login_options W nows ch g = (r, g')" and "fresh_challenge ch (gw_ceremonies g)"
  shows "moves X W ps ps g g'"
proof (rule moves_step [OF g_login [OF assms(2,1)]])
  show "same_peers (gw_identity g) (gw_identity g')"
    using assms(1) by (auto simp: login_options_def split: prod.splits sum.splits)
  show "pairings_inv (gw_pairings g') ps" if "pairings_inv (gw_pairings g) ps"
    using assms(1) that by (auto simp: login_options_def split: prod.splits sum.splits)
qed

lemma moves_login_finish:
  assumes "login_finish X W credential nows rbinding rid g = (r, g')" and "new_id rid (gw_identity g)"
  shows "moves X W ps ps g g'"
proof (rule moves_step [OF g_logged_in [OF assms(2,1)]])
  obtain r1 g1 where run: "login_run X W credential nows rbinding rid g = (r1, g1)" by (cases "login_run X W credential nows rbinding rid g")
  then have g': "g' = outcome ''login'' (is_ok r1) (logged_in_device r1) g1" using assms(1) by (auto simp: login_finish_def)
  show "same_peers (gw_identity g) (gw_identity g')" using run unfolding g'
    by (auto simp: login_run_def Let_def split: prod.splits sum.splits ceremony_kind.splits dest: same_peers_finish)
  show "pairings_inv (gw_pairings g') ps" if "pairings_inv (gw_pairings g) ps" using run that unfolding g'
    by (auto simp: login_run_def Let_def split: prod.splits sum.splits ceremony_kind.splits)
qed

lemma moves_elevation_options:
  assumes "elevation_options X W ctx scope nows ch g = (r, g')" and "fresh_challenge ch (gw_ceremonies g)"
  shows "moves X W ps ps g g'"
proof (rule moves_step [OF g_elevation [OF assms(2,1)]])
  obtain b idt where rv: "revalidate ctx View (nows 0) (gw_identity g) = (b, idt)" by (cases "revalidate ctx View (nows 0) (gw_identity g)")
  note k = same_peers_revalidate [OF rv]
  have "(gw_identity g' = gw_identity g \<or> gw_identity g' = idt \<or> gw_identity g' = purge_expired (nows 2) idt)
      \<and> gw_pairings g' = gw_pairings g"
    using assms(1) unfolding elevation_options_def rv
    by (auto simp: active_session_ids_def Let_def split: if_splits bool.splits option.splits sum.splits prod.splits)
  then show "same_peers (gw_identity g) (gw_identity g')" "pairings_inv (gw_pairings g) ps \<Longrightarrow> pairings_inv (gw_pairings g') ps"
    using k same_peers_trans [OF k same_peers_purge] by auto
qed

lemma moves_elevation_finish:
  assumes "elevation_finish X W ctx scope credential nows rbinding rid g = (r, g')" and "new_id rid (gw_identity g)"
  shows "moves X W ps ps g g'"
proof (rule moves_step [OF g_elevated [OF assms(2,1)]])
  obtain r1 g1 where run: "elevation_run X W ctx scope credential nows rbinding rid g = (r1, g1)"
    by (cases "elevation_run X W ctx scope credential nows rbinding rid g")
  obtain b d where g': "g' = outcome ''elevation'' b d g1" using assms(1) run by (auto simp: elevation_finish_def)
  have w: "same_peers i i'" if "elevation_write X W rp ctx scope credential taken nows rbinding rid i es = (x, i', es')" for rp taken i es x i' es'
    using that by (cases rule: elevation_write_cases) (auto intro: same_peers_finish)
  have "same_peers (gw_identity g) (gw_identity g1)" using run
  proof (cases rule: elevation_run_cases)
    case (1 taken ce rw idt es)
    have "same_peers (gw_identity g) idt" by (rule same_peers_authorized [OF 1(2) w])
    then show ?thesis using 1(4) by simp
  qed
  then show "same_peers (gw_identity g) (gw_identity g')" by (simp add: g')
  have "gw_pairings g1 = gw_pairings g" using run by (auto simp: elevation_run_def split: prod.splits)
  then show "pairings_inv (gw_pairings g) ps \<Longrightarrow> pairings_inv (gw_pairings g') ps" by (simp add: g')
qed

lemma moves_logout:
  assumes "gateway_logout ctx nows g = (r, g')"
  shows "moves X W ps ps g g'"
proof (rule moves_step [OF g_logout [OF assms]])
  obtain r1 idt u where w: "with_authorized (gw_rp_id g) ctx View nows
      (\<lambda>idt s. ((), session_logout (cx_session_id ctx) idt, s)) (gw_identity g) () = (r1, idt, u)"
    by (cases "with_authorized (gw_rp_id g) ctx View nows
      (\<lambda>idt s. ((), session_logout (cx_session_id ctx) idt, s)) (gw_identity g) ()")
  have "same_peers (gw_identity g) idt"
    by (rule same_peers_authorized [OF w]) (auto simp: session_logout_def intro: same_peers_invalidate)
  then show "same_peers (gw_identity g) (gw_identity g')" "pairings_inv (gw_pairings g) ps \<Longrightarrow> pairings_inv (gw_pairings g') ps"
    using assms w by (auto simp: gateway_logout_def)
qed

lemma moves_maintenance: "moves X W ps ps g (gateway_maintenance mnows t1 t2 g)"
proof (rule moves_step [OF g_maintenance])
  show "same_peers (gw_identity g) (gw_identity (gateway_maintenance mnows t1 t2 g))"
    by (auto simp: gateway_maintenance_def Let_def split: prod.splits dest: same_peers_maintenance)
  show "pairings_inv (gw_pairings g) ps \<Longrightarrow> pairings_inv (gw_pairings (gateway_maintenance mnows t1 t2 g)) ps"
    by (auto simp: gateway_maintenance_def Let_def split: prod.splits dest!: maintenance_table intro: table_step_inv)
qed

lemma moves_command:
  assumes "gateway_command X start mnows now rid rsecret command g = (r, g')" and "fresh_id X rid (gw_pairings g) ps"
  shows "moves X W ps ps g g'"
proof (rule moves_step [OF g_command [OF assms(1)]])
  show "same_peers (gw_identity g) (gw_identity g')" using assms(1)
    by (auto simp: gateway_command_def run_pairing_def run_device_def Let_def
        split: if_splits command_body.splits option.splits prod.splits sum.splits dest: same_peers_command)
  show "pairings_inv (gw_pairings g') ps" if "pairings_inv (gw_pairings g) ps" using assms that
    by (auto simp: gateway_command_def run_pairing_def run_device_def Let_def
        split: if_splits command_body.splits option.splits prod.splits sum.splits intro: command_inv)
qed


section \<open>What a request does\<close>

lemma no_new_authenticate: "authenticate X hs rp now idt = (r, idt') \<Longrightarrow> no_new_session idt idt'"
  by (auto simp: authenticate_def split: option.splits if_splits list.splits prod.splits bool.splits intro: no_new_validate)

lemma route_fresh:
  assumes "authenticate_route X acc hs nows g = (Inr auth, g')" and "fresh_draw d g"
  shows "fresh_draw d g'"
proof (cases acc)
  case (Session scope)
  with assms(1) obtain ctx idt where au: "authenticate X hs (gw_rp_id g) (nows 0) (gw_identity g) = (Some ctx, idt)"
      and t: "touch ctx scope (later 1 nows) (g\<lparr>gw_identity := idt\<rparr>) = (Inr (), g')"
    by (auto elim: authenticate_route_session)
  from t obtain i where w: "with_authorized (gw_rp_id g) ctx scope (later 1 nows) (\<lambda>idt s. ((), idt, s)) idt () = (Inr (), i, ())"
      and g': "g' = g\<lparr>gw_identity := i\<rparr>" by (auto elim: touch_run)
  have "no_new_session idt i" using w by (cases rule: with_authorized_cases) auto
  then have "no_new_session (gw_identity g) i" using no_new_trans [OF no_new_authenticate [OF au]] by blast
  then show ?thesis using assms(2) by (auto simp: fresh_draw_def g' intro: new_id_mono)
qed (use assms in \<open>auto simp: authenticate_route_def\<close>)

text \<open>The polls after a handler: one more when it waits.\<close>

definition polls_after :: "reply + status_request \<Rightarrow> string list \<Rightarrow> string list" where
  "polls_after r ps = (case r of Inl _ \<Rightarrow> ps | Inr req \<Rightarrow> sq_pairing_id req # ps)"

lemma polls_after_Inl [simp]: "polls_after (Inl x) ps = ps"
  by (simp add: polls_after_def)

lemma handler_moves:
  assumes "run_handler A w rq body auth d handler g = Some (r, g')" and fresh: "fresh_draw d g"
  shows "moves (ai_ext A) (ai_lib A) ps (polls_after r ps) g g'"
proof -
  have ch: "fresh_challenge (dr_challenge d) (gw_ceremonies g)" and id: "new_id (dr_second d) (gw_identity g)"
    using fresh by (simp_all add: fresh_draw_def)
  show ?thesis
  proof (cases handler)
    case Static
    then show ?thesis using assms(1) by (auto simp: run_handler_def)
  next
    case Upgrade
    then show ?thesis using assms(1) by (simp add: run_handler_def)
  next
    case Claim
    then show ?thesis using assms(1) by (auto simp: run_handler_def Let_def bind_eq_Some_conv split: prod.splits intro: moves_claim)
  next
    case PairStatus
    then have "status_enter A body d g = (r, g')" using assms(1) by (simp add: run_handler_def)
    from moves_status_enter [OF this] show ?thesis by (simp add: polls_after_def)
  next
    case Logout
    then show ?thesis using assms(1)
      by (auto simp: run_handler_def Let_def logout_handler_def split: prod.splits if_splits option.splits sum.splits
          intro: moves_logout)
  next
    case RegisterOptions
    then show ?thesis using assms(1) moves_registration_options [OF _ ch]
      by (auto simp: run_handler_def Let_def register_options_handler_def split: prod.splits option.splits)
  next
    case RegisterFinish
    then show ?thesis using assms(1)
      by (auto simp: run_handler_def Let_def register_finish_handler_def split: prod.splits option.splits
          intro: moves_registration_finish)
  next
    case LoginOptions
    then show ?thesis using assms(1) moves_login_options [OF _ ch]
      by (auto simp: run_handler_def Let_def login_options_handler_def split: prod.splits option.splits)
  next
    case LoginFinish
    then show ?thesis using assms(1) moves_login_finish [OF _ id]
      by (auto simp: run_handler_def Let_def login_finish_handler_def bind_eq_Some_conv
          split: if_splits prod.splits option.splits sum.splits assertion_result.splits)
  next
    case ElevateOptions
    then show ?thesis using assms(1) moves_elevation_options [OF _ ch]
      by (auto simp: run_handler_def Let_def elevate_options_handler_def split: prod.splits option.splits)
  next
    case ElevateFinish
    then show ?thesis using assms(1) moves_elevation_finish [OF _ id]
      by (auto simp: run_handler_def Let_def elevate_finish_handler_def split: prod.splits option.splits)
  qed
qed

lemma respond_permits:
  assumes "respond X hand hs g u = (reply, u')"
  shows "up_permits u' + length (up_pending u') = up_permits u + length (up_pending u)"
  using assms by (auto simp: respond_def split: if_splits)

text \<open>
  A request moves the gateway by its steps, and every permit of an upgrade stays in the channel.
\<close>

lemma handle_moves:
  assumes "handle A w fl t nows d rq a = Some (r, a')" and "fresh_draw d (ap_gateway a)"
  shows "moves (ai_ext A) (ai_lib A) ps (polls_after r ps) (ap_gateway a) (ap_gateway a')"
    and "up_permits (ap_upgrades a') + length (up_pending (ap_upgrades a'))
      = up_permits (ap_upgrades a) + length (up_pending (ap_upgrades a))"
proof -
  obtain r0 where h: "dispatch A w fl t nows d rq a = Some (r0, a')"
      and r: "polls_after r ps = polls_after r0 ps"
    using assms(1) by (auto simp: handle_def polls_after_def split: sum.splits)
  have "moves (ai_ext A) (ai_lib A) ps (polls_after r0 ps) (ap_gateway a) (ap_gateway a')
      \<and> up_permits (ap_upgrades a') + length (up_pending (ap_upgrades a'))
        = up_permits (ap_upgrades a) + length (up_pending (ap_upgrades a))"
    using h
  proof (cases rule: dispatch_cases)
    case (routed body gd)
    from routed(3) show ?thesis
    proof (cases rule: dispatch_route_cases)
      case (upgrade ro scope reply u)
      then show ?thesis using respond_permits [OF upgrade(3)] by simp
    next
      case (denied ro reply g)
      then show ?thesis using moves_route [OF denied(2)] by simp
    next
      case (run ro auth g g')
      have m: "moves (ai_ext A) (ai_lib A) ps ps (ap_gateway a) g" using moves_route [OF run(2)] by simp
      have "fresh_draw d g" using route_fresh [OF run(2)] assms(2) by simp
      from handler_moves [OF run(3) this, of ps] show ?thesis using moves_trans [OF m] run(4) by simp
    qed simp
  qed simp_all
  then show "moves (ai_ext A) (ai_lib A) ps (polls_after r ps) (ap_gateway a) (ap_gateway a')"
    "up_permits (ap_upgrades a') + length (up_pending (ap_upgrades a')) = up_permits (ap_upgrades a) + length (up_pending (ap_upgrades a))"
    using r by simp_all
qed


section \<open>The invariant of the server\<close>

definition serving_key :: "peer_task \<Rightarrow> (u64 \<times> string) list" where
  "serving_key p = (case p of Serving pid device \<Rightarrow> [(pid, device)] | _ \<Rightarrow> [])"

definition serving :: "server \<Rightarrow> (u64 \<times> string) list" where
  "serving sv = concat (map serving_key (sv_peers sv))"

definition server_inv :: "api \<Rightarrow> init \<Rightarrow> server \<Rightarrow> bool" where
  "server_inv A i sv \<longleftrightarrow>
     gateway_reach (ai_ext A) (ai_lib A) i (sv_gateway sv)
     \<and> gateway_inv (ai_ext A) (sv_gateway sv)
     \<and> pairings_inv (gw_pairings (sv_gateway sv)) (polls sv)
     \<and> up_permits (ap_upgrades (sv_app sv)) + length (up_pending (ap_upgrades (sv_app sv))) + length (sv_peers sv) = MAX_PEERS
     \<and> length (sv_connections sv) \<le> MAX_CONNECTIONS
     \<and> mset (serving sv) = mset (peer_keys (gw_identity (sv_gateway sv)))"

lemma pairings_inv_mset:
  assumes "mset ps = mset qs" and "pairings_inv t ps"
  shows "pairings_inv t qs"
proof -
  have "count_list ps k = count_list qs k" for k using assms(1) by (metis count_mset)
  moreover have "length ps = length qs" using assms(1) by (metis size_mset)
  ultimately show ?thesis using assms(2) by (simp add: pairings_inv_def)
qed

lemma server_sel [simp]:
  "sv_gateway (set_app a sv) = ap_gateway a" "sv_gateway (set_gateway g sv) = g" "sv_app (set_app a sv) = a"
  "ap_upgrades (sv_app (set_gateway g sv)) = ap_upgrades (sv_app sv)"
  "sv_connections (set_app a sv) = sv_connections sv" "sv_connections (set_gateway g sv) = sv_connections sv"
  "sv_peers (set_app a sv) = sv_peers sv" "sv_peers (set_gateway g sv) = sv_peers sv"
  "polls (set_app a sv) = polls sv" "polls (set_gateway g sv) = polls sv"
  "serving (set_app a sv) = serving sv" "serving (set_gateway g sv) = serving sv"
  by (simp_all add: sv_gateway_def set_app_def set_gateway_def polls_def serving_def)

lemma tasks_sel [simp]:
  "sv_gateway (sv\<lparr>sv_peers := ts\<rparr>) = sv_gateway sv" "polls (sv\<lparr>sv_peers := ts\<rparr>) = polls sv"
  "serving (sv\<lparr>sv_peers := ts\<rparr>) = concat (map serving_key ts)"
  "sv_gateway (sv\<lparr>sv_connections := cs\<rparr>) = sv_gateway sv" "serving (sv\<lparr>sv_connections := cs\<rparr>) = serving sv"
  by (simp_all add: sv_gateway_def polls_def serving_def)

lemma release_permit_sel [simp]:
  "sv_gateway (release_permit sv) = sv_gateway sv" "sv_connections (release_permit sv) = sv_connections sv"
  "sv_peers (release_permit sv) = sv_peers sv" "polls (release_permit sv) = polls sv" "serving (release_permit sv) = serving sv"
  "up_permits (ap_upgrades (sv_app (release_permit sv))) = Suc (up_permits (ap_upgrades (sv_app sv)))"
  "up_pending (ap_upgrades (sv_app (release_permit sv))) = up_pending (ap_upgrades (sv_app sv))"
  by (simp_all add: release_permit_def Let_def sv_gateway_def set_app_def polls_def serving_def)

lemma steps_inv: "(gateway_step X W)\<^sup>*\<^sup>* g g' \<Longrightarrow> lib_challenge W \<Longrightarrow> gateway_inv X g \<Longrightarrow> gateway_inv X g'"
  by (induction rule: rtranclp_induct) (auto intro: gateway_step_inv)

lemma steps_reach: "(gateway_step X W)\<^sup>*\<^sup>* g g' \<Longrightarrow> gateway_reach X W i g \<Longrightarrow> gateway_reach X W i g'"
  by (induction rule: rtranclp_induct) (auto intro: g_next)

text \<open>A move keeps everything of the invariant but the tasks and permits, which it does not touch.\<close>

lemma server_move:
  assumes "server_inv A i sv" and "lib_challenge (ai_lib A)"
    and "moves (ai_ext A) (ai_lib A) (polls sv) ps (sv_gateway sv) (sv_gateway sv')" and "mset (polls sv') = mset ps"
    and "up_permits (ap_upgrades (sv_app sv')) + length (up_pending (ap_upgrades (sv_app sv'))) + length (sv_peers sv')
      = up_permits (ap_upgrades (sv_app sv)) + length (up_pending (ap_upgrades (sv_app sv))) + length (sv_peers sv)"
    and "length (sv_connections sv') \<le> MAX_CONNECTIONS" and "mset (serving sv') = mset (serving sv)"
  shows "server_inv A i sv'"
proof -
  note inv = assms(1) [unfolded server_inv_def] and m = assms(3) [unfolded moves_def]
  have "pairings_inv (gw_pairings (sv_gateway sv')) ps" using inv m by blast
  then have "pairings_inv (gw_pairings (sv_gateway sv')) (polls sv')" using pairings_inv_mset assms(4) by metis
  moreover have "gateway_inv (ai_ext A) (sv_gateway sv')" using steps_inv m assms(2) inv by blast
  moreover have "gateway_reach (ai_ext A) (ai_lib A) i (sv_gateway sv')" using steps_reach m inv by blast
  ultimately show ?thesis using inv m assms(5-7) by (simp add: server_inv_def same_peers_def)
qed

lemma peer_keys_wf: "distinct (map fst (peer_keys idt)) = hm_wf (id_peers idt)"
  by (simp add: peer_keys_def hm_wf_def comp_def case_prod_beta)

lemma unregister_keys:
  assumes "hm_wf (id_peers idt)" and "mset (peer_keys idt) = add_mset (pid, device) M"
  shows "mset (peer_keys (unregister_peer pid idt)) = M"
proof -
  have k: "peer_keys (unregister_peer pid idt) = filter (\<lambda>k. fst k \<noteq> pid) (peer_keys idt)"
    by (simp add: peer_keys_def unregister_peer_def hm_remove_def filter_map comp_def case_prod_beta)
  have "distinct (map fst (peer_keys idt))" using assms(1) by (simp add: peer_keys_wf)
  then have one: "count (image_mset fst (mset (peer_keys idt))) pid \<le> 1"
    by (metis distinct_count_atmost_1 le_refl mset_map zero_le_one)
  have "pid \<notin># image_mset fst M"
  proof
    assume "pid \<in># image_mset fst M"
    then have "1 \<le> count (image_mset fst M) pid" by (simp only: count_greater_eq_one_iff)
    moreover have "count (image_mset fst (mset (peer_keys idt))) pid = Suc (count (image_mset fst M) pid)"
      by (simp only: assms(2)) simp
    ultimately show False using one by linarith
  qed
  then have "filter_mset (\<lambda>k. fst k \<noteq> pid) M = M" by (auto simp: filter_mset_eq_conv)
  then show ?thesis using assms(2) by (simp add: k mset_filter)
qed

lemma register_keys:
  assumes "register_peer ctx idt = (Some pid, idt')" and "peers_ok idt"
  shows "mset (peer_keys idt') = add_mset (pid, cx_device_id ctx) (mset (peer_keys idt))"
  using assms(1)
proof (cases rule: register_peer_cases)
  case (registered nxt)
  have absent: "hm_get (id_peers idt) (id_next_peer idt) = None"
    using assms(2) by (cases "hm_get (id_peers idt) (id_next_peer idt)") (auto simp: peers_ok_def)
  have new: "hm_insert k v m = m @ [(k, v)]" if "hm_get m k = None" for k :: u64 and v :: peer and m
    using that by (induction m) (auto simp: hm_get_def split: if_splits)
  show ?thesis using registered new [OF absent] by (simp add: peer_keys_def)
qed simp


lemma maintenance_gateway: "gateway_inv X g \<Longrightarrow> gateway_inv X (gateway_maintenance mnows t1 t2 g)"
  by (rule gateway_maintenance_inv)

lemma moves_socket_auth:
  assumes "socket_auth X J hs frame now g = (r, g')"
  shows "moves X W ps ps g g'"
proof (cases frame)
  case (FirstMessage m)
  have "moves X W ps ps g g1" if "gateway_authenticate X hs' now g = (c, g1)" for hs' c g1
    using that moves_authenticate by (auto simp: gateway_authenticate_def split: prod.splits)
  then have "moves X W ps ps g g1" if "authenticate_frame X J hs m now g = (c, g1)" for c g1
    using that by (auto simp: authenticate_frame_def split: message.splits option.splits if_splits)
  then show ?thesis using assms FirstMessage by (auto simp: socket_auth_def split: prod.splits option.splits)
qed (use assms in \<open>auto simp: socket_auth_def\<close>)

lemma moves_events: "moves X W ps ps g (set_gw_events es g)"
  by (rule moves_step [OF g_other]) simp_all

lemma socket_register_cases:
  assumes "socket_register ctx nows g = (r, g')" and inv: "gateway_inv X g"
  obtains (refused) cl where "r = Inl cl" "moves X W ps ps g g'"
  | (registered) pid where "r = Inr pid" "(gateway_step X W)\<^sup>*\<^sup>* g g'" "gw_pairings g' = gw_pairings g"
      "mset (peer_keys (gw_identity g')) = add_mset (pid, cx_device_id ctx) (mset (peer_keys (gw_identity g)))"
proof -
  let ?act = "\<lambda>idt s. case register_peer ctx idt of (x, idt) \<Rightarrow> (x, idt, s :: unit)"
  obtain rp idt u where w: "with_authorized (gw_rp_id g) ctx View nows ?act (gw_identity g) () = (rp, idt, u)"
    by (cases "with_authorized (gw_rp_id g) ctx View nows ?act (gw_identity g) ()")
  have step: "gateway_step X W g (g\<lparr>gw_identity := idt\<rparr>)" by (rule g_attach [OF w])
  show thesis
  proof (cases "\<exists>pid. rp = Inr (Some pid)")
    case True
    then obtain pid where rp: "rp = Inr (Some pid)" ..
    from w obtain i0 i1 where i: "revalidate ctx View (nows 0) (gw_identity g) = (True, i0)" "revalidate ctx View (nows 2) i0 = (True, i1)"
        "register_peer ctx i1 = (Some pid, idt)"
      unfolding rp with_authorized_def by (auto split: if_split_asm bool.split_asm prod.split_asm)
    have same: "same_peers (gw_identity g) i1" using same_peers_trans [OF same_peers_revalidate same_peers_revalidate] i(1,2) .
    have "safe X (gw_identity g) i1" using safe_trans [OF safe_revalidate safe_revalidate] i(1,2) .
    then have "peers_ok i1" using inv by (simp add: safe_def gateway_inv_def identity_inv_def)
    moreover note i(3)
    ultimately have "mset (peer_keys idt) = add_mset (pid, cx_device_id ctx) (mset (peer_keys (gw_identity g)))"
      using register_keys same by (simp add: same_peers_def)
    moreover have r: "r = Inr pid" "g' = set_gw_events (snd (try_emit (gw_events g) (SessionOpened pid (cx_device_id ctx)))) (g\<lparr>gw_identity := idt\<rparr>)"
      using assms(1) w rp by (auto simp: socket_register_def)
    moreover have "(gateway_step X W)\<^sup>*\<^sup>* g g'"
      using step moves_events [of X W "[]" "g\<lparr>gw_identity := idt\<rparr>"] unfolding r(2) moves_def by (meson converse_rtranclp_into_rtranclp)
    ultimately show ?thesis using registered by simp
  next
    case False
    have "same_peers (gw_identity g) idt"
    proof (cases rp)
      case (Inl f)
      from w show ?thesis unfolding Inl with_authorized_def
        by (auto split: if_split_asm bool.split_asm prod.split_asm intro: same_peers_revalidate same_peers_trans)
    next
      case (Inr x)
      have none: "rp = Inr None" using Inr False by (cases x) auto
      from w show ?thesis unfolding none with_authorized_def
        by (auto split: if_split_asm bool.split_asm prod.split_asm intro: same_peers_revalidate same_peers_trans
            elim!: register_peer_cases)
    qed
    then have "moves X W ps ps g (g\<lparr>gw_identity := idt\<rparr>)" by (intro moves_step [OF step]) simp_all
    moreover have "isl r \<and> g' = g\<lparr>gw_identity := idt\<rparr>"
      using assms(1) w False by (cases rp) (auto simp: socket_register_def split: option.splits)
    ultimately show ?thesis using refused [of "projl r"] by (cases r) auto
  qed
qed


lemma polls_split:
  "sv_connections sv = xs @ c # ys \<Longrightarrow> polls (sv\<lparr>sv_connections := xs @ d @ ys\<rparr>)
     = concat (map poll_id xs) @ concat (map poll_id d) @ concat (map poll_id ys)"
  by (simp add: polls_def)

lemma server_stop_moves:
  "moves X W ps ps (sv_gateway sv) (sv_gateway (server_stop expired mnows t1 t2 sv))"
  using moves_maintenance [of X W ps "sv_gateway sv"] by (simp add: server_stop_def Let_def) (simp add: sv_gateway_def set_gateway_def set_app_def)

lemma server_step_inv:
  assumes "server_step A w sv sv'" and inv: "server_inv A i sv" and lib: "lib_challenge (ai_lib A)"
  shows "server_inv A i sv'"
  using assms(1)
proof cases
  case s_accept
  then show ?thesis
    by (intro server_move [OF inv lib, of "polls sv"])
      (use inv in \<open>auto simp: server_accept_def sv_gateway_def polls_def poll_id_def serving_def server_inv_def\<close>)
next
  case (s_close xs c ys)
  then show ?thesis
  proof (cases c)
    case None
    then show ?thesis using s_close
      by (intro server_move [OF inv lib, of "polls sv"])
        (use inv in \<open>auto simp: connection_end_def sv_gateway_def polls_def poll_id_def serving_def server_inv_def\<close>)
  next
    case (Some req)
    have "sq_pairing_id req \<in> set (polls sv)" using s_close Some by (simp add: polls_def poll_id_def)
    from moves_release [OF this] show ?thesis using s_close Some
      by (intro server_move [OF inv lib, of "remove1 (sq_pairing_id req) (polls sv)"])
        (use inv in \<open>auto simp: connection_end_def sv_gateway_def polls_def poll_id_def serving_def server_inv_def set_gateway_def set_app_def\<close>)
  qed
next
  case (s_request xs ys d fs late fl t nows rq r a)
  have "fresh_draw d (ap_gateway (sv_app sv))" using s_request(4) by (simp add: sv_gateway_def)
  note h = handle_moves [OF s_request(5) this]
  have "moves (ai_ext A) (ai_lib A) (polls sv) (polls_after r (polls sv)) (sv_gateway sv) (ap_gateway a)"
    using h(1) by (simp add: sv_gateway_def)
  moreover have "up_permits (ap_upgrades a) + length (up_pending (ap_upgrades a))
      = up_permits (ap_upgrades (sv_app sv)) + length (up_pending (ap_upgrades (sv_app sv)))"
    by (rule h(2))
  ultimately show ?thesis using s_request
    by (intro server_move [OF inv lib, of "polls_after r (polls sv)"])
      (use inv in \<open>auto simp: polls_def poll_id_def serving_def server_inv_def polls_after_def split: sum.splits\<close>)
next
  case (s_poll_end xs req ys late d reply a)
  have p: "sq_pairing_id req \<in> set (polls sv)" using s_poll_end by (simp add: polls_def poll_id_def)
  have "moves (ai_ext A) (ai_lib A) (polls sv) (remove1 (sq_pairing_id req) (polls sv)) (sv_gateway sv) (ap_gateway a)"
    using s_poll_end(4) moves_release [OF p] moves_status_leave [OF _ p]
    by (auto simp: handle_status_def status_abandon_def sv_gateway_def split: if_splits prod.splits)
  moreover have "ap_upgrades a = ap_upgrades (sv_app sv)" using s_poll_end(4) by (auto simp: handle_status_def split: prod.splits)
  ultimately show ?thesis using s_poll_end
    by (intro server_move [OF inv lib, of "remove1 (sq_pairing_id req) (polls sv)"])
      (use inv in \<open>auto simp: polls_def poll_id_def serving_def server_inv_def\<close>)
next
  case s_upgrade
  then show ?thesis
    by (intro server_move [OF inv lib, of "polls sv"])
      (use inv in \<open>auto simp: server_upgrade_def Let_def sv_gateway_def set_app_def polls_def serving_def serving_key_def server_inv_def split: list.splits\<close>)
next
  case (s_auth xs hs ys frame now ctx g)
  note m = moves_socket_auth [OF s_auth(3), of "ai_lib A" "polls sv"]
  show ?thesis using s_auth m
    by (intro server_move [OF inv lib, of "polls sv"])
      (use inv in \<open>auto simp: polls_def serving_def serving_key_def server_inv_def\<close>)
next
  case (s_auth_failed xs hs ys frame now cl g)
  note m = moves_socket_auth [OF s_auth_failed(3), of "ai_lib A" "polls sv"]
  show ?thesis using s_auth_failed m
    by (intro server_move [OF inv lib, of "polls sv"])
      (use inv in \<open>auto simp: polls_def serving_def serving_key_def server_inv_def\<close>)
next
  case (s_register_failed xs ctx ys nows cl g)
  have "gateway_inv (ai_ext A) (sv_gateway sv)" using inv by (simp add: server_inv_def)
  from s_register_failed(3) this have m: "moves (ai_ext A) (ai_lib A) (polls sv) (polls sv) (sv_gateway sv) g"
    by (cases rule: socket_register_cases) auto
  show ?thesis using s_register_failed m
    by (intro server_move [OF inv lib, of "polls sv"])
      (use inv in \<open>auto simp: polls_def serving_def serving_key_def server_inv_def\<close>)
next
  case (s_register xs ctx ys nows pid g)
  have gi: "gateway_inv (ai_ext A) (sv_gateway sv)" using inv by (simp add: server_inv_def)
  from s_register(3) gi show ?thesis
  proof (cases rule: socket_register_cases [where W = "ai_lib A" and ps = "polls sv"])
    case (registered pid')
    have "gateway_inv (ai_ext A) g" using steps_inv [OF registered(2) lib gi] .
    moreover have "gateway_reach (ai_ext A) (ai_lib A) i g" using steps_reach [OF registered(2)] inv by (simp add: server_inv_def)
    ultimately show ?thesis using s_register registered(1,3,4) inv
      by (auto simp: server_inv_def serving_def serving_key_def polls_def)
  qed simp
next
  case (s_peer_end xs p ys reason)
  then show ?thesis
  proof (cases p)
    case (Serving pid device)
    let ?g = "sv_gateway sv"
    have gi: "gateway_inv (ai_ext A) ?g" using inv by (simp add: server_inv_def)
    have d: "gateway_step (ai_ext A) (ai_lib A) ?g (?g\<lparr>gw_identity := unregister_peer pid (gw_identity ?g)\<rparr>)" by (rule g_detach)
    have "gateway_step (ai_ext A) (ai_lib A) (?g\<lparr>gw_identity := unregister_peer pid (gw_identity ?g)\<rparr>) (peer_drop pid device reason ?g)"
      by (rule g_other) (simp_all add: peer_drop_def set_gw_events_def)
    then have r': "gateway_reach (ai_ext A) (ai_lib A) i (peer_drop pid device reason ?g)"
      using d inv by (auto simp: server_inv_def intro: g_next)
    from d have "gateway_inv (ai_ext A) (?g\<lparr>gw_identity := unregister_peer pid (gw_identity ?g)\<rparr>)" using gateway_step_inv gi lib by blast
    then have g': "gateway_inv (ai_ext A) (peer_drop pid device reason ?g)" unfolding peer_drop_def by (rule gateway_inv_frame) simp_all
    have wf: "hm_wf (id_peers (gw_identity ?g))" using gi inv_wf(2) by (auto simp: gateway_inv_def)
    have "mset (peer_keys (gw_identity ?g)) = add_mset (pid, device) (mset (concat (map serving_key (xs @ ys))))"
      using inv s_peer_end Serving by (simp add: server_inv_def serving_def serving_key_def)
    from unregister_keys [OF wf this] show ?thesis using s_peer_end Serving inv g' r'
      by (auto simp: server_inv_def peer_end_def peer_drop_def)
  qed (use inv s_peer_end in \<open>auto simp: server_inv_def peer_end_def serving_key_def, simp_all add: serving_def serving_key_def\<close>)
next
  case (s_maintenance mnows t1 t2)
  then show ?thesis using moves_maintenance
    by (intro server_move [OF inv lib, of "polls sv"]) (use inv in \<open>auto simp: server_inv_def\<close>)
next
  case (s_command start mnows now rid rsecret command r g)
  then show ?thesis using moves_command
    by (intro server_move [OF inv lib, of "polls sv"]) (use inv in \<open>auto simp: server_inv_def\<close>)
next
  case (s_elsewhere g)
  have "moves (ai_ext A) (ai_lib A) (polls sv) (polls sv) (sv_gateway sv) g"
    using s_elsewhere by (intro moves_step) (auto simp: same_peers_def)
  then show ?thesis using s_elsewhere
    by (intro server_move [OF inv lib, of "polls sv"]) (use inv in \<open>auto simp: server_inv_def\<close>)
next
  case (s_stop expired mnows t1 t2)
  then show ?thesis using server_stop_moves [of "ai_ext A" "ai_lib A" "polls sv" sv expired mnows t1 t2]
    by (intro server_move [OF inv lib, of "polls sv"])
      (use inv in \<open>auto simp: server_inv_def server_stop_def Let_def polls_def serving_def set_app_def set_gateway_def\<close>)
qed


lemma server_start_inv:
  assumes "deserialize_devices (ai_ext A) devs = Inr (in_devices i)" and "gateway_new (ai_ext A) (ai_lib A) AU i instant es nows salt = Inr g"
    and "server_bind (ai_ext A) AU canonicalize listen config web_root now1 now2 g = Inr (dir, port, sv)"
  shows "server_inv A i sv"
proof -
  have g: "gateway_inv (ai_ext A) g" by (rule gateway_start_inv [OF assms(1,2)])
  have r: "gateway_reach (ai_ext A) (ai_lib A) i g" by (rule g_start [OF assms(1,2)])
  have sv: "sv_gateway sv = g" "ap_upgrades (sv_app sv) = upgrades_new" "sv_connections sv = []" "sv_peers sv = []"
    using assms(3) by (auto simp: server_bind_def sv_gateway_def split: sum.splits option.splits if_splits)
  have "gw_pairings g = pairings_new (lb_public_host (in_loopback i)) (lb_required_tailscale_login (in_loopback i))"
    and "id_peers (gw_identity g) = []"
    using assms(2) by (auto simp: gateway_new_def identity_new_def Let_def split: sum.splits if_splits)
  then show ?thesis using g r sv start_inv
    by (simp add: server_inv_def polls_def serving_def peer_keys_def upgrades_new_def)
qed

lemma server_reach_inv: "server_reach A w i sv \<Longrightarrow> lib_challenge (ai_lib A) \<Longrightarrow> server_inv A i sv"
proof (induction rule: server_reach.induct)
  case s_start
  then show ?case by (intro server_start_inv)
qed (auto intro: server_step_inv)

text \<open>
  C10: the whole server. Whatever requests, polls, sockets, commands and maintenance interleave, until and
  after it is stopped: the gateway underneath is reachable by its own steps and so keeps its joint invariant; at most 64 connections are served; every
  permit of the 16 upgrades is free, with a pending upgrade or with the task of a socket; the polls of
  the pairing table are exactly those of the connections that wait in one, at most eight and one
  per pairing; and the registered peers are exactly the sockets that are served, at most two per
  device, so a peer's slot is never leaked.
\<close>

theorem server_invariant:
  assumes "server_reach A w i sv" and "lib_challenge (ai_lib A)"
  shows "gateway_reach (ai_ext A) (ai_lib A) i (sv_gateway sv) \<and> gateway_inv (ai_ext A) (sv_gateway sv)
    \<and> length (sv_connections sv) \<le> 64
    \<and> up_permits (ap_upgrades (sv_app sv)) + length (up_pending (ap_upgrades (sv_app sv))) + length (sv_peers sv) = 16
    \<and> ps_polls (gw_pairings (sv_gateway sv)) + length (polls sv) = 8
    \<and> (\<forall>pid p. hm_get (ps_entries (gw_pairings (sv_gateway sv))) pid = Some p \<longrightarrow> pr_polls p + count_list (polls sv) pid = 1)
    \<and> mset (serving sv) = mset (peer_keys (gw_identity (sv_gateway sv)))
    \<and> (\<forall>device. length (filter (\<lambda>k. snd k = device) (serving sv)) \<le> 2)"
proof -
  have inv: "server_inv A i sv" by (rule server_reach_inv [OF assms])
  then have peers: "peers_ok (gw_identity (sv_gateway sv))" by (simp add: server_inv_def gateway_inv_def identity_inv_def)
  have "length (filter (\<lambda>k. snd k = device) (serving sv)) \<le> 2" for device
  proof -
    have "mset (serving sv) = mset (peer_keys (gw_identity (sv_gateway sv)))" using inv by (simp add: server_inv_def)
    then have "length (filter (\<lambda>k. snd k = device) (serving sv))
        = length (filter (\<lambda>k. snd k = device) (peer_keys (gw_identity (sv_gateway sv))))"
      by (metis mset_filter size_mset)
    also have "\<dots> = hm_count (\<lambda>p. pc_device p = device) (id_peers (gw_identity (sv_gateway sv)))"
      by (simp add: peer_keys_def hm_count_def filter_map comp_def case_prod_beta)
    finally show ?thesis using peers by (simp add: peers_ok_def)
  qed
  then show ?thesis using inv by (auto simp: server_inv_def pairings_inv_def MAX_CONNECTIONS_def MAX_PEERS_def)
qed

end
