(* ===== verification/Server_Demo.thy ===== *)
theory Server_Demo
  imports Server_Props Gateway_Demo
begin

text \<open>
  The server on concrete inputs: the desktop's configuration of \<open>Gateway_Demo\<close>, a connection, a request for
  login options, and on a gateway with a session a logout. The properties of \<open>Http_Props\<close> and \<open>Server_Props\<close> are
  witnessed on it.
\<close>

definition desk_api :: api where
  "desk_api = \<lparr>ai_ext = demo_ext, ai_lib = demo_wl, ai_json = \<lambda>body. if body = ''{}'' then Some (JObj []) else None,
     ai_vec = \<lambda>_. Some ''{}'', ai_time = JNum\<rparr>"

definition desk_web :: "(string, string) web" where
  "desk_web = \<lparr>wb_collect = \<lambda>n body. Some (Inr body), wb_handshake = \<lambda>_ _ _. True, wb_files = demo_files,
     wb_root = ''/web'', wb_late = False\<rparr>"

definition desk_guard :: guard where
  "desk_guard = \<lparr>gd_host = ''desk.ts.net'', gd_login = ''u@e.com'',
     gd_proxy_secret = demo_digest (str_bytes (replicate 43 (CHR ''A''))),
     gd_origin = ''https://desk.ts.net'', gd_static_bucket = \<lparr>bk_tokens = 60, bk_updated = 0\<rparr>,
     gd_api_bucket = \<lparr>bk_tokens = 60, bk_updated = 0\<rparr>\<rparr>"

definition desk_headers :: headers where
  "desk_headers = [(''host'', ''desk.ts.net''), (''yzc-proxy-secret'', replicate 43 (CHR ''A'')),
     (''yzc-peer-login'', ''u@e.com''), (''origin'', ''https://desk.ts.net'')]"

definition desk_request :: "string \<Rightarrow> headers \<Rightarrow> string \<Rightarrow> string http_request" where
  "desk_request path hs body = \<lparr>hq_method = ''POST'',
     hq_uri = \<lparr>uri_authority = None, uri_scheme = None, uri_path = path\<rparr>, hq_query = None,
     hq_headers = desk_headers @ hs, hq_body = body\<rparr>"

definition desk_draw :: draw where
  "desk_draw = \<lparr>dr_first = Some demo_binding, dr_second = Some demo_sid, dr_challenge = 7, dr_now = \<lambda>k. 100 + int k\<rparr>"

definition desk_app :: "gateway \<Rightarrow> app" where
  "desk_app g = \<lparr>ap_guard = desk_guard, ap_gateway = g, ap_upgrades = upgrades_new\<rparr>"

definition desk_server :: server where
  "desk_server = \<lparr>sv_app = desk_app desk_start, sv_connections = [], sv_peers = [], sv_stop = 0\<rparr>"

section \<open>The start and a first request\<close>

lemma desk_guard_host: "\<not> host_invalid \<lparr>at_str = ''desk.ts.net'', at_host = ''desk.ts.net'', at_port = None\<rparr> ''desk.ts.net''"
  by code_simp

lemma desk_guard_new: "guard_new demo_ext desk_authority (in_loopback desk_init) 0 0 = Inr desk_guard"
  using desk_guard_host
  by (simp add: guard_new_def desk_authority_def desk_init_def desk_guard_def chars_def is_control_def
      proxy_secret_valid_def demo_ext_def demo_decode_def hash_def RATE_BURST_def)

lemma desk_reach: "server_reach desk_api desk_web desk_init desk_server"
proof (rule s_start)
  show "deserialize_devices (ai_ext desk_api) [demo_device] = Inr (in_devices desk_init)"
    using demo_device_valid by (simp add: deserialize_devices_def desk_init_def desk_api_def) (simp add: demo_device_def)
  show "gateway_new (ai_ext desk_api) (ai_lib desk_api) desk_authority desk_init 0 spawn_writer (\<lambda>_. 1) (Some (replicate 16 3)) = Inr desk_start"
    using desk_started unfolding desk_new_def by (simp add: desk_api_def)
  show "server_bind (ai_ext desk_api) desk_authority (\<lambda>p. Some (p, True)) (\<lambda>_. Inr 4000) (in_loopback desk_init)
      (in_web_root desk_init) 0 0 desk_start = Inr (in_web_root desk_init, 4000, desk_server)"
    by (simp add: server_bind_def desk_api_def desk_guard_new desk_server_def desk_app_def)
qed

lemma handled:
  "handle desk_api w fl t nows d (desk_request ''/api/auth/options'' [] ''{}'') a =
   Some (the (handle desk_api w fl t nows d (desk_request ''/api/auth/options'' [] ''{}'') a))"
proof -
  have "route_of ''POST'' ''/api/auth/options'' = Some (post ''/api/auth/options'' Public Standard LoginOptions)" by code_simp
  then have "dispatch desk_api w fl t nows d (desk_request ''/api/auth/options'' [] ''{}'') a \<noteq> None"
    by (intro dispatch_defined) (auto simp: desk_request_def post_def)
  then show ?thesis by (auto simp: handle_def)
qed

definition desk_answered :: "(reply + status_request) \<times> app" where
  "desk_answered = the (handle desk_api desk_web (\<lambda>x. x) 1 (\<lambda>_. 100) desk_draw
     (desk_request ''/api/auth/options'' [] ''{}'') (desk_app desk_start))"

definition desk_after :: server where
  "desk_after = set_app (snd desk_answered)
     (desk_server\<lparr>sv_connections := [] @ (case fst desk_answered of Inl _ \<Rightarrow> None | Inr req \<Rightarrow> Some req) # []\<rparr>)"

lemma desk_reach_after: "server_reach desk_api desk_web desk_init desk_after"
proof -
  let ?sv = "server_accept desk_server"
  have sv: "?sv = desk_server\<lparr>sv_connections := [None]\<rparr>" by (simp add: server_accept_def desk_server_def MAX_CONNECTIONS_def)
  have "server_reach desk_api desk_web desk_init ?sv"
    by (rule s_next [OF desk_reach s_accept]) (simp add: desk_server_def)
  moreover have "server_step desk_api desk_web ?sv (set_app (snd desk_answered)
      (?sv\<lparr>sv_connections := [] @ (case fst desk_answered of Inl _ \<Rightarrow> None | Inr req \<Rightarrow> Some req) # []\<rparr>))"
  proof (rule s_request)
    show "sv_stop ?sv = 0" "sv_connections ?sv = [] @ None # []" by (simp_all add: sv) (simp add: desk_server_def)
    have "fresh_challenge 7 (gw_ceremonies desk_start)" "new_id (Some demo_sid) (gw_identity desk_start)" using desk_facts by simp_all
    then show "fresh_draw desk_draw (sv_gateway ?sv)"
      by (simp add: fresh_draw_def desk_draw_def sv) (simp add: sv_gateway_def desk_server_def desk_app_def)
    have "sv_app ?sv = desk_app desk_start" by (simp add: server_accept_def desk_server_def)
    moreover have "desk_web\<lparr>wb_files := demo_files, wb_late := False\<rparr> = desk_web" by (simp add: desk_web_def)
    ultimately show "handle desk_api (desk_web\<lparr>wb_files := demo_files, wb_late := False\<rparr>) (\<lambda>x. x) 1 (\<lambda>_. 100) desk_draw
        (desk_request ''/api/auth/options'' [] ''{}'') (sv_app ?sv) = Some (fst desk_answered, snd desk_answered)"
      using handled [of desk_web] by (simp add: desk_answered_def)
  qed
  ultimately show ?thesis unfolding desk_after_def sv by (auto intro: s_next)
qed

theorem server_invariant_witness:
  "length (sv_connections desk_after) \<le> 64
    \<and> up_permits (ap_upgrades (sv_app desk_after)) + length (up_pending (ap_upgrades (sv_app desk_after))) = 16"
proof -
  have "lib_challenge (ai_lib desk_api)" using demo_lib_challenge by (simp add: desk_api_def)
  note inv = server_invariant [OF desk_reach_after this]
  have "sv_peers desk_after = []" by (simp add: desk_after_def desk_server_def)
  then show ?thesis using inv by simp
qed

section \<open>A logout\<close>

definition desk_logout :: "string http_request" where
  "desk_logout = desk_request ''/api/auth/logout'' demo_headers ''{}''"

lemma desk_logout_run:
  "let rq = desk_logout; a = desk_app demo_gateway
   in guard_refuses demo_ext desk_guard ''POST'' (hq_uri rq) (hq_headers rq) = None
      \<and> cookie_id demo_ext (hq_headers rq) = Some demo_sid
      \<and> admit_request desk_web 150 (po_enable_until (gw_policy (ap_gateway a))) rq = Inr ''{}''
      \<and> map_option fst (dispatch_route desk_api desk_web (\<lambda>_. 150) desk_draw rq ''{}'' a)
          = Some (Inl \<lparr>re_status = NO_CONTENT, re_headers = [(''set-cookie'', clear_cookie)], re_body = Empty\<rparr>)"
  by code_simp

lemmas desk_logout_facts = desk_logout_run [unfolded Let_def]

lemma desk_logout_check:
  "fst (check demo_ext (\<lambda>x. x) ''POST'' (hq_uri desk_logout) (hq_headers desk_logout) 1 desk_guard) = Inr ()"
  using desk_logout_facts
  by (simp add: check_def take_token_def refill_def as_secs_f64_def RATE_BURST_def RATE_PER_SECOND_def desk_guard_def Let_def)

lemma route_guard:
  "map_option fst (dispatch_route A w nows d rq body (a\<lparr>ap_guard := gd\<rparr>)) = map_option fst (dispatch_route A w nows d rq body a)"
  by (auto simp: dispatch_route_def split: option.splits access.splits prod.splits sum.splits)

definition desk_cleared :: reply where
  "desk_cleared = \<lparr>re_status = NO_CONTENT, re_headers = [(''set-cookie'', clear_cookie)], re_body = Empty\<rparr>"

lemma desk_logout_handled:
  "\<exists>a'. handle desk_api desk_web (\<lambda>x. x) 1 (\<lambda>_. 150) desk_draw desk_logout (desk_app demo_gateway)
     = Some (Inl (harden True desk_cleared), a')"
proof -
  let ?rq = desk_logout
  let ?a = "desk_app demo_gateway"
  obtain gd where c: "check demo_ext (\<lambda>x. x) ''POST'' (hq_uri ?rq) (hq_headers ?rq) 1 desk_guard = (Inr (), gd)"
    using desk_logout_check by (cases "check demo_ext (\<lambda>x. x) ''POST'' (hq_uri ?rq) (hq_headers ?rq) 1 desk_guard") simp
  have ad: "admit_request desk_web 150 (po_enable_until (gw_policy demo_gateway)) ?rq = Inr ''{}''"
    using desk_logout_facts by (simp add: desk_app_def)
  have later: "later (Suc 0) (\<lambda>_. 150 :: timestamp) = (\<lambda>_. 150)" by (rule ext) (simp add: later_def)
  have rq: "hq_method ?rq = ''POST''" "uri_path (hq_uri ?rq) = ''/api/auth/logout''"
    by (simp_all add: desk_logout_def desk_request_def)
  have "map_option fst (dispatch_route desk_api desk_web (\<lambda>_. 150) desk_draw ?rq ''{}'' (?a\<lparr>ap_guard := gd\<rparr>)) = Some (Inl desk_cleared)"
    using route_guard desk_logout_facts unfolding desk_cleared_def by metis
  then obtain a' where "dispatch_route desk_api desk_web (\<lambda>_. 150) desk_draw ?rq ''{}'' (?a\<lparr>ap_guard := gd\<rparr>) = Some (Inl desk_cleared, a')"
    by auto
  then have "handle desk_api desk_web (\<lambda>x. x) 1 (\<lambda>_. 150) desk_draw ?rq ?a = Some (Inl (harden True desk_cleared), a')"
    using c ad later by (simp add: handle_def dispatch_def rq desk_app_def desk_api_def is_api_def starts_with_def)
  then show ?thesis by blast
qed

theorem session_route_authorized_witness:
  "hm_get (id_sessions (gw_identity demo_gateway)) demo_sid \<noteq> None
    \<and> nat 150 < nat (po_enable_until (gw_policy demo_gateway))"
proof -
  obtain a' where h: "handle desk_api desk_web (\<lambda>x. x) 1 (\<lambda>_. 150) desk_draw desk_logout (desk_app demo_gateway)
     = Some (Inl (harden True desk_cleared), a')"
    using desk_logout_handled by blast
  have ro: "route_of ''POST'' ''/api/auth/logout'' = Some (post ''/api/auth/logout'' (Session View) Standard Logout)" by code_simp
  have rq: "hq_method desk_logout = ''POST''" "uri_path (hq_uri desk_logout) = ''/api/auth/logout''"
    by (simp_all add: desk_logout_def desk_request_def)
  note auth = session_route_authorized [OF h, of "post ''/api/auth/logout'' (Session View) Standard Logout" View]
  have "cookie_id demo_ext (hq_headers desk_logout) = Some demo_sid" using desk_logout_facts by simp
  moreover have "is_success (re_status (harden True desk_cleared))" by (simp add: is_success_def desk_cleared_def)
  ultimately show ?thesis using auth ro by (auto simp: rq desk_api_def desk_app_def post_def)
qed

theorem replies_hardened_witness:
  "\<exists>reply a'. handle desk_api desk_web (\<lambda>x. x) 1 (\<lambda>_. 150) desk_draw desk_logout (desk_app demo_gateway) = Some (Inl reply, a')
     \<and> hm_get (re_headers reply) ''set-cookie'' = Some clear_cookie
     \<and> hardened True reply"
proof -
  obtain a' where h: "handle desk_api desk_web (\<lambda>x. x) 1 (\<lambda>_. 150) desk_draw desk_logout (desk_app demo_gateway)
     = Some (Inl (harden True desk_cleared), a')"
    using desk_logout_handled by blast
  have "is_api (uri_path (hq_uri desk_logout))" by (simp add: desk_logout_def desk_request_def is_api_def starts_with_def)
  moreover have "hm_get (re_headers (harden True desk_cleared)) ''set-cookie'' = Some clear_cookie" by code_simp
  ultimately show ?thesis using h replies_hardened [OF h] by auto
qed

end
