(* ===== verification/Spec2Isabelle.thy ===== *)
theory Spec2Isabelle
  imports Session_Replica Guard_Login Guard_Props Audit_Props Push_Props Git_Bridge_Props Gateway_Security
    Herdr_Props Streams_Props Jobs_Props Method_Table Peer_Demo Server_Demo
begin

text \<open>
  \<^bold>\<open>The companion gateway of Yuzora.\<close> The companion (\<open>src-tauri/companion/src\<close>, Rust) lets a paired phone
  look at, and with an elevation write to, the terminals of a desktop. It is started by the desktop,
  which commands it over standard input and reads its events from standard output; a phone reaches it
  through a network node that forwards HTTP and WebSocket requests with the login of the peer. This
  development models the companion's own logic and proves what makes it correct.

  \<^bold>\<open>The parts and how they interact.\<close> A request first passes the guard (address, secret, login, origin,
  rate). A new phone goes through a pairing: the desktop creates it, the phone claims it with a secret,
  both sides compare a short authentication string, the desktop approves, and the phone registers a
  passkey. A known phone logs in with its passkey and gets a session; a second ceremony elevates the
  session for control or for a full terminal, for minutes. The gateway owns the state of all this under
  one lock and its handlers work on it. The routes and the server of the gateway carry these handlers. A logged-in phone opens a WebSocket: its calls are checked
  against the method table and the scope of the session under that lock, reads and writes run as jobs
  on a bounded executor, terminals and subscriptions are streams of the connection, and every write is
  audited towards the desktop before it reaches the Host (the Herdr service of the desktop).

  \<^bold>\<open>Theories and sources\<close> (file names under \<open>src-tauri/companion/src\<close> where nothing else is said).

  \<^item> \<open>Prelude\<close>, \<open>Text\<close>: the vocabulary. Machine integers are words (\<open>u32\<close>, \<open>u64\<close>) with saturating and checked
    arithmetic; \<open>HashMap\<close> is a list of pairs with distinct keys (\<open>hmap\<close>, locale \<open>keyed_store\<close>); \<open>str\<close> is a list of
    bytes as characters with its decoding into code points. A \<open>BTreeMap\<close> is an ascending list.
  \<^item> \<open>Clock\<close>: \<open>clock.rs\<close>, the clock that never goes back (locale \<open>monotonic_clock\<close>) and its deadlines.
  \<^item> \<open>Secrets\<close>, \<open>Devices\<close>, \<open>Admin\<close>, \<open>Event_Queue\<close>: \<open>secrets.rs\<close>, \<open>devices.rs\<close>, \<open>admin.rs\<close>: encodings and digests, the
    persisted device table, the desktop's commands and frames, the event queue with its reservations
    (locale \<open>event_sink\<close>).
  \<^item> \<open>Pairing\<close>, \<open>Pairing_Props\<close>, \<open>Pairing_Security\<close>: \<open>pairing.rs\<close>, the table of pairings and its state machine
    (locale \<open>entry_op\<close>, one interpretation per operation).
  \<^item> \<open>Webauthn\<close>, \<open>Webauthn_Props\<close>: \<open>webauthn.rs\<close>, the ceremonies and the relying party's checks.
  \<^item> \<open>Session\<close>, \<open>Session_Props\<close>, \<open>Session_Steps\<close>, \<open>Session_Security\<close>, \<open>Session_Replica\<close>: \<open>session.rs\<close>, devices, sessions,
    elevations, peers and the notifications to the desktop, whose copy of the devices the table refines.
  \<^item> \<open>Guard\<close>, \<open>Guard_Login\<close>, \<open>Guard_Props\<close>: \<open>guard.rs\<close> and the login encoder of the network node
    (\<open>companion-net/proxy.go\<close>).
  \<^item> \<open>Audit_Trail\<close>, \<open>Audit_Props\<close>: \<open>audit.rs\<close>. \<open>Push\<close>, \<open>Push_Watch\<close>, \<open>Push_Props\<close>: \<open>push.rs\<close>. \<open>Git_Bridge\<close>,
    \<open>Git_Bridge_Props\<close>: \<open>git_bridge.rs\<close>. \<open>Herdr\<close>, \<open>Herdr_Props\<close>: \<open>herdr.rs\<close>. \<open>Jobs\<close>, \<open>Jobs_Props\<close>: \<open>herdr_jobs.rs\<close>.
  \<^item> \<open>Gateway\<close>, \<open>Gateway_Props\<close>, \<open>Gateway_Demo\<close>, \<open>Gateway_Security\<close>: \<open>gateway.rs\<close>, \<open>gateway_auth.rs\<close>, the composition
    (locale \<open>authorized_write\<close>) and the ceremony handlers.
  \<^item> \<open>Outbound\<close>, \<open>Outbound_Props\<close> (locale \<open>permit_pool\<close>), \<open>Streams\<close>, \<open>Streams_Props\<close>: the queue of replies of
    \<open>bridge.rs\<close> and the stream frames of \<open>read_bridge.rs\<close>, both towards the phone.
  \<^item> \<open>Calls\<close>, \<open>Method_Table\<close>: the frames, the method table and \<open>rpc\<close> of \<open>bridge.rs\<close>, the parameters of the writes;
    the dispatch against the table and the two bridges.
  \<^item> \<open>Write_Race\<close>: \<open>Validity\<close>, \<open>PendingWrite\<close> and the slot of the write queue of \<open>write_bridge.rs\<close>: one write, the
    thread of its job and the task of its connection, interleaved.
  \<^item> \<open>Peer\<close>, \<open>Peer_Jobs\<close>: \<open>Reads\<close> and its write queue, \<open>read_bridge.rs\<close> and \<open>write_bridge.rs\<close>: the state, admission,
    the jobs, completions, displacement, the watchdog and the end. \<open>Peer_Props\<close>, \<open>Peer_Security\<close>,
    \<open>Peer_Audit\<close>: their correctness; \<open>Peer_Demo\<close>: a concrete run.
  \<^item> \<open>Http_Static\<close>, \<open>Http_Api\<close>, \<open>Http\<close>, \<open>Http_Props\<close>: \<open>http.rs\<close>, the static files, the bodies and handlers of the
    API, the route table, \<open>dispatch\<close> and \<open>handle\<close>, and of \<open>bridge.rs\<close> the answer to an upgrade.
  \<^item> \<open>Server\<close>, \<open>Server_Props\<close>, \<open>Server_Demo\<close>: \<open>Server\<close> of \<open>http.rs\<close> with \<open>run\<close> of \<open>bridge.rs\<close> around the serving of a
    socket; requests, polls, sockets, commands and maintenance interleave in \<open>server_step\<close>, over the gateway.

  Definitions have the names of the sources where HOL allows it; the state of a component is a record
  with the fields of the struct, an operation takes the state and returns it with its result, an error
  or an early return is \<open>Inl\<close> of its code or status, a panic is \<open>None\<close>.

  \<^bold>\<open>What the lemmas show.\<close> Each component has an invariant that every operation keeps and that holds in
  every reachable state (\<open>..._reach\<close> predicates over \<open>..._step\<close> relations, by rule induction); the composition
  has a joint one (\<open>gateway_invariant\<close>), and so have a connection (\<open>connection_invariant\<close>) and the server
  with its tasks (\<open>server_invariant\<close>). On them rest the security properties: what the guard accepts and at
  which rate, that the routes of sessions act for sessions only, which files can be served, that a challenge, a ticket and a claim
  are used once, what a session may do and until when, that a write is admitted, started and audited
  only with its authority, that a dropped write never reaches the Host and that every write is answered
  once, that a release is never refused. Refinements: the desktop's copy of the devices, and the channel of a connection under the
  whole connection. Round trips: the login header and chunked snapshots. Every property with a
  hypothesis has a witness on a concrete, mostly reachable, state.

  \<^bold>\<open>Parameters.\<close> Code that is not in the repository is an argument: SHA-256, HMAC, URL-safe
  base64 and the checks of public keys (record \<open>ext\<close>), the URL parser, the WebAuthn library (\<open>webauthn_lib\<close>), the JSON writer \<open>S\<close>, the
  parser \<open>J\<close>, the writer of a timestamp \<open>T\<close> (for the routes together in the record \<open>api\<close>), the collector of
  bodies, the handshake check and the file system under the routes (record \<open>web\<close>), the standard base64 coder \<open>E\<close>, \<open>D\<close>, and the rounding \<open>fl\<close> of a
  floating-point operation. The Host behind the gateway is a port (\<open>herdr_port\<close>, \<open>herdr_manager\<close>, \<open>host_git\<close>) over
  an arbitrary state. Random bytes are arguments (for a request the record \<open>draw\<close>), \<open>None\<close> when the generator fails. A handler that reads
  the clock several times takes its readings as a function \<open>nows\<close> of their number; \<open>later\<close> shifts it.
  JSON numbers are integers; floats occur only in rates.

  \<^bold>\<open>Bounds and fuel.\<close> Loops are recursions with a proof of termination, mostly structural; \<open>chunks_of\<close>,
  \<open>frames_next\<close> and \<open>drain\<close> by the length of what is left; \<open>clock_until\<close> waits for a clock and is partial, with
  its termination as a property; the rejection sampling of the authentication string is an iteration
  over at most \<open>2 ^ 32\<close> counters, the range of the counter; a Git read is retried once, as in the source.
  Queues, tables and permits have the capacities of the sources, and their bounds are properties.

  \<^bold>\<open>Concurrency.\<close> Handlers run under the identity lock and are single steps. The executor, the writer of
  the socket, the callbacks of the Host and the rest of the companion interleave with them as steps of
  \<open>wire_step\<close>, \<open>chan_step\<close> and \<open>jobs_step\<close>, the tasks of the server as steps of \<open>server_step\<close>; a job is one step of a connection, and its race with a
  cancellation is resolved at the level of single atomic accesses in \<open>Write_Race\<close>. The release tasks finish
  in any order; \<open>drain\<close> runs them in one, to the state that the source polls for.

  \<^bold>\<open>Not modelled.\<close> Process start, parent watch and the tasks of \<open>main.rs\<close>, \<open>lib.rs\<close> and \<open>parent.rs\<close>; of
  \<open>http.rs\<close> the parsing of HTTP, the timers of a connection, the hold of the port after an expiry and the task
  that sends pushes; of \<open>bridge.rs\<close> the socket, pings and timeouts and the lingering close; the audit event of a release that takes more than ten seconds; what follows a panic
  (the panics are \<open>None\<close>: the draws that miss the digits of an authentication string, the cookie that is no
  header, the missing entries; the locks they poison are not modelled); waking of
  tasks (\<open>Notify\<close>), which only decides when a step runs. The network node but for its encoder is Go. The
  Host services (Git, databases, search, Herdr, trust), the desktop application and its frontend are
  other programs: they run processes, drivers and user interfaces, and reach the gateway only through
  the ports above.
\<close>

end
